(* ===== verification/Rpr_Prelude.thy ===== *)
theory Rpr_Prelude
  imports Main "HOL-Library.List_Lexorder"
begin

text \<open>
  The prelude of the development: Python strings as lists of code points, the
  exceptions the runtime raises and catches, the state-and-exception computations in
  which the stateful modules are written, the schedule of storage faults, and the
  weakest-precondition rules (collection \<open>wp\<close>) that carry the component proofs.
\<close>

named_theorems wp \<open>weakest-precondition equations of the computation combinators\<close>
named_theorems steps \<open>unfolding equations of the computation combinators\<close>

section \<open>Strings\<close>

text \<open>
  A Python \<open>str\<close> is a sequence of code points; a code point is a natural number
  (surrogates included, as in Python). \<open>str ''abc''\<close> is the literal \<open>"abc"\<close>.
\<close>

type_synonym pystr = "nat list"

definition str :: "string \<Rightarrow> pystr" where
  "str s = map of_char s"

lemma str_eq_iff [simp]: "str a = str b \<longleftrightarrow> a = b"
  by (simp add: str_def inj_map_eq_map inj_on_def)

lemma str_Nil [simp]: "str [] = []"
  by (simp add: str_def)

lemma str_eq_Nil_iff [simp]: "str s = [] \<longleftrightarrow> s = []" "[] = str s \<longleftrightarrow> s = []"
  by (auto simp: str_def)

lemma length_str [simp]: "length (str s) = length s"
  by (simp add: str_def)

text \<open>The code points that \<open>str.strip()\<close> removes (\<open>str.isspace\<close>).\<close>

definition is_space :: "nat \<Rightarrow> bool" where
  "is_space c \<longleftrightarrow> (9 \<le> c \<and> c \<le> 13) \<or> (28 \<le> c \<and> c \<le> 32) \<or> c = 133 \<or> c = 160 \<or> c = 5760
     \<or> (8192 \<le> c \<and> c \<le> 8202) \<or> c = 8232 \<or> c = 8233 \<or> c = 8239 \<or> c = 8287 \<or> c = 12288"

definition strip :: "pystr \<Rightarrow> pystr" where
  "strip s = rev (dropWhile is_space (rev (dropWhile is_space s)))"

text \<open>\<open>not s.strip()\<close>: the string has no visible character.\<close>

definition blank :: "pystr \<Rightarrow> bool" where
  "blank s \<longleftrightarrow> strip s = []"

lemma blank_iff: "blank s \<longleftrightarrow> list_all is_space s"
proof -
  have "strip s = [] \<longleftrightarrow> list_all is_space (dropWhile is_space s)"
    by (simp add: strip_def dropWhile_eq_Nil_conv list_all_iff)
  also have "\<dots> \<longleftrightarrow> list_all is_space s"
    by (induction s) auto
  finally show ?thesis by (simp add: blank_def)
qed

lemma blank_Nil [simp]: "blank []"
  by (simp add: blank_iff)

lemma not_blank_nonempty: "\<not> blank s \<Longrightarrow> s \<noteq> []"
  by auto

lemma dropWhile_fixed: "dropWhile P s = s \<longleftrightarrow> (case s of [] \<Rightarrow> True | c # _ \<Rightarrow> \<not> P c)"
proof (cases s)
  case (Cons c cs)
  have "length (dropWhile P cs) \<le> length cs" by (rule length_dropWhile_le)
  then have "dropWhile P cs \<noteq> c # cs" by (metis impossible_Cons)
  with Cons show ?thesis by auto
qed simp

lemma dropWhile_idem [simp]: "dropWhile P (dropWhile P s) = dropWhile P s"
  by (induction s) auto

lemma strip_strip [simp]: "strip (strip s) = strip s"
proof -
  define a where "a = dropWhile is_space s"
  define b where "b = rev (dropWhile is_space (rev a))"
  have a: "dropWhile is_space a = a" by (simp add: a_def)
  have b: "dropWhile is_space b = b"
  proof (cases b)
    case Nil
    then show ?thesis by simp
  next
    case (Cons c cs)
    have "\<exists>zs. rev a = zs @ dropWhile is_space (rev a)"
      by (metis takeWhile_dropWhile_id)
    then obtain zs where "rev a = zs @ rev b" by (auto simp: b_def)
    then have "a = b @ rev zs" by (metis rev_append rev_rev_ident)
    with Cons have "a = c # (cs @ rev zs)" by simp
    with a have "\<not> is_space c" by (metis dropWhile_fixed list.simps(5))
    with Cons show ?thesis by simp
  qed
  have "strip s = b" by (simp add: strip_def a_def b_def)
  moreover have "strip b = b" using b by (simp add: strip_def) (simp add: b_def)
  ultimately show ?thesis by simp
qed

lemma blank_strip [simp]: "blank (strip s) \<longleftrightarrow> blank s"
  by (simp add: blank_def)

section \<open>Exceptions\<close>

text \<open>
  The exception classes of the modules in scope, of the standard library they use, and
  two that stand for the environment: \<open>OtherException n\<close>, an \<open>Exception\<close> subclass
  called \<open>n\<close> raised by a callback, and \<open>Crash\<close>, the process stopping between two
  statements, which no handler of the program sees.
\<close>

datatype exn_kind =
    ValueError | TypeError | KeyError | RuntimeError | OSError | PermissionError
  | TimeoutError | ConnectionError | BrokenPipeError | UnicodeEncodeError
  | UnicodeDecodeError | JSONDecodeError
  | SqliteOperationalError | SqliteIntegrityError | SqliteError
  | InvalidTransition | AuthorityError | EvidenceLimitError
  | AttemptConflictError | AttemptFingerprintError | AttemptResultPersistenceError
  | IdempotencyConflictError | RpeContractError | TenantBoundaryError | PrincipalError
  | McpTransportError | McpStdioFramingError | McpAdmissionError | McpPreDispatchError
  | McpToolCallNotSentError | McpToolCallOutcomeUnknownError | McpJsonRpcRemoteError
  | McpProcessLifecycleError | McpRetainedEvidenceError | ReadOnlyDatabaseError
  | SchemaVersionError | AttemptSchemaVersionError | TenantSchemaVersionError | OutboxSchemaVersionError
  | McpLocalSubprocessError | ReadOnlyConnectionError | ClaimTraceabilityError | SourceContextError
  | AssuranceManifestError | BackupError | CustomerHandoverError | LifecycleAcceptanceError
  | JsonRpcError int | OtherException pystr | Crash

datatype exn = Exn (exn_kind: exn_kind) (exn_msg: pystr)

text \<open>The classes an exception is an instance of, besides \<open>Exception\<close> itself.\<close>

fun mro :: "exn_kind \<Rightarrow> exn_kind list" where
  "mro PermissionError = [PermissionError, OSError]"
| "mro TimeoutError = [TimeoutError, OSError]"
| "mro ConnectionError = [ConnectionError, OSError]"
| "mro BrokenPipeError = [BrokenPipeError, ConnectionError, OSError]"
| "mro UnicodeEncodeError = [UnicodeEncodeError, ValueError]"
| "mro UnicodeDecodeError = [UnicodeDecodeError, ValueError]"
| "mro JSONDecodeError = [JSONDecodeError, ValueError]"
| "mro SqliteOperationalError = [SqliteOperationalError, SqliteError]"
| "mro SqliteIntegrityError = [SqliteIntegrityError, SqliteError]"
| "mro InvalidTransition = [InvalidTransition, ValueError]"
| "mro AuthorityError = [AuthorityError, PermissionError, OSError]"
| "mro EvidenceLimitError = [EvidenceLimitError, ValueError]"
| "mro AttemptConflictError = [AttemptConflictError, RuntimeError]"
| "mro AttemptFingerprintError = [AttemptFingerprintError, ValueError]"
| "mro AttemptResultPersistenceError = [AttemptResultPersistenceError, ValueError]"
| "mro IdempotencyConflictError = [IdempotencyConflictError, RuntimeError]"
| "mro RpeContractError = [RpeContractError, RuntimeError]"
| "mro TenantBoundaryError = [TenantBoundaryError, PermissionError, OSError]"
| "mro PrincipalError = [PrincipalError, PermissionError, OSError]"
| "mro McpTransportError = [McpTransportError, RuntimeError]"
| "mro McpStdioFramingError = [McpStdioFramingError, McpTransportError, RuntimeError]"
| "mro McpAdmissionError = [McpAdmissionError, ValueError]"
| "mro McpPreDispatchError = [McpPreDispatchError, RuntimeError]"
| "mro McpToolCallNotSentError = [McpToolCallNotSentError, McpTransportError, RuntimeError]"
| "mro McpToolCallOutcomeUnknownError =
     [McpToolCallOutcomeUnknownError, McpTransportError, RuntimeError]"
| "mro McpJsonRpcRemoteError = [McpJsonRpcRemoteError, McpTransportError, RuntimeError]"
| "mro McpProcessLifecycleError = [McpProcessLifecycleError, McpTransportError, RuntimeError]"
| "mro McpRetainedEvidenceError = [McpRetainedEvidenceError, ValueError]"
| "mro ReadOnlyDatabaseError = [ReadOnlyDatabaseError, RuntimeError]"
| "mro SchemaVersionError = [SchemaVersionError, RuntimeError]"
| "mro AttemptSchemaVersionError = [AttemptSchemaVersionError, RuntimeError]"
| "mro TenantSchemaVersionError = [TenantSchemaVersionError, RuntimeError]"
| "mro OutboxSchemaVersionError = [OutboxSchemaVersionError, RuntimeError]"
| "mro McpLocalSubprocessError = [McpLocalSubprocessError, McpTransportError, RuntimeError]"
| "mro ReadOnlyConnectionError = [ReadOnlyConnectionError, RuntimeError]"
| "mro ClaimTraceabilityError = [ClaimTraceabilityError, ValueError]"
| "mro SourceContextError = [SourceContextError, ValueError]"
| "mro AssuranceManifestError = [AssuranceManifestError, ValueError]"
| "mro BackupError = [BackupError, RuntimeError]"
| "mro CustomerHandoverError = [CustomerHandoverError, RuntimeError]"
| "mro LifecycleAcceptanceError = [LifecycleAcceptanceError, RuntimeError]"
| "mro k = [k]"

text \<open>\<open>except (c1, c2, ...)\<close> and \<open>except Exception\<close>.\<close>

definition catches :: "exn_kind list \<Rightarrow> exn \<Rightarrow> bool" where
  "catches cs e \<longleftrightarrow> list_ex (\<lambda>k. k \<in> set cs) (mro (exn_kind e))"

definition is_exception :: "exn \<Rightarrow> bool" where
  "is_exception e \<longleftrightarrow> exn_kind e \<noteq> Crash"

text \<open>\<open>type(exc).__name__\<close>.\<close>

fun exn_name :: "exn_kind \<Rightarrow> pystr" where
  "exn_name ValueError = str ''ValueError''"
| "exn_name TypeError = str ''TypeError''"
| "exn_name KeyError = str ''KeyError''"
| "exn_name RuntimeError = str ''RuntimeError''"
| "exn_name OSError = str ''OSError''"
| "exn_name PermissionError = str ''PermissionError''"
| "exn_name TimeoutError = str ''TimeoutError''"
| "exn_name ConnectionError = str ''ConnectionError''"
| "exn_name BrokenPipeError = str ''BrokenPipeError''"
| "exn_name UnicodeEncodeError = str ''UnicodeEncodeError''"
| "exn_name UnicodeDecodeError = str ''UnicodeDecodeError''"
| "exn_name JSONDecodeError = str ''JSONDecodeError''"
| "exn_name SqliteOperationalError = str ''OperationalError''"
| "exn_name SqliteIntegrityError = str ''IntegrityError''"
| "exn_name SqliteError = str ''Error''"
| "exn_name InvalidTransition = str ''InvalidTransition''"
| "exn_name AuthorityError = str ''AuthorityError''"
| "exn_name EvidenceLimitError = str ''EvidenceLimitError''"
| "exn_name AttemptConflictError = str ''AttemptConflictError''"
| "exn_name AttemptFingerprintError = str ''AttemptFingerprintError''"
| "exn_name AttemptResultPersistenceError = str ''AttemptResultPersistenceError''"
| "exn_name IdempotencyConflictError = str ''IdempotencyConflictError''"
| "exn_name RpeContractError = str ''RpeContractError''"
| "exn_name TenantBoundaryError = str ''TenantBoundaryError''"
| "exn_name PrincipalError = str ''PrincipalError''"
| "exn_name McpTransportError = str ''McpTransportError''"
| "exn_name McpStdioFramingError = str ''McpStdioFramingError''"
| "exn_name McpAdmissionError = str ''McpAdmissionError''"
| "exn_name McpPreDispatchError = str ''McpPreDispatchError''"
| "exn_name McpToolCallNotSentError = str ''McpToolCallNotSentError''"
| "exn_name McpToolCallOutcomeUnknownError = str ''McpToolCallOutcomeUnknownError''"
| "exn_name McpJsonRpcRemoteError = str ''McpJsonRpcRemoteError''"
| "exn_name McpProcessLifecycleError = str ''McpProcessLifecycleError''"
| "exn_name McpRetainedEvidenceError = str ''McpRetainedEvidenceError''"
| "exn_name ReadOnlyDatabaseError = str ''ReadOnlyDatabaseError''"
| "exn_name SchemaVersionError = str ''SchemaVersionError''"
| "exn_name AttemptSchemaVersionError = str ''AttemptSchemaVersionError''"
| "exn_name TenantSchemaVersionError = str ''TenantSchemaVersionError''"
| "exn_name OutboxSchemaVersionError = str ''OutboxSchemaVersionError''"
| "exn_name McpLocalSubprocessError = str ''McpLocalSubprocessError''"
| "exn_name ReadOnlyConnectionError = str ''ReadOnlyConnectionError''"
| "exn_name ClaimTraceabilityError = str ''ClaimTraceabilityError''"
| "exn_name SourceContextError = str ''SourceContextError''"
| "exn_name AssuranceManifestError = str ''AssuranceManifestError''"
| "exn_name BackupError = str ''BackupError''"
| "exn_name CustomerHandoverError = str ''CustomerHandoverError''"
| "exn_name LifecycleAcceptanceError = str ''LifecycleAcceptanceError''"
| "exn_name (JsonRpcError c) = str ''JsonRpcError''"
| "exn_name (OtherException n) = n"
| "exn_name Crash = str ''Crash''"

type_synonym 'a res = "exn + 'a"

abbreviation err :: "exn_kind \<Rightarrow> string \<Rightarrow> 'a res" where
  "err k m \<equiv> Inl (Exn k (str m))"

text \<open>Sequencing of a fallible pure step.\<close>

definition rbind :: "'a res \<Rightarrow> ('a \<Rightarrow> 'b res) \<Rightarrow> 'b res" where
  "rbind r f = (case r of Inl e \<Rightarrow> Inl e | Inr a \<Rightarrow> f a)"

lemma rbind_simps [simp]: "rbind (Inl e) f = Inl e" "rbind (Inr a) f = f a"
  by (simp_all add: rbind_def)

lemma rbind_eq_Inr: "rbind r f = Inr b \<longleftrightarrow> (\<exists>a. r = Inr a \<and> f a = Inr b)"
  by (cases r) auto

definition check :: "bool \<Rightarrow> exn_kind \<Rightarrow> string \<Rightarrow> unit res" where
  "check b k m = (if b then Inr () else err k m)"

lemma check_simps [simp]:
  "check b k m = Inr u \<longleftrightarrow> b" "check b k m = Inl e \<longleftrightarrow> \<not> b \<and> e = Exn k (str m)"
  by (auto simp: check_def)

section \<open>Computations\<close>

text \<open>
  A stateful method takes the state and returns its value or the exception it raises,
  together with the state it leaves behind (what was written before a raise stays
  written).
\<close>

type_synonym ('s, 'a) py = "'s \<Rightarrow> 'a res \<times> 's"

definition ret :: "'a \<Rightarrow> ('s, 'a) py" where
  "ret a = (\<lambda>s. (Inr a, s))"

definition throw :: "exn \<Rightarrow> ('s, 'a) py" where
  "throw e = (\<lambda>s. (Inl e, s))"

definition raise :: "exn_kind \<Rightarrow> string \<Rightarrow> ('s, 'a) py" where
  "raise k m = throw (Exn k (str m))"

definition lift :: "'a res \<Rightarrow> ('s, 'a) py" where
  "lift r = (\<lambda>s. (r, s))"

definition query :: "('s \<Rightarrow> 'a res) \<Rightarrow> ('s, 'a) py" where
  "query f = (\<lambda>s. (f s, s))"

definition bnd :: "('s, 'a) py \<Rightarrow> ('a \<Rightarrow> ('s, 'b) py) \<Rightarrow> ('s, 'b) py" where
  "bnd m f = (\<lambda>s. case m s of (Inl e, t) \<Rightarrow> (Inl e, t) | (Inr a, t) \<Rightarrow> f a t)"

definition seq :: "('s, 'a) py \<Rightarrow> ('s, 'b) py \<Rightarrow> ('s, 'b) py" where
  "seq m n = bnd m (\<lambda>_. n)"

text \<open>\<open>try: m except <p>: h\<close>.\<close>

definition handle :: "(exn \<Rightarrow> bool) \<Rightarrow> ('s, 'a) py \<Rightarrow> (exn \<Rightarrow> ('s, 'a) py) \<Rightarrow> ('s, 'a) py" where
  "handle p m h = (\<lambda>s. case m s of
     (Inl e, t) \<Rightarrow> (if p e then h e t else (Inl e, t))
   | (Inr a, t) \<Rightarrow> (Inr a, t))"

text \<open>Running a component's method on its part of a larger state.\<close>

definition zoom :: "('t \<Rightarrow> 's) \<Rightarrow> ('s \<Rightarrow> 't \<Rightarrow> 't) \<Rightarrow> ('s, 'a) py \<Rightarrow> ('t, 'a) py" where
  "zoom get put m = (\<lambda>t. case m (get t) of (r, s) \<Rightarrow> (r, put s t))"

lemmas comb_defs = ret_def throw_def raise_def lift_def query_def bnd_def seq_def handle_def
  zoom_def

lemma run_simps [steps, simp]:
  "ret a s = (Inr a, s)"
  "throw e s = (Inl e, s)"
  "raise k m s = (Inl (Exn k (str m)), s)"
  "lift r s = (r, s)"
  "query f s = (f s, s)"
  by (simp_all add: comb_defs)

lemma bnd_run [steps]:
  "m s = (Inr a, t) \<Longrightarrow> bnd m f s = f a t"
  "m s = (Inl e, t) \<Longrightarrow> bnd m f s = (Inl e, t)"
  by (simp_all add: comb_defs)

lemma seq_run [steps]:
  "m s = (Inr a, t) \<Longrightarrow> seq m n s = n t"
  "m s = (Inl e, t) \<Longrightarrow> seq m n s = (Inl e, t)"
  by (simp_all add: comb_defs)

lemma handle_run [steps]:
  "m s = (Inr a, t) \<Longrightarrow> handle p m h s = (Inr a, t)"
  "m s = (Inl e, t) \<Longrightarrow> p e \<Longrightarrow> handle p m h s = h e t"
  "m s = (Inl e, t) \<Longrightarrow> \<not> p e \<Longrightarrow> handle p m h s = (Inl e, t)"
  by (simp_all add: comb_defs)

section \<open>Weakest preconditions\<close>

text \<open>
  \<open>wp m Q E s\<close>: run from \<open>s\<close>, \<open>m\<close> either returns with \<open>Q\<close> or raises with \<open>E\<close>.
\<close>

definition wp :: "('s, 'a) py \<Rightarrow> ('a \<Rightarrow> 's \<Rightarrow> bool) \<Rightarrow> (exn \<Rightarrow> 's \<Rightarrow> bool) \<Rightarrow> 's \<Rightarrow> bool" where
  "wp m Q E s \<longleftrightarrow> (case m s of (Inl e, t) \<Rightarrow> E e t | (Inr a, t) \<Rightarrow> Q a t)"

lemma wp_combs [wp]:
  "wp (ret a) Q E s \<longleftrightarrow> Q a s"
  "wp (throw e) Q E s \<longleftrightarrow> E e s"
  "wp (raise k msg) Q E s \<longleftrightarrow> E (Exn k (str msg)) s"
  "wp (lift r) Q E s \<longleftrightarrow> (case r of Inl e \<Rightarrow> E e s | Inr a \<Rightarrow> Q a s)"
  "wp (query g) Q E s \<longleftrightarrow> (case g s of Inl e \<Rightarrow> E e s | Inr a \<Rightarrow> Q a s)"
  "wp (bnd mb f) Q E s \<longleftrightarrow> wp mb (\<lambda>b. wp (f b) Q E) E s"
  "wp (seq ms n) Q E s \<longleftrightarrow> wp ms (\<lambda>_. wp n Q E) E s"
  "wp (handle p m h) Q E s \<longleftrightarrow> wp m Q (\<lambda>e t. if p e then wp (h e) Q E t else E e t) s"
  "wp (zoom get put m2) Q2 E2 t \<longleftrightarrow>
     wp m2 (\<lambda>a u. Q2 a (put u t)) (\<lambda>e u. E2 e (put u t)) (get t)"
  by (auto simp: wp_def comb_defs split: sum.splits prod.splits)

lemma wp_if [wp]: "wp (if b then m else n) Q E s \<longleftrightarrow> (if b then wp m Q E s else wp n Q E s)"
  by simp

lemma wp_mono:
  "wp m Q E s \<Longrightarrow> (\<And>a t. Q a t \<Longrightarrow> Q' a t) \<Longrightarrow> (\<And>e t. E e t \<Longrightarrow> E' e t) \<Longrightarrow> wp m Q' E' s"
  by (auto simp: wp_def split: sum.splits prod.splits)

lemma wp_conj: "wp m Q E s \<Longrightarrow> wp m Q' E' s \<Longrightarrow> wp m (\<lambda>a t. Q a t \<and> Q' a t) (\<lambda>e t. E e t \<and> E' e t) s"
  by (auto simp: wp_def split: sum.splits prod.splits)

lemma wpI: "(\<And>a t. m s = (Inr a, t) \<Longrightarrow> Q a t) \<Longrightarrow> (\<And>e t. m s = (Inl e, t) \<Longrightarrow> E e t) \<Longrightarrow> wp m Q E s"
  by (auto simp: wp_def split: sum.splits prod.splits)

lemma wp_returnD: "wp m Q E s \<Longrightarrow> m s = (Inr a, t) \<Longrightarrow> Q a t"
  by (simp add: wp_def)

lemma wp_raiseD: "wp m Q E s \<Longrightarrow> m s = (Inl e, t) \<Longrightarrow> E e t"
  by (simp add: wp_def)

text \<open>An invariant kept whatever the outcome.\<close>

definition keeps :: "('s \<Rightarrow> bool) \<Rightarrow> ('s, 'a) py \<Rightarrow> bool" where
  "keeps I m \<longleftrightarrow> (\<forall>s. I s \<longrightarrow> I (snd (m s)))"

lemma keeps_wp: "keeps I m \<longleftrightarrow> (\<forall>s. I s \<longrightarrow> wp m (\<lambda>_. I) (\<lambda>_. I) s)"
proof -
  have "wp m (\<lambda>_. I) (\<lambda>_. I) s \<longleftrightarrow> I (snd (m s))" for s
    by (cases "m s"; cases "fst (m s)") (auto simp: wp_def)
  then show ?thesis by (simp add: keeps_def)
qed

lemma keepsD: "keeps I m \<Longrightarrow> I s \<Longrightarrow> m s = (r, t) \<Longrightarrow> I t"
  by (force simp: keeps_def)

lemma keeps_intros [intro]:
  "keeps I (ret a)" "keeps I (throw e)" "keeps I (raise k msg)" "keeps I (lift r)"
  "keeps I (query g)"
  "keeps I mb \<Longrightarrow> (\<And>b. keeps I (f b)) \<Longrightarrow> keeps I (bnd mb f)"
  "keeps I ms \<Longrightarrow> keeps I n \<Longrightarrow> keeps I (seq ms n)"
  "keeps I m \<Longrightarrow> (\<And>e. keeps I (h e)) \<Longrightarrow> keeps I (handle p m h)"
  "(b \<Longrightarrow> keeps I m) \<Longrightarrow> (\<not> b \<Longrightarrow> keeps I n) \<Longrightarrow> keeps I (if b then m else n)"
  by (auto simp: keeps_def comb_defs split: sum.splits prod.splits)

section \<open>Storage faults\<close>

text \<open>
  Every statement sent to a SQLite connection consumes one entry of the connection's
  fault schedule: it succeeds, fails (locked database, full disk), or the process stops
  before it. An exhausted schedule means no further faults. A transaction of the
  program is one such step: it is committed as a whole or rolled back.
\<close>

datatype fault = Fine | Failing | Stopping

definition db_step :: "('s \<Rightarrow> fault list) \<Rightarrow> (fault list \<Rightarrow> 's \<Rightarrow> 's) \<Rightarrow> ('s, 'a) py \<Rightarrow> ('s, 'a) py" where
  "db_step get put m = (\<lambda>s. case get s of
     [] \<Rightarrow> m s
   | Fine # fs \<Rightarrow> m (put fs s)
   | Failing # fs \<Rightarrow> (Inl (Exn SqliteOperationalError (str ''database is locked'')), put fs s)
   | Stopping # fs \<Rightarrow> (Inl (Exn Crash []), put fs s))"

lemma wp_db_step:
  assumes "\<And>fs. wp m Q E (put fs s)" and "wp m Q E s"
    and "\<And>fs. E (Exn SqliteOperationalError (str ''database is locked'')) (put fs s)"
    and "\<And>fs. E (Exn Crash []) (put fs s)"
  shows "wp (db_step get put m) Q E s"
  using assms by (auto simp: wp_def db_step_def split: list.splits fault.splits)

end
