(* ===== verification/Rpr_Values.thy ===== *)
theory Rpr_Values
  imports Rpr_Prelude Complex_Main "HOL-Library.AList" "HOL-Library.Multiset"
begin

text \<open>
  Python values of type \<open>Any\<close> and what the standard library does with them: UTF-8
  encoding, \<open>json.dumps\<close> with sorted keys and compact separators, and \<open>dict\<close> access.
  The main lemma is that the compact text of a JSON document determines the document
  (\<open>json_text_inject\<close>), so that equal fingerprints of different requests are collisions
  of the hash function and of nothing else.
\<close>

section \<open>Values\<close>

text \<open>
  A finite float other than \<open>-0.0\<close> is its rational value. \<open>PDict\<close> lists the items of a
  mapping in insertion order. \<open>PObj t s\<close> is any other object, of type name \<open>t\<close> and
  \<open>str()\<close> text \<open>s\<close>.
\<close>

datatype pfloat = FNan | FInf bool | FNegZero | FFin rat

datatype pv =
    PNone
  | PBool bool
  | PInt int
  | PFloat pfloat
  | PStr pystr
  | PList "pv list"
  | PTuple "pv list"
  | PDict "(pv \<times> pv) list"
  | PObj pystr pystr

fun is_finite :: "pfloat \<Rightarrow> bool" where
  "is_finite FNan = False"
| "is_finite (FInf _) = False"
| "is_finite FNegZero = True"
| "is_finite (FFin _) = True"

type_synonym pdict = "(pv \<times> pv) list"

text \<open>A dict display with literal keys, and an optional string as a value.\<close>

definition obj :: "(string \<times> pv) list \<Rightarrow> pdict" where
  "obj kvs = map (\<lambda>(k, v). (PStr (str k), v)) kvs"

definition opt_str :: "pystr option \<Rightarrow> pv" where
  "opt_str x = (case x of None \<Rightarrow> PNone | Some s \<Rightarrow> PStr s)"

text \<open>\<open>d[k]\<close> as an option, \<open>d.get(k)\<close> with its default \<open>None\<close>, and \<open>d[k] = v\<close>.\<close>

definition dget :: "pdict \<Rightarrow> pystr \<Rightarrow> pv option" where
  "dget d k = map_of d (PStr k)"

definition dget_none :: "pdict \<Rightarrow> pystr \<Rightarrow> pv" where
  "dget_none d k = (case dget d k of None \<Rightarrow> PNone | Some v \<Rightarrow> v)"

definition dset :: "pystr \<Rightarrow> pv \<Rightarrow> pdict \<Rightarrow> pdict" where
  "dset k v d = AList.update (PStr k) v d"

lemma dget_Nil [simp]: "dget [] k = None"
  by (simp add: dget_def)

lemma dget_obj_Nil [simp]: "dget (obj []) k = None"
  by (simp add: dget_def obj_def)

lemma dget_obj_Cons [simp]:
  "dget (obj ((k, v) # r)) (str k') = (if k = k' then Some v else dget (obj r) (str k'))"
  by (simp add: dget_def obj_def)

lemma dget_dset: "dget (dset k v d) k' = (if k = k' then Some v else dget d k')"
  by (simp add: dget_def dset_def update_conv')

section \<open>UTF-8\<close>

definition surrogate :: "nat \<Rightarrow> bool" where
  "surrogate c \<longleftrightarrow> 55296 \<le> c \<and> c \<le> 57343"

definition utf8_char :: "nat \<Rightarrow> nat list" where
  "utf8_char c =
     (if c < 128 then [c]
      else if c < 2048 then [192 + c div 64, 128 + c mod 64]
      else if c < 65536 then [224 + c div 4096, 128 + (c div 64) mod 64, 128 + c mod 64]
      else [240 + c div 262144, 128 + (c div 4096) mod 64, 128 + (c div 64) mod 64,
            128 + c mod 64])"

definition utf8_encode :: "pystr \<Rightarrow> nat list res" where
  "utf8_encode s =
     (if list_ex surrogate s then err UnicodeEncodeError ''surrogates not allowed''
      else Inr (concat (map utf8_char s)))"

lemma utf8_char_nonempty [simp]: "utf8_char c \<noteq> []"
  by (simp add: utf8_char_def)

lemma div_mod_64: "c div 64 = d div 64 \<Longrightarrow> c mod 64 = d mod 64 \<Longrightarrow> c = (d::nat)"
  by (metis div_mult_mod_eq)

text \<open>The lead byte tells the length class of the character.\<close>

lemma utf8_lead:
  "hd (utf8_char c) < 128 \<longleftrightarrow> c < 128" "hd (utf8_char c) < 224 \<longleftrightarrow> c < 2048"
  "hd (utf8_char c) < 240 \<longleftrightarrow> c < 65536"
proof -
  have "c < 2048 \<Longrightarrow> c div 64 < 32" and "c < 65536 \<Longrightarrow> c div 4096 < 16"
    by (simp_all add: less_mult_imp_div_less)
  then show "hd (utf8_char c) < 128 \<longleftrightarrow> c < 128" "hd (utf8_char c) < 224 \<longleftrightarrow> c < 2048"
    "hd (utf8_char c) < 240 \<longleftrightarrow> c < 65536"
    unfolding utf8_char_def by (auto split: if_split)
qed

lemma utf8_char_prefix:
  assumes eq: "utf8_char c @ x = utf8_char d @ y"
  shows "c = d \<and> x = y"
proof -
  have q1: "n div 4096 = n div 64 div 64" and q2: "n div 262144 = n div 64 div 64 div 64" for n :: nat
    by (simp_all add: div_mult2_eq [symmetric])
  have "hd (utf8_char c) = hd (utf8_char d)"
    using eq by (metis hd_append2 utf8_char_nonempty)
  then have cls: "(c < 128) = (d < 128)" "(c < 2048) = (d < 2048)" "(c < 65536) = (d < 65536)"
    by (metis utf8_lead)+
  have len: "length (utf8_char c) = length (utf8_char d)"
    using cls by (simp add: utf8_char_def)
  with eq have tails: "utf8_char c = utf8_char d" "x = y" by simp_all
  have "c = d"
  proof -
    consider "c < 128" | "128 \<le> c" "c < 2048" | "2048 \<le> c" "c < 65536" | "65536 \<le> c"
      by linarith
    then show ?thesis
    proof cases
      case 1
      with cls tails(1) show ?thesis by (simp add: utf8_char_def)
    next
      case 2
      with cls tails(1) have "c div 64 = d div 64" "c mod 64 = d mod 64"
        by (simp_all add: utf8_char_def)
      then show ?thesis by (rule div_mod_64)
    next
      case 3
      with cls tails(1) have e: "c div 4096 = d div 4096" "c div 64 mod 64 = d div 64 mod 64"
        "c mod 64 = d mod 64"
        by (simp_all add: utf8_char_def)
      from e(1,2) have "c div 64 = d div 64" unfolding q1 by (rule div_mod_64)
      then show ?thesis using e(3) by (rule div_mod_64)
    next
      case 4
      with cls tails(1) have e: "c div 262144 = d div 262144"
        "c div 4096 mod 64 = d div 4096 mod 64" "c div 64 mod 64 = d div 64 mod 64"
        "c mod 64 = d mod 64"
        by (simp_all add: utf8_char_def)
      from e(1,2) have "c div 64 div 64 = d div 64 div 64" unfolding q1 q2 by (rule div_mod_64)
      then have "c div 64 = d div 64" using e(3) by (rule div_mod_64)
      then show ?thesis using e(4) by (rule div_mod_64)
    qed
  qed
  with tails(2) show ?thesis by simp
qed

lemma utf8_concat_inject:
  "concat (map utf8_char s) = concat (map utf8_char t) \<Longrightarrow> s = t"
proof (induction s arbitrary: t)
  case Nil
  then show ?case by (cases t) auto
next
  case (Cons c s)
  then obtain d t' where t: "t = d # t'" by (cases t) auto
  with Cons.prems have "utf8_char c @ concat (map utf8_char s) = utf8_char d @ concat (map utf8_char t')"
    by simp
  from utf8_char_prefix [OF this] Cons.IH t show ?case by auto
qed

lemma utf8_encode_inject: "utf8_encode s = Inr b \<Longrightarrow> utf8_encode t = Inr b \<Longrightarrow> s = t"
  by (auto simp: utf8_encode_def split: if_splits intro: utf8_concat_inject)

text \<open>\<open>len(value.encode("utf-8"))\<close>.\<close>

definition utf8_len :: "pystr \<Rightarrow> nat res" where
  "utf8_len s = rbind (utf8_encode s) (\<lambda>b. Inr (length b))"

section \<open>JSON text\<close>

fun nat_text :: "nat \<Rightarrow> pystr" where
  "nat_text n = (if n < 10 then [48 + n] else nat_text (n div 10) @ [48 + n mod 10])"

declare nat_text.simps [simp del]

definition int_text :: "int \<Rightarrow> pystr" where
  "int_text i = (if i < 0 then 45 # nat_text (nat (- i)) else nat_text (nat i))"

definition hex_digit :: "nat \<Rightarrow> nat" where
  "hex_digit n = (if n < 10 then 48 + n else 87 + n)"

definition escape_char :: "nat \<Rightarrow> pystr" where
  "escape_char c =
     (if c = 34 then [92, 34] else if c = 92 then [92, 92]
      else if c = 10 then [92, 110] else if c = 13 then [92, 114]
      else if c = 9 then [92, 116] else if c = 12 then [92, 102]
      else if c = 8 then [92, 98]
      else if c < 32 then [92, 117, 48, 48, hex_digit (c div 16), hex_digit (c mod 16)]
      else [c])"

definition string_text :: "pystr \<Rightarrow> pystr" where
  "string_text s = 34 # concat (map escape_char s) @ [34]"

text \<open>
  \<open>float.__repr__\<close> of a finite float is the parameter \<open>fr\<close>; the others are the names
  \<open>json.dumps\<close> writes when \<open>allow_nan\<close> is on.
\<close>

fun float_text :: "(rat \<Rightarrow> pystr) \<Rightarrow> pfloat \<Rightarrow> pystr" where
  "float_text fr FNan = str ''NaN''"
| "float_text fr (FInf neg) = (if neg then str ''-Infinity'' else str ''Infinity'')"
| "float_text fr FNegZero = str ''-0.0''"
| "float_text fr (FFin q) = fr q"

text \<open>The text of a key; the keys of a document are strings.\<close>

fun key_text :: "pv \<Rightarrow> pystr" where
  "key_text (PStr s) = s"
| "key_text _ = []"

text \<open>
  \<open>json.dumps(v, separators=(",", ":"), ensure_ascii=False)\<close> of a document: tuples are
  written as lists, a string key is written as a string. Keys of other types and foreign
  objects do not occur in documents (\<open>to_doc\<close> below).
\<close>

fun json_text :: "(rat \<Rightarrow> pystr) \<Rightarrow> pv \<Rightarrow> pystr"
  and json_texts :: "(rat \<Rightarrow> pystr) \<Rightarrow> pv list \<Rightarrow> pystr"
  and json_items :: "(rat \<Rightarrow> pystr) \<Rightarrow> (pv \<times> pv) list \<Rightarrow> pystr" where
  "json_text fr PNone = str ''null''"
| "json_text fr (PBool b) = (if b then str ''true'' else str ''false'')"
| "json_text fr (PInt i) = int_text i"
| "json_text fr (PFloat x) = float_text fr x"
| "json_text fr (PStr s) = string_text s"
| "json_text fr (PList vs) = 91 # json_texts fr vs @ [93]"
| "json_text fr (PTuple vs) = 91 # json_texts fr vs @ [93]"
| "json_text fr (PDict kvs) = 123 # json_items fr kvs @ [125]"
| "json_text fr (PObj t s) = []"
| "json_texts fr [] = []"
| "json_texts fr (v # vs) = json_text fr v @ (if vs = [] then [] else 44 # json_texts fr vs)"
| "json_items fr [] = []"
| "json_items fr ((k, v) # kvs) =
     string_text (key_text k) @ 58 # json_text fr v @ (if kvs = [] then [] else 44 # json_items fr kvs)"

text \<open>
  \<open>to_doc v\<close> is the document \<open>json.loads(json.dumps(v))\<close>, or the \<open>TypeError\<close> of a
  value that has no JSON form.
\<close>

fun to_doc :: "pv \<Rightarrow> pv res"
  and to_docs :: "pv list \<Rightarrow> pv list res"
  and to_items :: "(pv \<times> pv) list \<Rightarrow> (pv \<times> pv) list res" where
  "to_doc (PList vs) = rbind (to_docs vs) (\<lambda>ws. Inr (PList ws))"
| "to_doc (PTuple vs) = rbind (to_docs vs) (\<lambda>ws. Inr (PList ws))"
| "to_doc (PDict kvs) = rbind (to_items kvs) (\<lambda>ws. Inr (PDict ws))"
| "to_doc (PObj t s) = err TypeError ''object is not JSON serializable''"
| "to_doc v = Inr v"
| "to_docs [] = Inr []"
| "to_docs (v # vs) = rbind (to_doc v) (\<lambda>w. rbind (to_docs vs) (\<lambda>ws. Inr (w # ws)))"
| "to_items [] = Inr []"
| "to_items ((k, v) # kvs) = (case k of
       PStr s \<Rightarrow> rbind (to_doc v) (\<lambda>w. rbind (to_items kvs) (\<lambda>ws. Inr ((k, w) # ws)))
     | _ \<Rightarrow> err TypeError ''keys must be str'')"

text \<open>\<open>sort_keys=True\<close>: every object's items in the order of their keys.\<close>

fun canon :: "pv \<Rightarrow> pv"
  and canons :: "pv list \<Rightarrow> pv list"
  and canon_items :: "(pv \<times> pv) list \<Rightarrow> (pv \<times> pv) list" where
  "canon (PList vs) = PList (canons vs)"
| "canon (PTuple vs) = PTuple (canons vs)"
| "canon (PDict kvs) = PDict (sort_key (\<lambda>kv. key_text (fst kv)) (canon_items kvs))"
| "canon v = v"
| "canons [] = []"
| "canons (v # vs) = canon v # canons vs"
| "canon_items [] = []"
| "canon_items ((k, v) # kvs) = (k, canon v) # canon_items kvs"

text \<open>The canonical document and its bytes, as the modules hash them.\<close>

definition canonical_doc :: "pv \<Rightarrow> pv res" where
  "canonical_doc v = rbind (to_doc v) (\<lambda>d. Inr (canon d))"

definition canonical_bytes :: "(rat \<Rightarrow> pystr) \<Rightarrow> pv \<Rightarrow> nat list res" where
  "canonical_bytes fr v = rbind (canonical_doc v) (\<lambda>d. utf8_encode (json_text fr d))"

section \<open>The text of a document determines it\<close>

text \<open>
  What the encoding relies on of \<open>float.__repr__\<close>: it is injective on finite floats, uses
  the characters of number literals only, and is told apart from an integer by a point or
  an exponent, and from \<open>-0.0\<close>.
\<close>

definition num_char :: "nat \<Rightarrow> bool" where
  "num_char c \<longleftrightarrow> (48 \<le> c \<and> c \<le> 57) \<or> c = 43 \<or> c = 45 \<or> c = 46 \<or> c = 101"

definition float_repr_ok :: "(rat \<Rightarrow> pystr) \<Rightarrow> bool" where
  "float_repr_ok fr \<longleftrightarrow> inj fr \<and>
     (\<forall>q. fr q \<noteq> [] \<and> list_all num_char (fr q) \<and> (46 \<in> set (fr q) \<or> 101 \<in> set (fr q))
        \<and> fr q \<noteq> str ''-0.0'')"

text \<open>A document: what \<open>to_doc\<close> returns.\<close>

fun is_doc :: "pv \<Rightarrow> bool"
  and are_docs :: "pv list \<Rightarrow> bool"
  and items_doc :: "(pv \<times> pv) list \<Rightarrow> bool" where
  "is_doc (PList vs) = are_docs vs"
| "is_doc (PTuple vs) = False"
| "is_doc (PDict kvs) = items_doc kvs"
| "is_doc (PObj t s) = False"
| "is_doc _ = True"
| "are_docs [] = True"
| "are_docs (v # vs) = (is_doc v \<and> are_docs vs)"
| "items_doc [] = True"
| "items_doc ((k, v) # kvs) = ((case k of PStr _ \<Rightarrow> True | _ \<Rightarrow> False) \<and> is_doc v \<and> items_doc kvs)"

lemma to_doc_is_doc:
  "to_doc v = Inr d \<Longrightarrow> is_doc d"
  "to_docs vs = Inr ds \<Longrightarrow> are_docs ds"
  "to_items kvs = Inr ks \<Longrightarrow> items_doc ks"
  by (induction v and vs and kvs arbitrary: d and ds and ks rule: to_doc_to_docs_to_items.induct)
    (auto simp: rbind_eq_Inr split: pv.splits)

lemma to_doc_doc:
  "is_doc v \<Longrightarrow> to_doc v = Inr v"
  "are_docs vs \<Longrightarrow> to_docs vs = Inr vs"
  "items_doc kvs \<Longrightarrow> to_items kvs = Inr kvs"
  by (induction v and vs and kvs rule: is_doc_are_docs_items_doc.induct)
    (auto split: pv.splits)

lemma items_doc_iff:
  "items_doc kvs \<longleftrightarrow> (\<forall>(k, v) \<in> set kvs. (\<exists>s. k = PStr s) \<and> is_doc v)"
  by (induction kvs) (auto split: pv.splits)

lemma canon_is_doc:
  "is_doc v \<Longrightarrow> is_doc (canon v)"
  "are_docs vs \<Longrightarrow> are_docs (canons vs)"
  "items_doc kvs \<Longrightarrow> items_doc (canon_items kvs)"
proof (induction v and vs and kvs rule: is_doc_are_docs_items_doc.induct)
  case (3 kvs)
  then show ?case by (simp add: items_doc_iff)
qed (auto split: pv.splits)

lemma canonical_doc_is_doc: "canonical_doc v = Inr d \<Longrightarrow> is_doc d"
  by (auto simp: canonical_doc_def rbind_eq_Inr dest: to_doc_is_doc canon_is_doc)

subsection \<open>Scalars are tokens\<close>

definition tok_char :: "nat \<Rightarrow> bool" where
  "tok_char c \<longleftrightarrow> c \<noteq> 44 \<and> c \<noteq> 93 \<and> c \<noteq> 125 \<and> c \<noteq> 34 \<and> c \<noteq> 91 \<and> c \<noteq> 123"

text \<open>What follows a value in a text: nothing, a comma or a closing bracket.\<close>

definition delim :: "pystr \<Rightarrow> bool" where
  "delim x \<longleftrightarrow> (case x of [] \<Rightarrow> True | c # _ \<Rightarrow> c = 44 \<or> c = 93 \<or> c = 125)"

lemma delim_simps [simp]: "delim []" "delim (44 # x)" "delim (93 # x)" "delim (125 # x)"
  by (simp_all add: delim_def)

lemma token_inject:
  assumes "list_all tok_char s" "list_all tok_char t" "delim x" "delim y" "s @ x = t @ y"
  shows "s = t \<and> x = y"
proof -
  have tw: "takeWhile tok_char (s @ x) = s" if "list_all tok_char s" "delim x" for s x
    using that by (cases x) (auto simp: takeWhile_append list_all_iff delim_def tok_char_def)
  have "s = t" using assms tw by metis
  with assms(5) show ?thesis by simp
qed

lemma nat_text_digits: "list_all (\<lambda>c. 48 \<le> c \<and> c \<le> 57) (nat_text n)" "nat_text n \<noteq> []"
proof (induction n rule: nat_text.induct)
  case (1 n)
  { case 1
    then show ?case using "1.IH"(1) by (subst nat_text.simps) (auto split: if_split)
  next
    case 2
    then show ?case by (subst nat_text.simps) simp }
qed

lemma nat_text_inject: "nat_text m = nat_text n \<longleftrightarrow> m = n"
proof
  show "nat_text m = nat_text n \<Longrightarrow> m = n"
  proof (induction m arbitrary: n rule: nat_text.induct)
    case (1 m)
    consider "m < 10" "n < 10" | "m < 10" "\<not> n < 10" | "\<not> m < 10" "n < 10" | "\<not> m < 10" "\<not> n < 10"
      by blast
    then show ?case
    proof cases
      case 4
      with "1.prems" have "nat_text (m div 10) = nat_text (n div 10)" "m mod 10 = n mod 10"
        by (simp_all add: nat_text.simps [of m] nat_text.simps [of n])
      with 4 "1.IH" have "m div 10 = n div 10" by blast
      with \<open>m mod 10 = n mod 10\<close> show ?thesis by (metis div_mult_mod_eq)
    qed (use "1.prems" nat_text_digits(2) in
        \<open>auto simp: nat_text.simps [of m] nat_text.simps [of n] Cons_eq_append_conv append_eq_Cons_conv\<close>)
  qed
qed simp

lemma nat_text_no_minus: "nat_text n \<noteq> 45 # x"
  using nat_text_digits(1) [of n] by auto

lemma int_text_inject: "int_text i = int_text j \<longleftrightarrow> i = j"
  using nat_text_no_minus nat_text_no_minus [THEN not_sym]
  by (auto simp: int_text_def nat_text_inject split: if_splits)

lemma int_text_num: "list_all num_char (int_text i)" "int_text i \<noteq> []" "46 \<notin> set (int_text i)"
  "101 \<notin> set (int_text i)"
proof -
  have "list_all num_char (nat_text n)" "46 \<notin> set (nat_text n)" "101 \<notin> set (nat_text n)" for n
    using nat_text_digits(1) [of n] by (auto simp: num_char_def list_all_iff)
  then show "list_all num_char (int_text i)" "int_text i \<noteq> []" "46 \<notin> set (int_text i)"
    "101 \<notin> set (int_text i)"
    by (simp_all add: int_text_def num_char_def nat_text_digits)
qed

fun scalar :: "pv \<Rightarrow> bool" where
  "scalar PNone = True"
| "scalar (PBool _) = True"
| "scalar (PInt _) = True"
| "scalar (PFloat _) = True"
| "scalar _ = False"

lemma scalar_token:
  assumes "scalar v" "float_repr_ok fr"
  shows "list_all tok_char (json_text fr v)" "json_text fr v \<noteq> []"
proof -
  have num: "list_all tok_char s" if "list_all num_char s" for s
    using that by (auto simp: list_all_iff num_char_def tok_char_def)
  show "list_all tok_char (json_text fr v)"
  proof (cases v)
    case (PFloat x)
    with assms(2) num show ?thesis
      by (cases x) (auto simp: str_def tok_char_def float_repr_ok_def)
  qed (use assms(1) num int_text_num in \<open>auto simp: str_def tok_char_def\<close>)
  show "json_text fr v \<noteq> []"
  proof (cases v)
    case (PFloat x)
    with assms(2) show ?thesis by (cases x) (auto simp: float_repr_ok_def)
  qed (use assms(1) int_text_num in auto)
qed

lemma int_text_not_float:
  assumes "float_repr_ok fr"
  shows "int_text i \<noteq> float_text fr x"
proof (cases x)
  case (FFin q)
  then show ?thesis using assms int_text_num(3,4) [of i] by (auto simp: float_repr_ok_def)
next
  case FNegZero
  have "46 \<in> set (float_text fr FNegZero)" by (simp add: str_def)
  then show ?thesis using int_text_num(3) [of i] FNegZero by metis
next
  case FNan
  have "\<not> list_all num_char (float_text fr FNan)" by (simp add: str_def num_char_def)
  then show ?thesis using int_text_num(1) [of i] FNan by metis
next
  case (FInf n)
  have "\<not> list_all num_char (float_text fr (FInf n))" by (simp add: str_def num_char_def)
  then show ?thesis using int_text_num(1) [of i] FInf by metis
qed

lemma float_text_inject:
  assumes "float_repr_ok fr" "float_text fr x = float_text fr y"
  shows "x = y"
proof -
  have no: "fr q \<noteq> str ''NaN''" "fr q \<noteq> str ''Infinity''" "fr q \<noteq> str ''-Infinity''"
    "fr q \<noteq> str ''-0.0''" for q
  proof -
    have "list_all num_char (fr q)" and z: "fr q \<noteq> str ''-0.0''"
      using assms(1) by (auto simp: float_repr_ok_def)
    moreover have "\<not> list_all num_char (str ''NaN'')" "\<not> list_all num_char (str ''Infinity'')"
      "\<not> list_all num_char (str ''-Infinity'')"
      by (simp_all add: str_def num_char_def)
    ultimately show "fr q \<noteq> str ''NaN''" "fr q \<noteq> str ''Infinity''" "fr q \<noteq> str ''-Infinity''"
      "fr q \<noteq> str ''-0.0''" by metis+
  qed
  from assms show ?thesis
    by (cases x; cases y) (auto simp: float_repr_ok_def inj_def no no [THEN not_sym] split: if_splits)
qed

lemma word_not_num:
  assumes "float_repr_ok fr" "s \<in> {''null'', ''true'', ''false''}"
  shows "int_text i \<noteq> str s" "float_text fr x \<noteq> str s"
proof -
  have w: "\<not> list_all num_char (str s)" using assms(2) by (auto simp: str_def num_char_def)
  then show "int_text i \<noteq> str s" using int_text_num(1) by metis
  have "float_text fr (FFin q) \<noteq> str s" for q
    using assms(1) w by (simp add: float_repr_ok_def) metis
  then show "float_text fr x \<noteq> str s" using assms(2) by (cases x) auto
qed

lemma scalar_inject:
  assumes "float_repr_ok fr" "scalar v" "scalar w" "json_text fr v = json_text fr w"
  shows "v = w"
proof -
  note no = int_text_not_float [OF assms(1)] int_text_not_float [OF assms(1), THEN not_sym]
    word_not_num [OF assms(1)] word_not_num [OF assms(1), THEN not_sym]
  from assms(2-4) show ?thesis
    by (cases v; cases w)
      (auto simp: no int_text_inject dest: float_text_inject [OF assms(1)] split: if_splits)
qed

subsection \<open>Strings\<close>

definition unhex :: "nat \<Rightarrow> nat" where
  "unhex h = (if h < 87 then h - 48 else h - 87)"

lemma unhex_hex_digit: "n < 16 \<Longrightarrow> unhex (hex_digit n) = n"
  by (simp add: unhex_def hex_digit_def)

text \<open>Reading one escaped character back.\<close>

definition unescape :: "pystr \<Rightarrow> nat \<times> pystr" where
  "unescape s =
     (if hd s \<noteq> 92 then (hd s, tl s)
      else if s ! 1 = 117 then (16 * unhex (s ! 4) + unhex (s ! 5), drop 6 s)
      else (if s ! 1 = 110 then 10 else if s ! 1 = 114 then 13 else if s ! 1 = 116 then 9
            else if s ! 1 = 102 then 12 else if s ! 1 = 98 then 8 else s ! 1, drop 2 s))"

lemma unescape_special: "c \<in> {34, 92, 10, 13, 9, 12, 8} \<Longrightarrow> unescape (escape_char c @ x) = (c, x)"
  unfolding insert_iff empty_iff by (elim disjE FalseE; hypsubst; simp add: unescape_def escape_char_def)

lemma unescape_escape: "unescape (escape_char c @ x) = (c, x)"
proof -
  consider "c \<in> {34, 92, 10, 13, 9, 12, 8}" | "c \<notin> {34, 92, 10, 13, 9, 12, 8}" "c < 32"
    | "c \<notin> {34, 92, 10, 13, 9, 12, 8}" "\<not> c < 32" by blast
  then show ?thesis
  proof cases
    case 1
    then show ?thesis by (rule unescape_special)
  next
    case 2
    then have e: "escape_char c = [92, 117, 48, 48, hex_digit (c div 16), hex_digit (c mod 16)]"
      by (simp add: escape_char_def)
    have "c div 16 < 16" using 2(2) by simp
    then show ?thesis by (simp add: unescape_def e unhex_hex_digit)
  next
    case 3
    then have "escape_char c = [c]" by (simp add: escape_char_def)
    with 3(1) show ?thesis by (simp add: unescape_def)
  qed
qed

lemma escape_char_nonempty [simp]: "escape_char c \<noteq> []"
  by (simp add: escape_char_def)

lemma escape_char_not_quote: "escape_char c @ x \<noteq> 34 # y"
  by (auto simp: escape_char_def)

lemma escape_char_prefix: "escape_char c @ x = escape_char d @ y \<Longrightarrow> c = d \<and> x = y"
  by (metis unescape_escape prod.inject)

lemma string_text_inject:
  "string_text s @ x = string_text t @ y \<Longrightarrow> s = t \<and> x = y"
  unfolding string_text_def
proof (induction s arbitrary: t)
  case Nil
  then show ?case
    by (cases t) (auto simp: escape_char_not_quote [THEN not_sym] append_assoc)
next
  case (Cons c s)
  show ?case
  proof (cases t)
    case Nil
    with Cons.prems show ?thesis by (auto simp: escape_char_not_quote)
  next
    case t: (Cons d t')
    with Cons.prems
    have "escape_char c @ (concat (map escape_char s) @ 34 # x) =
          escape_char d @ (concat (map escape_char t') @ 34 # y)" by simp
    from escape_char_prefix [OF this] Cons.IH [of t'] t show ?thesis by simp
  qed
qed

subsection \<open>Documents\<close>

lemma scalar_cases:
  assumes "is_doc v"
  obtains "scalar v" | t where "v = PStr t" | vs where "v = PList vs" "are_docs vs"
    | kvs where "v = PDict kvs" "items_doc kvs"
  using assms by (cases v) auto

lemma text_hd:
  assumes "is_doc v" "float_repr_ok fr"
  shows "json_text fr v \<noteq> [] \<and>
    (case v of PStr _ \<Rightarrow> hd (json_text fr v) = 34 | PList _ \<Rightarrow> hd (json_text fr v) = 91
     | PDict _ \<Rightarrow> hd (json_text fr v) = 123 | _ \<Rightarrow> tok_char (hd (json_text fr v)))"
proof (cases rule: scalar_cases [OF assms(1)])
  case 1
  from scalar_token [OF 1 assms(2)] 1 show ?thesis
    by (cases v) (auto simp: list_all_iff)
qed (auto simp: string_text_def)

lemma text_hd_not_close:
  assumes "is_doc v" "float_repr_ok fr"
  shows "json_text fr v @ x \<noteq> 93 # y"
  using text_hd [OF assms] by (cases v; cases "json_text fr v") (auto simp: tok_char_def)

lemma same_kind:
  assumes "is_doc v" "is_doc w" "float_repr_ok fr" "json_text fr v @ x = json_text fr w @ y"
  shows "(case v of PStr _ \<Rightarrow> \<exists>t. w = PStr t | PList _ \<Rightarrow> \<exists>t. w = PList t
    | PDict _ \<Rightarrow> \<exists>t. w = PDict t | _ \<Rightarrow> scalar w)"
proof -
  have "hd (json_text fr v) = hd (json_text fr w)"
    using assms(4) text_hd [OF assms(1,3)] text_hd [OF assms(2,3)] by (metis hd_append2)
  then show ?thesis
    using text_hd [OF assms(1,3)] text_hd [OF assms(2,3)] assms(1,2)
    by (cases v; cases w) (auto simp: tok_char_def)
qed

lemma scalar_prefix:
  assumes "scalar v" "is_doc w" "float_repr_ok fr" "delim x" "delim y"
    "json_text fr v @ x = json_text fr w @ y"
  shows "v = w \<and> x = y"
proof -
  have "is_doc v" using assms(1) by (cases v) auto
  with assms have "scalar w" using same_kind [of v w fr x y] by (cases v) auto
  with assms have "json_text fr v = json_text fr w \<and> x = y"
    by (intro token_inject) (auto dest: scalar_token)
  with assms \<open>scalar w\<close> show ?thesis using scalar_inject by blast
qed

text \<open>A list or object body split after its first member.\<close>

definition rest :: "nat \<Rightarrow> bool \<Rightarrow> pystr \<Rightarrow> pystr \<Rightarrow> pystr" where
  "rest c e r x = (if e then c # x else 44 # r @ c # x)"

lemma delim_rest: "c = 93 \<or> c = 125 \<Longrightarrow> delim (rest c e r x)"
  by (auto simp: rest_def)

lemma rest_eqD:
  "rest c e r x = rest c e' r' y \<Longrightarrow> c \<noteq> 44 \<Longrightarrow>
    e = e' \<and> (if e then x = y else r @ c # x = r' @ c # y)"
  by (auto simp: rest_def split: if_splits)

lemma json_texts_Cons:
  "json_texts fr (v # vs) @ 93 # x = json_text fr v @ rest 93 (vs = []) (json_texts fr vs) x"
  by (simp add: rest_def)

lemma json_items_Cons:
  "json_items fr ((PStr s, v) # ks) @ 125 # x =
     string_text s @ 58 # json_text fr v @ rest 125 (ks = []) (json_items fr ks) x"
  by (simp add: rest_def)

lemma items_doc_Cons_obtain:
  assumes "items_doc (k # ks)"
  obtains s v where "k = (PStr s, v)" "is_doc v" "items_doc ks"
  using assms by (cases k; cases "fst k") auto

lemma json_text_prefix:
  assumes fr: "float_repr_ok fr"
  shows "is_doc v \<Longrightarrow> is_doc w \<Longrightarrow> delim x \<Longrightarrow> delim y \<Longrightarrow>
      json_text fr v @ x = json_text fr w @ y \<Longrightarrow> v = w \<and> x = y"
    and "are_docs vs \<Longrightarrow> are_docs ws \<Longrightarrow>
      json_texts fr vs @ 93 # x = json_texts fr ws @ 93 # y \<Longrightarrow> vs = ws \<and> x = y"
    and "items_doc ks \<Longrightarrow> items_doc ls \<Longrightarrow>
      json_items fr ks @ 125 # x = json_items fr ls @ 125 # y \<Longrightarrow> ks = ls \<and> x = y"
proof (induction v and vs and ks arbitrary: w x y and ws x y and ls x y
    rule: is_doc_are_docs_items_doc.induct)
  case (1 vs)
  then obtain us where w: "w = PList us" using same_kind [OF 1(2,3) fr 1(6)] by auto
  have "vs = us \<and> x = y"
  proof (rule "1.IH")
    show "json_texts fr vs @ 93 # x = json_texts fr us @ 93 # y" using 1(6) w by simp
  qed (use 1(2,3) w in simp_all)
  with w show ?case by simp
next
  case (3 ks)
  then obtain us where w: "w = PDict us" using same_kind [OF 3(2,3) fr 3(6)] by auto
  have "ks = us \<and> x = y"
  proof (rule "3.IH")
    show "json_items fr ks @ 125 # x = json_items fr us @ 125 # y" using 3(6) w by simp
  qed (use 3(2,3) w in simp_all)
  with w show ?case by simp
next
  case "5_5"
  then obtain t where "w = PStr t" using same_kind [OF "5_5"(1,2) fr "5_5"(5)] by auto
  with "5_5" show ?case by (auto dest: string_text_inject)
next
  case 6
  then show ?case
  proof (cases ws)
    case (Cons w ws')
    then have "json_text fr w @ rest 93 (ws' = []) (json_texts fr ws') y = 93 # x"
      using 6(3) json_texts_Cons [of fr w ws' y] by simp
    with text_hd_not_close [OF _ fr] 6(2) Cons show ?thesis by (metis are_docs.simps(2))
  qed simp
next
  case (7 v vs)
  from 7(3) have dv: "is_doc v" "are_docs vs" by simp_all
  show ?case
  proof (cases ws)
    case Nil
    then have "json_text fr v @ rest 93 (vs = []) (json_texts fr vs) x = 93 # y"
      using 7(5) json_texts_Cons [of fr v vs x] by simp
    with text_hd_not_close [OF dv(1) fr] show ?thesis by metis
  next
    case (Cons w ws')
    with 7(4) have dw: "is_doc w" "are_docs ws'" by simp_all
    have eq: "json_text fr v @ rest 93 (vs = []) (json_texts fr vs) x
        = json_text fr w @ rest 93 (ws' = []) (json_texts fr ws') y"
      using 7(5) unfolding Cons json_texts_Cons .
    have vw: "v = w" and r: "rest 93 (vs = []) (json_texts fr vs) x = rest 93 (ws' = []) (json_texts fr ws') y"
      using "7.IH"(1) [OF dv(1) dw(1) delim_rest delim_rest eq] by simp_all
    from rest_eqD [OF r] have "vs = ws' \<and> x = y"
      using "7.IH"(2) [OF dv(2) dw(2)] by (auto split: if_splits)
    with vw Cons show ?thesis by simp
  qed
next
  case 8
  then show ?case
  proof (cases ls)
    case (Cons k ls')
    with 8(2) obtain s v where k: "k = (PStr s, v)" by (auto elim: items_doc_Cons_obtain)
    have "string_text s @ 58 # json_text fr v @ rest 125 (ls' = []) (json_items fr ls') y = 125 # x"
      using 8(3) unfolding Cons k json_items_Cons by simp
    then show ?thesis by (simp add: string_text_def)
  qed simp
next
  case (9 k v ks)
  from 9(3) obtain s where k: "k = PStr s" and dv: "is_doc v" "items_doc ks"
    by (auto split: pv.splits)
  show ?case
  proof (cases ls)
    case Nil
    then have "string_text s @ 58 # json_text fr v @ rest 125 (ks = []) (json_items fr ks) x = 125 # y"
      using 9(5) unfolding k json_items_Cons by simp
    then show ?thesis by (simp add: string_text_def)
  next
    case (Cons l ls')
    with 9(4) obtain t w where l: "l = (PStr t, w)" and dw: "is_doc w" "items_doc ls'"
      by (auto elim: items_doc_Cons_obtain)
    have "string_text s @ 58 # json_text fr v @ rest 125 (ks = []) (json_items fr ks) x
        = string_text t @ 58 # json_text fr w @ rest 125 (ls' = []) (json_items fr ls') y"
      using 9(5) unfolding Cons k l json_items_Cons .
    from string_text_inject [OF this] have st: "s = t"
      and eq: "json_text fr v @ rest 125 (ks = []) (json_items fr ks) x
        = json_text fr w @ rest 125 (ls' = []) (json_items fr ls') y" by simp_all
    have vw: "v = w" and r: "rest 125 (ks = []) (json_items fr ks) x = rest 125 (ls' = []) (json_items fr ls') y"
      using "9.IH"(1) [OF dv(1) dw(1) delim_rest delim_rest eq] by simp_all
    from rest_eqD [OF r] have "ks = ls' \<and> x = y"
      using "9.IH"(2) [OF dv(2) dw(2)] by (auto split: if_splits)
    with vw st k l Cons show ?thesis by simp
  qed
next
  case "5_1"
  show ?case by (rule scalar_prefix [OF _ "5_1"(2) fr "5_1"(3-5)]) simp
next
  case "5_2"
  show ?case by (rule scalar_prefix [OF _ "5_2"(2) fr "5_2"(3-5)]) simp
next
  case "5_3"
  show ?case by (rule scalar_prefix [OF _ "5_3"(2) fr "5_3"(3-5)]) simp
next
  case "5_4"
  show ?case by (rule scalar_prefix [OF _ "5_4"(2) fr "5_4"(3-5)]) simp
qed simp_all

theorem json_text_inject:
  assumes "float_repr_ok fr" "is_doc v" "is_doc w" "json_text fr v = json_text fr w"
  shows "v = w"
  using json_text_prefix(1) [OF assms(1-3), of "[]" "[]"] assms(4) by simp

lemma canonical_bytes_inject:
  assumes "float_repr_ok fr" "canonical_bytes fr v = Inr b" "canonical_bytes fr w = Inr b"
  shows "canonical_doc v = canonical_doc w"
proof -
  from assms obtain d e where d: "canonical_doc v = Inr d" "utf8_encode (json_text fr d) = Inr b"
    and e: "canonical_doc w = Inr e" "utf8_encode (json_text fr e) = Inr b"
    by (auto simp: canonical_bytes_def rbind_eq_Inr)
  then have "json_text fr d = json_text fr e" by (blast intro: utf8_encode_inject)
  with assms(1) d(1) e(1) have "d = e" by (blast intro: json_text_inject canonical_doc_is_doc)
  with d(1) e(1) show ?thesis by simp
qed

section \<open>Environment and conversions\<close>

text \<open>
  What the interpreter supplies and the model leaves open: the SHA-256 function (bytes to
  hexadecimal text), \<open>repr\<close> of a finite float, \<open>repr\<close> of a container, and the text of
  the n-th reading of the clock (\<open>datetime.now(UTC).isoformat()\<close>).
\<close>

record pyenv =
  sha256 :: "nat list \<Rightarrow> pystr"
  float_repr :: "rat \<Rightarrow> pystr"
  container_repr :: "pv \<Rightarrow> pystr"
  iso_time :: "nat \<Rightarrow> pystr"

text \<open>\<open>str(v)\<close>.\<close>

fun py_str :: "pyenv \<Rightarrow> pv \<Rightarrow> pystr" where
  "py_str env PNone = str ''None''"
| "py_str env (PBool b) = (if b then str ''True'' else str ''False'')"
| "py_str env (PInt i) = int_text i"
| "py_str env (PFloat FNan) = str ''nan''"
| "py_str env (PFloat (FInf neg)) = (if neg then str ''-inf'' else str ''inf'')"
| "py_str env (PFloat FNegZero) = str ''-0.0''"
| "py_str env (PFloat (FFin q)) = float_repr env q"
| "py_str env (PStr s) = s"
| "py_str env (PObj t s) = s"
| "py_str env v = container_repr env v"

text \<open>\<open>bool(v)\<close>.\<close>

fun truthy :: "pv \<Rightarrow> bool" where
  "truthy PNone = False"
| "truthy (PBool b) = b"
| "truthy (PInt i) = (i \<noteq> 0)"
| "truthy (PFloat FNegZero) = False"
| "truthy (PFloat (FFin q)) = (q \<noteq> 0)"
| "truthy (PStr s) = (s \<noteq> [])"
| "truthy (PList vs) = (vs \<noteq> [])"
| "truthy (PTuple vs) = (vs \<noteq> [])"
| "truthy (PDict d) = (d \<noteq> [])"
| "truthy v = True"

text \<open>Iteration over a value, \<open>dict(v)\<close> and \<open>d[k]\<close>.\<close>

fun py_iter :: "pv \<Rightarrow> pv list res" where
  "py_iter (PList vs) = Inr vs"
| "py_iter (PTuple vs) = Inr vs"
| "py_iter (PDict d) = Inr (map fst d)"
| "py_iter (PStr s) = Inr (map (\<lambda>c. PStr [c]) s)"
| "py_iter _ = err TypeError ''object is not iterable''"

fun hashable :: "pv \<Rightarrow> bool" where
  "hashable (PList _) = False"
| "hashable (PDict _) = False"
| "hashable (PTuple vs) = list_all hashable vs"
| "hashable _ = True"

fun dict_pairs :: "pv list \<Rightarrow> pdict \<Rightarrow> pdict res" where
  "dict_pairs [] d = Inr d"
| "dict_pairs (x # xs) d = rbind (py_iter x) (\<lambda>p. case p of
       [k, v] \<Rightarrow> (if hashable k then dict_pairs xs (AList.update k v d)
                  else err TypeError ''unhashable type'')
     | _ \<Rightarrow> err ValueError ''dictionary update sequence element has wrong length'')"

definition dict_of :: "pv \<Rightarrow> pdict res" where
  "dict_of v = (case v of PDict d \<Rightarrow> Inr d | _ \<Rightarrow> rbind (py_iter v) (\<lambda>xs. dict_pairs xs []))"

definition ditem :: "pdict \<Rightarrow> pystr \<Rightarrow> pv res" where
  "ditem d k = (case dget d k of None \<Rightarrow> Inl (Exn KeyError k) | Some v \<Rightarrow> Inr v)"

definition dget_default :: "pdict \<Rightarrow> pystr \<Rightarrow> pv \<Rightarrow> pv" where
  "dget_default d k v = (case dget d k of None \<Rightarrow> v | Some w \<Rightarrow> w)"

text \<open>Looking a value up among the members of a string enumeration.\<close>

definition enum_parse :: "('e \<Rightarrow> pystr) \<Rightarrow> 'e list \<Rightarrow> pv \<Rightarrow> 'e res" where
  "enum_parse val es v = (case find (\<lambda>e. PStr (val e) = v) es of
     Some e \<Rightarrow> Inr e | None \<Rightarrow> err ValueError ''not a valid enumeration value'')"

lemma enum_parse_value:
  assumes "inj_on val (set es)" "e \<in> set es"
  shows "enum_parse val es (PStr (val e)) = Inr e"
  using assms by (induction es) (auto simp: enum_parse_def inj_on_def)

text \<open>Sorting the items of a dict with distinct keys changes no lookup.\<close>

lemma dget_canon_items: "dget (canon_items kvs) k = map_option canon (dget kvs k)"
  by (induction kvs) (auto simp: dget_def)

lemma map_fst_canon_items [simp]: "map fst (canon_items kvs) = map fst kvs"
  by (induction kvs) auto

definition sorted_items :: "pdict \<Rightarrow> pdict" where
  "sorted_items kvs = sort_key (\<lambda>kv. key_text (fst kv)) (canon_items kvs)"

lemma canon_PDict: "canon (PDict kvs) = PDict (sorted_items kvs)"
  by (simp add: sorted_items_def)

lemma dget_sorted_items:
  assumes "distinct (map fst kvs)"
  shows "dget (sorted_items kvs) k = map_option canon (dget kvs k)"
proof -
  let ?s = "sorted_items kvs"
  have "mset ?s = mset (canon_items kvs)" by (simp add: sorted_items_def)
  then have "mset (map fst ?s) = mset (map fst (canon_items kvs))" by (metis mset_map)
  then have "distinct (map fst ?s)"
    using assms by (metis map_fst_canon_items mset_eq_imp_distinct_iff)
  moreover have "set ?s = set (canon_items kvs)" by (simp add: sorted_items_def)
  ultimately have "map_of ?s = map_of (canon_items kvs)"
    using assms by (intro map_of_inject_set [THEN iffD2]) auto
  then show ?thesis using dget_canon_items [of kvs k] by (simp add: dget_def)
qed

end
