(* ===== verification/Rpr_Models.thy ===== *)
theory Rpr_Models
  imports Rpr_Values
begin

text \<open>
  The data model of \<open>models.py\<close>: the enumerations, the responsibility route, the pathway
  definition and its conversion to and from a JSON object, the inspection result; and the
  request and result types of \<open>executor.py\<close>. The lemma group shows that a definition
  survives storage: reading the stored canonical document gives the definition back, with
  the metadata in canonical key order.
\<close>

section \<open>Enumerations\<close>

datatype action_class =
  OBSERVE_ONLY | SUGGEST_ONLY | APPROVAL_REQUIRED | REVERSIBLE_EXTERNAL | HIGH_IMPACT
  | EMERGENCY_STOP

fun action_class_value :: "action_class \<Rightarrow> pystr" where
  "action_class_value OBSERVE_ONLY = str ''observe_only''"
| "action_class_value SUGGEST_ONLY = str ''suggest_only''"
| "action_class_value APPROVAL_REQUIRED = str ''approval_required''"
| "action_class_value REVERSIBLE_EXTERNAL = str ''reversible_external''"
| "action_class_value HIGH_IMPACT = str ''high_impact''"
| "action_class_value EMERGENCY_STOP = str ''emergency_stop''"

definition action_classes :: "action_class list" where
  "action_classes = [OBSERVE_ONLY, SUGGEST_ONLY, APPROVAL_REQUIRED, REVERSIBLE_EXTERNAL,
     HIGH_IMPACT, EMERGENCY_STOP]"

datatype environment_trust =
  TRUSTED_INTERNAL | SEMI_TRUSTED | UNTRUSTED_PUBLIC | ADVERSARIAL

fun environment_trust_value :: "environment_trust \<Rightarrow> pystr" where
  "environment_trust_value TRUSTED_INTERNAL = str ''trusted_internal''"
| "environment_trust_value SEMI_TRUSTED = str ''semi_trusted''"
| "environment_trust_value UNTRUSTED_PUBLIC = str ''untrusted_public''"
| "environment_trust_value ADVERSARIAL = str ''adversarial''"

definition environment_trusts :: "environment_trust list" where
  "environment_trusts = [TRUSTED_INTERNAL, SEMI_TRUSTED, UNTRUSTED_PUBLIC, ADVERSARIAL]"

datatype pathway_state =
  PROPOSED | AWAITING_APPROVAL | APPROVED | RUNNING | HELD | HUMAN_GATE | STOPPED
  | PARTIALLY_COMPLETED | WRITE_STATUS_UNKNOWN | REPAIR_REQUIRED | READY_TO_RESUME
  | COMPLETED | DENIED | ABORTED

fun state_value :: "pathway_state \<Rightarrow> pystr" where
  "state_value PROPOSED = str ''proposed''"
| "state_value AWAITING_APPROVAL = str ''awaiting_approval''"
| "state_value APPROVED = str ''approved''"
| "state_value RUNNING = str ''running''"
| "state_value HELD = str ''held''"
| "state_value HUMAN_GATE = str ''human_gate''"
| "state_value STOPPED = str ''stopped''"
| "state_value PARTIALLY_COMPLETED = str ''partially_completed''"
| "state_value WRITE_STATUS_UNKNOWN = str ''write_status_unknown''"
| "state_value REPAIR_REQUIRED = str ''repair_required''"
| "state_value READY_TO_RESUME = str ''ready_to_resume''"
| "state_value COMPLETED = str ''completed''"
| "state_value DENIED = str ''denied''"
| "state_value ABORTED = str ''aborted''"

datatype runtime_decision = ALLOW | HOLD | HUMAN_GATE_DECISION | DENY

fun decision_value :: "runtime_decision \<Rightarrow> pystr" where
  "decision_value ALLOW = str ''allow''"
| "decision_value HOLD = str ''hold''"
| "decision_value HUMAN_GATE_DECISION = str ''human_gate''"
| "decision_value DENY = str ''deny''"

definition runtime_decisions :: "runtime_decision list" where
  "runtime_decisions = [ALLOW, HOLD, HUMAN_GATE_DECISION, DENY]"

datatype route_class =
  CONTINUE_AUTONOMOUSLY | AI_RESOLVE_WITHIN_DELEGATION | HOLD_FOR_RECONCILIATION
  | BOUNDED_HUMAN_RETURN | STOP_AND_PRESERVE_RESIDUE

fun route_class_value :: "route_class \<Rightarrow> pystr" where
  "route_class_value CONTINUE_AUTONOMOUSLY = str ''continue_autonomously''"
| "route_class_value AI_RESOLVE_WITHIN_DELEGATION = str ''ai_resolve_within_delegation''"
| "route_class_value HOLD_FOR_RECONCILIATION = str ''hold_for_reconciliation''"
| "route_class_value BOUNDED_HUMAN_RETURN = str ''bounded_human_return''"
| "route_class_value STOP_AND_PRESERVE_RESIDUE = str ''stop_and_preserve_residue''"

definition route_classes :: "route_class list" where
  "route_classes = [CONTINUE_AUTONOMOUSLY, AI_RESOLVE_WITHIN_DELEGATION,
     HOLD_FOR_RECONCILIATION, BOUNDED_HUMAN_RETURN, STOP_AND_PRESERVE_RESIDUE]"

datatype receiver_eligibility = ELIGIBLE | INELIGIBLE | REQUIRES_REEVALUATION

fun eligibility_value :: "receiver_eligibility \<Rightarrow> pystr" where
  "eligibility_value ELIGIBLE = str ''eligible''"
| "eligibility_value INELIGIBLE = str ''ineligible''"
| "eligibility_value REQUIRES_REEVALUATION = str ''requires_reevaluation''"

definition eligibilities :: "receiver_eligibility list" where
  "eligibilities = [ELIGIBLE, INELIGIBLE, REQUIRES_REEVALUATION]"

lemma enum_parse_values [simp]:
  "enum_parse action_class_value action_classes (PStr (action_class_value a)) = Inr a"
  "enum_parse environment_trust_value environment_trusts (PStr (environment_trust_value t)) = Inr t"
  "enum_parse decision_value runtime_decisions (PStr (decision_value d)) = Inr d"
  "enum_parse route_class_value route_classes (PStr (route_class_value r)) = Inr r"
  "enum_parse eligibility_value eligibilities (PStr (eligibility_value e)) = Inr e"
proof -
  show "enum_parse action_class_value action_classes (PStr (action_class_value a)) = Inr a"
    by (cases a) (simp_all add: enum_parse_def action_classes_def)
  show "enum_parse environment_trust_value environment_trusts
      (PStr (environment_trust_value t)) = Inr t"
    by (cases t) (simp_all add: enum_parse_def environment_trusts_def)
  show "enum_parse decision_value runtime_decisions (PStr (decision_value d)) = Inr d"
    by (cases d) (simp_all add: enum_parse_def runtime_decisions_def)
  show "enum_parse route_class_value route_classes (PStr (route_class_value r)) = Inr r"
    by (cases r) (simp_all add: enum_parse_def route_classes_def)
  show "enum_parse eligibility_value eligibilities (PStr (eligibility_value e)) = Inr e"
    by (cases e) (simp_all add: enum_parse_def eligibilities_def)
qed

lemma state_value_inject [simp]: "state_value s = state_value t \<longleftrightarrow> s = t"
  by (cases s; cases t) simp_all

section \<open>Routes and definitions\<close>

record responsibility_route =
  route_class :: route_class
  source_holder :: pystr
  destination :: pystr
  receiver_eligibility :: receiver_eligibility
  authority_class :: pystr
  delegation_scope :: pystr
  unresolved_payload :: "pystr list"
  allowed_next_actions :: "pystr list"
  closure_condition :: pystr
  reevaluation_condition :: pystr
  route_residual_owner :: pystr
  expires_at :: "pystr option"

definition route_to_dict :: "responsibility_route \<Rightarrow> pdict" where
  "route_to_dict r = obj [
     (''route_class'', PStr (route_class_value (route_class r))),
     (''source_holder'', PStr (source_holder r)),
     (''destination'', PStr (destination r)),
     (''receiver_eligibility'', PStr (eligibility_value (receiver_eligibility r))),
     (''authority_class'', PStr (authority_class r)),
     (''delegation_scope'', PStr (delegation_scope r)),
     (''unresolved_payload'', PList (map PStr (unresolved_payload r))),
     (''allowed_next_actions'', PList (map PStr (allowed_next_actions r))),
     (''closure_condition'', PStr (closure_condition r)),
     (''reevaluation_condition'', PStr (reevaluation_condition r)),
     (''residual_owner'', PStr (route_residual_owner r)),
     (''expires_at'', opt_str (expires_at r))]"

text \<open>\<open>str(value[k])\<close> and \<open>tuple(str(item) for item in value.get(k, []))\<close>.\<close>

definition str_item :: "pyenv \<Rightarrow> pdict \<Rightarrow> string \<Rightarrow> pystr res" where
  "str_item env d k = rbind (ditem d (str k)) (\<lambda>v. Inr (py_str env v))"

definition str_tuple :: "pyenv \<Rightarrow> pdict \<Rightarrow> string \<Rightarrow> pystr list res" where
  "str_tuple env d k =
     rbind (py_iter (dget_default d (str k) (PList []))) (\<lambda>vs. Inr (map (py_str env) vs))"

definition route_from_dict :: "pyenv \<Rightarrow> pdict \<Rightarrow> responsibility_route res" where
  "route_from_dict env v =
     rbind (rbind (ditem v (str ''route_class'')) (enum_parse route_class_value route_classes)) (\<lambda>rc.
     rbind (str_item env v ''source_holder'') (\<lambda>sh.
     rbind (str_item env v ''destination'') (\<lambda>ds.
     rbind (rbind (ditem v (str ''receiver_eligibility'')) (enum_parse eligibility_value eligibilities)) (\<lambda>el.
     rbind (str_item env v ''authority_class'') (\<lambda>ac.
     rbind (str_item env v ''delegation_scope'') (\<lambda>sc.
     rbind (str_tuple env v ''unresolved_payload'') (\<lambda>up.
     rbind (str_tuple env v ''allowed_next_actions'') (\<lambda>an.
     rbind (str_item env v ''closure_condition'') (\<lambda>cc.
     rbind (str_item env v ''reevaluation_condition'') (\<lambda>rv.
     rbind (str_item env v ''residual_owner'') (\<lambda>ro.
       Inr \<lparr>route_class = rc, source_holder = sh, destination = ds, receiver_eligibility = el,
         authority_class = ac, delegation_scope = sc, unresolved_payload = up,
         allowed_next_actions = an, closure_condition = cc, reevaluation_condition = rv,
         route_residual_owner = ro,
         expires_at = (case dget_none v (str ''expires_at'') of
            PNone \<Rightarrow> None | w \<Rightarrow> Some (py_str env w))\<rparr>)))))))))))"

record pathway_definition =
  pathway_id :: pystr
  action_name :: pystr
  action_class :: action_class
  environment_trust :: environment_trust
  decision_owner :: pystr
  approval_authority :: "pystr option"
  execution_actor :: pystr
  stop_authority :: pystr
  evidence_owner :: pystr
  repair_owner :: pystr
  resume_authority :: pystr
  human_return_point :: pystr
  residual_owner :: pystr
  metadata :: pdict
  responsibility_route :: "responsibility_route option"

definition definition_to_dict :: "pathway_definition \<Rightarrow> pdict" where
  "definition_to_dict d = obj ([
     (''pathway_id'', PStr (pathway_id d)),
     (''action_name'', PStr (action_name d)),
     (''action_class'', PStr (action_class_value (action_class d))),
     (''environment_trust'', PStr (environment_trust_value (environment_trust d))),
     (''decision_owner'', PStr (decision_owner d)),
     (''approval_authority'', opt_str (approval_authority d)),
     (''execution_actor'', PStr (execution_actor d)),
     (''stop_authority'', PStr (stop_authority d)),
     (''evidence_owner'', PStr (evidence_owner d)),
     (''repair_owner'', PStr (repair_owner d)),
     (''resume_authority'', PStr (resume_authority d)),
     (''human_return_point'', PStr (human_return_point d)),
     (''residual_owner'', PStr (residual_owner d)),
     (''metadata'', PDict (metadata d))]
     @ (case responsibility_route d of
          None \<Rightarrow> [] | Some r \<Rightarrow> [(''responsibility_route'', PDict (route_to_dict r))]))"

text \<open>
  The code keeps a non-string \<open>approval_authority\<close> as it is and fails at its first
  \<open>strip()\<close>; here such a document is rejected at once.
\<close>

definition definition_from_dict :: "pyenv \<Rightarrow> pdict \<Rightarrow> pathway_definition res" where
  "definition_from_dict env v =
     rbind (str_item env v ''pathway_id'') (\<lambda>pid.
     rbind (str_item env v ''action_name'') (\<lambda>an.
     rbind (rbind (ditem v (str ''action_class'')) (enum_parse action_class_value action_classes)) (\<lambda>ac.
     rbind (rbind (ditem v (str ''environment_trust''))
        (enum_parse environment_trust_value environment_trusts)) (\<lambda>et.
     rbind (str_item env v ''decision_owner'') (\<lambda>dow.
     rbind (case dget_none v (str ''approval_authority'') of
         PNone \<Rightarrow> Inr None | PStr s \<Rightarrow> Inr (Some s)
       | _ \<Rightarrow> err TypeError ''approval_authority is not a string'') (\<lambda>aa.
     rbind (str_item env v ''execution_actor'') (\<lambda>ea.
     rbind (str_item env v ''stop_authority'') (\<lambda>sa.
     rbind (str_item env v ''evidence_owner'') (\<lambda>eo.
     rbind (str_item env v ''repair_owner'') (\<lambda>rp.
     rbind (str_item env v ''resume_authority'') (\<lambda>ra.
     rbind (str_item env v ''human_return_point'') (\<lambda>hp.
     rbind (str_item env v ''residual_owner'') (\<lambda>ro.
     rbind (dict_of (dget_default v (str ''metadata'') (PDict []))) (\<lambda>md.
     rbind (case dget_none v (str ''responsibility_route'') of
         PNone \<Rightarrow> Inr None
       | PDict r \<Rightarrow> rbind (route_from_dict env r) (\<lambda>x. Inr (Some x))
       | _ \<Rightarrow> err TypeError ''responsibility_route is not a mapping'') (\<lambda>rt.
       Inr \<lparr>pathway_id = pid, action_name = an, action_class = ac, environment_trust = et,
         decision_owner = dow, approval_authority = aa, execution_actor = ea,
         stop_authority = sa, evidence_owner = eo, repair_owner = rp, resume_authority = ra,
         human_return_point = hp, residual_owner = ro, metadata = md,
         responsibility_route = rt\<rparr>)))))))))))))))"

section \<open>Inspection results\<close>

datatype severity = Error | Warning

fun severity_value :: "severity \<Rightarrow> pystr" where
  "severity_value Error = str ''error''"
| "severity_value Warning = str ''warning''"

record validation_finding =
  finding_code :: pystr
  finding_message :: pystr
  finding_severity :: severity

record inspection_result =
  valid :: bool
  decision :: runtime_decision
  findings :: "validation_finding list"
  human_return_available :: bool
  degradation_mode :: pystr
  next_required_authority :: "pystr option"
  next_required_action :: "pystr option"

definition inspection_to_dict :: "inspection_result \<Rightarrow> pdict" where
  "inspection_to_dict r = obj [
     (''valid'', PBool (valid r)),
     (''decision'', PStr (decision_value (decision r))),
     (''findings'', PList (map (\<lambda>f. PDict (obj [
        (''code'', PStr (finding_code f)), (''message'', PStr (finding_message f)),
        (''severity'', PStr (severity_value (finding_severity f)))])) (findings r))),
     (''human_return_available'', PBool (human_return_available r)),
     (''degradation_mode'', PStr (degradation_mode r)),
     (''next_required_authority'', opt_str (next_required_authority r)),
     (''next_required_action'', opt_str (next_required_action r))]"

section \<open>Execution requests and results\<close>

datatype execution_status = SUCCEEDED | FAILED | STATUS_UNKNOWN

fun status_value :: "execution_status \<Rightarrow> pystr" where
  "status_value SUCCEEDED = str ''succeeded''"
| "status_value FAILED = str ''failed''"
| "status_value STATUS_UNKNOWN = str ''write_status_unknown''"

definition execution_statuses :: "execution_status list" where
  "execution_statuses = [SUCCEEDED, FAILED, STATUS_UNKNOWN]"

lemma status_value_inject [simp]: "status_value s = status_value t \<longleftrightarrow> s = t"
  by (cases s; cases t) simp_all

lemma enum_parse_status [simp]:
  "enum_parse status_value execution_statuses (PStr (status_value s)) = Inr s"
  by (cases s) (simp_all add: enum_parse_def execution_statuses_def)

record execution_request =
  operation_id :: pystr
  attempt_id :: pystr
  idempotency_key :: pystr
  action :: pystr
  parameters :: pdict

text \<open>The constructor's check (\<open>__post_init__\<close>).\<close>

definition make_request :: "pystr \<Rightarrow> pystr \<Rightarrow> pystr \<Rightarrow> pystr \<Rightarrow> pdict \<Rightarrow> execution_request res" where
  "make_request op aid key act params =
     rbind (check (\<not> blank op) ValueError ''operation_id is required'') (\<lambda>_.
     rbind (check (\<not> blank aid) ValueError ''attempt_id is required'') (\<lambda>_.
     rbind (check (\<not> blank key) ValueError ''idempotency_key is required'') (\<lambda>_.
     rbind (check (\<not> blank act) ValueError ''action is required'') (\<lambda>_.
       Inr \<lparr>operation_id = op, attempt_id = aid, idempotency_key = key, action = act,
         parameters = params\<rparr>))))"

record readback_evidence =
  verified :: bool
  observed :: pdict
  readback_reason :: "pystr option"

record execution_result =
  status :: execution_status
  evidence :: pdict
  readback :: "readback_evidence option"
  result_reason :: "pystr option"

abbreviation unknown_result :: "pystr \<Rightarrow> execution_result" where
  "unknown_result why \<equiv>
     \<lparr>status = STATUS_UNKNOWN, evidence = [], readback = None, result_reason = Some why\<rparr>"

section \<open>Definitions survive storage\<close>

lemma str_item_eq: "str_item env d k = (case dget d (str k) of
    None \<Rightarrow> Inl (Exn KeyError (str k)) | Some v \<Rightarrow> Inr (py_str env v))"
  by (simp add: str_item_def ditem_def split: option.splits)

lemma distinct_obj [simp]: "distinct (map fst (obj kvs)) \<longleftrightarrow> distinct (map fst kvs)"
proof -
  have "map fst (obj kvs) = map (\<lambda>k. PStr (str k)) (map fst kvs)"
    by (simp add: obj_def case_prod_beta comp_def)
  moreover have "inj (\<lambda>k. PStr (str k))" by (simp add: inj_def)
  ultimately show ?thesis by (metis distinct_map inj_on_subset subset_UNIV)
qed

lemma distinct_dset [simp]: "distinct (map fst d) \<Longrightarrow> distinct (map fst (dset k v d))"
  by (simp add: dset_def distinct_update)

lemma dget_obj_append [simp]:
  "dget (obj (xs @ ys)) (str k) = (case dget (obj xs) (str k) of Some v \<Rightarrow> Some v
     | None \<Rightarrow> dget (obj ys) (str k))"
  by (induction xs) auto

lemma canons_map_PStr [simp]: "canons (map PStr ss) = map PStr ss"
  by (induction ss) auto

lemma canon_opt_str [simp]: "canon (opt_str x) = opt_str x"
  by (cases x) (simp_all add: opt_str_def)

lemma map_py_str_PStr [simp]: "map (py_str env \<circ> PStr) ss = ss"
  by (induction ss) auto

lemma route_round_trip: "route_from_dict env (sorted_items (route_to_dict r)) = Inr r"
proof -
  have "distinct (map fst (route_to_dict r))" by (simp add: route_to_dict_def)
  note g = dget_sorted_items [OF this]
  show ?thesis
    by (simp add: route_from_dict_def str_item_eq str_tuple_def ditem_def dget_default_def
        dget_none_def g)
      (simp add: route_to_dict_def opt_str_def split: option.splits)
qed

text \<open>
  \<open>definition_to_dict\<close> with the metadata replaced by its canonical form: the document that
  is stored.
\<close>

lemma definition_round_trip:
  "definition_from_dict env (sorted_items (definition_to_dict d)) =
     Inr (d\<lparr>metadata := sorted_items (metadata d)\<rparr>)"
proof -
  have "distinct (map fst (definition_to_dict d))"
    by (auto simp: definition_to_dict_def split: option.splits)
  note g = dget_sorted_items [OF this]
  show ?thesis
    by (simp add: definition_from_dict_def str_item_eq ditem_def dget_default_def
        dget_none_def g)
      (simp add: definition_to_dict_def opt_str_def dict_of_def route_round_trip
        sorted_items_def [symmetric] split: option.splits)
qed

end
