(* ===== verification/Rpr_Principal.thy ===== *)
theory Rpr_Principal
  imports Rpr_Models
begin

text \<open>
  \<open>principal.py\<close>: authenticated principals, the credentials they are resolved from, and the
  binding of a principal to an actor. The interface of a resolver and a binding is a locale:
  what they yield is never blank, whichever implementation the application configures.
\<close>

section \<open>Principals\<close>

record principal =
  subject :: pystr
  issuer :: pystr
  authentication_method :: pystr
  claims :: "(pv \<times> pystr) list"

definition make_principal :: "pystr \<Rightarrow> pystr \<Rightarrow> pystr \<Rightarrow> (pv \<times> pystr) list \<Rightarrow> principal res" where
  "make_principal s i m c =
     (if blank s \<or> blank i \<or> blank m
      then err PrincipalError ''subject, issuer, and authentication_method are required''
      else Inr \<lparr>subject = s, issuer = i, authentication_method = m, claims = c\<rparr>)"

text \<open>\<open>StaticActorBinding\<close>: the mapping from issuer and subject to an actor.\<close>

definition actor_for :: "((pystr \<times> pystr) \<Rightarrow> pystr option) \<Rightarrow> principal \<Rightarrow> pystr res" where
  "actor_for bindings p =
     (let actor = strip (case bindings (issuer p, subject p) of None \<Rightarrow> [] | Some a \<Rightarrow> a) in
      if actor = [] then err PrincipalError ''principal is not bound to an RPR actor'' else Inr actor)"

text \<open>A credential is a principal, verified claims, or any other object.\<close>

record token_claims =
  token_values :: pdict
  verification_method :: pystr

datatype credential = PrincipalCredential principal | ClaimsCredential token_claims | OtherCredential pv

definition trusted_resolve :: "credential \<Rightarrow> principal res" where
  "trusted_resolve c = (case c of PrincipalCredential p \<Rightarrow> Inr p
     | _ \<Rightarrow> err PrincipalError ''trusted resolver requires a Principal instance'')"

section \<open>The interface\<close>

text \<open>The actor that a credential acts as.\<close>

locale principal_binding =
  fixes resolve :: "credential \<Rightarrow> principal res"
    and bind_actor :: "principal \<Rightarrow> pystr res"
  assumes resolve_named: "resolve c = Inr p \<Longrightarrow>
      \<not> blank (subject p) \<and> \<not> blank (issuer p) \<and> \<not> blank (authentication_method p)"
    and actor_named: "bind_actor p = Inr a \<Longrightarrow> \<not> blank a"
begin

lemma acting:
  assumes "rbind (resolve c) bind_actor = Inr a"
  shows "\<not> blank a \<and> (\<exists>p. resolve c = Inr p \<and> bind_actor p = Inr a \<and> \<not> blank (subject p))"
  using assms resolve_named actor_named by (auto simp: rbind_eq_Inr)

end

lemma make_principal_ok:
  "make_principal s i m c = Inr p \<longleftrightarrow> \<not> blank s \<and> \<not> blank i \<and> \<not> blank m
     \<and> p = \<lparr>subject = s, issuer = i, authentication_method = m, claims = c\<rparr>"
  by (auto simp: make_principal_def)

lemma actor_for_ok:
  "actor_for bs p = Inr a \<longleftrightarrow> (\<exists>b. bs (issuer p, subject p) = Some b \<and> a = strip b \<and> \<not> blank a)"
proof (cases "bs (issuer p, subject p)")
  case None
  then show ?thesis by (simp add: actor_for_def Let_def flip: blank_def)
next
  case (Some b)
  then show ?thesis by (auto simp: actor_for_def Let_def simp flip: blank_def)
qed

end
