(* ===== verification/Rpr_Rpe.thy ===== *)
theory Rpr_Rpe
  imports Rpr_Models
begin

text \<open>
  \<open>rpe.py\<close>: the adapters to the external Responsibility Policy Engine. The engine itself (a
  Python callable or a REST endpoint) is a parameter. The lemmas show that a failing,
  absent or malformed engine never yields a decision more permissive than \<open>HOLD\<close>.
\<close>

section \<open>Results\<close>

record rpe_result =
  rpe_decision :: runtime_decision
  rpe_reason_codes :: "pystr list"
  rpe_raw :: "pdict option"
  rpe_contract_version :: "pystr option"

text \<open>
  What an engine may hand back: an object with a \<open>to_dict\<close> method, another object with
  attributes, or a plain value.
\<close>

datatype rpe_value = WithToDict "pv res" | WithAttributes pdict | PlainValue pv

text \<open>\<open>a or b\<close>.\<close>

definition py_or :: "pv \<Rightarrow> pv \<Rightarrow> pv" where
  "py_or a b = (if truthy a then a else b)"

definition decision_of :: "pdict \<Rightarrow> pv" where
  "decision_of d =
     (case py_or (dget_none d (str ''decision'')) (dget_none d (str ''outcome'')) of
        PDict n \<Rightarrow> py_or (dget_none n (str ''decision'')) (dget_none n (str ''outcome''))
      | v \<Rightarrow> v)"

definition normalize_result :: "pyenv \<Rightarrow> rpe_value \<Rightarrow> pystr option \<Rightarrow> rpe_result res" where
  "normalize_result env value expected =
     rbind (case value of WithToDict r \<Rightarrow> r | WithAttributes d \<Rightarrow> Inr (PDict d) | PlainValue v \<Rightarrow> Inr v)
       (\<lambda>v. case v of
       PDict d \<Rightarrow>
         rbind (check (hashable (decision_of d)) TypeError ''unhashable type'') (\<lambda>_.
         case enum_parse decision_value runtime_decisions (decision_of d) of
           Inl _ \<Rightarrow> err RpeContractError ''unsupported RPE decision''
         | Inr dec \<Rightarrow>
             (let version = py_or (dget_none d (str ''contract_version'')) (dget_none d (str ''schema_version''));
                  reasons = py_or (dget_none d (str ''reason_codes''))
                    (py_or (dget_none d (str ''reasons'')) (PTuple []))
              in rbind (check (case expected of None \<Rightarrow> True
                     | Some e \<Rightarrow> e = [] \<or> version = PStr e)
                   RpeContractError ''RPE contract version mismatch'') (\<lambda>_.
                 rbind (case reasons of PStr s \<Rightarrow> Inr [PStr s] | _ \<Rightarrow> py_iter reasons) (\<lambda>rs.
                   Inr \<lparr>rpe_decision = dec, rpe_reason_codes = map (py_str env) rs,
                     rpe_raw = Some d,
                     rpe_contract_version =
                       (case version of PNone \<Rightarrow> None | w \<Rightarrow> Some (py_str env w))\<rparr>))))
     | _ \<Rightarrow> err RpeContractError ''RPE result must be a mapping'')"

section \<open>Evaluators\<close>

type_synonym rpe_evaluator = "pdict \<Rightarrow> rpe_result res"

definition hold_result :: "pystr list \<Rightarrow> rpe_result" where
  "hold_result codes = \<lparr>rpe_decision = HOLD, rpe_reason_codes = codes, rpe_raw = None,
     rpe_contract_version = None\<rparr>"

definition unavailable_evaluate :: rpe_evaluator where
  "unavailable_evaluate req = Inr (hold_result [str ''rpe_unavailable''])"

definition allow_all_evaluate :: rpe_evaluator where
  "allow_all_evaluate req = Inr \<lparr>rpe_decision = ALLOW,
     rpe_reason_codes = [str ''development_evaluator''], rpe_raw = None,
     rpe_contract_version = None\<rparr>"

text \<open>
  \<open>PythonRpeEvaluator\<close>: \<open>packs\<close> is what the requirement packs evaluate to, \<open>act\<close> the
  engine's \<open>evaluate_action\<close>.
\<close>

definition python_evaluate :: "pyenv \<Rightarrow> (pdict \<Rightarrow> pv list \<Rightarrow> rpe_value res) \<Rightarrow> pv list res
    \<Rightarrow> pystr option \<Rightarrow> rpe_evaluator" where
  "python_evaluate env act packs expected req = rbind packs (\<lambda>ps.
     case rbind (act req ps) (\<lambda>raw. normalize_result env raw expected) of
       Inr r \<Rightarrow> Inr r
     | Inl e \<Rightarrow> (if catches [RpeContractError] e \<or> \<not> is_exception e then Inl e
         else Inr (hold_result [str ''rpe_python_error'', exn_name (exn_kind e)])))"

text \<open>
  \<open>RestRpeEvaluator\<close>: \<open>post\<close> is the HTTP exchange including the decoding of the response.
\<close>

definition rest_evaluate :: "pyenv \<Rightarrow> (nat list \<Rightarrow> pv res) \<Rightarrow> pystr option \<Rightarrow> rpe_evaluator" where
  "rest_evaluate env post expected req =
     rbind (to_doc (PDict req)) (\<lambda>doc.
     rbind (utf8_encode (json_text (float_repr env) doc)) (\<lambda>payload.
     case rbind (post payload) (\<lambda>raw. normalize_result env (PlainValue raw) expected) of
       Inr r \<Rightarrow> Inr r
     | Inl e \<Rightarrow> (if catches [OtherException (str ''URLError''), OtherException (str ''HTTPError''),
           TimeoutError, JSONDecodeError, UnicodeDecodeError] e
         then Inr (hold_result [str ''rpe_rest_unavailable'', exn_name (exn_kind e)]) else Inl e)))"

section \<open>Fail closed\<close>

lemma python_evaluate_error:
  assumes "act req ps = Inl e" "is_exception e" "exn_kind e \<noteq> RpeContractError" "packs = Inr ps"
  shows "python_evaluate env act packs expected req =
    Inr (hold_result [str ''rpe_python_error'', exn_name (exn_kind e)])"
proof -
  have "\<not> catches [RpeContractError] e" using assms(3)
    by (cases "exn_kind e") (simp_all add: catches_def)
  with assms show ?thesis by (simp add: python_evaluate_def)
qed

lemma normalize_result_decision:
  assumes "normalize_result env (PlainValue (PDict d)) expected = Inr r"
  shows "decision_of d = PStr (decision_value (rpe_decision r))"
proof -
  from assms have "enum_parse decision_value runtime_decisions (decision_of d) = Inr (rpe_decision r)"
    by (auto simp: normalize_result_def rbind_eq_Inr Let_def split: sum.splits)
  then show ?thesis by (auto simp: enum_parse_def find_Some_iff split: option.splits)
qed

end
