(* ===== verification/Rpr_Authority.thy ===== *)
theory Rpr_Authority
  imports Rpr_Models
begin

text \<open>
  The canonical state machine (\<open>_generated_transitions.py\<close>, \<open>state_machine.py\<close>), who may
  make which transition (\<open>authority.py\<close>), and the read-only route classification
  (\<open>routing.py\<close>, \<open>route_visibility.py\<close>). The lemmas characterise the transitions a generic
  caller can make: never to \<open>RUNNING\<close> without a named executor or resumer, never to
  \<open>ABORTED\<close>, never out of an unknown write to \<open>COMPLETED\<close>.
\<close>

section \<open>The transition table\<close>

fun allowed_transitions :: "pathway_state \<Rightarrow> pathway_state list" where
  "allowed_transitions PROPOSED = [AWAITING_APPROVAL, APPROVED, DENIED]"
| "allowed_transitions AWAITING_APPROVAL = [APPROVED, DENIED, HUMAN_GATE]"
| "allowed_transitions APPROVED = [RUNNING, HELD, ABORTED]"
| "allowed_transitions RUNNING =
     [COMPLETED, STOPPED, PARTIALLY_COMPLETED, WRITE_STATUS_UNKNOWN, REPAIR_REQUIRED]"
| "allowed_transitions HELD = [HUMAN_GATE, APPROVED, ABORTED]"
| "allowed_transitions HUMAN_GATE = [APPROVED, DENIED, ABORTED]"
| "allowed_transitions STOPPED = [REPAIR_REQUIRED, ABORTED]"
| "allowed_transitions PARTIALLY_COMPLETED = [REPAIR_REQUIRED]"
| "allowed_transitions WRITE_STATUS_UNKNOWN = [COMPLETED, REPAIR_REQUIRED]"
| "allowed_transitions REPAIR_REQUIRED = [READY_TO_RESUME, ABORTED]"
| "allowed_transitions READY_TO_RESUME = [RUNNING, ABORTED]"
| "allowed_transitions COMPLETED = []"
| "allowed_transitions DENIED = []"
| "allowed_transitions ABORTED = []"

definition terminal_states :: "pathway_state list" where
  "terminal_states = [COMPLETED, DENIED, ABORTED]"

definition ensure_transition :: "pathway_state \<Rightarrow> pathway_state \<Rightarrow> unit res" where
  "ensure_transition current target =
     (if target \<in> set (allowed_transitions current) then Inr ()
      else Inl (Exn InvalidTransition (str ''Transition '' @ state_value current @ str '' -> ''
              @ state_value target @ str '' is not allowed'')))"

lemma ensure_transition_ok [simp]:
  "ensure_transition s t = Inr u \<longleftrightarrow> t \<in> set (allowed_transitions s)"
  by (simp add: ensure_transition_def)

lemma terminal_no_transition:
  "allowed_transitions s = [] \<longleftrightarrow> s \<in> set terminal_states"
  by (cases s) (simp_all add: terminal_states_def)

text \<open>
  The stages of a pathway: before its first run, running, stopped with a run to settle, and
  ended. A transition never goes back from a later stage to an earlier one, except that a
  repaired pathway may run again.
\<close>

fun before_run :: "pathway_state \<Rightarrow> bool" where
  "before_run PROPOSED = True"
| "before_run AWAITING_APPROVAL = True"
| "before_run APPROVED = True"
| "before_run HELD = True"
| "before_run HUMAN_GATE = True"
| "before_run DENIED = True"
| "before_run _ = False"

lemma to_before_run:
  "t \<in> set (allowed_transitions s) \<Longrightarrow> before_run t \<Longrightarrow> before_run s"
  by (cases s) auto

lemma to_running:
  "RUNNING \<in> set (allowed_transitions s) \<longleftrightarrow> s = APPROVED \<or> s = READY_TO_RESUME"
  by (cases s) auto

lemma to_ready:
  "READY_TO_RESUME \<in> set (allowed_transitions s) \<longleftrightarrow> s = REPAIR_REQUIRED"
  by (cases s) auto

lemma to_unknown:
  "WRITE_STATUS_UNKNOWN \<in> set (allowed_transitions s) \<longleftrightarrow> s = RUNNING"
  by (cases s) auto

lemma to_completed:
  "COMPLETED \<in> set (allowed_transitions s) \<longleftrightarrow> s = RUNNING \<or> s = WRITE_STATUS_UNKNOWN"
  by (cases s) auto

section \<open>Authority\<close>

definition require_actor :: "pystr \<Rightarrow> pystr res" where
  "require_actor actor =
     (let a = strip actor in if a = [] then err AuthorityError ''actor is required'' else Inr a)"

definition authorize_execution_access :: "pathway_definition \<Rightarrow> pystr \<Rightarrow> unit res" where
  "authorize_execution_access d actor = rbind (require_actor actor) (\<lambda>a.
     check (a = execution_actor d) AuthorityError ''actor lacks execution authority'')"

definition authorize_reconciliation_access :: "pathway_definition \<Rightarrow> pystr \<Rightarrow> unit res" where
  "authorize_reconciliation_access d actor = rbind (require_actor actor) (\<lambda>a.
     check (a = repair_owner d \<or> a = evidence_owner d)
       AuthorityError ''actor lacks reconciliation authority'')"

record transition_authority =
  required_role :: pystr
  expected_actor :: pystr

definition required_authority ::
    "pathway_definition \<Rightarrow> pathway_state \<Rightarrow> transition_authority option" where
  "required_authority d target =
     (let rule = (\<lambda>r a. Some \<lparr>required_role = str r, expected_actor = a\<rparr>) in
      if target = APPROVED then
        rule ''approval_authority'' (case approval_authority d of None \<Rightarrow> [] | Some a \<Rightarrow> a)
      else if target = STOPPED \<or> target = HELD \<or> target = HUMAN_GATE then
        rule ''stop_authority'' (stop_authority d)
      else if target = REPAIR_REQUIRED then rule ''repair_owner'' (repair_owner d)
      else if target = READY_TO_RESUME then rule ''repair_owner'' (repair_owner d)
      else if target = RUNNING then rule ''execution_or_resume_authority'' []
      else if target = COMPLETED \<or> target = PARTIALLY_COMPLETED \<or> target = WRITE_STATUS_UNKNOWN
      then rule ''execution_actor'' (execution_actor d)
      else if target = ABORTED then rule ''residual_owner'' (residual_owner d)
      else None)"

definition authorize_transition ::
    "pathway_definition \<Rightarrow> pathway_state \<Rightarrow> pathway_state \<Rightarrow> pystr \<Rightarrow> unit res" where
  "authorize_transition d current target actor =
     rbind (require_actor actor) (\<lambda>a.
     if current = WRITE_STATUS_UNKNOWN \<and> target = COMPLETED then
       err AuthorityError ''unknown write completion requires reconciliation authority and evidence''
     else if target = ABORTED then
       err AuthorityError ''aborted transition requires residual closure evidence''
     else if target = RUNNING then
       check (a = execution_actor d
           \<or> (current = READY_TO_RESUME \<or> current = STOPPED \<or> current = HELD)
             \<and> a = resume_authority d)
         AuthorityError ''actor lacks execution or resume authority''
     else case required_authority d target of
         None \<Rightarrow> Inr ()
       | Some rule \<Rightarrow>
           (if expected_actor rule = [] \<or> a \<noteq> expected_actor rule
            then Inl (Exn AuthorityError (str ''actor lacks '' @ required_role rule))
            else Inr ()))"

text \<open>
  The holder a transition names, as the contract of \<open>authorize_transition\<close>: who may move a
  pathway from one state to another.
\<close>

fun may_move :: "pathway_definition \<Rightarrow> pathway_state \<Rightarrow> pystr \<Rightarrow> pathway_state \<Rightarrow> bool" where
  "may_move d s a ABORTED = False"
| "may_move d s a RUNNING =
     (a = execution_actor d
      \<or> s \<in> {READY_TO_RESUME, STOPPED, HELD} \<and> a = resume_authority d)"
| "may_move d s a APPROVED = (approval_authority d = Some a)"
| "may_move d s a STOPPED = (a = stop_authority d)"
| "may_move d s a HELD = (a = stop_authority d)"
| "may_move d s a HUMAN_GATE = (a = stop_authority d)"
| "may_move d s a REPAIR_REQUIRED = (a = repair_owner d)"
| "may_move d s a READY_TO_RESUME = (a = repair_owner d)"
| "may_move d s a COMPLETED = (s \<noteq> WRITE_STATUS_UNKNOWN \<and> a = execution_actor d)"
| "may_move d s a PARTIALLY_COMPLETED = (a = execution_actor d)"
| "may_move d s a WRITE_STATUS_UNKNOWN = (a = execution_actor d)"
| "may_move d s a t = True"

lemma require_actor_ok [simp]:
  "require_actor actor = Inr a \<longleftrightarrow> a = strip actor \<and> a \<noteq> []"
  by (auto simp: require_actor_def Let_def)

lemma authorize_execution_ok:
  "authorize_execution_access d actor = Inr u \<longleftrightarrow>
     strip actor \<noteq> [] \<and> strip actor = execution_actor d"
  by (auto simp: authorize_execution_access_def rbind_eq_Inr)

lemma authorize_reconciliation_ok:
  "authorize_reconciliation_access d actor = Inr u \<longleftrightarrow>
     strip actor \<noteq> [] \<and> strip actor \<in> {repair_owner d, evidence_owner d}"
  by (auto simp: authorize_reconciliation_access_def rbind_eq_Inr)

lemma authorize_transition_ok:
  "authorize_transition d s t actor = Inr u \<longleftrightarrow>
     strip actor \<noteq> [] \<and> may_move d s (strip actor) t"
  by (cases t)
    (auto simp: authorize_transition_def rbind_eq_Inr required_authority_def Let_def
      split: option.splits)

section \<open>Routing\<close>

definition compatibility_route_for_state :: "pathway_state \<Rightarrow> route_class option" where
  "compatibility_route_for_state s =
     (if s = WRITE_STATUS_UNKNOWN then Some HOLD_FOR_RECONCILIATION
      else if s = HUMAN_GATE then Some BOUNDED_HUMAN_RETURN else None)"

definition pathway_states :: "pathway_state list" where
  "pathway_states = [PROPOSED, AWAITING_APPROVAL, APPROVED, RUNNING, HELD, HUMAN_GATE, STOPPED,
     PARTIALLY_COMPLETED, WRITE_STATUS_UNKNOWN, REPAIR_REQUIRED, READY_TO_RESUME, COMPLETED,
     DENIED, ABORTED]"

lemma enum_parse_state [simp]:
  "enum_parse state_value pathway_states (PStr (state_value s)) = Inr s"
  by (cases s) (simp_all add: enum_parse_def pathway_states_def)

definition build_route_visibility :: "pystr \<Rightarrow> pdict \<Rightarrow> pdict res" where
  "build_route_visibility state d =
     rbind (enum_parse state_value pathway_states (PStr state)) (\<lambda>s.
     let declared = dget_none d (str ''responsibility_route'') in
     rbind (check (case declared of PNone \<Rightarrow> True | PDict _ \<Rightarrow> True | _ \<Rightarrow> False)
       ValueError ''responsibility_route must be an object when present'') (\<lambda>_.
     Inr (obj [
       (''state'', PStr (state_value s)),
       (''compatibility_route'', (case compatibility_route_for_state s of
          None \<Rightarrow> PNone | Some r \<Rightarrow> PStr (route_class_value r))),
       (''declared_route'', declared),
       (''human_return_point'', dget_none d (str ''human_return_point'')),
       (''residual_owner'', dget_none d (str ''residual_owner'')),
       (''authority_inferred'', PBool False)])))"

end
