(* ===== verification/Rpr_Inspection.thy ===== *)
theory Rpr_Inspection
  imports Rpr_Authority
begin

text \<open>
  \<open>inspection.py\<close>: the findings of a pathway definition and the decision they lead to. The
  lemmas say when a definition is valid, when it is held, gated or allowed, and that an
  allowed definition names every holder of responsibility.
\<close>

section \<open>Findings\<close>

definition finding :: "string \<Rightarrow> string \<Rightarrow> severity \<Rightarrow> validation_finding" where
  "finding c m v = \<lparr>finding_code = str c, finding_message = str m, finding_severity = v\<rparr>"

text \<open>The loop over a table of required names.\<close>

definition missing :: "(string \<times> pystr) list \<Rightarrow> validation_finding list" where
  "missing req = concat (map (\<lambda>(n, v).
     if strip v = [] then [finding (n @ ''_missing'') (n @ '' is required'') Error] else []) req)"

definition route_required :: "responsibility_route \<Rightarrow> (string \<times> pystr) list" where
  "route_required r = [
     (''route_source_holder'', source_holder r),
     (''route_destination'', destination r),
     (''route_authority_class'', authority_class r),
     (''route_delegation_scope'', delegation_scope r),
     (''route_closure_condition'', closure_condition r),
     (''route_reevaluation_condition'', reevaluation_condition r),
     (''route_residual_owner'', route_residual_owner r)]"

definition inspect_responsibility_route :: "pathway_definition \<Rightarrow> validation_finding list" where
  "inspect_responsibility_route p = (case responsibility_route p of None \<Rightarrow> [] | Some r \<Rightarrow>
     missing (route_required r)
     @ (if allowed_next_actions r = [] then
          [finding ''route_allowed_next_actions_missing''
             ''A responsibility route must bound at least one allowed next action'' Error]
        else if list_ex (\<lambda>a. strip a = []) (allowed_next_actions r) then
          [finding ''route_allowed_next_actions_blank''
             ''Responsibility route actions must be non-empty'' Error]
        else [])
     @ (if route_residual_owner r \<noteq> residual_owner p then
          [finding ''route_residual_owner_mismatch''
             ''Responsibility routing must preserve the pathway residual owner unless ownership is explicitly redesigned''
             Error] else [])
     @ (case receiver_eligibility r of
          INELIGIBLE \<Rightarrow> [finding ''route_receiver_ineligible''
            ''An ineligible receiver cannot be selected as the active responsibility route destination''
            Error]
        | REQUIRES_REEVALUATION \<Rightarrow> [finding ''route_receiver_requires_reevaluation''
            ''Receiver eligibility must be reevaluated before the route is relied on'' Warning]
        | ELIGIBLE \<Rightarrow> [])
     @ (if route_class r = BOUNDED_HUMAN_RETURN \<and> strip (human_return_point p) = [] then
          [finding ''bounded_human_return_point_missing''
             ''A bounded human-return route requires a concrete human return point'' Error]
        else []))"

definition pathway_required :: "pathway_definition \<Rightarrow> (string \<times> pystr) list" where
  "pathway_required p = [
     (''pathway_id'', pathway_id p),
     (''action_name'', action_name p),
     (''decision_owner'', decision_owner p),
     (''execution_actor'', execution_actor p),
     (''stop_authority'', stop_authority p),
     (''evidence_owner'', evidence_owner p),
     (''repair_owner'', repair_owner p),
     (''resume_authority'', resume_authority p),
     (''residual_owner'', residual_owner p)]"

definition approval_needed :: "action_class \<Rightarrow> bool" where
  "approval_needed c \<longleftrightarrow> c = APPROVAL_REQUIRED \<or> c = REVERSIBLE_EXTERNAL \<or> c = HIGH_IMPACT"

definition inspection_findings :: "pathway_definition \<Rightarrow> validation_finding list" where
  "inspection_findings p =
     missing (pathway_required p)
     @ inspect_responsibility_route p
     @ (if approval_needed (action_class p)
           \<and> strip (case approval_authority p of None \<Rightarrow> [] | Some a \<Rightarrow> a) = [] then
          [finding ''approval_authority_missing''
             ''This action class requires an approval authority'' Error] else [])
     @ (if action_class p = HIGH_IMPACT \<and> strip (human_return_point p) = [] then
          [finding ''high_impact_human_return_point_missing''
             ''A high-impact Human Gate requires a concrete human return point'' Error] else [])
     @ (if action_class p = HIGH_IMPACT \<and> stop_authority p = execution_actor p then
          [finding ''stop_execution_authority_not_separated''
             ''High-impact actions should separate stop authority from execution actor'' Error]
        else [])
     @ (if environment_trust p = UNTRUSTED_PUBLIC \<or> environment_trust p = ADVERSARIAL then
          [finding ''untrusted_environment''
             ''Untrusted environments require an explicit human gate before external mutation''
             Warning] else [])"

section \<open>The decision\<close>

definition inspect_pathway :: "pathway_definition \<Rightarrow> inspection_result" where
  "inspect_pathway p =
     (let fs = inspection_findings p;
          errors = filter (\<lambda>f. finding_severity f = Error) fs;
          reevaluate = list_ex (\<lambda>f. finding_code f = str ''route_receiver_requires_reevaluation'') fs;
          (dec, deg, na, act) =
            (if errors \<noteq> [] then
               (HOLD, ''invalid_pathway_definition'',
                if decision_owner p = [] then None else Some (decision_owner p),
                ''correct_pathway_definition'')
             else if reevaluate then
               (HOLD, ''route_reevaluation_required'', Some (decision_owner p),
                ''reevaluate_responsibility_route'')
             else if environment_trust p = ADVERSARIAL then
               (HOLD, ''safe_only'', Some (stop_authority p), ''review_adversarial_environment'')
             else if action_class p = HIGH_IMPACT then
               (HUMAN_GATE_DECISION, ''limited'', approval_authority p,
                ''perform_explicit_human_review'')
             else if approval_needed (action_class p) then
               (ALLOW, ''approval_pending'', approval_authority p, ''approve_or_deny'')
             else (ALLOW, ''full'', Some (execution_actor p), ''execute_bounded_action''))
      in \<lparr>valid = (errors = []), decision = dec, findings = fs,
          human_return_available = (strip (human_return_point p) \<noteq> []),
          degradation_mode = str deg, next_required_authority = na,
          next_required_action = Some (str act)\<rparr>)"

section \<open>When a definition is valid\<close>

text \<open>
  The contract: every holder is named, approval and human-return points exist where the
  action class needs them, the stop authority of a high-impact action is someone else, and a
  declared route is bounded, keeps the residual owner and does not name an ineligible
  receiver.
\<close>

definition route_sound :: "pathway_definition \<Rightarrow> responsibility_route \<Rightarrow> bool" where
  "route_sound p r \<longleftrightarrow>
     (\<forall>v \<in> set (map snd (route_required r)). \<not> blank v)
     \<and> allowed_next_actions r \<noteq> [] \<and> (\<forall>a \<in> set (allowed_next_actions r). \<not> blank a)
     \<and> route_residual_owner r = residual_owner p \<and> receiver_eligibility r \<noteq> INELIGIBLE
     \<and> (route_class r = BOUNDED_HUMAN_RETURN \<longrightarrow> \<not> blank (human_return_point p))"

definition pathway_sound :: "pathway_definition \<Rightarrow> bool" where
  "pathway_sound p \<longleftrightarrow>
     (\<forall>v \<in> set (map snd (pathway_required p)). \<not> blank v)
     \<and> (\<forall>r. responsibility_route p = Some r \<longrightarrow> route_sound p r)
     \<and> (approval_needed (action_class p) \<longrightarrow>
          (\<exists>a. approval_authority p = Some a \<and> \<not> blank a))
     \<and> (action_class p = HIGH_IMPACT \<longrightarrow>
          \<not> blank (human_return_point p) \<and> stop_authority p \<noteq> execution_actor p)"

definition no_errors :: "validation_finding list \<Rightarrow> bool" where
  "no_errors fs \<longleftrightarrow> (\<forall>f \<in> set fs. finding_severity f \<noteq> Error)"

lemma no_errors_simps [simp]:
  "no_errors []" "no_errors (xs @ ys) \<longleftrightarrow> no_errors xs \<and> no_errors ys"
  "no_errors (f # fs) \<longleftrightarrow> finding_severity f \<noteq> Error \<and> no_errors fs"
  by (auto simp: no_errors_def)

lemma finding_simps [simp]:
  "finding_severity (finding c m v) = v" "finding_code (finding c m v) = str c"
  by (simp_all add: finding_def)

lemma no_errors_missing [simp]:
  "no_errors (missing req) \<longleftrightarrow> (\<forall>v \<in> set (map snd req). \<not> blank v)"
  by (induction req) (auto simp: missing_def blank_def)

lemma no_errors_route:
  "no_errors (inspect_responsibility_route p) \<longleftrightarrow>
     (\<forall>r. responsibility_route p = Some r \<longrightarrow> route_sound p r)"
proof (cases "responsibility_route p")
  case (Some r)
  have "no_errors (inspect_responsibility_route p) \<longleftrightarrow> route_sound p r"
    by (cases "receiver_eligibility r")
      (auto simp: inspect_responsibility_route_def Some route_sound_def list_ex_iff
        blank_def [symmetric])
  with Some show ?thesis by simp
qed (simp add: inspect_responsibility_route_def)

lemma no_errors_findings: "no_errors (inspection_findings p) \<longleftrightarrow> pathway_sound p"
proof -
  have "strip (case approval_authority p of None \<Rightarrow> [] | Some a \<Rightarrow> a) = [] \<longleftrightarrow>
      \<not> (\<exists>a. approval_authority p = Some a \<and> \<not> blank a)"
    by (auto simp: blank_def strip_def split: option.splits)
  then show ?thesis
    by (simp add: inspection_findings_def no_errors_route pathway_sound_def flip: blank_def)
qed

lemma errors_empty: "filter (\<lambda>f. finding_severity f = Error) fs = [] \<longleftrightarrow> no_errors fs"
  by (auto simp: no_errors_def filter_empty_conv)

definition needs_reevaluation :: "pathway_definition \<Rightarrow> bool" where
  "needs_reevaluation p \<longleftrightarrow>
     (\<exists>r. responsibility_route p = Some r \<and> receiver_eligibility r = REQUIRES_REEVALUATION)"

lemma missing_code:
  "f \<in> set (missing req) \<Longrightarrow> \<exists>n \<in> set (map fst req). finding_code f = str (n @ ''_missing'')"
  by (induction req) (auto simp: missing_def split: if_splits)

lemma reevaluation_code:
  "list_ex (\<lambda>f. finding_code f = str ''route_receiver_requires_reevaluation'')
     (inspection_findings p) \<longleftrightarrow> needs_reevaluation p"
proof -
  let ?c = "\<lambda>f. finding_code f = str ''route_receiver_requires_reevaluation''"
  have m: "\<not> list_ex ?c (missing (pathway_required p))" "\<not> list_ex ?c (missing (route_required r))" for r
    by (auto simp: list_ex_iff pathway_required_def route_required_def dest!: missing_code)
  have "list_ex ?c (inspect_responsibility_route p) \<longleftrightarrow> needs_reevaluation p"
    by (auto simp: inspect_responsibility_route_def needs_reevaluation_def m
        split: option.splits receiver_eligibility.splits)
  then show ?thesis by (simp add: inspection_findings_def m)
qed

lemma inspect_valid [simp]: "valid (inspect_pathway p) \<longleftrightarrow> pathway_sound p"
  by (simp add: inspect_pathway_def Let_def case_prod_beta errors_empty no_errors_findings)

lemma inspect_decision:
  "decision (inspect_pathway p) =
     (if \<not> pathway_sound p \<or> needs_reevaluation p \<or> environment_trust p = ADVERSARIAL then HOLD
      else if action_class p = HIGH_IMPACT then HUMAN_GATE_DECISION else ALLOW)"
  by (simp add: inspect_pathway_def Let_def case_prod_beta errors_empty no_errors_findings
      reevaluation_code)

end
