(* ===== verification/Rpr_StrictJson.thy ===== *)
theory Rpr_StrictJson
  imports Rpr_Models
begin

text \<open>
  The strict JSON identity of \<open>attempts.py\<close> (\<open>_strict_json_identity\<close>): the detached copy of
  a request or a result, under a depth bound and a budget of nodes and string bytes shared by
  the whole value. The lemmas show that the copy is the value \<open>json.loads(json.dumps(v))\<close>,
  that it stays within every bound, and that it always has canonical bytes.
\<close>

section \<open>The budget\<close>

definition max_nesting :: nat where "max_nesting = 64"
definition max_nodes :: nat where "max_nodes = 10000"
definition max_string_bytes :: nat where "max_string_bytes = 1000000"
definition max_canonical_bytes :: nat where "max_canonical_bytes = 1100000"

record json_budget =
  nodes :: nat
  string_bytes :: nat

definition empty_budget :: json_budget where
  "empty_budget = \<lparr>nodes = 0, string_bytes = 0\<rparr>"

definition consume_node :: "json_budget \<Rightarrow> json_budget res" where
  "consume_node b =
     (if nodes b + 1 > max_nodes
      then err AttemptFingerprintError ''exceeds maximum expanded JSON node count''
      else if string_bytes b > max_string_bytes
      then err AttemptFingerprintError ''exceeds maximum aggregate JSON string bytes''
      else Inr (b\<lparr>nodes := nodes b + 1\<rparr>))"

definition consume_string :: "json_budget \<Rightarrow> pystr \<Rightarrow> json_budget res" where
  "consume_string b s = (case utf8_len s of
       Inl e \<Rightarrow> err AttemptFingerprintError ''contains invalid Unicode''
     | Inr n \<Rightarrow>
         (if string_bytes b + n > max_string_bytes
          then err AttemptFingerprintError ''exceeds maximum aggregate JSON string bytes''
          else Inr (b\<lparr>string_bytes := string_bytes b + n\<rparr>)))"

section \<open>The identity\<close>

text \<open>
  A Python value that contains itself is not a finite tree, so the branch that rejects one
  has no counterpart here; the type of the exception is the same as for the depth bound that
  a cycle would run into. Messages leave out the path of the offending part.
\<close>

fun strict_value :: "json_budget \<Rightarrow> nat \<Rightarrow> pv \<Rightarrow> (pv \<times> json_budget) res"
  and strict_list :: "json_budget \<Rightarrow> nat \<Rightarrow> pv list \<Rightarrow> (pv list \<times> json_budget) res"
  and strict_items :: "json_budget \<Rightarrow> nat \<Rightarrow> pdict \<Rightarrow> pdict \<Rightarrow> (pdict \<times> json_budget) res" where
  "strict_value b depth (PStr s) = rbind (consume_node b) (\<lambda>b.
     rbind (consume_string b s) (\<lambda>b. Inr (PStr s, b)))"
| "strict_value b depth (PFloat x) = rbind (consume_node b) (\<lambda>b.
     if is_finite x then Inr (PFloat x, b)
     else err AttemptFingerprintError ''contains a non-finite JSON number'')"
| "strict_value b depth (PDict kvs) = rbind (consume_node b) (\<lambda>b.
     if depth \<ge> max_nesting then err AttemptFingerprintError ''exceeds maximum JSON nesting''
     else rbind (strict_items b (depth + 1) kvs []) (\<lambda>(out, b). Inr (PDict out, b)))"
| "strict_value b depth (PList vs) = rbind (consume_node b) (\<lambda>b.
     if depth \<ge> max_nesting then err AttemptFingerprintError ''exceeds maximum JSON nesting''
     else rbind (strict_list b (depth + 1) vs) (\<lambda>(ws, b). Inr (PList ws, b)))"
| "strict_value b depth (PTuple vs) = rbind (consume_node b) (\<lambda>b.
     if depth \<ge> max_nesting then err AttemptFingerprintError ''exceeds maximum JSON nesting''
     else rbind (strict_list b (depth + 1) vs) (\<lambda>(ws, b). Inr (PList ws, b)))"
| "strict_value b depth (PObj t s) = rbind (consume_node b) (\<lambda>b.
     err AttemptFingerprintError ''contains a non-JSON value'')"
| "strict_value b depth v = rbind (consume_node b) (\<lambda>b. Inr (v, b))"
| "strict_list b depth [] = Inr ([], b)"
| "strict_list b depth (v # vs) = rbind (strict_value b depth v) (\<lambda>(w, b).
     rbind (strict_list b depth vs) (\<lambda>(ws, b). Inr (w # ws, b)))"
| "strict_items b depth [] out = Inr (out, b)"
| "strict_items b depth ((k, v) # kvs) out = (case k of
       PStr s \<Rightarrow> rbind (consume_string b s) (\<lambda>b.
         rbind (strict_value b depth v) (\<lambda>(w, b). strict_items b depth kvs (dset s w out)))
     | _ \<Rightarrow> err AttemptFingerprintError ''contains a non-string object key'')"

definition strict_json_identity :: "pv \<Rightarrow> pv res" where
  "strict_json_identity v = rbind (strict_value empty_budget 0 v) (\<lambda>(w, b). Inr w)"

section \<open>Bounds\<close>

text \<open>What the whole copy measures: nesting, values, and bytes of strings and keys.\<close>

fun nesting :: "pv \<Rightarrow> nat"
  and nesting_list :: "pv list \<Rightarrow> nat"
  and nesting_items :: "pdict \<Rightarrow> nat" where
  "nesting (PDict kvs) = Suc (nesting_items kvs)"
| "nesting (PList vs) = Suc (nesting_list vs)"
| "nesting (PTuple vs) = Suc (nesting_list vs)"
| "nesting v = 0"
| "nesting_list [] = 0"
| "nesting_list (v # vs) = max (nesting v) (nesting_list vs)"
| "nesting_items [] = 0"
| "nesting_items ((k, v) # kvs) = max (nesting v) (nesting_items kvs)"

fun node_count :: "pv \<Rightarrow> nat"
  and node_count_list :: "pv list \<Rightarrow> nat"
  and node_count_items :: "pdict \<Rightarrow> nat" where
  "node_count (PDict kvs) = Suc (node_count_items kvs)"
| "node_count (PList vs) = Suc (node_count_list vs)"
| "node_count (PTuple vs) = Suc (node_count_list vs)"
| "node_count v = 1"
| "node_count_list [] = 0"
| "node_count_list (v # vs) = node_count v + node_count_list vs"
| "node_count_items [] = 0"
| "node_count_items ((k, v) # kvs) = node_count v + node_count_items kvs"

text \<open>Every string can be encoded and every number is finite.\<close>

definition text_ok :: "pystr \<Rightarrow> bool" where
  "text_ok s \<longleftrightarrow> \<not> list_ex surrogate s"

fun plain :: "pv \<Rightarrow> bool"
  and plain_list :: "pv list \<Rightarrow> bool"
  and plain_items :: "pdict \<Rightarrow> bool" where
  "plain (PStr s) = text_ok s"
| "plain (PFloat x) = is_finite x"
| "plain (PDict kvs) = plain_items kvs"
| "plain (PList vs) = plain_list vs"
| "plain (PTuple vs) = False"
| "plain (PObj t s) = False"
| "plain v = True"
| "plain_list [] = True"
| "plain_list (v # vs) = (plain v \<and> plain_list vs)"
| "plain_items [] = True"
| "plain_items ((k, v) # kvs) =
     ((case k of PStr s \<Rightarrow> text_ok s | _ \<Rightarrow> False) \<and> plain v \<and> plain_items kvs)"

text \<open>The keys of every mapping are distinct, as in any Python \<open>dict\<close>.\<close>

fun proper :: "pv \<Rightarrow> bool"
  and proper_list :: "pv list \<Rightarrow> bool"
  and proper_items :: "pdict \<Rightarrow> bool" where
  "proper (PDict kvs) = (distinct (map fst kvs) \<and> proper_items kvs)"
| "proper (PList vs) = proper_list vs"
| "proper (PTuple vs) = proper_list vs"
| "proper v = True"
| "proper_list [] = True"
| "proper_list (v # vs) = (proper v \<and> proper_list vs)"
| "proper_items [] = True"
| "proper_items ((k, v) # kvs) = (proper v \<and> proper_items kvs)"

lemma consume_node_ok: "consume_node b = Inr b' \<longleftrightarrow>
    nodes b < max_nodes \<and> string_bytes b \<le> max_string_bytes \<and> b' = b\<lparr>nodes := nodes b + 1\<rparr>"
  by (auto simp: consume_node_def)

lemma consume_string_ok: "consume_string b s = Inr b' \<Longrightarrow>
    text_ok s \<and> nodes b' = nodes b \<and> string_bytes b' \<le> max_string_bytes"
  by (auto simp: consume_string_def utf8_len_def utf8_encode_def text_ok_def
      split: sum.splits if_splits)

lemma plain_items_dset:
  "plain_items out \<Longrightarrow> text_ok s \<Longrightarrow> plain w \<Longrightarrow> plain_items (dset s w out)"
  by (induction out) (auto simp: dset_def split: pv.splits)

lemma proper_items_dset: "proper_items out \<Longrightarrow> proper w \<Longrightarrow> proper_items (dset s w out)"
  by (induction out) (auto simp: dset_def)

lemma nesting_items_dset: "nesting_items (dset s w out) \<le> max (nesting w) (nesting_items out)"
  by (induction out) (auto simp: dset_def)

lemma node_count_items_dset:
  "node_count_items (dset s w out) \<le> node_count w + node_count_items out"
  by (induction out) (auto simp: dset_def)

text \<open>The copy of a value fits between the budget before and the budget after.\<close>

lemma strict_bounds:
  "strict_value b depth v = Inr (w, b') \<Longrightarrow> depth \<le> max_nesting \<Longrightarrow>
     plain w \<and> proper w \<and> depth + nesting w \<le> max_nesting \<and> nodes b + node_count w \<le> nodes b'
       \<and> nodes b' \<le> max_nodes"
  "strict_list b depth vs = Inr (ws, b') \<Longrightarrow> depth \<le> max_nesting \<Longrightarrow> nodes b \<le> max_nodes \<Longrightarrow>
     plain_list ws \<and> proper_list ws \<and> depth + nesting_list ws \<le> max_nesting
       \<and> nodes b + node_count_list ws \<le> nodes b' \<and> nodes b' \<le> max_nodes"
  "strict_items b depth kvs out = Inr (os, b') \<Longrightarrow> depth \<le> max_nesting \<Longrightarrow> nodes b \<le> max_nodes \<Longrightarrow>
     plain_items out \<Longrightarrow> proper_items out \<Longrightarrow> distinct (map fst out) \<Longrightarrow>
     depth + nesting_items out \<le> max_nesting \<Longrightarrow>
     plain_items os \<and> proper_items os \<and> distinct (map fst os)
       \<and> depth + nesting_items os \<le> max_nesting
       \<and> nodes b + node_count_items os \<le> nodes b' + node_count_items out \<and> nodes b' \<le> max_nodes"
proof (induction b depth v and b depth vs and b depth kvs out
    arbitrary: w b' and ws b' and os b' rule: strict_value_strict_list_strict_items.induct)
  case (1 b depth s)
  then show ?case by (auto simp: rbind_eq_Inr consume_node_ok dest!: consume_string_ok)
next
  case (3 b depth kvs)
  from 3(2) obtain os where c: "consume_node b = Inr (b\<lparr>nodes := nodes b + 1\<rparr>)"
    "nodes b < max_nodes" "\<not> depth \<ge> max_nesting" "w = PDict os"
    and os: "strict_items (b\<lparr>nodes := nodes b + 1\<rparr>) (depth + 1) kvs [] = Inr (os, b')"
    by (auto simp: rbind_eq_Inr consume_node_ok split: if_splits)
  from "3.IH" [OF c(3) os] c show ?case by simp
next
  case (4 b depth vs)
  from 4(2) obtain ws where c: "consume_node b = Inr (b\<lparr>nodes := nodes b + 1\<rparr>)"
    "nodes b < max_nodes" "\<not> depth \<ge> max_nesting" "w = PList ws"
    and ws: "strict_list (b\<lparr>nodes := nodes b + 1\<rparr>) (depth + 1) vs = Inr (ws, b')"
    by (auto simp: rbind_eq_Inr consume_node_ok split: if_splits)
  from "4.IH" [OF c(3) ws] c show ?case by simp
next
  case (5 b depth vs)
  from 5(2) obtain ws where c: "consume_node b = Inr (b\<lparr>nodes := nodes b + 1\<rparr>)"
    "nodes b < max_nodes" "\<not> depth \<ge> max_nesting" "w = PList ws"
    and ws: "strict_list (b\<lparr>nodes := nodes b + 1\<rparr>) (depth + 1) vs = Inr (ws, b')"
    by (auto simp: rbind_eq_Inr consume_node_ok split: if_splits)
  from "5.IH" [OF c(3) ws] c show ?case by simp
next
  case (9 b depth v vs)
  from 9(3) obtain u us b1 where u: "strict_value b depth v = Inr (u, b1)"
    and us: "strict_list b1 depth vs = Inr (us, b')" and ws: "ws = u # us"
    by (auto simp: rbind_eq_Inr)
  from "9.IH"(1) [OF u 9(4)] "9.IH"(2) [OF us 9(4)] ws show ?case by force
next
  case (11 b depth k v kvs out)
  from 11(3) obtain s w b1 b2 where k: "k = PStr s" and s: "consume_string b s = Inr b1"
    and w: "strict_value b1 depth v = Inr (w, b2)"
    and os: "strict_items b2 depth kvs (dset s w out) = Inr (os, b')"
    by (auto simp: rbind_eq_Inr split: pv.splits)
  from "11.IH"(1) [OF k w 11(4)] consume_string_ok [OF s] have
    1: "plain w" "proper w" "depth + nesting w \<le> max_nesting"
      "nodes b + node_count w \<le> nodes b2" "nodes b2 \<le> max_nodes" "text_ok s" by auto
  have le: "depth + nesting_items (dset s w out) \<le> max_nesting"
    "node_count_items (dset s w out) \<le> node_count w + node_count_items out"
    using nesting_items_dset [of s w out] node_count_items_dset [of s w out] 1(3) 11(9)
    by linarith+
  from "11.IH"(2) [OF k os 11(4) 1(5)] 1 le 11(6-9) show ?case
    by (force intro: plain_items_dset proper_items_dset)
qed (auto simp: rbind_eq_Inr consume_node_ok split: if_splits)

lemma strict_identity_bounds:
  assumes "strict_json_identity v = Inr w"
  shows "plain w" "proper w" "nesting w \<le> max_nesting" "node_count w \<le> max_nodes"
  using assms strict_bounds(1) [of empty_budget 0 v w]
  by (force simp: strict_json_identity_def rbind_eq_Inr empty_budget_def)+

section \<open>The copy is the document\<close>

lemma dset_fresh: "PStr s \<notin> fst ` set out \<Longrightarrow> dset s w out = out @ [(PStr s, w)]"
  by (induction out) (auto simp: dset_def)

lemma strict_is_to_doc:
  "strict_value b depth v = Inr (w, b') \<Longrightarrow> proper v \<Longrightarrow> to_doc v = Inr w"
  "strict_list b depth vs = Inr (ws, b') \<Longrightarrow> proper_list vs \<Longrightarrow> to_docs vs = Inr ws"
  "strict_items b depth kvs out = Inr (os, b') \<Longrightarrow> proper_items kvs \<Longrightarrow> distinct (map fst kvs) \<Longrightarrow>
     fst ` set kvs \<inter> fst ` set out = {} \<Longrightarrow> \<exists>ks. to_items kvs = Inr ks \<and> os = out @ ks"
proof (induction b depth v and b depth vs and b depth kvs out
    arbitrary: w b' and ws b' and os b' rule: strict_value_strict_list_strict_items.induct)
  case (11 b depth k v kvs out)
  from 11(3) obtain s w b1 b2 where k: "k = PStr s"
    and w: "strict_value b1 depth v = Inr (w, b2)"
    and os: "strict_items b2 depth kvs (dset s w out) = Inr (os, b')"
    by (auto simp: rbind_eq_Inr split: pv.splits)
  from 11(6) k have "PStr s \<notin> fst ` set out" by auto
  then have d: "dset s w out = out @ [(PStr s, w)]" by (rule dset_fresh)
  from 11(4) have pv: "proper v" "proper_items kvs" by auto
  have disj: "fst ` set kvs \<inter> fst ` set (dset s w out) = {}" using 11(5,6) k d by auto
  from "11.IH"(1) [OF k w pv(1)] "11.IH"(2) [OF k os pv(2) _ disj] 11(5) d k show ?case by auto
qed (auto simp: rbind_eq_Inr split: if_splits; blast)+

lemma strict_identity_to_doc:
  "strict_json_identity v = Inr w \<Longrightarrow> proper v \<Longrightarrow> to_doc v = Inr w"
  by (auto simp: strict_json_identity_def rbind_eq_Inr intro: strict_is_to_doc(1))

text \<open>
  What \<open>sqlite3\<close> checks of a text parameter: one with a surrogate cannot be bound and raises
  \<open>UnicodeEncodeError\<close>.
\<close>

definition bind_text :: "pystr list \<Rightarrow> unit res" where
  "bind_text ss = check (list_all text_ok ss) UnicodeEncodeError ''surrogates not allowed''"

section \<open>Canonical bytes always exist\<close>

lemma plain_is_doc:
  "plain v \<Longrightarrow> is_doc v" "plain_list vs \<Longrightarrow> are_docs vs" "plain_items kvs \<Longrightarrow> items_doc kvs"
  by (induction v and vs and kvs rule: plain_plain_list_plain_items.induct)
    (auto split: pv.splits)

lemma plain_items_iff:
  "plain_items kvs \<longleftrightarrow> (\<forall>(k, v) \<in> set kvs. (\<exists>s. k = PStr s \<and> text_ok s) \<and> plain v)"
  by (induction kvs) (auto split: pv.splits)

lemma plain_canon:
  "plain v \<Longrightarrow> plain (canon v)" "plain_list vs \<Longrightarrow> plain_list (canons vs)"
  "plain_items kvs \<Longrightarrow> plain_items (canon_items kvs)"
proof (induction v and vs and kvs rule: plain_plain_list_plain_items.induct)
  case (3 kvs)
  then show ?case by (simp add: plain_items_iff)
qed (auto split: pv.splits)

lemma text_ok_simps [simp]:
  "text_ok []" "text_ok (c # s) \<longleftrightarrow> \<not> surrogate c \<and> text_ok s"
  "text_ok (s @ t) \<longleftrightarrow> text_ok s \<and> text_ok t"
  by (auto simp: text_ok_def)

lemma text_ok_num: "list_all num_char s \<Longrightarrow> text_ok s"
  by (auto simp: text_ok_def list_ex_iff list_all_iff num_char_def surrogate_def)

lemma text_ok_escape: "text_ok s \<Longrightarrow> text_ok (string_text s)"
proof -
  have "hex_digit (c div 16) < 55296" "hex_digit (c mod 16) < 55296" if "c < 32" for c
    using that div_le_dividend [of c 16] mod_less_eq_dividend [of c 16]
    by (auto simp: hex_digit_def simp del: div_le_dividend mod_less_eq_dividend)
  then have "\<not> surrogate c \<Longrightarrow> text_ok (escape_char c)" for c
    by (force simp: escape_char_def surrogate_def)
  then have "text_ok s \<Longrightarrow> text_ok (concat (map escape_char s))" by (induction s) auto
  then show "text_ok s \<Longrightarrow> text_ok (string_text s)"
    by (auto simp: string_text_def surrogate_def)
qed

lemma json_text_ok:
  assumes fr: "float_repr_ok fr"
  shows "plain v \<Longrightarrow> text_ok (json_text fr v)"
    "plain_list vs \<Longrightarrow> text_ok (json_texts fr vs)"
    "plain_items kvs \<Longrightarrow> text_ok (json_items fr kvs)"
proof (induction v and vs and kvs rule: plain_plain_list_plain_items.induct)
  case (2 x)
  have "text_ok (fr q)" for q using fr text_ok_num by (simp add: float_repr_ok_def)
  with 2 show ?case by (cases x) (auto simp: str_def surrogate_def)
next
  case "7_3"
  then show ?case using text_ok_num int_text_num(1) by simp
qed (auto simp: surrogate_def str_def text_ok_escape split: pv.splits)

lemma plain_canonical_bytes:
  assumes "float_repr_ok fr" "plain v"
  shows "\<exists>b. canonical_bytes fr v = Inr b"
proof -
  have "text_ok (json_text fr (canon v))" using assms by (intro json_text_ok(1) plain_canon(1))
  with plain_is_doc(1) [OF assms(2)] show ?thesis
    by (simp add: canonical_bytes_def canonical_doc_def to_doc_doc(1) utf8_encode_def text_ok_def)
qed

end
