(* ===== verification/Rpr_Registry.thy ===== *)
theory Rpr_Registry
  imports Rpr_Prelude
begin

text \<open>
  The contract that the pathway registry, the attempt ledger and the tenant registry share:
  a request is looked up and inserted in one transaction; it is replayed when a row with its
  key carries the same data, refused when the row carries other data, and inserted otherwise.
  The client's lemmas are proved here once; the providers interpret the locale on their own
  operations.
\<close>

locale replay_registry =
  fixes start :: "'q \<Rightarrow> ('s, bool \<times> 'v) py"
    and rows :: "'s \<Rightarrow> 'r list"
    and view :: "'r \<Rightarrow> 'v"
    and quiet :: "'s \<Rightarrow> bool"
    and admissible :: "'q \<Rightarrow> bool"
    and hit :: "'q \<Rightarrow> 'r list \<Rightarrow> 'r option"
    and same :: "'q \<Rightarrow> 'r \<Rightarrow> bool"
  assumes start_hit:
      "quiet s \<Longrightarrow> admissible q \<Longrightarrow> hit q (rows s) = Some r \<Longrightarrow> same q r \<Longrightarrow>
        start q s = (Inr (True, view r), s)"
    and start_conflict:
      "quiet s \<Longrightarrow> admissible q \<Longrightarrow> hit q (rows s) = Some r \<Longrightarrow> \<not> same q r \<Longrightarrow>
        \<exists>e. start q s = (Inl e, s)"
    and start_result:
      "quiet s \<Longrightarrow> start q s = (Inr (b, v), t) \<Longrightarrow>
        admissible q \<and> quiet t \<and> (\<exists>r. hit q (rows t) = Some r \<and> same q r \<and> v = view r)"
begin

text \<open>A retry of an accepted request is a replay with the same outcome and changes nothing.\<close>

lemma retry_replays:
  assumes "quiet s" "start q s = (Inr (b, v), t)"
  shows "start q t = (Inr (True, v), t)"
  using start_result [OF assms] start_hit by blast

text \<open>A request that finds an accepted row but carries other data is refused.\<close>

lemma conflict_refused:
  assumes "quiet s" "start q s = (Inr (b, v), t)" "admissible q'"
    and "\<And>r. hit q (rows t) = Some r \<Longrightarrow> same q r \<Longrightarrow> hit q' (rows t) = Some r \<and> \<not> same q' r"
  shows "\<exists>e. start q' t = (Inl e, t)"
  using start_result [OF assms(1,2)] start_conflict assms(3,4) by blast

text \<open>Any number of retries.\<close>

fun retries :: "nat \<Rightarrow> 'q \<Rightarrow> ('s, bool \<times> 'v) py" where
  "retries 0 q = start q"
| "retries (Suc n) q = seq (start q) (retries n q)"

lemma retries_replay:
  assumes "quiet s" "start q s = (Inr (b, v), t)"
  shows "retries (Suc n) q s = (Inr (True, v), t)"
proof -
  have "retries n q t = (Inr (True, v), t)"
    using retry_replays [OF assms] by (induction n) (simp_all add: seq_run)
  with assms(2) show ?thesis by (simp add: seq_run)
qed

end

end
