(* ===== verification/Rpr_Attempts.thy ===== *)
theory Rpr_Attempts
  imports Rpr_StrictJson Rpr_Registry
begin

text \<open>
  The execution-attempt ledger of \<open>attempts.py\<close>: the request fingerprint, the table
  \<open>execution_attempts\<close> and the transactions on it. The lemmas give the outcome of every
  transaction, with and without storage faults, the uniqueness of attempt ids and of
  idempotency keys, and the replay contract.
\<close>

section \<open>Fingerprints\<close>

text \<open>The handler around \<open>json.dumps(...).encode(...)\<close>.\<close>

definition wrap_encoding :: "exn_kind \<Rightarrow> 'a res \<Rightarrow> 'a res" where
  "wrap_encoding k r = (case r of
       Inr a \<Rightarrow> Inr a
     | Inl e \<Rightarrow> (if catches [TypeError, ValueError, UnicodeEncodeError] e
         then err k ''cannot be canonically serialized as JSON'' else Inl e))"

definition request_value :: "execution_request \<Rightarrow> pv" where
  "request_value q = PDict (obj [(''operation_id'', PStr (operation_id q)),
     (''action'', PStr (action q)), (''parameters'', PDict (parameters q))])"

definition fingerprint :: "pyenv \<Rightarrow> execution_request \<Rightarrow> pystr res" where
  "fingerprint env q =
     rbind (strict_json_identity (request_value q)) (\<lambda>identity.
     rbind (wrap_encoding AttemptFingerprintError (canonical_bytes (float_repr env) identity)) (\<lambda>b.
       if length b > max_canonical_bytes
       then err AttemptFingerprintError ''request exceeds maximum canonical JSON bytes''
       else Inr (sha256 env b)))"

text \<open>
  Equal fingerprints are equal requests: the same operation, the same action and the same
  parameters as JSON, or a collision of the hash.
\<close>

lemma fingerprint_identity:
  assumes fr: "float_repr_ok (float_repr env)"
    and p: "fingerprint env p = Inr h" and q: "fingerprint env q = Inr h"
    and proper: "proper (PDict (parameters p))" "proper (PDict (parameters q))"
  shows "(operation_id p = operation_id q \<and> action p = action q
      \<and> canonical_doc (PDict (parameters p)) = canonical_doc (PDict (parameters q)))
    \<or> (\<exists>a b. a \<noteq> b \<and> sha256 env a = sha256 env b)"
proof (rule disjCI)
  assume nc: "\<not> (\<exists>a b. a \<noteq> b \<and> sha256 env a = sha256 env b)"
  have step: "\<exists>d b. to_doc (request_value r) = Inr d
      \<and> canonical_bytes (float_repr env) d = Inr b \<and> h = sha256 env b"
    if "fingerprint env r = Inr h" "proper (PDict (parameters r))" for r
  proof -
    have "proper (request_value r)" using that(2) by (simp add: request_value_def obj_def)
    from that(1) obtain d where d: "strict_json_identity (request_value r) = Inr d"
      by (auto simp: fingerprint_def rbind_eq_Inr)
    with that(1) have "\<exists>b. canonical_bytes (float_repr env) d = Inr b \<and> h = sha256 env b"
      by (cases "canonical_bytes (float_repr env) d")
        (auto simp: fingerprint_def wrap_encoding_def split: if_splits)
    with strict_identity_to_doc [OF d \<open>proper (request_value r)\<close>] show ?thesis by blast
  qed
  from step [OF p proper(1)] obtain d a where d: "to_doc (request_value p) = Inr d"
    "canonical_bytes (float_repr env) d = Inr a" "h = sha256 env a" by blast
  from step [OF q proper(2)] obtain e b where e: "to_doc (request_value q) = Inr e"
    "canonical_bytes (float_repr env) e = Inr b" "h = sha256 env b" by blast
  from nc d(3) e(3) have "a = b" by blast
  with d e fr have "canonical_doc d = canonical_doc e" by (blast intro: canonical_bytes_inject)
  with d(1) e(1) have ce: "canon d = canon e"
    by (auto simp: canonical_doc_def to_doc_doc(1) to_doc_is_doc(1))
  from d(1) obtain x where x: "to_doc (PDict (parameters p)) = Inr (PDict x)"
    "d = PDict (obj [(''operation_id'', PStr (operation_id p)), (''action'', PStr (action p)),
       (''parameters'', PDict x)])"
    by (auto simp: request_value_def obj_def rbind_eq_Inr)
  from e(1) obtain y where y: "to_doc (PDict (parameters q)) = Inr (PDict y)"
    "e = PDict (obj [(''operation_id'', PStr (operation_id q)), (''action'', PStr (action q)),
       (''parameters'', PDict y)])"
    by (auto simp: request_value_def obj_def rbind_eq_Inr)
  from ce have "dget (sorted_items (obj [(''operation_id'', PStr (operation_id p)),
        (''action'', PStr (action p)), (''parameters'', PDict x)])) (str k) =
      dget (sorted_items (obj [(''operation_id'', PStr (operation_id q)),
        (''action'', PStr (action q)), (''parameters'', PDict y)])) (str k)" for k
    by (simp add: x(2) y(2) canon_PDict del: canon.simps)
  note g = this [simplified dget_sorted_items]
  from g [of "''operation_id''"] g [of "''action''"] g [of "''parameters''"] x(1) y(1)
  show "operation_id p = operation_id q \<and> action p = action q
      \<and> canonical_doc (PDict (parameters p)) = canonical_doc (PDict (parameters q))"
    by (simp add: dget_sorted_items canonical_doc_def)
qed

section \<open>Results\<close>

definition result_value :: "execution_result \<Rightarrow> pv" where
  "result_value r = PDict (obj [
     (''status'', PStr (status_value (status r))),
     (''evidence'', PDict (evidence r)),
     (''readback'', (case readback r of None \<Rightarrow> PNone
        | Some b \<Rightarrow> PDict (obj [(''verified'', PBool (verified b)),
            (''observed'', PDict (observed b)), (''reason'', opt_str (readback_reason b))]))),
     (''reason'', opt_str (result_reason r))])"

text \<open>
  \<open>_strict_result_json\<close>, as the document that its bytes decode to: the sorted form of the
  identity, once its canonical bytes exist and are not too many.
\<close>

definition strict_result_json :: "pyenv \<Rightarrow> execution_result \<Rightarrow> pdict res" where
  "strict_result_json env r =
     (case strict_json_identity (result_value r) of
        Inl e \<Rightarrow> Inl (Exn AttemptResultPersistenceError (exn_msg e))
      | Inr d \<Rightarrow> rbind (wrap_encoding AttemptResultPersistenceError
          (canonical_bytes (float_repr env) d)) (\<lambda>b.
          if length b > max_canonical_bytes
          then err AttemptResultPersistenceError ''execution result exceeds maximum canonical JSON bytes''
          else case canon d of PDict doc \<Rightarrow> Inr doc
            | _ \<Rightarrow> err AttemptResultPersistenceError ''not an object''))"

text \<open>The document \<open>mark_result_persistence_unknown\<close> stores.\<close>

definition unknown_doc :: "pystr \<Rightarrow> pdict" where
  "unknown_doc why = sorted_items (obj [
     (''status'', PStr (status_value STATUS_UNKNOWN)), (''evidence'', PDict []),
     (''readback'', PNone), (''reason'', PStr why)])"

section \<open>The ledger\<close>

record attempt_record =
  at_pathway_id :: pystr
  at_operation_id :: pystr
  at_attempt_id :: pystr
  at_key :: pystr
  at_fingerprint :: pystr
  at_status :: pystr
  at_result :: "pdict option"

record ledger =
  attempts :: "attempt_record list"
  ledger_faults :: "fault list"

text \<open>One transaction.\<close>

definition ledger_tx :: "(ledger, 'a) py \<Rightarrow> (ledger, 'a) py" where
  "ledger_tx m = db_step ledger_faults (\<lambda>f l. l\<lparr>ledger_faults := f\<rparr>) m"

text \<open>
  \<open>SELECT ... WHERE attempt_id = ? OR (pathway_id = ? AND idempotency_key = ?)\<close> with
  \<open>fetchone\<close>: the two indexes are searched in the order of the disjuncts.
\<close>

definition find_attempt :: "pystr \<Rightarrow> attempt_record list \<Rightarrow> attempt_record option" where
  "find_attempt a rs = find (\<lambda>r. at_attempt_id r = a) rs"

definition select_attempt ::
    "pystr \<Rightarrow> pystr \<Rightarrow> pystr \<Rightarrow> attempt_record list \<Rightarrow> attempt_record option" where
  "select_attempt a p k rs = (case find_attempt a rs of
       Some r \<Rightarrow> Some r
     | None \<Rightarrow> find (\<lambda>r. at_pathway_id r = p \<and> at_key r = k) rs)"

definition started_record :: "pystr \<Rightarrow> execution_request \<Rightarrow> pystr \<Rightarrow> attempt_record" where
  "started_record p q fp = \<lparr>at_pathway_id = p, at_operation_id = operation_id q,
     at_attempt_id = attempt_id q, at_key = idempotency_key q, at_fingerprint = fp,
     at_status = str ''started'', at_result = None\<rparr>"

definition begin_tx :: "pystr \<Rightarrow> execution_request \<Rightarrow> pystr \<Rightarrow> (ledger, bool \<times> attempt_record) py" where
  "begin_tx p q fp = (\<lambda>l. case bind_text [attempt_id q, p, idempotency_key q] of
       Inl e \<Rightarrow> (Inl e, l)
     | Inr _ \<Rightarrow> (case select_attempt (attempt_id q) p (idempotency_key q) (attempts l) of
         Some r \<Rightarrow>
           (if at_pathway_id r \<noteq> p \<or> at_operation_id r \<noteq> operation_id q \<or> at_fingerprint r \<noteq> fp
            then (err AttemptConflictError
              ''attempt or idempotency key belongs to different execution data'', l)
            else (Inr (True, r), l))
       | None \<Rightarrow> (Inr (False, started_record p q fp),
           l\<lparr>attempts := attempts l @ [started_record p q fp]\<rparr>)))"

definition begin_attempt ::
    "pyenv \<Rightarrow> pystr \<Rightarrow> execution_request \<Rightarrow> (ledger, bool \<times> attempt_record) py" where
  "begin_attempt env p q = bnd (lift (fingerprint env q)) (\<lambda>fp. ledger_tx (begin_tx p q fp))"

definition set_result :: "pystr \<Rightarrow> pystr \<Rightarrow> pdict \<Rightarrow> attempt_record \<Rightarrow> attempt_record" where
  "set_result a st doc r =
     (if at_attempt_id r = a then r\<lparr>at_status := st, at_result := Some doc\<rparr> else r)"

definition update_tx :: "pystr \<Rightarrow> pystr \<Rightarrow> pdict \<Rightarrow> (ledger, attempt_record) py" where
  "update_tx a st doc = (\<lambda>l. case bind_text [a] of
       Inl e \<Rightarrow> (Inl e, l)
     | Inr _ \<Rightarrow> (case find_attempt a (attempts l) of
         None \<Rightarrow> (Inl (Exn KeyError a), l)
       | Some r \<Rightarrow> (Inr (set_result a st doc r),
           l\<lparr>attempts := map (set_result a st doc) (attempts l)\<rparr>)))"

definition finish :: "pyenv \<Rightarrow> pystr \<Rightarrow> execution_result \<Rightarrow> (ledger, attempt_record) py" where
  "finish env a r = bnd (lift (strict_result_json env r)) (\<lambda>doc.
     ledger_tx (update_tx a (status_value (status r)) doc))"

definition mark_result_persistence_unknown :: "pystr \<Rightarrow> pystr \<Rightarrow> (ledger, attempt_record) py" where
  "mark_result_persistence_unknown a why =
     ledger_tx (update_tx a (status_value STATUS_UNKNOWN) (unknown_doc why))"

definition discardable :: "pystr \<Rightarrow> attempt_record \<Rightarrow> bool" where
  "discardable a r \<longleftrightarrow> at_attempt_id r = a \<and> at_status r = str ''started'' \<and> at_result r = None"

definition discard_started :: "pystr \<Rightarrow> (ledger, bool) py" where
  "discard_started a = ledger_tx (\<lambda>l. case bind_text [a] of
       Inl e \<Rightarrow> (Inl e, l)
     | Inr _ \<Rightarrow> (Inr (length (filter (discardable a) (attempts l)) = 1),
         l\<lparr>attempts := filter (\<lambda>r. \<not> discardable a r) (attempts l)\<rparr>))"

definition get_attempt :: "pystr \<Rightarrow> (ledger, attempt_record) py" where
  "get_attempt a = ledger_tx (query (\<lambda>l. rbind (bind_text [a]) (\<lambda>_.
     case find_attempt a (attempts l) of None \<Rightarrow> Inl (Exn KeyError a) | Some r \<Rightarrow> Inr r)))"


section \<open>Outcomes\<close>

text \<open>
  The outcome of every transaction under any fault schedule: an error leaves the table as it
  was.
\<close>

lemma ledger_tx_error_cases:
  "ledger_faults (l\<lparr>ledger_faults := f\<rparr>) = f" "attempts (l\<lparr>ledger_faults := f\<rparr>) = attempts l"
  by simp_all

lemma wp_ledger_tx:
  assumes "\<And>l'. attempts l' = attempts l \<Longrightarrow> wp m Q E l'"
    and "\<And>e l'. attempts l' = attempts l \<Longrightarrow> E e l'"
  shows "wp (ledger_tx m) Q E l"
  unfolding ledger_tx_def by (rule wp_db_step) (auto intro: assms)

lemma wp_begin:
  assumes hit: "\<And>l' r fp. attempts l' = attempts l \<Longrightarrow> fingerprint env q = Inr fp \<Longrightarrow>
      select_attempt (attempt_id q) p (idempotency_key q) (attempts l) = Some r \<Longrightarrow>
      at_pathway_id r = p \<Longrightarrow> at_operation_id r = operation_id q \<Longrightarrow> at_fingerprint r = fp \<Longrightarrow>
      Q (True, r) l'"
    and fresh: "\<And>l' fp. fingerprint env q = Inr fp \<Longrightarrow>
      select_attempt (attempt_id q) p (idempotency_key q) (attempts l) = None \<Longrightarrow>
      attempts l' = attempts l @ [started_record p q fp] \<Longrightarrow> Q (False, started_record p q fp) l'"
    and bad: "\<And>e l'. attempts l' = attempts l \<Longrightarrow> E e l'"
  shows "wp (begin_attempt env p q) Q E l"
proof (cases "fingerprint env q")
  case (Inl e)
  then show ?thesis by (simp add: begin_attempt_def wp bad)
next
  case (Inr fp)
  have "wp (begin_tx p q fp) Q E l'" if "attempts l' = attempts l" for l'
    using that hit [OF _ Inr] fresh [OF Inr] bad
    by (auto simp: begin_tx_def wp_def split: sum.splits option.splits if_splits)
  then show ?thesis
    by (simp add: begin_attempt_def wp Inr) (auto intro: wp_ledger_tx bad)
qed

lemma wp_update_tx:
  assumes "\<And>l' r. find_attempt a (attempts l) = Some r \<Longrightarrow>
      attempts l' = map (set_result a st doc) (attempts l) \<Longrightarrow> Q (set_result a st doc r) l'"
    and "\<And>e l'. attempts l' = attempts l \<Longrightarrow> E e l'"
  shows "wp (ledger_tx (update_tx a st doc)) Q E l"
proof (rule wp_ledger_tx)
  fix l' :: ledger
  assume "attempts l' = attempts l"
  then show "wp (update_tx a st doc) Q E l'"
    using assms by (auto simp: update_tx_def wp_def split: sum.splits option.splits)
qed (rule assms(2))

lemma wp_finish:
  assumes "\<And>l' r doc. strict_result_json env res = Inr doc \<Longrightarrow> find_attempt a (attempts l) = Some r \<Longrightarrow>
      attempts l' = map (set_result a (status_value (status res)) doc) (attempts l) \<Longrightarrow>
      Q (set_result a (status_value (status res)) doc r) l'"
    and "\<And>e l'. attempts l' = attempts l \<Longrightarrow> E e l'"
  shows "wp (finish env a res) Q E l"
  by (cases "strict_result_json env res")
    (auto simp: finish_def wp intro: assms wp_update_tx)

lemma wp_mark_unknown:
  assumes "\<And>l' r. find_attempt a (attempts l) = Some r \<Longrightarrow>
      attempts l' = map (set_result a (status_value STATUS_UNKNOWN) (unknown_doc why)) (attempts l) \<Longrightarrow>
      Q (set_result a (status_value STATUS_UNKNOWN) (unknown_doc why) r) l'"
    and "\<And>e l'. attempts l' = attempts l \<Longrightarrow> E e l'"
  shows "wp (mark_result_persistence_unknown a why) Q E l"
  unfolding mark_result_persistence_unknown_def using assms by (rule wp_update_tx)

lemma wp_discard:
  assumes "\<And>l' b. b = (length (filter (discardable a) (attempts l)) = 1) \<Longrightarrow>
      attempts l' = filter (\<lambda>r. \<not> discardable a r) (attempts l) \<Longrightarrow> Q b l'"
    and "\<And>e l'. attempts l' = attempts l \<Longrightarrow> E e l'"
  shows "wp (discard_started a) Q E l"
  unfolding discard_started_def
proof (rule wp_ledger_tx)
  fix l' :: ledger
  assume "attempts l' = attempts l"
  with assms show "wp (\<lambda>l. case bind_text [a] of Inl e \<Rightarrow> (Inl e, l)
     | Inr _ \<Rightarrow> (Inr (length (filter (discardable a) (attempts l)) = 1),
         l\<lparr>attempts := filter (\<lambda>r. \<not> discardable a r) (attempts l)\<rparr>)) Q E l'"
    by (auto simp: wp_def split: sum.splits)
qed (rule assms(2))

lemma wp_get_attempt:
  assumes "\<And>l' r. attempts l' = attempts l \<Longrightarrow> find_attempt a (attempts l) = Some r \<Longrightarrow> Q r l'"
    and "\<And>e l'. attempts l' = attempts l \<Longrightarrow>
      (find_attempt a (attempts l) \<noteq> None \<longrightarrow> exn_kind e \<noteq> KeyError) \<Longrightarrow> E e l'"
  shows "wp (get_attempt a) Q E l"
proof -
  let ?g = "\<lambda>l. rbind (bind_text [a]) (\<lambda>_.
     case find_attempt a (attempts l) of None \<Rightarrow> Inl (Exn KeyError a) | Some r \<Rightarrow> Inr r)"
  have *: "wp (query ?g) Q E l'" if "attempts l' = attempts l" for l'
  proof (cases "bind_text [a]")
    case (Inl e)
    then have "exn_kind e = UnicodeEncodeError" by (auto simp: bind_text_def)
    with Inl assms(2) that show ?thesis by (simp add: wp)
  next
    case Inr
    with assms that show ?thesis by (auto simp: wp split: option.splits)
  qed
  have "E e l'" if "attempts l' = attempts l" "exn_kind e \<noteq> KeyError" for e l'
    using that assms(2) by blast
  with * show ?thesis
    by (auto simp: get_attempt_def ledger_tx_def intro!: wp_db_step)
qed

section \<open>Uniqueness\<close>

text \<open>The primary key and the unique index of the table.\<close>

definition attempts_ok :: "attempt_record list \<Rightarrow> bool" where
  "attempts_ok rs \<longleftrightarrow> distinct (map at_attempt_id rs)
     \<and> distinct (map (\<lambda>r. (at_pathway_id r, at_key r)) rs)"

lemma find_attempt_None: "find_attempt a rs = None \<longleftrightarrow> a \<notin> at_attempt_id ` set rs"
  by (auto simp: find_attempt_def find_None_iff)

lemma find_attempt_Some: "find_attempt a rs = Some r \<Longrightarrow> r \<in> set rs \<and> at_attempt_id r = a"
  by (auto simp: find_attempt_def find_Some_iff)

lemma find_attempt_unique:
  "distinct (map at_attempt_id rs) \<Longrightarrow> r \<in> set rs \<Longrightarrow> find_attempt (at_attempt_id r) rs = Some r"
  by (induction rs) (auto simp: find_attempt_def)

lemma select_attempt_None:
  "select_attempt a p k rs = None \<longleftrightarrow>
     a \<notin> at_attempt_id ` set rs \<and> (p, k) \<notin> (\<lambda>r. (at_pathway_id r, at_key r)) ` set rs"
  by (auto simp: select_attempt_def find_attempt_None find_None_iff split: option.splits
      dest!: find_attempt_Some)

lemma select_attempt_Some:
  "select_attempt a p k rs = Some r \<Longrightarrow> r \<in> set rs \<and>
     (at_attempt_id r = a \<or> a \<notin> at_attempt_id ` set rs \<and> at_pathway_id r = p \<and> at_key r = k)"
  by (auto simp: select_attempt_def find_attempt_None find_Some_iff split: option.splits
      dest!: find_attempt_Some)

lemma started_record_fields [simp]:
  "at_pathway_id (started_record p q fp) = p" "at_attempt_id (started_record p q fp) = attempt_id q"
  "at_key (started_record p q fp) = idempotency_key q" "at_result (started_record p q fp) = None"
  "at_operation_id (started_record p q fp) = operation_id q"
  "at_fingerprint (started_record p q fp) = fp" "at_status (started_record p q fp) = str ''started''"
  by (simp_all add: started_record_def)

lemma set_result_fields [simp]:
  "at_pathway_id (set_result a st doc r) = at_pathway_id r"
  "at_attempt_id (set_result a st doc r) = at_attempt_id r"
  "at_key (set_result a st doc r) = at_key r"
  by (simp_all add: set_result_def)

lemma attempts_ok_insert:
  "attempts_ok rs \<Longrightarrow> select_attempt (attempt_id q) p (idempotency_key q) rs = None \<Longrightarrow>
     attempts_ok (rs @ [started_record p q fp])"
  by (auto simp: attempts_ok_def select_attempt_None)

lemma attempts_ok_update: "attempts_ok rs \<Longrightarrow> attempts_ok (map (set_result a st doc) rs)"
  by (simp add: attempts_ok_def comp_def)

lemma attempts_ok_filter: "attempts_ok rs \<Longrightarrow> attempts_ok (filter P rs)"
  by (simp add: attempts_ok_def distinct_map_filter)

section \<open>The replay contract\<close>

lemma find_snoc: "find P (xs @ [y]) =
    (case find P xs of Some x \<Rightarrow> Some x | None \<Rightarrow> if P y then Some y else None)"
  by (induction xs) auto

definition begin_hit :: "pystr \<times> execution_request \<Rightarrow> attempt_record list \<Rightarrow> attempt_record option" where
  "begin_hit = (\<lambda>(p, q) rs. select_attempt (attempt_id q) p (idempotency_key q) rs)"

definition begin_same :: "pyenv \<Rightarrow> pystr \<times> execution_request \<Rightarrow> attempt_record \<Rightarrow> bool" where
  "begin_same env = (\<lambda>(p, q) r. at_pathway_id r = p \<and> at_operation_id r = operation_id q
     \<and> fingerprint env q = Inr (at_fingerprint r))"

definition begin_admissible :: "pyenv \<Rightarrow> pystr \<times> execution_request \<Rightarrow> bool" where
  "begin_admissible env = (\<lambda>(p, q). (\<exists>fp. fingerprint env q = Inr fp)
     \<and> list_all text_ok [attempt_id q, p, idempotency_key q])"

lemma ledger_tx_quiet: "ledger_faults l = [] \<Longrightarrow> ledger_tx m l = m l"
  by (simp add: ledger_tx_def db_step_def)

lemma begin_quiet:
  "ledger_faults l = [] \<Longrightarrow> begin_attempt env p q l =
     (case fingerprint env q of Inl e \<Rightarrow> (Inl e, l) | Inr fp \<Rightarrow> begin_tx p q fp l)"
  by (cases "fingerprint env q") (simp_all add: begin_attempt_def bnd_def ledger_tx_quiet)

lemma begin_registry:
  "replay_registry (\<lambda>(p, q). begin_attempt env p q) attempts (\<lambda>r. r) (\<lambda>l. ledger_faults l = [])
     (begin_admissible env) begin_hit (begin_same env)"
proof (unfold_locales, goal_cases)
  case (1 l pq r)
  then show ?case
    by (auto simp: begin_quiet begin_admissible_def begin_hit_def begin_same_def begin_tx_def
        bind_text_def check_def)
next
  case (2 l pq r)
  then show ?case
    by (auto simp: begin_quiet begin_admissible_def begin_hit_def begin_same_def begin_tx_def
        bind_text_def check_def)
next
  case (3 l pq b r t)
  then show ?case
    by (cases pq)
      (auto simp: begin_quiet begin_admissible_def begin_hit_def begin_same_def begin_tx_def
        bind_text_def check_def select_attempt_def find_attempt_def find_snoc
        split: sum.splits option.splits if_splits)
qed

interpretation attempt_ledger: replay_registry "\<lambda>(p, q). begin_attempt env p q" attempts
    "\<lambda>r. r" "\<lambda>l. ledger_faults l = []" "begin_admissible env" begin_hit "begin_same env" for env
  by (rule begin_registry)

end
