(* ===== verification/Rpr_Redaction.thy ===== *)
theory Rpr_Redaction
  imports Rpr_Models
begin

text \<open>
  \<open>redaction.py\<close>: the bounded copy of a payload in which the value of every sensitive key is
  replaced. The lemmas show that the copy is a JSON document without a sensitive value at any
  depth, no deeper and with no more visited values and no longer texts than the policy allows.
\<close>

section \<open>Case folding\<close>

text \<open>
  \<open>str.casefold\<close> for the characters that fold to ASCII letters. The remaining characters
  fold to text that is not ASCII, so the comparison with ASCII keys, as the default ones are,
  is exact.
\<close>

definition casefold_char :: "nat \<Rightarrow> pystr" where
  "casefold_char c =
     (if 65 \<le> c \<and> c \<le> 90 then [c + 32]
      else if c = 383 then [115]
      else if c = 8490 then [107]
      else if c = 223 \<or> c = 7838 then [115, 115]
      else if c = 64256 then [102, 102]
      else if c = 64257 then [102, 105]
      else if c = 64258 then [102, 108]
      else if c = 64259 then [102, 102, 105]
      else if c = 64260 then [102, 102, 108]
      else if c = 64261 \<or> c = 64262 then [115, 116]
      else [c])"

definition casefold :: "pystr \<Rightarrow> pystr" where
  "casefold s = concat (map casefold_char s)"

section \<open>The policy\<close>

record redaction_policy =
  sensitive_keys :: "pystr list"
  replacement :: pystr
  max_depth :: int
  max_items :: int
  max_string_length :: int

definition default_sensitive_keys :: "pystr list" where
  "default_sensitive_keys = map str [''authorization'', ''cookie'', ''password'', ''secret'',
     ''token'', ''access_token'', ''refresh_token'', ''api_key'', ''private_key'',
     ''client_secret'']"

definition default_policy :: redaction_policy where
  "default_policy = \<lparr>sensitive_keys = default_sensitive_keys, replacement = str ''[REDACTED]'',
     max_depth = 12, max_items = 1000, max_string_length = 16384\<rparr>"

definition sensitive :: "redaction_policy \<Rightarrow> pystr \<Rightarrow> bool" where
  "sensitive pol k \<longleftrightarrow> casefold k \<in> set (sensitive_keys pol)"

text \<open>The depth and budget checks at the head of \<open>_redact\<close>.\<close>

definition enter :: "redaction_policy \<Rightarrow> int \<Rightarrow> int \<Rightarrow> int res" where
  "enter pol depth budget =
     (if depth > max_depth pol then err EvidenceLimitError ''evidence payload exceeds maximum depth''
      else if budget - 1 < 0 then
        err EvidenceLimitError ''evidence payload exceeds maximum item count''
      else Inr (budget - 1))"

text \<open>
  \<open>_redact\<close> returns the copy and the budget that is left; the last argument of
  \<open>redact_items\<close> is the \<open>output\<close> dict under construction.
\<close>

fun redact_value :: "pyenv \<Rightarrow> redaction_policy \<Rightarrow> int \<Rightarrow> int \<Rightarrow> pv \<Rightarrow> (pv \<times> int) res"
  and redact_list :: "pyenv \<Rightarrow> redaction_policy \<Rightarrow> int \<Rightarrow> int \<Rightarrow> pv list \<Rightarrow> (pv list \<times> int) res"
  and redact_items :: "pyenv \<Rightarrow> redaction_policy \<Rightarrow> int \<Rightarrow> int \<Rightarrow> pdict \<Rightarrow> pdict \<Rightarrow> (pdict \<times> int) res"
where
  "redact_value env pol depth budget (PStr s) = rbind (enter pol depth budget) (\<lambda>b.
     if int (length s) > max_string_length pol
     then err EvidenceLimitError ''evidence string exceeds maximum length'' else Inr (PStr s, b))"
| "redact_value env pol depth budget (PDict kvs) = rbind (enter pol depth budget) (\<lambda>b.
     rbind (redact_items env pol (depth + 1) b kvs []) (\<lambda>(out, b'). Inr (PDict out, b')))"
| "redact_value env pol depth budget (PList vs) = rbind (enter pol depth budget) (\<lambda>b.
     rbind (redact_list env pol (depth + 1) b vs) (\<lambda>(ws, b'). Inr (PList ws, b')))"
| "redact_value env pol depth budget (PTuple vs) = rbind (enter pol depth budget) (\<lambda>b.
     rbind (redact_list env pol (depth + 1) b vs) (\<lambda>(ws, b'). Inr (PList ws, b')))"
| "redact_value env pol depth budget (PObj t s) =
     rbind (enter pol depth budget) (\<lambda>b. Inr (PStr s, b))"
| "redact_value env pol depth budget v = rbind (enter pol depth budget) (\<lambda>b. Inr (v, b))"
| "redact_list env pol depth budget [] = Inr ([], budget)"
| "redact_list env pol depth budget (v # vs) = rbind (redact_value env pol depth budget v) (\<lambda>(w, b).
     rbind (redact_list env pol depth b vs) (\<lambda>(ws, b'). Inr (w # ws, b')))"
| "redact_items env pol depth budget [] out = Inr (out, budget)"
| "redact_items env pol depth budget ((k, v) # kvs) out =
     (if sensitive pol (py_str env k)
      then redact_items env pol depth budget kvs (dset (py_str env k) (PStr (replacement pol)) out)
      else rbind (redact_value env pol depth budget v) (\<lambda>(w, b).
        redact_items env pol depth b kvs (dset (py_str env k) w out)))"

definition redact :: "pyenv \<Rightarrow> redaction_policy \<Rightarrow> pv \<Rightarrow> pv res" where
  "redact env pol v =
     rbind (redact_value env pol 0 (max_items pol) v) (\<lambda>(w, b). Inr w)"

section \<open>What a redacted value looks like\<close>

text \<open>
  \<open>guarded pol depth v\<close>: a JSON value with string keys, distinct within each object, whose
  sensitive keys hold the replacement, whose other values are guarded themselves, and that
  fits into the levels from \<open>depth\<close> to the policy's maximum.
\<close>

fun guarded :: "redaction_policy \<Rightarrow> int \<Rightarrow> pv \<Rightarrow> bool"
  and guarded_list :: "redaction_policy \<Rightarrow> int \<Rightarrow> pv list \<Rightarrow> bool"
  and guarded_items :: "redaction_policy \<Rightarrow> int \<Rightarrow> pdict \<Rightarrow> bool" where
  "guarded pol depth (PDict kvs) =
     (depth \<le> max_depth pol \<and> distinct (map fst kvs) \<and> guarded_items pol (depth + 1) kvs)"
| "guarded pol depth (PList vs) = (depth \<le> max_depth pol \<and> guarded_list pol (depth + 1) vs)"
| "guarded pol depth (PTuple vs) = False"
| "guarded pol depth (PObj t s) = False"
| "guarded pol depth v = (depth \<le> max_depth pol)"
| "guarded_list pol depth [] = True"
| "guarded_list pol depth (v # vs) = (guarded pol depth v \<and> guarded_list pol depth vs)"
| "guarded_items pol depth [] = True"
| "guarded_items pol depth ((k, v) # kvs) =
     ((case k of PStr s \<Rightarrow> sensitive pol s \<and> v = PStr (replacement pol) \<or>
          \<not> sensitive pol s \<and> guarded pol depth v | _ \<Rightarrow> False) \<and> guarded_items pol depth kvs)"

text \<open>The number of values the copy holds, the replaced ones aside.\<close>

fun visited :: "redaction_policy \<Rightarrow> pv \<Rightarrow> nat"
  and visited_list :: "redaction_policy \<Rightarrow> pv list \<Rightarrow> nat"
  and visited_items :: "redaction_policy \<Rightarrow> pdict \<Rightarrow> nat" where
  "visited pol (PDict kvs) = 1 + visited_items pol kvs"
| "visited pol (PList vs) = 1 + visited_list pol vs"
| "visited pol (PTuple vs) = 1 + visited_list pol vs"
| "visited pol v = 1"
| "visited_list pol [] = 0"
| "visited_list pol (v # vs) = visited pol v + visited_list pol vs"
| "visited_items pol [] = 0"
| "visited_items pol ((k, v) # kvs) =
     (if sensitive pol (key_text k) then 0 else visited pol v) + visited_items pol kvs"

lemma enter_ok: "enter pol depth budget = Inr b \<longleftrightarrow>
    depth \<le> max_depth pol \<and> 1 \<le> budget \<and> b = budget - 1"
  by (auto simp: enter_def)

lemma guarded_items_dset:
  assumes "guarded_items pol depth out"
    "if sensitive pol k then v = PStr (replacement pol) else guarded pol depth v"
  shows "guarded_items pol depth (dset k v out)"
  using assms by (induction out) (auto simp: dset_def split: pv.splits if_splits)

lemma visited_items_dset:
  "visited_items pol (dset k v out) \<le>
     visited_items pol out + (if sensitive pol k then 0 else visited pol v)"
  by (induction out) (auto simp: dset_def)

lemma redact_spec:
  "redact_value env pol depth budget v = Inr (w, b) \<Longrightarrow>
     guarded pol depth w \<and> int (visited pol w) + b \<le> budget \<and> 0 \<le> b"
  "redact_list env pol depth budget vs = Inr (ws, b) \<Longrightarrow> 0 \<le> budget \<Longrightarrow>
     guarded_list pol depth ws \<and> int (visited_list pol ws) + b \<le> budget \<and> 0 \<le> b"
  "redact_items env pol depth budget kvs out = Inr (os, b) \<Longrightarrow> 0 \<le> budget \<Longrightarrow>
     distinct (map fst out) \<Longrightarrow> guarded_items pol depth out \<Longrightarrow>
     distinct (map fst os) \<and> guarded_items pol depth os
       \<and> int (visited_items pol os) + b \<le> int (visited_items pol out) + budget \<and> 0 \<le> b"
proof (induction env pol depth budget v and env pol depth budget vs and env pol depth budget kvs out
    arbitrary: w b and ws b and os b
    rule: redact_value_redact_list_redact_items.induct)
  case (10 env pol depth budget k v kvs out)
  let ?k = "py_str env k"
  show ?case
  proof (cases "sensitive pol ?k")
    case True
    have le: "visited_items pol (dset ?k (PStr (replacement pol)) out) \<le> visited_items pol out"
      using visited_items_dset [of pol ?k "PStr (replacement pol)" out] True by simp
    have "redact_items env pol depth budget kvs (dset ?k (PStr (replacement pol)) out) = Inr (os, b)"
      using 10(4) True by simp
    from "10.IH"(1) [OF True this 10(5)] 10(6,7) True le show ?thesis
      by (force intro: guarded_items_dset)
  next
    case False
    with 10(4) obtain w b' where w: "redact_value env pol depth budget v = Inr (w, b')"
      and os: "redact_items env pol depth b' kvs (dset ?k w out) = Inr (os, b)"
      by (auto simp: rbind_eq_Inr)
    from "10.IH"(2) [OF False w] have gw: "guarded pol depth w"
      "int (visited pol w) + b' \<le> budget" "0 \<le> b'" by auto
    have le: "int (visited_items pol (dset ?k w out)) \<le> int (visited_items pol out) + int (visited pol w)"
      using visited_items_dset [of pol ?k w out] False by simp
    from "10.IH"(3) [OF False os gw(3)] 10(6,7) gw le False show ?thesis
      by (force intro: guarded_items_dset)
  qed
next
  case (2 env pol depth budget kvs)
  from 2(2) obtain os where "depth \<le> max_depth pol" "1 \<le> budget" "w = PDict os"
    "redact_items env pol (depth + 1) (budget - 1) kvs [] = Inr (os, b)"
    by (auto simp: rbind_eq_Inr enter_ok)
  with "2.IH" [of "budget - 1" os b] show ?case by simp
next
  case (3 env pol depth budget vs)
  from 3(2) obtain ws where "depth \<le> max_depth pol" "1 \<le> budget" "w = PList ws"
    "redact_list env pol (depth + 1) (budget - 1) vs = Inr (ws, b)"
    by (auto simp: rbind_eq_Inr enter_ok)
  with "3.IH" [of "budget - 1" ws b] show ?case by simp
next
  case (4 env pol depth budget vs)
  from 4(2) obtain ws where "depth \<le> max_depth pol" "1 \<le> budget" "w = PList ws"
    "redact_list env pol (depth + 1) (budget - 1) vs = Inr (ws, b)"
    by (auto simp: rbind_eq_Inr enter_ok)
  with "4.IH" [of "budget - 1" ws b] show ?case by simp
next
  case (8 env pol depth budget v vs)
  from 8(3) obtain u us b' where u: "redact_value env pol depth budget v = Inr (u, b')"
    and us: "redact_list env pol depth b' vs = Inr (us, b)" and ws: "ws = u # us"
    by (auto simp: rbind_eq_Inr)
  from "8.IH"(1) [OF u] "8.IH"(2) [OF us] ws show ?case by force
qed (auto simp: rbind_eq_Inr enter_ok split: if_splits)

lemma redact_guarded:
  assumes "redact env pol v = Inr w"
  shows "guarded pol 0 w" "int (visited pol w) \<le> max_items pol"
  using assms redact_spec(1) [of env pol 0 "max_items pol" v w]
  by (force simp: redact_def rbind_eq_Inr)+

text \<open>
  The length of the texts: a text that is not under a sensitive key is no longer than the policy
  allows, or it is one of \<open>F\<close>. Redaction does not measure \<open>str(value)\<close> of an object of a foreign
  type, so \<open>foreign v\<close> collects these texts of a value. Keys are not measured either.
\<close>

fun foreign :: "pv \<Rightarrow> pystr list"
  and foreign_list :: "pv list \<Rightarrow> pystr list"
  and foreign_items :: "pdict \<Rightarrow> pystr list" where
  "foreign (PObj t s) = [s]"
| "foreign (PDict kvs) = foreign_items kvs"
| "foreign (PList vs) = foreign_list vs"
| "foreign (PTuple vs) = foreign_list vs"
| "foreign v = []"
| "foreign_list [] = []"
| "foreign_list (v # vs) = foreign v @ foreign_list vs"
| "foreign_items [] = []"
| "foreign_items ((k, v) # kvs) = foreign v @ foreign_items kvs"

fun texts_within :: "redaction_policy \<Rightarrow> pystr list \<Rightarrow> pv \<Rightarrow> bool"
  and texts_within_list :: "redaction_policy \<Rightarrow> pystr list \<Rightarrow> pv list \<Rightarrow> bool"
  and texts_within_items :: "redaction_policy \<Rightarrow> pystr list \<Rightarrow> pdict \<Rightarrow> bool" where
  "texts_within pol F (PStr s) = (int (length s) \<le> max_string_length pol \<or> s \<in> set F)"
| "texts_within pol F (PDict kvs) = texts_within_items pol F kvs"
| "texts_within pol F (PList vs) = texts_within_list pol F vs"
| "texts_within pol F (PTuple vs) = texts_within_list pol F vs"
| "texts_within pol F v = True"
| "texts_within_list pol F [] = True"
| "texts_within_list pol F (v # vs) = (texts_within pol F v \<and> texts_within_list pol F vs)"
| "texts_within_items pol F [] = True"
| "texts_within_items pol F ((k, v) # kvs) =
     ((sensitive pol (key_text k) \<or> texts_within pol F v) \<and> texts_within_items pol F kvs)"

lemma texts_within_dset:
  assumes "texts_within_items pol F out" "sensitive pol k \<or> texts_within pol F v"
  shows "texts_within_items pol F (dset k v out)"
  using assms by (induction out) (auto simp: dset_def)

lemma redact_texts_within:
  "redact_value env pol depth budget v = Inr (w, b) \<Longrightarrow> set (foreign v) \<subseteq> set F \<Longrightarrow> texts_within pol F w"
  "redact_list env pol depth budget vs = Inr (ws, b) \<Longrightarrow> set (foreign_list vs) \<subseteq> set F \<Longrightarrow>
     texts_within_list pol F ws"
  "redact_items env pol depth budget kvs out = Inr (os, b) \<Longrightarrow> set (foreign_items kvs) \<subseteq> set F \<Longrightarrow>
     texts_within_items pol F out \<Longrightarrow> texts_within_items pol F os"
proof (induction env pol depth budget v and env pol depth budget vs and env pol depth budget kvs out
    arbitrary: w b and ws b and os b
    rule: redact_value_redact_list_redact_items.induct)
  case (10 env pol depth budget k v kvs out)
  let ?k = "py_str env k"
  show ?case
  proof (cases "sensitive pol ?k")
    case True
    with 10(4) have "redact_items env pol depth budget kvs (dset ?k (PStr (replacement pol)) out) = Inr (os, b)" by simp
    from "10.IH"(1) [OF True this] 10(5,6) True show ?thesis by (simp add: texts_within_dset)
  next
    case False
    with 10(4) obtain w b' where w: "redact_value env pol depth budget v = Inr (w, b')"
      and os: "redact_items env pol depth b' kvs (dset ?k w out) = Inr (os, b)"
      by (auto simp: rbind_eq_Inr)
    from "10.IH"(2) [OF False w] "10.IH"(3) [OF False os] 10(5,6) show ?thesis by (simp add: texts_within_dset)
  qed
next
  case (2 env pol depth budget kvs)
  from 2(2) obtain os where "w = PDict os" "redact_items env pol (depth + 1) (budget - 1) kvs [] = Inr (os, b)"
    by (auto simp: rbind_eq_Inr enter_ok)
  with "2.IH" [of "budget - 1" os b] 2(3) show ?case by simp
next
  case (3 env pol depth budget vs)
  from 3(2) obtain ws where "w = PList ws" "redact_list env pol (depth + 1) (budget - 1) vs = Inr (ws, b)"
    by (auto simp: rbind_eq_Inr enter_ok)
  with "3.IH" [of "budget - 1" ws b] 3(3) show ?case by simp
next
  case (4 env pol depth budget vs)
  from 4(2) obtain ws where "w = PList ws" "redact_list env pol (depth + 1) (budget - 1) vs = Inr (ws, b)"
    by (auto simp: rbind_eq_Inr enter_ok)
  with "4.IH" [of "budget - 1" ws b] 4(3) show ?case by simp
next
  case (8 env pol depth budget v vs)
  from 8(3) obtain u us b' where u: "redact_value env pol depth budget v = Inr (u, b')"
    and us: "redact_list env pol depth b' vs = Inr (us, b)" and ws: "ws = u # us"
    by (auto simp: rbind_eq_Inr)
  from "8.IH"(1) [OF u] "8.IH"(2) [OF us] 8(4) ws show ?case by simp
qed (auto simp: rbind_eq_Inr enter_ok split: if_splits)

lemma redact_short:
  "redact env pol v = Inr w \<Longrightarrow> texts_within pol (foreign v) w"
  using redact_texts_within(1) [of env pol 0 "max_items pol" v w _ "foreign v"]
  by (auto simp: redact_def rbind_eq_Inr)

lemma guarded_is_doc:
  "guarded pol depth v \<Longrightarrow> is_doc v"
  "guarded_list pol depth vs \<Longrightarrow> are_docs vs"
  "guarded_items pol depth kvs \<Longrightarrow> items_doc kvs"
  by (induction pol depth v and pol depth vs and pol depth kvs
      rule: guarded_guarded_list_guarded_items.induct) (auto split: pv.splits)

end
