(* ===== verification/Rpr_Evidence.thy ===== *)
theory Rpr_Evidence
  imports Rpr_Redaction
begin

text \<open>
  \<open>evidence.py\<close>: hash-chained evidence events. The lemmas show that an event that was built
  verifies, also after it went through storage, that appending a built event to a valid chain
  gives a valid chain, and that two valid chains with the same last hash have the same
  content unless two of the byte strings hashed for them collide.
\<close>

section \<open>Events\<close>

record evidence_event =
  ev_pathway_id :: pystr
  ev_type :: pystr
  ev_actor :: pystr
  ev_payload :: pdict
  ev_occurred_at :: pystr
  ev_previous_hash :: "pystr option"
  ev_hash :: pystr

definition event_to_dict :: "evidence_event \<Rightarrow> pdict" where
  "event_to_dict e = obj [
     (''pathway_id'', PStr (ev_pathway_id e)),
     (''event_type'', PStr (ev_type e)),
     (''actor'', PStr (ev_actor e)),
     (''payload'', PDict (ev_payload e)),
     (''occurred_at'', PStr (ev_occurred_at e)),
     (''previous_hash'', opt_str (ev_previous_hash e)),
     (''event_hash'', PStr (ev_hash e))]"

text \<open>The mapping that \<open>_canonical_payload\<close> writes, and the bytes that are hashed.\<close>

definition event_content :: "pystr \<Rightarrow> pystr \<Rightarrow> pystr \<Rightarrow> pdict \<Rightarrow> pystr \<Rightarrow> pv \<Rightarrow> pv" where
  "event_content pid ty ac pl ts prev = PDict (obj [
     (''pathway_id'', PStr pid), (''event_type'', PStr ty), (''actor'', PStr ac),
     (''payload'', PDict pl), (''occurred_at'', PStr ts), (''previous_hash'', prev)])"

definition canonical_payload ::
    "pyenv \<Rightarrow> pystr \<Rightarrow> pystr \<Rightarrow> pystr \<Rightarrow> pdict \<Rightarrow> pystr \<Rightarrow> pv \<Rightarrow> nat list res" where
  "canonical_payload env pid ty ac pl ts prev =
     canonical_bytes (float_repr env) (event_content pid ty ac pl ts prev)"

definition build_event :: "pyenv \<Rightarrow> redaction_policy \<Rightarrow> pystr \<Rightarrow> pystr \<Rightarrow> pystr \<Rightarrow> pystr \<Rightarrow> pdict
    \<Rightarrow> pystr option \<Rightarrow> evidence_event res" where
  "build_event env pol ts pid ty ac payload prev =
     rbind (redact env pol (PDict payload)) (\<lambda>safe. case safe of
       PDict pl \<Rightarrow> rbind (canonical_payload env pid ty ac pl ts (opt_str prev)) (\<lambda>bytes.
         Inr \<lparr>ev_pathway_id = pid, ev_type = ty, ev_actor = ac, ev_payload = pl,
           ev_occurred_at = ts, ev_previous_hash = prev, ev_hash = sha256 env bytes\<rparr>)
     | _ \<Rightarrow> err TypeError ''payload is not a mapping'')"

text \<open>\<open>verify_event\<close> reads the fields of a stored document.\<close>

definition stored_bytes :: "pyenv \<Rightarrow> pdict \<Rightarrow> nat list res" where
  "stored_bytes env d =
     rbind (str_item env d ''pathway_id'') (\<lambda>pid.
     rbind (str_item env d ''event_type'') (\<lambda>ty.
     rbind (str_item env d ''actor'') (\<lambda>ac.
     rbind (rbind (ditem d (str ''payload'')) dict_of) (\<lambda>pl.
     rbind (str_item env d ''occurred_at'') (\<lambda>ts.
       canonical_payload env pid ty ac pl ts (dget_none d (str ''previous_hash'')))))))"

definition verify_event :: "pyenv \<Rightarrow> pdict \<Rightarrow> bool res" where
  "verify_event env d =
     rbind (stored_bytes env d) (\<lambda>b. Inr (PStr (sha256 env b) = dget_none d (str ''event_hash'')))"

fun verify_from :: "pyenv \<Rightarrow> pystr option \<Rightarrow> nat \<Rightarrow> pdict list \<Rightarrow>
    (bool \<times> nat option \<times> pystr option) res" where
  "verify_from env prev i [] = Inr (True, None, None)"
| "verify_from env prev i (e # es) =
     (if dget_none e (str ''previous_hash'') \<noteq> opt_str prev
      then Inr (False, Some i, Some (str ''previous_hash_mismatch''))
      else rbind (verify_event env e) (\<lambda>ok.
        if \<not> ok then Inr (False, Some i, Some (str ''event_hash_mismatch''))
        else rbind (str_item env e ''event_hash'') (\<lambda>h. verify_from env (Some h) (i + 1) es)))"

definition verify_chain :: "pyenv \<Rightarrow> pdict list \<Rightarrow> (bool \<times> nat option \<times> pystr option) res" where
  "verify_chain env es = verify_from env None 0 es"

section \<open>Canonical documents\<close>

lemma sort_key_map_invariant:
  assumes "\<And>x. f (g x) = f x"
  shows "sort_key f (map g xs) = map g (sort_key f xs)"
proof -
  have ins: "insort_key f (g x) (map g ys) = map g (insort_key f x ys)" for x ys
    by (induction ys) (simp_all add: assms)
  show ?thesis by (induction xs) (simp_all add: ins)
qed

lemma canon_items_map: "canon_items kvs = map (\<lambda>(k, v). (k, canon v)) kvs"
  by (induction kvs) auto

lemma canon_canon [simp]:
  "canon (canon v) = canon v"
  "canons (canons vs) = canons vs"
  "canon_items (canon_items kvs) = canon_items kvs"
proof (induction v and vs and kvs rule: canon_canons_canon_items.induct)
  case (3 kvs)
  let ?f = "\<lambda>kv :: pv \<times> pv. key_text (fst kv)"
  have "canon_items (sort_key ?f (canon_items kvs)) = sort_key ?f (canon_items (canon_items kvs))"
    unfolding canon_items_map [of "sort_key ?f (canon_items kvs)"]
      canon_items_map [of "canon_items kvs"]
    by (rule sort_key_map_invariant [symmetric]) auto
  with 3 show ?case by (simp add: sort_key_id_if_sorted)
qed auto

lemma sorted_items_twice [simp]: "sorted_items (sorted_items kvs) = sorted_items kvs"
  using canon_canon(1) [of "PDict kvs"] by (simp add: canon_PDict del: canon.simps canon_canon)

lemma is_doc_PDict: "is_doc (PDict kvs) \<longleftrightarrow> items_doc kvs"
  by simp

lemma to_items_doc [simp]: "items_doc kvs \<Longrightarrow> to_items kvs = Inr kvs"
  by (rule to_doc_doc(3))

lemma is_doc_opt_str [simp]: "is_doc (opt_str x)" "to_doc (opt_str x) = Inr (opt_str x)"
  by (cases x; simp add: opt_str_def)+

lemma items_doc_sorted [simp]: "items_doc kvs \<Longrightarrow> items_doc (sorted_items kvs)"
  using canon_is_doc(1) [of "PDict kvs"] by (simp add: sorted_items_def)

lemma obj_simps: "obj [] = []" "obj ((k, v) # r) = (PStr (str k), v) # obj r"
  by (simp_all add: obj_def)

lemma canonical_payload_sorted:
  assumes "items_doc pl"
  shows "canonical_payload env pid ty ac (sorted_items pl) ts (opt_str prev) =
    canonical_payload env pid ty ac pl ts (opt_str prev)"
  using assms
  by (simp add: canonical_payload_def canonical_bytes_def canonical_doc_def event_content_def
      obj_simps sorted_items_def [symmetric] del: canon.simps(3))
    (simp add: sorted_items_def [symmetric])

section \<open>Built events verify\<close>

text \<open>The document that is stored for an event.\<close>

definition stored_event :: "evidence_event \<Rightarrow> pdict" where
  "stored_event e = sorted_items (event_to_dict e)"

lemma dget_stored_event: "dget (stored_event e) k = map_option canon (dget (event_to_dict e) k)"
  unfolding stored_event_def by (rule dget_sorted_items) (simp add: event_to_dict_def)

lemma build_event_fields:
  assumes "build_event env pol ts pid ty ac payload prev = Inr e"
  shows "ev_pathway_id e = pid" "ev_type e = ty" "ev_actor e = ac" "ev_occurred_at e = ts"
    "ev_previous_hash e = prev"
    "redact env pol (PDict payload) = Inr (PDict (ev_payload e))"
    "items_doc (ev_payload e)"
    "\<exists>b. canonical_payload env pid ty ac (ev_payload e) ts (opt_str prev) = Inr b
      \<and> ev_hash e = sha256 env b"
proof -
  from assms obtain w where w: "redact env pol (PDict payload) = Inr w"
    by (auto simp: build_event_def rbind_eq_Inr)
  with assms obtain pl b where r: "redact env pol (PDict payload) = Inr (PDict pl)"
    and b: "canonical_payload env pid ty ac pl ts (opt_str prev) = Inr b"
    and e: "e = \<lparr>ev_pathway_id = pid, ev_type = ty, ev_actor = ac, ev_payload = pl,
      ev_occurred_at = ts, ev_previous_hash = prev, ev_hash = sha256 env b\<rparr>"
    by (cases w) (auto simp: build_event_def rbind_eq_Inr)
  from r have "is_doc (PDict pl)" by (blast intro: guarded_is_doc redact_guarded)
  with r b e show "ev_pathway_id e = pid" "ev_type e = ty" "ev_actor e = ac"
    "ev_occurred_at e = ts" "ev_previous_hash e = prev"
    "redact env pol (PDict payload) = Inr (PDict (ev_payload e))" "items_doc (ev_payload e)"
    "\<exists>b. canonical_payload env pid ty ac (ev_payload e) ts (opt_str prev) = Inr b
      \<and> ev_hash e = sha256 env b"
    by auto
qed

definition event_ok :: "pyenv \<Rightarrow> evidence_event \<Rightarrow> bool" where
  "event_ok env e \<longleftrightarrow> verify_event env (stored_event e) = Inr True"

lemma stored_event_fields [simp]:
  "dget_none (stored_event e) (str ''previous_hash'') = opt_str (ev_previous_hash e)"
  "dget_none (stored_event e) (str ''event_hash'') = PStr (ev_hash e)"
  "dget_none (stored_event e) (str ''event_type'') = PStr (ev_type e)"
  "dget_none (stored_event e) (str ''payload'') = PDict (sorted_items (ev_payload e))"
  "str_item env (stored_event e) ''event_hash'' = Inr (ev_hash e)"
  "dget_none (stored_event e) (str ''pathway_id'') = PStr (ev_pathway_id e)"
  by (simp_all add: dget_none_def dget_stored_event str_item_eq event_to_dict_def
      canon_PDict del: canon.simps(3))

lemma build_event_ok:
  assumes "build_event env pol ts pid ty ac payload prev = Inr e"
  shows "event_ok env e"
proof -
  note f = build_event_fields [OF assms]
  from f(8) obtain b where b: "canonical_payload env pid ty ac (ev_payload e) ts (opt_str prev) = Inr b"
    and h: "ev_hash e = sha256 env b" by blast
  have "stored_bytes env (stored_event e) =
      canonical_payload env pid ty ac (sorted_items (ev_payload e)) ts (opt_str prev)"
    using f(1-5) by (simp add: stored_bytes_def str_item_eq ditem_def dget_stored_event)
      (simp add: event_to_dict_def dict_of_def canon_PDict del: canon.simps(3))
  also have "\<dots> = Inr b" using b canonical_payload_sorted [OF f(7)] by simp
  finally show ?thesis by (simp add: event_ok_def verify_event_def h)
qed

section \<open>Chains\<close>

text \<open>The hash the next event must name, and the chain condition that \<open>verify_chain\<close> decides.\<close>

definition last_hash :: "pyenv \<Rightarrow> pdict list \<Rightarrow> pystr option" where
  "last_hash env es = (if es = [] then None
     else Some (py_str env (dget_none (last es) (str ''event_hash''))))"

fun chained :: "pyenv \<Rightarrow> pystr option \<Rightarrow> pdict list \<Rightarrow> bool" where
  "chained env prev [] = True"
| "chained env prev (e # es) =
     (dget_none e (str ''previous_hash'') = opt_str prev \<and> verify_event env e = Inr True
      \<and> chained env (last_hash env [e]) es)"

lemma verify_event_hash:
  "verify_event env e = Inr True \<Longrightarrow> \<exists>h. dget e (str ''event_hash'') = Some (PStr h)"
  by (auto simp: verify_event_def rbind_eq_Inr dget_none_def split: option.splits)

lemma verify_from_chained:
  "verify_from env prev i es = Inr (True, None, None) \<longleftrightarrow> chained env prev es"
proof (induction es arbitrary: prev i)
  case (Cons e es)
  show ?case
  proof (cases "verify_event env e = Inr True")
    case True
    from verify_event_hash [OF this] show ?thesis
      using True Cons by (auto simp: str_item_eq last_hash_def dget_none_def)
  next
    case False
    then show ?thesis by (cases "verify_event env e") auto
  qed
qed simp

lemma verify_chain_iff: "verify_chain env es = Inr (True, None, None) \<longleftrightarrow> chained env None es"
  by (simp add: verify_chain_def verify_from_chained)

lemma chained_append:
  "chained env prev (es @ [e]) \<longleftrightarrow> chained env prev es
     \<and> dget_none e (str ''previous_hash'') = opt_str (if es = [] then prev else last_hash env es)
     \<and> verify_event env e = Inr True"
  by (induction es arbitrary: prev) (auto simp: last_hash_def)

lemma chained_snoc_stored:
  assumes "chained env None es" "event_ok env e" "ev_previous_hash e = last_hash env es"
  shows "chained env None (es @ [stored_event e])"
  using assms by (simp add: chained_append event_ok_def) (simp add: last_hash_def)

lemma last_hash_stored [simp]: "last_hash env (es @ [stored_event e]) = Some (ev_hash e)"
  by (simp add: last_hash_def)

text \<open>A prefix of a chain is a chain: cutting the end off cannot be noticed.\<close>

lemma chained_prefix: "chained env prev (xs @ ys) \<Longrightarrow> chained env prev xs"
  by (induction xs arbitrary: prev) auto

section \<open>The last hash fixes the content\<close>

text \<open>
  The byte strings that were hashed for a list of events, and the content of an event that the
  hash is taken of: every key that \<open>verify_event\<close> reads, the payload as its JSON document.
\<close>

definition hashed_bytes :: "pyenv \<Rightarrow> pdict list \<Rightarrow> nat list set" where
  "hashed_bytes env es = {b. \<exists>e \<in> set es. stored_bytes env e = Inr b}"

definition content_keys :: "string list" where
  "content_keys = [''pathway_id'', ''event_type'', ''actor'', ''occurred_at'']"

definition payload_doc :: "pdict \<Rightarrow> pv res" where
  "payload_doc e = rbind (rbind (ditem e (str ''payload'')) dict_of) (\<lambda>pl. canonical_doc (PDict pl))"

definition same_content :: "pyenv \<Rightarrow> pdict \<Rightarrow> pdict \<Rightarrow> bool" where
  "same_content env d e \<longleftrightarrow>
     (\<forall>k \<in> set content_keys. str_item env d k = str_item env e k) \<and> payload_doc d = payload_doc e
     \<and> dget_none d (str ''previous_hash'') = dget_none e (str ''previous_hash'')
     \<and> dget_none d (str ''event_hash'') = dget_none e (str ''event_hash'')"

lemma opt_str_inject [simp]: "opt_str a = opt_str b \<longleftrightarrow> a = b"
  by (cases a; cases b) (auto simp: opt_str_def)

lemma verified_bytes:
  assumes "verify_event env e = Inr True"
  obtains b where "stored_bytes env e = Inr b" "last_hash env [e] = Some (sha256 env b)"
proof -
  from assms obtain b where b: "stored_bytes env e = Inr b"
    and h: "dget_none e (str ''event_hash'') = PStr (sha256 env b)"
    by (auto simp: verify_event_def rbind_eq_Inr)
  from h have "last_hash env [e] = Some (sha256 env b)" by (simp add: last_hash_def)
  with b show ?thesis by (rule that)
qed

text \<open>The previous hash and the pathway are part of what is hashed.\<close>

lemma stored_bytes_same:
  assumes fr: "float_repr_ok (float_repr env)"
    and d: "stored_bytes env d = Inr b" "dget_none d (str ''previous_hash'') = opt_str p"
    and e: "stored_bytes env e = Inr b" "dget_none e (str ''previous_hash'') = opt_str q"
  shows "p = q" "k \<in> set content_keys \<Longrightarrow> str_item env d k = str_item env e k" "payload_doc d = payload_doc e"
proof -
  from d obtain pid ty ac pl ts where
    1: "canonical_payload env pid ty ac pl ts (opt_str p) = Inr b"
    and d': "str_item env d ''pathway_id'' = Inr pid" "str_item env d ''event_type'' = Inr ty"
      "str_item env d ''actor'' = Inr ac" "str_item env d ''occurred_at'' = Inr ts"
      "rbind (ditem d (str ''payload'')) dict_of = Inr pl"
    by (auto simp: stored_bytes_def rbind_eq_Inr)
  from e obtain pid' ty' ac' pl' ts' where
    2: "canonical_payload env pid' ty' ac' pl' ts' (opt_str q) = Inr b"
    and e': "str_item env e ''pathway_id'' = Inr pid'" "str_item env e ''event_type'' = Inr ty'"
      "str_item env e ''actor'' = Inr ac'" "str_item env e ''occurred_at'' = Inr ts'"
      "rbind (ditem e (str ''payload'')) dict_of = Inr pl'"
    by (auto simp: stored_bytes_def rbind_eq_Inr)
  from canonical_bytes_inject [OF fr 1 [unfolded canonical_payload_def]
      2 [unfolded canonical_payload_def]] obtain x y :: pdict where
    xy: "to_items pl = Inr x" "to_items pl' = Inr y" and
    eq: "canon (PDict (obj [(''pathway_id'', PStr pid), (''event_type'', PStr ty),
        (''actor'', PStr ac), (''payload'', PDict x), (''occurred_at'', PStr ts),
        (''previous_hash'', opt_str p)])) =
      canon (PDict (obj [(''pathway_id'', PStr pid'), (''event_type'', PStr ty'),
        (''actor'', PStr ac'), (''payload'', PDict y), (''occurred_at'', PStr ts'),
        (''previous_hash'', opt_str q)]))"
    using 1 2
    by (auto simp: canonical_payload_def canonical_bytes_def canonical_doc_def event_content_def
        obj_simps rbind_eq_Inr simp del: canon.simps)
  let ?X = "obj [(''pathway_id'', PStr pid), (''event_type'', PStr ty),
        (''actor'', PStr ac), (''payload'', PDict x), (''occurred_at'', PStr ts),
        (''previous_hash'', opt_str p)]"
  let ?Y = "obj [(''pathway_id'', PStr pid'), (''event_type'', PStr ty'),
        (''actor'', PStr ac'), (''payload'', PDict y), (''occurred_at'', PStr ts'),
        (''previous_hash'', opt_str q)]"
  from eq have "dget (sorted_items ?X) (str k) = dget (sorted_items ?Y) (str k)" for k
    by (simp add: canon_PDict del: canon.simps)
  then have f: "map_option canon (dget ?X (str k)) = map_option canon (dget ?Y (str k))" for k
    by (subst (asm) (1 2) dget_sorted_items) simp_all
  show "p = q" using f [of "''previous_hash''"] by simp
  show "str_item env d k = str_item env e k" if "k \<in> set content_keys"
    using that f [of k] d' e' by (auto simp: content_keys_def)
  have "canon (PDict x) = canon (PDict y)" using f [of "''payload''"] by simp
  then show "payload_doc d = payload_doc e"
    using xy d'(5) e'(5) by (simp add: payload_doc_def canonical_doc_def del: canon.simps)
qed

lemmas stored_bytes_previous = stored_bytes_same(1)

lemma chain_last_hash:
  assumes fr: "float_repr_ok (float_repr env)" and inj: "inj_on (sha256 env) (hashed_bytes env zs)"
  shows "chained env None xs \<Longrightarrow> chained env None ys \<Longrightarrow> last_hash env xs = last_hash env ys \<Longrightarrow>
    set xs \<subseteq> set zs \<Longrightarrow> set ys \<subseteq> set zs \<Longrightarrow> list_all2 (same_content env) xs ys"
proof (induction xs arbitrary: ys rule: rev_induct)
  case Nil
  then show ?case by (simp add: last_hash_def split: if_splits)
next
  case (snoc x xs)
  from snoc.prems(3) obtain y us where ys: "ys = us @ [y]"
    by (cases ys rule: rev_cases) (auto simp: last_hash_def)
  note cx = snoc.prems(1) [unfolded chained_append] and cy = snoc.prems(2) [unfolded ys chained_append]
  obtain b where b: "stored_bytes env x = Inr b" "dget_none x (str ''event_hash'') = PStr (sha256 env b)"
    using cx by (auto simp: verify_event_def rbind_eq_Inr)
  obtain c where c: "stored_bytes env y = Inr c" "dget_none y (str ''event_hash'') = PStr (sha256 env c)"
    using cy by (auto simp: verify_event_def rbind_eq_Inr)
  from snoc.prems(3) b(2) c(2) have "sha256 env b = sha256 env c" by (simp add: ys last_hash_def)
  moreover have "b \<in> hashed_bytes env zs" "c \<in> hashed_bytes env zs"
    using b(1) c(1) snoc.prems(4,5) ys by (auto simp: hashed_bytes_def)
  ultimately have bc: "b = c" using inj by (simp add: inj_on_eq_iff)
  have prev: "dget_none x (str ''previous_hash'') = opt_str (last_hash env xs)"
    "dget_none y (str ''previous_hash'') = opt_str (last_hash env us)"
    using cx cy by (auto simp: last_hash_def)
  note same = stored_bytes_same [OF fr b(1) prev(1) c(1) [folded bc] prev(2)]
  have "same_content env x y" using same prev b(2) c(2) bc by (simp add: same_content_def)
  with snoc.IH [of us] cx cy same(1) snoc.prems(4,5) ys show ?case by (simp add: list_all2_appendI)
qed

end
