(* ===== verification/Rpr_Storage.thy ===== *)
theory Rpr_Storage
  imports Rpr_Evidence Rpr_Registry Rpr_StrictJson
begin

text \<open>
  \<open>storage.py\<close>: the pathway table and the evidence table, and the transactions on them. The
  interface of an append-only evidence log is a locale; its client lemmas (a recorded event
  keeps every chain valid, two recorders that read the same last hash break it) are proved
  once and interpreted for \<open>append_event\<close> and for \<open>transition_with_event\<close>.
\<close>

section \<open>The evidence log interface\<close>

locale evidence_log =
  fixes env :: pyenv
    and append :: "evidence_event \<Rightarrow> ('s, unit) py"
    and log :: "'s \<Rightarrow> pystr \<Rightarrow> pdict list"
  assumes append_log:
      "items_doc (ev_payload e) \<Longrightarrow> append e s = (Inr u, t) \<Longrightarrow>
        log t p = (if p = ev_pathway_id e then log s p @ [stored_event e] else log s p)"
    and append_error: "append e s = (Inl x, t) \<Longrightarrow> log t p = log s p"
begin

text \<open>Appending an event that was built on the last hash keeps the chains.\<close>

lemma append_chained:
  assumes "items_doc (ev_payload e)" "event_ok env e"
    "ev_previous_hash e = last_hash env (log s (ev_pathway_id e))"
    "\<forall>p. chained env None (log s p)" "append e s = (r, t)"
  shows "\<forall>p. chained env None (log t p)"
proof (cases r)
  case (Inl x)
  with append_error assms(4,5) show ?thesis by metis
next
  case (Inr u)
  with append_log [OF assms(1)] assms show ?thesis
    by (auto intro: chained_snoc_stored)
qed

text \<open>
  Two events built on the same last hash, both appended: the verifier stops at the second
  one.
\<close>

lemma fork_detected:
  assumes d: "items_doc (ev_payload e)" "items_doc (ev_payload f)"
    and ok: "event_ok env e" "event_ok env f"
    and pid: "ev_pathway_id e = p" "ev_pathway_id f = p"
    and same: "ev_previous_hash e = last_hash env (log s p)"
      "ev_previous_hash f = last_hash env (log s p)"
    and ch: "chained env None (log s p)"
    and new: "Some (ev_hash e) \<noteq> last_hash env (log s p)"
    and run: "append e s = (Inr u, t)" "append f t = (Inr v, w)"
  shows "\<not> chained env None (log w p)"
proof -
  have "log w p = (log s p @ [stored_event e]) @ [stored_event f]"
    using append_log [OF d(1) run(1)] append_log [OF d(2) run(2)] pid by simp
  moreover have "\<not> chained env None ((log s p @ [stored_event e]) @ [stored_event f])"
    unfolding chained_append [of env None "log s p @ [stored_event e]"]
    using same(2) new by simp
  ultimately show ?thesis by simp
qed

end

section \<open>Tables\<close>

record pathway_row =
  row_id :: pystr
  row_doc :: pdict
  row_fingerprint :: pystr
  row_state :: pathway_state
  row_key :: pystr

record event_row =
  er_pathway :: pystr
  er_doc :: pdict
  er_hash :: pystr

record store =
  pathways :: "pathway_row list"
  event_rows :: "event_row list"
  store_faults :: "fault list"

definition store_tx :: "(store, 'a) py \<Rightarrow> (store, 'a) py" where
  "store_tx m = db_step store_faults (\<lambda>f s. s\<lparr>store_faults := f\<rparr>) m"

definition find_row :: "pystr \<Rightarrow> pathway_row list \<Rightarrow> pathway_row option" where
  "find_row p rs = find (\<lambda>r. row_id r = p) rs"

definition find_key :: "pystr \<Rightarrow> pathway_row list \<Rightarrow> pathway_row option" where
  "find_key k rs = find (\<lambda>r. row_key r = k) rs"

section \<open>Registration\<close>

text \<open>The stored document of a definition and its fingerprint.\<close>

definition canonical_definition :: "pathway_definition \<Rightarrow> pdict res" where
  "canonical_definition d = rbind (canonical_doc (PDict (definition_to_dict d))) (\<lambda>v.
     case v of PDict doc \<Rightarrow> Inr doc | _ \<Rightarrow> err TypeError ''not an object'')"

definition definition_fingerprint :: "pyenv \<Rightarrow> pathway_definition \<Rightarrow> pystr res" where
  "definition_fingerprint env d =
     rbind (canonical_bytes (float_repr env) (PDict (definition_to_dict d))) (\<lambda>b. Inr (sha256 env b))"

definition create_tx :: "pathway_definition \<Rightarrow> pathway_state \<Rightarrow> pystr \<Rightarrow> pdict \<Rightarrow> pystr
    \<Rightarrow> (store, bool \<times> pathway_state) py" where
  "create_tx d st key doc fp = (\<lambda>s. case bind_text [key] of
       Inl e \<Rightarrow> (Inl e, s)
     | Inr _ \<Rightarrow> (case find_key key (pathways s) of
         Some r \<Rightarrow>
           (if row_id r \<noteq> pathway_id d \<or> row_fingerprint r \<noteq> fp
            then (err IdempotencyConflictError
              ''idempotency key already belongs to a different pathway request'', s)
            else (Inr (True, row_state r), s))
       | None \<Rightarrow>
           (if find_row (pathway_id d) (pathways s) \<noteq> None
            then (err SqliteIntegrityError ''UNIQUE constraint failed: pathways.pathway_id'', s)
            else (Inr (False, st), s\<lparr>pathways := pathways s @
              [\<lparr>row_id = pathway_id d, row_doc = doc, row_fingerprint = fp, row_state = st,
                row_key = key\<rparr>]\<rparr>))))"

definition create_or_replay_pathway :: "pyenv \<Rightarrow> pathway_definition \<Rightarrow> pathway_state \<Rightarrow> pystr
    \<Rightarrow> (store, bool \<times> pathway_state) py" where
  "create_or_replay_pathway env d st key =
     (if strip key = [] then raise ValueError ''idempotency_key is required''
      else bnd (lift (canonical_definition d)) (\<lambda>doc.
        bnd (lift (definition_fingerprint env d)) (\<lambda>fp. store_tx (create_tx d st key doc fp))))"

section \<open>Reading\<close>

definition lookup_row :: "pystr \<Rightarrow> store \<Rightarrow> pathway_row res" where
  "lookup_row p s = rbind (bind_text [p]) (\<lambda>_.
     case find_row p (pathways s) of None \<Rightarrow> Inl (Exn KeyError p) | Some r \<Rightarrow> Inr r)"

definition get_definition :: "pyenv \<Rightarrow> pystr \<Rightarrow> (store, pathway_definition) py" where
  "get_definition env p = store_tx (query (\<lambda>s.
     rbind (lookup_row p s) (\<lambda>r. definition_from_dict env (row_doc r))))"

definition get_state :: "pystr \<Rightarrow> (store, pathway_state) py" where
  "get_state p = store_tx (query (\<lambda>s. rbind (lookup_row p s) (\<lambda>r. Inr (row_state r))))"

definition rows_of :: "pystr \<Rightarrow> store \<Rightarrow> event_row list" where
  "rows_of p s = filter (\<lambda>r. er_pathway r = p) (event_rows s)"

definition latest_of :: "store \<Rightarrow> pystr \<Rightarrow> pystr option" where
  "latest_of s p = (if rows_of p s = [] then None else Some (er_hash (last (rows_of p s))))"

definition latest_event_hash :: "pystr \<Rightarrow> (store, pystr option) py" where
  "latest_event_hash p = store_tx (query (\<lambda>s. rbind (bind_text [p]) (\<lambda>_. Inr (latest_of s p))))"

definition events_of :: "store \<Rightarrow> pystr \<Rightarrow> pdict list" where
  "events_of s p = map er_doc (rows_of p s)"

definition events :: "pystr \<Rightarrow> (store, pdict list) py" where
  "events p = store_tx (query (\<lambda>s. rbind (bind_text [p]) (\<lambda>_. Inr (events_of s p))))"

section \<open>Writing evidence\<close>

text \<open>
  The \<open>INSERT\<close> into \<open>evidence_events\<close>: the event's JSON must exist and be encodable, its
  pathway must exist (foreign key) and its hash must be new (unique).
\<close>

definition insert_event :: "pyenv \<Rightarrow> evidence_event \<Rightarrow> store \<Rightarrow> store res" where
  "insert_event env e s =
     rbind (canonical_bytes (float_repr env) (PDict (event_to_dict e))) (\<lambda>_.
     rbind (canonical_doc (PDict (event_to_dict e))) (\<lambda>v. case v of
       PDict doc \<Rightarrow>
         (if er_hash ` set (event_rows s) \<inter> {ev_hash e} \<noteq> {}
          then err SqliteIntegrityError ''UNIQUE constraint failed: evidence_events.event_hash''
          else if find_row (ev_pathway_id e) (pathways s) = None
          then err SqliteIntegrityError ''FOREIGN KEY constraint failed''
          else Inr (s\<lparr>event_rows := event_rows s @
            [\<lparr>er_pathway = ev_pathway_id e, er_doc = doc, er_hash = ev_hash e\<rparr>]\<rparr>))
     | _ \<Rightarrow> err TypeError ''not an object''))"

definition append_event :: "pyenv \<Rightarrow> evidence_event \<Rightarrow> (store, unit) py" where
  "append_event env e = store_tx (\<lambda>s. case insert_event env e s of
     Inl x \<Rightarrow> (Inl x, s) | Inr t \<Rightarrow> (Inr (), t))"

definition set_state :: "pystr \<Rightarrow> pathway_state \<Rightarrow> store \<Rightarrow> store" where
  "set_state p t s = s\<lparr>pathways := map (\<lambda>r. if row_id r = p then r\<lparr>row_state := t\<rparr> else r) (pathways s)\<rparr>"

definition transition_with_event ::
    "pyenv \<Rightarrow> pystr \<Rightarrow> pathway_state \<Rightarrow> pathway_state \<Rightarrow> evidence_event \<Rightarrow> (store, unit) py" where
  "transition_with_event env p expected target e = store_tx (\<lambda>s.
     case lookup_row p s of
       Inl x \<Rightarrow> (Inl x, s)
     | Inr r \<Rightarrow>
         (if row_state r \<noteq> expected
          then (Inl (Exn RuntimeError (str ''concurrent state change: expected ''
            @ state_value expected @ str '', found '' @ state_value (row_state r))), s)
          else case insert_event env e (set_state p target s) of
              Inl x \<Rightarrow> (Inl x, s)
            | Inr t \<Rightarrow> (Inr (), t)))"


section \<open>Outcomes\<close>

definition tables :: "store \<Rightarrow> pathway_row list \<times> event_row list" where
  "tables s = (pathways s, event_rows s)"

lemma tables_simps:
  "tables s' = tables s \<Longrightarrow> pathways s' = pathways s"
  "tables s' = tables s \<Longrightarrow> event_rows s' = event_rows s"
  "tables s' = tables s \<Longrightarrow> rows_of p s' = rows_of p s"
  "tables s' = tables s \<Longrightarrow> events_of s' p = events_of s p"
  "tables s' = tables s \<Longrightarrow> latest_of s' p = latest_of s p"
  by (simp_all add: tables_def rows_of_def events_of_def latest_of_def)

lemma tables_faults [simp]: "tables (s\<lparr>store_faults := f\<rparr>) = tables s"
  by (simp add: tables_def)

lemma wp_store_tx:
  assumes "\<And>s'. tables s' = tables s \<Longrightarrow> wp m Q E s'"
    and "\<And>e s'. tables s' = tables s \<Longrightarrow> E e s'"
  shows "wp (store_tx m) Q E s"
  unfolding store_tx_def by (rule wp_db_step) (auto intro: assms)

lemma lookup_row_ok: "lookup_row p s = Inr r \<Longrightarrow> find_row p (pathways s) = Some r \<and> text_ok p"
  by (auto simp: lookup_row_def rbind_eq_Inr bind_text_def split: option.splits)

lemma wp_get_state:
  assumes "\<And>s' r. tables s' = tables s \<Longrightarrow> find_row p (pathways s) = Some r \<Longrightarrow> Q (row_state r) s'"
    and "\<And>e s'. tables s' = tables s \<Longrightarrow> E e s'"
  shows "wp (get_state p) Q E s"
  unfolding get_state_def
proof (rule wp_store_tx)
  fix s' :: store
  assume t: "tables s' = tables s"
  note [simp] = tables_simps [OF t]
  show "wp (query (\<lambda>s. rbind (lookup_row p s) (\<lambda>r. Inr (row_state r)))) Q E s'"
    using assms t by (auto simp: wp rbind_eq_Inr dest!: lookup_row_ok split: sum.splits)
qed (rule assms(2))

lemma wp_get_definition:
  assumes "\<And>s' r d. tables s' = tables s \<Longrightarrow> find_row p (pathways s) = Some r \<Longrightarrow>
      definition_from_dict env (row_doc r) = Inr d \<Longrightarrow> Q d s'"
    and "\<And>e s'. tables s' = tables s \<Longrightarrow> E e s'"
  shows "wp (get_definition env p) Q E s"
  unfolding get_definition_def
proof (rule wp_store_tx)
  fix s' :: store
  assume t: "tables s' = tables s"
  note [simp] = tables_simps [OF t]
  show "wp (query (\<lambda>s. rbind (lookup_row p s) (\<lambda>r. definition_from_dict env (row_doc r)))) Q E s'"
    using assms t by (auto simp: wp rbind_eq_Inr dest!: lookup_row_ok split: sum.splits)
qed (rule assms(2))

lemma wp_latest:
  assumes "\<And>s'. tables s' = tables s \<Longrightarrow> Q (latest_of s p) s'"
    and "\<And>e s'. tables s' = tables s \<Longrightarrow> E e s'"
  shows "wp (latest_event_hash p) Q E s"
  unfolding latest_event_hash_def
proof (rule wp_store_tx)
  fix s' :: store
  assume t: "tables s' = tables s"
  note [simp] = tables_simps [OF t]
  show "wp (query (\<lambda>s. rbind (bind_text [p]) (\<lambda>_. Inr (latest_of s p)))) Q E s'"
    using assms t by (auto simp: wp rbind_eq_Inr dest!: lookup_row_ok split: sum.splits)
qed (rule assms(2))

lemma wp_events:
  assumes "\<And>s'. tables s' = tables s \<Longrightarrow> Q (events_of s p) s'"
    and "\<And>e s'. tables s' = tables s \<Longrightarrow> E e s'"
  shows "wp (events p) Q E s"
  unfolding events_def
proof (rule wp_store_tx)
  fix s' :: store
  assume t: "tables s' = tables s"
  note [simp] = tables_simps [OF t]
  show "wp (query (\<lambda>s. rbind (bind_text [p]) (\<lambda>_. Inr (events_of s p)))) Q E s'"
    using assms t by (auto simp: wp rbind_eq_Inr dest!: lookup_row_ok split: sum.splits)
qed (rule assms(2))

lemma wp_create:
  assumes replay: "\<And>s' r fp. tables s' = tables s \<Longrightarrow> find_key key (pathways s) = Some r \<Longrightarrow>
      row_id r = pathway_id d \<Longrightarrow> definition_fingerprint env d = Inr fp \<Longrightarrow>
      row_fingerprint r = fp \<Longrightarrow> Q (True, row_state r) s'"
    and fresh: "\<And>s' doc fp. canonical_definition d = Inr doc \<Longrightarrow>
      definition_fingerprint env d = Inr fp \<Longrightarrow> find_key key (pathways s) = None \<Longrightarrow>
      find_row (pathway_id d) (pathways s) = None \<Longrightarrow> event_rows s' = event_rows s \<Longrightarrow>
      pathways s' = pathways s @ [\<lparr>row_id = pathway_id d, row_doc = doc, row_fingerprint = fp,
        row_state = st, row_key = key\<rparr>] \<Longrightarrow> Q (False, st) s'"
    and bad: "\<And>e s'. tables s' = tables s \<Longrightarrow> E e s'"
  shows "wp (create_or_replay_pathway env d st key) Q E s"
proof -
  have "wp (create_tx d st key doc fp) Q E s'"
    if "tables s' = tables s" "canonical_definition d = Inr doc" "definition_fingerprint env d = Inr fp"
    for s' doc fp
    using that tables_simps [OF that(1)] replay [OF _ _ _ that(3)] fresh [OF that(2,3)] bad
    by (auto simp: create_tx_def wp_def split: sum.splits option.splits if_splits)
  then show ?thesis
    by (auto simp: create_or_replay_pathway_def wp bad wp_store_tx split: sum.splits)
qed

lemma canonical_event_doc:
  "items_doc (ev_payload e) \<Longrightarrow> canonical_doc (PDict (event_to_dict e)) = Inr (PDict (stored_event e))"
  by (simp add: canonical_doc_def event_to_dict_def obj_simps stored_event_def sorted_items_def)

definition new_event_row :: "evidence_event \<Rightarrow> event_row" where
  "new_event_row e = \<lparr>er_pathway = ev_pathway_id e, er_doc = stored_event e, er_hash = ev_hash e\<rparr>"

lemma insert_event_ok:
  assumes "items_doc (ev_payload e)" "insert_event env e s = Inr t"
  shows "pathways t = pathways s" "event_rows t = event_rows s @ [new_event_row e]"
    "ev_hash e \<notin> er_hash ` set (event_rows s)" "find_row (ev_pathway_id e) (pathways s) \<noteq> None"
  using assms by (auto simp: insert_event_def rbind_eq_Inr canonical_event_doc new_event_row_def
      split: if_splits)

lemma wp_append:
  assumes "items_doc (ev_payload e)"
    and "\<And>s'. pathways s' = pathways s \<Longrightarrow> event_rows s' = event_rows s @ [new_event_row e] \<Longrightarrow>
      ev_hash e \<notin> er_hash ` set (event_rows s) \<Longrightarrow>
      find_row (ev_pathway_id e) (pathways s) \<noteq> None \<Longrightarrow> Q () s'"
    and "\<And>x s'. tables s' = tables s \<Longrightarrow> E x s'"
  shows "wp (append_event env e) Q E s"
  unfolding append_event_def
proof (rule wp_store_tx)
  fix s' :: store
  assume t: "tables s' = tables s"
  note ts = tables_simps [OF t]
  show "wp (\<lambda>s. case insert_event env e s of Inl x \<Rightarrow> (Inl x, s) | Inr t \<Rightarrow> (Inr (), t)) Q E s'"
  proof (cases "insert_event env e s'")
    case (Inl x)
    then show ?thesis using assms(3) [OF t] by (simp add: wp_def)
  next
    case (Inr u)
    note i = insert_event_ok [OF assms(1) Inr, unfolded ts]
    show ?thesis using assms(2) [OF i] Inr by (simp add: wp_def)
  qed
qed (rule assms(3))

lemma set_state_simps [simp]:
  "event_rows (set_state p t s) = event_rows s"
  "map row_id (pathways (set_state p t s)) = map row_id (pathways s)"
  "map row_key (pathways (set_state p t s)) = map row_key (pathways s)"
  by (auto simp: set_state_def)

lemma find_row_set_state:
  "find_row q (pathways (set_state p t s)) =
     map_option (\<lambda>r. if row_id r = p then r\<lparr>row_state := t\<rparr> else r) (find_row q (pathways s))"
proof -
  have "find_row q (map (\<lambda>r. if row_id r = p then r\<lparr>row_state := t\<rparr> else r) rs) =
     map_option (\<lambda>r. if row_id r = p then r\<lparr>row_state := t\<rparr> else r) (find_row q rs)" for rs
    by (induction rs) (auto simp: find_row_def)
  then show ?thesis by (simp add: set_state_def)
qed

lemma wp_transition:
  assumes "items_doc (ev_payload e)"
    and "\<And>s' r. find_row p (pathways s) = Some r \<Longrightarrow> row_state r = expected \<Longrightarrow>
      pathways s' = pathways (set_state p target s) \<Longrightarrow>
      event_rows s' = event_rows s @ [new_event_row e] \<Longrightarrow>
      ev_hash e \<notin> er_hash ` set (event_rows s) \<Longrightarrow>
      find_row (ev_pathway_id e) (pathways s) \<noteq> None \<Longrightarrow> Q () s'"
    and "\<And>x s'. tables s' = tables s \<Longrightarrow> E x s'"
  shows "wp (transition_with_event env p expected target e) Q E s"
  unfolding transition_with_event_def
proof (rule wp_store_tx)
  fix s' :: store
  assume t: "tables s' = tables s"
  note ts = tables_simps [OF t]
  then have ps: "pathways (set_state p target s') = pathways (set_state p target s)"
    by (simp add: set_state_def)
  show "wp (\<lambda>s. case lookup_row p s of Inl x \<Rightarrow> (Inl x, s)
     | Inr r \<Rightarrow> (if row_state r \<noteq> expected
          then (Inl (Exn RuntimeError (str ''concurrent state change: expected ''
            @ state_value expected @ str '', found '' @ state_value (row_state r))), s)
          else case insert_event env e (set_state p target s) of
              Inl x \<Rightarrow> (Inl x, s) | Inr t \<Rightarrow> (Inr (), t))) Q E s'"
  proof (cases "lookup_row p s'")
    case (Inl x)
    then show ?thesis using assms(3) [OF t] by (simp add: wp_def)
  next
    case look: (Inr r)
    then have r: "find_row p (pathways s) = Some r" by (auto dest: lookup_row_ok simp: ts)
    show ?thesis
    proof (cases "row_state r = expected")
      case st: True
      show ?thesis
      proof (cases "insert_event env e (set_state p target s')")
        case (Inl x)
        then show ?thesis using assms(3) [OF t] look st by (simp add: wp_def)
      next
        case (Inr u)
        note i = insert_event_ok [OF assms(1) Inr, unfolded ps set_state_simps ts]
        from i(4) have f: "find_row (ev_pathway_id e) (pathways s) \<noteq> None"
          by (simp add: find_row_set_state)
        show ?thesis using assms(2) [OF r st i(1-3) f] look st Inr by (simp add: wp_def)
      qed
    next
      case False
      then show ?thesis using assms(3) [OF t] look by (simp add: wp_def)
    qed
  qed
qed (rule assms(3))

section \<open>Well-formed tables\<close>

definition store_ok :: "store \<Rightarrow> bool" where
  "store_ok s \<longleftrightarrow> distinct (map row_id (pathways s)) \<and> distinct (map row_key (pathways s))
     \<and> distinct (map er_hash (event_rows s))
     \<and> (\<forall>r \<in> set (event_rows s). er_pathway r \<in> row_id ` set (pathways s)
          \<and> dget_none (er_doc r) (str ''event_hash'') = PStr (er_hash r)
          \<and> dget_none (er_doc r) (str ''pathway_id'') = PStr (er_pathway r))"

lemma store_ok_tables: "tables s' = tables s \<Longrightarrow> store_ok s' = store_ok s"
  by (simp add: store_ok_def tables_def)

lemma find_row_None: "find_row p rs = None \<longleftrightarrow> p \<notin> row_id ` set rs"
  by (auto simp: find_row_def find_None_iff)

lemma find_row_Some: "find_row p rs = Some r \<Longrightarrow> r \<in> set rs \<and> row_id r = p"
  by (auto simp: find_row_def find_Some_iff)

lemma find_key_None: "find_key k rs = None \<longleftrightarrow> k \<notin> row_key ` set rs"
  by (auto simp: find_key_def find_None_iff)

lemma new_event_row_fields [simp]:
  "er_pathway (new_event_row e) = ev_pathway_id e" "er_hash (new_event_row e) = ev_hash e"
  "er_doc (new_event_row e) = stored_event e"
  by (simp_all add: new_event_row_def)

lemma row_id_image: "row_id ` set (pathways s) = set (map row_id (pathways s))"
  by simp

lemma store_ok_event:
  assumes "store_ok s" "map row_id (pathways t) = map row_id (pathways s)"
    "map row_key (pathways t) = map row_key (pathways s)"
    "event_rows t = event_rows s @ [new_event_row e]" "ev_hash e \<notin> er_hash ` set (event_rows s)"
    "find_row (ev_pathway_id e) (pathways s) \<noteq> None"
  shows "store_ok t"
  using assms
  by (simp add: store_ok_def row_id_image find_row_None del: set_map) (auto simp: store_ok_def)

lemma store_ok_row:
  assumes "store_ok s" "find_key (row_key r) (pathways s) = None"
    "find_row (row_id r) (pathways s) = None" "event_rows t = event_rows s"
    "pathways t = pathways s @ [r]"
  shows "store_ok t"
  using assms by (auto simp: store_ok_def find_row_None find_key_None)

lemma latest_is_last_hash:
  assumes "store_ok s"
  shows "latest_of s p = last_hash env (events_of s p)"
proof (cases "rows_of p s = []")
  case False
  then have "last (rows_of p s) \<in> set (event_rows s)"
    using last_in_set [OF False] by (auto simp: rows_of_def)
  with assms have "dget_none (er_doc (last (rows_of p s))) (str ''event_hash'') =
      PStr (er_hash (last (rows_of p s)))" by (auto simp: store_ok_def)
  with False show ?thesis by (simp add: latest_of_def last_hash_def events_of_def last_map)
qed (simp add: latest_of_def last_hash_def events_of_def)

lemma events_of_snoc:
  "event_rows t = event_rows s @ [new_event_row e] \<Longrightarrow> events_of t p =
     (if p = ev_pathway_id e then events_of s p @ [stored_event e] else events_of s p)"
  by (auto simp: events_of_def rows_of_def)

section \<open>The store implements the interfaces\<close>

interpretation appended: evidence_log env "append_event env" events_of for env
proof (unfold_locales, goal_cases)
  case (1 e s u t p)
  have "wp (append_event env e) (\<lambda>_ t. event_rows t = event_rows s @ [new_event_row e]) (\<lambda>_ _. True) s"
    by (rule wp_append [OF 1(1)]) simp_all
  from wp_returnD [OF this 1(2)] show ?case by (rule events_of_snoc)
next
  case (2 e s x t p)
  then show ?case
    by (auto simp: append_event_def store_tx_def db_step_def events_of_def rows_of_def
        split: list.splits fault.splits sum.splits)
qed

interpretation transitioned: evidence_log env "transition_with_event env p0 s0 t0" events_of
  for env p0 s0 t0
proof (unfold_locales, goal_cases)
  case (1 e s u t p)
  have "wp (transition_with_event env p0 s0 t0 e)
      (\<lambda>_ t. event_rows t = event_rows s @ [new_event_row e]) (\<lambda>_ _. True) s"
    by (rule wp_transition [OF 1(1)]) simp_all
  from wp_returnD [OF this 1(2)] show ?case by (rule events_of_snoc)
next
  case (2 e s x t p)
  then show ?case
    by (auto simp: transition_with_event_def store_tx_def db_step_def events_of_def rows_of_def
        split: list.splits fault.splits sum.splits if_splits)
qed


text \<open>The pathway registry replays by idempotency key.\<close>

definition create_hit ::
    "pathway_definition \<times> pathway_state \<times> pystr \<Rightarrow> pathway_row list \<Rightarrow> pathway_row option" where
  "create_hit = (\<lambda>(d, st, key) rs. find_key key rs)"

definition create_same ::
    "pyenv \<Rightarrow> pathway_definition \<times> pathway_state \<times> pystr \<Rightarrow> pathway_row \<Rightarrow> bool" where
  "create_same env = (\<lambda>(d, st, key) r. row_id r = pathway_id d
     \<and> definition_fingerprint env d = Inr (row_fingerprint r))"

definition create_admissible ::
    "pyenv \<Rightarrow> pathway_definition \<times> pathway_state \<times> pystr \<Rightarrow> bool" where
  "create_admissible env = (\<lambda>(d, st, key). \<not> blank key \<and> text_ok key
     \<and> (\<exists>doc. canonical_definition d = Inr doc) \<and> (\<exists>fp. definition_fingerprint env d = Inr fp))"

lemma create_quiet:
  "store_faults s = [] \<Longrightarrow> create_or_replay_pathway env d st key s =
     (if blank key then (err ValueError ''idempotency_key is required'', s)
      else case canonical_definition d of Inl e \<Rightarrow> (Inl e, s)
        | Inr doc \<Rightarrow> (case definition_fingerprint env d of Inl e \<Rightarrow> (Inl e, s)
            | Inr fp \<Rightarrow> create_tx d st key doc fp s))"
  by (simp add: create_or_replay_pathway_def blank_def bnd_def store_tx_def db_step_def
      split: sum.splits)

lemma find_key_snoc: "find_key k (rs @ [r]) =
    (case find_key k rs of Some x \<Rightarrow> Some x | None \<Rightarrow> if row_key r = k then Some r else None)"
  by (induction rs) (auto simp: find_key_def)

interpretation pathway_registry: replay_registry
    "\<lambda>(d, st, key). create_or_replay_pathway env d st key" pathways row_state
    "\<lambda>s. store_faults s = []" "create_admissible env" create_hit "create_same env" for env
proof (unfold_locales, goal_cases)
  case (1 s q r)
  then show ?case
    by (cases q) (auto simp: create_quiet create_admissible_def create_hit_def create_same_def
        create_tx_def bind_text_def check_def)
next
  case (2 s q r)
  then show ?case
    by (cases q) (auto simp: create_quiet create_admissible_def create_hit_def create_same_def
        create_tx_def bind_text_def check_def)
next
  case (3 s q b v t)
  obtain d st key where q: "q = (d, st, key)" by (cases q) auto
  from 3 q obtain doc fp where k: "\<not> blank key" and doc: "canonical_definition d = Inr doc"
    and fp: "definition_fingerprint env d = Inr fp" and run: "create_tx d st key doc fp s = (Inr (b, v), t)"
    by (auto simp: create_quiet split: if_splits sum.splits)
  from run have key: "text_ok key" by (auto simp: create_tx_def bind_text_def split: sum.splits)
  from run 3(1) fp show ?case
    by (cases "find_key key (pathways s)")
      (auto simp: q k doc key create_admissible_def create_hit_def create_same_def create_tx_def
        find_key_snoc split: sum.splits if_splits)
qed

end
