(* ===== verification/Rpr_Runtime.thy ===== *)
theory Rpr_Runtime
  imports Rpr_Principal Rpr_Rpe Rpr_Inspection Rpr_Attempts Rpr_Storage
begin

text \<open>
  \<open>runtime.py\<close>: \<open>ResponsibilityPathwayRuntime\<close>, method by method, over a world that holds the
  pathway store, the attempt ledger, the clock and a ghost log of the requests that were
  handed to an executor. The executor and the reconciliation strategy are parameters: an
  executor may do anything to the world, in particular run other methods of the runtime
  before it answers.
\<close>

section \<open>Decisions are ordered\<close>

fun decision_rank :: "runtime_decision \<Rightarrow> nat" where
  "decision_rank ALLOW = 0"
| "decision_rank HOLD = 1"
| "decision_rank HUMAN_GATE_DECISION = 2"
| "decision_rank DENY = 3"

lemma decision_rank_inject: "decision_rank a = decision_rank b \<longleftrightarrow> a = b"
  by (cases a; cases b) simp_all

instantiation runtime_decision :: linorder
begin

definition less_eq_runtime_decision :: "runtime_decision \<Rightarrow> runtime_decision \<Rightarrow> bool" where
  "less_eq_runtime_decision a b \<longleftrightarrow> decision_rank a \<le> decision_rank b"

definition less_runtime_decision :: "runtime_decision \<Rightarrow> runtime_decision \<Rightarrow> bool" where
  "less_runtime_decision a b \<longleftrightarrow> decision_rank a < decision_rank b"

instance
  by intro_classes
    (auto simp: less_eq_runtime_decision_def less_runtime_decision_def decision_rank_inject)

end

definition combine :: "runtime_decision \<Rightarrow> runtime_decision \<Rightarrow> runtime_decision" where
  "combine left right = (if decision_rank left \<ge> decision_rank right then left else right)"

lemma combine_max: "combine a b = max a b"
  by (auto simp: combine_def max_def less_eq_runtime_decision_def decision_rank_inject
      dest: antisym)

definition initial_state :: "runtime_decision \<Rightarrow> bool \<Rightarrow> pathway_state" where
  "initial_state d approval_configured =
     (if d = DENY then DENIED else if d = HUMAN_GATE_DECISION then HUMAN_GATE
      else if d = HOLD then HELD
      else if approval_configured then AWAITING_APPROVAL else APPROVED)"

section \<open>The world\<close>

record dispatch =
  dp_pathway :: pystr
  dp_attempt :: pystr
  dp_actor :: pystr

record world =
  wstore :: store
  wledger :: ledger
  wtick :: nat
  wdispatched :: "dispatch list"

record config =
  cenv :: pyenv
  cpolicy :: redaction_policy
  crpe :: rpe_evaluator

definition in_store :: "(store, 'a) py \<Rightarrow> (world, 'a) py" where
  "in_store m = zoom wstore (\<lambda>s w. w\<lparr>wstore := s\<rparr>) m"

definition in_ledger :: "(ledger, 'a) py \<Rightarrow> (world, 'a) py" where
  "in_ledger m = zoom wledger (\<lambda>l w. w\<lparr>wledger := l\<rparr>) m"

text \<open>\<open>datetime.now(UTC).isoformat()\<close>.\<close>

definition now :: "config \<Rightarrow> (world, pystr) py" where
  "now cfg = (\<lambda>w. (Inr (iso_time (cenv cfg) (wtick w)), w\<lparr>wtick := Suc (wtick w)\<rparr>))"

section \<open>Evidence\<close>

text \<open>\<open>build_event(..., previous_hash=store.latest_event_hash(pathway_id), ...)\<close>.\<close>

definition make_event ::
    "config \<Rightarrow> pystr \<Rightarrow> string \<Rightarrow> pystr \<Rightarrow> (string \<times> pv) list \<Rightarrow> (world, evidence_event) py" where
  "make_event cfg p ty actor payload =
     bnd (in_store (latest_event_hash p)) (\<lambda>prev.
     bnd (now cfg) (\<lambda>ts.
       lift (build_event (cenv cfg) (cpolicy cfg) ts p (str ty) actor (obj payload) prev)))"

definition record_event ::
    "config \<Rightarrow> pystr \<Rightarrow> string \<Rightarrow> pystr \<Rightarrow> (string \<times> pv) list \<Rightarrow> (world, unit) py" where
  "record_event cfg p ty actor payload =
     bnd (make_event cfg p ty actor payload) (\<lambda>e. in_store (append_event (cenv cfg) e))"

text \<open>The event that goes with a change of state, and the change.\<close>

definition move :: "config \<Rightarrow> pystr \<Rightarrow> pathway_state \<Rightarrow> pathway_state \<Rightarrow> string \<Rightarrow> pystr
    \<Rightarrow> (string \<times> pv) list \<Rightarrow> (world, unit) py" where
  "move cfg p current target ty actor payload =
     bnd (make_event cfg p ty actor
         ([(''from'', PStr (state_value current)), (''to'', PStr (state_value target))] @ payload))
       (\<lambda>e. in_store (transition_with_event (cenv cfg) p current target e))"

definition verify_evidence :: "config \<Rightarrow> pystr \<Rightarrow> (world, bool \<times> nat \<times> nat option \<times> pystr option) py" where
  "verify_evidence cfg p = bnd (in_store (events p)) (\<lambda>es.
     bnd (lift (verify_chain (cenv cfg) es)) (\<lambda>(ok, i, why). ret (ok, length es, i, why)))"

section \<open>Registration\<close>

record registration_result =
  reg_pathway_id :: pystr
  reg_state :: pathway_state
  reg_decision :: runtime_decision
  reg_reason_codes :: "pystr list"
  reg_replayed :: bool

definition action_request :: "pathway_definition \<Rightarrow> pdict" where
  "action_request d = obj [
     (''action'', PStr (action_name d)),
     (''action_class'', PStr (action_class_value (action_class d))),
     (''environment_trust'', PStr (environment_trust_value (environment_trust d))),
     (''responsibility_pathway'', PDict (definition_to_dict d))]"

text \<open>The RPE call: a contract error is a \<open>HOLD\<close> with its message as evidence.\<close>

definition evaluate_rpe ::
    "config \<Rightarrow> pathway_definition \<Rightarrow> (runtime_decision \<times> pystr list \<times> pdict) res" where
  "evaluate_rpe cfg d = (case crpe cfg (action_request d) of
       Inr r \<Rightarrow> Inr (rpe_decision r, rpe_reason_codes r,
         (case rpe_raw r of None \<Rightarrow> [] | Some raw \<Rightarrow> raw))
     | Inl e \<Rightarrow> (if catches [RpeContractError] e
         then Inr (HOLD, [str ''rpe_contract_error'', exn_name (exn_kind e)],
           obj [(''error'', PStr (exn_msg e))])
         else Inl e))"

definition register :: "config \<Rightarrow> pathway_definition \<Rightarrow> pystr \<Rightarrow> (world, registration_result) py" where
  "register cfg d key =
     (let inspection = inspect_pathway d in
      bnd (lift (evaluate_rpe cfg d)) (\<lambda>(dec, codes, raw).
      let combined = combine (decision inspection) dec;
          st = initial_state combined (approval_authority d \<noteq> None) in
      bnd (in_store (create_or_replay_pathway (cenv cfg) d st key)) (\<lambda>(replayed, persisted).
      seq (if replayed then ret ()
           else record_event cfg (pathway_id d) ''pathway_registered'' (decision_owner d)
             [(''inspection'', PDict (inspection_to_dict inspection)),
              (''rpe'', PDict (obj [(''decision'', PStr (decision_value dec)),
                (''reason_codes'', PList (map PStr codes)), (''raw'', PDict raw)])),
              (''state'', PStr (state_value persisted)),
              (''idempotency_key'', PStr key)])
       (ret \<lparr>reg_pathway_id = pathway_id d, reg_state = persisted, reg_decision = combined,
          reg_reason_codes = map finding_code (findings inspection) @ codes,
          reg_replayed = replayed\<rparr>))))"

section \<open>Transitions\<close>

definition transition ::
    "config \<Rightarrow> pystr \<Rightarrow> pathway_state \<Rightarrow> pystr \<Rightarrow> pystr \<Rightarrow> (world, pathway_state) py" where
  "transition cfg p target actor reason =
     (if target = RUNNING
      then raise ValueError ''RUNNING transitions require an execution or resume attempt binding; use execute() or RepairCoordinator.resume()''
      else
        bnd (in_store (get_state p)) (\<lambda>current.
        bnd (in_store (get_definition (cenv cfg) p)) (\<lambda>d.
        seq (lift (ensure_transition current target)) (
        seq (lift (authorize_transition d current target actor)) (
        seq (move cfg p current target ''state_transition'' actor [(''reason'', PStr reason)])
        (ret target))))))"

definition transition_as_principal :: "config \<Rightarrow> (credential \<Rightarrow> principal res) \<Rightarrow> (principal \<Rightarrow> pystr res)
    \<Rightarrow> pystr \<Rightarrow> pathway_state \<Rightarrow> credential \<Rightarrow> pystr \<Rightarrow> (world, pathway_state) py" where
  "transition_as_principal cfg resolver binding p target cred reason =
     bnd (lift (resolver cred)) (\<lambda>who.
     bnd (lift (binding who)) (\<lambda>actor.
     bnd (transition cfg p target actor reason) (\<lambda>st.
     seq (record_event cfg p ''principal_authorized_transition'' actor
       [(''issuer'', PStr (issuer who)), (''subject'', PStr (subject who)),
        (''authentication_method'', PStr (authentication_method who)),
        (''target'', PStr (state_value target))])
     (ret st))))"

definition mark_write_unknown :: "config \<Rightarrow> pystr \<Rightarrow> pystr \<Rightarrow> pystr \<Rightarrow> (world, pathway_state) py" where
  "mark_write_unknown cfg p actor reason = transition cfg p WRITE_STATUS_UNKNOWN actor reason"

definition require_repair :: "config \<Rightarrow> pystr \<Rightarrow> pystr \<Rightarrow> pystr \<Rightarrow> (world, pathway_state) py" where
  "require_repair cfg p actor reason = transition cfg p REPAIR_REQUIRED actor reason"

section \<open>The attempt a running pathway is bound to\<close>

definition as_mapping :: "pv \<Rightarrow> pdict res" where
  "as_mapping v = (case v of PDict d \<Rightarrow> Inr d
     | _ \<Rightarrow> Inl (Exn (OtherException (str ''AttributeError'')) []))"

text \<open>The loop over \<open>reversed(store.events(pathway_id))\<close>.\<close>

fun running_attempt :: "pdict list \<Rightarrow> pystr res" where
  "running_attempt [] = err RuntimeError ''running pathway has no durable attempt binding''"
| "running_attempt (e # es) =
     rbind (as_mapping (dget_default e (str ''payload'') (PDict []))) (\<lambda>payload.
     if dget_none payload (str ''to'') \<noteq> PStr (state_value RUNNING) then running_attempt es
     else case (if dget_none e (str ''event_type'') = PStr (str ''execution_started'')
                then dget_none payload (str ''attempt_id'')
                else if dget_none e (str ''event_type'') = PStr (str ''pathway_resumed'')
                then dget_none payload (str ''next_attempt_id'')
                else PNone) of
         PStr a \<Rightarrow> (if blank a
           then err RuntimeError ''running pathway has no durable attempt binding'' else Inr a)
       | _ \<Rightarrow> err RuntimeError ''running pathway has no durable attempt binding'')"

definition active_running_attempt_id :: "pystr \<Rightarrow> (world, pystr) py" where
  "active_running_attempt_id p =
     bnd (in_store (events p)) (\<lambda>es. lift (running_attempt (rev es)))"

end
