(* ===== verification/Rpr_Execution.thy ===== *)
theory Rpr_Execution
  imports Rpr_Runtime
begin

text \<open>
  The execution and reconciliation methods of \<open>runtime.py\<close> (\<open>execute\<close>, \<open>reconcile\<close> and
  their helpers), the strategy interface of \<open>reconciliation.py\<close>, and
  \<open>RepairCoordinator\<close> of \<open>repair.py\<close>.
\<close>

section \<open>Attempt results\<close>

text \<open>\<open>ExecutionStatus(str(v))\<close> of a stored status, and the reason field.\<close>

definition stored_reason :: "pv \<Rightarrow> pystr option res" where
  "stored_reason v = (case v of PNone \<Rightarrow> Inr None | PStr s \<Rightarrow> Inr (Some s)
     | _ \<Rightarrow> err TypeError ''reason is not a string'')"

definition readback_from_doc :: "pv \<Rightarrow> readback_evidence option res" where
  "readback_from_doc v = (case v of PNone \<Rightarrow> Inr None | _ \<Rightarrow>
     rbind (as_mapping v) (\<lambda>b.
     rbind (dict_of (dget_default b (str ''observed'') (PDict []))) (\<lambda>obs.
     rbind (stored_reason (dget_none b (str ''reason''))) (\<lambda>why.
       Inr (Some \<lparr>verified = truthy (dget_none b (str ''verified'')), observed = obs,
         readback_reason = why\<rparr>)))))"

definition result_from_doc :: "pyenv \<Rightarrow> pdict \<Rightarrow> execution_result res" where
  "result_from_doc env d =
     rbind (readback_from_doc (dget_none d (str ''readback''))) (\<lambda>rb.
     rbind (rbind (ditem d (str ''status'')) (\<lambda>v.
       enum_parse status_value execution_statuses (PStr (py_str env v)))) (\<lambda>st.
     rbind (dict_of (dget_default d (str ''evidence'') (PDict []))) (\<lambda>ev.
     rbind (stored_reason (dget_none d (str ''reason''))) (\<lambda>why.
       Inr \<lparr>status = st, evidence = ev, readback = rb, result_reason = why\<rparr>))))"

text \<open>\<open>result.reason or "..."\<close>.\<close>

definition reason_or :: "pystr option \<Rightarrow> pystr \<Rightarrow> pystr" where
  "reason_or r d = (case r of None \<Rightarrow> d | Some s \<Rightarrow> if s = [] then d else s)"

text \<open>The payload fields that the execution events share.\<close>

definition request_fields :: "execution_request \<Rightarrow> (string \<times> pv) list" where
  "request_fields q = [(''operation_id'', PStr (operation_id q)),
     (''attempt_id'', PStr (attempt_id q)), (''idempotency_key'', PStr (idempotency_key q))]"

definition readback_value :: "readback_evidence option \<Rightarrow> pv" where
  "readback_value r = (case r of None \<Rightarrow> PNone | Some b \<Rightarrow> PDict (obj [
     (''verified'', PBool (verified b)), (''observed'', PDict (observed b)),
     (''reason'', opt_str (readback_reason b))]))"

definition result_fields :: "execution_result \<Rightarrow> (string \<times> pv) list" where
  "result_fields r = [(''status'', PStr (status_value (status r))),
     (''evidence'', PDict (evidence r)), (''readback'', readback_value (readback r)),
     (''reason'', opt_str (result_reason r))]"

section \<open>Closing a pathway after execution\<close>

definition finish_execution_pathway ::
    "config \<Rightarrow> pystr \<Rightarrow> execution_request \<Rightarrow> pystr \<Rightarrow> execution_result \<Rightarrow> (world, unit) py" where
  "finish_execution_pathway cfg p q actor r =
     bnd (in_store (get_state p)) (\<lambda>current.
     let settle = (\<lambda>target reason transition_actor.
       if current = target then ret ()
       else if current = RUNNING then
         seq (transition cfg p target transition_actor reason) (ret ())
       else if current \<noteq> WRITE_STATUS_UNKNOWN then
         throw (Exn ValueError (str ''persisted execution result conflicts with pathway state ''
           @ state_value current))
       else seq (lift (ensure_transition current target))
         (move cfg p current target ''execution_result_after_concurrent_unknown'' actor
            (request_fields q @ result_fields r)))
     in
     if status r = SUCCEEDED \<and> (case readback r of None \<Rightarrow> False | Some b \<Rightarrow> verified b) then
       settle COMPLETED (str ''executor_readback_verified'') actor
     else if status r = FAILED then
       bnd (in_store (get_definition (cenv cfg) p)) (\<lambda>d.
         settle REPAIR_REQUIRED (reason_or (result_reason r) (str ''executor_failed'')) (repair_owner d))
     else if current = WRITE_STATUS_UNKNOWN then ret ()
     else seq (transition cfg p WRITE_STATUS_UNKNOWN actor
         (reason_or (result_reason r) (str ''executor_write_status_unknown''))) (ret ()))"

section \<open>Execution\<close>

type_synonym executor = "execution_request \<Rightarrow> (world, execution_result) py"

definition start_execution_pathway ::
    "config \<Rightarrow> pystr \<Rightarrow> execution_request \<Rightarrow> pystr \<Rightarrow> (world, unit) py" where
  "start_execution_pathway cfg p q actor =
     bnd (in_store (get_state p)) (\<lambda>current.
     bnd (in_store (get_definition (cenv cfg) p)) (\<lambda>d.
     seq (lift (ensure_transition current RUNNING)) (
     seq (lift (authorize_transition d current RUNNING actor))
       (move cfg p current RUNNING ''execution_started'' actor
          (request_fields q @ [(''reason'', PStr (str ''execution_started''))])))))"

text \<open>A running pathway is executed by the attempt it is bound to.\<close>

definition check_binding :: "pystr \<Rightarrow> execution_request \<Rightarrow> (world, unit) py" where
  "check_binding p q = bnd (in_store (get_state p)) (\<lambda>current.
     if current = RUNNING then
       bnd (active_running_attempt_id p) (\<lambda>bound.
         if bound \<noteq> attempt_id q then raise ValueError ''running pathway is bound to another attempt''
         else ret ())
     else ret ())"

text \<open>A started attempt whose pathway was never started is taken up again.\<close>

definition restart_attempt ::
    "config \<Rightarrow> pystr \<Rightarrow> execution_request \<Rightarrow> pystr \<Rightarrow> (world, unit) py" where
  "restart_attempt cfg p q actor =
     bnd (in_ledger (discard_started (attempt_id q))) (\<lambda>ok.
     if \<not> ok then raise RuntimeError ''pre_dispatch_started_attempt_could_not_be_reset''
     else bnd (in_ledger (begin_attempt (cenv cfg) p q)) (\<lambda>(replayed, _).
       if replayed then raise RuntimeError ''pre_dispatch_started_attempt_reset_replayed''
       else record_event cfg p ''execution_pre_dispatch_restart_recovered'' actor (request_fields q)))"

text \<open>A started attempt of a pathway that was started is not dispatched again.\<close>

definition unresolved_replay :: "config \<Rightarrow> pystr \<Rightarrow> execution_request \<Rightarrow> pystr \<Rightarrow> pathway_state
    \<Rightarrow> (world, execution_result) py" where
  "unresolved_replay cfg p q actor current =
     (let reason = str ''prior_attempt_started_without_persisted_result'' in
      seq (if current = RUNNING
           then seq (transition cfg p WRITE_STATUS_UNKNOWN actor reason) (ret ()) else ret ()) (
      seq (record_event cfg p ''execution_replay_unresolved'' actor
             (request_fields q @ [(''pathway_state'', PStr (state_value current))]))
        (ret (unknown_result reason))))"

text \<open>
  The second \<open>try\<close>: an approved pathway is started, and an attempt that did not get its
  pathway running is removed from the ledger.
\<close>

definition start_or_discard ::
    "config \<Rightarrow> pystr \<Rightarrow> execution_request \<Rightarrow> pystr \<Rightarrow> (world, unit) py" where
  "start_or_discard cfg p q actor =
     handle is_exception
       (bnd (in_store (get_state p)) (\<lambda>current.
          if current = APPROVED then start_execution_pathway cfg p q actor
          else if current \<noteq> RUNNING then
            throw (Exn ValueError (str ''pathway must be approved or running, got '' @ state_value current))
          else ret ()))
       (\<lambda>exc. bnd (in_store (get_state p)) (\<lambda>st.
          if st \<noteq> RUNNING then seq (in_ledger (discard_started (attempt_id q))) (throw exc)
          else throw exc))"

text \<open>\<open>executor.execute(request)\<close>, logged before it runs.\<close>

definition log_dispatch :: "pystr \<Rightarrow> execution_request \<Rightarrow> pystr \<Rightarrow> (world, unit) py" where
  "log_dispatch p q actor = (\<lambda>w. (Inr (), w\<lparr>wdispatched :=
     \<lparr>dp_pathway = p, dp_attempt = attempt_id q, dp_actor = strip actor\<rparr> # wdispatched w\<rparr>))"

definition run_executor :: "executor \<Rightarrow> execution_request \<Rightarrow> (world, execution_result) py" where
  "run_executor ex q = handle is_exception (ex q)
     (\<lambda>exc. ret (unknown_result (str ''executor_exception:'' @ exn_name (exn_kind exc))))"

text \<open>
  Marking the outcome as unknown when its result cannot be stored; the value is the name of
  the exception when that fails too.
\<close>

definition mark_unknown :: "execution_request \<Rightarrow> pystr \<Rightarrow> (world, pystr option) py" where
  "mark_unknown q reason =
     handle (catches [SqliteError, KeyError])
       (seq (in_ledger (mark_result_persistence_unknown (attempt_id q) reason)) (ret None))
       (\<lambda>exc. ret (Some (exn_name (exn_kind exc))))"

definition unknown_fields :: "pystr \<Rightarrow> pystr option \<Rightarrow> (string \<times> pv) list" where
  "unknown_fields reason failure = [(''reason'', PStr reason),
     (''fallback_persisted'', PBool (failure = None)), (''fallback_failure'', opt_str failure)]"

text \<open>\<open>ledger.finish\<close> with its handler; \<open>Some r\<close> is the uncertain result returned instead.\<close>

definition persist_execution_result :: "config \<Rightarrow> pystr \<Rightarrow> execution_request \<Rightarrow> pystr
    \<Rightarrow> execution_result \<Rightarrow> (world, execution_result option) py" where
  "persist_execution_result cfg p q actor r =
     handle (catches [AttemptResultPersistenceError])
       (seq (in_ledger (finish (cenv cfg) (attempt_id q) r)) (ret None))
       (\<lambda>exc. let reason = str ''result_persistence_rejected:'' @ exn_name (exn_kind exc) in
          bnd (mark_unknown q reason) (\<lambda>failure.
          let uncertain = (case failure of None \<Rightarrow> reason
            | Some n \<Rightarrow> reason @ str '':fallback_persistence_failed:'' @ n) in
          seq (record_event cfg p ''execution_result_persistence_unknown'' actor
                 (request_fields q @ unknown_fields reason failure)) (
          seq (transition cfg p WRITE_STATUS_UNKNOWN actor uncertain)
            (ret (Some (unknown_result uncertain))))))"

definition dispatch_attempt :: "config \<Rightarrow> pystr \<Rightarrow> execution_request \<Rightarrow> pystr \<Rightarrow> executor
    \<Rightarrow> (world, execution_result) py" where
  "dispatch_attempt cfg p q actor ex =
     seq (log_dispatch p q actor) (
     bnd (run_executor ex q) (\<lambda>r.
     bnd (persist_execution_result cfg p q actor r) (\<lambda>uncertain. case uncertain of
       Some u \<Rightarrow> ret u
     | None \<Rightarrow>
         seq (record_event cfg p ''execution_result'' actor (request_fields q @ result_fields r)) (
         seq (finish_execution_pathway cfg p q actor r) (ret r)))))"

definition execute :: "config \<Rightarrow> pystr \<Rightarrow> execution_request \<Rightarrow> pystr \<Rightarrow> executor
    \<Rightarrow> (world, execution_result) py" where
  "execute cfg p q actor ex =
     bnd (in_store (get_definition (cenv cfg) p)) (\<lambda>d.
     seq (lift (authorize_execution_access d actor)) (
     seq (check_binding p q) (
     bnd (in_ledger (begin_attempt (cenv cfg) p q)) (\<lambda>(replayed, attempt).
       let run = seq (start_or_discard cfg p q actor) (dispatch_attempt cfg p q actor ex) in
       if \<not> replayed then run
       else case at_result attempt of
         Some doc \<Rightarrow>
           bnd (lift (result_from_doc (cenv cfg) doc)) (\<lambda>r.
           seq (finish_execution_pathway cfg p q actor r) (ret r))
       | None \<Rightarrow>
           bnd (in_store (get_state p)) (\<lambda>current.
           if current = APPROVED then seq (restart_attempt cfg p q actor) run
           else unresolved_replay cfg p q actor current)))))"

section \<open>Reconciliation\<close>

datatype reconciliation_status = VERIFIED_APPLIED | VERIFIED_NOT_APPLIED | UNRESOLVED

record reconciliation_result =
  rec_status :: reconciliation_status
  rec_evidence :: pdict
  rec_reason :: "pystr option"

type_synonym strategy =
  "execution_request \<Rightarrow> attempt_record \<Rightarrow> (world, reconciliation_result) py"

text \<open>The result that an observation stands for.\<close>

definition observed_result :: "reconciliation_result \<Rightarrow> execution_result" where
  "observed_result obs =
     (let ev = obj [(''reconciliation'', PDict (rec_evidence obs))];
          rb = (\<lambda>v. Some \<lparr>verified = v, observed = rec_evidence obs, readback_reason = rec_reason obs\<rparr>)
      in case rec_status obs of
        VERIFIED_APPLIED \<Rightarrow> \<lparr>status = SUCCEEDED, evidence = ev, readback = rb True,
          result_reason = rec_reason obs\<rparr>
      | VERIFIED_NOT_APPLIED \<Rightarrow> \<lparr>status = FAILED, evidence = ev, readback = rb True,
          result_reason = Some (reason_or (rec_reason obs) (str ''verified_not_applied''))\<rparr>
      | UNRESOLVED \<Rightarrow> \<lparr>status = STATUS_UNKNOWN, evidence = ev, readback = rb False,
          result_reason = Some (reason_or (rec_reason obs) (str ''reconciliation_unresolved''))\<rparr>)"

definition persist_reconciliation_result :: "config \<Rightarrow> pystr \<Rightarrow> execution_request \<Rightarrow> pystr
    \<Rightarrow> execution_result \<Rightarrow> (world, bool) py" where
  "persist_reconciliation_result cfg p q actor r =
     handle (catches [AttemptResultPersistenceError])
       (seq (in_ledger (finish (cenv cfg) (attempt_id q) r)) (ret True))
       (\<lambda>exc. let reason = str ''reconciliation_result_persistence_rejected:'' @ exn_name (exn_kind exc) in
          bnd (mark_unknown q reason) (\<lambda>failure.
          seq (record_event cfg p ''reconciliation_result_persistence_unknown'' actor
                 (request_fields q @ unknown_fields reason failure))
            (ret False)))"

definition finish_reconciliation_pathway :: "config \<Rightarrow> pystr \<Rightarrow> execution_request \<Rightarrow> pystr
    \<Rightarrow> execution_result \<Rightarrow> bool \<Rightarrow> (world, unit) py" where
  "finish_reconciliation_pathway cfg p q actor r replayed =
     bnd (in_store (get_state p)) (\<lambda>current.
     let target = (if status r = SUCCEEDED then COMPLETED else REPAIR_REQUIRED) in
     if current = target then ret ()
     else if current \<noteq> WRITE_STATUS_UNKNOWN then
       throw (Exn ValueError (str ''persisted reconciliation result conflicts with pathway state ''
         @ state_value current))
     else seq (lift (ensure_transition current target))
       (move cfg p current target ''reconciliation_result'' actor
          (request_fields q @ result_fields r @ [(''replayed'', PBool replayed)])))"

definition settle_observation :: "config \<Rightarrow> pystr \<Rightarrow> execution_request \<Rightarrow> pystr
    \<Rightarrow> reconciliation_result \<Rightarrow> (world, execution_result) py" where
  "settle_observation cfg p q actor obs =
     (let r = observed_result obs in
      if rec_status obs = UNRESOLVED then
        seq (record_event cfg p ''reconciliation_unresolved'' actor
               (request_fields q @ [(''evidence'', PDict (rec_evidence obs)),
                  (''reason'', opt_str (result_reason r))])) (ret r)
      else bnd (persist_reconciliation_result cfg p q actor r) (\<lambda>ok.
        if \<not> ok then ret (unknown_result
          (str ''reconciliation_result_persistence_rejected:AttemptResultPersistenceError''))
        else seq (finish_reconciliation_pathway cfg p q actor r False) (ret r)))"

definition reconcile :: "config \<Rightarrow> pystr \<Rightarrow> execution_request \<Rightarrow> pystr \<Rightarrow> strategy
    \<Rightarrow> (world, execution_result) py" where
  "reconcile cfg p q actor strat =
     bnd (in_store (get_definition (cenv cfg) p)) (\<lambda>d.
     seq (lift (authorize_reconciliation_access d actor)) (
     bnd (in_store (get_state p)) (\<lambda>current.
     if current \<notin> {WRITE_STATUS_UNKNOWN, COMPLETED, REPAIR_REQUIRED} then
       throw (Exn ValueError (str ''pathway is not reconcilable, got '' @ state_value current))
     else bnd (in_ledger (begin_attempt (cenv cfg) p q)) (\<lambda>(replayed, attempt).
       if \<not> replayed then
         seq (in_ledger (discard_started (attempt_id q)))
           (raise ValueError ''reconciliation requires an existing persisted attempt'')
       else
         let observe = bnd (strat q attempt) (settle_observation cfg p q actor) in
         case at_result attempt of
           None \<Rightarrow> observe
         | Some doc \<Rightarrow> bnd (lift (result_from_doc (cenv cfg) doc)) (\<lambda>r.
             if status r \<noteq> STATUS_UNKNOWN then
               seq (finish_reconciliation_pathway cfg p q actor r True) (ret r)
             else observe)))))"

text \<open>The stand-alone \<open>reconcile_started_attempt\<close> of \<open>reconciliation.py\<close>.\<close>

definition reconcile_started_attempt ::
    "config \<Rightarrow> pystr \<Rightarrow> execution_request \<Rightarrow> strategy \<Rightarrow> (world, execution_result) py" where
  "reconcile_started_attempt cfg p q strat =
     bnd (in_ledger (begin_attempt (cenv cfg) p q)) (\<lambda>(replayed, attempt).
     if \<not> replayed \<or> at_result attempt \<noteq> None then
       raise ValueError ''reconciliation requires an unresolved persisted attempt''
     else bnd (strat q attempt) (\<lambda>obs.
       seq (in_ledger (finish (cenv cfg) (attempt_id q) (observed_result obs)))
         (ret (observed_result obs))))"

section \<open>Repair\<close>

record compensation_record =
  cr_action :: pystr
  cr_authority :: pystr
  cr_outcome :: pystr
  cr_evidence :: pdict

definition compensation_to_dict :: "compensation_record \<Rightarrow> pdict res" where
  "compensation_to_dict c =
     (if strip (cr_action c) = [] \<or> strip (cr_authority c) = [] \<or> strip (cr_outcome c) = []
      then err ValueError ''compensation action, authority, and outcome are required''
      else Inr (obj [(''action'', PStr (cr_action c)), (''authority'', PStr (cr_authority c)),
        (''outcome'', PStr (cr_outcome c)), (''evidence'', PDict (cr_evidence c))]))"

text \<open>The prior attempt must be a failed one of this pathway.\<close>

definition require_failed_attempt :: "string \<Rightarrow> pystr \<Rightarrow> pystr \<Rightarrow> (world, unit) py" where
  "require_failed_attempt what p prior =
     bnd (in_ledger (get_attempt prior)) (\<lambda>a.
     if at_pathway_id a \<noteq> p \<or> at_result a = None then
       raise ValueError ''prior attempt is not a finished attempt for this pathway''
     else if at_status a \<noteq> status_value FAILED then
       raise ValueError (what @ '' requires a failed prior attempt'')
     else ret ())"

definition complete_repair :: "config \<Rightarrow> pystr \<Rightarrow> pystr \<Rightarrow> pystr \<Rightarrow> pdict \<Rightarrow> pystr
    \<Rightarrow> compensation_record option \<Rightarrow> (world, pathway_state) py" where
  "complete_repair cfg p actor prior repair_evidence reason compensation =
     (if strip prior = [] then raise ValueError ''prior_attempt_id is required''
      else if repair_evidence = [] then
        raise ValueError ''repair_evidence is required before ready_to_resume''
      else seq (require_failed_attempt ''repair'' p prior) (
        bnd (in_store (get_state p)) (\<lambda>current.
        bnd (in_store (get_definition (cenv cfg) p)) (\<lambda>d.
        seq (lift (ensure_transition current READY_TO_RESUME)) (
        seq (lift (authorize_transition d current READY_TO_RESUME actor)) (
        bnd (lift (case compensation of None \<Rightarrow> Inr PNone
          | Some c \<Rightarrow> rbind (compensation_to_dict c) (\<lambda>x. Inr (PDict x)))) (\<lambda>comp.
        seq (move cfg p current READY_TO_RESUME ''repair_completed'' actor
               [(''prior_attempt_id'', PStr prior), (''repair_evidence'', PDict repair_evidence),
                (''compensation'', comp), (''reason'', PStr reason)])
          (ret READY_TO_RESUME))))))))"

text \<open>The prior attempt that the latest completed repair names.\<close>

fun latest_repair :: "pdict list \<Rightarrow> pv res" where
  "latest_repair [] = Inr PNone"
| "latest_repair (e # es) =
     (if dget_none e (str ''event_type'') = PStr (str ''repair_completed'')
      then rbind (as_mapping (dget_default e (str ''payload'') (PDict []))) (\<lambda>payload.
        Inr (dget_none payload (str ''prior_attempt_id'')))
      else latest_repair es)"

definition require_new_attempt :: "pystr \<Rightarrow> (world, unit) py" where
  "require_new_attempt a = bnd
     (handle (catches [KeyError]) (seq (in_ledger (get_attempt a)) (ret True)) (\<lambda>_. ret False))
     (\<lambda>exists. if exists then raise ValueError ''next attempt identity already exists'' else ret ())"

definition resume :: "config \<Rightarrow> pystr \<Rightarrow> pystr \<Rightarrow> pystr \<Rightarrow> pystr \<Rightarrow> pystr
    \<Rightarrow> (world, pathway_state) py" where
  "resume cfg p actor prior next reason =
     (if strip prior = [] \<or> strip next = [] then
        raise ValueError ''prior_attempt_id and next_attempt_id are required''
      else if prior = next then raise ValueError ''resume requires a new attempt identity''
      else seq (require_failed_attempt ''resume'' p prior) (
        seq (require_new_attempt next) (
        bnd (in_store (events p)) (\<lambda>es.
        bnd (lift (latest_repair (rev es))) (\<lambda>repaired.
        if repaired \<noteq> PStr prior then
          raise ValueError ''resume prior_attempt_id must match the latest completed repair''
        else bnd (in_store (get_state p)) (\<lambda>current.
        bnd (in_store (get_definition (cenv cfg) p)) (\<lambda>d.
        seq (lift (ensure_transition current RUNNING)) (
        seq (lift (authorize_transition d current RUNNING actor)) (
        seq (move cfg p current RUNNING ''pathway_resumed'' actor
               [(''prior_attempt_id'', PStr prior), (''next_attempt_id'', PStr next),
                (''reason'', PStr reason)])
          (ret RUNNING))))))))))"

definition abort_with_residuals ::
    "config \<Rightarrow> pystr \<Rightarrow> pystr \<Rightarrow> pdict \<Rightarrow> pystr \<Rightarrow> (world, pathway_state) py" where
  "abort_with_residuals cfg p actor residuals reason =
     (if residuals = [] then raise ValueError ''residuals are required for residual closure''
      else
        bnd (in_store (get_state p)) (\<lambda>current.
        bnd (in_store (get_definition (cenv cfg) p)) (\<lambda>d.
        seq (lift (ensure_transition current ABORTED)) (
        if strip actor = [] \<or> actor \<noteq> residual_owner d then
          raise AuthorityError ''actor lacks residual_owner''
        else seq (move cfg p current ABORTED ''residual_closure'' actor
               [(''residual_owner'', PStr (residual_owner d)), (''residuals'', PDict residuals),
                (''reason'', PStr reason)])
          (ret ABORTED)))))"

end
