(* ===== verification/Rpr_System.thy ===== *)
theory Rpr_System
  imports Rpr_Execution
begin

text \<open>
  The abstract system that the runtime implements: a relation of atomic commits on the
  durable data (create a pathway, append an event, move a pathway along the state machine,
  start it, insert, update or discard an attempt, hand an attempt to an executor), with the
  invariants of the data proved once over the relation. Every method of the runtime is a
  sequence of such commits, whatever the storage faults and whatever the executor does.
\<close>

section \<open>What an event says\<close>

text \<open>The state a stored event says the pathway moved to.\<close>

definition event_target :: "pdict \<Rightarrow> pv" where
  "event_target d = (case dget_default d (str ''payload'') (PDict []) of
     PDict pl \<Rightarrow> dget_none pl (str ''to'') | _ \<Rightarrow> PNone)"

text \<open>The policy leaves the fields that the runtime reads back from its events alone.\<close>

definition policy_ok :: "redaction_policy \<Rightarrow> bool" where
  "policy_ok pol \<longleftrightarrow> list_all (\<lambda>k. \<not> sensitive pol (str k))
     [''to'', ''attempt_id'', ''next_attempt_id'', ''prior_attempt_id'']"

lemma default_policy_ok: "policy_ok default_policy"
  by (simp add: policy_ok_def default_policy_def sensitive_def default_sensitive_keys_def)
    (simp add: str_def casefold_def casefold_char_def)

lemma dget_dset_same: "dget (dset k v d) k' = (if k = k' then Some v else dget d k')"
  by (rule dget_dset)

lemma redact_items_other:
  "redact_items env pol depth b (obj xs) out = Inr (os, b') \<Longrightarrow> k \<notin> fst ` set xs \<Longrightarrow>
     dget os (str k) = dget out (str k)"
proof (induction xs arbitrary: b out)
  case (Cons x xs)
  obtain j v where x: "x = (j, v)" by (cases x)
  with Cons.prems Cons.IH show ?case
    by (auto simp: obj_simps rbind_eq_Inr dget_dset split: if_splits)
qed (simp add: obj_simps)

lemma redact_items_text:
  "redact_items env pol depth b (obj xs) out = Inr (os, b') \<Longrightarrow> distinct (map fst xs) \<Longrightarrow>
     (k, PStr s) \<in> set xs \<Longrightarrow> \<not> sensitive pol (str k) \<Longrightarrow> dget os (str k) = Some (PStr s)"
proof (induction xs arbitrary: b out)
  case (Cons x xs)
  obtain j v where x: "x = (j, v)" by (cases x)
  show ?case
  proof (cases "j = k")
    case True
    with Cons.prems(2,3) x have v: "v = PStr s" and k: "k \<notin> fst ` set xs" by force+
    from Cons.prems(1) True Cons.prems(4) obtain c out' where
      "redact_items env pol depth c (obj xs) out' = Inr (os, b')" "dget out' (str k) = Some (PStr s)"
      by (auto simp: x v obj_simps rbind_eq_Inr dget_dset split: if_splits)
    with redact_items_other [OF _ k] show ?thesis by metis
  next
    case False
    with Cons.prems x have "(k, PStr s) \<in> set xs" "distinct (map fst xs)" by auto
    with Cons.prems(1,4) Cons.IH x show ?thesis
      by (auto simp: obj_simps rbind_eq_Inr split: if_splits)
  qed
qed simp

lemma redact_dict:
  "redact env pol (PDict kvs) = Inr (PDict out) \<Longrightarrow>
     \<exists>b b'. redact_items env pol 1 b kvs [] = Inr (out, b')"
  by (auto simp: redact_def rbind_eq_Inr)

lemma redacted_text:
  assumes "redact env pol (PDict (obj xs)) = Inr (PDict out)" "distinct (map fst xs)"
    "(k, PStr s) \<in> set xs" "\<not> sensitive pol (str k)"
  shows "dget (sorted_items out) (str k) = Some (PStr s)"
proof -
  from redact_guarded(1) [OF assms(1)] have "distinct (map fst out)" by simp
  moreover from redact_dict [OF assms(1)] redact_items_text assms(2-4)
  have "dget out (str k) = Some (PStr s)" by blast
  ultimately show ?thesis by (simp add: dget_sorted_items)
qed

lemma redacted_absent:
  assumes "redact env pol (PDict (obj xs)) = Inr (PDict out)" "k \<notin> fst ` set xs"
  shows "dget (sorted_items out) (str k) = None"
proof -
  from redact_guarded(1) [OF assms(1)] have "distinct (map fst out)" by simp
  moreover from redact_dict [OF assms(1)] redact_items_other assms(2)
  have "dget out (str k) = None" by (metis dget_Nil)
  ultimately show ?thesis by (simp add: dget_sorted_items)
qed

section \<open>Events built for a pathway\<close>

text \<open>\<open>e\<close> was built for \<open>p\<close> on the last hash of the log and appended to it.\<close>

definition built :: "config \<Rightarrow> pystr \<Rightarrow> string \<Rightarrow> pystr \<Rightarrow> (string \<times> pv) list \<Rightarrow> evidence_event \<Rightarrow> bool" where
  "built cfg p ty actor xs e \<longleftrightarrow> ev_pathway_id e = p \<and> ev_type e = str ty \<and> ev_actor e = actor
     \<and> items_doc (ev_payload e) \<and> event_ok (cenv cfg) e
     \<and> redact (cenv cfg) (cpolicy cfg) (PDict (obj xs)) = Inr (PDict (ev_payload e))"

definition appends :: "evidence_event \<Rightarrow> world \<Rightarrow> world \<Rightarrow> bool" where
  "appends e w w' \<longleftrightarrow> ev_previous_hash e = latest_of (wstore w) (ev_pathway_id e)
     \<and> ev_hash e \<notin> er_hash ` set (event_rows (wstore w))
     \<and> find_row (ev_pathway_id e) (pathways (wstore w)) \<noteq> None
     \<and> event_rows (wstore w') = event_rows (wstore w) @ [new_event_row e]"

definition same_paths :: "world \<Rightarrow> world \<Rightarrow> bool" where
  "same_paths w w' \<longleftrightarrow> pathways (wstore w') = pathways (wstore w)"

definition same_log :: "world \<Rightarrow> world \<Rightarrow> bool" where
  "same_log w w' \<longleftrightarrow> attempts (wledger w') = attempts (wledger w) \<and> wdispatched w' = wdispatched w"

definition same_events :: "world \<Rightarrow> world \<Rightarrow> bool" where
  "same_events w w' \<longleftrightarrow> event_rows (wstore w') = event_rows (wstore w)"

definition same_data :: "world \<Rightarrow> world \<Rightarrow> bool" where
  "same_data w w' \<longleftrightarrow> same_paths w w' \<and> same_events w w' \<and> same_log w w'"

lemma same_data_refl [simp]: "same_data w w"
  by (simp add: same_data_def same_paths_def same_events_def same_log_def)

lemma same_data_tables: "same_data w w' \<Longrightarrow> tables (wstore w') = tables (wstore w)"
  by (simp add: same_data_def same_paths_def same_events_def tables_def)

lemma same_data_trans: "same_data u v \<Longrightarrow> same_data v w \<Longrightarrow> same_data u w"
  by (simp add: same_data_def same_paths_def same_events_def same_log_def)

lemma same_data_store: "tables s = tables (wstore w) \<Longrightarrow> same_data w (w\<lparr>wstore := s\<rparr>)"
  by (simp add: same_data_def same_paths_def same_events_def same_log_def tables_def)

lemma same_data_ledger: "attempts l = attempts (wledger w) \<Longrightarrow> same_data w (w\<lparr>wledger := l\<rparr>)"
  by (simp add: same_data_def same_paths_def same_events_def same_log_def)

lemma wp_partial [wp]:
  "wp (ret a) Q E = Q a" "wp (throw e) Q E = E e" "wp (raise k msg) Q E = E (Exn k (str msg))"
  by (auto simp: wp)

lemma wp_in_store: "wp (in_store m) Q E w \<longleftrightarrow>
    wp m (\<lambda>a s. Q a (w\<lparr>wstore := s\<rparr>)) (\<lambda>e s. E e (w\<lparr>wstore := s\<rparr>)) (wstore w)"
  by (simp add: in_store_def wp)

lemma wp_in_ledger: "wp (in_ledger m) Q E w \<longleftrightarrow>
    wp m (\<lambda>a l. Q a (w\<lparr>wledger := l\<rparr>)) (\<lambda>e l. E e (w\<lparr>wledger := l\<rparr>)) (wledger w)"
  by (simp add: in_ledger_def wp)

lemma wp_now: "wp (now cfg) Q E w \<longleftrightarrow> Q (iso_time (cenv cfg) (wtick w)) (w\<lparr>wtick := Suc (wtick w)\<rparr>)"
  by (simp add: now_def wp_def)

lemma wp_state:
  assumes "\<And>w' r. same_data w w' \<Longrightarrow> find_row p (pathways (wstore w)) = Some r \<Longrightarrow> Q (row_state r) w'"
    and "\<And>e w'. same_data w w' \<Longrightarrow> E e w'"
  shows "wp (in_store (get_state p)) Q E w"
  unfolding wp_in_store by (rule wp_get_state) (auto intro: assms same_data_store)

lemma wp_definition:
  assumes "\<And>w' r d. same_data w w' \<Longrightarrow> find_row p (pathways (wstore w)) = Some r \<Longrightarrow>
      definition_from_dict env (row_doc r) = Inr d \<Longrightarrow> Q d w'"
    and "\<And>e w'. same_data w w' \<Longrightarrow> E e w'"
  shows "wp (in_store (get_definition env p)) Q E w"
  unfolding wp_in_store by (rule wp_get_definition) (auto intro: assms same_data_store)

lemma wp_event_list:
  assumes "\<And>w'. same_data w w' \<Longrightarrow> Q (events_of (wstore w) p) w'"
    and "\<And>e w'. same_data w w' \<Longrightarrow> E e w'"
  shows "wp (in_store (events p)) Q E w"
  unfolding wp_in_store by (rule wp_events) (auto intro: assms same_data_store)

lemma wp_make_event:
  assumes "\<And>w' e. same_data w w' \<Longrightarrow> built cfg p ty actor xs e \<Longrightarrow>
      ev_previous_hash e = latest_of (wstore w) p \<Longrightarrow> Q e w'"
    and "\<And>e w'. same_data w w' \<Longrightarrow> E e w'"
  shows "wp (make_event cfg p ty actor xs) Q E w"
proof -
  have "wp (bnd (now cfg) (\<lambda>ts. lift (build_event (cenv cfg) (cpolicy cfg) ts p (str ty) actor
      (obj xs) (latest_of (wstore w) p)))) Q E w'" if "same_data w w'" for w'
  proof -
    let ?w = "w'\<lparr>wtick := Suc (wtick w')\<rparr>"
    let ?b = "build_event (cenv cfg) (cpolicy cfg) (iso_time (cenv cfg) (wtick w')) p (str ty) actor
      (obj xs) (latest_of (wstore w) p)"
    have s: "same_data w ?w"
      using that by (simp add: same_data_def same_paths_def same_events_def same_log_def)
    show ?thesis
    proof (cases ?b)
      case (Inl x)
      with s assms(2) show ?thesis by (simp add: wp wp_now)
    next
      case (Inr e)
      note f = build_event_fields [OF Inr] build_event_ok [OF Inr]
      have "built cfg p ty actor xs e" using f by (simp add: built_def)
      with Inr s f(5) assms(1) show ?thesis by (simp add: wp wp_now)
    qed
  qed
  then show ?thesis
    unfolding make_event_def wp wp_in_store
    by (intro wp_latest) (auto intro: assms same_data_store)
qed

lemma wp_record_event:
  assumes "\<And>w' e. built cfg p ty actor xs e \<Longrightarrow> appends e w w' \<Longrightarrow> same_paths w w' \<Longrightarrow>
      same_log w w' \<Longrightarrow> Q () w'"
    and "\<And>e w'. same_data w w' \<Longrightarrow> E e w'"
  shows "wp (record_event cfg p ty actor xs) Q E w"
  unfolding record_event_def wp
proof (rule wp_make_event)
  fix u e
  assume u: "same_data w u" and b: "built cfg p ty actor xs e"
    and prev: "ev_previous_hash e = latest_of (wstore w) p"
  note t = same_data_tables [OF u]
  show "wp (in_store (append_event (cenv cfg) e)) Q E u"
    unfolding wp_in_store
  proof (rule wp_append)
    show "items_doc (ev_payload e)" using b by (simp add: built_def)
  next
    fix s' :: store
    assume s: "pathways s' = pathways (wstore u)" "event_rows s' = event_rows (wstore u) @ [new_event_row e]"
      "ev_hash e \<notin> er_hash ` set (event_rows (wstore u))"
      "find_row (ev_pathway_id e) (pathways (wstore u)) \<noteq> None"
    have "appends e w (u\<lparr>wstore := s'\<rparr>)" "same_paths w (u\<lparr>wstore := s'\<rparr>)"
      "same_log w (u\<lparr>wstore := s'\<rparr>)"
      using s tables_simps(1,2) [OF t] prev b u
      by (auto simp: appends_def same_paths_def same_log_def built_def same_data_def)
    with b show "Q () (u\<lparr>wstore := s'\<rparr>)" by (blast intro: assms(1))
  next
    fix x and s' :: store
    assume "tables s' = tables (wstore u)"
    then show "E x (u\<lparr>wstore := s'\<rparr>)"
      using u by (blast intro: assms(2) same_data_trans same_data_store)
  qed
qed (rule assms(2))

lemma wp_move:
  assumes "\<And>w' e r. built cfg p ty actor
        ([(''from'', PStr (state_value current)), (''to'', PStr (state_value target))] @ xs) e \<Longrightarrow>
      appends e w w' \<Longrightarrow> find_row p (pathways (wstore w)) = Some r \<Longrightarrow> row_state r = current \<Longrightarrow>
      pathways (wstore w') = pathways (set_state p target (wstore w)) \<Longrightarrow> same_log w w' \<Longrightarrow> Q () w'"
    and "\<And>e w'. same_data w w' \<Longrightarrow> E e w'"
  shows "wp (move cfg p current target ty actor xs) Q E w"
  unfolding move_def wp
proof (rule wp_make_event)
  fix u e
  assume u: "same_data w u" and b: "built cfg p ty actor
        ([(''from'', PStr (state_value current)), (''to'', PStr (state_value target))] @ xs) e"
    and prev: "ev_previous_hash e = latest_of (wstore w) p"
  note t = same_data_tables [OF u]
  show "wp (in_store (transition_with_event (cenv cfg) p current target e)) Q E u"
    unfolding wp_in_store
  proof (rule wp_transition)
    show "items_doc (ev_payload e)" using b by (simp add: built_def)
  next
    fix s' :: store and r
    assume s: "find_row p (pathways (wstore u)) = Some r" "row_state r = current"
      "pathways s' = pathways (set_state p target (wstore u))"
      "event_rows s' = event_rows (wstore u) @ [new_event_row e]"
      "ev_hash e \<notin> er_hash ` set (event_rows (wstore u))"
      "find_row (ev_pathway_id e) (pathways (wstore u)) \<noteq> None"
    have ps: "pathways (wstore (u\<lparr>wstore := s'\<rparr>)) = pathways (set_state p target (wstore w))"
      using s(3) tables_simps(1) [OF t] by (simp add: set_state_def)
    have ap: "appends e w (u\<lparr>wstore := s'\<rparr>)" and l: "same_log w (u\<lparr>wstore := s'\<rparr>)"
      using s tables_simps(1,2) [OF t] prev b u
      by (auto simp: appends_def same_log_def built_def same_data_def)
    have r: "find_row p (pathways (wstore w)) = Some r"
      using s(1) tables_simps(1) [OF t] by simp
    show "Q () (u\<lparr>wstore := s'\<rparr>)" by (rule assms(1) [OF b ap r s(2) ps l])
  next
    fix x and s' :: store
    assume "tables s' = tables (wstore u)"
    then show "E x (u\<lparr>wstore := s'\<rparr>)"
      using u by (blast intro: assms(2) same_data_trans same_data_store)
  qed
qed (rule assms(2))

end
