(* ===== verification/Rpr_Commits.thy ===== *)
theory Rpr_Commits
  imports Rpr_System
begin

text \<open>
  The abstract specification of the runtime: the relation \<open>commit\<close> of atomic changes to the
  durable data, and the invariants that every commit preserves.
\<close>

section \<open>Commits\<close>

text \<open>The approval of a pathway in its log: an event to \<open>approved\<close> by the named authority.\<close>

definition approval_event :: "pathway_definition \<Rightarrow> pdict \<Rightarrow> bool" where
  "approval_event d e \<longleftrightarrow> event_target e = PStr (state_value APPROVED)
     \<and> (\<exists>a. dget_none e (str ''actor'') = PStr a \<and> approval_authority d = Some (strip a))"

fun past_approval :: "pathway_state \<Rightarrow> bool" where
  "past_approval PROPOSED = False"
| "past_approval AWAITING_APPROVAL = False"
| "past_approval HELD = False"
| "past_approval HUMAN_GATE = False"
| "past_approval DENIED = False"
| "past_approval ABORTED = False"
| "past_approval _ = True"

lemma to_past_approval:
  "t \<in> set (allowed_transitions s) \<Longrightarrow> past_approval t \<Longrightarrow> t = APPROVED \<or> past_approval s"
  by (cases s) auto

definition definition_of :: "config \<Rightarrow> pathway_row \<Rightarrow> pathway_definition option" where
  "definition_of cfg r = (case definition_from_dict (cenv cfg) (row_doc r) of
     Inl _ \<Rightarrow> None | Inr d \<Rightarrow> Some d)"

definition bound_to :: "world \<Rightarrow> pystr \<Rightarrow> pystr \<Rightarrow> bool" where
  "bound_to w p a \<longleftrightarrow> running_attempt (rev (events_of (wstore w) p)) = Inr a"

inductive commit :: "config \<Rightarrow> world \<Rightarrow> world \<Rightarrow> bool" for cfg where
  idle: "same_data w w' \<Longrightarrow> commit cfg w w'"
| create: "\<lbrakk>find_key (row_key r) (pathways (wstore w)) = None;
     find_row (row_id r) (pathways (wstore w)) = None;
     pathways (wstore w') = pathways (wstore w) @ [r]; same_events w w'; same_log w w';
     before_run (row_state r);
     row_state r = APPROVED \<Longrightarrow> \<exists>d. definition_of cfg r = Some d \<and> approval_authority d = None\<rbrakk>
   \<Longrightarrow> commit cfg w w'"
| event: "\<lbrakk>built cfg p ty actor xs e; ''to'' \<notin> fst ` set xs; appends e w w'; same_paths w w';
     same_log w w'\<rbrakk> \<Longrightarrow> commit cfg w w'"
| move: "\<lbrakk>built cfg p ty actor ([(''from'', PStr (state_value (row_state r))),
       (''to'', PStr (state_value t))] @ xs) e; distinct (''from'' # ''to'' # map fst xs);
     appends e w w'; find_row p (pathways (wstore w)) = Some r;
     t \<in> set (allowed_transitions (row_state r)); t \<noteq> RUNNING;
     t = APPROVED \<Longrightarrow> \<exists>d. definition_of cfg r = Some d \<and> approval_authority d = Some (strip actor);
     pathways (wstore w') = pathways (set_state p t (wstore w)); same_log w w'\<rbrakk>
   \<Longrightarrow> commit cfg w w'"
| start: "\<lbrakk>built cfg p ty actor ([(''from'', PStr (state_value (row_state r))),
       (''to'', PStr (state_value RUNNING))] @ xs) e; distinct (''from'' # ''to'' # map fst xs);
     (ty, k) \<in> {(''execution_started'', ''attempt_id''), (''pathway_resumed'', ''next_attempt_id'')};
     (k, PStr a) \<in> set xs; \<not> blank a;
     appends e w w'; find_row p (pathways (wstore w)) = Some r;
     RUNNING \<in> set (allowed_transitions (row_state r));
     pathways (wstore w') = pathways (set_state p RUNNING (wstore w)); same_log w w'\<rbrakk>
   \<Longrightarrow> commit cfg w w'"
| insert: "\<lbrakk>select_attempt (attempt_id q) p (idempotency_key q) (attempts (wledger w)) = None;
     attempts (wledger w') = attempts (wledger w) @ [started_record p q fp];
     same_paths w w'; same_events w w'; wdispatched w' = wdispatched w\<rbrakk> \<Longrightarrow> commit cfg w w'"
| update: "\<lbrakk>attempts (wledger w') = map (set_result a st doc) (attempts (wledger w));
     same_paths w w'; same_events w w'; wdispatched w' = wdispatched w\<rbrakk> \<Longrightarrow> commit cfg w w'"
| discard: "\<lbrakk>a \<notin> dp_attempt ` set (wdispatched w);
     attempts (wledger w') = filter (\<lambda>r. \<not> discardable a r) (attempts (wledger w));
     same_paths w w'; same_events w w'; wdispatched w' = wdispatched w\<rbrakk> \<Longrightarrow> commit cfg w w'"
| dispatch: "\<lbrakk>dp_attempt d \<notin> dp_attempt ` set (wdispatched w);
     find_attempt (dp_attempt d) (attempts (wledger w)) = Some att; at_pathway_id att = dp_pathway d;
     at_result att = None;
     find_row (dp_pathway d) (pathways (wstore w)) = Some r; row_state r = RUNNING;
     bound_to w (dp_pathway d) (dp_attempt d);
     definition_of cfg r = Some def; dp_actor d = execution_actor def;
     wdispatched w' = d # wdispatched w; attempts (wledger w') = attempts (wledger w);
     same_paths w w'; same_events w w'\<rbrakk> \<Longrightarrow> commit cfg w w'"

abbreviation steps :: "config \<Rightarrow> world \<Rightarrow> world \<Rightarrow> bool" where
  "steps cfg \<equiv> (commit cfg)\<^sup>*\<^sup>*"

section \<open>The invariant\<close>

definition chains_ok :: "config \<Rightarrow> world \<Rightarrow> bool" where
  "chains_ok cfg w \<longleftrightarrow> (\<forall>p. chained (cenv cfg) None (events_of (wstore w) p))"

definition bindings_ok :: "world \<Rightarrow> bool" where
  "bindings_ok w \<longleftrightarrow> (\<forall>r \<in> set (pathways (wstore w)). row_state r = RUNNING \<longrightarrow>
     (\<exists>a. bound_to w (row_id r) a))"

definition dispatch_ok :: "config \<Rightarrow> world \<Rightarrow> dispatch \<Rightarrow> bool" where
  "dispatch_ok cfg w d \<longleftrightarrow>
     (\<exists>att \<in> set (attempts (wledger w)). at_attempt_id att = dp_attempt d \<and> at_pathway_id att = dp_pathway d)
   \<and> (\<exists>r \<in> set (pathways (wstore w)). row_id r = dp_pathway d \<and> \<not> before_run (row_state r)
        \<and> (\<exists>def. definition_of cfg r = Some def \<and> dp_actor d = execution_actor def
             \<and> (approval_authority def = None
                \<or> (\<exists>e \<in> set (events_of (wstore w) (dp_pathway d)). approval_event def e))))"

definition dispatches_ok :: "config \<Rightarrow> world \<Rightarrow> bool" where
  "dispatches_ok cfg w \<longleftrightarrow> distinct (map dp_attempt (wdispatched w))
     \<and> (\<forall>d \<in> set (wdispatched w). dispatch_ok cfg w d)"

definition approvals_ok :: "config \<Rightarrow> world \<Rightarrow> bool" where
  "approvals_ok cfg w \<longleftrightarrow> (\<forall>r \<in> set (pathways (wstore w)). \<forall>d. definition_of cfg r = Some d \<longrightarrow>
     past_approval (row_state r) \<longrightarrow> approval_authority d = None
       \<or> (\<exists>e \<in> set (events_of (wstore w) (row_id r)). approval_event d e))"

definition inv :: "config \<Rightarrow> world \<Rightarrow> bool" where
  "inv cfg w \<longleftrightarrow> store_ok (wstore w) \<and> attempts_ok (attempts (wledger w)) \<and> chains_ok cfg w
     \<and> bindings_ok w \<and> dispatches_ok cfg w \<and> approvals_ok cfg w"

section \<open>Events and the parts of the invariant\<close>

lemma stored_payload: "dget_default (stored_event e) (str ''payload'') v = PDict (sorted_items (ev_payload e))"
  using stored_event_fields(4) [of e]
  by (simp add: dget_none_def dget_default_def split: option.splits)

lemma event_target_stored:
  "event_target (stored_event e) = dget_none (sorted_items (ev_payload e)) (str ''to'')"
  by (simp add: event_target_def stored_payload)

lemma built_absent: "built cfg p ty actor xs e \<Longrightarrow> k \<notin> fst ` set xs \<Longrightarrow>
    dget_none (sorted_items (ev_payload e)) (str k) = PNone"
  using redacted_absent [of "cenv cfg" "cpolicy cfg" xs "ev_payload e" k]
  by (simp add: built_def dget_none_def)

lemma built_text: "built cfg p ty actor xs e \<Longrightarrow> distinct (map fst xs) \<Longrightarrow> (k, PStr s) \<in> set xs \<Longrightarrow>
    \<not> sensitive (cpolicy cfg) (str k) \<Longrightarrow>
    dget_none (sorted_items (ev_payload e)) (str k) = PStr s"
  using redacted_text [of "cenv cfg" "cpolicy cfg" xs "ev_payload e" k s]
  by (simp add: built_def dget_none_def)

lemma built_fields:
  assumes "built cfg p ty actor xs e"
  shows "ev_pathway_id e = p" "dget_none (stored_event e) (str ''event_type'') = PStr (str ty)"
    "dget_none (stored_event e) (str ''actor'') = PStr actor" "event_ok (cenv cfg) e"
  using assms
  by (simp_all add: built_def) (simp add: dget_none_def dget_stored_event event_to_dict_def)

lemma running_attempt_skip:
  assumes "event_target d \<noteq> PStr (state_value RUNNING)"
    "\<exists>pl. dget_default d (str ''payload'') (PDict []) = PDict pl"
  shows "running_attempt (d # ds) = running_attempt ds"
  using assms by (auto simp: event_target_def as_mapping_def)

lemma running_attempt_binding:
  assumes b: "built cfg p ty actor xs e" and d: "distinct (map fst xs)"
    and xs: "(''to'', PStr (state_value RUNNING)) \<in> set xs" "(k, PStr a) \<in> set xs" "\<not> blank a"
    and pol: "policy_ok (cpolicy cfg)"
    and k: "(ty, k) \<in> {(''execution_started'', ''attempt_id''), (''pathway_resumed'', ''next_attempt_id'')}"
  shows "running_attempt (stored_event e # ds) = Inr a"
proof -
  have ns: "\<not> sensitive (cpolicy cfg) (str ''to'')" "\<not> sensitive (cpolicy cfg) (str k)"
    using pol k by (auto simp: policy_ok_def)
  have "dget_none (sorted_items (ev_payload e)) (str ''to'') = PStr (state_value RUNNING)"
    "dget_none (sorted_items (ev_payload e)) (str k) = PStr a"
    using built_text [OF b d] xs ns by blast+
  with k xs(3) built_fields(2) [OF b] show ?thesis
    by (auto simp: stored_payload as_mapping_def)
qed

text \<open>The part of the invariant that concerns the evidence, which depends on the store only.\<close>

definition log_ok :: "config \<Rightarrow> world \<Rightarrow> bool" where
  "log_ok cfg w \<longleftrightarrow> store_ok (wstore w) \<and> chains_ok cfg w"

lemma inv_log: "inv cfg w \<Longrightarrow> log_ok cfg w"
  by (simp add: inv_def log_ok_def)

lemma log_ok_store: "wstore w' = wstore w \<Longrightarrow> log_ok cfg w' = log_ok cfg w"
  by (simp add: log_ok_def chains_ok_def)

lemma log_ok_chains:
  assumes "log_ok cfg w" "appends e w w'" "event_ok (cenv cfg) e"
  shows "chains_ok cfg w'"
proof -
  have ok: "store_ok (wstore w)" "\<And>p. chained (cenv cfg) None (events_of (wstore w) p)"
    using assms(1) by (simp_all add: log_ok_def chains_ok_def)
  have "ev_previous_hash e = last_hash (cenv cfg) (events_of (wstore w) (ev_pathway_id e))"
    using assms(2) latest_is_last_hash [OF ok(1)] by (simp add: appends_def)
  with ok(2) assms(3) have "chained (cenv cfg) None
      (events_of (wstore w) (ev_pathway_id e) @ [stored_event e])"
    by (rule chained_snoc_stored)
  moreover have "events_of (wstore w') p = (if p = ev_pathway_id e
      then events_of (wstore w) p @ [stored_event e] else events_of (wstore w) p)" for p
    using assms(2) by (intro events_of_snoc) (simp add: appends_def)
  ultimately show ?thesis using ok(2) by (simp add: chains_ok_def)
qed

lemmas appends_chains = log_ok_chains [OF inv_log]

lemma log_ok_rows:
  assumes "log_ok cfg w" "appends e w w'" "map row_id (pathways (wstore w')) = map row_id (pathways (wstore w))"
    "map row_key (pathways (wstore w')) = map row_key (pathways (wstore w))"
  shows "store_ok (wstore w')"
proof -
  have ok: "store_ok (wstore w)" using assms(1) by (simp add: log_ok_def)
  from assms(2) have a: "event_rows (wstore w') = event_rows (wstore w) @ [new_event_row e]"
    "ev_hash e \<notin> er_hash ` set (event_rows (wstore w))"
    "find_row (ev_pathway_id e) (pathways (wstore w)) \<noteq> None"
    unfolding appends_def by blast+
  show ?thesis by (rule store_ok_event [OF ok assms(3,4) a])
qed

lemmas appends_store = log_ok_rows [OF inv_log]

lemma appends_events:
  assumes "appends e w w'"
  shows "events_of (wstore w') p =
    (if p = ev_pathway_id e then events_of (wstore w) p @ [stored_event e] else events_of (wstore w) p)"
  using assms by (intro events_of_snoc) (simp add: appends_def)

lemma same_events_of: "same_events w w' \<Longrightarrow> events_of (wstore w') p = events_of (wstore w) p"
  by (simp add: same_events_def events_of_def rows_of_def)

lemma appends_bound:
  assumes "appends e w w'" "event_target (stored_event e) \<noteq> PStr (state_value RUNNING)"
  shows "bound_to w' p a \<longleftrightarrow> bound_to w p a"
  using running_attempt_skip [OF assms(2)]
  by (simp add: bound_to_def appends_events [OF assms(1)] stored_payload)

text \<open>The rows after a change of state.\<close>

lemma set_state_row:
  assumes "r' \<in> set (pathways (set_state p t s))"
  obtains r where "r \<in> set (pathways s)" "row_id r' = row_id r" "row_doc r' = row_doc r"
    "row_state r' = (if row_id r = p then t else row_state r)"
  using assms by (auto simp: set_state_def split: if_splits)

lemma definition_of_doc: "row_doc r' = row_doc r \<Longrightarrow> definition_of cfg r' = definition_of cfg r"
  by (simp add: definition_of_def)

lemma unique_row:
  "store_ok s \<Longrightarrow> find_row p (pathways s) = Some r \<Longrightarrow> r' \<in> set (pathways s) \<Longrightarrow> row_id r' = p \<Longrightarrow> r' = r"
  by (auto simp: store_ok_def distinct_map inj_on_def dest!: find_row_Some)

lemma dispatch_ok_set_state:
  assumes "dispatch_ok cfg w d" "attempts (wledger w') = attempts (wledger w)"
    "find_row p (pathways (wstore w)) = Some r" "store_ok (wstore w)"
    "t \<in> set (allowed_transitions (row_state r))"
    "pathways (wstore w') = pathways (set_state p t (wstore w))" "appends e w w'"
  shows "dispatch_ok cfg w' d"
proof -
  from assms(1) obtain x def where x: "x \<in> set (pathways (wstore w))" "row_id x = dp_pathway d"
    "\<not> before_run (row_state x)" "definition_of cfg x = Some def" "dp_actor d = execution_actor def"
    and app: "approval_authority def = None
      \<or> (\<exists>e \<in> set (events_of (wstore w) (dp_pathway d)). approval_event def e)"
    by (auto simp: dispatch_ok_def)
  have app': "approval_authority def = None
      \<or> (\<exists>e \<in> set (events_of (wstore w') (dp_pathway d)). approval_event def e)"
    using app appends_events [OF assms(7)] by auto
  let ?x = "if row_id x = p then x\<lparr>row_state := t\<rparr> else x"
  have "?x \<in> set (pathways (wstore w'))" using x(1) assms(6) by (auto simp: set_state_def)
  moreover have "\<not> before_run (row_state ?x)"
    using x(1,3) unique_row [OF assms(4,3)] assms(5) to_before_run by auto
  moreover have "row_id ?x = dp_pathway d" "definition_of cfg ?x = Some def"
    using x by (simp_all add: definition_of_def)
  ultimately have "\<exists>r \<in> set (pathways (wstore w')). row_id r = dp_pathway d
      \<and> \<not> before_run (row_state r)
      \<and> (\<exists>def. definition_of cfg r = Some def \<and> dp_actor d = execution_actor def
          \<and> (approval_authority def = None
             \<or> (\<exists>e \<in> set (events_of (wstore w') (dp_pathway d)). approval_event def e)))"
    using x(5) app' by blast
  with assms(1,2) show ?thesis by (simp add: dispatch_ok_def)
qed


section \<open>Every commit preserves the invariant\<close>

lemma bindings_set_state:
  assumes "bindings_ok w" "appends e w w'" "ev_pathway_id e = p"
    "event_target (stored_event e) \<noteq> PStr (state_value RUNNING)" "t \<noteq> RUNNING"
    "pathways (wstore w') = pathways (set_state p t (wstore w))"
  shows "bindings_ok w'"
  unfolding bindings_ok_def
proof (intro ballI impI)
  fix r' assume r': "r' \<in> set (pathways (wstore w'))" "row_state r' = RUNNING"
  with assms(5,6) obtain r where "r \<in> set (pathways (wstore w))" "row_id r' = row_id r"
    "row_state r = RUNNING"
    by (metis set_state_row)
  with assms(1) show "\<exists>a. bound_to w' (row_id r') a"
    by (simp add: bindings_ok_def appends_bound [OF assms(2,4)])
qed

lemma approvals_set_state:
  assumes ok: "approvals_ok cfg w" "store_ok (wstore w)" and e: "appends e w w'" "ev_pathway_id e = p"
    and r: "find_row p (pathways (wstore w)) = Some r" "t \<in> set (allowed_transitions (row_state r))"
    and app: "t = APPROVED \<Longrightarrow> \<exists>d. definition_of cfg r = Some d \<and> approval_event d (stored_event e)"
    and w': "pathways (wstore w') = pathways (set_state p t (wstore w))"
  shows "approvals_ok cfg w'"
  unfolding approvals_ok_def
proof (intro ballI allI impI)
  fix x' d assume x': "x' \<in> set (pathways (wstore w'))" "definition_of cfg x' = Some d"
    "past_approval (row_state x')"
  from x'(1) w' obtain x where x: "x \<in> set (pathways (wstore w))" "row_id x' = row_id x"
    "row_doc x' = row_doc x" "row_state x' = (if row_id x = p then t else row_state x)"
    by (metis set_state_row)
  have dx: "definition_of cfg x = Some d" using x'(2) definition_of_doc [OF x(3)] by metis
  have evs: "set (events_of (wstore w) q) \<subseteq> set (events_of (wstore w') q)" for q
    by (auto simp: appends_events [OF e(1)])
  show "approval_authority d = None \<or>
    (\<exists>y \<in> set (events_of (wstore w') (row_id x')). approval_event d y)"
  proof (cases "row_id x = p \<and> t = APPROVED")
    case True
    then have "x = r" using unique_row [OF ok(2) r(1) x(1)] by simp
    with app True dx have "approval_event d (stored_event e)" by auto
    moreover have "stored_event e \<in> set (events_of (wstore w') (row_id x'))"
      using True x(2) e(2) by (simp add: appends_events [OF e(1)])
    ultimately show ?thesis by blast
  next
    case False
    have "past_approval (row_state x)"
      using x'(3) x(4) False to_past_approval [OF r(2)] unique_row [OF ok(2) r(1) x(1)]
      by (auto split: if_splits)
    with ok(1) x(1) dx have "approval_authority d = None \<or>
      (\<exists>y \<in> set (events_of (wstore w) (row_id x)). approval_event d y)"
      by (simp add: approvals_ok_def)
    with evs x(2) show ?thesis by auto
  qed
qed

lemma approvals_same_paths:
  assumes "approvals_ok cfg w" "pathways (wstore w') = pathways (wstore w)"
    "\<And>p. set (events_of (wstore w) p) \<subseteq> set (events_of (wstore w') p)"
  shows "approvals_ok cfg w'"
  using assms(1,3) unfolding approvals_ok_def assms(2) by blast

lemma dispatches_mono:
  assumes "dispatches_ok cfg w" "wdispatched w' = wdispatched w"
    "\<And>d. dispatch_ok cfg w d \<Longrightarrow> dispatch_ok cfg w' d"
  shows "dispatches_ok cfg w'"
  using assms by (simp add: dispatches_ok_def)

lemma dispatch_ok_ledger:
  assumes "dispatch_ok cfg w d" "same_paths w w'" "same_events w w'"
    "\<And>r. r \<in> set (attempts (wledger w)) \<Longrightarrow> at_attempt_id r = dp_attempt d \<Longrightarrow>
       \<exists>r' \<in> set (attempts (wledger w')). at_attempt_id r' = at_attempt_id r \<and>
         at_pathway_id r' = at_pathway_id r"
  shows "dispatch_ok cfg w' d"
proof -
  from assms(1) obtain x where "x \<in> set (attempts (wledger w))" "at_attempt_id x = dp_attempt d"
    "at_pathway_id x = dp_pathway d" by (auto simp: dispatch_ok_def)
  with assms(4) have "\<exists>att \<in> set (attempts (wledger w')). at_attempt_id att = dp_attempt d
    \<and> at_pathway_id att = dp_pathway d" by metis
  with assms(1,2) show ?thesis
    by (simp add: dispatch_ok_def same_paths_def same_events_of [OF assms(3)])
qed

lemma dispatch_ok_same:
  assumes "dispatch_ok cfg w d" "same_paths w w'" "same_log w w'"
    "\<And>p. set (events_of (wstore w) p) \<subseteq> set (events_of (wstore w') p)"
  shows "dispatch_ok cfg w' d"
  using assms(1) unfolding dispatch_ok_def assms(2) [unfolded same_paths_def]
    assms(3) [unfolded same_log_def, THEN conjunct1]
  using assms(4) by blast

lemma inv_parts:
  assumes "inv cfg w"
  shows "store_ok (wstore w)" "attempts_ok (attempts (wledger w))" "chains_ok cfg w" "bindings_ok w"
    "dispatches_ok cfg w" "approvals_ok cfg w"
  using assms by (simp_all add: inv_def)

lemma same_log_parts:
  assumes "same_log w w'"
  shows "attempts (wledger w') = attempts (wledger w)" "wdispatched w' = wdispatched w"
  using assms by (simp_all add: same_log_def)

lemma inv_ledger:
  assumes "inv cfg w" "same_paths w w'" "same_events w w'" "wdispatched w' = wdispatched w"
    "attempts_ok (attempts (wledger w'))"
    "\<And>d. dispatch_ok cfg w d \<Longrightarrow> d \<in> set (wdispatched w) \<Longrightarrow> dispatch_ok cfg w' d"
  shows "inv cfg w'"
proof -
  have t: "tables (wstore w') = tables (wstore w)"
    using assms(2,3) by (simp add: same_paths_def same_events_def tables_def)
  note ev = same_events_of [OF assms(3)] and ps = assms(2) [unfolded same_paths_def]
  have "dispatches_ok cfg w'"
    using assms(1,4,6) by (auto simp: inv_def dispatches_ok_def)
  with assms(1,5) store_ok_tables [OF t] show ?thesis
    by (simp add: inv_def chains_ok_def bindings_ok_def bound_to_def approvals_ok_def ev ps)
qed

lemma commit_inv:
  assumes "commit cfg w w'" "inv cfg w" "policy_ok (cpolicy cfg)"
  shows "inv cfg w'"
  using assms(1)
proof cases
  case idle
  then have d: "same_paths w w'" "same_events w w'" "same_log w w'" by (simp_all add: same_data_def)
  show ?thesis
    using inv_parts(2) [OF assms(2)] same_log_parts [OF d(3)] dispatch_ok_same [OF _ d(1,3)]
      same_events_of [OF d(2)]
    by (intro inv_ledger [OF assms(2) d(1,2)]) simp_all
next
  case (create r)
  have ev: "events_of (wstore w') p = events_of (wstore w) p" for p
    using create(4) by (rule same_events_of)
  have "store_ok (wstore w')"
  proof (rule store_ok_row [OF _ create(1,2) _ create(3)])
    show "store_ok (wstore w)" using assms(2) by (simp add: inv_def)
    show "event_rows (wstore w') = event_rows (wstore w)" using create(4) by (simp add: same_events_def)
  qed
  moreover have "bindings_ok w'"
    using create(3,6) assms(2) by (auto simp: bindings_ok_def bound_to_def ev inv_def)
  moreover have "approvals_ok cfg w'"
    using create(3,6,7) assms(2) by (cases "row_state r") (auto simp: approvals_ok_def ev inv_def)
  moreover have "dispatches_ok cfg w'"
  proof (rule dispatches_mono [OF inv_parts(5) [OF assms(2)] same_log_parts(2) [OF create(5)]])
    fix d assume "dispatch_ok cfg w d"
    then show "dispatch_ok cfg w' d"
      using create(3) same_log_parts(1) [OF create(5)] by (auto simp: dispatch_ok_def ev)
  qed
  ultimately show ?thesis
    using assms(2) create(5) by (simp add: inv_def chains_ok_def ev same_log_def)
next
  case (event p ty actor xs e)
  note b = built_fields [OF event(1)]
  have tgt: "event_target (stored_event e) \<noteq> PStr (state_value RUNNING)"
    using built_absent [OF event(1,2)] by (simp add: event_target_stored)
  have ps: "pathways (wstore w') = pathways (wstore w)" using event(4) by (simp add: same_paths_def)
  have "bindings_ok w'"
    using assms(2) by (simp add: inv_def bindings_ok_def ps appends_bound [OF event(3) tgt])
  moreover have "approvals_ok cfg w'"
    using assms(2) by (intro approvals_same_paths [OF _ ps])
      (auto simp: inv_def appends_events [OF event(3)])
  moreover have "dispatches_ok cfg w'"
    by (rule dispatches_mono [OF inv_parts(5) [OF assms(2)] same_log_parts(2) [OF event(5)]])
      (rule dispatch_ok_same [OF _ event(4,5)], auto simp: appends_events [OF event(3)])
  ultimately show ?thesis
    using assms(2) event(5) appends_chains [OF assms(2) event(3) b(4)]
      appends_store [OF assms(2) event(3)]
    by (simp add: inv_def ps same_log_def)
next
  case (move p ty actor r t xs e)
  let ?xs = "[(''from'', PStr (state_value (row_state r))), (''to'', PStr (state_value t))] @ xs"
  note b = built_fields [OF move(1)]
  have dist: "distinct (map fst ?xs)" using move(2) by simp
  have "dget_none (sorted_items (ev_payload e)) (str ''to'') = PStr (state_value t)"
    using assms(3) by (intro built_text [OF move(1) dist]) (simp_all add: policy_ok_def)
  then have tgt: "event_target (stored_event e) = PStr (state_value t)"
    by (simp add: event_target_stored)
  have so: "store_ok (wstore w)" using assms(2) by (simp add: inv_def)
  have "bindings_ok w'"
  proof (rule bindings_set_state [OF inv_parts(4) [OF assms(2)] move(3) b(1) _ move(6,8)])
    show "event_target (stored_event e) \<noteq> PStr (state_value RUNNING)"
      using tgt move(6) by (simp del: state_value.simps)
  qed
  moreover have "approvals_ok cfg w'"
  proof (rule approvals_set_state [OF _ so move(3) b(1) move(4,5) _ move(8)])
    show "approvals_ok cfg w" using assms(2) by (simp add: inv_def)
    show "\<exists>d. definition_of cfg r = Some d \<and> approval_event d (stored_event e)" if "t = APPROVED"
      using move(7) [OF that] b(3) tgt that by (auto simp: approval_event_def)
  qed
  moreover have "dispatches_ok cfg w'"
    by (rule dispatches_mono [OF inv_parts(5) [OF assms(2)] same_log_parts(2) [OF move(9)]])
      (rule dispatch_ok_set_state [OF _ same_log_parts(1) [OF move(9)] move(4) so move(5,8,3)])
  ultimately show ?thesis
    using assms(2) move(8,9) appends_chains [OF assms(2) move(3) b(4)]
      appends_store [OF assms(2) move(3)]
    by (simp add: inv_def same_log_def)
next
  case (start p ty actor r xs e k a)
  let ?xs = "[(''from'', PStr (state_value (row_state r))), (''to'', PStr (state_value RUNNING))] @ xs"
  note b = built_fields [OF start(1)]
  have dist: "distinct (map fst ?xs)" using start(2) by simp
  have bind: "bound_to w' p a"
  proof -
    have "running_attempt (stored_event e # ds) = Inr a" for ds
      using start(4,5) by (intro running_attempt_binding [OF start(1) dist _ _ _ assms(3) start(3)]) auto
    then show ?thesis by (simp add: bound_to_def appends_events [OF start(6)] b(1))
  qed
  have so: "store_ok (wstore w)" using assms(2) by (simp add: inv_def)
  have "bindings_ok w'"
    unfolding bindings_ok_def
  proof (intro ballI impI)
    fix x' assume x': "x' \<in> set (pathways (wstore w'))" "row_state x' = RUNNING"
    with start(9) obtain x where x: "x \<in> set (pathways (wstore w))" "row_id x' = row_id x"
      "row_state x' = (if row_id x = p then RUNNING else row_state x)"
      by (metis set_state_row)
    show "\<exists>a. bound_to w' (row_id x') a"
    proof (cases "row_id x = p")
      case True
      with x(2) bind show ?thesis by auto
    next
      case False
      with x x'(2) assms(2) have "\<exists>a. bound_to w (row_id x) a" by (simp add: inv_def bindings_ok_def)
      with False x(2) b(1) show ?thesis by (simp add: bound_to_def appends_events [OF start(6)])
    qed
  qed
  moreover have "approvals_ok cfg w'"
    using assms(2) by (intro approvals_set_state [OF _ so start(6) b(1) start(7,8) _ start(9)])
      (simp_all add: inv_def)
  moreover have "dispatches_ok cfg w'"
    by (rule dispatches_mono [OF inv_parts(5) [OF assms(2)] same_log_parts(2) [OF start(10)]])
      (rule dispatch_ok_set_state [OF _ same_log_parts(1) [OF start(10)] start(7) so start(8,9,6)])
  ultimately show ?thesis
    using assms(2) start(9,10) appends_chains [OF assms(2) start(6) b(4)]
      appends_store [OF assms(2) start(6)]
    by (simp add: inv_def same_log_def)
next
  case (insert q p fp)
  have "attempts_ok (attempts (wledger w'))"
    using assms(2) insert(1,2) by (simp add: inv_def attempts_ok_insert)
  then show ?thesis
  proof (rule inv_ledger [OF assms(2) insert(3-5)])
    fix d assume "dispatch_ok cfg w d"
    then show "dispatch_ok cfg w' d"
      by (rule dispatch_ok_ledger [OF _ insert(3,4)]) (use insert(2) in auto)
  qed
next
  case (update a st doc)
  have "attempts_ok (attempts (wledger w'))"
    using assms(2) update(1) by (simp add: inv_def attempts_ok_update)
  then show ?thesis
  proof (rule inv_ledger [OF assms(2) update(2-4)])
    fix d assume "dispatch_ok cfg w d"
    then show "dispatch_ok cfg w' d"
      by (rule dispatch_ok_ledger [OF _ update(2,3)]) (use update(1) in auto)
  qed
next
  case (discard a)
  have "attempts_ok (attempts (wledger w'))"
    using assms(2) discard(2) by (simp add: inv_def attempts_ok_filter)
  then show ?thesis
  proof (rule inv_ledger [OF assms(2) discard(3-5)])
    fix d assume "dispatch_ok cfg w d" and "d \<in> set (wdispatched w)"
    then show "dispatch_ok cfg w' d"
      by (intro dispatch_ok_ledger [OF _ discard(3,4)])
        (use discard(1,2) in \<open>auto simp: discardable_def\<close>)
  qed
next
  case (dispatch d att r def)
  have t: "tables (wstore w') = tables (wstore w)"
    using dispatch(12,13) by (simp add: same_paths_def same_events_def tables_def)
  note ev = same_events_of [OF dispatch(13)] and ps = dispatch(12) [unfolded same_paths_def]
  have old: "dispatch_ok cfg w x \<Longrightarrow> dispatch_ok cfg w' x" for x
    using dispatch(11) by (simp add: dispatch_ok_def ps ev)
  note fa = find_attempt_Some [OF dispatch(2)] and fr = find_row_Some [OF dispatch(5)]
  have "approval_authority def = None
      \<or> (\<exists>e \<in> set (events_of (wstore w) (dp_pathway d)). approval_event def e)"
    using inv_parts(6) [OF assms(2)] fr dispatch(6,8) by (auto simp: approvals_ok_def)
  then have "dispatch_ok cfg w' d"
    unfolding dispatch_ok_def ps ev dispatch(11)
    using fa fr dispatch(3,6,8,9) by (intro conjI bexI [of _ att] bexI [of _ r] exI [of _ def]) simp_all
  with old assms(2) dispatch(1,10) have "dispatches_ok cfg w'"
    by (auto simp: inv_def dispatches_ok_def)
  with assms(2) dispatch(11) store_ok_tables [OF t] show ?thesis
    by (simp add: inv_def chains_ok_def bindings_ok_def bound_to_def approvals_ok_def ev ps)
qed

lemma steps_inv: "steps cfg w w' \<Longrightarrow> inv cfg w \<Longrightarrow> policy_ok (cpolicy cfg) \<Longrightarrow> inv cfg w'"
  by (induction rule: rtranclp_induct) (auto intro: commit_inv)

end
