(* ===== verification/Rpr_Refinement.thy ===== *)
theory Rpr_Refinement
  imports Rpr_Commits
begin

text \<open>
  The runtime refines the abstract system: every method, from any state that satisfies the
  invariant and under any schedule of storage faults, leaves a state that the commits reach.
  \<open>hoare\<close> carries in addition what the methods rely on between two storage calls.
\<close>

section \<open>Triples\<close>

definition hoare ::
    "config \<Rightarrow> (world \<Rightarrow> bool) \<Rightarrow> (world, 'a) py \<Rightarrow> ('a \<Rightarrow> world \<Rightarrow> bool) \<Rightarrow> bool" where
  "hoare cfg P m Q \<longleftrightarrow> (policy_ok (cpolicy cfg) \<longrightarrow> (\<forall>w. inv cfg w \<and> P w \<longrightarrow>
     wp m (\<lambda>a w'. steps cfg w w' \<and> Q a w') (\<lambda>_ w'. steps cfg w w') w))"

abbreviation implements :: "config \<Rightarrow> (world, 'a) py \<Rightarrow> bool" where
  "implements cfg m \<equiv> hoare cfg (\<lambda>_. True) m (\<lambda>_ _. True)"

lemma hoareI:
  assumes "\<And>w. policy_ok (cpolicy cfg) \<Longrightarrow> inv cfg w \<Longrightarrow> P w \<Longrightarrow>
    wp m (\<lambda>a w'. steps cfg w w' \<and> Q a w') (\<lambda>_ w'. steps cfg w w') w"
  shows "hoare cfg P m Q"
  using assms by (simp add: hoare_def)

lemma hoareD:
  assumes "hoare cfg P m Q" "policy_ok (cpolicy cfg)" "inv cfg w" "P w"
  shows "wp m (\<lambda>a w'. steps cfg w w' \<and> Q a w') (\<lambda>_ w'. steps cfg w w') w"
  using assms by (simp add: hoare_def)

lemma hoare_weaken:
  assumes "hoare cfg P m Q" "\<And>w. P' w \<Longrightarrow> P w" "\<And>a w. Q a w \<Longrightarrow> Q' a w"
  shows "hoare cfg P' m Q'"
proof (rule hoareI)
  fix w assume "policy_ok (cpolicy cfg)" "inv cfg w" "P' w"
  with hoareD [OF assms(1)] assms(2) have
    "wp m (\<lambda>a w'. steps cfg w w' \<and> Q a w') (\<lambda>_ w'. steps cfg w w') w" by blast
  then show "wp m (\<lambda>a w'. steps cfg w w' \<and> Q' a w') (\<lambda>_ w'. steps cfg w w') w"
    by (rule wp_mono) (auto intro: assms(3))
qed

lemma implementsD: "implements cfg m \<Longrightarrow> hoare cfg P m (\<lambda>_ _. True)"
  by (erule hoare_weaken) simp_all

lemma hoare_bnd:
  assumes m: "hoare cfg P m Q" and f: "\<And>a. hoare cfg (Q a) (f a) R"
  shows "hoare cfg P (bnd m f) R"
proof (rule hoareI)
  fix w assume pol: "policy_ok (cpolicy cfg)" and i: "inv cfg w" and p: "P w"
  from hoareD [OF m pol i p]
  show "wp (bnd m f) (\<lambda>a w'. steps cfg w w' \<and> R a w') (\<lambda>_ w'. steps cfg w w') w"
    unfolding wp
  proof (rule wp_mono)
    fix a u assume u: "steps cfg w u \<and> Q a u"
    then have "inv cfg u" using steps_inv i pol by blast
    from hoareD [OF f pol this] u
    have "wp (f a) (\<lambda>a w'. steps cfg u w' \<and> R a w') (\<lambda>_ w'. steps cfg u w') u" by blast
    then show "wp (f a) (\<lambda>a w'. steps cfg w w' \<and> R a w') (\<lambda>_ w'. steps cfg w w') u"
      by (rule wp_mono) (use u in \<open>auto intro: rtranclp_trans\<close>)
  qed
qed

lemma hoare_seq:
  "hoare cfg P m (\<lambda>_. Q) \<Longrightarrow> hoare cfg Q n R \<Longrightarrow> hoare cfg P (seq m n) R"
  unfolding seq_def by (rule hoare_bnd)

lemma implements_handle:
  assumes m: "implements cfg m" and h: "\<And>e. p e \<Longrightarrow> implements cfg (h e)"
  shows "implements cfg (handle p m h)"
proof (rule hoareI)
  fix w assume pol: "policy_ok (cpolicy cfg)" and i: "inv cfg w"
  from hoareD [OF m pol i TrueI]
  show "wp (handle p m h) (\<lambda>a w'. steps cfg w w' \<and> True) (\<lambda>_ w'. steps cfg w w') w"
    unfolding wp
  proof (rule wp_mono)
    fix e u assume u: "steps cfg w u"
    show "if p e then wp (h e) (\<lambda>a w'. steps cfg w w' \<and> True) (\<lambda>_ w'. steps cfg w w') u
      else steps cfg w u"
    proof (cases "p e")
      case True
      have "inv cfg u" using steps_inv u i pol by blast
      from hoareD [OF h [OF True] pol this TrueI]
      have "wp (h e) (\<lambda>a w'. steps cfg w w' \<and> True) (\<lambda>_ w'. steps cfg w w') u"
        by (rule wp_mono) (use u in \<open>auto intro: rtranclp_trans\<close>)
      with True show ?thesis by simp
    qed (use u in simp)
  qed
qed

lemma implements_basic:
  "implements cfg (ret a)" "implements cfg (throw e)" "implements cfg (raise k msg)"
  "(\<And>b. r = Inr b \<Longrightarrow> implements cfg (f b)) \<Longrightarrow> implements cfg (bnd (lift r) f)"
  "(\<And>u. rc = Inr u \<Longrightarrow> implements cfg n) \<Longrightarrow> implements cfg (seq (lift rc) n)"
  "(c \<Longrightarrow> implements cfg m1) \<Longrightarrow> (\<not> c \<Longrightarrow> implements cfg m2) \<Longrightarrow> implements cfg (if c then m1 else m2)"
  by (auto simp: hoare_def wp split: sum.splits)

lemma implements_seq: "implements cfg m \<Longrightarrow> implements cfg n \<Longrightarrow> implements cfg (seq m n)"
  by (rule hoare_seq)

lemma implements_bnd: "implements cfg m \<Longrightarrow> (\<And>a. implements cfg (f a)) \<Longrightarrow> implements cfg (bnd m f)"
  by (rule hoare_bnd)

lemma commit_step: "commit cfg w w' \<Longrightarrow> steps cfg w w'"
  by (rule r_into_rtranclp)

lemma idle_step: "same_data w w' \<Longrightarrow> steps cfg w w'"
  by (blast intro: commit_step commit.idle)

section \<open>Primitive operations\<close>

lemma implements_state: "implements cfg (in_store (get_state p))"
  by (rule hoareI, rule wp_state) (auto intro: idle_step)

lemma implements_definition: "implements cfg (in_store (get_definition env p))"
  by (rule hoareI, rule wp_definition) (auto intro: idle_step)

lemma implements_events: "implements cfg (in_store (events p))"
  by (rule hoareI, rule wp_event_list) (auto intro: idle_step)

lemma implements_record:
  assumes "''to'' \<notin> fst ` set xs"
  shows "implements cfg (record_event cfg p ty actor xs)"
proof (rule hoareI, rule wp_record_event)
  fix w w' e
  assume "built cfg p ty actor xs e" "appends e w w'" "same_paths w w'" "same_log w w'"
  with assms have "commit cfg w w'" by (blast intro: commit.event)
  then show "steps cfg w w' \<and> True" by (simp add: commit_step)
qed (rule idle_step)

lemma implements_move:
  assumes "distinct (''from'' # ''to'' # map fst xs)" "t \<in> set (allowed_transitions s)"
    "t \<noteq> RUNNING" "t \<noteq> APPROVED"
  shows "implements cfg (move cfg p s t ty actor xs)"
proof (rule hoareI, rule wp_move)
  fix w w' e r
  assume b: "built cfg p ty actor
      ([(''from'', PStr (state_value s)), (''to'', PStr (state_value t))] @ xs) e"
    and a: "appends e w w'" and r: "find_row p (pathways (wstore w)) = Some r" "row_state r = s"
    and w': "pathways (wstore w') = pathways (set_state p t (wstore w))" "same_log w w'"
  have "commit cfg w w'"
    using b a r w' assms by (intro commit.move [of cfg p ty actor r t xs e w w']) simp_all
  then show "steps cfg w w' \<and> True" by (simp add: commit_step)
qed (rule idle_step)

lemma implements_start_move:
  assumes "distinct (''from'' # ''to'' # map fst xs)" "RUNNING \<in> set (allowed_transitions s)"
    "(ty, k) \<in> {(''execution_started'', ''attempt_id''), (''pathway_resumed'', ''next_attempt_id'')}"
    "(k, PStr a) \<in> set xs" "\<not> blank a"
  shows "implements cfg (move cfg p s RUNNING ty actor xs)"
proof (rule hoareI, rule wp_move)
  fix w w' e r
  assume b: "built cfg p ty actor
      ([(''from'', PStr (state_value s)), (''to'', PStr (state_value RUNNING))] @ xs) e"
    and ap: "appends e w w'" and r: "find_row p (pathways (wstore w)) = Some r" "row_state r = s"
    and w': "pathways (wstore w') = pathways (set_state p RUNNING (wstore w))" "same_log w w'"
  have "commit cfg w w'"
    using b [folded r(2)] assms(1-2) [folded r(2)] assms(3-5) ap r(1) w'
    by (intro commit.start [of cfg p ty actor r xs e k a w w'])
  then show "steps cfg w w' \<and> True" by (simp add: commit_step)
qed (rule idle_step)

lemma implements_get_attempt: "implements cfg (in_ledger (get_attempt a))"
  by (rule hoareI, unfold wp_in_ledger, rule wp_get_attempt)
    (auto intro!: idle_step same_data_ledger)

lemma ledger_update_step:
  assumes "attempts l = map (set_result a st doc) (attempts (wledger w))"
  shows "steps cfg w (w\<lparr>wledger := l\<rparr>)"
  by (rule commit_step, rule commit.update [of _ a st doc])
    (simp_all add: assms same_paths_def same_events_def)

lemma implements_finish: "implements cfg (in_ledger (finish env a r))"
  by (rule hoareI, unfold wp_in_ledger, rule wp_finish)
    (auto intro: idle_step same_data_ledger ledger_update_step)

lemma implements_mark: "implements cfg (in_ledger (mark_result_persistence_unknown a why))"
  by (rule hoareI, unfold wp_in_ledger, rule wp_mark_unknown)
    (auto intro: idle_step same_data_ledger ledger_update_step)

lemma begin_step:
  assumes "select_attempt (attempt_id q) p (idempotency_key q) (attempts (wledger w)) = None"
    "attempts l = attempts (wledger w) @ [started_record p q fp]"
  shows "steps cfg w (w\<lparr>wledger := l\<rparr>)"
  by (rule commit_step, rule commit.insert [of q p _ _ fp])
    (simp_all add: assms same_paths_def same_events_def)

lemma discard_step:
  assumes "a \<notin> dp_attempt ` set (wdispatched w)"
    "attempts l = filter (\<lambda>r. \<not> discardable a r) (attempts (wledger w))"
  shows "steps cfg w (w\<lparr>wledger := l\<rparr>)"
  by (rule commit_step, rule commit.discard [of a])
    (simp_all add: assms same_paths_def same_events_def)

lemma implements_begin: "implements cfg (in_ledger (begin_attempt env p q))"
  by (rule hoareI, unfold wp_in_ledger, rule wp_begin)
    (auto intro: idle_step same_data_ledger begin_step)

lemmas implements_rules = implements_basic implements_seq implements_bnd implements_handle
  implements_state implements_definition implements_events implements_record
  implements_get_attempt implements_finish implements_mark implements_begin

section \<open>Transitions\<close>

lemma approval_in_force:
  assumes "authorize_transition d s APPROVED actor = Inr u"
  shows "approval_authority d = Some (strip actor)"
  using assms by (simp add: authorize_transition_ok)

lemma implements_transition: "implements cfg (transition cfg p t actor reason)"
proof (cases "t = RUNNING")
  case True
  then show ?thesis by (simp add: transition_def implements_basic)
next
  case t: False
  show ?thesis
  proof (rule hoareI)
    fix w assume "inv cfg w"
    have body: "wp (seq (lift (ensure_transition (row_state r) t)) (
        seq (lift (authorize_transition d (row_state r) t actor)) (
        seq (move cfg p (row_state r) t ''state_transition'' actor [(''reason'', PStr reason)])
        (ret t)))) (\<lambda>a w'. steps cfg w w' \<and> True) (\<lambda>_ w'. steps cfg w w') v"
      if v: "same_data w v" and r: "find_row p (pathways (wstore w)) = Some r"
        and d: "definition_of cfg r = Some d" for v r d
    proof (cases "t \<in> set (allowed_transitions (row_state r))
        \<and> (\<exists>u. authorize_transition d (row_state r) t actor = Inr u)")
      case False
      then show ?thesis
        using v by (auto simp: wp ensure_transition_def split: sum.splits intro: idle_step)
    next
      case True
      have m: "wp (move cfg p (row_state r) t ''state_transition'' actor [(''reason'', PStr reason)])
        (\<lambda>_ w'. steps cfg w w') (\<lambda>_ w'. steps cfg w w') v"
      proof (rule wp_move)
        fix w' e r'
        assume b: "built cfg p ''state_transition'' actor ([(''from'', PStr (state_value (row_state r))),
            (''to'', PStr (state_value t))] @ [(''reason'', PStr reason)]) e"
          and ap: "appends e v w'" and r': "find_row p (pathways (wstore v)) = Some r'"
          and w': "pathways (wstore w') = pathways (set_state p t (wstore v))" "same_log v w'"
        have rr: "r' = r" using r r' tables_simps(1) [OF same_data_tables [OF v]] by simp
        have "commit cfg v w'"
        proof (rule commit.move [OF b _ ap])
          show "t = APPROVED \<Longrightarrow> \<exists>d. definition_of cfg r = Some d
              \<and> approval_authority d = Some (strip actor)"
            using True d approval_in_force by blast
        qed (use True t r' w' rr in simp_all)
        with v show "steps cfg w w'" by (blast intro: rtranclp_trans idle_step commit_step)
      next
        fix e w' assume "same_data v w'"
        with v show "steps cfg w w'" by (blast intro: idle_step same_data_trans)
      qed
      from True obtain u where "authorize_transition d (row_state r) t actor = Inr u" by blast
      with True m show ?thesis by (simp add: wp ensure_transition_def)
    qed
    show "wp (transition cfg p t actor reason) (\<lambda>a w'. steps cfg w w' \<and> True)
      (\<lambda>_ w'. steps cfg w w') w"
      unfolding transition_def if_not_P [OF t] wp(6)
    proof (rule wp_state)
      fix u r assume u: "same_data w u" and r: "find_row p (pathways (wstore w)) = Some r"
      show "wp (in_store (get_definition (cenv cfg) p))
        (\<lambda>d. wp (seq (lift (ensure_transition (row_state r) t)) (
          seq (lift (authorize_transition d (row_state r) t actor)) (
          seq (move cfg p (row_state r) t ''state_transition'' actor [(''reason'', PStr reason)])
          (ret t)))) (\<lambda>a w'. steps cfg w w' \<and> True) (\<lambda>_ w'. steps cfg w w'))
        (\<lambda>_ w'. steps cfg w w') u"
      proof (rule wp_definition)
        fix v r' d
        assume v: "same_data u v" and r': "find_row p (pathways (wstore u)) = Some r'"
          and d: "definition_from_dict (cenv cfg) (row_doc r') = Inr d"
        have "r' = r" using r r' tables_simps(1) [OF same_data_tables [OF u]] by simp
        with d have "definition_of cfg r = Some d" by (simp add: definition_of_def)
        with body u v r same_data_trans show "wp (seq (lift (ensure_transition (row_state r) t)) (
          seq (lift (authorize_transition d (row_state r) t actor)) (
          seq (move cfg p (row_state r) t ''state_transition'' actor [(''reason'', PStr reason)])
          (ret t)))) (\<lambda>a w'. steps cfg w w' \<and> True) (\<lambda>_ w'. steps cfg w w') v"
          by blast
      qed (use u in \<open>blast intro: idle_step same_data_trans\<close>)
    qed (rule idle_step)
  qed
qed

lemma implements_principal:
  "implements cfg (transition_as_principal cfg resolver binding p t cred reason)"
  unfolding transition_as_principal_def
  by (intro implements_bnd implements_seq implements_basic implements_transition implements_record) simp


section \<open>Registration\<close>

lemma to_docs_map_PStr [simp]: "to_docs (map PStr ss) = Inr (map PStr ss)"
  by (induction ss) auto

lemma route_is_doc: "items_doc (route_to_dict r)"
proof -
  have "are_docs (map PStr ss)" for ss by (induction ss) auto
  then show ?thesis by (simp add: route_to_dict_def obj_simps)
qed

lemma canonical_definition_doc:
  assumes "canonical_definition d = Inr doc"
  obtains m where "to_items (metadata d) = Inr m"
    "doc = sorted_items (definition_to_dict (d\<lparr>metadata := m\<rparr>))"
proof -
  from assms obtain x where x: "canonical_doc (PDict (definition_to_dict d)) = Inr x"
    by (auto simp: canonical_definition_def rbind_eq_Inr)
  then obtain m where m: "to_items (metadata d) = Inr m"
    by (auto simp: canonical_doc_def definition_to_dict_def obj_simps rbind_eq_Inr
        split: option.splits)
  have "to_items (definition_to_dict d) = Inr (definition_to_dict (d\<lparr>metadata := m\<rparr>))"
    by (simp add: definition_to_dict_def obj_simps m route_is_doc split: option.splits)
  with assms have "doc = sorted_items (definition_to_dict (d\<lparr>metadata := m\<rparr>))"
    by (simp add: canonical_definition_def canonical_doc_def canon_PDict del: canon.simps)
  with m show ?thesis by (rule that)
qed

text \<open>What is read back for a registered definition.\<close>

lemma stored_definition:
  assumes "canonical_definition d = Inr doc"
  obtains m where "to_items (metadata d) = Inr m"
    "definition_from_dict env doc = Inr (d\<lparr>metadata := sorted_items m\<rparr>)"
proof -
  from canonical_definition_doc [OF assms] obtain m where
    m: "to_items (metadata d) = Inr m" "doc = sorted_items (definition_to_dict (d\<lparr>metadata := m\<rparr>))" .
  have "definition_from_dict env doc = Inr (d\<lparr>metadata := sorted_items m\<rparr>)"
    using definition_round_trip [of env "d\<lparr>metadata := m\<rparr>"] m(2) by simp
  with m(1) show ?thesis by (rule that)
qed

lemma initial_state_before_run: "before_run (initial_state dec b)"
  by (simp add: initial_state_def)

lemma implements_create:
  assumes "st = initial_state dec (approval_authority d \<noteq> None)"
  shows "implements cfg (in_store (create_or_replay_pathway (cenv cfg) d st key))"
proof (rule hoareI, unfold wp_in_store, rule wp_create)
  fix w :: world and s' :: store and doc fp
  assume doc: "canonical_definition d = Inr doc"
    and free: "find_key key (pathways (wstore w)) = None"
      "find_row (pathway_id d) (pathways (wstore w)) = None"
    and s': "event_rows s' = event_rows (wstore w)"
      "pathways s' = pathways (wstore w) @ [\<lparr>row_id = pathway_id d, row_doc = doc,
        row_fingerprint = fp, row_state = st, row_key = key\<rparr>]"
  let ?r = "\<lparr>row_id = pathway_id d, row_doc = doc, row_fingerprint = fp, row_state = st, row_key = key\<rparr>"
  from stored_definition [OF doc, of "cenv cfg"] obtain m where
    m: "definition_from_dict (cenv cfg) doc = Inr (d\<lparr>metadata := sorted_items m\<rparr>)" by metis
  have "commit cfg w (w\<lparr>wstore := s'\<rparr>)"
  proof (rule commit.create [of ?r])
    show "\<exists>x. definition_of cfg ?r = Some x \<and> approval_authority x = None" if "row_state ?r = APPROVED"
      using that assms m by (auto simp: definition_of_def initial_state_def split: if_splits)
  qed (use free s' assms initial_state_before_run in
      \<open>simp_all add: same_events_def same_log_def\<close>)
  then show "steps cfg w (w\<lparr>wstore := s'\<rparr>) \<and> True" by (simp add: commit_step)
qed (auto intro: idle_step same_data_store)

lemma implements_register: "implements cfg (register cfg d key)"
  unfolding register_def Let_def
  by (intro implements_rules implements_bnd) (auto simp: case_prod_beta
      intro!: implements_rules implements_create)

section \<open>Closing\<close>

lemma implements_finish_execution:
  "implements cfg (finish_execution_pathway cfg p q actor r)"
  unfolding finish_execution_pathway_def Let_def
  by (intro implements_rules implements_transition implements_move)
    (auto simp: request_fields_def result_fields_def)

lemma implements_finish_reconciliation:
  "implements cfg (finish_reconciliation_pathway cfg p q actor r b)"
  unfolding finish_reconciliation_pathway_def Let_def
  by (intro implements_rules implements_move)
    (auto simp: request_fields_def result_fields_def)

lemma implements_mark_unknown: "implements cfg (mark_unknown q why)"
  unfolding mark_unknown_def by (intro implements_rules)

lemma implements_persist_execution:
  "implements cfg (persist_execution_result cfg p q actor r)"
  unfolding persist_execution_result_def Let_def
  by (intro implements_rules implements_mark_unknown implements_transition)
    (auto simp: request_fields_def unknown_fields_def)

lemma implements_persist_reconciliation:
  "implements cfg (persist_reconciliation_result cfg p q actor r)"
  unfolding persist_reconciliation_result_def Let_def
  by (intro implements_rules implements_mark_unknown)
    (auto simp: request_fields_def unknown_fields_def)

lemma implements_settle: "implements cfg (settle_observation cfg p q actor obs)"
  unfolding settle_observation_def Let_def
  by (intro implements_rules implements_persist_reconciliation implements_finish_reconciliation)
    (auto simp: request_fields_def)

lemma implements_unresolved: "implements cfg (unresolved_replay cfg p q actor s)"
  unfolding unresolved_replay_def Let_def
  by (intro implements_rules implements_transition) (auto simp: request_fields_def)

section \<open>Repair\<close>

lemma implements_failed_attempt: "implements cfg (require_failed_attempt what p a)"
  unfolding require_failed_attempt_def by (intro implements_rules)

lemma implements_new_attempt: "implements cfg (require_new_attempt a)"
  unfolding require_new_attempt_def by (intro implements_rules)

lemma implements_repair: "implements cfg (complete_repair cfg p actor prior ev reason c)"
  unfolding complete_repair_def
  by (intro implements_rules implements_failed_attempt implements_move) simp_all

lemma implements_abort: "implements cfg (abort_with_residuals cfg p actor residuals reason)"
  unfolding abort_with_residuals_def
  by (intro implements_rules implements_move) simp_all

lemma implements_resume: "implements cfg (resume cfg p actor prior nxt reason)"
proof (cases "strip nxt = []")
  case False
  then show ?thesis
    unfolding resume_def
    by (intro implements_rules implements_failed_attempt implements_new_attempt
        implements_start_move [where k = "''next_attempt_id''" and a = nxt])
      (simp_all add: blank_def)
qed (simp add: resume_def implements_rules)

end
