(* ===== verification/Rpr_Dispatch.thy ===== *)
theory Rpr_Dispatch
  imports Rpr_Refinement
begin

text \<open>
  \<open>execute\<close> and \<open>reconcile\<close> refine the abstract system. What \<open>execute\<close> relies on between its
  storage calls is stated by four assertions: the actor is the pathway's executor and a
  running pathway is bound to the request's attempt (\<open>entitled\<close>), the attempt is in the
  ledger, unfinished and never dispatched (\<open>pending\<close>), a dispatch of it was for this pathway
  (\<open>only_here\<close>), and the pathway runs under this attempt (\<open>running_bound\<close>).
\<close>

section \<open>Assertions\<close>

definition acts_for :: "config \<Rightarrow> pystr \<Rightarrow> pystr \<Rightarrow> world \<Rightarrow> bool" where
  "acts_for cfg p actor w \<longleftrightarrow> (\<exists>r d. find_row p (pathways (wstore w)) = Some r
     \<and> definition_of cfg r = Some d \<and> strip actor = execution_actor d)"

definition entitled :: "config \<Rightarrow> pystr \<Rightarrow> execution_request \<Rightarrow> pystr \<Rightarrow> world \<Rightarrow> bool" where
  "entitled cfg p q actor w \<longleftrightarrow> acts_for cfg p actor w
     \<and> (\<forall>r. find_row p (pathways (wstore w)) = Some r \<longrightarrow> row_state r = RUNNING \<longrightarrow>
          bound_to w p (attempt_id q))"

definition undispatched :: "pystr \<Rightarrow> world \<Rightarrow> bool" where
  "undispatched a w \<longleftrightarrow> a \<notin> dp_attempt ` set (wdispatched w)"

definition pending :: "pystr \<Rightarrow> execution_request \<Rightarrow> world \<Rightarrow> bool" where
  "pending p q w \<longleftrightarrow> undispatched (attempt_id q) w
     \<and> (\<exists>att. find_attempt (attempt_id q) (attempts (wledger w)) = Some att
          \<and> at_pathway_id att = p \<and> at_result att = None)"

definition only_here :: "pystr \<Rightarrow> execution_request \<Rightarrow> world \<Rightarrow> bool" where
  "only_here p q w \<longleftrightarrow>
     (\<forall>d \<in> set (wdispatched w). dp_attempt d = attempt_id q \<longrightarrow> dp_pathway d = p)"

definition running_bound :: "config \<Rightarrow> pystr \<Rightarrow> execution_request \<Rightarrow> pystr \<Rightarrow> world \<Rightarrow> bool" where
  "running_bound cfg p q actor w \<longleftrightarrow> (\<exists>r d. find_row p (pathways (wstore w)) = Some r
     \<and> row_state r = RUNNING \<and> bound_to w p (attempt_id q) \<and> definition_of cfg r = Some d
     \<and> strip actor = execution_actor d)"

definition approved_now :: "pystr \<Rightarrow> world \<Rightarrow> bool" where
  "approved_now p w \<longleftrightarrow> (\<exists>r. find_row p (pathways (wstore w)) = Some r \<and> row_state r = APPROVED)"

lemmas assertion_defs = acts_for_def entitled_def undispatched_def pending_def only_here_def
  running_bound_def approved_now_def

text \<open>Assertions about the store and about the ledger are stable under the other's steps.\<close>

lemma bound_to_same: "same_events w w' \<Longrightarrow> bound_to w' p a \<longleftrightarrow> bound_to w p a"
  by (simp add: bound_to_def same_events_of)

lemma entitled_same:
  "same_paths w w' \<Longrightarrow> same_events w w' \<Longrightarrow> entitled cfg p q actor w \<Longrightarrow> entitled cfg p q actor w'"
  by (simp add: entitled_def acts_for_def same_paths_def bound_to_same)

lemma acts_for_same: "same_paths w w' \<Longrightarrow> acts_for cfg p actor w \<Longrightarrow> acts_for cfg p actor w'"
  by (simp add: acts_for_def same_paths_def)

lemma pending_same: "same_log w w' \<Longrightarrow> pending p q w \<Longrightarrow> pending p q w'"
  by (simp add: pending_def undispatched_def same_log_def)

lemma only_here_same: "same_log w w' \<Longrightarrow> only_here p q w \<Longrightarrow> only_here p q w'"
  by (simp add: only_here_def same_log_def)

lemma approved_same: "same_paths w w' \<Longrightarrow> approved_now p w \<Longrightarrow> approved_now p w'"
  by (simp add: approved_now_def same_paths_def)

lemmas same_rules = entitled_same acts_for_same pending_same only_here_same approved_same

lemma same_data_parts:
  "same_data w w' \<Longrightarrow> same_paths w w' \<and> same_events w w' \<and> same_log w w'"
  by (simp add: same_data_def)

lemma entitled_appends:
  assumes "entitled cfg p q actor w" "appends e w w'" "same_paths w w'"
    "event_target (stored_event e) \<noteq> PStr (state_value RUNNING)"
  shows "entitled cfg p q actor w'"
  using assms(1,3) appends_bound [OF assms(2,4)]
  by (simp add: entitled_def acts_for_def same_paths_def)

section \<open>Triples of the single calls\<close>

lemma hoare_error [simp]:
  "hoare cfg P (throw e) Q" "hoare cfg P (raise k msg) Q"
  by (simp_all add: hoare_def wp)

lemma hoare_if:
  "(c \<Longrightarrow> hoare cfg P m Q) \<Longrightarrow> (\<not> c \<Longrightarrow> hoare cfg P n Q) \<Longrightarrow>
    hoare cfg P (if c then m else n) Q"
  by simp

lemma hoare_lift:
  "(\<And>b. r = Inr b \<Longrightarrow> hoare cfg P (f b) Q) \<Longrightarrow> hoare cfg P (bnd (lift r) f) Q"
  by (auto simp: hoare_def wp split: sum.splits)

lemma hoare_check:
  "(\<And>b. r = Inr b \<Longrightarrow> hoare cfg P n Q) \<Longrightarrow> hoare cfg P (seq (lift r) n) Q"
  by (auto simp: hoare_def wp split: sum.splits)

lemma hoare_state:
  assumes "\<And>w w'. same_data w w' \<Longrightarrow> P w \<Longrightarrow> P w'"
  shows "hoare cfg P (in_store (get_state p))
    (\<lambda>s w. P w \<and> (\<exists>r. find_row p (pathways (wstore w)) = Some r \<and> row_state r = s))"
proof (rule hoareI, rule wp_state)
  fix w w' r assume "P w" "same_data w w'" "find_row p (pathways (wstore w)) = Some r"
  with assms show "steps cfg w w' \<and> P w' \<and>
      (\<exists>x. find_row p (pathways (wstore w')) = Some x \<and> row_state x = row_state r)"
    using tables_simps(1) [OF same_data_tables] by (auto intro: idle_step)
qed (rule idle_step)

lemma hoare_definition:
  "hoare cfg (\<lambda>_. True) (in_store (get_definition (cenv cfg) p)) (\<lambda>d w. \<exists>r.
     find_row p (pathways (wstore w)) = Some r \<and> definition_of cfg r = Some d)"
proof (rule hoareI, rule wp_definition)
  fix w w' r d
  assume "same_data w w'" "find_row p (pathways (wstore w)) = Some r"
    "definition_from_dict (cenv cfg) (row_doc r) = Inr d"
  then show "steps cfg w w' \<and> (\<exists>r. find_row p (pathways (wstore w')) = Some r
      \<and> definition_of cfg r = Some d)"
    using tables_simps(1) [OF same_data_tables] by (auto intro: idle_step simp: definition_of_def)
qed (rule idle_step)

lemma hoare_record:
  assumes "''to'' \<notin> fst ` set xs"
  shows "hoare cfg (\<lambda>w. pending p q w \<and> entitled cfg p q actor w)
    (record_event cfg p' ty actor' xs) (\<lambda>_ w. pending p q w \<and> entitled cfg p q actor w)"
proof (rule hoareI, rule wp_record_event)
  fix w w' e
  assume pre: "pending p q w \<and> entitled cfg p q actor w" and b: "built cfg p' ty actor' xs e"
    and a: "appends e w w'" "same_paths w w'" "same_log w w'"
  have "event_target (stored_event e) \<noteq> PStr (state_value RUNNING)"
    using built_absent [OF b assms] by (simp add: event_target_stored)
  with pre a have "pending p q w' \<and> entitled cfg p q actor w'"
    by (blast intro: pending_same entitled_appends)
  moreover have "commit cfg w w'" using b assms a by (blast intro: commit.event)
  ultimately show "steps cfg w w' \<and> pending p q w' \<and> entitled cfg p q actor w'"
    by (simp add: commit_step)
qed (rule idle_step)

text \<open>What \<open>begin\<close> establishes, for a replay and for a new row.\<close>

definition begun :: "config \<Rightarrow> pystr \<Rightarrow> execution_request \<Rightarrow> pystr \<Rightarrow> bool \<times> attempt_record
    \<Rightarrow> world \<Rightarrow> bool" where
  "begun cfg p q actor x w \<longleftrightarrow> entitled cfg p q actor w
     \<and> (if fst x then only_here p q w else pending p q w)"

lemma hoare_begin:
  "hoare cfg (entitled cfg p q actor) (in_ledger (begin_attempt env p q)) (begun cfg p q actor)"
proof (rule hoareI, unfold wp_in_ledger, rule wp_begin)
  fix w and l' :: ledger and r fp
  assume i: "inv cfg w" and ent: "entitled cfg p q actor w" and l': "attempts l' = attempts (wledger w)"
    and sel: "select_attempt (attempt_id q) p (idempotency_key q) (attempts (wledger w)) = Some r"
    and rp: "at_pathway_id r = p"
  let ?w = "w\<lparr>wledger := l'\<rparr>"
  have s: "same_data w ?w" using l' by (rule same_data_ledger)
  have "dp_pathway d = p" if d: "d \<in> set (wdispatched w)" "dp_attempt d = attempt_id q" for d
  proof -
    from i d(1) have "dispatch_ok cfg w d" by (simp add: inv_def dispatches_ok_def)
    then obtain x where x: "x \<in> set (attempts (wledger w))" "at_attempt_id x = attempt_id q"
      "at_pathway_id x = dp_pathway d" using d(2) by (auto simp: dispatch_ok_def)
    then have "attempt_id q \<in> at_attempt_id ` set (attempts (wledger w))" by force
    with x(2) select_attempt_Some [OF sel] have "r \<in> set (attempts (wledger w))"
      "at_attempt_id r = at_attempt_id x" by auto
    with x(1) inv_parts(2) [OF i] have "r = x" by (simp add: attempts_ok_def distinct_map inj_on_def)
    with x(3) rp show ?thesis by simp
  qed
  then have "only_here p q ?w" by (simp add: only_here_def)
  moreover have "entitled cfg p q actor ?w"
    using s ent by (blast intro: entitled_same dest: same_data_parts)
  ultimately show "steps cfg w ?w \<and> begun cfg p q actor (True, r) ?w"
    using s by (simp add: begun_def idle_step)
next
  fix w and l' :: ledger and fp
  assume i: "inv cfg w" and ent: "entitled cfg p q actor w"
    and sel: "select_attempt (attempt_id q) p (idempotency_key q) (attempts (wledger w)) = None"
    and l': "attempts l' = attempts (wledger w) @ [started_record p q fp]"
  let ?w = "w\<lparr>wledger := l'\<rparr>"
  from sel have new: "attempt_id q \<notin> at_attempt_id ` set (attempts (wledger w))"
    by (simp add: select_attempt_None)
  have "undispatched (attempt_id q) ?w"
    using i new by (force simp: undispatched_def inv_def dispatches_ok_def dispatch_ok_def)
  moreover have "find_attempt (attempt_id q) (attempts l') = Some (started_record p q fp)"
    using new [folded find_attempt_None] by (simp add: l' find_attempt_def find_snoc)
  ultimately have "pending p q ?w" by (simp add: pending_def)
  moreover have "entitled cfg p q actor ?w"
    by (rule entitled_same [OF _ _ ent]) (simp_all add: same_paths_def same_events_def)
  ultimately show "steps cfg w ?w \<and> begun cfg p q actor (False, started_record p q fp) ?w"
    using begin_step [OF sel l'] by (simp add: begun_def)
qed (auto intro: idle_step same_data_ledger)

lemma hoare_discard:
  assumes "\<And>w. inv cfg w \<Longrightarrow> P w \<Longrightarrow> undispatched a w"
    and "\<And>w l. P w \<Longrightarrow> Q (w\<lparr>wledger := l\<rparr>)"
  shows "hoare cfg P (in_ledger (discard_started a)) (\<lambda>_. Q)"
proof (rule hoareI, unfold wp_in_ledger, rule wp_discard)
  fix w and l' :: ledger and b
  assume "inv cfg w" "P w" "attempts l' = filter (\<lambda>r. \<not> discardable a r) (attempts (wledger w))"
  with assms show "steps cfg w (w\<lparr>wledger := l'\<rparr>) \<and> Q (w\<lparr>wledger := l'\<rparr>)"
    by (auto intro: discard_step simp: undispatched_def)
qed (auto intro: idle_step same_data_ledger)

section \<open>The phases of \<open>execute\<close>\<close>

lemma wp_active:
  assumes "\<And>w' a. same_data w w' \<Longrightarrow> bound_to w p a \<Longrightarrow> Q a w'"
    and "\<And>e w'. same_data w w' \<Longrightarrow> E e w'"
  shows "wp (active_running_attempt_id p) Q E w"
proof -
  have "wp (in_store (events p)) (\<lambda>es. wp (lift (running_attempt (rev es))) Q E) E w"
    by (rule wp_event_list) (auto simp: wp bound_to_def intro: assms split: sum.splits)
  then show ?thesis by (simp add: active_running_attempt_id_def wp(6))
qed

lemma hoare_check_binding:
  "hoare cfg (acts_for cfg p actor) (check_binding p q) (\<lambda>_. entitled cfg p q actor)"
proof (rule hoareI)
  fix w assume act: "acts_for cfg p actor w"
  have ent: "entitled cfg p q actor v" if v: "same_data w v" and b: "\<And>r.
      find_row p (pathways (wstore w)) = Some r \<Longrightarrow> row_state r = RUNNING \<Longrightarrow> bound_to w p (attempt_id q)"
    for v
  proof -
    have "entitled cfg p q actor w" using act b by (simp add: entitled_def)
    with v show ?thesis by (blast intro: entitled_same dest: same_data_parts)
  qed
  show "wp (check_binding p q) (\<lambda>_ w'. steps cfg w w' \<and> entitled cfg p q actor w')
      (\<lambda>_ w'. steps cfg w w') w"
    unfolding check_binding_def wp(6)
  proof (rule wp_state)
    fix u r assume u: "same_data w u" and r: "find_row p (pathways (wstore w)) = Some r"
    show "wp (if row_state r = RUNNING then bnd (active_running_attempt_id p) (\<lambda>bound.
        if bound \<noteq> attempt_id q then raise ValueError ''running pathway is bound to another attempt''
        else ret ()) else ret ()) (\<lambda>_ w'. steps cfg w w' \<and> entitled cfg p q actor w')
        (\<lambda>_ w'. steps cfg w w') u"
    proof (cases "row_state r = RUNNING")
      case False
      then show ?thesis using ent [OF u] r u by (simp add: wp idle_step)
    next
      case True
      have "wp (active_running_attempt_id p) (\<lambda>bound. wp (if bound \<noteq> attempt_id q
            then raise ValueError ''running pathway is bound to another attempt'' else ret ())
          (\<lambda>_ w'. steps cfg w w' \<and> entitled cfg p q actor w') (\<lambda>_ w'. steps cfg w w'))
          (\<lambda>_ w'. steps cfg w w') u"
      proof (rule wp_active)
        fix v a assume "same_data u v" and a: "bound_to u p a"
        with u have v: "same_data w v" by (blast intro: same_data_trans)
        have "bound_to w p a" using a u bound_to_same same_data_parts by blast
        then have "a = attempt_id q \<Longrightarrow> entitled cfg p q actor v" using ent [OF v] by simp
        with v show "wp (if a \<noteq> attempt_id q
            then raise ValueError ''running pathway is bound to another attempt'' else ret ())
          (\<lambda>_ w'. steps cfg w w' \<and> entitled cfg p q actor w') (\<lambda>_ w'. steps cfg w w') v"
          by (simp add: wp idle_step)
      next
        fix v assume "same_data u v"
        with u show "steps cfg w v" by (blast intro: idle_step same_data_trans)
      qed
      with True show ?thesis by (simp add: wp(6))
    qed
  qed (rule idle_step)
qed

text \<open>Restarting discards only an attempt that was never dispatched.\<close>

lemma hoare_restart:
  "hoare cfg (\<lambda>w. only_here p q w \<and> entitled cfg p q actor w \<and> approved_now p w)
    (restart_attempt cfg p q actor') (\<lambda>_ w. pending p q w \<and> entitled cfg p q actor w)"
  unfolding restart_attempt_def
proof (rule hoare_bnd)
  show "hoare cfg (\<lambda>w. only_here p q w \<and> entitled cfg p q actor w \<and> approved_now p w)
      (in_ledger (discard_started (attempt_id q))) (\<lambda>_. entitled cfg p q actor)"
  proof (rule hoare_discard)
    fix w assume i: "inv cfg w"
      and pre: "only_here p q w \<and> entitled cfg p q actor w \<and> approved_now p w"
    show "undispatched (attempt_id q) w"
      unfolding undispatched_def
    proof
      assume "attempt_id q \<in> dp_attempt ` set (wdispatched w)"
      then obtain d where d: "d \<in> set (wdispatched w)" "dp_attempt d = attempt_id q" by auto
      with pre have "dp_pathway d = p" by (simp add: only_here_def)
      with i d(1) obtain r where r: "r \<in> set (pathways (wstore w))" "row_id r = p"
        "\<not> before_run (row_state r)" by (auto simp: inv_def dispatches_ok_def dispatch_ok_def)
      from pre obtain x where "find_row p (pathways (wstore w)) = Some x" "row_state x = APPROVED"
        by (auto simp: approved_now_def)
      with r unique_row [OF inv_parts(1) [OF i]] show False by force
    qed
  next
    fix w l assume "only_here p q w \<and> entitled cfg p q actor w \<and> approved_now p w"
    then have "entitled cfg p q actor w" by blast
    then show "entitled cfg p q actor (w\<lparr>wledger := l\<rparr>)"
      by (rule entitled_same [rotated 2]) (simp_all add: same_paths_def same_events_def)
  qed
next
  fix ok
  show "hoare cfg (entitled cfg p q actor)
    (if \<not> ok then raise RuntimeError ''pre_dispatch_started_attempt_could_not_be_reset''
     else bnd (in_ledger (begin_attempt (cenv cfg) p q)) (\<lambda>(replayed, _).
       if replayed then raise RuntimeError ''pre_dispatch_started_attempt_reset_replayed''
       else record_event cfg p ''execution_pre_dispatch_restart_recovered'' actor' (request_fields q)))
    (\<lambda>_ w. pending p q w \<and> entitled cfg p q actor w)"
  proof (rule hoare_if [OF hoare_error(2)], rule hoare_bnd [OF hoare_begin])
    fix x
    have "hoare cfg (begun cfg p q actor x)
        (if fst x then raise RuntimeError ''pre_dispatch_started_attempt_reset_replayed''
         else record_event cfg p ''execution_pre_dispatch_restart_recovered'' actor' (request_fields q))
        (\<lambda>_ w. pending p q w \<and> entitled cfg p q actor w)"
      by (rule hoare_if [OF hoare_error(2)], rule hoare_weaken [OF hoare_record])
        (auto simp: request_fields_def begun_def)
    then show "hoare cfg (begun cfg p q actor x) (case x of (replayed, _) \<Rightarrow>
        if replayed then raise RuntimeError ''pre_dispatch_started_attempt_reset_replayed''
        else record_event cfg p ''execution_pre_dispatch_restart_recovered'' actor' (request_fields q))
        (\<lambda>_ w. pending p q w \<and> entitled cfg p q actor w)"
      by (simp add: case_prod_beta)
  qed
qed

text \<open>
  Starting: the pathway runs under this attempt afterwards; when it does not, only the
  attempt that was never dispatched is discarded.
\<close>

lemma started_bound:
  assumes b: "built cfg p ''execution_started'' actor ([(''from'', PStr (state_value s)),
      (''to'', PStr (state_value RUNNING))] @ request_fields q @ [(''reason'', PStr why)]) e"
    and a: "appends e w w'" and pol: "policy_ok (cpolicy cfg)" and q: "\<not> blank (attempt_id q)"
  shows "bound_to w' p (attempt_id q)"
proof -
  have "running_attempt (stored_event e # ds) = Inr (attempt_id q)" for ds
    by (rule running_attempt_binding [OF b _ _ _ q pol, where k = "''attempt_id''"])
      (simp_all add: request_fields_def)
  then show ?thesis using built_fields(1) [OF b] by (simp add: bound_to_def appends_events [OF a])
qed

lemma start_spec:
  assumes pol: "policy_ok (cpolicy cfg)" and i: "inv cfg w" and q: "\<not> blank (attempt_id q)"
    and act: "acts_for cfg p actor w"
  shows "wp (start_execution_pathway cfg p q actor)
    (\<lambda>_ w'. commit cfg w w' \<and> same_log w w' \<and> running_bound cfg p q actor w')
    (\<lambda>_ w'. same_data w w') w"
  unfolding start_execution_pathway_def wp(6)
proof (rule wp_state)
  fix u r assume u: "same_data w u" and r: "find_row p (pathways (wstore w)) = Some r"
  show "wp (in_store (get_definition (cenv cfg) p)) (\<lambda>d. wp
      (seq (lift (ensure_transition (row_state r) RUNNING)) (
       seq (lift (authorize_transition d (row_state r) RUNNING actor))
        (move cfg p (row_state r) RUNNING ''execution_started'' actor
          (request_fields q @ [(''reason'', PStr (str ''execution_started''))]))))
      (\<lambda>_ w'. commit cfg w w' \<and> same_log w w' \<and> running_bound cfg p q actor w')
      (\<lambda>_ w'. same_data w w')) (\<lambda>_ w'. same_data w w') u"
  proof (rule wp_definition)
    fix v d assume "same_data u v"
    with u have v: "same_data w v" by (rule same_data_trans)
    have t: "tables (wstore v) = tables (wstore w)" using v by (rule same_data_tables)
    have m: "wp (move cfg p (row_state r) RUNNING ''execution_started'' actor
          (request_fields q @ [(''reason'', PStr (str ''execution_started''))]))
        (\<lambda>_ w'. commit cfg w w' \<and> same_log w w' \<and> running_bound cfg p q actor w')
        (\<lambda>_ w'. same_data w w') v"
      if ok: "RUNNING \<in> set (allowed_transitions (row_state r))"
    proof (rule wp_move)
      fix w' e r'
      assume b: "built cfg p ''execution_started'' actor ([(''from'', PStr (state_value (row_state r))),
          (''to'', PStr (state_value RUNNING))]
          @ request_fields q @ [(''reason'', PStr (str ''execution_started''))]) e"
        and a: "appends e v w'" and r': "find_row p (pathways (wstore v)) = Some r'"
        and ps: "pathways (wstore w') = pathways (set_state p RUNNING (wstore v))"
        and l: "same_log v w'"
      have a': "appends e w w'" using a tables_simps [OF t] by (simp add: appends_def)
      have ps': "pathways (wstore w') = pathways (set_state p RUNNING (wstore w))"
        using ps tables_simps(1) [OF t] by (simp add: set_state_def)
      have l': "same_log w w'" using l v by (simp add: same_data_def same_log_def)
      have bound: "bound_to w' p (attempt_id q)" by (rule started_bound [OF b a pol q])
      have "commit cfg w w'"
      proof (rule commit.start [OF b _ _ _ q a' r ok ps' l'])
        show "(''execution_started'', ''attempt_id'') \<in>
          {(''execution_started'', ''attempt_id''), (''pathway_resumed'', ''next_attempt_id'')}" by simp
      qed (simp_all add: request_fields_def)
      moreover have "running_bound cfg p q actor w'"
      proof -
        from act r obtain d where "definition_of cfg r = Some d" "strip actor = execution_actor d"
          by (auto simp: acts_for_def)
        moreover have "find_row p (pathways (wstore w')) = Some (r\<lparr>row_state := RUNNING\<rparr>)"
          using r find_row_Some [OF r] by (simp add: ps' find_row_set_state)
        ultimately show ?thesis using bound
          by (auto simp: running_bound_def definition_of_def)
      qed
      ultimately show "commit cfg w w' \<and> same_log w w' \<and> running_bound cfg p q actor w'"
        using l' by blast
    next
      fix e w' assume "same_data v w'"
      with v show "same_data w w'" by (rule same_data_trans)
    qed
    then show "wp (seq (lift (ensure_transition (row_state r) RUNNING)) (
        seq (lift (authorize_transition d (row_state r) RUNNING actor))
        (move cfg p (row_state r) RUNNING ''execution_started'' actor
          (request_fields q @ [(''reason'', PStr (str ''execution_started''))]))))
      (\<lambda>_ w'. commit cfg w w' \<and> same_log w w' \<and> running_bound cfg p q actor w')
      (\<lambda>_ w'. same_data w w') v"
      using v by (auto simp: wp ensure_transition_def split: sum.splits)
  next
    fix e v assume "same_data u v"
    with u show "same_data w v" by (rule same_data_trans)
  qed
qed simp


lemma pending_undispatched: "pending p q w \<Longrightarrow> undispatched (attempt_id q) w"
  by (simp add: pending_def)

lemma hoare_start:
  assumes q: "\<not> blank (attempt_id q)"
  shows "hoare cfg (\<lambda>w. pending p q w \<and> entitled cfg p q actor w) (start_or_discard cfg p q actor)
    (\<lambda>_ w. pending p q w \<and> running_bound cfg p q actor w)"
proof (rule hoareI)
  fix w
  assume pol: "policy_ok (cpolicy cfg)" and i: "inv cfg w"
    and pre: "pending p q w \<and> entitled cfg p q actor w"
  let ?Q = "\<lambda>_ w'. steps cfg w w' \<and> pending p q w' \<and> running_bound cfg p q actor w'"
  have fail: "wp (bnd (in_store (get_state p)) (\<lambda>st. if st \<noteq> RUNNING
      then seq (in_ledger (discard_started (attempt_id q))) (throw exc) else throw exc))
      ?Q (\<lambda>_ w'. steps cfg w w') v" if v: "same_data w v" for v and exc :: exn
    unfolding wp(6)
  proof (rule wp_state)
    fix u r assume "same_data v u"
    with v have u: "same_data w u" by (rule same_data_trans)
    with pre have un: "attempt_id q \<notin> dp_attempt ` set (wdispatched u)"
      by (auto simp: pending_def undispatched_def same_data_def same_log_def)
    have "wp (in_ledger (discard_started (attempt_id q))) (\<lambda>_ w'. steps cfg w w')
        (\<lambda>_ w'. steps cfg w w') u"
      unfolding wp_in_ledger
    proof (rule wp_discard)
      fix l' :: ledger assume "attempts l' = filter (\<lambda>r. \<not> discardable (attempt_id q) r) (attempts (wledger u))"
      with u un show "steps cfg w (u\<lparr>wledger := l'\<rparr>)"
        by (blast intro: rtranclp_trans idle_step discard_step)
    next
      fix e and l' :: ledger assume "attempts l' = attempts (wledger u)"
      with u show "steps cfg w (u\<lparr>wledger := l'\<rparr>)"
        by (blast intro: idle_step same_data_trans same_data_ledger)
    qed
    with u show "wp (if row_state r \<noteq> RUNNING
        then seq (in_ledger (discard_started (attempt_id q))) (throw exc) else throw exc)
        ?Q (\<lambda>_ w'. steps cfg w w') u"
      by (simp add: wp idle_step)
  next
    fix e u assume "same_data v u"
    with v show "steps cfg w u" by (blast intro: idle_step same_data_trans)
  qed
  have body: "wp (bnd (in_store (get_state p)) (\<lambda>current.
          if current = APPROVED then start_execution_pathway cfg p q actor
          else if current \<noteq> RUNNING then
            throw (Exn ValueError (str ''pathway must be approved or running, got '' @ state_value current))
          else ret ())) ?Q (\<lambda>_ w'. same_data w w') w"
    unfolding wp(6)
  proof (rule wp_state)
    fix u r assume u: "same_data w u" and r: "find_row p (pathways (wstore w)) = Some r"
    note parts = same_data_parts [OF u]
    have ent: "entitled cfg p q actor u" and pen: "pending p q u"
      using pre parts by (blast intro: same_rules)+
    have iu: "inv cfg u" using steps_inv [OF idle_step [OF u] i pol] .
    have run: "running_bound cfg p q actor u" if "row_state r = RUNNING"
      using ent r that tables_simps(1) [OF same_data_tables [OF u]]
      by (auto simp: entitled_def acts_for_def running_bound_def)
    have "wp (start_execution_pathway cfg p q actor) ?Q (\<lambda>_ w'. same_data w w') u"
    proof (rule wp_mono [OF start_spec [OF pol iu q]])
      show "acts_for cfg p actor u" using ent by (simp add: entitled_def)
    next
      fix w' assume "commit cfg u w' \<and> same_log u w' \<and> running_bound cfg p q actor w'"
      with u pen show "?Q () w'"
        by (blast intro: rtranclp_trans idle_step commit_step pending_same)
    next
      fix w' assume "same_data u w'"
      with u show "same_data w w'" by (rule same_data_trans)
    qed
    with u pen run show "wp (if row_state r = APPROVED then start_execution_pathway cfg p q actor
          else if row_state r \<noteq> RUNNING then
            throw (Exn ValueError (str ''pathway must be approved or running, got ''
              @ state_value (row_state r)))
          else ret ()) ?Q (\<lambda>_ w'. same_data w w') u"
      by (simp add: wp idle_step)
  qed
  show "wp (start_or_discard cfg p q actor) ?Q (\<lambda>_ w'. steps cfg w w') w"
    unfolding start_or_discard_def wp(8)
    by (rule wp_mono [OF body]) (auto intro: idle_step fail)
qed

section \<open>Dispatch\<close>

lemma implements_run_executor:
  "implements cfg (ex q) \<Longrightarrow> implements cfg (run_executor ex q)"
  unfolding run_executor_def by (intro implements_rules)

lemma hoare_dispatch:
  assumes ex: "implements cfg (ex q)"
  shows "hoare cfg (\<lambda>w. pending p q w \<and> running_bound cfg p q actor w)
    (dispatch_attempt cfg p q actor ex) (\<lambda>_ _. True)"
  unfolding dispatch_attempt_def
proof (rule hoare_seq)
  show "hoare cfg (\<lambda>w. pending p q w \<and> running_bound cfg p q actor w) (log_dispatch p q actor) (\<lambda>_ _. True)"
  proof (rule hoareI)
    fix w assume pre: "pending p q w \<and> running_bound cfg p q actor w"
    let ?d = "\<lparr>dp_pathway = p, dp_attempt = attempt_id q, dp_actor = strip actor\<rparr>"
    let ?w = "w\<lparr>wdispatched := ?d # wdispatched w\<rparr>"
    from pre obtain att r def where f: "attempt_id q \<notin> dp_attempt ` set (wdispatched w)"
      "find_attempt (attempt_id q) (attempts (wledger w)) = Some att"
      "at_pathway_id att = p" "at_result att = None"
      "find_row p (pathways (wstore w)) = Some r" "row_state r = RUNNING"
      "bound_to w p (attempt_id q)" "definition_of cfg r = Some def" "strip actor = execution_actor def"
      unfolding pending_def undispatched_def running_bound_def by blast
    have "commit cfg w ?w"
      using f by (intro commit.dispatch [of ?d w att r cfg def]) (simp_all add: same_paths_def same_events_def)
    then show "wp (log_dispatch p q actor) (\<lambda>_ w'. steps cfg w w' \<and> True) (\<lambda>_ w'. steps cfg w w') w"
      by (simp add: log_dispatch_def wp_def commit_step)
  qed
next
  show "implements cfg (bnd (run_executor ex q) (\<lambda>r.
     bnd (persist_execution_result cfg p q actor r) (\<lambda>uncertain. case uncertain of
       Some u \<Rightarrow> ret u
     | None \<Rightarrow>
         seq (record_event cfg p ''execution_result'' actor (request_fields q @ result_fields r)) (
         seq (finish_execution_pathway cfg p q actor r) (ret r)))))"
    by (intro implements_bnd implements_run_executor [of cfg ex q, OF ex] implements_persist_execution)
      (auto intro!: implements_seq implements_record implements_finish_execution implements_basic
        simp: request_fields_def result_fields_def split: option.splits)
qed

theorem implements_execute:
  assumes ex: "implements cfg (ex q)" and q: "\<not> blank (attempt_id q)"
  shows "implements cfg (execute cfg p q actor ex)"
  unfolding execute_def Let_def
proof (rule hoare_bnd [OF hoare_definition])
  fix d
  let ?P = "\<lambda>w. \<exists>r. find_row p (pathways (wstore w)) = Some r \<and> definition_of cfg r = Some d"
  let ?run = "seq (start_or_discard cfg p q actor) (dispatch_attempt cfg p q actor ex)"
  have run: "hoare cfg (\<lambda>w. pending p q w \<and> entitled cfg p q actor w) ?run (\<lambda>_ _. True)"
    by (rule hoare_seq [OF hoare_start [OF q] hoare_dispatch [of cfg ex q, OF ex]])
  have "hoare cfg (begun cfg p q actor x) (if \<not> fst x then ?run else case at_result (snd x) of
         Some doc \<Rightarrow> bnd (lift (result_from_doc (cenv cfg) doc)) (\<lambda>r.
           seq (finish_execution_pathway cfg p q actor r) (ret r))
       | None \<Rightarrow> bnd (in_store (get_state p)) (\<lambda>current.
           if current = APPROVED then seq (restart_attempt cfg p q actor) ?run
           else unresolved_replay cfg p q actor current)) (\<lambda>_ _. True)" for x
  proof (rule hoare_if)
    assume "\<not> fst x"
    then show "hoare cfg (begun cfg p q actor x) ?run (\<lambda>_ _. True)"
      by (intro hoare_weaken [OF run]) (auto simp: begun_def)
  next
    assume x: "\<not> \<not> fst x"
    show "hoare cfg (begun cfg p q actor x) (case at_result (snd x) of
         Some doc \<Rightarrow> bnd (lift (result_from_doc (cenv cfg) doc)) (\<lambda>r.
           seq (finish_execution_pathway cfg p q actor r) (ret r))
       | None \<Rightarrow> bnd (in_store (get_state p)) (\<lambda>current.
           if current = APPROVED then seq (restart_attempt cfg p q actor) ?run
           else unresolved_replay cfg p q actor current)) (\<lambda>_ _. True)"
    proof (cases "at_result (snd x)")
      case (Some doc)
      have "implements cfg (bnd (lift (result_from_doc (cenv cfg) doc)) (\<lambda>r.
           seq (finish_execution_pathway cfg p q actor r) (ret r)))"
        by (intro implements_basic(4) implements_seq implements_finish_execution implements_basic(1))
      from implementsD [OF this] Some show ?thesis by simp
    next
      case None
      let ?R = "\<lambda>w. only_here p q w \<and> entitled cfg p q actor w"
      have "hoare cfg ?R (bnd (in_store (get_state p)) (\<lambda>current.
           if current = APPROVED then seq (restart_attempt cfg p q actor) ?run
           else unresolved_replay cfg p q actor current)) (\<lambda>_ _. True)"
      proof (rule hoare_bnd)
        show "hoare cfg ?R (in_store (get_state p))
          (\<lambda>s w. ?R w \<and> (\<exists>r. find_row p (pathways (wstore w)) = Some r \<and> row_state r = s))"
          by (rule hoare_state [where P = ?R]) (blast intro: same_rules dest: same_data_parts)
      next
        fix s
        show "hoare cfg (\<lambda>w. ?R w \<and> (\<exists>r. find_row p (pathways (wstore w)) = Some r \<and> row_state r = s))
          (if s = APPROVED then seq (restart_attempt cfg p q actor) ?run
           else unresolved_replay cfg p q actor s) (\<lambda>_ _. True)"
        proof (rule hoare_if)
          assume "s = APPROVED"
          then show "hoare cfg (\<lambda>w. ?R w \<and> (\<exists>r. find_row p (pathways (wstore w)) = Some r
              \<and> row_state r = s)) (seq (restart_attempt cfg p q actor) ?run) (\<lambda>_ _. True)"
            by (intro hoare_weaken [OF hoare_seq [OF hoare_restart run]]) (auto simp: approved_now_def)
        qed (rule implementsD [OF implements_unresolved])
      qed
      then have "hoare cfg (begun cfg p q actor x) (bnd (in_store (get_state p)) (\<lambda>current.
           if current = APPROVED then seq (restart_attempt cfg p q actor) ?run
           else unresolved_replay cfg p q actor current)) (\<lambda>_ _. True)"
        by (rule hoare_weaken) (use x in \<open>auto simp: begun_def\<close>)
      with None show ?thesis by simp
    qed
  qed
  then have "hoare cfg (entitled cfg p q actor) (bnd (in_ledger (begin_attempt (cenv cfg) p q))
      (\<lambda>(replayed, attempt). if \<not> replayed then ?run else case at_result attempt of
         Some doc \<Rightarrow> bnd (lift (result_from_doc (cenv cfg) doc)) (\<lambda>r.
           seq (finish_execution_pathway cfg p q actor r) (ret r))
       | None \<Rightarrow> bnd (in_store (get_state p)) (\<lambda>current.
           if current = APPROVED then seq (restart_attempt cfg p q actor) ?run
           else unresolved_replay cfg p q actor current))) (\<lambda>_ _. True)"
    by (intro hoare_bnd [OF hoare_begin]) (simp add: case_prod_beta)
  then have main: "hoare cfg (acts_for cfg p actor) (seq (check_binding p q)
      (bnd (in_ledger (begin_attempt (cenv cfg) p q))
      (\<lambda>(replayed, attempt). if \<not> replayed then ?run else case at_result attempt of
         Some doc \<Rightarrow> bnd (lift (result_from_doc (cenv cfg) doc)) (\<lambda>r.
           seq (finish_execution_pathway cfg p q actor r) (ret r))
       | None \<Rightarrow> bnd (in_store (get_state p)) (\<lambda>current.
           if current = APPROVED then seq (restart_attempt cfg p q actor) ?run
           else unresolved_replay cfg p q actor current)))) (\<lambda>_ _. True)"
    by (rule hoare_seq [OF hoare_check_binding])
  show "hoare cfg ?P (seq (lift (authorize_execution_access d actor)) (seq (check_binding p q)
      (bnd (in_ledger (begin_attempt (cenv cfg) p q))
      (\<lambda>(replayed, attempt). if \<not> replayed then ?run else case at_result attempt of
         Some doc \<Rightarrow> bnd (lift (result_from_doc (cenv cfg) doc)) (\<lambda>r.
           seq (finish_execution_pathway cfg p q actor r) (ret r))
       | None \<Rightarrow> bnd (in_store (get_state p)) (\<lambda>current.
           if current = APPROVED then seq (restart_attempt cfg p q actor) ?run
           else unresolved_replay cfg p q actor current))))) (\<lambda>_ _. True)"
    by (rule hoare_check, rule hoare_weaken [OF main])
      (auto simp: authorize_execution_ok acts_for_def)
qed


section \<open>Reconciliation\<close>

text \<open>A row that \<open>begin\<close> has just inserted was never dispatched.\<close>

lemma hoare_begin_fresh:
  "hoare cfg (\<lambda>_. True) (in_ledger (begin_attempt env p q))
    (\<lambda>x w. \<not> fst x \<longrightarrow> undispatched (attempt_id q) w)"
proof (rule hoareI, unfold wp_in_ledger, rule wp_begin)
  fix w and l' :: ledger and fp
  assume i: "inv cfg w"
    and sel: "select_attempt (attempt_id q) p (idempotency_key q) (attempts (wledger w)) = None"
    and l': "attempts l' = attempts (wledger w) @ [started_record p q fp]"
  from sel have "attempt_id q \<notin> at_attempt_id ` set (attempts (wledger w))"
    by (simp add: select_attempt_None)
  with i have "undispatched (attempt_id q) (w\<lparr>wledger := l'\<rparr>)"
    by (force simp: undispatched_def inv_def dispatches_ok_def dispatch_ok_def)
  with begin_step [OF sel l'] show "steps cfg w (w\<lparr>wledger := l'\<rparr>)
      \<and> (\<not> fst (False, started_record p q fp) \<longrightarrow> undispatched (attempt_id q) (w\<lparr>wledger := l'\<rparr>))"
    by simp
qed (auto intro: idle_step same_data_ledger)

theorem implements_reconcile:
  assumes st: "\<And>att. implements cfg (strat q att)"
  shows "implements cfg (reconcile cfg p q actor strat)"
proof -
  have obs: "implements cfg (bnd (strat q att) (settle_observation cfg p q actor))" for att
    by (intro implements_bnd st implements_settle)
  let ?after = "\<lambda>x. if \<not> fst x then
         seq (in_ledger (discard_started (attempt_id q)))
           (raise ValueError ''reconciliation requires an existing persisted attempt'')
       else case at_result (snd x) of
           None \<Rightarrow> bnd (strat q (snd x)) (settle_observation cfg p q actor)
         | Some doc \<Rightarrow> bnd (lift (result_from_doc (cenv cfg) doc)) (\<lambda>r.
             if status r \<noteq> STATUS_UNKNOWN then
               seq (finish_reconciliation_pathway cfg p q actor r True) (ret r)
             else bnd (strat q (snd x)) (settle_observation cfg p q actor))"
  have "hoare cfg (\<lambda>w. \<not> fst x \<longrightarrow> undispatched (attempt_id q) w) (?after x) (\<lambda>_ _. True)" for x
  proof (rule hoare_if)
    assume "\<not> fst x"
    then show "hoare cfg (\<lambda>w. \<not> fst x \<longrightarrow> undispatched (attempt_id q) w)
        (seq (in_ledger (discard_started (attempt_id q)))
           (raise ValueError ''reconciliation requires an existing persisted attempt'')) (\<lambda>_ _. True)"
      by (intro hoare_seq [where Q = "\<lambda>_. True"] hoare_discard) simp_all
  next
    show "hoare cfg (\<lambda>w. \<not> fst x \<longrightarrow> undispatched (attempt_id q) w) (case at_result (snd x) of
           None \<Rightarrow> bnd (strat q (snd x)) (settle_observation cfg p q actor)
         | Some doc \<Rightarrow> bnd (lift (result_from_doc (cenv cfg) doc)) (\<lambda>r.
             if status r \<noteq> STATUS_UNKNOWN then
               seq (finish_reconciliation_pathway cfg p q actor r True) (ret r)
             else bnd (strat q (snd x)) (settle_observation cfg p q actor))) (\<lambda>_ _. True)"
    proof (rule implementsD, cases "at_result (snd x)")
      case (Some doc)
      have "implements cfg (bnd (lift (result_from_doc (cenv cfg) doc)) (\<lambda>r.
             if status r \<noteq> STATUS_UNKNOWN then
               seq (finish_reconciliation_pathway cfg p q actor r True) (ret r)
             else bnd (strat q (snd x)) (settle_observation cfg p q actor)))"
        by (intro implements_basic(4,6,1) implements_seq implements_finish_reconciliation obs)
      with Some show "implements cfg (case at_result (snd x) of
           None \<Rightarrow> bnd (strat q (snd x)) (settle_observation cfg p q actor)
         | Some doc \<Rightarrow> bnd (lift (result_from_doc (cenv cfg) doc)) (\<lambda>r.
             if status r \<noteq> STATUS_UNKNOWN then
               seq (finish_reconciliation_pathway cfg p q actor r True) (ret r)
             else bnd (strat q (snd x)) (settle_observation cfg p q actor)))" by simp
    qed (simp add: obs)
  qed
  then have main: "implements cfg (bnd (in_ledger (begin_attempt (cenv cfg) p q)) (\<lambda>x. ?after x))"
    by (rule hoare_bnd [OF hoare_begin_fresh])
  show ?thesis
    unfolding reconcile_def Let_def
    by (rule implements_bnd [OF implements_definition], rule implements_basic(5),
        rule implements_bnd [OF implements_state], rule implements_basic(6),
        rule implements_basic(2), use main in \<open>simp add: split_def\<close>)
qed

lemma implements_reconcile_started:
  assumes "\<And>att. implements cfg (strat q att)"
  shows "implements cfg (reconcile_started_attempt cfg p q strat)"
  unfolding reconcile_started_attempt_def
  by (intro implements_bnd implements_begin)
    (auto simp: case_prod_beta intro!: implements_basic implements_bnd implements_seq
      implements_finish assms)

end
