(* ===== verification/Rpr_Safety.thy ===== *)
theory Rpr_Safety
  imports Rpr_Dispatch
begin

text \<open>
  The whole runtime as a transition system: any method called by anybody with any arguments,
  in any order, with storage faults and process crashes at any statement, and with executors
  that call further methods before they answer. The safety properties of the reachable worlds
  rest on the refinement of the abstract system.
\<close>

section \<open>Calls\<close>

text \<open>
  \<open>weather\<close> changes the fault schedules and the clock. An executor and a reconciliation
  strategy are foreign code: all that is assumed is that what they do to the stored data they
  do through further calls.
\<close>

inductive call :: "config \<Rightarrow> world \<Rightarrow> world \<Rightarrow> bool" for cfg where
  weather: "same_data w w' \<Longrightarrow> call cfg w w'"
| call_register: "register cfg d key w = (r, w') \<Longrightarrow> call cfg w w'"
| call_transition: "transition cfg p t actor reason w = (r1, w') \<Longrightarrow> call cfg w w'"
| call_principal: "transition_as_principal cfg resolver binding p t cred reason w = (r1, w') \<Longrightarrow> call cfg w w'"
| call_execute: "\<not> blank (attempt_id q) \<Longrightarrow>
     (\<And>v x v'. ex q v = (x, v') \<Longrightarrow> (call cfg)\<^sup>*\<^sup>* v v') \<Longrightarrow>
     execute cfg p q actor ex w = (r2, w') \<Longrightarrow> call cfg w w'"
| call_reconcile:
    "(\<And>att v x v'. strat q att v = (x, v') \<Longrightarrow> (call cfg)\<^sup>*\<^sup>* v v') \<Longrightarrow>
     reconcile cfg p q actor strat w = (r2, w') \<Longrightarrow> call cfg w w'"
| call_reconcile_started:
    "(\<And>att v x v'. strat q att v = (x, v') \<Longrightarrow> (call cfg)\<^sup>*\<^sup>* v v') \<Longrightarrow>
     reconcile_started_attempt cfg p q strat w = (r2, w') \<Longrightarrow> call cfg w w'"
| call_repair: "complete_repair cfg p actor prior ev reason comp_rec w = (r1, w') \<Longrightarrow> call cfg w w'"
| call_resume: "resume cfg p actor prior nxt reason w = (r1, w') \<Longrightarrow> call cfg w w'"
| call_abort: "abort_with_residuals cfg p actor residuals reason w = (r1, w') \<Longrightarrow> call cfg w w'"

text \<open>Before the first call nothing is stored.\<close>

definition initial :: "world \<Rightarrow> bool" where
  "initial w \<longleftrightarrow> pathways (wstore w) = [] \<and> event_rows (wstore w) = []
     \<and> attempts (wledger w) = [] \<and> wdispatched w = []"

definition reachable :: "config \<Rightarrow> world \<Rightarrow> bool" where
  "reachable cfg w \<longleftrightarrow> (\<exists>w0. initial w0 \<and> (call cfg)\<^sup>*\<^sup>* w0 w)"

lemma implements_steps:
  assumes "implements cfg m" "policy_ok (cpolicy cfg)" "inv cfg w" "m w = (r, w')"
  shows "steps cfg w w'"
proof -
  have "wp m (\<lambda>_ w'. steps cfg w w') (\<lambda>_ w'. steps cfg w w') w"
    using hoareD [OF assms(1-3) TrueI] by simp
  with assms(4) show ?thesis by (cases r) (auto simp: wp_def)
qed

lemma implements_from_steps:
  assumes "\<And>w r w'. inv cfg w \<Longrightarrow> m w = (r, w') \<Longrightarrow> steps cfg w w'"
  shows "implements cfg m"
  using assms by (intro hoareI wpI) auto

text \<open>Foreign code that works through simulated calls is simulated.\<close>

lemma foreign_implements:
  assumes "\<And>v x v'. m v = (x, v') \<Longrightarrow>
      (\<lambda>v v'. call cfg v v' \<and> (inv cfg v \<longrightarrow> steps cfg v v'))\<^sup>*\<^sup>* v v'"
    and pol: "policy_ok (cpolicy cfg)"
  shows "implements cfg m"
proof (rule implements_from_steps)
  fix v x v' assume i: "inv cfg v" and "m v = (x, v')"
  from assms(1) [OF this(2)] show "steps cfg v v'"
  proof (induction rule: rtranclp_induct)
    case (step y z)
    with i have "inv cfg y" using steps_inv pol by blast
    with step show ?case by (auto intro: rtranclp_trans)
  qed simp
qed

text \<open>The abstract system simulates every call.\<close>

lemma call_steps:
  assumes "call cfg w w'" "policy_ok (cpolicy cfg)"
  shows "inv cfg w \<Longrightarrow> steps cfg w w'"
  using assms(1)
proof (induction rule: call.induct)
  case (weather w w')
  then show ?case by (blast intro: idle_step)
next
  case (call_register d key w r w')
  then show ?case by (blast intro: implements_steps [OF implements_register assms(2)])
next
  case (call_transition p t actor reason w r w')
  then show ?case by (blast intro: implements_steps [OF implements_transition assms(2)])
next
  case (call_principal resolver binding p t cred reason w r w')
  then show ?case by (blast intro: implements_steps [OF implements_principal assms(2)])
next
  case (call_execute q ex p actor w r w')
  have "implements cfg (ex q)"
    by (rule foreign_implements [OF call_execute.IH assms(2)])
  from implements_steps [OF implements_execute [of cfg ex q, OF this call_execute.hyps(1)] assms(2)
      call_execute.prems call_execute.hyps(2)] show ?case .
next
  case (call_reconcile strat q p actor w r w')
  have "implements cfg (strat q att)" for att
    by (rule foreign_implements [OF call_reconcile.IH assms(2)])
  from implements_steps [OF implements_reconcile [of cfg strat q, OF this] assms(2)
      call_reconcile.prems call_reconcile.hyps] show ?case .
next
  case (call_reconcile_started strat q p w r w')
  have "implements cfg (strat q att)" for att
    by (rule foreign_implements [OF call_reconcile_started.IH assms(2)])
  from implements_steps [OF implements_reconcile_started [of cfg strat q, OF this] assms(2)
      call_reconcile_started.prems call_reconcile_started.hyps] show ?case .
next
  case (call_repair p actor prior ev reason comp_rec w r w')
  then show ?case by (blast intro: implements_steps [OF implements_repair assms(2)])
next
  case (call_resume p actor prior nxt reason w r w')
  then show ?case by (blast intro: implements_steps [OF implements_resume assms(2)])
next
  case (call_abort p actor residuals reason w r w')
  then show ?case by (blast intro: implements_steps [OF implements_abort assms(2)])
qed

lemma calls_steps:
  assumes "(call cfg)\<^sup>*\<^sup>* w w'" "policy_ok (cpolicy cfg)" "inv cfg w"
  shows "steps cfg w w' \<and> inv cfg w'"
  using assms(1)
proof (induction rule: rtranclp_induct)
  case (step y z)
  then have "steps cfg y z" using call_steps assms(2) by blast
  with step show ?case using steps_inv assms(2) by (blast intro: rtranclp_trans)
qed (simp add: assms(3))

lemma initial_inv: "initial w \<Longrightarrow> inv cfg w"
  by (simp add: initial_def inv_def store_ok_def attempts_ok_def chains_ok_def bindings_ok_def
      dispatches_ok_def approvals_ok_def events_of_def rows_of_def)

lemma reachable_inv: "reachable cfg w \<Longrightarrow> policy_ok (cpolicy cfg) \<Longrightarrow> inv cfg w"
  using calls_steps initial_inv by (auto simp: reachable_def)

lemma reachable_call: "reachable cfg w \<Longrightarrow> call cfg w w' \<Longrightarrow> reachable cfg w'"
  by (auto simp: reachable_def intro: rtranclp.rtrancl_into_rtrancl)

section \<open>Progress\<close>

text \<open>What later calls may do to the data: the log of a pathway grows, its row stays and its state follows the lifecycle.\<close>

abbreviation lifecycle :: "pathway_state \<Rightarrow> pathway_state \<Rightarrow> bool" where
  "lifecycle \<equiv> (\<lambda>s t. t \<in> set (allowed_transitions s))\<^sup>*\<^sup>*"

definition row_after :: "pathway_row \<Rightarrow> pathway_row \<Rightarrow> bool" where
  "row_after r r' \<longleftrightarrow> row_id r' = row_id r \<and> row_doc r' = row_doc r \<and> row_key r' = row_key r
     \<and> row_fingerprint r' = row_fingerprint r \<and> lifecycle (row_state r) (row_state r')"

definition progress :: "world \<Rightarrow> world \<Rightarrow> bool" where
  "progress w w' \<longleftrightarrow>
     (\<forall>r \<in> set (pathways (wstore w)). \<exists>r' \<in> set (pathways (wstore w')). row_after r r')
   \<and> (\<forall>p. \<exists>es. events_of (wstore w') p = events_of (wstore w) p @ es)
   \<and> (\<exists>ds. wdispatched w' = ds @ wdispatched w)"

lemma row_after_refl [simp]: "row_after r r"
  by (simp add: row_after_def)

lemma row_after_trans: "row_after r s \<Longrightarrow> row_after s t \<Longrightarrow> row_after r t"
  by (auto simp: row_after_def)

lemma progress_refl: "progress w w"
  by (auto simp: progress_def intro: row_after_refl)

lemma progress_trans:
  assumes "progress u v" "progress v w"
  shows "progress u w"
  unfolding progress_def
proof (intro conjI ballI allI)
  fix r assume "r \<in> set (pathways (wstore u))"
  with assms row_after_trans show "\<exists>r' \<in> set (pathways (wstore w)). row_after r r'"
    unfolding progress_def by meson
next
  fix p
  from assms obtain a b where "events_of (wstore v) p = events_of (wstore u) p @ a"
    "events_of (wstore w) p = events_of (wstore v) p @ b"
    unfolding progress_def by blast
  then show "\<exists>es. events_of (wstore w) p = events_of (wstore u) p @ es" by simp
next
  from assms obtain a b where "wdispatched v = a @ wdispatched u" "wdispatched w = b @ wdispatched v"
    unfolding progress_def by blast
  then show "\<exists>ds. wdispatched w = ds @ wdispatched u" by simp
qed

lemma progressI:
  assumes "\<And>r. r \<in> set (pathways (wstore w)) \<Longrightarrow> \<exists>r' \<in> set (pathways (wstore w')). row_after r r'"
    "\<And>p. \<exists>es. events_of (wstore w') p = events_of (wstore w) p @ es"
    "\<exists>ds. wdispatched w' = ds @ wdispatched w"
  shows "progress w w'"
  using assms by (simp add: progress_def)

lemma progress_set_state:
  assumes "store_ok (wstore w)" "find_row p (pathways (wstore w)) = Some r"
    "t \<in> set (allowed_transitions (row_state r))"
    "pathways (wstore w') = pathways (set_state p t (wstore w))"
    "x \<in> set (pathways (wstore w))"
  shows "\<exists>r' \<in> set (pathways (wstore w')). row_after x r'"
proof -
  let ?f = "\<lambda>r. if row_id r = p then r\<lparr>row_state := t\<rparr> else r"
  have "row_after x (?f x)"
    using unique_row [OF assms(1,2,5)] assms(3) by (auto simp: row_after_def)
  moreover have "?f x \<in> set (pathways (wstore w'))"
    unfolding assms(4) using assms(5) by (auto simp: set_state_def)
  ultimately show ?thesis by blast
qed

lemma progress_paths:
  "same_paths w w' \<Longrightarrow> x \<in> set (pathways (wstore w)) \<Longrightarrow>
     \<exists>r' \<in> set (pathways (wstore w')). row_after x r'"
  by (auto simp: same_paths_def intro!: bexI [of _ x])

lemma progress_ledger:
  assumes "same_paths w w'" "same_events w w'" "\<exists>ds. wdispatched w' = ds @ wdispatched w"
  shows "progress w w'"
  by (rule progressI) (use assms in \<open>auto simp: progress_paths same_events_of\<close>)

lemma commit_progress:
  assumes "commit cfg w w'" "store_ok (wstore w)"
  shows "progress w w'"
  using assms(1)
proof cases
  case idle
  then show ?thesis by (intro progress_ledger) (simp_all add: same_data_def same_log_def)
next
  case (create r)
  show ?thesis
    by (rule progressI) (use create(3,4) same_log_parts(2) [OF create(5)] in
        \<open>auto simp: same_events_of intro: row_after_refl\<close>)
next
  case (event p ty actor xs e)
  show ?thesis
    by (rule progressI) (use event(4) same_log_parts(2) [OF event(5)] in
        \<open>auto simp: progress_paths appends_events [OF event(3)]\<close>)
next
  case (move p ty actor r t xs e)
  show ?thesis
    by (rule progressI) (use progress_set_state [OF assms(2) move(4,5,8)]
        same_log_parts(2) [OF move(9)] in \<open>auto simp: appends_events [OF move(3)]\<close>)
next
  case (start p ty actor r xs e k a)
  show ?thesis
    by (rule progressI) (use progress_set_state [OF assms(2) start(7,8,9)]
        same_log_parts(2) [OF start(10)] in \<open>auto simp: appends_events [OF start(6)]\<close>)
next
  case insert
  then show ?thesis by (intro progress_ledger) simp_all
next
  case update
  then show ?thesis by (intro progress_ledger) simp_all
next
  case discard
  then show ?thesis by (intro progress_ledger) simp_all
next
  case (dispatch d)
  then show ?thesis by (intro progress_ledger) simp_all
qed

lemma steps_progress:
  assumes "steps cfg w w'" "inv cfg w" "policy_ok (cpolicy cfg)"
  shows "progress w w'"
  using assms(1)
proof (induction rule: rtranclp_induct)
  case (step y z)
  then have "store_ok (wstore y)" using steps_inv assms(2,3) inv_parts(1) by blast
  with step show ?case using commit_progress progress_trans by blast
qed (rule progress_refl)

lemma reachable_progress:
  assumes "reachable cfg w" "policy_ok (cpolicy cfg)" "(call cfg)\<^sup>*\<^sup>* w w'"
  shows "progress w w'"
  using calls_steps [OF assms(3,2) reachable_inv [OF assms(1,2)]] steps_progress
    reachable_inv [OF assms(1,2)] assms(2) by blast

lemma terminal_lifecycle: "lifecycle s t \<Longrightarrow> s \<in> set terminal_states \<Longrightarrow> t = s"
  by (erule converse_rtranclpE) (auto simp: terminal_states_def)

end
