(* ===== verification/Rpr_Outcomes.thy ===== *)
theory Rpr_Outcomes
  imports Rpr_Safety
begin

text \<open>
  The contract of every method of the runtime, call by call: what a return value says about
  the stored data before and after the call, and that a raised exception leaves the data as
  it was. The contracts are weakest preconditions over the primitives of the store and the
  ledger, under any schedule of storage faults.
\<close>

section \<open>A move and its event\<close>

text \<open>One transaction: the pathway goes from \<open>s\<close> to \<open>t\<close> and the event that says so is appended.\<close>

definition moved :: "config \<Rightarrow> pystr \<Rightarrow> pathway_state \<Rightarrow> pathway_state \<Rightarrow> string \<Rightarrow> pystr
    \<Rightarrow> (string \<times> pv) list \<Rightarrow> world \<Rightarrow> world \<Rightarrow> bool" where
  "moved cfg p s t ty actor xs w w' \<longleftrightarrow> (\<exists>e r. find_row p (pathways (wstore w)) = Some r
     \<and> row_state r = s
     \<and> built cfg p ty actor ([(''from'', PStr (state_value s)), (''to'', PStr (state_value t))] @ xs) e
     \<and> appends e w w' \<and> pathways (wstore w') = pathways (set_state p t (wstore w)) \<and> same_log w w')"

lemma appends_same: "same_data w u \<Longrightarrow> appends e u w' \<Longrightarrow> appends e w w'"
  using tables_simps [OF same_data_tables] by (simp add: appends_def)

lemma same_log_same: "same_data w u \<Longrightarrow> same_log u w' \<Longrightarrow> same_log w w'"
  by (simp add: same_data_def same_log_def)

lemma same_data_find: "same_data w u \<Longrightarrow> find_row p (pathways (wstore u)) = find_row p (pathways (wstore w))"
  by (simp add: same_data_def same_paths_def)

lemma moved_same:
  assumes "same_data w u" "moved cfg p s t ty actor xs u w'"
  shows "moved cfg p s t ty actor xs w w'"
proof -
  have s: "pathways (set_state p t (wstore u)) = pathways (set_state p t (wstore w))"
    using assms(1) by (simp add: same_data_def same_paths_def set_state_def)
  show ?thesis
    using assms(2) appends_same [OF assms(1)] same_log_same [OF assms(1)]
    unfolding moved_def same_data_find [OF assms(1)] s by blast
qed

lemma wp_moved:
  assumes "\<And>w'. moved cfg p s t ty actor xs w w' \<Longrightarrow> Q () w'" "\<And>e w'. same_data w w' \<Longrightarrow> E e w'"
  shows "wp (move cfg p s t ty actor xs) Q E w"
  by (rule wp_move) (use assms in \<open>auto simp: moved_def\<close>)

lemma moved_row:
  assumes "moved cfg p s t ty actor xs w w'"
  obtains r where "find_row p (pathways (wstore w)) = Some r" "row_state r = s"
    "find_row p (pathways (wstore w')) = Some (r\<lparr>row_state := t\<rparr>)"
proof -
  let ?f = "\<lambda>r. if row_id r = p then r\<lparr>row_state := t\<rparr> else r"
  from assms obtain r where r: "find_row p (pathways (wstore w)) = Some r" "row_state r = s"
    "pathways (wstore w') = map ?f (pathways (wstore w))"
    by (auto simp: moved_def set_state_def)
  have "find_row p (map ?f rs) = map_option ?f (find_row p rs)" for rs
    by (induction rs) (auto simp: find_row_def)
  with r find_row_Some [OF r(1)] that show ?thesis by auto
qed

lemma moved_event:
  assumes "moved cfg p s t ty actor xs w w'" "policy_ok (cpolicy cfg)" "distinct (''from'' # ''to'' # map fst xs)"
  obtains e where "events_of (wstore w') p = events_of (wstore w) p @ [e]"
    "event_target e = PStr (state_value t)" "dget_none e (str ''event_type'') = PStr (str ty)"
    "dget_none e (str ''actor'') = PStr actor"
proof -
  from assms(1) obtain e where
    b: "built cfg p ty actor ([(''from'', PStr (state_value s)), (''to'', PStr (state_value t))] @ xs) e"
    and a: "appends e w w'" by (auto simp: moved_def)
  have "dget_none (sorted_items (ev_payload e)) (str ''to'') = PStr (state_value t)"
    using assms(2,3) by (intro built_text [OF b]) (simp_all add: policy_ok_def)
  with that [of "stored_event e"] built_fields [OF b] appends_events [OF a] show ?thesis
    by (simp add: event_target_stored)
qed

text \<open>Every handler reads the state and the definition of the pathway first.\<close>

lemma wp_loaded:
  assumes "\<And>u r d. same_data w u \<Longrightarrow> find_row p (pathways (wstore w)) = Some r \<Longrightarrow>
      definition_of cfg r = Some d \<Longrightarrow> wp (f (row_state r) d) Q E u"
    and "\<And>e u. same_data w u \<Longrightarrow> E e u"
  shows "wp (bnd (in_store (get_state p)) (\<lambda>s. bnd (in_store (get_definition (cenv cfg) p)) (f s))) Q E w"
  unfolding wp(6)
proof (rule wp_state)
  fix u r assume u: "same_data w u" "find_row p (pathways (wstore w)) = Some r"
  show "wp (in_store (get_definition (cenv cfg) p)) (\<lambda>d. wp (f (row_state r) d) Q E) E u"
  proof (rule wp_definition)
    fix v r' d assume v: "same_data u v" "find_row p (pathways (wstore u)) = Some r'"
      "definition_from_dict (cenv cfg) (row_doc r') = Inr d"
    then have "r' = r" using u same_data_find by simp
    with v(3) have "definition_of cfg r = Some d" by (simp add: definition_of_def)
    with u v(1) show "wp (f (row_state r) d) Q E v"
      by (intro assms(1)) (auto intro: same_data_trans)
  qed (use u assms(2) same_data_trans in blast)
qed (rule assms(2))

text \<open>The last steps that the handlers share: the checks of state and authority, and the move.\<close>

definition checked_move where
  "checked_move cfg p s t auth ty actor payload =
     seq (lift (ensure_transition s t)) (seq (lift auth)
       (bnd (lift payload) (\<lambda>xs. seq (move cfg p s t ty actor xs) (ret t))))"

lemma lift_value: "bnd (lift (Inr x)) f = f x"
  by (simp add: comb_defs)

lemma lift_rbind: "bnd (lift (rbind r g)) h = bnd (lift r) (\<lambda>a. bnd (lift (g a)) h)"
  by (cases r) (simp_all add: comb_defs)

lemma lift_check: "seq (lift (if b then err k msg else Inr ())) n = (if b then raise k msg else n)"
  by (simp add: comb_defs)

lemma wp_seq_eq: "wp (seq m n) Q E = wp m (\<lambda>_. wp n Q E) E"
  by (rule ext) (rule wp)

lemma wp_bnd_eq: "wp (bnd m f) Q E = wp m (\<lambda>a. wp (f a) Q E) E"
  by (rule ext) (rule wp)

lemmas lift_lift = lift_value lift_rbind

lemma wp_checked_move:
  assumes u: "same_data w u"
    and ok: "\<And>w' xs. t \<in> set (allowed_transitions s) \<Longrightarrow> auth = Inr () \<Longrightarrow> payload = Inr xs \<Longrightarrow>
      moved cfg p s t ty actor xs w w' \<Longrightarrow> Q t w'"
    and bad: "\<And>e w'. same_data w w' \<Longrightarrow> E e w'"
  shows "wp (checked_move cfg p s t auth ty actor payload) Q E u"
proof -
  have "wp (move cfg p s t ty actor xs) (\<lambda>_. Q t) E u"
    if c: "t \<in> set (allowed_transitions s)" "auth = Inr ()" "payload = Inr xs" for xs
  proof (rule wp_moved)
    fix w' assume "moved cfg p s t ty actor xs u w'"
    then show "Q t w'" by (intro ok [OF c] moved_same [OF u])
  next
    fix e w' assume "same_data u w'"
    then show "E e w'" by (intro bad same_data_trans [OF u])
  qed
  then show ?thesis
    using bad [OF u] by (auto simp: checked_move_def wp ensure_transition_def split: sum.splits)
qed

section \<open>Transitions\<close>

definition transition_done :: "config \<Rightarrow> pystr \<Rightarrow> pathway_state \<Rightarrow> pystr \<Rightarrow> pystr \<Rightarrow> world \<Rightarrow> world \<Rightarrow> bool" where
  "transition_done cfg p t actor reason w w' \<longleftrightarrow> (\<exists>r d. find_row p (pathways (wstore w)) = Some r
     \<and> definition_of cfg r = Some d \<and> t \<in> set (allowed_transitions (row_state r)) \<and> t \<noteq> RUNNING
     \<and> strip actor \<noteq> [] \<and> may_move d (row_state r) (strip actor) t
     \<and> moved cfg p (row_state r) t ''state_transition'' actor [(''reason'', PStr reason)] w w')"

lemma wp_transition_done:
  assumes "\<And>w'. transition_done cfg p t actor reason w w' \<Longrightarrow> Q t w'" "\<And>e w'. same_data w w' \<Longrightarrow> E e w'"
  shows "wp (transition cfg p t actor reason) Q E w"
proof (cases "t = RUNNING")
  case True
  with assms(2) show ?thesis by (simp add: transition_def wp)
next
  case False
  have body: "wp (bnd (in_store (get_state p)) (\<lambda>s. bnd (in_store (get_definition (cenv cfg) p)) (\<lambda>d.
      checked_move cfg p s t (authorize_transition d s t actor) ''state_transition'' actor
        (Inr [(''reason'', PStr reason)])))) Q E w"
  proof (rule wp_loaded)
    fix u r d assume u: "same_data w u" "find_row p (pathways (wstore w)) = Some r"
      "definition_of cfg r = Some d"
    show "wp (checked_move cfg p (row_state r) t (authorize_transition d (row_state r) t actor)
        ''state_transition'' actor (Inr [(''reason'', PStr reason)])) Q E u"
      by (rule wp_checked_move [OF u(1)])
        (use u(2,3) False assms in \<open>auto simp: transition_done_def authorize_transition_ok\<close>)
  qed (rule assms(2))
  with False show ?thesis by (simp add: transition_def checked_move_def lift_lift)
qed

lemma wp_result:
  "wp m Q E w \<Longrightarrow> m w = (r, w') \<Longrightarrow> case r of Inl e \<Rightarrow> E e w' | Inr a \<Rightarrow> Q a w'"
  by (simp add: wp_def split: sum.splits)

lemma transition_result:
  assumes "transition cfg p t actor reason w = (r, w')"
  shows "case r of Inl _ \<Rightarrow> same_data w w' | Inr s \<Rightarrow> s = t \<and> transition_done cfg p t actor reason w w'"
  by (rule wp_result [OF wp_transition_done assms]) simp_all

section \<open>Repair\<close>

definition failed_attempt :: "world \<Rightarrow> pystr \<Rightarrow> pystr \<Rightarrow> bool" where
  "failed_attempt w p a \<longleftrightarrow> (\<exists>r. find_attempt a (attempts (wledger w)) = Some r
     \<and> at_pathway_id r = p \<and> at_result r \<noteq> None \<and> at_status r = status_value FAILED)"

lemma wp_failed_attempt:
  assumes "\<And>w'. same_data w w' \<Longrightarrow> failed_attempt w p a \<Longrightarrow> Q () w'" "\<And>e w'. same_data w w' \<Longrightarrow> E e w'"
  shows "wp (require_failed_attempt what p a) Q E w"
proof -
  have "wp (in_ledger (get_attempt a)) (\<lambda>r. wp (if at_pathway_id r \<noteq> p \<or> at_result r = None
      then raise ValueError ''prior attempt is not a finished attempt for this pathway''
      else if at_status r \<noteq> status_value FAILED
      then raise ValueError (what @ '' requires a failed prior attempt'') else ret ()) Q E) E w"
    unfolding wp_in_ledger
  proof (rule wp_get_attempt)
    fix l' :: ledger and r assume l: "attempts l' = attempts (wledger w)" "find_attempt a (attempts (wledger w)) = Some r"
    have "same_data w (w\<lparr>wledger := l'\<rparr>)" using l(1) by (rule same_data_ledger)
    with l(2) assms show "wp (if at_pathway_id r \<noteq> p \<or> at_result r = None
      then raise ValueError ''prior attempt is not a finished attempt for this pathway''
      else if at_status r \<noteq> status_value FAILED
      then raise ValueError (what @ '' requires a failed prior attempt'') else ret ()) Q E (w\<lparr>wledger := l'\<rparr>)"
      by (simp add: wp failed_attempt_def)
  qed (auto intro: assms same_data_ledger)
  then show ?thesis by (simp add: require_failed_attempt_def wp)
qed

definition repair_done :: "config \<Rightarrow> pystr \<Rightarrow> pystr \<Rightarrow> pystr \<Rightarrow> pdict \<Rightarrow> pystr \<Rightarrow> world \<Rightarrow> world \<Rightarrow> bool" where
  "repair_done cfg p actor prior ev reason w w' \<longleftrightarrow> ev \<noteq> [] \<and> failed_attempt w p prior
     \<and> (\<exists>r d c. find_row p (pathways (wstore w)) = Some r \<and> definition_of cfg r = Some d
        \<and> row_state r = REPAIR_REQUIRED \<and> strip actor \<noteq> [] \<and> strip actor = repair_owner d
        \<and> moved cfg p REPAIR_REQUIRED READY_TO_RESUME ''repair_completed'' actor
            [(''prior_attempt_id'', PStr prior), (''repair_evidence'', PDict ev),
             (''compensation'', c), (''reason'', PStr reason)] w w')"

lemma failed_attempt_same: "same_data w u \<Longrightarrow> failed_attempt u p a \<longleftrightarrow> failed_attempt w p a"
  by (simp add: same_data_def same_log_def failed_attempt_def)

lemma wp_repair:
  assumes ok: "\<And>w'. repair_done cfg p actor prior ev reason w w' \<Longrightarrow> Q READY_TO_RESUME w'"
    and bad: "\<And>e w'. same_data w w' \<Longrightarrow> E e w'"
  shows "wp (complete_repair cfg p actor prior ev reason c) Q E w"
proof (cases "strip prior = [] \<or> ev = []")
  case True
  then show ?thesis by (auto simp: complete_repair_def wp bad)
next
  case False
  define payload where "payload = rbind (case c of None \<Rightarrow> Inr PNone
      | Some c \<Rightarrow> rbind (compensation_to_dict c) (\<lambda>x. Inr (PDict x))) (\<lambda>comp.
      Inr [(''prior_attempt_id'', PStr prior), (''repair_evidence'', PDict ev),
        (''compensation'', comp), (''reason'', PStr reason)])"
  let ?m = "\<lambda>s d. checked_move cfg p s READY_TO_RESUME
      (authorize_transition d s READY_TO_RESUME actor) ''repair_completed'' actor payload"
  have tail: "wp (?m (row_state r) d) Q E v"
    if v: "same_data w v" and r: "find_row p (pathways (wstore w)) = Some r" "definition_of cfg r = Some d"
      and fa: "failed_attempt w p prior" for v r d
  proof (rule wp_checked_move [OF v])
    fix w' xs
    assume s: "READY_TO_RESUME \<in> set (allowed_transitions (row_state r))"
      and a: "authorize_transition d (row_state r) READY_TO_RESUME actor = Inr ()"
      and xs: "payload = Inr xs"
      and m: "moved cfg p (row_state r) READY_TO_RESUME ''repair_completed'' actor xs w w'"
    from s have st: "row_state r = REPAIR_REQUIRED" by (simp add: to_ready)
    from xs obtain comp where "xs = [(''prior_attempt_id'', PStr prior), (''repair_evidence'', PDict ev),
        (''compensation'', comp), (''reason'', PStr reason)]"
      by (auto simp: payload_def rbind_eq_Inr)
    with m st have m: "moved cfg p REPAIR_REQUIRED READY_TO_RESUME ''repair_completed'' actor
        [(''prior_attempt_id'', PStr prior), (''repair_evidence'', PDict ev),
         (''compensation'', comp), (''reason'', PStr reason)] w w'" by simp
    have "strip actor \<noteq> []" "strip actor = repair_owner d"
      using a by (auto simp: authorize_transition_ok)
    with False fa r st m have "repair_done cfg p actor prior ev reason w w'"
      unfolding repair_done_def by blast
    then show "Q READY_TO_RESUME w'" by (rule ok)
  qed (rule bad)
  have "wp (require_failed_attempt ''repair'' p prior) (\<lambda>_. wp (bnd (in_store (get_state p)) (\<lambda>s.
      bnd (in_store (get_definition (cenv cfg) p)) (?m s))) Q E) E w"
  proof (rule wp_failed_attempt)
    fix u assume u: "same_data w u" and fa: "failed_attempt w p prior"
    show "wp (bnd (in_store (get_state p)) (\<lambda>s. bnd (in_store (get_definition (cenv cfg) p)) (?m s))) Q E u"
    proof (rule wp_loaded)
      fix v r d assume "same_data u v" "find_row p (pathways (wstore u)) = Some r" "definition_of cfg r = Some d"
      with u fa tail same_data_trans [OF u] same_data_find [OF u] show "wp (?m (row_state r) d) Q E v"
        by simp
    qed (use u bad same_data_trans in blast)
  qed (rule bad)
  with False show ?thesis
    by (simp add: complete_repair_def wp(7) checked_move_def payload_def lift_lift)
qed

lemma repair_result:
  assumes "complete_repair cfg p actor prior ev reason c w = (r, w')"
  shows "case r of Inl _ \<Rightarrow> same_data w w'
    | Inr s \<Rightarrow> s = READY_TO_RESUME \<and> repair_done cfg p actor prior ev reason w w'"
  by (rule wp_result [OF wp_repair assms]) simp_all

section \<open>Resume\<close>

definition unused_attempt :: "world \<Rightarrow> pystr \<Rightarrow> bool" where
  "unused_attempt w a \<longleftrightarrow> find_attempt a (attempts (wledger w)) = None"

lemma wp_new_attempt:
  assumes "\<And>w'. same_data w w' \<Longrightarrow> unused_attempt w a \<Longrightarrow> Q () w'" "\<And>e w'. same_data w w' \<Longrightarrow> E e w'"
  shows "wp (require_new_attempt a) Q E w"
proof -
  have "wp (in_ledger (get_attempt a)) (\<lambda>_ w'. E (Exn ValueError (str ''next attempt identity already exists'')) w')
      (\<lambda>e w'. if catches [KeyError] e then Q () w' else E e w') w"
    unfolding wp_in_ledger
  proof (rule wp_get_attempt)
    fix l' :: ledger and r assume "attempts l' = attempts (wledger w)"
    then show "E (Exn ValueError (str ''next attempt identity already exists'')) (w\<lparr>wledger := l'\<rparr>)"
      by (intro assms(2) same_data_ledger)
  next
    fix e and l' :: ledger
    assume l: "attempts l' = attempts (wledger w)"
      and k: "find_attempt a (attempts (wledger w)) \<noteq> None \<longrightarrow> exn_kind e \<noteq> KeyError"
    have s: "same_data w (w\<lparr>wledger := l'\<rparr>)" using l by (rule same_data_ledger)
    have "find_attempt a (attempts (wledger w)) = None" if "catches [KeyError] e"
    proof -
      have "exn_kind e = KeyError" using that by (cases "exn_kind e") (simp_all add: catches_def)
      with k show ?thesis by blast
    qed
    with assms [OF s] show "if catches [KeyError] e then Q () (w\<lparr>wledger := l'\<rparr>) else E e (w\<lparr>wledger := l'\<rparr>)"
      by (simp add: unused_attempt_def)
  qed
  then show ?thesis by (simp add: require_new_attempt_def wp if_bool_eq_conj)
qed

definition resume_done :: "config \<Rightarrow> pystr \<Rightarrow> pystr \<Rightarrow> pystr \<Rightarrow> pystr \<Rightarrow> pystr \<Rightarrow> world \<Rightarrow> world \<Rightarrow> bool" where
  "resume_done cfg p actor prior nxt reason w w' \<longleftrightarrow> prior \<noteq> nxt \<and> \<not> blank nxt
     \<and> failed_attempt w p prior \<and> unused_attempt w nxt
     \<and> latest_repair (rev (events_of (wstore w) p)) = Inr (PStr prior)
     \<and> (\<exists>r d. find_row p (pathways (wstore w)) = Some r \<and> definition_of cfg r = Some d
        \<and> row_state r \<in> {APPROVED, READY_TO_RESUME} \<and> strip actor \<noteq> []
        \<and> may_move d (row_state r) (strip actor) RUNNING
        \<and> moved cfg p (row_state r) RUNNING ''pathway_resumed'' actor
            [(''prior_attempt_id'', PStr prior), (''next_attempt_id'', PStr nxt),
             (''reason'', PStr reason)] w w')"

lemma unused_attempt_same: "same_data w u \<Longrightarrow> unused_attempt u a \<longleftrightarrow> unused_attempt w a"
  by (simp add: same_data_def same_log_def unused_attempt_def)

lemma wp_latest_repair:
  assumes "\<And>w'. same_data w w' \<Longrightarrow> latest_repair (rev (events_of (wstore w) p)) = Inr (PStr prior) \<Longrightarrow> wp m Q E w'"
    "\<And>e w'. same_data w w' \<Longrightarrow> E e w'"
  shows "wp (bnd (in_store (events p)) (\<lambda>es. bnd (lift (latest_repair (rev es))) (\<lambda>repaired.
    if repaired \<noteq> PStr prior then raise ValueError why else m))) Q E w"
  unfolding wp(6)
  by (rule wp_event_list) (use assms in \<open>auto simp: wp split: sum.splits\<close>)

lemma wp_resume:
  assumes ok: "\<And>w'. resume_done cfg p actor prior nxt reason w w' \<Longrightarrow> Q RUNNING w'"
    and bad: "\<And>e w'. same_data w w' \<Longrightarrow> E e w'"
  shows "wp (resume cfg p actor prior nxt reason) Q E w"
proof (cases "strip prior = [] \<or> strip nxt = [] \<or> prior = nxt")
  case True
  then show ?thesis by (auto simp: resume_def wp bad)
next
  case False
  define payload :: "(string \<times> pv) list res" where "payload = Inr [(''prior_attempt_id'', PStr prior), (''next_attempt_id'', PStr nxt),
      (''reason'', PStr reason)]"
  let ?m = "\<lambda>s d. checked_move cfg p s RUNNING (authorize_transition d s RUNNING actor)
      ''pathway_resumed'' actor payload"
  let ?load = "bnd (in_store (get_state p)) (\<lambda>s. bnd (in_store (get_definition (cenv cfg) p)) (?m s))"
  have load: "wp ?load Q E v" if v: "same_data w v" and fa: "failed_attempt w p prior"
    and un: "unused_attempt w nxt"
    and la: "latest_repair (rev (events_of (wstore w) p)) = Inr (PStr prior)" for v
  proof (rule wp_loaded)
    fix u r d assume u: "same_data v u" and r: "find_row p (pathways (wstore v)) = Some r"
      and d: "definition_of cfg r = Some d"
    from v u have wu: "same_data w u" by (rule same_data_trans)
    show "wp (?m (row_state r) d) Q E u"
    proof (rule wp_checked_move [OF wu])
      fix w' xs
      assume s: "RUNNING \<in> set (allowed_transitions (row_state r))"
        and a: "authorize_transition d (row_state r) RUNNING actor = Inr ()"
        and xs: "payload = Inr xs"
        and m: "moved cfg p (row_state r) RUNNING ''pathway_resumed'' actor xs w w'"
      have "strip actor \<noteq> []" "may_move d (row_state r) (strip actor) RUNNING"
        "row_state r \<in> {APPROVED, READY_TO_RESUME}"
        using a s by (auto simp: authorize_transition_ok to_running)
      moreover have "find_row p (pathways (wstore w)) = Some r" using r same_data_find [OF v] by simp
      ultimately have "resume_done cfg p actor prior nxt reason w w'"
        using False fa un la d m xs unfolding resume_done_def payload_def blank_def by blast
      then show "Q RUNNING w'" by (rule ok)
    qed (rule bad)
  qed (use v bad same_data_trans in blast)
  let ?rest = "bnd (in_store (events p)) (\<lambda>es. bnd (lift (latest_repair (rev es))) (\<lambda>repaired.
      if repaired \<noteq> PStr prior then
        raise ValueError ''resume prior_attempt_id must match the latest completed repair'' else ?load))"
  have rest: "wp ?rest Q E v" if v: "same_data w v" and "failed_attempt w p prior" "unused_attempt w nxt" for v
  proof (rule wp_latest_repair)
    fix u assume "same_data v u" "latest_repair (rev (events_of (wstore v) p)) = Inr (PStr prior)"
    with that show "wp ?load Q E u"
      by (intro load) (auto intro: same_data_trans simp: tables_simps(4) [OF same_data_tables [OF v]])
  qed (use v bad same_data_trans in blast)
  have "wp (require_failed_attempt ''resume'' p prior) (\<lambda>_. wp (require_new_attempt nxt) (\<lambda>_. wp ?rest Q E) E) E w"
  proof (rule wp_failed_attempt)
    fix u assume u: "same_data w u" and fa: "failed_attempt w p prior"
    show "wp (require_new_attempt nxt) (\<lambda>_. wp ?rest Q E) E u"
    proof (rule wp_new_attempt)
      fix v assume "same_data u v" "unused_attempt u nxt"
      with u fa show "wp ?rest Q E v"
        by (intro rest) (auto intro: same_data_trans simp: unused_attempt_same [OF u])
    qed (use u bad same_data_trans in blast)
  qed (rule bad)
  with False show ?thesis
    unfolding resume_def wp_seq_eq checked_move_def payload_def lift_value by (simp add: wp_seq_eq)
qed

lemma resume_result:
  assumes "resume cfg p actor prior nxt reason w = (r, w')"
  shows "case r of Inl _ \<Rightarrow> same_data w w'
    | Inr s \<Rightarrow> s = RUNNING \<and> resume_done cfg p actor prior nxt reason w w'"
  by (rule wp_result [OF wp_resume assms]) simp_all

section \<open>Residual closure\<close>

definition abort_done :: "config \<Rightarrow> pystr \<Rightarrow> pystr \<Rightarrow> pdict \<Rightarrow> pystr \<Rightarrow> world \<Rightarrow> world \<Rightarrow> bool" where
  "abort_done cfg p actor residuals reason w w' \<longleftrightarrow> residuals \<noteq> []
     \<and> (\<exists>r d. find_row p (pathways (wstore w)) = Some r \<and> definition_of cfg r = Some d
        \<and> ABORTED \<in> set (allowed_transitions (row_state r)) \<and> \<not> blank actor \<and> actor = residual_owner d
        \<and> moved cfg p (row_state r) ABORTED ''residual_closure'' actor
            [(''residual_owner'', PStr (residual_owner d)), (''residuals'', PDict residuals),
             (''reason'', PStr reason)] w w')"

lemma wp_abort:
  assumes ok: "\<And>w'. abort_done cfg p actor residuals reason w w' \<Longrightarrow> Q ABORTED w'"
    and bad: "\<And>e w'. same_data w w' \<Longrightarrow> E e w'"
  shows "wp (abort_with_residuals cfg p actor residuals reason) Q E w"
proof (cases "residuals = []")
  case True
  then show ?thesis by (simp add: abort_with_residuals_def wp bad)
next
  case False
  let ?auth = "\<lambda>d. if strip actor = [] \<or> actor \<noteq> residual_owner d
      then err AuthorityError ''actor lacks residual_owner'' else Inr ()"
  let ?xs = "\<lambda>d. [(''residual_owner'', PStr (residual_owner d)), (''residuals'', PDict residuals),
      (''reason'', PStr reason)]"
  let ?m = "\<lambda>s d. checked_move cfg p s ABORTED (?auth d) ''residual_closure'' actor (Inr (?xs d))"
  have "wp (bnd (in_store (get_state p)) (\<lambda>s. bnd (in_store (get_definition (cenv cfg) p)) (?m s))) Q E w"
  proof (rule wp_loaded)
    fix u r d assume u: "same_data w u" "find_row p (pathways (wstore w)) = Some r" "definition_of cfg r = Some d"
    show "wp (?m (row_state r) d) Q E u"
    proof (rule wp_checked_move [OF u(1)])
      fix w' xs
      assume "ABORTED \<in> set (allowed_transitions (row_state r))" "?auth d = Inr ()"
        "Inr (?xs d) = (Inr xs :: _ res)"
        "moved cfg p (row_state r) ABORTED ''residual_closure'' actor xs w w'"
      with u(2,3) False have "abort_done cfg p actor residuals reason w w'"
        unfolding abort_done_def blank_def by (auto split: if_splits)
      then show "Q ABORTED w'" by (rule ok)
    qed (rule bad)
  qed (rule bad)
  moreover have "abort_with_residuals cfg p actor residuals reason =
      bnd (in_store (get_state p)) (\<lambda>s. bnd (in_store (get_definition (cenv cfg) p)) (?m s))"
    using False by (simp add: abort_with_residuals_def checked_move_def lift_value lift_check)
  ultimately show ?thesis by simp
qed

lemma abort_result:
  assumes "abort_with_residuals cfg p actor residuals reason w = (r, w')"
  shows "case r of Inl _ \<Rightarrow> same_data w w'
    | Inr s \<Rightarrow> s = ABORTED \<and> abort_done cfg p actor residuals reason w w'"
  by (rule wp_result [OF wp_abort assms]) simp_all

end
