(* ===== verification/Rpr_Executions.thy ===== *)
theory Rpr_Executions
  imports Rpr_Outcomes
begin

text \<open>
  When a call hands an attempt to an executor, what the result of the executor does to the
  pathway, and what registration stores.
\<close>

section \<open>Methods that dispatch nothing\<close>

definition dispatch_free :: "(world, 'a) py \<Rightarrow> bool" where
  "dispatch_free m \<longleftrightarrow> (\<forall>w. wdispatched (snd (m w)) = wdispatched w)"

lemma dispatch_free_keeps: "dispatch_free m \<longleftrightarrow> (\<forall>D. keeps (\<lambda>w. wdispatched w = D) m)"
  by (auto simp: dispatch_free_def keeps_def)

lemma dispatch_freeD: "dispatch_free m \<Longrightarrow> m w = (r, w') \<Longrightarrow> wdispatched w' = wdispatched w"
  by (metis dispatch_free_def snd_conv)

lemma dispatch_free_wp: "dispatch_free m \<Longrightarrow>
    wp m (\<lambda>_ w'. wdispatched w' = wdispatched w) (\<lambda>_ w'. wdispatched w' = wdispatched w) w"
  by (rule wpI) (auto dest: dispatch_freeD)

lemma dispatch_free_comb [intro]:
  "dispatch_free (ret a)" "dispatch_free (throw e)" "dispatch_free (raise k msg)"
  "dispatch_free (lift r)"
  "dispatch_free mb \<Longrightarrow> (\<And>b. dispatch_free (f b)) \<Longrightarrow> dispatch_free (bnd mb f)"
  "dispatch_free ms \<Longrightarrow> dispatch_free n \<Longrightarrow> dispatch_free (seq ms n)"
  "dispatch_free m \<Longrightarrow> (\<And>e. dispatch_free (h e)) \<Longrightarrow> dispatch_free (handle p m h)"
  "dispatch_free m1 \<Longrightarrow> dispatch_free m2 \<Longrightarrow> dispatch_free (if c then m1 else m2)"
  unfolding dispatch_free_keeps by blast+

lemma dispatch_free_parts:
  "dispatch_free (in_store ms)" "dispatch_free (in_ledger ml)" "dispatch_free (now cfg)"
  by (auto simp: dispatch_free_def in_store_def in_ledger_def zoom_def now_def split: prod.splits)

lemma dispatch_free_events:
  "dispatch_free (make_event cfg p ty actor xs)" "dispatch_free (record_event cfg p ty actor xs)"
  "dispatch_free (move cfg p s t ty actor xs)"
  unfolding make_event_def record_event_def move_def
  by (intro dispatch_free_comb dispatch_free_parts)+

lemmas dispatch_free_rules = dispatch_free_comb dispatch_free_parts dispatch_free_events

lemma dispatch_free_transition: "dispatch_free (transition cfg p t actor reason)"
  unfolding transition_def by (intro dispatch_free_rules)

lemma dispatch_free_finish:
  "dispatch_free (finish_execution_pathway cfg p q actor r)"
  "dispatch_free (finish_reconciliation_pathway cfg p q actor r b)"
  unfolding finish_execution_pathway_def finish_reconciliation_pathway_def Let_def
  by (intro dispatch_free_rules dispatch_free_transition)+

lemma dispatch_free_mark: "dispatch_free (mark_unknown q reason)"
  unfolding mark_unknown_def by (intro dispatch_free_rules)

lemma dispatch_free_persist:
  "dispatch_free (persist_execution_result cfg p q actor r)"
  "dispatch_free (persist_reconciliation_result cfg p q actor r)"
  unfolding persist_execution_result_def persist_reconciliation_result_def Let_def
  by (intro dispatch_free_rules dispatch_free_transition dispatch_free_mark)+

lemma dispatch_free_start:
  "dispatch_free (start_or_discard cfg p q actor)" "dispatch_free (unresolved_replay cfg p q actor s)"
  "dispatch_free (check_binding p q)"
  unfolding start_or_discard_def start_execution_pathway_def unresolved_replay_def check_binding_def
    active_running_attempt_id_def Let_def
  by (intro dispatch_free_rules dispatch_free_transition)+

lemma dispatch_free_restart: "dispatch_free (restart_attempt cfg p q actor)"
  unfolding restart_attempt_def case_prod_unfold by (intro dispatch_free_rules)

section \<open>When an attempt is dispatched\<close>

text \<open>
  The pathway is approved or running for this attempt, the actor is its execution actor, and
  the ledger holds no such attempt or one that was recorded before the pathway started.
\<close>

definition may_dispatch :: "config \<Rightarrow> pystr \<Rightarrow> execution_request \<Rightarrow> pystr \<Rightarrow> world \<Rightarrow> bool" where
  "may_dispatch cfg p q actor w \<longleftrightarrow> (\<exists>r d. find_row p (pathways (wstore w)) = Some r
     \<and> definition_of cfg r = Some d \<and> strip actor \<noteq> [] \<and> strip actor = execution_actor d
     \<and> (row_state r = APPROVED \<or> row_state r = RUNNING \<and> bound_to w p (attempt_id q))
     \<and> (case select_attempt (attempt_id q) p (idempotency_key q) (attempts (wledger w)) of
          None \<Rightarrow> True | Some att \<Rightarrow> at_result att = None \<and> row_state r = APPROVED))"

abbreviation dispatch_of :: "pystr \<Rightarrow> execution_request \<Rightarrow> pystr \<Rightarrow> dispatch" where
  "dispatch_of p q actor \<equiv> \<lparr>dp_pathway = p, dp_attempt = attempt_id q, dp_actor = strip actor\<rparr>"

lemma dispatch_attempt_logs:
  assumes "dispatch_free (ex q)"
  shows "wp (dispatch_attempt cfg p q actor ex)
    (\<lambda>_ w'. wdispatched w' = dispatch_of p q actor # wdispatched w)
    (\<lambda>_ w'. wdispatched w' = dispatch_of p q actor # wdispatched w) w"
proof -
  have "dispatch_free (case uncertain of Some u \<Rightarrow> ret u | None \<Rightarrow>
      seq (record_event cfg p ''execution_result'' actor (request_fields q @ result_fields r))
        (seq (finish_execution_pathway cfg p q actor r) (ret r)))" for uncertain r
    by (cases uncertain) (simp_all only: option.case, intro dispatch_free_rules dispatch_free_finish,
        intro dispatch_free_rules)
  then have "dispatch_free (bnd (run_executor ex q) (\<lambda>r.
     bnd (persist_execution_result cfg p q actor r) (\<lambda>uncertain. case uncertain of
       Some u \<Rightarrow> ret u
     | None \<Rightarrow>
         seq (record_event cfg p ''execution_result'' actor (request_fields q @ result_fields r)) (
         seq (finish_execution_pathway cfg p q actor r) (ret r)))))"
    unfolding run_executor_def by (intro dispatch_free_rules dispatch_free_persist assms)
  from dispatch_free_wp [OF this] show ?thesis
    unfolding dispatch_attempt_def wp(7)
    by (force simp: log_dispatch_def wp_def split: prod.splits sum.splits)
qed

definition startable :: "pystr \<Rightarrow> world \<Rightarrow> bool" where
  "startable p w \<longleftrightarrow> (\<exists>r. find_row p (pathways (wstore w)) = Some r \<and> row_state r \<in> {APPROVED, RUNNING})"

lemma start_or_discard_startable:
  "wp (start_or_discard cfg p q actor) (\<lambda>_ _. startable p w) (\<lambda>_ _. True) w"
proof -
  let ?T = "\<lambda>_ _. True"
  have any: "wp m ?T ?T v" for m :: "(world, unit) py" and v by (rule wpI) simp_all
  have "wp (in_store (get_state p)) (\<lambda>current. wp (if current = APPROVED
      then start_execution_pathway cfg p q actor
      else if current \<noteq> RUNNING then
        throw (Exn ValueError (str ''pathway must be approved or running, got '' @ state_value current))
      else ret ()) (\<lambda>_ _. startable p w) ?T) ?T w"
  proof (rule wp_state)
    fix u r assume r: "find_row p (pathways (wstore w)) = Some r"
    show "wp (if row_state r = APPROVED then start_execution_pathway cfg p q actor
      else if row_state r \<noteq> RUNNING then
        throw (Exn ValueError (str ''pathway must be approved or running, got '' @ state_value (row_state r)))
      else ret ()) (\<lambda>_ _. startable p w) ?T u"
    proof (cases "row_state r \<in> {APPROVED, RUNNING}")
      case True
      with r have "startable p w" by (simp add: startable_def)
      then show ?thesis by (intro wpI) simp_all
    qed (simp add: wp)
  qed simp
  then have first: "wp (bnd (in_store (get_state p)) (\<lambda>current. if current = APPROVED
      then start_execution_pathway cfg p q actor
      else if current \<noteq> RUNNING then
        throw (Exn ValueError (str ''pathway must be approved or running, got '' @ state_value current))
      else ret ())) (\<lambda>_ _. startable p w) ?T w"
    unfolding wp(6) .
  have second: "wp (bnd (in_store (get_state p)) (\<lambda>st.
      if st \<noteq> RUNNING then seq (in_ledger (discard_started (attempt_id q))) (throw exc)
      else throw exc)) Q ?T v" for exc Q v
  proof -
    have raises: "wp (if st \<noteq> RUNNING then seq (in_ledger (discard_started (attempt_id q))) (throw exc)
      else throw exc) Q ?T u" for st u
      by (auto simp: wp intro: wpI)
    show ?thesis unfolding wp(6) by (rule wpI) (simp_all only: raises)
  qed
  show ?thesis
    unfolding start_or_discard_def wp(8) by (rule wp_mono [OF first]) (simp_all only: second if_cancel)
qed

text \<open>The run of a fresh attempt: start the pathway, then hand the attempt over.\<close>

abbreviation run_attempt where
  "run_attempt cfg p q actor ex \<equiv>
     seq (start_or_discard cfg p q actor) (dispatch_attempt cfg p q actor ex)"

lemma run_attempt_dispatch:
  assumes "dispatch_free (ex q)"
    and no: "\<And>w'. wdispatched w' = wdispatched w \<Longrightarrow> N w'"
    and yes: "\<And>w'. wdispatched w' = dispatch_of p q actor # wdispatched w \<Longrightarrow> startable p w \<Longrightarrow> N w'"
  shows "wp (run_attempt cfg p q actor ex) (\<lambda>_. N) (\<lambda>_. N) w"
  unfolding wp(7)
proof (rule wp_mono [OF wp_conj [OF start_or_discard_startable dispatch_free_wp [OF dispatch_free_start(1)]]])
  fix u :: world assume u: "startable p w \<and> wdispatched u = wdispatched w"
  show "wp (dispatch_attempt cfg p q actor ex) (\<lambda>_. N) (\<lambda>_. N) u"
    by (rule wp_mono [OF dispatch_attempt_logs [where ex = ex, OF assms(1)]])
      (use u yes in simp_all)
qed (use no in simp)

lemma wp_check_binding:
  assumes "\<And>w'. same_data w w' \<Longrightarrow> (\<And>r. find_row p (pathways (wstore w)) = Some r \<Longrightarrow>
      row_state r = RUNNING \<Longrightarrow> bound_to w p (attempt_id q)) \<Longrightarrow> Q () w'"
    "\<And>e w'. same_data w w' \<Longrightarrow> E e w'"
  shows "wp (check_binding p q) Q E w"
  unfolding check_binding_def wp(6)
proof (rule wp_state)
  fix u r assume u: "same_data w u" and r: "find_row p (pathways (wstore w)) = Some r"
  show "wp (if row_state r = RUNNING then bnd (active_running_attempt_id p) (\<lambda>bound.
      if bound \<noteq> attempt_id q then raise ValueError ''running pathway is bound to another attempt''
      else ret ()) else ret ()) Q E u"
  proof (cases "row_state r = RUNNING")
    case True
    have "wp (in_store (events p)) (\<lambda>es. wp (bnd (lift (running_attempt (rev es))) (\<lambda>bound.
      if bound \<noteq> attempt_id q then raise ValueError ''running pathway is bound to another attempt''
      else ret ())) Q E) E u"
    proof (rule wp_event_list)
      fix v assume "same_data u v"
      with u have v: "same_data w v" by (rule same_data_trans)
      have "events_of (wstore u) p = events_of (wstore w) p"
        using tables_simps(4) [OF same_data_tables [OF u]] .
      with assms(1) [OF v] assms(2) [OF v] show "wp (bnd (lift (running_attempt (rev (events_of (wstore u) p)))) (\<lambda>bound.
          if bound \<noteq> attempt_id q then raise ValueError ''running pathway is bound to another attempt''
          else ret ())) Q E v"
        by (auto simp: wp bound_to_def split: sum.splits)
    qed (use u assms(2) same_data_trans in blast)
    with True show ?thesis by (simp add: active_running_attempt_id_def wp_bnd_eq)
  next
    case False
    with r u assms(1) show ?thesis by (simp add: wp)
  qed
qed (rule assms(2))

text \<open>What \<open>execute\<close> does with the row that the ledger returned.\<close>

definition continue_execution where
  "continue_execution cfg p q actor ex replayed attempt =
     (if \<not> replayed then run_attempt cfg p q actor ex
      else case at_result attempt of
         Some doc \<Rightarrow> bnd (lift (result_from_doc (cenv cfg) doc)) (\<lambda>r.
           seq (finish_execution_pathway cfg p q actor r) (ret r))
       | None \<Rightarrow> bnd (in_store (get_state p)) (\<lambda>current.
           if current = APPROVED then seq (restart_attempt cfg p q actor) (run_attempt cfg p q actor ex)
           else unresolved_replay cfg p q actor current))"

lemma continue_dispatch:
  assumes free: "dispatch_free (ex q)" and row: "find_row p (pathways (wstore u)) = Some r"
    and no: "\<And>v. wdispatched v = wdispatched u \<Longrightarrow> N v"
    and yes: "\<And>v. wdispatched v = dispatch_of p q actor # wdispatched u \<Longrightarrow>
      row_state r \<in> {APPROVED, RUNNING} \<Longrightarrow>
      (replayed \<Longrightarrow> at_result attempt = None \<and> row_state r = APPROVED) \<Longrightarrow> N v"
  shows "wp (continue_execution cfg p q actor ex replayed attempt) (\<lambda>_. N) (\<lambda>_. N) u"
proof -
  have quiet: "wp m (\<lambda>_. N) (\<lambda>_. N) v" if "dispatch_free m" "wdispatched v = wdispatched u"
    for m :: "(world, execution_result) py" and v
    by (rule wp_mono [OF dispatch_free_wp [OF that(1)]]) (simp_all add: that(2) no)
  consider (fresh) "\<not> replayed" | (settled) doc where "replayed" "at_result attempt = Some doc"
    | (pending) "replayed" "at_result attempt = None" by (cases "at_result attempt") auto
  then show ?thesis
  proof cases
    case fresh
    have "wp (run_attempt cfg p q actor ex) (\<lambda>_. N) (\<lambda>_. N) u"
      by (rule run_attempt_dispatch [where ex = ex, OF free])
        (use fresh row no yes in \<open>auto simp: startable_def\<close>)
    with fresh show ?thesis by (simp add: continue_execution_def)
  next
    case (settled doc)
    have "dispatch_free (bnd (lift (result_from_doc (cenv cfg) doc)) (\<lambda>r.
        seq (finish_execution_pathway cfg p q actor r) (ret r)))"
      by (intro dispatch_free_rules dispatch_free_finish)
    from quiet [OF this] settled show ?thesis by (simp add: continue_execution_def)
  next
    case pending
    have "wp (in_store (get_state p)) (\<lambda>current. wp (if current = APPROVED
        then seq (restart_attempt cfg p q actor) (run_attempt cfg p q actor ex)
        else unresolved_replay cfg p q actor current) (\<lambda>_. N) (\<lambda>_. N)) (\<lambda>_. N) u"
    proof (rule wp_state)
      fix v r' assume v: "same_data u v" and "find_row p (pathways (wstore u)) = Some r'"
      with row have r': "r' = r" by simp
      have dv: "wdispatched v = wdispatched u" using v by (simp add: same_data_def same_log_def)
      show "wp (if row_state r' = APPROVED
        then seq (restart_attempt cfg p q actor) (run_attempt cfg p q actor ex)
        else unresolved_replay cfg p q actor (row_state r')) (\<lambda>_. N) (\<lambda>_. N) v"
      proof (cases "row_state r' = APPROVED")
        case True
        have "wp (run_attempt cfg p q actor ex) (\<lambda>_. N) (\<lambda>_. N) z" if "wdispatched z = wdispatched u" for z
          by (rule run_attempt_dispatch [where ex = ex, OF free])
            (use that True r' pending no yes in \<open>simp_all\<close>)
        then have "wp (restart_attempt cfg p q actor) (\<lambda>_. wp (run_attempt cfg p q actor ex)
            (\<lambda>_. N) (\<lambda>_. N)) (\<lambda>_. N) v"
          by (intro wp_mono [OF dispatch_free_wp [OF dispatch_free_restart]]) (simp_all add: dv no)
        with True show ?thesis by (simp only: if_True simp_thms wp_seq_eq)
      next
        case False
        with quiet [OF dispatch_free_start(2) dv] show ?thesis by simp
      qed
    qed (simp add: no same_data_def same_log_def)
    with pending show ?thesis by (simp add: continue_execution_def wp_bnd_eq)
  qed
qed

lemma execute_unfold:
  "execute cfg p q actor ex = bnd (in_store (get_definition (cenv cfg) p)) (\<lambda>d.
     seq (lift (authorize_execution_access d actor)) (seq (check_binding p q)
       (bnd (in_ledger (begin_attempt (cenv cfg) p q)) (\<lambda>x.
          continue_execution cfg p q actor ex (fst x) (snd x)))))"
  by (simp add: execute_def continue_execution_def Let_def case_prod_unfold)

lemma execute_dispatch:
  assumes free: "dispatch_free (ex q)" and run: "execute cfg p q actor ex w = (res, w')"
  shows "wdispatched w' = wdispatched w
    \<or> wdispatched w' = dispatch_of p q actor # wdispatched w \<and> may_dispatch cfg p q actor w"
proof -
  define N :: "world \<Rightarrow> bool" where "N w' \<longleftrightarrow> wdispatched w' = wdispatched w
    \<or> wdispatched w' = dispatch_of p q actor # wdispatched w \<and> may_dispatch cfg p q actor w" for w'
  have same: "wdispatched u = wdispatched w \<and> attempts (wledger u) = attempts (wledger w)
      \<and> find_row p (pathways (wstore u)) = find_row p (pathways (wstore w))" if "same_data w u" for u
    using that by (simp add: same_data_def same_log_def same_paths_def)
  have ledger: "wp (in_ledger (begin_attempt (cenv cfg) p q)) (\<lambda>x.
      wp (continue_execution cfg p q actor ex (fst x) (snd x)) (\<lambda>_. N) (\<lambda>_. N)) (\<lambda>_. N) u"
    if u: "same_data w u" and row: "find_row p (pathways (wstore w)) = Some r" "definition_of cfg r = Some d"
      and auth: "strip actor \<noteq> []" "strip actor = execution_actor d"
      and bound: "row_state r = RUNNING \<Longrightarrow> bound_to w p (attempt_id q)" for u r d
  proof -
    have cont: "wp (continue_execution cfg p q actor ex b att) (\<lambda>_. N) (\<lambda>_. N) (u\<lparr>wledger := l\<rparr>)"
      if "select_attempt (attempt_id q) p (idempotency_key q) (attempts (wledger w)) =
        (if b then Some att else None)" for b att l
      by (rule continue_dispatch [where ex = ex, OF free])
        (use same [OF u] row auth bound that in \<open>auto simp: N_def may_dispatch_def split: if_splits\<close>)
    show ?thesis
      unfolding wp_in_ledger by (rule wp_begin) (use cont same [OF u] in \<open>simp_all add: N_def\<close>)
  qed
  have "wp (in_store (get_definition (cenv cfg) p)) (\<lambda>d. wp (seq (lift (authorize_execution_access d actor))
      (seq (check_binding p q) (bnd (in_ledger (begin_attempt (cenv cfg) p q)) (\<lambda>x.
         continue_execution cfg p q actor ex (fst x) (snd x))))) (\<lambda>_. N) (\<lambda>_. N)) (\<lambda>_. N) w"
  proof (rule wp_definition)
    fix u r d
    assume u: "same_data w u" and r: "find_row p (pathways (wstore w)) = Some r"
      and "definition_from_dict (cenv cfg) (row_doc r) = Inr d"
    then have d: "definition_of cfg r = Some d" by (simp add: definition_of_def)
    show "wp (seq (lift (authorize_execution_access d actor)) (seq (check_binding p q)
      (bnd (in_ledger (begin_attempt (cenv cfg) p q)) (\<lambda>x.
         continue_execution cfg p q actor ex (fst x) (snd x))))) (\<lambda>_. N) (\<lambda>_. N) u"
    proof (cases "authorize_execution_access d actor")
      case (Inl e)
      with same [OF u] show ?thesis by (simp add: wp N_def)
    next
      case (Inr x)
      then have auth: "strip actor \<noteq> []" "strip actor = execution_actor d"
        by (auto simp: authorize_execution_ok)
      have "wp (check_binding p q) (\<lambda>_. wp (bnd (in_ledger (begin_attempt (cenv cfg) p q)) (\<lambda>x.
         continue_execution cfg p q actor ex (fst x) (snd x))) (\<lambda>_. N) (\<lambda>_. N)) (\<lambda>_. N) u"
      proof (rule wp_check_binding)
        fix v assume v: "same_data u v" and "\<And>r. find_row p (pathways (wstore u)) = Some r \<Longrightarrow>
          row_state r = RUNNING \<Longrightarrow> bound_to u p (attempt_id q)"
        then have "row_state r = RUNNING \<Longrightarrow> bound_to w p (attempt_id q)"
          using r same [OF u] tables_simps(4) [OF same_data_tables [OF u]] by (simp add: bound_to_def)
        with ledger [OF same_data_trans [OF u v] r d auth] show
          "wp (bnd (in_ledger (begin_attempt (cenv cfg) p q)) (\<lambda>x.
             continue_execution cfg p q actor ex (fst x) (snd x))) (\<lambda>_. N) (\<lambda>_. N) v"
          unfolding wp(6) by blast
      next
        fix e v assume "same_data u v"
        from same [OF same_data_trans [OF u this]] show "N v" by (simp add: N_def)
      qed
      with Inr show ?thesis by (simp add: wp_seq_eq wp)
    qed
  next
    fix e v assume "same_data w v"
    from same [OF this] show "N v" by (simp add: N_def)
  qed
  then have "wp (execute cfg p q actor ex) (\<lambda>_. N) (\<lambda>_. N) w"
    unfolding execute_unfold wp(6) .
  with run show ?thesis by (cases res) (simp_all add: wp_def N_def)
qed

section \<open>Where a result leaves the pathway\<close>

definition verified_success :: "execution_result \<Rightarrow> bool" where
  "verified_success r \<longleftrightarrow> status r = SUCCEEDED
     \<and> (case readback r of None \<Rightarrow> False | Some b \<Rightarrow> verified b)"

definition settled_state :: "execution_result \<Rightarrow> pathway_state" where
  "settled_state r = (if verified_success r then COMPLETED
     else if status r = FAILED then REPAIR_REQUIRED else WRITE_STATUS_UNKNOWN)"

text \<open>The pathway is where \<open>r\<close> puts it, and was there, running or of unknown outcome before.\<close>

definition settled :: "pystr \<Rightarrow> execution_result \<Rightarrow> world \<Rightarrow> world \<Rightarrow> bool" where
  "settled p r w w' \<longleftrightarrow> (\<exists>row. find_row p (pathways (wstore w)) = Some row
     \<and> row_state row \<in> {settled_state r, RUNNING, WRITE_STATUS_UNKNOWN}
     \<and> find_row p (pathways (wstore w')) = Some (row\<lparr>row_state := settled_state r\<rparr>))"

lemma settled_moved:
  assumes "moved cfg p s (settled_state r) ty actor xs w w'"
    "s \<in> {settled_state r, RUNNING, WRITE_STATUS_UNKNOWN}"
  shows "settled p r w w'"
  using moved_row [OF assms(1)] assms(2) by (metis settled_def)

lemma settled_idle:
  assumes "find_row p (pathways (wstore w)) = Some row" "row_state row = settled_state r" "same_data w w'"
  shows "settled p r w w'"
  using assms same_data_find [OF assms(3)] by (auto simp: settled_def)

text \<open>The local function \<open>settle\<close> of \<open>finish_execution_pathway\<close>.\<close>

definition settle_to where
  "settle_to cfg p q actor r current target reason transition_actor =
     (if current = target then ret ()
      else if current = RUNNING then
        seq (transition cfg p target transition_actor reason) (ret ())
      else if current \<noteq> WRITE_STATUS_UNKNOWN then
        throw (Exn ValueError (str ''persisted execution result conflicts with pathway state ''
          @ state_value current))
      else seq (lift (ensure_transition current target))
        (move cfg p current target ''execution_result_after_concurrent_unknown'' actor
           (request_fields q @ result_fields r)))"

lemma wp_settle_to:
  assumes u: "same_data w u" and row: "find_row p (pathways (wstore w)) = Some row"
  shows "wp (settle_to cfg p q actor r (row_state row) (settled_state r) why ta)
    (\<lambda>_. settled p r w) (\<lambda>_. same_data w) u"
proof -
  have tr: "wp (transition cfg p (settled_state r) ta why) (\<lambda>_. settled p r w) (\<lambda>_. same_data w) u"
    if "row_state row = RUNNING"
  proof (rule wp_transition_done)
    fix w' assume "transition_done cfg p (settled_state r) ta why u w'"
    then obtain r' where r': "find_row p (pathways (wstore u)) = Some r'"
      "moved cfg p (row_state r') (settled_state r) ''state_transition'' ta [(''reason'', PStr why)] u w'"
      unfolding transition_done_def by blast
    with row same_data_find [OF u] have "row_state r' = RUNNING" using that by simp
    with settled_moved [OF moved_same [OF u r'(2)]] show "settled p r w w'" by simp
  qed (rule same_data_trans [OF u])
  have mv: "wp (move cfg p (row_state row) (settled_state r) ty actor xs) (\<lambda>_. settled p r w) (\<lambda>_. same_data w) u"
    if "row_state row = WRITE_STATUS_UNKNOWN" for ty xs
  proof (rule wp_moved)
    fix w' assume "moved cfg p (row_state row) (settled_state r) ty actor xs u w'"
    with settled_moved [OF moved_same [OF u]] that show "settled p r w w'" by simp
  qed (rule same_data_trans [OF u])
  consider "row_state row = settled_state r" | "row_state row = RUNNING" "row_state row \<noteq> settled_state r"
    | "row_state row = WRITE_STATUS_UNKNOWN" "row_state row \<noteq> settled_state r"
    | (other) "row_state row \<notin> {settled_state r, RUNNING, WRITE_STATUS_UNKNOWN}" by blast
  then show ?thesis
  proof cases
    case 1
    with settled_idle [OF row 1 u] show ?thesis by (simp add: settle_to_def wp)
  next
    case 2
    with tr show ?thesis by (simp add: settle_to_def wp)
  next
    case 3
    with mv u show ?thesis by (auto simp: settle_to_def wp split: sum.splits)
  next
    case other
    with u show ?thesis by (simp add: settle_to_def wp)
  qed
qed

lemma wp_finish_execution:
  "wp (finish_execution_pathway cfg p q actor r) (\<lambda>_. settled p r w) (\<lambda>_. same_data w) w"
proof -
  let ?body = "\<lambda>current. if verified_success r
      then settle_to cfg p q actor r current COMPLETED (str ''executor_readback_verified'') actor
      else if status r = FAILED then bnd (in_store (get_definition (cenv cfg) p)) (\<lambda>d.
        settle_to cfg p q actor r current REPAIR_REQUIRED
          (reason_or (result_reason r) (str ''executor_failed'')) (repair_owner d))
      else if current = WRITE_STATUS_UNKNOWN then ret ()
      else seq (transition cfg p WRITE_STATUS_UNKNOWN actor
         (reason_or (result_reason r) (str ''executor_write_status_unknown''))) (ret ())"
  have "wp (in_store (get_state p)) (\<lambda>s. wp (?body s) (\<lambda>_. settled p r w) (\<lambda>_. same_data w)) (\<lambda>_. same_data w) w"
  proof (rule wp_state)
    fix u row assume u: "same_data w u" and row: "find_row p (pathways (wstore w)) = Some row"
    consider "verified_success r" | (failed) "\<not> verified_success r" "status r = FAILED"
      | (unknown) "\<not> verified_success r" "status r \<noteq> FAILED" by blast
    then show "wp (?body (row_state row)) (\<lambda>_. settled p r w) (\<lambda>_. same_data w) u"
    proof cases
      case 1
      with wp_settle_to [OF u row, where r = r] show ?thesis by (simp add: settled_state_def)
    next
      case failed
      have "wp (in_store (get_definition (cenv cfg) p)) (\<lambda>d. wp (settle_to cfg p q actor r (row_state row)
          REPAIR_REQUIRED (reason_or (result_reason r) (str ''executor_failed'')) (repair_owner d))
          (\<lambda>_. settled p r w) (\<lambda>_. same_data w)) (\<lambda>_. same_data w) u"
      proof (rule wp_definition)
        fix v d assume "same_data u v"
        with wp_settle_to [OF same_data_trans [OF u] row, where r = r] failed
        show "wp (settle_to cfg p q actor r (row_state row) REPAIR_REQUIRED
          (reason_or (result_reason r) (str ''executor_failed'')) (repair_owner d))
          (\<lambda>_. settled p r w) (\<lambda>_. same_data w) v" by (simp add: settled_state_def)
      qed (rule same_data_trans [OF u])
      with failed show ?thesis by (simp add: wp_bnd_eq)
    next
      case unknown
      have "wp (transition cfg p WRITE_STATUS_UNKNOWN actor why) (\<lambda>_. settled p r w) (\<lambda>_. same_data w) u" for why
      proof (rule wp_transition_done)
        fix w' assume "transition_done cfg p WRITE_STATUS_UNKNOWN actor why u w'"
        then obtain r' :: pathway_row where r': "WRITE_STATUS_UNKNOWN \<in> set (allowed_transitions (row_state r'))"
          "moved cfg p (row_state r') WRITE_STATUS_UNKNOWN ''state_transition'' actor [(''reason'', PStr why)] u w'"
          unfolding transition_done_def by blast
        moreover have "settled_state r = WRITE_STATUS_UNKNOWN" using unknown by (simp add: settled_state_def)
        ultimately show "settled p r w w'"
          using settled_moved [OF moved_same [OF u], where r = r] by (simp add: to_unknown)
      qed (rule same_data_trans [OF u])
      with unknown settled_idle [OF row _ u, where r = r] show ?thesis
        by (simp add: wp settled_state_def)
    qed
  qed simp
  moreover have "finish_execution_pathway cfg p q actor r = bnd (in_store (get_state p)) ?body"
    unfolding finish_execution_pathway_def Let_def settle_to_def verified_success_def ..
  ultimately show ?thesis by (simp only: wp_bnd_eq)
qed

lemma finish_execution_result:
  assumes "finish_execution_pathway cfg p q actor r w = (res, w')"
  shows "case res of Inl _ \<Rightarrow> same_data w w' | Inr _ \<Rightarrow> settled p r w w'"
  by (rule wp_result [OF wp_finish_execution assms])

text \<open>
  What \<open>execute\<close> returns agrees with the stored pathway, whatever the executor did: a result
  other than an unknown one is only returned once the pathway is in the state it calls for.
\<close>

definition returns :: "(world, 'a) py \<Rightarrow> ('a \<Rightarrow> world \<Rightarrow> bool) \<Rightarrow> bool" where
  "returns m Q \<longleftrightarrow> (\<forall>w a w'. m w = (Inr a, w') \<longrightarrow> Q a w')"

lemma returns_rules:
  "(\<And>w. Q a w) \<Longrightarrow> returns (ret a) Q" "returns (throw e) Q" "returns (raise k msg) Q"
  "(\<And>b. returns (f b) Q) \<Longrightarrow> returns (bnd mb f) Q" "returns n Q \<Longrightarrow> returns (seq ms n) Q"
  "returns m1 Q \<Longrightarrow> returns m2 Q \<Longrightarrow> returns (if c then m1 else m2) Q"
  by (auto simp: returns_def comb_defs split: sum.splits prod.splits)

definition agrees :: "pystr \<Rightarrow> execution_result \<Rightarrow> world \<Rightarrow> bool" where
  "agrees p r w \<longleftrightarrow> (status r \<noteq> STATUS_UNKNOWN \<longrightarrow>
     (\<exists>row. find_row p (pathways (wstore w)) = Some row \<and> row_state row = settled_state r))"

lemma unknown_agrees: "agrees p (unknown_result why) w"
  by (simp add: agrees_def)

lemma finish_agrees: "returns (seq (finish_execution_pathway cfg p q actor r) (ret r)) (agrees p)"
  unfolding returns_def
proof (intro allI impI)
  fix w a w'
  assume "seq (finish_execution_pathway cfg p q actor r) (ret r) w = (Inr a, w')"
  then have "finish_execution_pathway cfg p q actor r w = (Inr (), w')" "a = r"
    by (auto simp: comb_defs split: sum.splits prod.splits)
  with finish_execution_result [OF this(1)] show "agrees p a w'"
    by (auto simp: agrees_def settled_def)
qed

lemma persist_unknown:
  "returns (persist_execution_result cfg p q actor r)
     (\<lambda>u _. case u of None \<Rightarrow> True | Some x \<Rightarrow> status x = STATUS_UNKNOWN)"
proof -
  have h: "returns m Q \<Longrightarrow> (\<And>e. returns (h e) Q) \<Longrightarrow> returns (handle c m h) Q"
    for m c h and Q :: "execution_result option \<Rightarrow> world \<Rightarrow> bool"
    by (auto simp: returns_def handle_def split: sum.splits prod.splits if_splits)
  show ?thesis
    unfolding persist_execution_result_def Let_def by (intro h returns_rules) simp_all
qed

lemma dispatch_agrees: "returns (dispatch_attempt cfg p q actor ex) (agrees p)"
proof -
  let ?k = "\<lambda>r uncertain. case uncertain of
       Some u \<Rightarrow> ret u
     | None \<Rightarrow>
         seq (record_event cfg p ''execution_result'' actor (request_fields q @ result_fields r)) (
         seq (finish_execution_pathway cfg p q actor r) (ret r))"
  have step: "returns (bnd (persist_execution_result cfg p q actor r) (?k r)) (agrees p)" for r
    unfolding returns_def
  proof (intro allI impI)
    fix w a w' assume "bnd (persist_execution_result cfg p q actor r) (?k r) w = (Inr a, w')"
    then obtain u v where u: "persist_execution_result cfg p q actor r w = (Inr u, v)"
      and k: "?k r u v = (Inr a, w')"
      by (auto simp: bnd_def split: sum.splits prod.splits)
    show "agrees p a w'"
    proof (cases u)
      case None
      have "returns (?k r None) (agrees p)"
        unfolding option.case by (intro returns_rules(5) finish_agrees)
      with k None show ?thesis unfolding returns_def by blast
    next
      case (Some x)
      with u persist_unknown [of cfg p q actor r] have "status x = STATUS_UNKNOWN"
        by (fastforce simp: returns_def)
      with k Some show ?thesis by (simp add: agrees_def)
    qed
  qed
  show ?thesis
    unfolding dispatch_attempt_def
    by (rule returns_rules(5), rule returns_rules(4), rule step)
qed

lemma execute_agrees: "returns (execute cfg p q actor ex) (agrees p)"
proof -
  have "returns (continue_execution cfg p q actor ex b att) (agrees p)" for b att
  proof (cases "at_result att")
    case None
    show ?thesis
      unfolding continue_execution_def None option.case unresolved_replay_def Let_def
      by (intro returns_rules dispatch_agrees) (simp add: unknown_agrees)
  next
    case (Some doc)
    show ?thesis
      unfolding continue_execution_def Some option.case
      by (intro returns_rules(4,5,6) dispatch_agrees finish_agrees)
  qed
  then show ?thesis unfolding execute_unfold by (intro returns_rules(4,5))
qed

section \<open>Registration\<close>

text \<open>A replayed registration returns the stored row; a fresh one stores a row and its event.\<close>

definition replayed_registration :: "config \<Rightarrow> pathway_definition \<Rightarrow> pystr \<Rightarrow> pathway_state
    \<Rightarrow> world \<Rightarrow> world \<Rightarrow> bool" where
  "replayed_registration cfg d key st w w' \<longleftrightarrow> same_data w w'
     \<and> (\<exists>r. find_key key (pathways (wstore w)) = Some r \<and> row_id r = pathway_id d
        \<and> definition_fingerprint (cenv cfg) d = Inr (row_fingerprint r) \<and> row_state r = st)"

definition inserted_row :: "config \<Rightarrow> pathway_definition \<Rightarrow> pystr \<Rightarrow> pathway_state
    \<Rightarrow> world \<Rightarrow> world \<Rightarrow> bool" where
  "inserted_row cfg d key st w w' \<longleftrightarrow> find_key key (pathways (wstore w)) = None
     \<and> find_row (pathway_id d) (pathways (wstore w)) = None \<and> same_log w w'
     \<and> (\<exists>doc fp. canonical_definition d = Inr doc \<and> definition_fingerprint (cenv cfg) d = Inr fp
        \<and> pathways (wstore w') = pathways (wstore w) @ [\<lparr>row_id = pathway_id d, row_doc = doc,
             row_fingerprint = fp, row_state = st, row_key = key\<rparr>])"

definition fresh_registration :: "config \<Rightarrow> pathway_definition \<Rightarrow> pystr \<Rightarrow> pathway_state
    \<Rightarrow> world \<Rightarrow> world \<Rightarrow> bool" where
  "fresh_registration cfg d key st w w' \<longleftrightarrow> inserted_row cfg d key st w w'
     \<and> (\<exists>e. dget_none e (str ''event_type'') = PStr (str ''pathway_registered'')
        \<and> dget_none e (str ''actor'') = PStr (decision_owner d)
        \<and> events_of (wstore w') (pathway_id d) = events_of (wstore w) (pathway_id d) @ [e])"

lemma inserted_row_after:
  assumes "inserted_row cfg d key st w v" "same_data v u"
  shows "inserted_row cfg d key st w u"
  using assms unfolding inserted_row_def
  by (simp add: same_data_def same_paths_def same_log_def)

lemma wp_register:
  assumes rpe: "evaluate_rpe cfg d = Inr (dec, codes, raw)"
    and comb: "combined = max (decision (inspect_pathway d)) dec"
    and st: "st = initial_state combined (approval_authority d \<noteq> None)"
  shows "wp (register cfg d key)
    (\<lambda>res w'. reg_pathway_id res = pathway_id d \<and> reg_decision res = combined
       \<and> (if reg_replayed res then replayed_registration cfg d key (reg_state res) w w'
          else reg_state res = st \<and> fresh_registration cfg d key st w w'))
    (\<lambda>_ w'. same_data w w' \<or> inserted_row cfg d key st w w' \<and> same_events w w') w"
proof -
  let ?Q = "\<lambda>res w'. reg_pathway_id res = pathway_id d \<and> reg_decision res = combined
       \<and> (if reg_replayed res then replayed_registration cfg d key (reg_state res) w w'
          else reg_state res = st \<and> fresh_registration cfg d key st w w')"
  let ?E = "\<lambda>_ w'. same_data w w' \<or> inserted_row cfg d key st w w' \<and> same_events w w'"
  define result where "result replayed persisted = \<lparr>reg_pathway_id = pathway_id d, reg_state = persisted,
      reg_decision = combined, reg_reason_codes = map finding_code (findings (inspect_pathway d)) @ codes,
      reg_replayed = replayed\<rparr>" for replayed persisted
  define xs where "xs persisted = [(''inspection'', PDict (inspection_to_dict (inspect_pathway d))),
              (''rpe'', PDict (obj [(''decision'', PStr (decision_value dec)),
                (''reason_codes'', PList (map PStr codes)), (''raw'', PDict raw)])),
              (''state'', PStr (state_value persisted)),
              (''idempotency_key'', PStr key)]" for persisted
  let ?tail = "\<lambda>replayed persisted. seq (if replayed then ret ()
      else record_event cfg (pathway_id d) ''pathway_registered'' (decision_owner d) (xs persisted))
      (ret (result replayed persisted))"
  have reg: "register cfg d key = bnd (in_store (create_or_replay_pathway (cenv cfg) d st key))
      (\<lambda>x. ?tail (fst x) (snd x))"
    by (simp only: register_def Let_def rpe lift_value combine_max comb st result_def xs_def
        case_prod_unfold fst_conv snd_conv cong: if_cong)
  have tail: "wp (record_event cfg (pathway_id d) ''pathway_registered'' (decision_owner d) (xs st))
      (\<lambda>_. ?Q (result False st)) ?E v"
    if v: "inserted_row cfg d key st w v" "same_events w v" for v
  proof (rule wp_record_event)
    fix w' e
    assume b: "built cfg (pathway_id d) ''pathway_registered'' (decision_owner d) (xs st) e"
      and a: "appends e v w'" and p: "same_paths v w'" and l: "same_log v w'"
    have "inserted_row cfg d key st w w'"
      using v(1) p l by (simp add: inserted_row_def same_paths_def same_log_def)
    moreover have "events_of (wstore w') (pathway_id d) =
        events_of (wstore w) (pathway_id d) @ [stored_event e]"
      using appends_events [OF a] same_events_of [OF v(2)] built_fields(1) [OF b] by simp
    ultimately have "fresh_registration cfg d key st w w'"
      using built_fields(2,3) [OF b] unfolding fresh_registration_def by blast
    then show "?Q (result False st) w'" by (simp add: result_def)
  next
    fix e u assume "same_data v u"
    with v inserted_row_after show "?E e u"
      by (auto simp: same_data_def same_events_def)
  qed
  have "wp (in_store (create_or_replay_pathway (cenv cfg) d st key))
      (\<lambda>x. wp (?tail (fst x) (snd x)) ?Q ?E) ?E w"
    unfolding wp_in_store
  proof (rule wp_create)
    fix s' :: store and r fp
    assume "tables s' = tables (wstore w)" and r: "find_key key (pathways (wstore w)) = Some r"
      "row_id r = pathway_id d" "definition_fingerprint (cenv cfg) d = Inr fp" "row_fingerprint r = fp"
    then have "replayed_registration cfg d key (row_state r) w (w\<lparr>wstore := s'\<rparr>)"
      by (auto simp: replayed_registration_def intro: same_data_store)
    then show "wp (?tail (fst (True, row_state r)) (snd (True, row_state r))) ?Q ?E (w\<lparr>wstore := s'\<rparr>)"
      by (simp add: wp result_def)
  next
    fix s' :: store and doc fp
    assume "canonical_definition d = Inr doc" "definition_fingerprint (cenv cfg) d = Inr fp"
      "find_key key (pathways (wstore w)) = None" "find_row (pathway_id d) (pathways (wstore w)) = None"
      and ev: "event_rows s' = event_rows (wstore w)" and
      "pathways s' = pathways (wstore w) @ [\<lparr>row_id = pathway_id d, row_doc = doc,
        row_fingerprint = fp, row_state = st, row_key = key\<rparr>]"
    then have "inserted_row cfg d key st w (w\<lparr>wstore := s'\<rparr>)"
      by (simp add: inserted_row_def same_log_def)
    moreover have "same_events w (w\<lparr>wstore := s'\<rparr>)" using ev by (simp add: same_events_def)
    ultimately show "wp (?tail (fst (False, st)) (snd (False, st))) ?Q ?E (w\<lparr>wstore := s'\<rparr>)"
      using tail by (simp only: fst_conv snd_conv if_False wp_seq_eq wp_partial)
  next
    fix e and s' :: store
    assume "tables s' = tables (wstore w)"
    then show "?E e (w\<lparr>wstore := s'\<rparr>)" by (simp add: same_data_store)
  qed
  then show ?thesis unfolding reg wp(6) .
qed

end
