(* ===== verification/Rpr_Demo.thy ===== *)
theory Rpr_Demo
  imports Rpr_Executions
begin

text \<open>
  A concrete environment, pathway and request, and a run from the empty store: a
  registration, and an execution that stops after its executor has answered. The runs show
  that the hypotheses of the theorems can hold.
\<close>

section \<open>The environment\<close>

definition demo_float :: "rat \<Rightarrow> pystr" where
  "demo_float q = (case quotient_of q of (a, b) \<Rightarrow> int_text a @ 46 # int_text b)"

definition demo_env :: pyenv where
  "demo_env = \<lparr>sha256 = (\<lambda>b. b), float_repr = demo_float, container_repr = (\<lambda>_. []),
     iso_time = (\<lambda>n. str ''t'')\<rparr>"

text \<open>The run uses a hash that makes its single event short.\<close>

definition run_env :: pyenv where
  "run_env = demo_env\<lparr>sha256 := (\<lambda>_. str ''h'')\<rparr>"

definition demo_config :: config where
  "demo_config = \<lparr>cenv = run_env, cpolicy = default_policy, crpe = allow_all_evaluate\<rparr>"

definition demo_pathway :: pathway_definition where
  "demo_pathway = \<lparr>pathway_id = str ''p'', action_name = str ''a'', action_class = OBSERVE_ONLY,
     environment_trust = TRUSTED_INTERNAL, decision_owner = str ''d'', approval_authority = None,
     execution_actor = str ''x'', stop_authority = str ''s'', evidence_owner = str ''e'',
     repair_owner = str ''r'', resume_authority = str ''u'', human_return_point = str ''h'',
     residual_owner = str ''o'', metadata = [], responsibility_route = None\<rparr>"

definition demo_request :: execution_request where
  "demo_request = \<lparr>operation_id = str ''o1'', attempt_id = str ''a1'', idempotency_key = str ''k1'',
     action = str ''a'', parameters = []\<rparr>"

definition empty_world :: "fault list \<Rightarrow> fault list \<Rightarrow> world" where
  "empty_world fs ls = \<lparr>wstore = \<lparr>pathways = [], event_rows = [], store_faults = fs\<rparr>,
     wledger = \<lparr>attempts = [], ledger_faults = ls\<rparr>, wtick = 0, wdispatched = []\<rparr>"

lemma demo_float_ok: "float_repr_ok demo_float"
proof -
  have "inj demo_float"
  proof (rule injI)
    fix p q assume eq: "demo_float p = demo_float q"
    obtain a b c d where ab: "quotient_of p = (a, b)" and cd: "quotient_of q = (c, d)"
      by (metis surj_pair)
    from eq have e: "int_text a @ 46 # int_text b = int_text c @ 46 # int_text d"
      by (simp add: demo_float_def ab cd)
    have "takeWhile (\<lambda>x. x \<noteq> 46) (int_text i @ 46 # x) = int_text i" for i x
      using int_text_num(3) [of i] by (subst takeWhile_append2) auto
    with e have "int_text a = int_text c" by metis
    with e have "a = c" "b = d" by (auto simp: int_text_inject)
    with ab cd show "p = q" by (metis quotient_of_inject)
  qed
  moreover have "demo_float q \<noteq> str ''-0.0''" for q
  proof
    obtain a b where ab: "quotient_of q = (a, b)" by (rule prod.exhaust)
    assume "demo_float q = str ''-0.0''"
    then have e: "int_text a @ 46 # int_text b = [45, 48] @ 46 # [48]"
      by (simp add: demo_float_def ab str_def)
    have "takeWhile (\<lambda>x. x \<noteq> 46) (int_text i @ 46 # x) = int_text i" for i x
      using int_text_num(3) [of i] by (subst takeWhile_append2) auto
    with arg_cong [OF e, of "takeWhile (\<lambda>x. x \<noteq> 46)"] have "int_text a = [45, 48]" by simp
    with e have "int_text b = [48]" by simp
    moreover have "int_text 0 = [48]" by (simp add: int_text_def nat_text.simps)
    ultimately have "b = 0" by (metis int_text_inject)
    with quotient_of_denom_pos [OF ab] show False by simp
  qed
  moreover have "list_all num_char (demo_float q)" "demo_float q \<noteq> []" "46 \<in> set (demo_float q)" for q
    by (cases "quotient_of q"; simp add: demo_float_def int_text_num num_char_def)+
  ultimately show ?thesis by (simp add: float_repr_ok_def)
qed

lemma demo_config_simps [simp]:
  "cenv demo_config = run_env" "cpolicy demo_config = default_policy" "crpe demo_config = allow_all_evaluate"
  "float_repr demo_env = demo_float" "sha256 demo_env b = b" "iso_time demo_env n = str ''t''"
  "float_repr run_env = demo_float" "sha256 run_env b = str ''h''" "iso_time run_env n = str ''t''"
  by (simp_all add: demo_config_def demo_env_def run_env_def)

lemma text_ok_str [simp]: "text_ok (str s)"
proof -
  have "of_char c < (256 :: nat)" for c :: char by (rule nat_of_char_less_256)
  then have "\<not> surrogate (of_char c)" for c :: char
    using less_trans [of "of_char c :: nat" 256 55296] by (simp add: surrogate_def not_le)
  then show ?thesis by (simp add: text_ok_def str_def list_ex_iff)
qed

section \<open>A run\<close>

text \<open>The registration: the row is stored; its event is lost to a storage fault.\<close>

lemma demo_definition:
  assumes "float_repr env = demo_float"
  obtains doc fp where "canonical_definition demo_pathway = Inr doc" "definition_fingerprint env demo_pathway = Inr fp"
    "definition_from_dict env doc = Inr demo_pathway"
proof -
  have p: "plain (PDict (definition_to_dict demo_pathway))"
    by (simp add: definition_to_dict_def demo_pathway_def obj_simps opt_str_def)
  then have d: "to_doc (PDict (definition_to_dict demo_pathway)) = Inr (PDict (definition_to_dict demo_pathway))"
    using plain_is_doc(1) to_doc_doc(1) by blast
  then have doc: "canonical_definition demo_pathway = Inr (sorted_items (definition_to_dict demo_pathway))"
    by (simp add: canonical_definition_def canonical_doc_def sorted_items_def)
  from stored_definition [OF this, of env] have
    "definition_from_dict env (sorted_items (definition_to_dict demo_pathway)) = Inr demo_pathway"
    by (auto simp: demo_pathway_def sorted_items_def)
  moreover obtain b where "canonical_bytes demo_float (PDict (definition_to_dict demo_pathway)) = Inr b"
    using plain_canonical_bytes [OF demo_float_ok p] by blast
  ultimately show ?thesis using that doc assms by (simp add: definition_fingerprint_def)
qed

lemma demo_register:
  assumes cfg: "float_repr (cenv cfg) = demo_float" "crpe cfg = allow_all_evaluate"
  obtains doc fp where "definition_from_dict (cenv cfg) doc = Inr demo_pathway"
    "snd (register cfg demo_pathway (str ''k'') (empty_world [Fine, Failing] ls)) =
      \<lparr>wstore = \<lparr>pathways = [\<lparr>row_id = str ''p'', row_doc = doc, row_fingerprint = fp,
         row_state = APPROVED, row_key = str ''k''\<rparr>], event_rows = [], store_faults = []\<rparr>,
       wledger = \<lparr>attempts = [], ledger_faults = ls\<rparr>, wtick = 0, wdispatched = []\<rparr>"
proof -
  obtain doc fp where d: "canonical_definition demo_pathway = Inr doc"
    "definition_fingerprint (cenv cfg) demo_pathway = Inr fp"
    "definition_from_dict (cenv cfg) doc = Inr demo_pathway" by (rule demo_definition [OF cfg(1)])
  have nb: "\<not> blank (str ''p'')" "\<not> blank (str ''a'')" "\<not> blank (str ''d'')" "\<not> blank (str ''x'')"
    "\<not> blank (str ''s'')" "\<not> blank (str ''e'')" "\<not> blank (str ''r'')" "\<not> blank (str ''u'')"
    "\<not> blank (str ''o'')" "\<not> blank (str ''k'')"
    by (simp_all add: blank_iff is_space_def str_def)
  have dec: "decision (inspect_pathway demo_pathway) = ALLOW"
    by (simp add: inspect_decision pathway_sound_def pathway_required_def needs_reevaluation_def
        demo_pathway_def nb approval_needed_def)
  have r: "evaluate_rpe cfg demo_pathway = Inr (ALLOW, [str ''development_evaluator''], [])"
    by (simp add: evaluate_rpe_def allow_all_evaluate_def cfg(2))
  have f: "pathway_id demo_pathway = str ''p''" "approval_authority demo_pathway = None"
    by (simp_all add: demo_pathway_def)
  have k: "strip (str ''k'') \<noteq> []" using nb by (simp add: blank_def)
  let ?w = "\<lambda>fs. \<lparr>wstore = \<lparr>pathways = [\<lparr>row_id = str ''p'', row_doc = doc, row_fingerprint = fp,
         row_state = APPROVED, row_key = str ''k''\<rparr>], event_rows = [], store_faults = fs\<rparr>,
       wledger = \<lparr>attempts = [], ledger_faults = ls\<rparr>, wtick = 0, wdispatched = []\<rparr>"
  have c: "in_store (create_or_replay_pathway (cenv cfg) demo_pathway APPROVED (str ''k''))
      (empty_world [Fine, Failing] ls) = (Inr (False, APPROVED), ?w [Failing])"
    by (simp add: empty_world_def in_store_def zoom_def create_or_replay_pathway_def k d(1,2) lift_value
        store_tx_def db_step_def create_tx_def bind_text_def check_def find_key_def find_row_def f)
  have e: "record_event cfg (str ''p'') ty actor xs (?w [Failing]) =
      (Inl (Exn SqliteOperationalError (str ''database is locked'')), ?w [])" for ty actor xs
    by (simp add: record_event_def make_event_def latest_event_hash_def in_store_def zoom_def
        store_tx_def db_step_def bnd_def)
  have "snd (register cfg demo_pathway (str ''k'') (empty_world [Fine, Failing] ls)) = ?w []"
    unfolding register_def Let_def r lift_value prod.case dec
    by (simp add: combine_def initial_state_def f bnd_def seq_def c e)
  with d(3) that show ?thesis by blast
qed

text \<open>Short texts under harmless keys are recorded as they are.\<close>

lemma redact_items_texts:
  "\<forall>(k, v) \<in> set xs. \<exists>s. v = PStr s \<and> int (length s) \<le> max_string_length pol \<and> \<not> sensitive pol (str k) \<Longrightarrow>
   distinct (map fst xs) \<Longrightarrow> (PStr ` str ` fst ` set xs) \<inter> fst ` set out = {} \<Longrightarrow>
   depth \<le> max_depth pol \<Longrightarrow> int (length xs) \<le> b \<Longrightarrow>
   redact_items env pol depth b (obj xs) out = Inr (out @ obj xs, b - int (length xs))"
proof (induction xs arbitrary: b out)
  case (Cons x xs)
  obtain k v where x: "x = (k, v)" by (cases x)
  with Cons.prems(1) obtain s where v: "v = PStr s" "int (length s) \<le> max_string_length pol"
    "\<not> sensitive pol (str k)" by auto
  have "dset (str k) (PStr s) out = out @ [(PStr (str k), PStr s)]"
    using Cons.prems(3) x by (intro dset_fresh) auto
  moreover have "(k, y) \<notin> set xs" for y using Cons.prems(2) x by force
  ultimately show ?case
    using Cons x v by (simp add: obj_simps enter_def rbind_def) (subst Cons.IH, auto simp: obj_simps)
qed (simp add: obj_simps)

lemma redact_texts:
  assumes "\<forall>(k, v) \<in> set xs. \<exists>s. v = PStr s \<and> int (length s) \<le> max_string_length pol \<and> \<not> sensitive pol (str k)"
    "distinct (map fst xs)" "1 \<le> max_depth pol" "int (length xs) < max_items pol"
  shows "redact env pol (PDict (obj xs)) = Inr (PDict (obj xs))"
  using redact_items_texts [OF assms(1,2), of "[]" 1 "max_items pol - 1" env] assms(3,4)
  by (simp add: redact_def enter_def)

lemma make_event_texts:
  assumes fr: "float_repr_ok (float_repr (cenv cfg))" and q: "store_faults (wstore w) = []"
    and xs: "\<forall>(k, v) \<in> set xs. \<exists>s. v = PStr s \<and> text_ok s
        \<and> int (length s) \<le> max_string_length (cpolicy cfg) \<and> \<not> sensitive (cpolicy cfg) (str k)"
    and d: "distinct (map fst xs)" and lim: "1 \<le> max_depth (cpolicy cfg)" "int (length xs) < max_items (cpolicy cfg)"
    and t: "text_ok p" "text_ok actor" "text_ok (iso_time (cenv cfg) (wtick w))"
      "\<And>h. latest_of (wstore w) p = Some h \<Longrightarrow> text_ok h"
  obtains e where "make_event cfg p ty actor xs w = (Inr e, w\<lparr>wtick := Suc (wtick w)\<rparr>)"
    "ev_pathway_id e = p" "ev_payload e = obj xs" "ev_type e = str ty" "ev_actor e = actor"
    "ev_previous_hash e = latest_of (wstore w) p" "ev_occurred_at e = iso_time (cenv cfg) (wtick w)"
    "ev_hash e \<in> range (sha256 (cenv cfg))"
proof -
  have r: "redact (cenv cfg) (cpolicy cfg) (PDict (obj xs)) = Inr (PDict (obj xs))"
    by (rule redact_texts [OF _ d lim]) (use xs in fastforce)
  have "plain (PDict (obj xs))"
    using xs by (induction xs) (auto simp: obj_simps)
  moreover have "plain (opt_str (latest_of (wstore w) p))"
    using t(4) by (simp add: opt_str_def split: option.splits)
  ultimately have "plain (event_content p (str ty) actor (obj xs) (iso_time (cenv cfg) (wtick w))
      (opt_str (latest_of (wstore w) p)))"
    using t by (simp add: event_content_def obj_simps)
  from plain_canonical_bytes [OF fr this] obtain b where
    "canonical_payload (cenv cfg) p (str ty) actor (obj xs) (iso_time (cenv cfg) (wtick w))
      (opt_str (latest_of (wstore w) p)) = Inr b"
    by (auto simp: canonical_payload_def)
  with r q t(1) that show ?thesis
    by (simp add: make_event_def build_event_def latest_event_hash_def in_store_def zoom_def store_tx_def
        db_step_def bnd_def bind_text_def check_def now_def)
qed

lemma move_texts:
  assumes fr: "float_repr_ok (float_repr (cenv cfg))" and q: "store_faults (wstore w) = []"
    and xs: "\<forall>(k, v) \<in> set ((''from'', PStr (state_value s)) # (''to'', PStr (state_value t)) # xs).
        \<exists>u. v = PStr u \<and> text_ok u
        \<and> int (length u) \<le> max_string_length (cpolicy cfg) \<and> \<not> sensitive (cpolicy cfg) (str k)"
    and d: "distinct (''from'' # ''to'' # map fst xs)"
    and lim: "1 \<le> max_depth (cpolicy cfg)" "int (length xs + 2) < max_items (cpolicy cfg)"
    and ok: "text_ok p" "text_ok actor" "text_ok (iso_time (cenv cfg) (wtick w))"
      "\<And>h. latest_of (wstore w) p = Some h \<Longrightarrow> text_ok h"
    and hash: "\<And>b. text_ok (sha256 (cenv cfg) b)"
      "er_hash ` set (event_rows (wstore w)) \<inter> range (sha256 (cenv cfg)) = {}"
    and row: "find_row p (pathways (wstore w)) = Some r" "row_state r = s"
  obtains er where "move cfg p s t ty actor xs w =
      (Inr (), w\<lparr>wstore := (set_state p t (wstore w))\<lparr>event_rows := event_rows (wstore w) @ [er]\<rparr>,
         wtick := Suc (wtick w)\<rparr>)" "er_pathway er = p"
proof -
  let ?xs = "(''from'', PStr (state_value s)) # (''to'', PStr (state_value t)) # xs"
  have d': "distinct (map fst ?xs)" using d by simp
  have lim': "int (length ?xs) < max_items (cpolicy cfg)" using lim(2) by simp
  obtain e where e: "make_event cfg p ty actor ?xs w = (Inr e, w\<lparr>wtick := Suc (wtick w)\<rparr>)"
    "ev_pathway_id e = p" "ev_payload e = obj ?xs" "ev_type e = str ty" "ev_actor e = actor"
    "ev_previous_hash e = latest_of (wstore w) p" "ev_occurred_at e = iso_time (cenv cfg) (wtick w)"
    "ev_hash e \<in> range (sha256 (cenv cfg))"
    by (rule make_event_texts [OF fr q xs d' lim(1) lim' ok])
  have pl: "plain_items (obj ?xs)"
    using xs by (induction xs) (auto simp: obj_simps)
  have pe: "plain (PDict (event_to_dict e))"
    using e(2-8) pl ok hash(1) by (auto simp: event_to_dict_def obj_simps opt_str_def split: option.splits)
  from plain_canonical_bytes [OF fr pe] obtain b where
    b: "canonical_bytes (float_repr (cenv cfg)) (PDict (event_to_dict e)) = Inr b" by blast
  have doc: "canonical_doc (PDict (event_to_dict e)) = Inr (PDict (stored_event e))"
    by (rule canonical_event_doc) (use pl plain_is_doc(3) e(3) in simp)
  have fresh: "ev_hash e \<notin> er_hash ` set (event_rows (wstore w))" using e(8) hash(2) by auto
  have frow: "find_row p (pathways (set_state p t (wstore w))) \<noteq> None"
    using row(1) by (simp add: find_row_set_state)
  have ss: "event_rows (set_state p t s') = event_rows s'" "store_faults (set_state p t s') = store_faults s'" for s'
    by (simp_all add: set_state_def)
  have "insert_event (cenv cfg) e (set_state p t (wstore w)) =
      Inr ((set_state p t (wstore w))\<lparr>event_rows := event_rows (wstore w) @ [new_event_row e]\<rparr>)"
    using b doc fresh frow e(2) by (simp add: insert_event_def ss new_event_row_def)
  with e(1) q row ok(1) have "move cfg p s t ty actor xs w =
      (Inr (), w\<lparr>wstore := (set_state p t (wstore w))\<lparr>event_rows := event_rows (wstore w) @ [new_event_row e]\<rparr>,
         wtick := Suc (wtick w)\<rparr>)"
    by (simp add: move_def bnd_def in_store_def zoom_def transition_with_event_def store_tx_def db_step_def
        lookup_row_def bind_text_def check_def)
  moreover have "er_pathway (new_event_row e) = p" using e(2) by (simp add: new_event_row_def)
  ultimately show ?thesis by (rule that)
qed

text \<open>
  The execution: the attempt is recorded, the pathway started, the request handed to the
  executor; the process stops before the result is stored.
\<close>

definition demo_result :: execution_result where
  "demo_result = \<lparr>status = SUCCEEDED, evidence = [],
     readback = Some \<lparr>verified = True, observed = [], readback_reason = None\<rparr>, result_reason = None\<rparr>"

definition demo_executor :: executor where
  "demo_executor q = ret demo_result"

definition demo_registered :: world where
  "demo_registered = snd (register demo_config demo_pathway (str ''k'') (empty_world [Fine, Failing] [Fine, Stopping]))"

definition demo_executed :: world where
  "demo_executed = snd (execute demo_config (str ''p'') demo_request (str ''x'') demo_executor demo_registered)"

lemma demo_result_json: obtains doc where "strict_result_json env demo_result = Inr doc"
  by (rule that, simp add: strict_result_json_def strict_json_identity_def result_value_def demo_result_def obj_simps
       consume_node_def consume_string_def empty_budget_def utf8_len_def utf8_encode_def max_nodes_def max_nesting_def max_string_bytes_def
       surrogate_def utf8_char_def dset_def str_def canonical_bytes_def canonical_doc_def string_text_def escape_char_def
       wrap_encoding_def max_canonical_bytes_def opt_str_def)

lemma demo_fingerprint: obtains fp where "fingerprint env demo_request = Inr fp"
proof -
  have p: "plain (request_value demo_request)"
    by (simp add: request_value_def demo_request_def obj_simps)
  show ?thesis
    by (rule that, simp add: fingerprint_def strict_json_identity_def request_value_def demo_request_def obj_simps
       consume_node_def consume_string_def empty_budget_def utf8_len_def utf8_encode_def max_nodes_def max_nesting_def max_string_bytes_def
       surrogate_def utf8_char_def dset_def str_def canonical_bytes_def canonical_doc_def string_text_def escape_char_def
       wrap_encoding_def max_canonical_bytes_def)
qed

lemma demo_run:
  obtains r doc er f where "definition_of demo_config r = Some demo_pathway" "row_id r = str ''p''"
    "row_state r = RUNNING"
    "demo_executed = \<lparr>wstore = \<lparr>pathways = [r], event_rows = [er], store_faults = []\<rparr>,
       wledger = \<lparr>attempts = [started_record (str ''p'') demo_request f], ledger_faults = []\<rparr>,
       wtick = 1, wdispatched = [\<lparr>dp_pathway = str ''p'', dp_attempt = str ''a1'', dp_actor = str ''x''\<rparr>]\<rparr>"
proof -
  obtain doc fp where d: "definition_from_dict run_env doc = Inr demo_pathway"
    and w: "demo_registered = \<lparr>wstore = \<lparr>pathways = [\<lparr>row_id = str ''p'', row_doc = doc, row_fingerprint = fp,
         row_state = APPROVED, row_key = str ''k''\<rparr>], event_rows = [], store_faults = []\<rparr>,
       wledger = \<lparr>attempts = [], ledger_faults = [Fine, Stopping]\<rparr>, wtick = 0, wdispatched = []\<rparr>"
    unfolding demo_registered_def by (rule demo_register [of demo_config, simplified])
  obtain f where f: "fingerprint run_env demo_request = Inr f" by (rule demo_fingerprint)
  have x: "strip (str ''x'') = str ''x''" by (simp add: strip_def str_def is_space_def)
  let ?w = "\<lambda>st es l n ds. \<lparr>wstore = \<lparr>pathways = [\<lparr>row_id = str ''p'', row_doc = doc, row_fingerprint = fp,
         row_state = st, row_key = str ''k''\<rparr>], event_rows = es, store_faults = []\<rparr>,
       wledger = l, wtick = n, wdispatched = ds\<rparr>"
  define l1 where "l1 = \<lparr>attempts = [started_record (str ''p'') demo_request f], ledger_faults = [Stopping]\<rparr>"
  have state: "in_store (get_state (str ''p'')) (?w st es l n ds) = (Inr st, ?w st es l n ds)"
    and defn: "in_store (get_definition run_env (str ''p'')) (?w st es l n ds) = (Inr demo_pathway, ?w st es l n ds)"
    for st es l n ds
    by (simp_all add: in_store_def zoom_def store_tx_def db_step_def get_state_def get_definition_def
        lookup_row_def bind_text_def check_def find_row_def d)
  have ledger: "in_ledger (begin_attempt run_env (str ''p'') demo_request)
      (?w st es \<lparr>attempts = [], ledger_faults = [Fine, Stopping]\<rparr> n ds) =
      (Inr (False, started_record (str ''p'') demo_request f), ?w st es l1 n ds)" for st es n ds
    by (simp add: in_ledger_def zoom_def begin_attempt_def f lift_value ledger_tx_def db_step_def begin_tx_def
        bind_text_def check_def select_attempt_def find_attempt_def l1_def) (simp add: demo_request_def)
  have ns: "\<not> sensitive default_policy (str k)"
    if "k \<in> {''from'', ''to'', ''operation_id'', ''attempt_id'', ''idempotency_key'', ''reason''}" for k
    using that by (auto simp: sensitive_def default_policy_def default_sensitive_keys_def str_def
        casefold_def casefold_char_def)
  have pol: "max_depth default_policy = 12" "max_items default_policy = 1000"
    "max_string_length default_policy = 16384" by (simp_all add: default_policy_def)
  obtain er where start: "move demo_config (str ''p'') APPROVED RUNNING ''execution_started'' (str ''x'')
      (request_fields demo_request @ [(''reason'', PStr (str ''execution_started''))]) (?w APPROVED [] l1 0 []) =
      (Inr (), (?w APPROVED [] l1 0 [])\<lparr>wstore := (set_state (str ''p'') RUNNING (wstore (?w APPROVED [] l1 0 [])))
        \<lparr>event_rows := event_rows (wstore (?w APPROVED [] l1 0 [])) @ [er]\<rparr>, wtick := Suc 0\<rparr>)"
    by (rule move_texts [of demo_config "?w APPROVED [] l1 0 []" APPROVED RUNNING
          "request_fields demo_request @ [(''reason'', PStr (str ''execution_started''))]" "str ''p''"
          "str ''x''" "\<lparr>row_id = str ''p'', row_doc = doc, row_fingerprint = fp, row_state = APPROVED,
            row_key = str ''k''\<rparr>" "''execution_started''"])
      (simp_all add: demo_float_ok ns request_fields_def demo_request_def pol latest_of_def
        rows_of_def find_row_def)
  let ?d = "dispatch_attempt demo_config (str ''p'') demo_request (str ''x'') demo_executor"
  obtain rd where rd: "strict_result_json run_env demo_result = Inr rd" by (rule demo_result_json)
  define l2 where "l2 = \<lparr>attempts = [started_record (str ''p'') demo_request f], ledger_faults = []\<rparr>"
  have finish: "in_ledger (finish run_env a demo_result) (?w st es l1 n ds) = (Inl (Exn Crash []), ?w st es l2 n ds)"
    for st es n ds a
    by (simp add: in_ledger_def zoom_def finish_def rd lift_value ledger_tx_def db_step_def l1_def l2_def)
  have disp: "?d (?w st es l1 n []) = (Inl (Exn Crash []), ?w st es l2 n
      [\<lparr>dp_pathway = str ''p'', dp_attempt = str ''a1'', dp_actor = str ''x''\<rparr>])" for st es n
    by (simp add: dispatch_attempt_def log_dispatch_def run_executor_def demo_executor_def x seq_def bnd_def
        handle_def persist_execution_result_def finish catches_def) (simp add: demo_request_def)
  have auth: "authorize_execution_access demo_pathway (str ''x'') = Inr ()"
    "authorize_transition demo_pathway APPROVED RUNNING (str ''x'') = Inr ()"
    by (simp_all add: authorize_execution_ok authorize_transition_ok x demo_pathway_def)
  have binding: "check_binding (str ''p'') demo_request (?w APPROVED es l n ds) = (Inr (), ?w APPROVED es l n ds)"
    for es l n ds by (simp add: check_binding_def bnd_def state)
  have begun: "start_or_discard demo_config (str ''p'') demo_request (str ''x'') (?w APPROVED [] l1 0 []) =
      (Inr (), ?w RUNNING [er] l1 1 [])"
    using start by (simp add: start_or_discard_def handle_def bnd_def state start_execution_pathway_def defn
        seq_def lift_def auth ensure_transition_def set_state_def)
  have "demo_executed = ?w RUNNING [er] l2 1
      [\<lparr>dp_pathway = str ''p'', dp_attempt = str ''a1'', dp_actor = str ''x''\<rparr>]"
    unfolding demo_executed_def execute_unfold w
    by (simp add: bnd_def seq_def lift_def defn auth binding ledger continue_execution_def begun disp)
  moreover have "definition_of demo_config \<lparr>row_id = str ''p'', row_doc = doc, row_fingerprint = fp,
         row_state = st, row_key = str ''k''\<rparr> = Some demo_pathway" for st
    by (simp add: definition_of_def d)
  ultimately show ?thesis
    by (intro that [of "\<lparr>row_id = str ''p'', row_doc = doc, row_fingerprint = fp,
         row_state = RUNNING, row_key = str ''k''\<rparr>"]) (simp_all add: l2_def)
qed

lemma demo_dispatched: "wdispatched demo_executed =
    [\<lparr>dp_pathway = str ''p'', dp_attempt = str ''a1'', dp_actor = str ''x''\<rparr>]"
  using demo_run by (metis world.select_convs(4))

lemma demo_executed_row:
  obtains r where "pathways (wstore demo_executed) = [r]" "row_id r = str ''p''" "row_state r = RUNNING"
    "store_faults (wstore demo_executed) = []"
  using demo_run by (metis store.select_convs(1,3) world.select_convs(1))

lemma demo_policy [simp]: "policy_ok (cpolicy demo_config)"
  by (simp add: default_policy_ok)

lemma demo_registered_reachable: "reachable demo_config demo_registered"
proof -
  let ?w = "empty_world [Fine, Failing] [Fine, Stopping]"
  have "call demo_config ?w demo_registered"
    unfolding demo_registered_def by (rule call_register [OF surjective_pairing])
  moreover have "initial ?w" by (simp add: initial_def empty_world_def)
  ultimately show ?thesis by (auto simp: reachable_def)
qed

lemma demo_execute_call: "call demo_config demo_registered demo_executed"
  unfolding demo_executed_def
proof (rule call_execute [OF _ _ surjective_pairing])
  show "\<not> blank (attempt_id demo_request)"
    by (simp add: demo_request_def blank_iff is_space_def str_def)
  show "(call demo_config)\<^sup>*\<^sup>* v v'" if "demo_executor demo_request v = (x, v')" for v x v'
    using that by (simp add: demo_executor_def)
qed

lemma demo_executed_reachable: "reachable demo_config demo_executed"
  by (rule reachable_call [OF demo_registered_reachable demo_execute_call])

lemma demo_execute_calls: "(call demo_config)\<^sup>*\<^sup>* demo_registered demo_executed"
  using demo_execute_call by (rule r_into_rtranclp)

lemma demo_registered_row:
  obtains r where "pathways (wstore demo_registered) = [r]" "row_id r = str ''p''" "row_state r = APPROVED"
    "definition_of demo_config r = Some demo_pathway"
proof -
  obtain doc fp where d: "definition_from_dict run_env doc = Inr demo_pathway"
    "demo_registered = \<lparr>wstore = \<lparr>pathways = [\<lparr>row_id = str ''p'', row_doc = doc, row_fingerprint = fp,
         row_state = APPROVED, row_key = str ''k''\<rparr>], event_rows = [], store_faults = []\<rparr>,
       wledger = \<lparr>attempts = [], ledger_faults = [Fine, Stopping]\<rparr>, wtick = 0, wdispatched = []\<rparr>"
    unfolding demo_registered_def by (rule demo_register [of demo_config, simplified])
  show ?thesis
    by (rule that [of "\<lparr>row_id = str ''p'', row_doc = doc, row_fingerprint = fp,
         row_state = APPROVED, row_key = str ''k''\<rparr>"]) (simp_all add: d definition_of_def)
qed

lemma demo_executor_free: "dispatch_free (demo_executor demo_request)"
  by (auto simp: demo_executor_def)

lemma demo_registered_dispatches: "wdispatched demo_registered = []"
  unfolding demo_registered_def
  by (rule demo_register [of demo_config "[Fine, Stopping]"]) simp_all

end
