(* ===== verification/Rpr_Claims.thy ===== *)
theory Rpr_Claims
  imports Rpr_Evidence
begin

text \<open>
  \<open>epistemic_claims.py\<close> and \<open>launch_claims.py\<close>: validated claims, the gate that decides
  whether a claim may be used in a context, and the registries that bundle claims under one
  hash. The lemmas say exactly when a use is allowed without a human, and that a bundle does
  not depend on the order in which the claims were given.
\<close>

section \<open>Hashes and registries\<close>

text \<open>A character of \<open>"0123456789abcdef"\<close> after \<open>lower()\<close>.\<close>

definition hex_char :: "nat \<Rightarrow> bool" where
  "hex_char c \<longleftrightarrow> (48 \<le> c \<and> c \<le> 57) \<or> (97 \<le> c \<and> c \<le> 102) \<or> (65 \<le> c \<and> c \<le> 70)"

definition is_sha256 :: "pystr \<Rightarrow> bool" where
  "is_sha256 s \<longleftrightarrow> length s = 64 \<and> list_all hex_char s"

definition validate_sha256 :: "pystr \<Rightarrow> unit res" where
  "validate_sha256 s = check (is_sha256 s) ValueError ''evidence reference must be SHA-256''"

text \<open>A sequence of checks, stopping at the first that fails.\<close>

fun check_each :: "('a \<Rightarrow> unit res) \<Rightarrow> 'a list \<Rightarrow> unit res" where
  "check_each f [] = Inr ()"
| "check_each f (x # xs) = rbind (f x) (\<lambda>_. check_each f xs)"

lemma check_each_ok: "check_each f xs = Inr () \<longleftrightarrow> (\<forall>x \<in> set xs. f x = Inr ())"
  by (induction xs) (auto simp: rbind_eq_Inr)

text \<open>
  The loop that \<open>build_claim_bundle\<close> and \<open>build_launch_claim_registry\<close> share: validate in
  order, reject a repeated id.
\<close>

fun check_members :: "('a \<Rightarrow> pystr) \<Rightarrow> ('a \<Rightarrow> unit res) \<Rightarrow> pystr list \<Rightarrow> 'a list \<Rightarrow> unit res" where
  "check_members ident accept seen [] = Inr ()"
| "check_members ident accept seen (c # cs) = rbind (accept c) (\<lambda>_.
     if ident c \<in> set seen then err ValueError ''duplicate claim id''
     else check_members ident accept (ident c # seen) cs)"

definition build_registry :: "('a \<Rightarrow> pystr) \<Rightarrow> ('a \<Rightarrow> unit res) \<Rightarrow> ('a \<Rightarrow> pv) \<Rightarrow> pyenv \<Rightarrow> 'a list
    \<Rightarrow> (pv list \<times> pystr) res" where
  "build_registry ident accept to_value env cs =
     (let ordered = sort_key ident cs; values = map to_value ordered in
      rbind (check_members ident accept [] ordered) (\<lambda>_.
      rbind (canonical_bytes (float_repr env) (PList values)) (\<lambda>b.
        Inr (values, sha256 env b))))"

lemma check_members_ok:
  "check_members ident accept seen cs = Inr () \<longleftrightarrow> (\<forall>c \<in> set cs. accept c = Inr ())
     \<and> distinct (map ident cs) \<and> set (map ident cs) \<inter> set seen = {}"
  by (induction cs arbitrary: seen) (auto simp: rbind_eq_Inr)

lemma sort_key_permuted:
  assumes "mset xs = mset ys" "distinct (map f xs)"
  shows "sort_key f xs = sort_key f ys"
proof (rule properties_for_sort_key)
  show "mset (sort_key f ys) = mset xs" using assms(1) by simp
  show "sorted (map f (sort_key f ys))" by simp
  fix k assume k: "k \<in> set (sort_key f ys)"
  have one: "filter (\<lambda>x. f k = f x) zs = [k]" if "mset zs = mset xs" for zs
  proof -
    have "set zs = set ys" "distinct (map f zs)"
      using that assms by (metis mset_eq_setD, metis mset_map mset_eq_imp_distinct_iff)
    with k have "k \<in> set zs" and inj: "inj_on f (set zs)" "distinct zs"
      by (auto simp: distinct_map)
    then have "x = k" if "x \<in> set zs" "f k = f x" for x using that by (auto simp: inj_on_def)
    with \<open>k \<in> set zs\<close> \<open>distinct zs\<close> show ?thesis
      by (induction zs) (auto simp: filter_empty_conv)
  qed
  show "filter (\<lambda>x. f k = f x) (sort_key f ys) = filter (\<lambda>x. f k = f x) xs"
    using one [of xs] one [of "sort_key f ys"] assms(1) by simp
qed

lemma build_registry_order:
  assumes "build_registry ident accept to_value env xs = Inr r" "mset ys = mset xs"
  shows "build_registry ident accept to_value env ys = Inr r"
proof -
  from assms(1) have "check_members ident accept [] (sort_key ident xs) = Inr ()"
    by (auto simp: build_registry_def Let_def rbind_eq_Inr)
  then have "distinct (map ident (sort_key ident xs))" by (simp add: check_members_ok)
  then have "distinct (map ident xs)" by (metis mset_map mset_sort mset_eq_imp_distinct_iff)
  with assms(2) have "sort_key ident xs = sort_key ident ys" by (intro sort_key_permuted) simp_all
  with assms(1) show ?thesis by (simp add: build_registry_def)
qed

lemma build_registry_members:
  assumes "build_registry ident accept to_value env xs = Inr r" "x \<in> set xs"
  shows "accept x = Inr ()"
  using assms by (auto simp: build_registry_def Let_def rbind_eq_Inr check_members_ok)

section \<open>Epistemic claims\<close>

datatype claim_class = CREATIVE | INFERENCE | FACTUAL | STATISTIC_OR_QUOTATION | HIGH_IMPACT_CLAIM

fun claim_class_value :: "claim_class \<Rightarrow> pystr" where
  "claim_class_value CREATIVE = str ''creative''"
| "claim_class_value INFERENCE = str ''inference''"
| "claim_class_value FACTUAL = str ''factual''"
| "claim_class_value STATISTIC_OR_QUOTATION = str ''statistic_or_quotation''"
| "claim_class_value HIGH_IMPACT_CLAIM = str ''high_impact''"

datatype verification_state =
  PROPOSED_CLAIM | SOURCE_ATTACHED | SOURCE_RETRIEVED | SOURCE_SUPPORTS_CLAIM
  | CONFLICTING_EVIDENCE | UNVERIFIED | HUMAN_REVIEWED | APPROVED_FOR_USE

fun verification_value :: "verification_state \<Rightarrow> pystr" where
  "verification_value PROPOSED_CLAIM = str ''proposed''"
| "verification_value SOURCE_ATTACHED = str ''source_attached''"
| "verification_value SOURCE_RETRIEVED = str ''source_retrieved''"
| "verification_value SOURCE_SUPPORTS_CLAIM = str ''source_supports_claim''"
| "verification_value CONFLICTING_EVIDENCE = str ''conflicting_evidence''"
| "verification_value UNVERIFIED = str ''unverified''"
| "verification_value HUMAN_REVIEWED = str ''human_reviewed''"
| "verification_value APPROVED_FOR_USE = str ''approved_for_use''"

datatype use_context = INTERNAL_DRAFT | EXTERNAL_MESSAGE | PUBLICATION | HIGH_IMPACT_ACTION

record claim_evidence =
  ce_id :: pystr
  ce_sha256 :: pystr
  ce_locator :: pystr
  ce_verifier :: pystr
  ce_independent :: bool
  ce_supports :: "bool option"

definition evidence_validate :: "claim_evidence \<Rightarrow> unit res" where
  "evidence_validate e =
     rbind (check (strip (ce_id e) \<noteq> [] \<and> strip (ce_locator e) \<noteq> [] \<and> strip (ce_verifier e) \<noteq> [])
       ValueError ''evidence id, source locator, and verifier are required'') (\<lambda>_.
     validate_sha256 (ce_sha256 e))"

record epistemic_claim =
  claim_id :: pystr
  claim_text :: pystr
  claim_class :: claim_class
  verification_state :: verification_state
  claim_evidence_items :: "claim_evidence list"
  assumptions :: "pystr list"
  conflict_notes :: "pystr list"
  review_owner :: "pystr option"
  claim_approval_authority :: "pystr option"
  claim_residual_owner :: "pystr option"

text \<open>\<open>not x or not x.strip()\<close>, negated.\<close>

definition named :: "pystr option \<Rightarrow> bool" where
  "named x = (case x of None \<Rightarrow> False | Some s \<Rightarrow> strip s \<noteq> [])"

definition supported :: "epistemic_claim \<Rightarrow> bool" where
  "supported c = list_ex (\<lambda>e. ce_supports e = Some True) (claim_evidence_items c)"

definition independently_supported :: "epistemic_claim \<Rightarrow> bool" where
  "independently_supported c =
     list_ex (\<lambda>e. ce_independent e \<and> ce_supports e = Some True) (claim_evidence_items c)"

definition claim_validate :: "epistemic_claim \<Rightarrow> unit res" where
  "claim_validate c =
     rbind (check (strip (claim_id c) \<noteq> [] \<and> strip (claim_text c) \<noteq> [])
       ValueError ''claim id and text are required'') (\<lambda>_.
     rbind (check_each evidence_validate (claim_evidence_items c)) (\<lambda>_.
     rbind (check (distinct (map ce_id (claim_evidence_items c)))
       ValueError ''duplicate evidence id'') (\<lambda>_.
     rbind (check (verification_state c \<in> {SOURCE_ATTACHED, SOURCE_RETRIEVED,
           SOURCE_SUPPORTS_CLAIM, HUMAN_REVIEWED, APPROVED_FOR_USE} \<longrightarrow> claim_evidence_items c \<noteq> [])
       ValueError ''verification state requires evidence'') (\<lambda>_.
     rbind (check (verification_state c = SOURCE_SUPPORTS_CLAIM \<longrightarrow> supported c)
       ValueError ''supported state requires supporting evidence'') (\<lambda>_.
     rbind (check (verification_state c = CONFLICTING_EVIDENCE \<longrightarrow> conflict_notes c \<noteq> [])
       ValueError ''conflicting evidence requires conflict notes'') (\<lambda>_.
     rbind (check (verification_state c \<in> {HUMAN_REVIEWED, APPROVED_FOR_USE} \<longrightarrow> named (review_owner c))
       ValueError ''reviewed claims require a review owner'') (\<lambda>_.
     rbind (check (verification_state c = APPROVED_FOR_USE \<longrightarrow> named (claim_approval_authority c))
       ValueError ''approved claims require approval authority'') (\<lambda>_.
       check (verification_state c = APPROVED_FOR_USE \<longrightarrow> named (claim_residual_owner c))
         ValueError ''approved claims require residual owner''))))))))"

record claim_gate_result =
  cg_claim_id :: pystr
  cg_context :: use_context
  cg_decision :: runtime_decision
  cg_reason_codes :: "pystr list"

definition evaluate_claim_use :: "epistemic_claim \<Rightarrow> use_context \<Rightarrow> claim_gate_result res" where
  "evaluate_claim_use c ctx = rbind (claim_validate c) (\<lambda>_.
     let st = verification_state c; cl = claim_class c;
         verified = st \<in> {SOURCE_SUPPORTS_CLAIM, HUMAN_REVIEWED, APPROVED_FOR_USE};
         unverified = st \<in> {PROPOSED_CLAIM, UNVERIFIED};
         result = (\<lambda>d codes. Inr \<lparr>cg_claim_id = claim_id c, cg_context = ctx, cg_decision = d,
           cg_reason_codes = map str codes\<rparr>)
     in
     if st = CONFLICTING_EVIDENCE then result HUMAN_GATE_DECISION [''conflicting_evidence'']
     else if ctx = INTERNAL_DRAFT then
       (if cl = INFERENCE \<and> assumptions c = [] then result HOLD [''inference_assumptions_missing'']
        else result ALLOW (if unverified then [''draft_must_display_unverified_status''] else []))
     else if cl = CREATIVE \<and> unverified then result ALLOW [''creative_content_must_be_labelled'']
     else if cl = INFERENCE \<and> assumptions c = [] then result HOLD [''inference_assumptions_missing'']
     else if cl = INFERENCE \<and> \<not> verified then result HOLD [''inference_basis_not_verified'']
     else if cl \<in> {FACTUAL, STATISTIC_OR_QUOTATION} \<and> \<not> verified then
       result HOLD [''factual_claim_not_supported'']
     else if cl \<in> {FACTUAL, STATISTIC_OR_QUOTATION} \<and> \<not> supported c then
       result HOLD [''supporting_evidence_missing'']
     else if (cl = HIGH_IMPACT_CLAIM \<or> ctx = HIGH_IMPACT_ACTION) \<and> st \<noteq> APPROVED_FOR_USE then
       result HUMAN_GATE_DECISION [''high_impact_claim_not_approved'']
     else if (cl = HIGH_IMPACT_CLAIM \<or> ctx = HIGH_IMPACT_ACTION) \<and> \<not> independently_supported c then
       result HUMAN_GATE_DECISION [''independent_verification_missing'']
     else if (ctx = EXTERNAL_MESSAGE \<or> ctx = PUBLICATION) \<and> st \<noteq> APPROVED_FOR_USE then
       result HUMAN_GATE_DECISION [''external_use_not_approved'']
     else result ALLOW [])"

definition evidence_to_value :: "claim_evidence \<Rightarrow> pv" where
  "evidence_to_value e = PDict (obj [
     (''evidence_id'', PStr (ce_id e)), (''artifact_sha256'', PStr (ce_sha256 e)),
     (''source_locator'', PStr (ce_locator e)), (''verifier'', PStr (ce_verifier e)),
     (''independent'', PBool (ce_independent e)),
     (''supports_claim'', (case ce_supports e of None \<Rightarrow> PNone | Some b \<Rightarrow> PBool b))])"

definition claim_to_value :: "epistemic_claim \<Rightarrow> pv" where
  "claim_to_value c = PDict (obj [
     (''claim_id'', PStr (claim_id c)), (''text'', PStr (claim_text c)),
     (''claim_class'', PStr (claim_class_value (claim_class c))),
     (''verification_state'', PStr (verification_value (verification_state c))),
     (''evidence'', PTuple (map evidence_to_value (claim_evidence_items c))),
     (''assumptions'', PTuple (map PStr (assumptions c))),
     (''conflict_notes'', PTuple (map PStr (conflict_notes c))),
     (''review_owner'', opt_str (review_owner c)),
     (''approval_authority'', opt_str (claim_approval_authority c)),
     (''residual_owner'', opt_str (claim_residual_owner c))])"

definition build_claim_bundle :: "pyenv \<Rightarrow> epistemic_claim list \<Rightarrow> (pv list \<times> pystr) res" where
  "build_claim_bundle env cs = build_registry claim_id claim_validate claim_to_value env cs"

section \<open>Launch claims\<close>

record launch_claim =
  lc_id :: pystr
  lc_text :: pystr
  lc_status :: pystr
  lc_evidence_sha256 :: "pystr list"
  lc_limitation_refs :: "pystr list"

definition launch_validate :: "launch_claim \<Rightarrow> unit res" where
  "launch_validate c =
     rbind (check (strip (lc_id c) \<noteq> [] \<and> strip (lc_text c) \<noteq> [])
       ValueError ''claim id and text are required'') (\<lambda>_.
     rbind (check (lc_status c \<in> set (map str [''proposed'', ''supported'', ''blocked'', ''retired'']))
       ValueError ''invalid claim status'') (\<lambda>_.
     rbind (check_each (\<lambda>d. check (is_sha256 d) ValueError ''claim evidence must be SHA-256'')
       (lc_evidence_sha256 c)) (\<lambda>_.
     rbind (check (lc_status c = str ''supported'' \<longrightarrow> lc_evidence_sha256 c \<noteq> [])
       ValueError ''supported claims require evidence'') (\<lambda>_.
       check (lc_status c \<in> set (map str [''proposed'', ''blocked'']) \<longrightarrow> lc_evidence_sha256 c = [])
         ValueError ''unapproved claims cannot carry release evidence''))))"

definition launch_to_value :: "launch_claim \<Rightarrow> pv" where
  "launch_to_value c = PDict (obj [
     (''claim_id'', PStr (lc_id c)), (''text'', PStr (lc_text c)), (''status'', PStr (lc_status c)),
     (''evidence_sha256'', PTuple (map PStr (lc_evidence_sha256 c))),
     (''limitation_refs'', PTuple (map PStr (lc_limitation_refs c)))])"

definition build_launch_claim_registry :: "pyenv \<Rightarrow> launch_claim list \<Rightarrow> (pv list \<times> pystr) res" where
  "build_launch_claim_registry env cs = build_registry lc_id launch_validate launch_to_value env cs"

section \<open>When a use is allowed\<close>

text \<open>A claim that a person approved: evidence, reviewer, authority and residual owner named.\<close>

definition approved_claim :: "epistemic_claim \<Rightarrow> bool" where
  "approved_claim c \<longleftrightarrow> verification_state c = APPROVED_FOR_USE \<and> claim_evidence_items c \<noteq> []
     \<and> named (review_owner c) \<and> named (claim_approval_authority c) \<and> named (claim_residual_owner c)"

lemma claim_validate_approved:
  "claim_validate c = Inr () \<Longrightarrow> verification_state c = APPROVED_FOR_USE \<Longrightarrow> approved_claim c"
  by (simp add: claim_validate_def rbind_eq_Inr approved_claim_def)

lemma claim_allowed:
  assumes "evaluate_claim_use c ctx = Inr r" "cg_decision r = ALLOW"
  shows "ctx = INTERNAL_DRAFT
    \<or> claim_class c = CREATIVE \<and> verification_state c \<in> {PROPOSED_CLAIM, UNVERIFIED}
    \<or> approved_claim c \<and> (claim_class c = HIGH_IMPACT_CLAIM \<or> ctx = HIGH_IMPACT_ACTION \<longrightarrow>
        independently_supported c)"
proof -
  from assms(1) have v: "claim_validate c = Inr ()"
    by (auto simp: evaluate_claim_use_def rbind_eq_Inr)
  note r = assms(1) [symmetric] assms(2)
  let ?impact = "claim_class c = HIGH_IMPACT_CLAIM \<or> ctx = HIGH_IMPACT_ACTION"
  consider "ctx = INTERNAL_DRAFT"
    | "claim_class c = CREATIVE" "verification_state c \<in> {PROPOSED_CLAIM, UNVERIFIED}"
    | (rest) "ctx \<noteq> INTERNAL_DRAFT"
        "\<not> (claim_class c = CREATIVE \<and> verification_state c \<in> {PROPOSED_CLAIM, UNVERIFIED})"
    by blast
  then show ?thesis
  proof cases
    case rest
    have st: "verification_state c = APPROVED_FOR_USE"
    proof (rule ccontr)
      assume "verification_state c \<noteq> APPROVED_FOR_USE"
      with r rest v show False
        by (cases ctx; cases "claim_class c"; cases "verification_state c")
          (simp_all add: evaluate_claim_use_def split: if_splits)
    qed
    have "independently_supported c" if "?impact"
    proof (rule ccontr)
      assume "\<not> independently_supported c"
      with r rest v st that show False
        by (cases ctx; cases "claim_class c") (simp_all add: evaluate_claim_use_def split: if_splits)
    qed
    with claim_validate_approved [OF v st] show ?thesis by blast
  qed blast+
qed

lemma claim_use_total:
  "claim_validate c = Inr () \<Longrightarrow> \<exists>r. evaluate_claim_use c ctx = Inr r"
  by (simp add: evaluate_claim_use_def Let_def)

end
