(* ===== verification/Rpr_Article50.thy ===== *)
theory Rpr_Article50
  imports Rpr_Models
begin

text \<open>
  \<open>eu_ai_act_article50.py\<close>: the transparency assessment. The lemmas characterise every
  outcome; the approved one needs a resolved classification, an owner, every required control
  and recorded evidence of a human gate.
\<close>

datatype territorial_scope = EU_IN_SCOPE | OUT_OF_SCOPE | SCOPE_UNRESOLVED
datatype actor_role = PROVIDER | DEPLOYER | BOTH | OTHER_ROLE | ROLE_UNRESOLVED
datatype system_function =
  INTERACTIVE_AI | GENERATIVE_CONTENT | EMOTION_RECOGNITION | BIOMETRIC_CATEGORISATION
  | OTHER_FUNCTION | FUNCTION_UNRESOLVED
datatype content_modality =
  TEXT | IMAGE | AUDIO | VIDEO | MULTIMODAL | NO_MODALITY | MODALITY_UNRESOLVED
datatype content_context =
  DEEPFAKE | PUBLIC_INTEREST_TEXT | ARTISTIC_OR_FICTIONAL | ORDINARY_CONTENT | NO_CONTEXT
  | CONTEXT_UNRESOLVED
datatype transparency_outcome =
  NOT_APPLICABLE_OUTCOME | CONTROLS_REQUIRED | READY_FOR_HUMAN_GATE | BLOCKED_UNRESOLVED
  | APPROVED_FOR_DECLARED_CONTEXT

record article50_assessment =
  assessment_id :: pystr
  assessed_at :: pystr
  legal_basis_version :: pystr
  territorial_scope :: territorial_scope
  actor_role :: actor_role
  system_function :: system_function
  content_modality :: content_modality
  content_context :: content_context
  human_review_completed :: bool
  editorial_responsibility_owner :: "pystr option"
  interaction_disclosure_present :: bool
  machine_readable_mark_present :: bool
  visible_label_present :: bool
  responsible_owner :: "pystr option"
  residual_uncertainty :: "pystr option"

record article50_decision =
  outcome :: transparency_outcome
  interaction_disclosure_required :: bool
  machine_readable_mark_required :: bool
  visible_label_required :: bool
  missing_evidence :: "pystr list"
  reasons :: "pystr list"
  human_gate_required :: bool

definition is_provider :: "actor_role \<Rightarrow> bool" where
  "is_provider r \<longleftrightarrow> r = PROVIDER \<or> r = BOTH"

definition is_deployer :: "actor_role \<Rightarrow> bool" where
  "is_deployer r \<longleftrightarrow> r = DEPLOYER \<or> r = BOTH"

text \<open>The local variables of \<open>evaluate_article50\<close>.\<close>

definition classification_unresolved :: "article50_assessment \<Rightarrow> bool" where
  "classification_unresolved a \<longleftrightarrow> territorial_scope a = SCOPE_UNRESOLVED
     \<or> actor_role a = ROLE_UNRESOLVED \<or> system_function a = FUNCTION_UNRESOLVED
     \<or> content_modality a = MODALITY_UNRESOLVED \<or> content_context a = CONTEXT_UNRESOLVED"

definition interaction_required :: "article50_assessment \<Rightarrow> bool" where
  "interaction_required a \<longleftrightarrow> territorial_scope a = EU_IN_SCOPE \<and> system_function a = INTERACTIVE_AI"

definition machine_mark_required :: "article50_assessment \<Rightarrow> bool" where
  "machine_mark_required a \<longleftrightarrow> territorial_scope a = EU_IN_SCOPE \<and> is_provider (actor_role a)
     \<and> system_function a = GENERATIVE_CONTENT"

definition public_interest :: "article50_assessment \<Rightarrow> bool" where
  "public_interest a \<longleftrightarrow> territorial_scope a = EU_IN_SCOPE \<and> is_deployer (actor_role a)
     \<and> content_context a = PUBLIC_INTEREST_TEXT"

definition editorial_exception :: "article50_assessment \<Rightarrow> bool" where
  "editorial_exception a \<longleftrightarrow> human_review_completed a
     \<and> (case editorial_responsibility_owner a of None \<Rightarrow> False | Some s \<Rightarrow> s \<noteq> [] \<and> strip s \<noteq> [])"

definition label_required :: "article50_assessment \<Rightarrow> bool" where
  "label_required a =
     (if public_interest a then \<not> editorial_exception a
      else territorial_scope a = EU_IN_SCOPE \<and> is_deployer (actor_role a)
        \<and> (content_context a = DEEPFAKE \<or> content_context a = ARTISTIC_OR_FICTIONAL))"

definition missing_controls :: "article50_assessment \<Rightarrow> pystr list" where
  "missing_controls a =
     (case responsible_owner a of None \<Rightarrow> [str ''responsible_owner'']
        | Some s \<Rightarrow> if s = [] then [str ''responsible_owner''] else [])
     @ (if interaction_required a \<and> \<not> interaction_disclosure_present a
        then [str ''interaction_disclosure''] else [])
     @ (if machine_mark_required a \<and> \<not> machine_readable_mark_present a
        then [str ''machine_readable_mark''] else [])
     @ (if label_required a \<and> \<not> visible_label_present a then [str ''visible_label''] else [])"

definition evaluate_article50 ::
    "article50_assessment \<Rightarrow> bool \<Rightarrow> pystr list \<Rightarrow> article50_decision res" where
  "evaluate_article50 a approved gate_evidence =
     rbind (check (strip (assessment_id a) \<noteq> []) ValueError ''assessment_id must not be empty'') (\<lambda>_.
     rbind (check (strip (assessed_at a) \<noteq> []) ValueError ''assessed_at must not be empty'') (\<lambda>_.
     rbind (check (strip (legal_basis_version a) \<noteq> [])
       ValueError ''legal_basis_version must not be empty'') (\<lambda>_.
     let unresolved = classification_unresolved a;
         missing = missing_controls a;
         why = (if unresolved then [str ''legal scope or classification is unresolved''] else [])
           @ (if public_interest a \<and> editorial_exception a
              then [str ''public-interest text exception declared with human review and editorial responsibility'']
              else []);
         result = (\<lambda>out gate. Inr \<lparr>outcome = out, interaction_disclosure_required = interaction_required a,
           machine_readable_mark_required = machine_mark_required a,
           visible_label_required = label_required a, missing_evidence = remdups missing,
           reasons = why, human_gate_required = gate\<rparr>)
     in
     if territorial_scope a = OUT_OF_SCOPE then result NOT_APPLICABLE_OUTCOME False
     else if unresolved then result BLOCKED_UNRESOLVED True
     else if missing \<noteq> [] then result CONTROLS_REQUIRED True
     else if approved then
       rbind (check (list_ex (\<lambda>s. strip s \<noteq> []) gate_evidence)
         ValueError ''human_gate_evidence is required when human_gate_approved is true'') (\<lambda>_.
         result APPROVED_FOR_DECLARED_CONTEXT False)
     else result READY_FOR_HUMAN_GATE True)))"

section \<open>Outcomes\<close>

text \<open>The controls the declared context calls for are in place.\<close>

definition controls_present :: "article50_assessment \<Rightarrow> bool" where
  "controls_present a \<longleftrightarrow> (\<exists>s. responsible_owner a = Some s \<and> s \<noteq> [])
     \<and> (interaction_required a \<longrightarrow> interaction_disclosure_present a)
     \<and> (machine_mark_required a \<longrightarrow> machine_readable_mark_present a)
     \<and> (label_required a \<longrightarrow> visible_label_present a)"

lemma missing_controls_Nil: "missing_controls a = [] \<longleftrightarrow> controls_present a"
  by (auto simp: missing_controls_def controls_present_def split: option.splits)

definition well_identified :: "article50_assessment \<Rightarrow> bool" where
  "well_identified a \<longleftrightarrow> \<not> blank (assessment_id a) \<and> \<not> blank (assessed_at a)
     \<and> \<not> blank (legal_basis_version a)"

lemma article50_approved_iff:
  "(\<exists>d. evaluate_article50 a approved ev = Inr d \<and> outcome d = APPROVED_FOR_DECLARED_CONTEXT) \<longleftrightarrow>
     well_identified a \<and> territorial_scope a = EU_IN_SCOPE \<and> \<not> classification_unresolved a
     \<and> controls_present a \<and> approved \<and> (\<exists>s \<in> set ev. \<not> blank s)"
  by (cases "territorial_scope a")
    (auto simp: evaluate_article50_def Let_def rbind_eq_Inr missing_controls_Nil well_identified_def
      blank_def list_ex_iff classification_unresolved_def)

lemma article50_gate:
  assumes "evaluate_article50 a approved ev = Inr d"
  shows "human_gate_required d \<longleftrightarrow>
    outcome d \<noteq> NOT_APPLICABLE_OUTCOME \<and> outcome d \<noteq> APPROVED_FOR_DECLARED_CONTEXT"
  using assms by (auto simp: evaluate_article50_def Let_def rbind_eq_Inr split: if_splits)

end
