(* ===== verification/Rpr_Identity.thy ===== *)
theory Rpr_Identity
  imports Rpr_Demo
begin

text \<open>
  \<open>identity.py\<close> and \<open>compensation.py\<close>: which verified token claims become a principal. The
  lemmas say exactly which claims are accepted.
\<close>

section \<open>Floats\<close>

text \<open>
  What the interpreter supplies about binary64: the value that a rational rounds to, the text
  that \<open>float\<close> accepts, and \<open>float\<close> of another object.
\<close>

record float_env =
  round_float :: "rat \<Rightarrow> pfloat"
  parse_float :: "pystr \<Rightarrow> pfloat option"
  object_float :: "pystr \<Rightarrow> pystr \<Rightarrow> pfloat res"

fun finite_value :: "pfloat \<Rightarrow> rat" where
  "finite_value (FFin q) = q"
| "finite_value _ = 0"

text \<open>\<open>a < b\<close> on floats; with a NaN every comparison is false.\<close>

fun float_less :: "pfloat \<Rightarrow> pfloat \<Rightarrow> bool" where
  "float_less FNan _ = False"
| "float_less _ FNan = False"
| "float_less (FInf n) b = (n \<and> b \<noteq> FInf True)"
| "float_less a (FInf n) = (\<not> n)"
| "float_less a b = (finite_value a < finite_value b)"

text \<open>\<open>a >= b\<close>.\<close>

definition float_geq :: "pfloat \<Rightarrow> pfloat \<Rightarrow> bool" where
  "float_geq a b \<longleftrightarrow> a \<noteq> FNan \<and> b \<noteq> FNan \<and> \<not> float_less a b"

text \<open>\<open>float(v)\<close>; an integer out of range is an \<open>OverflowError\<close>.\<close>

definition int_float :: "float_env \<Rightarrow> int \<Rightarrow> pfloat res" where
  "int_float fe i = (case round_float fe (of_int i) of
       FInf _ \<Rightarrow> Inl (Exn (OtherException (str ''OverflowError'')) (str ''int too large to convert to float''))
     | f \<Rightarrow> Inr f)"

fun float_of :: "float_env \<Rightarrow> pv \<Rightarrow> pfloat res" where
  "float_of fe (PBool b) = Inr (FFin (if b then 1 else 0))"
| "float_of fe (PInt i) = int_float fe i"
| "float_of fe (PFloat f) = Inr f"
| "float_of fe (PStr s) = (case parse_float fe s of
     None \<Rightarrow> err ValueError ''could not convert string to float'' | Some f \<Rightarrow> Inr f)"
| "float_of fe (PObj t s) = object_float fe t s"
| "float_of fe v = err TypeError ''float() argument must be a string or a real number''"

section \<open>Verified claims\<close>

record claims_resolver =
  allowed_issuers :: "pystr list"
  expected_audience :: pystr
  clock_skew :: int

text \<open>\<open>s.rstrip("/")\<close>.\<close>

definition rstrip_slash :: "pystr \<Rightarrow> pystr" where
  "rstrip_slash s = rev (dropWhile (\<lambda>c. c = 47) (rev s))"

definition make_claims_resolver :: "pystr list \<Rightarrow> pystr \<Rightarrow> int \<Rightarrow> claims_resolver res" where
  "make_claims_resolver issuers audience skew =
     (let r = \<lparr>allowed_issuers = map rstrip_slash (filter (\<lambda>v. strip v \<noteq> []) issuers),
          expected_audience = strip audience, clock_skew = skew\<rparr> in
      if allowed_issuers r = [] \<or> expected_audience r = [] \<or> skew < 0
      then err ValueError ''allowed issuers, audience, and non-negative clock skew are required''
      else Inr r)"

definition audience_matches :: "pyenv \<Rightarrow> claims_resolver \<Rightarrow> pv \<Rightarrow> bool" where
  "audience_matches env r v = (case v of
       PStr s \<Rightarrow> s = expected_audience r
     | PList vs \<Rightarrow> expected_audience r \<in> set (map (py_str env) vs)
     | PTuple vs \<Rightarrow> expected_audience r \<in> set (map (py_str env) vs)
     | _ \<Rightarrow> False)"

definition numeric_claim :: "float_env \<Rightarrow> pdict \<Rightarrow> string \<Rightarrow> bool \<Rightarrow> pfloat option res" where
  "numeric_claim fe d name required =
     (let v = dget_none d (str name) in
      if v = PNone then
        (if required then err PrincipalError (''token '' @ name @ '' claim is required'') else Inr None)
      else case float_of fe v of
          Inr f \<Rightarrow> Inr (Some f)
        | Inl e \<Rightarrow> (if catches [TypeError, ValueError] e
            then err PrincipalError (''token '' @ name @ '' claim must be numeric'') else Inl e))"

definition safe_claim_names :: "pystr list" where
  "safe_claim_names = map str [''azp'', ''client_id'', ''tenant_id'', ''tid'', ''scope'', ''roles'']"

definition safe_claims :: "pyenv \<Rightarrow> pdict \<Rightarrow> (pv \<times> pystr) list" where
  "safe_claims env d = map (\<lambda>(k, v). (k, py_str env v))
     (filter (\<lambda>(k, v). k \<in> PStr ` set safe_claim_names) d)"

text \<open>\<open>clock\<close> is the timestamp of the resolver's clock.\<close>

definition resolve_claims ::
    "pyenv \<Rightarrow> float_env \<Rightarrow> claims_resolver \<Rightarrow> rat \<Rightarrow> token_claims \<Rightarrow> principal res" where
  "resolve_claims env fe r clock c =
     (let d = token_values c;
          iss = rstrip_slash (py_str env (dget_default d (str ''iss'') (PStr [])));
          sub = strip (py_str env (dget_default d (str ''sub'') (PStr []))) in
      if iss \<notin> set (allowed_issuers r) then err PrincipalError ''token issuer is not allowed''
      else if sub = [] then err PrincipalError ''token subject is required''
      else if \<not> audience_matches env r (dget_none d (str ''aud''))
        then err PrincipalError ''token audience does not match''
      else rbind (int_float fe (clock_skew r)) (\<lambda>skew.
        let earliest = round_float fe (clock - finite_value skew);
            latest = round_float fe (clock + finite_value skew) in
        rbind (numeric_claim fe d ''exp'' True) (\<lambda>exp.
        rbind (numeric_claim fe d ''nbf'' False) (\<lambda>nbf.
        rbind (numeric_claim fe d ''iat'' False) (\<lambda>iat.
          if (case exp of None \<Rightarrow> False | Some x \<Rightarrow> float_geq earliest x)
          then err PrincipalError ''token is expired''
          else if (case nbf of None \<Rightarrow> False | Some x \<Rightarrow> float_less latest x)
          then err PrincipalError ''token is not yet valid''
          else if (case iat of None \<Rightarrow> False | Some x \<Rightarrow> float_less latest x)
          then err PrincipalError ''token issued-at is in the future''
          else make_principal sub iss (verification_method c) (safe_claims env d))))))"

definition claims_resolve ::
    "pyenv \<Rightarrow> float_env \<Rightarrow> claims_resolver \<Rightarrow> rat \<Rightarrow> credential \<Rightarrow> principal res" where
  "claims_resolve env fe r clock c = (case c of ClaimsCredential t \<Rightarrow> resolve_claims env fe r clock t
     | _ \<Rightarrow> err PrincipalError ''verified claims resolver requires VerifiedTokenClaims'')"

text \<open>\<open>ExternalTokenVerifierResolver\<close>; the verifier is a callback.\<close>

definition external_resolve :: "(credential \<Rightarrow> credential res) \<Rightarrow> pyenv \<Rightarrow> float_env \<Rightarrow> claims_resolver
    \<Rightarrow> rat \<Rightarrow> credential \<Rightarrow> principal res" where
  "external_resolve verifier env fe r clock c = rbind (verifier c) (\<lambda>v. case v of
       ClaimsCredential t \<Rightarrow> claims_resolve env fe r clock v
     | _ \<Rightarrow> err PrincipalError ''external verifier did not return VerifiedTokenClaims'')"

section \<open>Compensation\<close>

datatype compensation_status = NOT_APPLICABLE | COMPENSATION_PROPOSED | REQUIRES_HUMAN_GATE

record compensation_plan =
  cp_status :: compensation_status
  cp_request :: "execution_request option"
  cp_reason :: "pystr option"
  cp_evidence :: pdict

definition propose_compensation :: "execution_request \<Rightarrow> execution_result \<Rightarrow> compensation_plan" where
  "propose_compensation q r = \<lparr>cp_status = REQUIRES_HUMAN_GATE, cp_request = None,
     cp_reason = Some (str ''compensating action requires explicit design and approval''),
     cp_evidence = []\<rparr>"

section \<open>What is accepted\<close>

lemma numeric_claim_ok:
  "numeric_claim fe d name req = Inr x \<longleftrightarrow>
     (case dget_none d (str name) of PNone \<Rightarrow> \<not> req \<and> x = None
      | v \<Rightarrow> \<exists>f. float_of fe v = Inr f \<and> x = Some f)"
  by (auto simp: numeric_claim_def Let_def split: pv.splits sum.splits)

text \<open>The bounds of the clock: what may already have expired, and what may lie ahead.\<close>

definition clock_bounds :: "float_env \<Rightarrow> claims_resolver \<Rightarrow> rat \<Rightarrow> pfloat \<Rightarrow> pfloat \<Rightarrow> bool" where
  "clock_bounds fe r clock early late \<longleftrightarrow> (\<exists>skew. int_float fe (clock_skew r) = Inr skew
     \<and> early = round_float fe (clock - finite_value skew) \<and> late = round_float fe (clock + finite_value skew))"

definition claims_accepted :: "pyenv \<Rightarrow> float_env \<Rightarrow> claims_resolver \<Rightarrow> rat \<Rightarrow> token_claims \<Rightarrow> principal \<Rightarrow> bool" where
  "claims_accepted env fe r clock t p \<longleftrightarrow>
     issuer p \<in> set (allowed_issuers r) \<and> \<not> blank (issuer p) \<and> \<not> blank (subject p)
     \<and> authentication_method p = verification_method t \<and> \<not> blank (verification_method t)
     \<and> subject p = strip (py_str env (dget_default (token_values t) (str ''sub'') (PStr [])))
     \<and> audience_matches env r (dget_none (token_values t) (str ''aud''))
     \<and> (\<exists>early late exp. clock_bounds fe r clock early late
          \<and> numeric_claim fe (token_values t) ''exp'' True = Inr (Some exp) \<and> \<not> float_geq early exp
          \<and> (\<forall>x \<in> {''nbf'', ''iat''}. \<exists>b. numeric_claim fe (token_values t) x False = Inr b
               \<and> (\<forall>f. b = Some f \<longrightarrow> \<not> float_less late f)))"

lemma resolve_claims_accepted:
  assumes "resolve_claims env fe r clock t = Inr p"
  shows "claims_accepted env fe r clock t p"
proof -
  let ?d = "token_values t"
  from assms have iss: "rstrip_slash (py_str env (dget_default ?d (str ''iss'') (PStr []))) \<in> set (allowed_issuers r)"
    and aud: "audience_matches env r (dget_none ?d (str ''aud''))"
    by (auto simp: resolve_claims_def Let_def split: if_splits)
  with assms obtain skew exp nbf iat where s: "int_float fe (clock_skew r) = Inr skew"
    and n: "numeric_claim fe ?d ''exp'' True = Inr exp" "numeric_claim fe ?d ''nbf'' False = Inr nbf"
      "numeric_claim fe ?d ''iat'' False = Inr iat"
    and b: "\<not> (case exp of None \<Rightarrow> False | Some x \<Rightarrow> float_geq (round_float fe (clock - finite_value skew)) x)"
      "\<not> (case nbf of None \<Rightarrow> False | Some x \<Rightarrow> float_less (round_float fe (clock + finite_value skew)) x)"
      "\<not> (case iat of None \<Rightarrow> False | Some x \<Rightarrow> float_less (round_float fe (clock + finite_value skew)) x)"
    and p: "make_principal (strip (py_str env (dget_default ?d (str ''sub'') (PStr []))))
      (rstrip_slash (py_str env (dget_default ?d (str ''iss'') (PStr [])))) (verification_method t)
      (safe_claims env ?d) = Inr p"
    by (auto simp: resolve_claims_def Let_def rbind_eq_Inr split: if_splits)
  from n(1) obtain x where x: "exp = Some x" by (auto simp: numeric_claim_ok split: pv.splits)
  have "clock_bounds fe r clock (round_float fe (clock - finite_value skew)) (round_float fe (clock + finite_value skew))"
    using s by (auto simp: clock_bounds_def)
  moreover have "\<forall>y \<in> {''nbf'', ''iat''}. \<exists>b. numeric_claim fe ?d y False = Inr b
      \<and> (\<forall>f. b = Some f \<longrightarrow> \<not> float_less (round_float fe (clock + finite_value skew)) f)"
    using n(2,3) b(2,3) by auto
  ultimately show ?thesis
    using iss aud p n(1) b(1) x by (fastforce simp: claims_accepted_def make_principal_ok)
qed

text \<open>The verified-claims resolver with a static binding is a principal binding.\<close>

interpretation verified: principal_binding "claims_resolve env fe r clock" "actor_for bs"
  for env fe r clock bs
proof
  fix c p assume "claims_resolve env fe r clock c = Inr p"
  then obtain t where "resolve_claims env fe r clock t = Inr p"
    by (auto simp: claims_resolve_def split: credential.splits)
  from resolve_claims_accepted [OF this]
  show "\<not> blank (subject p) \<and> \<not> blank (issuer p) \<and> \<not> blank (authentication_method p)"
    unfolding claims_accepted_def by metis
qed (auto simp: actor_for_ok)

interpretation external: principal_binding "external_resolve verifier env fe r clock" "actor_for bs"
  for verifier env fe r clock bs
proof
  fix c p assume "external_resolve verifier env fe r clock c = Inr p"
  then obtain v where v: "verifier c = Inr v" "(case v of ClaimsCredential t \<Rightarrow> claims_resolve env fe r clock v
      | _ \<Rightarrow> err PrincipalError ''external verifier did not return VerifiedTokenClaims'') = Inr p"
    by (auto simp: external_resolve_def rbind_eq_Inr)
  from v(2) have "claims_resolve env fe r clock v = Inr p" by (cases v) auto
  then show "\<not> blank (subject p) \<and> \<not> blank (issuer p) \<and> \<not> blank (authentication_method p)"
    by (rule verified.resolve_named)
qed (auto simp: actor_for_ok)

section \<open>A transition by a principal\<close>

definition principal_event :: "config \<Rightarrow> pystr \<Rightarrow> pathway_state \<Rightarrow> pystr \<Rightarrow> principal \<Rightarrow> world \<Rightarrow> world \<Rightarrow> bool" where
  "principal_event cfg p t actor who w w' \<longleftrightarrow> same_paths w w' \<and> same_log w w'
     \<and> (\<exists>e. appends e w w' \<and> built cfg p ''principal_authorized_transition'' actor
          [(''issuer'', PStr (issuer who)), (''subject'', PStr (subject who)),
           (''authentication_method'', PStr (authentication_method who)),
           (''target'', PStr (state_value t))] e)"

lemma wp_principal:
  "wp (transition_as_principal cfg resolver binding p t cred reason)
     (\<lambda>s w'. s = t \<and> (\<exists>who actor w1. resolver cred = Inr who \<and> binding who = Inr actor
        \<and> transition_done cfg p t actor reason w w1 \<and> principal_event cfg p t actor who w1 w'))
     (\<lambda>_ w'. same_data w w' \<or> (\<exists>actor w1. transition_done cfg p t actor reason w w1 \<and> same_data w1 w')) w"
  (is "wp _ ?Q ?E w")
proof (cases "resolver cred")
  case r: (Inr who)
  show ?thesis
  proof (cases "binding who")
    case b: (Inr actor)
    have "wp (transition cfg p t actor reason) (\<lambda>st. wp (seq (record_event cfg p
        ''principal_authorized_transition'' actor [(''issuer'', PStr (issuer who)),
          (''subject'', PStr (subject who)), (''authentication_method'', PStr (authentication_method who)),
          (''target'', PStr (state_value t))]) (ret st)) ?Q ?E) ?E w"
    proof (rule wp_transition_done)
      fix w1 assume d: "transition_done cfg p t actor reason w w1"
      show "wp (seq (record_event cfg p ''principal_authorized_transition'' actor
          [(''issuer'', PStr (issuer who)), (''subject'', PStr (subject who)),
           (''authentication_method'', PStr (authentication_method who)),
           (''target'', PStr (state_value t))]) (ret t)) ?Q ?E w1"
        unfolding wp(7) wp(1)
      proof (rule wp_record_event)
        fix w' e
        assume "built cfg p ''principal_authorized_transition'' actor
            [(''issuer'', PStr (issuer who)), (''subject'', PStr (subject who)),
             (''authentication_method'', PStr (authentication_method who)),
             (''target'', PStr (state_value t))] e" "appends e w1 w'" "same_paths w1 w'" "same_log w1 w'"
        then have "principal_event cfg p t actor who w1 w'" by (auto simp: principal_event_def)
        with r b d show "?Q t w'" by blast
      qed (use d in blast)
    qed simp
    with r b show ?thesis by (simp add: transition_as_principal_def wp)
  qed (use r in \<open>simp add: transition_as_principal_def wp\<close>)
qed (simp add: transition_as_principal_def wp)

text \<open>
  C21. A transition on verified token claims: it succeeds only for claims of an allowed issuer
  and the expected audience, in their time (an expiry that is not a number counts as in the future), whose
  issuer and subject are bound to the actor that makes the transition; the principal's event
  follows the transition's. On an error either nothing has changed or only that event is missing.
\<close>

theorem principal_transition_contract:
  "case transition_as_principal cfg (claims_resolve env fe r clock) (actor_for bs) p t
      (ClaimsCredential c) reason w of
     (Inr s, w') \<Rightarrow> s = t \<and> (\<exists>who b w1. claims_accepted env fe r clock c who
        \<and> bs (issuer who, subject who) = Some b \<and> \<not> blank b
        \<and> transition_done cfg p t (strip b) reason w w1 \<and> principal_event cfg p t (strip b) who w1 w')
   | (Inl _, w') \<Rightarrow> same_data w w'
        \<or> (\<exists>actor w1. transition_done cfg p t actor reason w w1 \<and> same_data w1 w')"
proof -
  let ?m = "transition_as_principal cfg (claims_resolve env fe r clock) (actor_for bs) p t
    (ClaimsCredential c) reason"
  have acc: "claims_accepted env fe r clock c who" if "claims_resolve env fe r clock (ClaimsCredential c) = Inr who" for who
    using that by (intro resolve_claims_accepted) (simp add: claims_resolve_def)
  have "wp ?m (\<lambda>s w'. s = t \<and> (\<exists>who b w1. claims_accepted env fe r clock c who
        \<and> bs (issuer who, subject who) = Some b \<and> \<not> blank b
        \<and> transition_done cfg p t (strip b) reason w w1 \<and> principal_event cfg p t (strip b) who w1 w'))
      (\<lambda>_ w'. same_data w w' \<or> (\<exists>actor w1. transition_done cfg p t actor reason w w1 \<and> same_data w1 w')) w"
    by (rule wp_mono [OF wp_principal]) (auto simp: actor_for_ok, blast intro: acc)
  then show ?thesis by (simp add: wp_def split: prod.splits sum.splits)
qed

end
