(* ===== verification/Rpr_Tenant.thy ===== *)
theory Rpr_Tenant
  imports Rpr_Demo
begin

text \<open>
  \<open>tenant.py\<close>: the registry of pathway owners and the runtime facade that checks it. An
  ownership table is a locale; its client lemmas (an owner is never replaced, whatever is
  claimed afterwards) are proved once and interpreted for the SQLite registry. The facade
  lemmas say what a call of another tenant can do: nothing.
\<close>

section \<open>Ownership tables\<close>

locale ownership =
  fixes claims :: "'t \<Rightarrow> 'p \<Rightarrow> ('s, unit) py"
    and owner :: "'s \<Rightarrow> 'p \<Rightarrow> 't option"
  assumes claim_owner: "claims c q s = (Inr u, t) \<Longrightarrow> owner t p = (if p = q then Some c else owner s p)"
    and claim_first: "claims c q s = (Inr u, t) \<Longrightarrow> owner s q = None \<or> owner s q = Some c"
    and claim_error: "claims c q s = (Inl e, t) \<Longrightarrow> owner t = owner s"
begin

text \<open>A later claim never replaces an owner.\<close>

lemma owner_kept:
  assumes "owner s p = Some c" "claims d q s = (r, t)"
  shows "owner t p = Some c"
  using assms claim_owner [of d q s _ t p] claim_first [of d q s _ t] claim_error [of d q s _ t]
  by (cases r; cases "p = q") auto

text \<open>Any number of claims, successful or not.\<close>

fun claim_all :: "('t \<times> 'p) list \<Rightarrow> 's \<Rightarrow> 's" where
  "claim_all [] s = s"
| "claim_all ((c, q) # cs) s = claim_all cs (snd (claims c q s))"

lemma owner_kept_all: "owner s p = Some c \<Longrightarrow> owner (claim_all cs s) p = Some c"
  by (induction cs s rule: claim_all.induct) (auto intro: owner_kept prod.collapse [symmetric])

text \<open>The first claimant keeps a pathway that it has claimed.\<close>

lemma first_claim_wins:
  assumes "claims c q s = (Inr u, t)"
  shows "owner (claim_all cs t) q = Some c"
  using claim_owner [OF assms, of q] by (simp add: owner_kept_all)

end

section \<open>The registry\<close>

record tenant_row =
  tr_pathway :: pystr
  tr_tenant :: pystr

record tenant_registry =
  tenant_rows :: "tenant_row list"
  tenant_faults :: "fault list"

definition make_tenant_context :: "pystr \<Rightarrow> pystr res" where
  "make_tenant_context t = (if strip t = [] then err TenantBoundaryError ''tenant_id is required'' else Inr t)"

definition tenant_tx :: "(tenant_registry, 'a) py \<Rightarrow> (tenant_registry, 'a) py" where
  "tenant_tx m = db_step tenant_faults (\<lambda>f s. s\<lparr>tenant_faults := f\<rparr>) m"

definition owner_of :: "tenant_registry \<Rightarrow> pystr \<Rightarrow> pystr option" where
  "owner_of s p = map_option tr_tenant (find (\<lambda>r. tr_pathway r = p) (tenant_rows s))"

definition claim_tx :: "pystr \<Rightarrow> pystr \<Rightarrow> (tenant_registry, unit) py" where
  "claim_tx tenant p = (\<lambda>s. case bind_text [p] of
       Inl e \<Rightarrow> (Inl e, s)
     | Inr _ \<Rightarrow> (case owner_of s p of
         Some t \<Rightarrow>
           (if t \<noteq> tenant then (err TenantBoundaryError ''pathway is already owned by another tenant'', s)
            else (Inr (), s))
       | None \<Rightarrow> (case bind_text [p, tenant] of
           Inl e \<Rightarrow> (Inl e, s)
         | Inr _ \<Rightarrow> (Inr (), s\<lparr>tenant_rows := tenant_rows s @ [\<lparr>tr_pathway = p, tr_tenant = tenant\<rparr>]\<rparr>))))"

definition claim_pathway :: "pystr \<Rightarrow> pystr \<Rightarrow> (tenant_registry, unit) py" where
  "claim_pathway tenant p = tenant_tx (claim_tx tenant p)"

definition require_tenant :: "pystr \<Rightarrow> pystr \<Rightarrow> (tenant_registry, unit) py" where
  "require_tenant tenant p = tenant_tx (query (\<lambda>s. rbind (bind_text [p]) (\<lambda>_. case owner_of s p of
       None \<Rightarrow> err TenantBoundaryError ''pathway has no registered tenant owner''
     | Some t \<Rightarrow> check (t = tenant) TenantBoundaryError ''tenant does not own pathway'')))"

lemma owner_of_faults [simp]: "owner_of (s\<lparr>tenant_faults := f\<rparr>) = owner_of s"
  by (simp add: owner_of_def fun_eq_iff)

lemma wp_tenant_tx:
  assumes "\<And>f. wp m Q E (s\<lparr>tenant_faults := f\<rparr>)"
    and "\<And>e f. E e (s\<lparr>tenant_faults := f\<rparr>)"
  shows "wp (tenant_tx m) Q E s"
  unfolding tenant_tx_def
  by (rule wp_db_step) (use assms(1) [of "tenant_faults s"] assms in simp_all)

lemma wp_claim:
  "wp (claim_pathway c q)
     (\<lambda>_ t. (owner_of s q = None \<or> owner_of s q = Some c) \<and> owner_of t = (owner_of s)(q := Some c))
     (\<lambda>_ t. owner_of t = owner_of s) s"
  unfolding claim_pathway_def
  by (rule wp_tenant_tx)
    (auto simp: wp_def claim_tx_def owner_of_def find_snoc fun_eq_iff split: sum.splits option.splits)

lemma wp_require:
  "wp (require_tenant c p)
     (\<lambda>_ t. owner_of s p = Some c \<and> owner_of t = owner_of s)
     (\<lambda>_ t. owner_of t = owner_of s) s"
  unfolding require_tenant_def
  by (rule wp_tenant_tx) (auto simp: wp_def rbind_def split: sum.splits option.splits)

interpretation tenants: ownership claim_pathway owner_of
proof
  fix c q p s u t
  assume "claim_pathway c q s = (Inr u, t)"
  from wp_returnD [OF wp_claim this]
  show "owner_of t p = (if p = q then Some c else owner_of s p)"
    "owner_of s q = None \<or> owner_of s q = Some c" by auto
next
  fix c q s e t
  assume "claim_pathway c q s = (Inl e, t)"
  from wp_raiseD [OF wp_claim this] show "owner_of t = owner_of s" .
qed

section \<open>The facade\<close>

record tenant_world =
  tworld :: world
  tregistry :: tenant_registry

definition in_runtime :: "(world, 'a) py \<Rightarrow> (tenant_world, 'a) py" where
  "in_runtime m = zoom tworld (\<lambda>w s. s\<lparr>tworld := w\<rparr>) m"

definition in_registry :: "(tenant_registry, 'a) py \<Rightarrow> (tenant_world, 'a) py" where
  "in_registry m = zoom tregistry (\<lambda>r s. s\<lparr>tregistry := r\<rparr>) m"

definition tenant_register ::
    "config \<Rightarrow> pystr \<Rightarrow> pathway_definition \<Rightarrow> pystr \<Rightarrow> (tenant_world, registration_result) py" where
  "tenant_register cfg tenant d key =
     (let declared = strip (py_str (cenv cfg) (dget_default (metadata d) (str ''tenant_id'') (PStr []))) in
      if declared \<noteq> [] \<and> declared \<noteq> tenant
      then raise TenantBoundaryError ''definition tenant metadata does not match tenant context''
      else seq (in_registry (claim_pathway tenant (pathway_id d))) (in_runtime (register cfg d key)))"

definition tenant_transition :: "config \<Rightarrow> pystr \<Rightarrow> pystr \<Rightarrow> pathway_state \<Rightarrow> pystr \<Rightarrow> pystr
    \<Rightarrow> (tenant_world, pathway_state) py" where
  "tenant_transition cfg tenant p target actor reason =
     seq (in_registry (require_tenant tenant p)) (in_runtime (transition cfg p target actor reason))"

definition tenant_execute :: "config \<Rightarrow> pystr \<Rightarrow> pystr \<Rightarrow> execution_request \<Rightarrow> pystr \<Rightarrow> executor
    \<Rightarrow> (tenant_world, execution_result) py" where
  "tenant_execute cfg tenant p q actor ex =
     seq (in_registry (require_tenant tenant p)) (in_runtime (execute cfg p q actor ex))"

definition tenant_evidence :: "pystr \<Rightarrow> pystr \<Rightarrow> (tenant_world, pdict list) py" where
  "tenant_evidence tenant p =
     seq (in_registry (require_tenant tenant p)) (in_runtime (in_store (events p)))"

text \<open>A call of the facade and the pathway that it names; its value is dropped.\<close>

datatype facade_call =
    TenantRegister pathway_definition pystr
  | TenantTransition pystr pathway_state pystr pystr
  | TenantExecute pystr execution_request pystr executor
  | TenantEvidence pystr

fun named_pathway :: "facade_call \<Rightarrow> pystr" where
  "named_pathway (TenantRegister d key) = pathway_id d"
| "named_pathway (TenantTransition p target actor reason) = p"
| "named_pathway (TenantExecute p q actor ex) = p"
| "named_pathway (TenantEvidence p) = p"

fun tenant_call :: "config \<Rightarrow> pystr \<Rightarrow> facade_call \<Rightarrow> (tenant_world, unit) py" where
  "tenant_call cfg t (TenantRegister d key) = seq (tenant_register cfg t d key) (ret ())"
| "tenant_call cfg t (TenantTransition p target actor reason) =
     seq (tenant_transition cfg t p target actor reason) (ret ())"
| "tenant_call cfg t (TenantExecute p q actor ex) = seq (tenant_execute cfg t p q actor ex) (ret ())"
| "tenant_call cfg t (TenantEvidence p) = seq (tenant_evidence t p) (ret ())"

fun tenant_calls :: "config \<Rightarrow> (pystr \<times> facade_call) list \<Rightarrow> tenant_world \<Rightarrow> tenant_world" where
  "tenant_calls cfg [] s = s"
| "tenant_calls cfg ((t, c) # cs) s = tenant_calls cfg cs (snd (tenant_call cfg t c s))"

lemma wp_in_registry:
  "wp m (\<lambda>a r. Q a (s\<lparr>tregistry := r\<rparr>)) (\<lambda>e r. E e (s\<lparr>tregistry := r\<rparr>)) (tregistry s) \<Longrightarrow>
     wp (in_registry m) Q E s"
  by (simp add: in_registry_def wp)

text \<open>What the runtime does under the facade cannot reach the registry.\<close>

lemma wp_in_runtime:
  assumes "\<And>a w. Q a (s\<lparr>tworld := w\<rparr>)" "\<And>e w. E e (s\<lparr>tworld := w\<rparr>)"
  shows "wp (in_runtime m) Q E s"
  using assms by (auto simp: in_runtime_def wp intro: wpI)

text \<open>
  A call either fails before the runtime is reached, or its caller owns the pathway; owners
  stay.
\<close>

definition guarded :: "pystr \<Rightarrow> pystr \<Rightarrow> (tenant_world, 'a) py \<Rightarrow> bool" where
  "guarded t p m \<longleftrightarrow> (\<forall>s. wp m
     (\<lambda>_ u. owner_of (tregistry s) \<subseteq>\<^sub>m owner_of (tregistry u) \<and> owner_of (tregistry u) p = Some t)
     (\<lambda>_ u. owner_of (tregistry s) \<subseteq>\<^sub>m owner_of (tregistry u)
        \<and> (owner_of (tregistry u) p = Some t \<or> tworld u = tworld s)) s)"

lemma guarded_seq:
  assumes "\<And>r. wp g (\<lambda>_ r'. owner_of r \<subseteq>\<^sub>m owner_of r' \<and> owner_of r' p = Some t)
      (\<lambda>_ r'. owner_of r \<subseteq>\<^sub>m owner_of r') r"
  shows "guarded t p (seq (in_registry g) (in_runtime m))"
  unfolding guarded_def wp
  by (intro allI wp_in_registry wp_mono [OF assms] wp_in_runtime) auto

lemma guarded_drop: "guarded t p m \<Longrightarrow> guarded t p (seq m (ret ()))"
  by (simp add: guarded_def wp)

lemma guarded_raise: "guarded t p (raise k msg)"
  by (simp add: guarded_def wp)

lemma guarded_call: "guarded t (named_pathway c) (tenant_call cfg t c)"
proof -
  have req: "guarded t p (seq (in_registry (require_tenant t p)) (in_runtime m))" for p and m :: "(world, 'b) py"
    by (intro guarded_seq wp_mono [OF wp_require]) auto
  have claim: "guarded t p (seq (in_registry (claim_pathway t p)) (in_runtime m))" for p and m :: "(world, 'b) py"
    by (intro guarded_seq wp_mono [OF wp_claim]) (auto simp: map_le_def)
  show ?thesis
    by (cases c) (simp_all add: tenant_register_def tenant_transition_def tenant_execute_def
        tenant_evidence_def Let_def guarded_drop guarded_raise req claim)
qed

lemma owners_stay: "owner_of (tregistry s) \<subseteq>\<^sub>m owner_of (tregistry (snd (tenant_call cfg t c s)))"
  using guarded_call [of t c cfg]
  by (cases "tenant_call cfg t c s"; cases "fst (tenant_call cfg t c s)")
    (auto simp: guarded_def wp_def split: sum.splits dest!: spec [of _ s])

lemma owners_stay_all: "owner_of (tregistry s) \<subseteq>\<^sub>m owner_of (tregistry (tenant_calls cfg cs s))"
  by (induction cfg cs s rule: tenant_calls.induct) (auto intro: owners_stay map_le_trans)

text \<open>A call by a tenant other than the owner fails and leaves the runtime as it was.\<close>

lemma foreign_call:
  assumes "owner_of (tregistry s) (named_pathway c) = Some d" "t \<noteq> d"
  shows "\<exists>e. fst (tenant_call cfg t c s) = Inl e \<and> tworld (snd (tenant_call cfg t c s)) = tworld s"
proof -
  have "owner_of (tregistry (snd (tenant_call cfg t c s))) (named_pathway c) = Some d"
    using owners_stay [of s cfg t c] assms(1) by (metis domI map_le_def)
  then show ?thesis using guarded_call [of t c cfg] assms(2)
    by (cases "tenant_call cfg t c s"; cases "fst (tenant_call cfg t c s)")
      (auto simp: guarded_def wp_def split: sum.splits dest!: spec [of _ s])
qed

text \<open>
  C19. A pathway that a tenant has claimed stays that tenant's after any calls of the facade
  by any tenants, and every later call by another tenant that names the pathway fails and
  leaves pathways, evidence, attempts and dispatches as they were.
\<close>

theorem tenant_isolation:
  assumes "owner_of (tregistry s) p = Some d"
  shows "let u = tenant_calls cfg cs s in
    owner_of (tregistry u) p = Some d \<and>
    (\<forall>t c. t \<noteq> d \<longrightarrow> named_pathway c = p \<longrightarrow>
       (\<exists>e. fst (tenant_call cfg t c u) = Inl e) \<and> tworld (snd (tenant_call cfg t c u)) = tworld u)"
proof -
  have "owner_of (tregistry (tenant_calls cfg cs s)) p = Some d"
    using owners_stay_all [of s cfg cs] assms by (metis domI map_le_def)
  then show ?thesis unfolding Let_def using foreign_call by blast
qed

text \<open>A claimed pathway, and a claim and an execution by another tenant.\<close>

definition demo_tenants :: tenant_world where
  "demo_tenants = \<lparr>tworld = empty_world [] [],
     tregistry = \<lparr>tenant_rows = [\<lparr>tr_pathway = str ''p'', tr_tenant = str ''a''\<rparr>], tenant_faults = []\<rparr>\<rparr>"

theorem tenant_isolation_witness:
  "owner_of (tregistry (tenant_calls demo_config
     [(str ''b'', TenantRegister demo_pathway (str ''k'')),
      (str ''b'', TenantExecute (str ''p'') demo_request (str ''b'') demo_executor)] demo_tenants))
     (str ''p'') = Some (str ''a'')"
proof -
  have "owner_of (tregistry demo_tenants) (str ''p'') = Some (str ''a'')"
    by (simp add: demo_tenants_def owner_of_def)
  from tenant_isolation [OF this, unfolded Let_def, THEN conjunct1] show ?thesis .
qed

end
