(* ===== verification/Rpr_Outbox.thy ===== *)
theory Rpr_Outbox
  imports Rpr_Demo
begin

text \<open>
  \<open>message_executor.py\<close>: the durable outbox and the executor that sends through it. The
  outbox interprets the replay registry. The main lemma is that a key is handed to the
  transport at most once, whatever fails between two statements; the result lemma says what
  an answer tells of the transport.
\<close>

section \<open>The outbox\<close>

record outbox_row =
  ob_key :: pystr
  ob_fingerprint :: pystr
  ob_status :: pystr
  ob_receipt :: "pdict option"

record outbox =
  outbox_rows :: "outbox_row list"
  outbox_faults :: "fault list"

definition outbox_tx :: "(outbox, 'a) py \<Rightarrow> (outbox, 'a) py" where
  "outbox_tx m = db_step outbox_faults (\<lambda>f s. s\<lparr>outbox_faults := f\<rparr>) m"

definition outbox_fingerprint :: "pyenv \<Rightarrow> execution_request \<Rightarrow> pystr res" where
  "outbox_fingerprint env q = rbind (canonical_bytes (float_repr env) (PDict (obj
     [(''action'', PStr (action q)), (''parameters'', PDict (parameters q))])))
     (\<lambda>b. Inr (sha256 env b))"

definition find_message :: "pystr \<Rightarrow> outbox_row list \<Rightarrow> outbox_row option" where
  "find_message k rs = find (\<lambda>r. ob_key r = k) rs"

definition outbox_begin_tx :: "pystr \<Rightarrow> pystr \<Rightarrow> (outbox, bool \<times> pdict option) py" where
  "outbox_begin_tx key fp = (\<lambda>s. case bind_text [key] of
       Inl e \<Rightarrow> (Inl e, s)
     | Inr _ \<Rightarrow> (case find_message key (outbox_rows s) of
         Some r \<Rightarrow> (if ob_fingerprint r \<noteq> fp then (err ValueError ''outbox idempotency conflict'', s)
            else (Inr (True, ob_receipt r), s))
       | None \<Rightarrow> (Inr (False, None), s\<lparr>outbox_rows := outbox_rows s @
            [\<lparr>ob_key = key, ob_fingerprint = fp, ob_status = str ''prepared'', ob_receipt = None\<rparr>]\<rparr>)))"

definition outbox_begin :: "pyenv \<Rightarrow> execution_request \<Rightarrow> (outbox, bool \<times> pdict option) py" where
  "outbox_begin env q =
     bnd (lift (outbox_fingerprint env q)) (\<lambda>fp. outbox_tx (outbox_begin_tx (idempotency_key q) fp))"

text \<open>The text of the receipt is bound as a parameter, so it must be encodable.\<close>

definition outbox_finish :: "pyenv \<Rightarrow> pystr \<Rightarrow> string \<Rightarrow> pdict option \<Rightarrow> (outbox, unit) py" where
  "outbox_finish env key st receipt =
     bnd (lift (case receipt of None \<Rightarrow> Inr None
        | Some d \<Rightarrow> rbind (canonical_doc (PDict d)) (\<lambda>v.
            rbind (utf8_encode (json_text (float_repr env) v)) (\<lambda>_. case v of
              PDict doc \<Rightarrow> Inr (Some doc) | _ \<Rightarrow> err TypeError ''not an object'')))) (\<lambda>doc.
     outbox_tx (\<lambda>s. case bind_text [key] of
        Inl e \<Rightarrow> (Inl e, s)
      | Inr _ \<Rightarrow> (Inr (), s\<lparr>outbox_rows := map (\<lambda>r. if ob_key r = key
           then r\<lparr>ob_status := str st, ob_receipt := doc\<rparr> else r) (outbox_rows s)\<rparr>)))"

definition outbox_hit :: "execution_request \<Rightarrow> outbox_row list \<Rightarrow> outbox_row option" where
  "outbox_hit q rs = find_message (idempotency_key q) rs"

definition outbox_same :: "pyenv \<Rightarrow> execution_request \<Rightarrow> outbox_row \<Rightarrow> bool" where
  "outbox_same env q r \<longleftrightarrow> outbox_fingerprint env q = Inr (ob_fingerprint r)"

definition outbox_admissible :: "pyenv \<Rightarrow> execution_request \<Rightarrow> bool" where
  "outbox_admissible env q \<longleftrightarrow> text_ok (idempotency_key q) \<and> (\<exists>fp. outbox_fingerprint env q = Inr fp)"

lemma outbox_begin_quiet:
  "outbox_faults s = [] \<Longrightarrow> outbox_begin env q s =
     (case outbox_fingerprint env q of Inl e \<Rightarrow> (Inl e, s) | Inr fp \<Rightarrow> outbox_begin_tx (idempotency_key q) fp s)"
  by (cases "outbox_fingerprint env q") (simp_all add: outbox_begin_def bnd_def outbox_tx_def db_step_def)

interpretation outbox_registry: replay_registry "outbox_begin env" outbox_rows ob_receipt
    "\<lambda>s. outbox_faults s = []" "outbox_admissible env" outbox_hit "outbox_same env" for env
proof (unfold_locales, goal_cases)
  case (1 s q r)
  then show ?case
    by (auto simp: outbox_begin_quiet outbox_admissible_def outbox_hit_def outbox_same_def
        outbox_begin_tx_def bind_text_def check_def)
next
  case (2 s q r)
  then show ?case
    by (auto simp: outbox_begin_quiet outbox_admissible_def outbox_hit_def outbox_same_def
        outbox_begin_tx_def bind_text_def check_def)
next
  case (3 s q b r t)
  then show ?case
    by (auto simp: outbox_begin_quiet outbox_admissible_def outbox_hit_def outbox_same_def
        outbox_begin_tx_def bind_text_def check_def find_message_def find_snoc
        split: sum.splits option.splits if_splits)
qed

section \<open>The executor\<close>

text \<open>
  The transport is foreign code: its answer to a message may depend on what it was sent
  before. \<open>sent\<close> records the calls made of it.
\<close>

record message =
  msg_recipient :: pystr
  msg_subject :: pystr
  msg_body :: pystr
  msg_key :: pystr

record messenger =
  box :: outbox
  sent :: "message list"

type_synonym transport = "message list \<Rightarrow> message \<Rightarrow> pv res"

definition in_box :: "(outbox, 'a) py \<Rightarrow> (messenger, 'a) py" where
  "in_box m = zoom box (\<lambda>b s. s\<lparr>box := b\<rparr>) m"

definition send_message :: "transport \<Rightarrow> message \<Rightarrow> (messenger, pv) py" where
  "send_message tr m = (\<lambda>s. (tr (sent s) m, s\<lparr>sent := sent s @ [m]\<rparr>))"

definition durable_receipt :: "pyenv \<Rightarrow> pdict \<Rightarrow> bool" where
  "durable_receipt env d \<longleftrightarrow> truthy (dget_none d (str ''accepted'')) \<and> truthy (dget_none d (str ''durable''))
     \<and> strip (py_str env (dget_default d (str ''message_id'') (PStr []))) \<noteq> []"

definition from_receipt :: "pyenv \<Rightarrow> pdict \<Rightarrow> execution_result" where
  "from_receipt env d =
     (let ok = durable_receipt env d;
          why = (if ok then None else Some (str ''durable_delivery_receipt_missing'')) in
      \<lparr>status = (if ok then SUCCEEDED else STATUS_UNKNOWN),
       evidence = obj [(''delivery_receipt'', PDict d)],
       readback = Some \<lparr>verified = ok, observed = d, readback_reason = why\<rparr>, result_reason = why\<rparr>)"

definition failed_result :: "pystr \<Rightarrow> execution_result" where
  "failed_result why = \<lparr>status = FAILED, evidence = [], readback = None, result_reason = Some why\<rparr>"

definition receipt_value :: "pyenv \<Rightarrow> pdict \<Rightarrow> pdict" where
  "receipt_value env raw = obj
     [(''message_id'', PStr (strip (py_str env (dget_default raw (str ''message_id'') (PStr []))))),
      (''accepted'', PBool (truthy (dget_none raw (str ''accepted'')))),
      (''durable'', PBool (truthy (dget_none raw (str ''durable''))))]"

text \<open>What follows a new entry of the outbox.\<close>

definition dispatch_message ::
    "pyenv \<Rightarrow> transport \<Rightarrow> execution_request \<Rightarrow> (messenger, execution_result) py" where
  "dispatch_message env tr q =
     bnd (lift (rbind (ditem (parameters q) (str ''recipient'')) (\<lambda>v. Inr (strip (py_str env v))))) (\<lambda>recipient.
     let subject = py_str env (dget_default (parameters q) (str ''subject'') (PStr [])) in
     bnd (lift (rbind (ditem (parameters q) (str ''body'')) (\<lambda>v. Inr (py_str env v)))) (\<lambda>body.
     if recipient = [] \<or> body = [] then
       seq (in_box (outbox_finish env (idempotency_key q) ''failed'' None))
         (ret (failed_result (str ''recipient_and_body_required'')))
     else
       bnd (send_message tr \<lparr>msg_recipient = recipient, msg_subject = subject, msg_body = body,
              msg_key = idempotency_key q\<rparr>) (\<lambda>answer.
       bnd (lift (dict_of answer)) (\<lambda>raw.
       seq (in_box (outbox_finish env (idempotency_key q) ''finished'' (Some (receipt_value env raw))))
         (ret (from_receipt env (receipt_value env raw)))))))"

definition message_execute ::
    "pyenv \<Rightarrow> transport \<Rightarrow> execution_request \<Rightarrow> (messenger, execution_result) py" where
  "message_execute env tr q =
     (if action q \<noteq> str ''send_message'' then ret (failed_result (str ''unsupported_action''))
      else handle is_exception
        (bnd (in_box (outbox_begin env q)) (\<lambda>(replayed, receipt).
          if replayed then ret (case receipt of
              None \<Rightarrow> unknown_result (str ''outbox_prepared_without_receipt'')
            | Some d \<Rightarrow> from_receipt env d)
          else dispatch_message env tr q))
        (\<lambda>exc. ret (if catches [OSError, TimeoutError, ConnectionError] exc
          then unknown_result (str ''message_transport_ambiguous:'' @ exn_name (exn_kind exc))
          else failed_result (str ''message_executor_error:'' @ exn_name (exn_kind exc)))))"


section \<open>At most one send for a key\<close>

definition sent_once :: "messenger \<Rightarrow> bool" where
  "sent_once s \<longleftrightarrow> distinct (map msg_key (sent s))
     \<and> msg_key ` set (sent s) \<subseteq> ob_key ` set (outbox_rows (box s))"

text \<open>A change of the outbox that keeps its keys, up to a new one.\<close>

lemma wp_outbox_tx:
  assumes "\<And>f. wp m Q E (s\<lparr>outbox_faults := f\<rparr>)" and "\<And>e f. E e (s\<lparr>outbox_faults := f\<rparr>)"
  shows "wp (outbox_tx m) Q E s"
  unfolding outbox_tx_def
  by (rule wp_db_step) (use assms(1) [of "outbox_faults s"] assms in simp_all)

lemma wp_outbox_begin:
  "wp (outbox_begin env q)
     (\<lambda>(replayed, receipt) t. if replayed
        then outbox_rows t = outbox_rows s \<and> (\<exists>r. find_message (idempotency_key q) (outbox_rows s) = Some r
          \<and> outbox_same env q r \<and> receipt = ob_receipt r)
        else find_message (idempotency_key q) (outbox_rows s) = None
          \<and> (\<exists>r. outbox_rows t = outbox_rows s @ [r] \<and> ob_key r = idempotency_key q \<and> outbox_same env q r))
     (\<lambda>_ t. outbox_rows t = outbox_rows s) s" (is "wp _ ?Q ?E s")
proof (cases "outbox_fingerprint env q")
  case (Inr fp)
  have "wp (outbox_tx (outbox_begin_tx (idempotency_key q) fp)) ?Q ?E s"
    by (rule wp_outbox_tx)
      (auto simp: wp_def outbox_begin_tx_def outbox_same_def Inr split: sum.splits option.splits)
  with Inr show ?thesis by (simp add: outbox_begin_def wp)
qed (simp add: outbox_begin_def wp)

lemma wp_outbox_finish:
  "wp (outbox_finish env key st receipt)
     (\<lambda>_ t. \<exists>doc. (case receipt of None \<Rightarrow> doc = None
          | Some d \<Rightarrow> \<exists>x. canonical_doc (PDict d) = Inr (PDict x) \<and> doc = Some x)
        \<and> outbox_rows t = map (\<lambda>r. if ob_key r = key then r\<lparr>ob_status := str st, ob_receipt := doc\<rparr> else r)
            (outbox_rows s))
     (\<lambda>_ t. outbox_rows t = outbox_rows s) s" (is "wp _ ?Q ?E s")
proof -
  have "wp (outbox_tx (\<lambda>s. case bind_text [key] of
        Inl e \<Rightarrow> (Inl e, s)
      | Inr _ \<Rightarrow> (Inr (), s\<lparr>outbox_rows := map (\<lambda>r. if ob_key r = key
           then r\<lparr>ob_status := str st, ob_receipt := doc\<rparr> else r) (outbox_rows s)\<rparr>))) ?Q ?E s"
    if "case receipt of None \<Rightarrow> doc = None
          | Some d \<Rightarrow> \<exists>x. canonical_doc (PDict d) = Inr (PDict x) \<and> doc = Some x" for doc
    by (rule wp_outbox_tx) (use that in \<open>auto simp: wp_def split: sum.splits\<close>)
  then show ?thesis
    by (auto simp: outbox_finish_def wp rbind_def split: sum.splits option.splits pv.splits)
qed

lemma find_message_None: "find_message k rs = None \<longleftrightarrow> k \<notin> ob_key ` set rs"
  by (auto simp: find_message_def find_None_iff)

lemma map_ob_key: "map ob_key (map (\<lambda>r. if ob_key r = k then r\<lparr>ob_status := st, ob_receipt := d\<rparr> else r) rs)
    = map ob_key rs"
  by simp

lemma find_message_map:
  assumes "\<And>r. ob_key (f r) = ob_key r"
  shows "find_message k (map f rs) = map_option f (find_message k rs)"
  by (induction rs) (simp_all add: find_message_def assms)

text \<open>What a call does to the transport.\<close>

definition dispatched_from :: "execution_request \<Rightarrow> messenger \<Rightarrow> messenger \<Rightarrow> bool" where
  "dispatched_from q s t \<longleftrightarrow> ob_key ` set (outbox_rows (box s)) \<subseteq> ob_key ` set (outbox_rows (box t))
     \<and> (sent t = sent s \<or> (\<exists>m. sent t = sent s @ [m] \<and> msg_key m = idempotency_key q
          \<and> find_message (idempotency_key q) (outbox_rows (box s)) = None
          \<and> idempotency_key q \<in> ob_key ` set (outbox_rows (box t))))"

lemma wp_in_box:
  "wp (in_box m) Q E s \<longleftrightarrow> wp m (\<lambda>a b. Q a (s\<lparr>box := b\<rparr>)) (\<lambda>e b. E e (s\<lparr>box := b\<rparr>)) (box s)"
  by (simp add: in_box_def wp)

lemma wp_send:
  "wp (send_message tr m) Q E s \<longleftrightarrow> (case tr (sent s) m of
     Inl e \<Rightarrow> E e (s\<lparr>sent := sent s @ [m]\<rparr>) | Inr v \<Rightarrow> Q v (s\<lparr>sent := sent s @ [m]\<rparr>))"
  by (simp add: wp_def send_message_def split: sum.splits)

text \<open>The receipt as it is stored, and read back on a replay.\<close>

lemma stored_receipt:
  "canonical_doc (PDict (receipt_value env raw)) = Inr (PDict (obj
     [(''accepted'', PBool (truthy (dget_none raw (str ''accepted'')))),
      (''durable'', PBool (truthy (dget_none raw (str ''durable'')))),
      (''message_id'', PStr (strip (py_str env (dget_default raw (str ''message_id'') (PStr [])))))]))"
  by (simp add: canonical_doc_def receipt_value_def obj_def str_def)

lemma durable_stored:
  assumes "canonical_doc (PDict (receipt_value env raw)) = Inr (PDict x)"
  shows "durable_receipt env x = durable_receipt env (receipt_value env raw)"
  using assms unfolding stored_receipt
  by (auto simp: durable_receipt_def receipt_value_def dget_none_def dget_default_def strip_def)

text \<open>A success is the reading of a durable receipt in the outbox.\<close>

definition receipted :: "pyenv \<Rightarrow> execution_request \<Rightarrow> execution_result \<Rightarrow> messenger \<Rightarrow> bool" where
  "receipted env q r u \<longleftrightarrow> (status r = SUCCEEDED \<longrightarrow> action q = str ''send_message''
     \<and> (\<exists>row x. find_message (idempotency_key q) (outbox_rows (box u)) = Some row
          \<and> outbox_same env q row \<and> ob_receipt row = Some x \<and> durable_receipt env x))"

lemma dispatch_from_begin:
  assumes new: "find_message (idempotency_key q) (outbox_rows (box s)) = None"
    and rows: "outbox_rows b = outbox_rows (box s) @ [row]"
      "ob_key row = idempotency_key q" "outbox_same env q row"
    and act: "action q = str ''send_message''"
  shows "wp (dispatch_message env tr q)
     (\<lambda>r u. dispatched_from q s u \<and> receipted env q r u) (\<lambda>_ u. dispatched_from q s u) (s\<lparr>box := b\<rparr>)"
proof -
  let ?Q = "\<lambda>r u. dispatched_from q s u \<and> receipted env q r u"
  let ?E = "\<lambda>_ u. dispatched_from q s u"
  let ?m = "\<lambda>to sub bd. \<lparr>msg_recipient = to, msg_subject = sub, msg_body = bd,
    msg_key = idempotency_key q\<rparr>"
  have idle: "dispatched_from q s u"
    if "map ob_key (outbox_rows (box u)) = map ob_key (outbox_rows b)"
      "sent u = sent s \<or> (\<exists>to sub bd. sent u = sent s @ [?m to sub bd])" for u
  proof -
    have "ob_key ` set (outbox_rows (box u)) = ob_key ` set (outbox_rows b)"
      using that(1) by (metis set_map)
    with that(2) show ?thesis using new rows by (auto simp: dispatched_from_def)
  qed
  have fin: "wp (seq (in_box (outbox_finish env (idempotency_key q) st rc)) (ret r)) ?Q ?E v"
    if v: "box v = b" "sent v = sent s \<or> (\<exists>to sub bd. sent v = sent s @ [?m to sub bd])"
      and r: "status r = SUCCEEDED \<Longrightarrow> \<exists>raw. rc = Some (receipt_value env raw)
        \<and> durable_receipt env (receipt_value env raw)" for st rc r v
    unfolding wp wp_in_box v(1)
  proof (rule wp_mono [OF wp_outbox_finish])
    fix b' :: outbox and u
    assume t: "\<exists>doc. (case rc of None \<Rightarrow> doc = None
          | Some d \<Rightarrow> \<exists>x. canonical_doc (PDict d) = Inr (PDict x) \<and> doc = Some x)
        \<and> outbox_rows b' = map (\<lambda>r. if ob_key r = idempotency_key q
            then r\<lparr>ob_status := str st, ob_receipt := doc\<rparr> else r) (outbox_rows b)"
    then obtain doc where doc: "case rc of None \<Rightarrow> doc = None
          | Some d \<Rightarrow> \<exists>x. canonical_doc (PDict d) = Inr (PDict x) \<and> doc = Some x"
      and b': "outbox_rows b' = map (\<lambda>r. if ob_key r = idempotency_key q
            then r\<lparr>ob_status := str st, ob_receipt := doc\<rparr> else r) (outbox_rows b)" by blast
    have "find_message (idempotency_key q) (outbox_rows b') =
        Some (row\<lparr>ob_status := str st, ob_receipt := doc\<rparr>)"
      unfolding b' rows(1)
      by (subst find_message_map) (use new rows(2) in \<open>simp_all add: find_message_def find_snoc\<close>)
    then have "receipted env q r (v\<lparr>box := b'\<rparr>)"
      using doc r durable_stored [of env] act rows(3)
      by (fastforce simp: receipted_def outbox_same_def split: option.splits)
    moreover have "dispatched_from q s (v\<lparr>box := b'\<rparr>)"
      by (rule idle) (use v(2) in \<open>simp_all add: b'\<close>)
    ultimately show "dispatched_from q s (v\<lparr>box := b'\<rparr>) \<and> receipted env q r (v\<lparr>box := b'\<rparr>)" by simp
  next
    fix e and b' :: outbox assume "outbox_rows b' = outbox_rows b"
    with v(2) show "dispatched_from q s (v\<lparr>box := b'\<rparr>)" by (intro idle) simp_all
  qed
  have none: "status (failed_result why) \<noteq> SUCCEEDED" for why
    by (simp add: failed_result_def)
  have ok: "status (from_receipt env x) = SUCCEEDED \<Longrightarrow> durable_receipt env x" for x
    by (simp add: from_receipt_def Let_def split: if_splits)
  have idle1: "dispatched_from q s (s\<lparr>box := b\<rparr>)" by (rule idle) simp_all
  have idle2: "dispatched_from q s (s\<lparr>box := b, sent := sent s @ [?m to sub bd]\<rparr>)" for to sub bd
    by (rule idle) auto
  have send: "wp (bnd (send_message tr (?m to sub bd)) (\<lambda>answer. bnd (lift (dict_of answer)) (\<lambda>raw.
      seq (in_box (outbox_finish env (idempotency_key q) ''finished'' (Some (receipt_value env raw))))
        (ret (from_receipt env (receipt_value env raw)))))) ?Q ?E (s\<lparr>box := b\<rparr>)" for to sub bd
    unfolding wp(6) wp_send
  proof (cases "tr (sent (s\<lparr>box := b\<rparr>)) (?m to sub bd)")
    case (Inr v)
    then show "case tr (sent (s\<lparr>box := b\<rparr>)) (?m to sub bd) of
        Inl e \<Rightarrow> ?E e (s\<lparr>box := b, sent := sent (s\<lparr>box := b\<rparr>) @ [?m to sub bd]\<rparr>)
      | Inr v \<Rightarrow> wp (lift (dict_of v)) (\<lambda>raw. wp (seq (in_box (outbox_finish env (idempotency_key q)
          ''finished'' (Some (receipt_value env raw)))) (ret (from_receipt env (receipt_value env raw)))) ?Q ?E)
          ?E (s\<lparr>box := b, sent := sent (s\<lparr>box := b\<rparr>) @ [?m to sub bd]\<rparr>)"
      unfolding wp(4) by (auto simp: idle2 split: sum.splits intro!: fin dest: ok)
  qed (simp add: idle2)
  have fail: "wp (seq (in_box (outbox_finish env (idempotency_key q) ''failed'' None))
      (ret (failed_result why))) ?Q ?E (s\<lparr>box := b\<rparr>)" for why
    by (rule fin) (auto simp: none)
  show ?thesis
    unfolding dispatch_message_def wp(6) wp(4) Let_def
    using send fail by (auto simp: idle1 wp(4,6) split: sum.splits)
qed

lemma wp_message_execute:
  "wp (message_execute env tr q) (\<lambda>r u. dispatched_from q s u \<and> receipted env q r u)
     (\<lambda>_ u. dispatched_from q s u) s" (is "wp _ ?Q ?E s")
proof (cases "action q = str ''send_message''")
  case False
  then show ?thesis
    by (simp add: message_execute_def wp dispatched_from_def receipted_def failed_result_def)
next
  case act: True
  have idle: "dispatched_from q s (s\<lparr>box := b\<rparr>)" if "outbox_rows b = outbox_rows (box s)" for b
    using that by (simp add: dispatched_from_def)
  have replay: "receipted env q (case receipt of
      None \<Rightarrow> unknown_result (str ''outbox_prepared_without_receipt'') | Some d \<Rightarrow> from_receipt env d)
      (s\<lparr>box := b\<rparr>)"
    if "outbox_rows b = outbox_rows (box s)" "find_message (idempotency_key q) (outbox_rows (box s)) = Some row"
      "outbox_same env q row" "receipt = ob_receipt row" for b row receipt
    using that act by (auto simp: receipted_def from_receipt_def Let_def split: option.splits if_splits)
  have "wp (bnd (in_box (outbox_begin env q)) (\<lambda>(replayed, receipt).
      if replayed then ret (case receipt of None \<Rightarrow> unknown_result (str ''outbox_prepared_without_receipt'')
        | Some d \<Rightarrow> from_receipt env d)
      else dispatch_message env tr q)) ?Q ?E s"
    unfolding wp(6) wp_in_box
  proof (rule wp_mono [OF wp_outbox_begin], goal_cases)
    case (1 x b)
    then show ?case
      by (cases x) (auto simp: wp(1) idle replay intro: dispatch_from_begin [OF _ _ _ _ act] split: if_splits)
  next
    case (2 e b)
    then show ?case by (rule idle)
  qed
  then show ?thesis
    unfolding message_execute_def using act
    by (auto simp: wp(8) wp(1) receipted_def failed_result_def elim!: wp_mono split: if_splits)
qed

text \<open>Any number of calls; a call may stop anywhere.\<close>

fun message_runs :: "pyenv \<Rightarrow> (transport \<times> execution_request) list \<Rightarrow> messenger \<Rightarrow> messenger" where
  "message_runs env [] s = s"
| "message_runs env ((tr, q) # cs) s = message_runs env cs (snd (message_execute env tr q s))"

lemma message_effect: "dispatched_from q s (snd (message_execute env tr q s))"
  using wp_message_execute [of env tr q s]
  by (cases "message_execute env tr q s"; cases "fst (message_execute env tr q s)") (auto simp: wp_def)

lemma sent_once_step: "sent_once s \<Longrightarrow> dispatched_from q s t \<Longrightarrow> sent_once t"
proof -
  assume s: "sent_once s" and t: "dispatched_from q s t"
  then have k: "msg_key ` set (sent s) \<subseteq> ob_key ` set (outbox_rows (box t))"
    unfolding sent_once_def dispatched_from_def by (meson order_trans)
  from t consider "sent t = sent s"
    | m where "sent t = sent s @ [m]" "msg_key m = idempotency_key q"
      "idempotency_key q \<notin> ob_key ` set (outbox_rows (box s))"
      "idempotency_key q \<in> ob_key ` set (outbox_rows (box t))"
    unfolding dispatched_from_def find_message_None by blast
  then show ?thesis
  proof cases
    case 1
    with s k show ?thesis by (simp add: sent_once_def)
  next
    case 2
    then have "msg_key m \<notin> msg_key ` set (sent s)" using s unfolding sent_once_def by auto
    with 2 s k show ?thesis by (simp add: sent_once_def)
  qed
qed

lemma sent_once_runs: "sent_once s \<Longrightarrow> sent_once (message_runs env cs s)"
  by (induction env cs s rule: message_runs.induct) (auto intro: sent_once_step message_effect)

definition fresh_messenger :: "fault list \<Rightarrow> messenger" where
  "fresh_messenger fs = \<lparr>box = \<lparr>outbox_rows = [], outbox_faults = fs\<rparr>, sent = []\<rparr>"

text \<open>
  C20. From an empty outbox, whatever requests are executed with whatever transports, in any
  order and with any faults and interruptions of the database, no idempotency key is handed to
  a transport twice.
\<close>

theorem message_sent_once: "distinct (map msg_key (sent (message_runs env cs (fresh_messenger fs))))"
proof -
  have "sent_once (fresh_messenger fs)" by (simp add: sent_once_def fresh_messenger_def)
  from sent_once_runs [OF this] show ?thesis by (simp add: sent_once_def)
qed

text \<open>
  An answer of the message executor: a message goes out only for a key that the outbox
  did not hold, entries of the outbox are never removed, and success is reported only for a
  request whose durable receipt the outbox holds.
\<close>

theorem message_result_receipted:
  "case message_execute env tr q s of (r, u) \<Rightarrow> dispatched_from q s u
     \<and> (case r of Inl _ \<Rightarrow> True | Inr x \<Rightarrow> receipted env q x u)"
  using wp_message_execute [of env tr q s] by (auto simp: wp_def split: sum.splits prod.splits)

text \<open>
  A database error after the transport has taken the message is answered with \<open>FAILED\<close>, as if
  nothing had been sent.
\<close>

definition demo_message :: execution_request where
  "demo_message = \<lparr>operation_id = str ''o'', attempt_id = str ''a'', idempotency_key = str ''k'',
     action = str ''send_message'',
     parameters = obj [(''recipient'', PStr (str ''r'')), (''body'', PStr (str ''b''))]\<rparr>"

theorem message_failed_after_send:
  "\<exists>tr s r u. message_execute demo_env tr demo_message s = (Inr r, u) \<and> status r = FAILED \<and> sent u \<noteq> sent s"
proof -
  let ?raw = "obj [(''message_id'', PStr (str ''m'')), (''accepted'', PBool True), (''durable'', PBool True)]"
  let ?tr = "\<lambda>_ _. Inr (PDict ?raw) :: pv res"
  let ?s = "fresh_messenger [Fine, Failing]"
  let ?v = "PDict (obj [(''action'', PStr (str ''send_message'')),
    (''parameters'', PDict (obj [(''recipient'', PStr (str ''r'')), (''body'', PStr (str ''b''))]))])"
  have fr: "float_repr_ok (float_repr demo_env)" using demo_float_ok by (simp add: demo_env_def)
  have "plain ?v" by (simp add: obj_simps)
  from plain_canonical_bytes [OF fr this] obtain fp where fp: "outbox_fingerprint demo_env demo_message = Inr fp"
    by (auto simp: outbox_fingerprint_def demo_message_def)
  have m: "strip (str ''m'') = str ''m''" "strip (str ''r'') = str ''r''"
    by (simp_all add: strip_def str_def is_space_def)
  have "receipt_value demo_env ?raw = ?raw"
    by (simp add: receipt_value_def dget_default_def dget_none_def m)
  then have "plain (PDict (receipt_value demo_env ?raw))" by (simp add: obj_simps)
  from plain_canonical_bytes [OF fr this] obtain bs where
    bs: "canonical_bytes (float_repr demo_env) (PDict (receipt_value demo_env ?raw)) = Inr bs" by blast
  obtain x where x: "canonical_doc (PDict (receipt_value demo_env ?raw)) = Inr (PDict x)"
    unfolding stored_receipt by blast
  with bs have u: "utf8_encode (json_text (float_repr demo_env) (PDict x)) = Inr bs"
    by (simp add: canonical_bytes_def)
  have "message_execute demo_env ?tr demo_message ?s =
      (Inr (failed_result (str ''message_executor_error:'' @ str ''OperationalError'')), \<lparr>box =
        \<lparr>outbox_rows = [\<lparr>ob_key = str ''k'', ob_fingerprint = fp, ob_status = str ''prepared'',
           ob_receipt = None\<rparr>], outbox_faults = []\<rparr>,
        sent = [\<lparr>msg_recipient = str ''r'', msg_subject = [], msg_body = str ''b'', msg_key = str ''k''\<rparr>]\<rparr>)"
    using fp x u m
    by (simp add: message_execute_def comb_defs in_box_def outbox_begin_def outbox_tx_def db_step_def
        outbox_begin_tx_def fresh_messenger_def find_message_def dispatch_message_def demo_message_def
        ditem_def dget_default_def bind_text_def check_def text_ok_str send_message_def dict_of_def
        outbox_finish_def rbind_def Let_def is_exception_def catches_def failed_result_def)
  then show ?thesis by (force simp: fresh_messenger_def failed_result_def)
qed

end
