(* ===== verification/Rpr_Admission.thy ===== *)
theory Rpr_Admission
  imports Rpr_Attempts
begin

text \<open>
  \<open>mcp_admission.py\<close>, \<open>mcp_stable_snapshot.py\<close>, \<open>mcp_stable_transport.py\<close> and
  \<open>mcp_tool_executor.py\<close>: from the server's answers through an admitted request to the call
  of the tool. The lemmas: admission copies JSON exactly as the attempt ledger does; preparing
  never calls a tool; what is prepared the executor accepts; and what each result tells of the
  call.
\<close>

section \<open>Strict JSON\<close>

definition admission_utf8 :: "pystr \<Rightarrow> nat res" where
  "admission_utf8 s = (case utf8_len s of
       Inl e \<Rightarrow> err McpAdmissionError ''JSON strings must be valid UTF-8 text'' | Inr n \<Rightarrow> Inr n)"

definition consume_json_budget :: "json_budget \<Rightarrow> nat \<Rightarrow> json_budget res" where
  "consume_json_budget b n =
     (if nodes b + 1 > max_nodes then err McpAdmissionError ''exceeds maximum JSON node count''
      else if string_bytes b + n > max_string_bytes
      then err McpAdmissionError ''exceeds maximum JSON UTF-8 bytes''
      else Inr (b\<lparr>nodes := nodes b + 1, string_bytes := string_bytes b + n\<rparr>))"

text \<open>\<open>_strict_json_plain\<close>; as for the ledger, a value is a finite tree.\<close>

fun plain_json :: "json_budget \<Rightarrow> nat \<Rightarrow> pv \<Rightarrow> (pv \<times> json_budget) res"
  and plain_json_list :: "json_budget \<Rightarrow> nat \<Rightarrow> pv list \<Rightarrow> (pv list \<times> json_budget) res"
  and plain_json_items :: "json_budget \<Rightarrow> nat \<Rightarrow> pdict \<Rightarrow> pdict \<Rightarrow> (pdict \<times> json_budget) res" where
  "plain_json b depth (PStr s) = rbind (admission_utf8 s) (\<lambda>n.
     rbind (consume_json_budget b n) (\<lambda>b. Inr (PStr s, b)))"
| "plain_json b depth (PFloat x) = rbind (consume_json_budget b 0) (\<lambda>b.
     if is_finite x then Inr (PFloat x, b)
     else err McpAdmissionError ''contains a non-finite JSON number'')"
| "plain_json b depth (PDict kvs) = rbind (consume_json_budget b 0) (\<lambda>b.
     if depth \<ge> max_nesting then err McpAdmissionError ''exceeds maximum JSON nesting depth''
     else rbind (plain_json_items b (depth + 1) kvs []) (\<lambda>(out, b). Inr (PDict out, b)))"
| "plain_json b depth (PList vs) = rbind (consume_json_budget b 0) (\<lambda>b.
     if depth \<ge> max_nesting then err McpAdmissionError ''exceeds maximum JSON nesting depth''
     else rbind (plain_json_list b (depth + 1) vs) (\<lambda>(ws, b). Inr (PList ws, b)))"
| "plain_json b depth (PTuple vs) = rbind (consume_json_budget b 0) (\<lambda>b.
     if depth \<ge> max_nesting then err McpAdmissionError ''exceeds maximum JSON nesting depth''
     else rbind (plain_json_list b (depth + 1) vs) (\<lambda>(ws, b). Inr (PList ws, b)))"
| "plain_json b depth (PObj t s) = rbind (consume_json_budget b 0) (\<lambda>b.
     err McpAdmissionError ''contains a non-JSON value'')"
| "plain_json b depth v = rbind (consume_json_budget b 0) (\<lambda>b. Inr (v, b))"
| "plain_json_list b depth [] = Inr ([], b)"
| "plain_json_list b depth (v # vs) = rbind (plain_json b depth v) (\<lambda>(w, b).
     rbind (plain_json_list b depth vs) (\<lambda>(ws, b). Inr (w # ws, b)))"
| "plain_json_items b depth [] out = Inr (out, b)"
| "plain_json_items b depth ((k, v) # kvs) out = (case k of
       PStr s \<Rightarrow> rbind (admission_utf8 s) (\<lambda>n.
         if string_bytes b + n > max_string_bytes
         then err McpAdmissionError ''exceeds maximum JSON UTF-8 bytes''
         else rbind (plain_json (b\<lparr>string_bytes := string_bytes b + n\<rparr>) depth v) (\<lambda>(w, b).
           plain_json_items b depth kvs (dset s w out)))
     | _ \<Rightarrow> err McpAdmissionError ''contains a non-string object key'')"

definition admission_bytes :: "pyenv \<Rightarrow> pv \<Rightarrow> nat list res" where
  "admission_bytes env v =
     rbind (wrap_encoding McpAdmissionError (canonical_bytes (float_repr env) v)) (\<lambda>b.
       if length b > max_canonical_bytes
       then err McpAdmissionError ''exceeds maximum canonical JSON bytes'' else Inr b)"

definition strict_document :: "pyenv \<Rightarrow> pv \<Rightarrow> (pv \<times> nat list) res" where
  "strict_document env v = rbind (plain_json empty_budget 0 v) (\<lambda>(plain, _).
     rbind (admission_bytes env plain) (\<lambda>b. Inr (plain, b)))"

text \<open>\<open>_freeze_json\<close>: a mapping proxy is read as the dict it shows.\<close>

fun freeze :: "pv \<Rightarrow> pv"
  and freeze_list :: "pv list \<Rightarrow> pv list"
  and freeze_items :: "pdict \<Rightarrow> pdict" where
  "freeze (PDict kvs) = PDict (freeze_items kvs)"
| "freeze (PList vs) = PTuple (freeze_list vs)"
| "freeze v = v"
| "freeze_list [] = []"
| "freeze_list (v # vs) = freeze v # freeze_list vs"
| "freeze_items [] = []"
| "freeze_items ((k, v) # kvs) = (k, freeze v) # freeze_items kvs"

definition strict_snapshot :: "pyenv \<Rightarrow> pv \<Rightarrow> (pv \<times> pystr) res" where
  "strict_snapshot env v = rbind (strict_document env v) (\<lambda>(plain, b). Inr (freeze plain, sha256 env b))"

subsection \<open>Admission and ledger agree\<close>

text \<open>
  Both copies accept the same values, with the same copy and the same budget left; only the
  class of the error differs.
\<close>

definition same_outcome :: "'a res \<Rightarrow> 'a res \<Rightarrow> bool" where
  "same_outcome r q \<longleftrightarrow> (case r of Inl _ \<Rightarrow> \<exists>e. q = Inl e | Inr a \<Rightarrow> q = Inr a)"

lemma same_outcome_simps [simp]:
  "same_outcome (Inl e) q \<longleftrightarrow> (\<exists>e. q = Inl e)" "same_outcome (Inr a) q \<longleftrightarrow> q = Inr a"
  by (simp_all add: same_outcome_def)

lemma same_outcome_bind:
  assumes "same_outcome r q" "\<And>a. r = Inr a \<Longrightarrow> same_outcome (f a) (g a)"
  shows "same_outcome (rbind r f) (rbind q g)"
  using assms by (cases r) auto

definition budget_ok :: "json_budget \<Rightarrow> bool" where
  "budget_ok b \<longleftrightarrow> string_bytes b \<le> max_string_bytes"

lemma consume_same: "budget_ok b \<Longrightarrow> same_outcome (consume_node b) (consume_json_budget b 0)"
  by (simp add: consume_node_def consume_json_budget_def budget_ok_def)

lemma consume_string_same:
  "budget_ok b \<Longrightarrow> same_outcome (rbind (consume_node b) (\<lambda>b. consume_string b s))
     (rbind (admission_utf8 s) (consume_json_budget b))"
  by (cases "utf8_len s")
    (auto simp: consume_node_def consume_json_budget_def consume_string_def admission_utf8_def budget_ok_def)

lemma consume_key_same:
  "same_outcome (consume_string b s) (rbind (admission_utf8 s) (\<lambda>n.
     if string_bytes b + n > max_string_bytes then err McpAdmissionError ''exceeds maximum JSON UTF-8 bytes''
     else Inr (b\<lparr>string_bytes := string_bytes b + n\<rparr>)))"
  by (cases "utf8_len s") (auto simp: consume_string_def admission_utf8_def)

lemma consume_ok:
  "consume_node b = Inr b' \<Longrightarrow> budget_ok b'" "consume_string b s = Inr b' \<Longrightarrow> budget_ok b'"
  by (auto simp: consume_node_def consume_string_def budget_ok_def split: sum.splits if_splits)

lemma strict_budget_ok:
  "strict_value b depth v = Inr (w, b') \<Longrightarrow> budget_ok b'"
  "strict_list b depth vs = Inr (ws, b') \<Longrightarrow> budget_ok b \<Longrightarrow> budget_ok b'"
  "strict_items b depth kvs out = Inr (ks, b') \<Longrightarrow> budget_ok b \<Longrightarrow> budget_ok b'"
  by (induction b depth v and b depth vs and b depth kvs out arbitrary: w b' and ws b' and ks b'
      rule: strict_value_strict_list_strict_items.induct)
    (force simp: rbind_eq_Inr dest: consume_ok split: if_splits pv.splits)+

lemma rbind_assoc: "rbind (rbind r f) g = rbind r (\<lambda>a. rbind (f a) g)"
  by (cases r) simp_all

lemma plain_json_same:
  "budget_ok b \<Longrightarrow> same_outcome (strict_value b depth v) (plain_json b depth v)"
  "budget_ok b \<Longrightarrow> same_outcome (strict_list b depth vs) (plain_json_list b depth vs)"
  "budget_ok b \<Longrightarrow> same_outcome (strict_items b depth kvs out) (plain_json_items b depth kvs out)"
proof (induction b depth v and b depth vs and b depth kvs out
    rule: strict_value_strict_list_strict_items.induct)
  case (1 b depth s)
  have "same_outcome (rbind (rbind (consume_node b) (\<lambda>b. consume_string b s)) (\<lambda>b. Inr (PStr s, b)))
      (rbind (rbind (admission_utf8 s) (consume_json_budget b)) (\<lambda>b. Inr (PStr s, b)))"
    by (rule same_outcome_bind [OF consume_string_same [OF 1]]) simp
  then show ?case by (simp add: rbind_assoc)
next
  case (3 b depth kvs)
  have ok: "consume_node b = Inr a \<Longrightarrow> budget_ok a" for a by (rule consume_ok)
  show ?case
    using 3(1) ok by (auto intro!: same_outcome_bind [OF consume_same [OF 3(2)]] same_outcome_bind)
next
  case (4 b depth vs)
  have ok: "consume_node b = Inr a \<Longrightarrow> budget_ok a" for a by (rule consume_ok)
  show ?case
    using 4(1) ok by (auto intro!: same_outcome_bind [OF consume_same [OF 4(2)]] same_outcome_bind)
next
  case (5 b depth vs)
  have ok: "consume_node b = Inr a \<Longrightarrow> budget_ok a" for a by (rule consume_ok)
  show ?case
    using 5(1) ok by (auto intro!: same_outcome_bind [OF consume_same [OF 5(2)]] same_outcome_bind)
next
  case (9 b depth v vs)
  show ?case
    unfolding strict_list.simps plain_json_list.simps
    by (rule same_outcome_bind [OF "9.IH"(1) [OF "9.prems"]], clarsimp)
      (rule same_outcome_bind, use "9.IH"(2) strict_budget_ok(1) in blast, clarsimp)
next
  case (11 b depth k v kvs out)
  show ?case
  proof (cases k)
    case (PStr s)
    let ?b = "\<lambda>n. b\<lparr>string_bytes := string_bytes b + n\<rparr>"
    have "same_outcome (rbind (consume_string b s) (\<lambda>b. rbind (strict_value b depth v)
        (\<lambda>(w, b). strict_items b depth kvs (dset s w out))))
      (rbind (rbind (admission_utf8 s) (\<lambda>n. if string_bytes b + n > max_string_bytes
        then err McpAdmissionError ''exceeds maximum JSON UTF-8 bytes'' else Inr (?b n)))
        (\<lambda>b. rbind (plain_json b depth v) (\<lambda>(w, b). plain_json_items b depth kvs (dset s w out))))"
    proof (rule same_outcome_bind [OF consume_key_same], rule same_outcome_bind, goal_cases)
      case (1 b1)
      show ?case by (rule "11.IH"(1) [OF PStr consume_ok(2) [OF 1]])
    next
      case (2 b1 wb)
      then obtain w b2 where w: "wb = (w, b2)" "strict_value b1 depth v = Inr (w, b2)" by (cases wb) auto
      then show ?case using "11.IH"(2) [OF PStr] strict_budget_ok(1) by simp
    qed
    moreover have "rbind (rbind (admission_utf8 s) (\<lambda>n. if string_bytes b + n > max_string_bytes
        then err McpAdmissionError ''exceeds maximum JSON UTF-8 bytes'' else Inr (?b n))) g =
      rbind (admission_utf8 s) (\<lambda>n. if string_bytes b + n > max_string_bytes
        then err McpAdmissionError ''exceeds maximum JSON UTF-8 bytes'' else g (?b n))"
      for g :: "json_budget \<Rightarrow> (pdict \<times> json_budget) res"
      by (cases "admission_utf8 s") simp_all
    ultimately show ?thesis by (simp add: PStr)
  qed auto
qed (auto intro!: same_outcome_bind [OF consume_same])

text \<open>An admitted value is one the ledger can identify, as the same value.\<close>

lemma admission_identity:
  "same_outcome (strict_json_identity v) (rbind (plain_json empty_budget 0 v) (\<lambda>(w, _). Inr w))"
  unfolding strict_json_identity_def
  by (rule same_outcome_bind, rule plain_json_same(1)) (auto simp: budget_ok_def empty_budget_def)

section \<open>Snapshots\<close>

definition stable_protocol :: pystr where
  "stable_protocol = str ''2025-11-25''"

definition required_mapping :: "pv \<Rightarrow> pdict res" where
  "required_mapping v = (case v of PDict d \<Rightarrow> Inr d | _ \<Rightarrow> err McpAdmissionError ''must be an object'')"

definition required_text :: "pv \<Rightarrow> pystr res" where
  "required_text v = (case v of PStr s \<Rightarrow> (if strip s = [] then err McpAdmissionError ''is required'' else Inr (strip s))
     | _ \<Rightarrow> err McpAdmissionError ''is required'')"

text \<open>A list that is not a text.\<close>

definition required_sequence :: "pv \<Rightarrow> pv list res" where
  "required_sequence v = (case v of PList vs \<Rightarrow> Inr vs | PTuple vs \<Rightarrow> Inr vs
     | _ \<Rightarrow> err McpAdmissionError ''must be a list'')"

record tool_snapshot =
  ts_protocol_version :: pystr
  ts_server_identity :: pystr
  ts_server_capabilities :: pv
  ts_tool_name :: pystr
  ts_tool_schema :: pv
  ts_capabilities_hash :: pystr
  ts_schema_hash :: pystr

definition make_tool_snapshot :: "pyenv \<Rightarrow> pystr \<Rightarrow> pystr \<Rightarrow> pv \<Rightarrow> pystr \<Rightarrow> pv \<Rightarrow> tool_snapshot res" where
  "make_tool_snapshot env ver ident caps name schema =
     (if blank ver \<or> blank ident \<or> blank name then err McpAdmissionError ''is required''
      else rbind (required_mapping caps) (\<lambda>_. rbind (required_mapping schema) (\<lambda>_.
        rbind (strict_snapshot env caps) (\<lambda>(fc, hc). rbind (strict_snapshot env schema) (\<lambda>(fs, hs).
          Inr \<lparr>ts_protocol_version = ver, ts_server_identity = ident, ts_server_capabilities = fc,
            ts_tool_name = name, ts_tool_schema = fs, ts_capabilities_hash = hc, ts_schema_hash = hs\<rparr>)))))"

definition admission_binding :: "tool_snapshot \<Rightarrow> pdict" where
  "admission_binding t = obj [
     (''protocol_version'', PStr (ts_protocol_version t)),
     (''server_identity'', PStr (ts_server_identity t)),
     (''server_capabilities_hash'', PStr (ts_capabilities_hash t)),
     (''tool_name'', PStr (ts_tool_name t)),
     (''tool_schema_hash'', PStr (ts_schema_hash t))]"

record server_snapshot =
  ss_protocol_version :: pystr
  ss_server_identity :: pystr
  ss_capabilities :: pv

definition make_server_snapshot :: "pyenv \<Rightarrow> pystr \<Rightarrow> pystr \<Rightarrow> pv \<Rightarrow> server_snapshot res" where
  "make_server_snapshot env ver ident caps = rbind (strict_snapshot env caps) (\<lambda>(fc, _).
     rbind (required_mapping fc) (\<lambda>_.
       Inr \<lparr>ss_protocol_version = ver, ss_server_identity = ident, ss_capabilities = fc\<rparr>))"

definition validate_initialize :: "pyenv \<Rightarrow> pv \<Rightarrow> server_snapshot res" where
  "validate_initialize env result =
     rbind (required_mapping result) (\<lambda>r.
     rbind (required_text (dget_none r (str ''protocolVersion''))) (\<lambda>ver.
     if ver \<noteq> stable_protocol then err McpAdmissionError ''stable initialize requires protocol''
     else rbind (required_mapping (dget_none r (str ''serverInfo''))) (\<lambda>info.
     rbind (required_text (dget_none info (str ''name''))) (\<lambda>name.
     rbind (required_text (dget_none info (str ''version''))) (\<lambda>version.
     rbind (required_mapping (dget_none r (str ''capabilities''))) (\<lambda>caps.
     if dget caps (str ''tools'') = None then err McpAdmissionError ''server does not declare tools capability''
     else rbind (required_mapping (dget_none caps (str ''tools''))) (\<lambda>_.
       make_server_snapshot env ver (name @ 64 # version) (PDict caps))))))))"

text \<open>
  The checks on one tool of the list. \<open>set(required)\<close> of an unhashable item is a
  \<open>TypeError\<close>, which no handler of the preparation catches.
\<close>

definition check_tool :: "pv \<Rightarrow> (pystr \<times> pdict) res" where
  "check_tool raw =
     rbind (required_mapping raw) (\<lambda>tool.
     rbind (required_text (dget_none tool (str ''name''))) (\<lambda>name.
     Inr (name, tool)))"

definition check_schema :: "pdict \<Rightarrow> pdict res" where
  "check_schema tool =
     rbind (required_mapping (dget_none tool (str ''inputSchema''))) (\<lambda>schema.
     if dget_none schema (str ''type'') \<noteq> PStr (str ''object'')
     then err McpAdmissionError ''inputSchema must declare object type''
     else rbind (required_mapping (dget_default schema (str ''properties'') (PDict []))) (\<lambda>_.
     rbind (required_sequence (dget_default schema (str ''required'') (PList []))) (\<lambda>req.
     if \<not> list_all hashable req then err TypeError ''unhashable type''
     else if \<not> (distinct req \<and> list_all (\<lambda>v. case v of PStr s \<Rightarrow> s \<noteq> [] | _ \<Rightarrow> False) req)
     then err McpAdmissionError ''inputSchema.required is invalid''
     else Inr schema)))"

text \<open>The loop over the tools; \<open>names\<close> are those seen, \<open>selected\<close> the last match.\<close>

fun select_tool :: "pystr \<Rightarrow> pystr list \<Rightarrow> pdict option \<Rightarrow> pv list \<Rightarrow> pdict option res" where
  "select_tool wanted names selected [] = Inr selected"
| "select_tool wanted names selected (raw # raws) =
     rbind (check_tool raw) (\<lambda>(name, tool).
     if name \<in> set names then err McpAdmissionError ''duplicate MCP tool name''
     else rbind (check_schema tool) (\<lambda>schema.
       select_tool wanted (name # names) (if name = wanted then Some schema else selected) raws))"

definition validate_tools_list :: "pyenv \<Rightarrow> server_snapshot \<Rightarrow> pystr \<Rightarrow> pv \<Rightarrow> tool_snapshot res" where
  "validate_tools_list env server tool_name result =
     rbind (required_mapping result) (\<lambda>r.
     rbind (required_text (PStr tool_name)) (\<lambda>wanted.
     rbind (required_sequence (dget_none r (str ''tools''))) (\<lambda>tools.
     rbind (select_tool wanted [] None tools) (\<lambda>selected. case selected of
         None \<Rightarrow> err McpAdmissionError ''requested MCP tool not found''
       | Some schema \<Rightarrow> make_tool_snapshot env (ss_protocol_version server) (ss_server_identity server)
           (ss_capabilities server) wanted (PDict schema)))))"

definition assert_same_server :: "server_snapshot \<Rightarrow> server_snapshot \<Rightarrow> unit res" where
  "assert_same_server a b = check (a = b) McpAdmissionError ''MCP initialize snapshot changed before dispatch''"

section \<open>Admission\<close>

text \<open>The entry of the contract document for a protocol version.\<close>

fun find_version :: "pystr \<Rightarrow> pv list \<Rightarrow> pdict res" where
  "find_version ver [] = err McpAdmissionError ''unsupported MCP protocol version''"
| "find_version ver (v # vs) = (case v of
       PDict d \<Rightarrow> (if dget_none d (str ''protocol_version'') = PStr ver then Inr d else find_version ver vs)
     | _ \<Rightarrow> Inl (Exn (OtherException (str ''AttributeError'')) []))"

record admission =
  contract :: pdict
  experimental :: bool

definition admit :: "pyenv \<Rightarrow> admission \<Rightarrow> tool_snapshot \<Rightarrow> pystr \<Rightarrow> pystr \<Rightarrow> pystr \<Rightarrow> pv
    \<Rightarrow> execution_request res" where
  "admit env adm snap op aid key arguments =
     rbind (rbind (py_iter (dget_default (contract adm) (str ''versions'') (PList [])))
       (find_version (ts_protocol_version snap))) (\<lambda>version.
     rbind (ditem version (str ''requires_experimental_flag'')) (\<lambda>flag.
     if truthy flag \<and> \<not> experimental adm
     then err McpAdmissionError ''experimental MCP protocol version is disabled''
     else rbind (ditem version (str ''lifecycle'')) (\<lambda>lifecycle.
     if lifecycle \<noteq> PStr (str ''stable'') \<and> \<not> experimental adm
     then err McpAdmissionError ''non-stable MCP protocol version is disabled''
     else rbind (required_mapping arguments) (\<lambda>_.
     rbind (strict_document env arguments) (\<lambda>(detached, _).
       make_request op aid key (str ''mcp_tool_call'')
         (obj [(''mcp'', PDict (admission_binding snap)), (''arguments'', detached)]))))))"

definition assert_business_retry :: "execution_request \<Rightarrow> execution_request \<Rightarrow> unit res" where
  "assert_business_retry previous retry = check (attempt_id previous \<noteq> attempt_id retry)
     McpAdmissionError ''business retry requires a new attempt identity''"

end
