(* ===== verification/Rpr_Parse.thy ===== *)
theory Rpr_Parse
  imports Rpr_Values
begin

text \<open>
  The other direction of \<open>json\<close> and UTF-8: strict decoding of bytes, and \<open>json.loads\<close> in its
  two uses, plain and with the hooks that refuse duplicate members and non-finite constants.
  The lemmas are that the fuel of the parser is enough, and that it reads back what
  \<open>json.dumps\<close> writes.
\<close>

section \<open>UTF-8\<close>

definition continuation :: "nat \<Rightarrow> bool" where
  "continuation b \<longleftrightarrow> 128 \<le> b \<and> b < 192"

text \<open>\<open>bytes.decode("utf-8", errors="strict")\<close>.\<close>

fun utf8_decode :: "nat list \<Rightarrow> pystr option" where
  "utf8_decode [] = Some []"
| "utf8_decode (b # bs) =
     (if b < 128 then map_option ((#) b) (utf8_decode bs)
      else if b < 194 then None
      else if b < 224 then (case bs of
          c # r \<Rightarrow> (if continuation c
            then map_option ((#) ((b - 192) * 64 + (c - 128))) (utf8_decode r) else None)
        | [] \<Rightarrow> None)
      else if b < 240 then (case bs of
          c # d # r \<Rightarrow> (let x = (b - 224) * 4096 + (c - 128) * 64 + (d - 128) in
            if continuation c \<and> continuation d \<and> 2048 \<le> x \<and> \<not> surrogate x
            then map_option ((#) x) (utf8_decode r) else None)
        | _ \<Rightarrow> None)
      else if b < 245 then (case bs of
          c # d # e # r \<Rightarrow>
            (let x = (b - 240) * 262144 + (c - 128) * 4096 + (d - 128) * 64 + (e - 128) in
            if continuation c \<and> continuation d \<and> continuation e \<and> 65536 \<le> x \<and> x \<le> 1114111
            then map_option ((#) x) (utf8_decode r) else None)
        | _ \<Rightarrow> None)
      else None)"

lemma utf8_decode_char:
  assumes "\<not> surrogate c" "c \<le> 1114111"
  shows "utf8_decode (utf8_char c @ x) = map_option ((#) c) (utf8_decode x)"
proof -
  have q: "n div 4096 = n div 64 div 64" "n div 262144 = n div 64 div 64 div 64" for n :: nat
    by (simp_all add: div_mult2_eq [symmetric])
  have cont: "continuation (128 + n mod 64)" for n by (simp add: continuation_def)
  have m: "n div 64 * 64 + n mod 64 = n" for n :: nat by (rule div_mult_mod_eq)
  have two: "c div 64 * 64 + c mod 64 = c" by (rule m)
  have three: "c div 4096 * 4096 + c div 64 mod 64 * 64 + c mod 64 = c"
    using m [of "c div 64"] m [of c] unfolding q by linarith
  have four: "c div 262144 * 262144 + c div 4096 mod 64 * 4096 + c div 64 mod 64 * 64 + c mod 64 = c"
    using m [of "c div 64 div 64"] m [of "c div 64"] m [of c] unfolding q by linarith
  consider "c < 128" | "128 \<le> c" "c < 2048" | "2048 \<le> c" "c < 65536" | "65536 \<le> c" by linarith
  then show ?thesis
  proof cases
    case 1
    then show ?thesis by (simp add: utf8_char_def)
  next
    case 2
    then have "2 \<le> c div 64" "c div 64 < 32" by (simp_all add: less_eq_div_iff_mult_less_eq less_mult_imp_div_less)
    with 2 two cont show ?thesis by (simp add: utf8_char_def)
  next
    case 3
    then have "c div 4096 < 16" by (simp add: less_mult_imp_div_less)
    with 3 three cont assms(1) show ?thesis by (simp add: utf8_char_def Let_def)
  next
    case 4
    with assms(2) have "c div 262144 < 5" by (simp add: less_mult_imp_div_less)
    with 4 four cont assms(2) show ?thesis by (simp add: utf8_char_def Let_def)
  qed
qed

theorem utf8_decode_encode:
  assumes "utf8_encode s = Inr b" "list_all (\<lambda>c. c \<le> 1114111) s"
  shows "utf8_decode b = Some s"
proof -
  have "list_all (\<lambda>c. \<not> surrogate c) s" "b = concat (map utf8_char s)"
    using assms(1) by (auto simp: utf8_encode_def list_ex_iff list_all_iff split: if_splits)
  with assms(2) show ?thesis
    by (induction s arbitrary: b) (simp_all add: utf8_decode_char)
qed

section \<open>Strings\<close>

definition json_space :: "nat \<Rightarrow> bool" where
  "json_space c \<longleftrightarrow> c = 32 \<or> c = 9 \<or> c = 10 \<or> c = 13"

definition skip_space :: "pystr \<Rightarrow> pystr" where
  "skip_space s = dropWhile json_space s"

definition hex_value :: "nat \<Rightarrow> nat option" where
  "hex_value c = (if 48 \<le> c \<and> c \<le> 57 then Some (c - 48)
     else if 97 \<le> c \<and> c \<le> 102 then Some (c - 87)
     else if 65 \<le> c \<and> c \<le> 70 then Some (c - 55) else None)"

definition hex4 :: "pystr \<Rightarrow> (nat \<times> pystr) option" where
  "hex4 s = (case s of a # b # c # d # r \<Rightarrow>
       (case (hex_value a, hex_value b, hex_value c, hex_value d) of
          (Some i, Some j, Some k, Some l) \<Rightarrow> Some (4096 * i + 256 * j + 16 * k + l, r)
        | _ \<Rightarrow> None)
     | _ \<Rightarrow> None)"

definition simple_escape :: "nat \<Rightarrow> nat option" where
  "simple_escape e = map_of [(34, 34), (92, 92), (47, 47), (98, 8), (102, 12), (110, 10), (114, 13),
     (116, 9)] e"

text \<open>One character of a string, an escape or a surrogate pair of escapes.\<close>

definition next_char :: "pystr \<Rightarrow> (nat \<times> pystr) option" where
  "next_char s = (case s of [] \<Rightarrow> None
     | c # t \<Rightarrow>
        if c \<noteq> 92 then (if c < 32 then None else Some (c, t))
        else (case t of [] \<Rightarrow> None
          | e # u \<Rightarrow>
            if e \<noteq> 117 then map_option (\<lambda>d. (d, u)) (simple_escape e)
            else (case hex4 u of None \<Rightarrow> None
              | Some (h, v) \<Rightarrow>
                if 55296 \<le> h \<and> h \<le> 56319 then
                  (case v of a # b # w \<Rightarrow>
                      if a = 92 \<and> b = 117 then
                        (case hex4 w of None \<Rightarrow> None
                         | Some (l, x) \<Rightarrow>
                            if 56320 \<le> l \<and> l \<le> 57343
                            then Some (65536 + (h - 55296) * 1024 + (l - 56320), x)
                            else Some (h, v))
                      else Some (h, v)
                   | _ \<Rightarrow> Some (h, v))
                else Some (h, v))))"

lemma hex4_shorter: "hex4 s = Some (n, t) \<Longrightarrow> length t < length s"
  by (auto simp: hex4_def split: list.splits option.splits)

lemma next_char_shorter: "next_char s = Some (c, t) \<Longrightarrow> length t < length s"
  by (auto simp: next_char_def split: list.splits option.splits if_splits dest!: hex4_shorter)

text \<open>The characters after an opening quote, up to the closing one.\<close>

function scan_string :: "pystr \<Rightarrow> (pystr \<times> pystr) option" where
  "scan_string s = (case s of [] \<Rightarrow> None
     | c # t \<Rightarrow> if c = 34 then Some ([], t)
        else (case next_char s of None \<Rightarrow> None
          | Some (d, u) \<Rightarrow> map_option (\<lambda>(x, r). (d # x, r)) (scan_string u)))"
  by auto
termination by (relation "measure length") (auto dest: next_char_shorter)

declare scan_string.simps [simp del]

lemma scan_string_shorter: "scan_string s = Some (x, r) \<Longrightarrow> length r < length s"
proof (induction s arbitrary: x rule: scan_string.induct)
  case (1 s)
  then show ?case
    by (subst (asm) (2) scan_string.simps)
      (force split: list.splits if_splits option.splits dest: next_char_shorter)
qed

section \<open>Numbers\<close>

definition digit :: "nat \<Rightarrow> bool" where
  "digit c \<longleftrightarrow> 48 \<le> c \<and> c \<le> 57"

definition int_part :: "pystr \<Rightarrow> pystr" where
  "int_part s = (case s of [] \<Rightarrow> [] | c # t \<Rightarrow> if c = 48 then [48] else takeWhile digit s)"

definition frac_part :: "pystr \<Rightarrow> pystr" where
  "frac_part s = (case s of [] \<Rightarrow> []
     | c # t \<Rightarrow> if c = 46 \<and> takeWhile digit t \<noteq> [] then 46 # takeWhile digit t else [])"

definition exp_sign :: "pystr \<Rightarrow> pystr" where
  "exp_sign s = (case s of [] \<Rightarrow> [] | c # t \<Rightarrow> if c = 43 \<or> c = 45 then [c] else [])"

definition exp_digits :: "pystr \<Rightarrow> pystr" where
  "exp_digits s = takeWhile digit (drop (length (exp_sign s)) s)"

definition exp_part :: "pystr \<Rightarrow> pystr" where
  "exp_part s = (case s of [] \<Rightarrow> []
     | c # t \<Rightarrow> if (c = 101 \<or> c = 69) \<and> exp_digits t \<noteq> [] then c # exp_sign t @ exp_digits t else [])"

definition digits_value :: "pystr \<Rightarrow> nat" where
  "digits_value ds = foldl (\<lambda>n d. 10 * n + (d - 48)) 0 ds"

text \<open>The rational that a literal denotes, without its sign.\<close>

definition decimal_value :: "pystr \<Rightarrow> pystr \<Rightarrow> pystr \<Rightarrow> rat" where
  "decimal_value ip fp ep =
     (let m = of_nat (digits_value (ip @ tl fp)) / 10 ^ length (tl fp);
          e = digits_value (exp_digits (tl ep)) in
      if exp_sign (tl ep) = [45] then m / 10 ^ e else m * 10 ^ e)"

text \<open>The sign, the parts of a number literal and what follows it.\<close>

definition number_parts :: "pystr \<Rightarrow> bool \<times> pystr \<times> pystr \<times> pystr \<times> pystr" where
  "number_parts s =
     (let neg = (case s of [] \<Rightarrow> False | c # _ \<Rightarrow> c = 45);
          t = (if neg then tl s else s);
          ip = int_part t;
          u = drop (length ip) t;
          fp = frac_part u;
          w = drop (length fp) u;
          ep = exp_part w in
      (neg, ip, fp, ep, drop (length ep) w))"

text \<open>The value of a literal: \<open>rf\<close> rounds a rational to a float.\<close>

definition number_value :: "(rat \<Rightarrow> pfloat) \<Rightarrow> bool \<Rightarrow> pystr \<Rightarrow> pystr \<Rightarrow> pystr \<Rightarrow> pv" where
  "number_value rf neg ip fp ep =
     (if fp = [] \<and> ep = []
      then PInt (if neg then - int (digits_value ip) else int (digits_value ip))
      else let q = decimal_value ip fp ep in
        PFloat (if q = 0 then (if neg then FNegZero else FFin 0) else rf (if neg then - q else q)))"

definition scan_number :: "(rat \<Rightarrow> pfloat) \<Rightarrow> pystr \<Rightarrow> (pv \<times> pystr) option" where
  "scan_number rf s = (case number_parts s of (neg, ip, fp, ep, r) \<Rightarrow>
     if ip = [] then None else Some (number_value rf neg ip fp ep, r))"

section \<open>Values\<close>

text \<open>The constants that \<open>parse_constant\<close> sees come last.\<close>

definition json_words :: "(pystr \<times> pv) list" where
  "json_words = [(str ''null'', PNone), (str ''true'', PBool True), (str ''false'', PBool False)]"

definition json_constants :: "(pystr \<times> pv) list" where
  "json_constants = [(str ''NaN'', PFloat FNan), (str ''Infinity'', PFloat (FInf False)),
     (str ''-Infinity'', PFloat (FInf True))]"

definition scan_word :: "(pystr \<times> pv) list \<Rightarrow> pystr \<Rightarrow> (pv \<times> pystr) option" where
  "scan_word ws s = (case find (\<lambda>(w, _). take (length w) s = w) ws of
     None \<Rightarrow> None | Some (w, v) \<Rightarrow> Some (v, drop (length w) s))"

text \<open>
  The hooks of a reader: none, a \<open>parse_constant\<close> that refuses, or that and an
  \<open>object_pairs_hook\<close> that refuses a repeated member.
\<close>

datatype json_hooks = Lenient | NoConstants | Strict

definition scan_scalar :: "json_hooks \<Rightarrow> (rat \<Rightarrow> pfloat) \<Rightarrow> pystr \<Rightarrow> (pv \<times> pystr) option" where
  "scan_scalar hooks rf s = (case scan_word json_words s of
       Some r \<Rightarrow> Some r
     | None \<Rightarrow> (case scan_word json_constants s of
         Some r \<Rightarrow> (if hooks = Lenient then Some r else None)
       | None \<Rightarrow> scan_number rf s))"

text \<open>The pairs of an object as a dict; the strict hook refuses a repeated member.\<close>

definition make_object :: "json_hooks \<Rightarrow> pdict \<Rightarrow> pdict option" where
  "make_object hooks ps =
     (if hooks = Strict \<and> \<not> distinct (map fst ps) then None
      else Some (foldl (\<lambda>d (k, v). AList.update k v d) [] ps))"

fun parse_value :: "json_hooks \<Rightarrow> (rat \<Rightarrow> pfloat) \<Rightarrow> nat \<Rightarrow> pystr \<Rightarrow> (pv \<times> pystr) option"
  and parse_elements :: "json_hooks \<Rightarrow> (rat \<Rightarrow> pfloat) \<Rightarrow> nat \<Rightarrow> pystr \<Rightarrow> (pv list \<times> pystr) option"
  and parse_members :: "json_hooks \<Rightarrow> (rat \<Rightarrow> pfloat) \<Rightarrow> nat \<Rightarrow> pystr \<Rightarrow> (pdict \<times> pystr) option" where
  "parse_value hooks rf 0 s = None"
| "parse_value hooks rf (Suc n) s = (case s of [] \<Rightarrow> None
     | c # t \<Rightarrow>
        if c = 34 then map_option (\<lambda>(x, r). (PStr x, r)) (scan_string t)
        else if c = 91 then
          (if take 1 (skip_space t) = [93] then Some (PList [], drop 1 (skip_space t))
           else map_option (\<lambda>(vs, r). (PList vs, r)) (parse_elements hooks rf n (skip_space t)))
        else if c = 123 then
          (if take 1 (skip_space t) = [125] then Some (PDict [], drop 1 (skip_space t))
           else (case parse_members hooks rf n (skip_space t) of None \<Rightarrow> None
             | Some (ps, r) \<Rightarrow> map_option (\<lambda>d. (PDict d, r)) (make_object hooks ps)))
        else scan_scalar hooks rf s)"
| "parse_elements hooks rf 0 s = None"
| "parse_elements hooks rf (Suc n) s = (case parse_value hooks rf n s of None \<Rightarrow> None
     | Some (v, r) \<Rightarrow> (case skip_space r of [] \<Rightarrow> None
         | c # t \<Rightarrow>
            if c = 93 then Some ([v], t)
            else if c = 44 then
              map_option (\<lambda>(vs, u). (v # vs, u)) (parse_elements hooks rf n (skip_space t))
            else None))"
| "parse_members hooks rf 0 s = None"
| "parse_members hooks rf (Suc n) s = (case s of [] \<Rightarrow> None
     | q # s' \<Rightarrow> if q \<noteq> 34 then None else (case scan_string s' of None \<Rightarrow> None
     | Some (k, r) \<Rightarrow> (case skip_space r of [] \<Rightarrow> None
     | d # r' \<Rightarrow> if d \<noteq> 58 then None else (case parse_value hooks rf n (skip_space r') of None \<Rightarrow> None
     | Some (v, x) \<Rightarrow> (case skip_space x of [] \<Rightarrow> None
         | c # t \<Rightarrow>
            if c = 125 then Some ([(PStr k, v)], t)
            else if c = 44 then
              map_option (\<lambda>(ps, u). ((PStr k, v) # ps, u)) (parse_members hooks rf n (skip_space t))
            else None)))))"

text \<open>\<open>json.loads(text)\<close>; \<open>None\<close> is a \<open>ValueError\<close> (a \<open>JSONDecodeError\<close> without hooks).\<close>

definition json_loads :: "json_hooks \<Rightarrow> (rat \<Rightarrow> pfloat) \<Rightarrow> pystr \<Rightarrow> pv option" where
  "json_loads hooks rf s =
     (if take 1 s = [65279] then None
      else case parse_value hooks rf (Suc (2 * length s)) (skip_space s) of
          None \<Rightarrow> None
        | Some (v, r) \<Rightarrow> if skip_space r = [] then Some v else None)"

subsection \<open>The fuel is enough\<close>

lemma skip_space_shorter: "length (skip_space s) \<le> length s"
  by (simp add: skip_space_def length_dropWhile_le)

lemma scan_word_shorter:
  assumes "scan_word ws s = Some (v, r)" "[] \<notin> fst ` set ws"
  shows "length r < length s"
proof -
  from assms(1) obtain w where w: "find (\<lambda>(w, _). take (length w) s = w) ws = Some (w, v)"
    and r: "r = drop (length w) s" by (auto simp: scan_word_def split: option.splits)
  from w have "(w, v) \<in> set ws \<and> take (length w) s = w" by (induction ws) (auto split: if_splits)
  with assms(2) have "w \<noteq> []" "length w \<le> length s" by (force, metis length_take min.cobounded1)
  then show ?thesis unfolding r by (cases w) auto
qed

lemma number_parts_shorter:
  assumes "number_parts s = (neg, ip, fp, ep, r)" "ip \<noteq> []"
  shows "length r < length s"
proof -
  define t where "t = (if (case s of [] \<Rightarrow> False | c # _ \<Rightarrow> c = 45) then tl s else s)"
  from assms(1) have ip: "ip = int_part t" and r: "length r \<le> length (drop (length ip) t)"
    by (auto simp: number_parts_def Let_def t_def)
  with assms(2) have "t \<noteq> []" by (auto simp: int_part_def)
  then have "length (drop (length ip) t) < length t" using assms(2) by simp
  moreover have "length t \<le> length s" by (simp add: t_def)
  ultimately show ?thesis using r by simp
qed

lemma scan_number_shorter: "scan_number rf s = Some (v, r) \<Longrightarrow> length r < length s"
  by (auto simp: scan_number_def split: prod.splits if_splits intro: number_parts_shorter)

lemma scan_scalar_shorter:
  assumes "scan_scalar hooks rf s = Some (v, r)"
  shows "length r < length s"
proof -
  have "[] \<notin> fst ` set json_words" "[] \<notin> fst ` set json_constants"
    by (auto simp: json_words_def json_constants_def)
  with assms show ?thesis
    by (auto simp: scan_scalar_def split: option.splits if_splits
        dest: scan_word_shorter scan_number_shorter)
qed

lemma skip_space_ConsD: "skip_space r = c # t \<Longrightarrow> length t < length r"
  using skip_space_shorter [of r] by simp

lemma parse_shorter:
  "parse_value hooks rf n s = Some (v, r) \<Longrightarrow> length r < length s"
  "parse_elements hooks rf n s = Some (vs, r) \<Longrightarrow> length r < length s"
  "parse_members hooks rf n s = Some (ps, r) \<Longrightarrow> length r < length s"
proof (induction hooks rf n s and hooks rf n s and hooks rf n s
    arbitrary: v r and vs r and ps r rule: parse_value_parse_elements_parse_members.induct)
  case (2 hooks rf n s)
  show ?case
  proof (cases s)
    case (Cons c t)
    have sk: "length (drop 1 (skip_space t)) \<le> length t" "length (skip_space t) \<le> length t"
      using skip_space_shorter [of t] by simp_all
    have "length u < length (c # t)" if "parse_elements hooks rf n (skip_space t) = Some (vs, u)"
      "c = 91" "take 1 (skip_space t) \<noteq> [93]" for vs u
      using "2.IH"(1) [OF Cons _ that(2,3,1)] that(2) sk(2) by simp
    moreover have "length u < length (c # t)" if "parse_members hooks rf n (skip_space t) = Some (ps, u)"
      "c = 123" "take 1 (skip_space t) \<noteq> [125]" for ps u
      using "2.IH"(2) [OF Cons _ _ that(2,3,1)] that(2) sk(2) by simp
    ultimately show ?thesis using "2.prems" Cons sk(1) scan_string_shorter [of t]
        scan_scalar_shorter [of hooks rf "c # t"]
      by (auto split: if_splits option.splits)
  qed (use "2.prems" in simp)
next
  case (4 hooks rf n s)
  then obtain v r' c t where v: "parse_value hooks rf n s = Some (v, r')" and c: "skip_space r' = c # t"
    by (auto split: option.splits list.splits)
  from "4.IH"(1) [OF v] skip_space_ConsD [OF c] have l: "length t < length s" by simp
  have "length r < length s" if "c = 44" "parse_elements hooks rf n (skip_space t) = Some (ws, r)" for ws
    using "4.IH"(2) [OF v _ c _ that] that(1) l skip_space_shorter [of t] by simp
  with "4.prems" v c l show ?case by (auto split: if_splits)
next
  case (6 hooks rf n s)
  from "6.prems" obtain s' where s: "s = 34 # s'" by (auto split: list.splits if_splits)
  with "6.prems" obtain k u where k: "scan_string s' = Some (k, u)" by (auto split: option.splits)
  with "6.prems" s obtain r' where u: "skip_space u = 58 # r'" by (auto split: list.splits if_splits)
  with "6.prems" s k obtain v x where v: "parse_value hooks rf n (skip_space r') = Some (v, x)"
    by (auto split: option.splits)
  with "6.prems" s k u obtain c t where c: "skip_space x = c # t" by (auto split: list.splits)
  have "length x < length (skip_space r')" using "6.IH"(1) [OF s _ k _ u _ v] by simp
  then have l: "length t < length s"
    using skip_space_shorter [of r'] skip_space_ConsD [OF c] skip_space_ConsD [OF u] scan_string_shorter [OF k] s
    by simp
  have "length r < length s" if "c = 44" "parse_members hooks rf n (skip_space t) = Some (qs, r)" for qs
  proof -
    have "length r < length (skip_space t)"
      by (rule "6.IH"(2) [OF s _ k _ u _ v _ c _ that]) (use that in simp_all)
    with l skip_space_shorter [of t] show ?thesis by simp
  qed
  with "6.prems" s k u v c l show ?case by (auto split: if_splits)
qed simp_all

text \<open>More fuel than twice the length of the text changes nothing.\<close>

lemma parse_fuel:
  "2 * length s < n \<Longrightarrow> n \<le> m \<Longrightarrow> parse_value hooks rf n s = parse_value hooks rf m s"
  "2 * length s + 1 < n \<Longrightarrow> n \<le> m \<Longrightarrow> parse_elements hooks rf n s = parse_elements hooks rf m s"
  "2 * length s + 1 < n \<Longrightarrow> n \<le> m \<Longrightarrow> parse_members hooks rf n s = parse_members hooks rf m s"
proof (induction n arbitrary: s m)
  case (Suc n)
  {
    case 1
    then obtain m' where m: "m = Suc m'" "n \<le> m'" by (cases m) auto
    have "parse_elements hooks rf n (skip_space t) = parse_elements hooks rf m' (skip_space t)"
      "parse_members hooks rf n (skip_space t) = parse_members hooks rf m' (skip_space t)"
      if "s = c # t" for c t
      using 1(1) that skip_space_shorter [of t] m(2) by (auto intro!: Suc.IH(2,3))
    then show ?case unfolding m(1) by (auto split: list.split)
  next
    case 2
    then obtain m' where m: "m = Suc m'" "n \<le> m'" by (cases m) auto
    have v: "parse_value hooks rf n s = parse_value hooks rf m' s"
      using 2(1) m(2) by (intro Suc.IH(1)) simp_all
    have "parse_elements hooks rf n (skip_space t) = parse_elements hooks rf m' (skip_space t)"
      if "parse_value hooks rf m' s = Some (x, r)" "skip_space r = c # t" for x r c t
    proof -
      have "length (skip_space t) < length s"
        using parse_shorter(1) [OF that(1)] skip_space_ConsD [OF that(2)] skip_space_shorter [of t] by simp
      with 2(1) m(2) show ?thesis by (intro Suc.IH(2)) simp_all
    qed
    then show ?case unfolding m(1) parse_elements.simps v
      by (auto split: option.split list.split)
  next
    case 3
    then obtain m' where m: "m = Suc m'" "n \<le> m'" by (cases m) auto
    have v: "parse_value hooks rf n (skip_space r') = parse_value hooks rf m' (skip_space r')"
      if "s = q # s'" "scan_string s' = Some (k, r)" "skip_space r = d # r'" for q s' k r d r'
      using 3(1) m(2) that scan_string_shorter [OF that(2)] skip_space_ConsD [OF that(3)] skip_space_shorter [of r']
      by (intro Suc.IH(1)) simp_all
    have w: "parse_members hooks rf n (skip_space t) = parse_members hooks rf m' (skip_space t)"
      if "s = q # s'" "scan_string s' = Some (k, r)" "skip_space r = d # r'"
        "parse_value hooks rf m' (skip_space r') = Some (x, u)" "skip_space u = c # t" for q s' k r d r' x u c t
    proof -
      have "length (skip_space t) < length s"
        using that(1) scan_string_shorter [OF that(2)] skip_space_ConsD [OF that(3)] skip_space_shorter [of r']
          parse_shorter(1) [OF that(4)] skip_space_ConsD [OF that(5)] skip_space_shorter [of t] by simp
      with 3(1) m(2) show ?thesis by (intro Suc.IH(3)) simp_all
    qed
    show ?case unfolding m(1) parse_members.simps
      by (auto split: option.split list.split simp: v w)
  }
qed simp_all

section \<open>What is written is read back\<close>

subsection \<open>Strings\<close>

lemma hex_value_digit: "n < 16 \<Longrightarrow> hex_value (hex_digit n) = Some n"
  by (auto simp: hex_value_def hex_digit_def)

lemma next_char_escape: "next_char (escape_char c @ x) = Some (c, x)"
proof -
  consider "c \<in> {34, 92, 10, 13, 9, 12, 8}" | "c \<notin> {34, 92, 10, 13, 9, 12, 8}" "c < 32"
    | "c \<notin> {34, 92, 10, 13, 9, 12, 8}" "\<not> c < 32" by blast
  then show ?thesis
  proof cases
    case 1
    then show ?thesis by (auto simp: next_char_def escape_char_def simple_escape_def)
  next
    case 2
    then have e: "escape_char c = [92, 117, 48, 48, hex_digit (c div 16), hex_digit (c mod 16)]"
      by (simp add: escape_char_def)
    have d: "c div 16 < 16" "hex_value 48 = Some 0" "16 * (c div 16) + c mod 16 = c"
      using 2(2) by (simp_all add: hex_value_def)
    then have "hex4 (drop 2 (escape_char c) @ x) = Some (c, x)"
      by (simp add: e hex4_def hex_value_digit)
    with 2(2) show ?thesis by (simp add: next_char_def e)
  next
    case 3
    then have "escape_char c = [c]" by (simp add: escape_char_def)
    with 3 show ?thesis by (simp add: next_char_def)
  qed
qed

lemma escape_char_head: "\<exists>d t. escape_char c = d # t \<and> d \<noteq> 34"
  by (auto simp: escape_char_def)

lemma scan_string_text: "scan_string (concat (map escape_char s) @ 34 # x) = Some (s, x)"
proof (induction s)
  case Nil
  then show ?case by (subst scan_string.simps) simp
next
  case (Cons c s)
  obtain d t where e: "escape_char c = d # t" "d \<noteq> 34" using escape_char_head by blast
  show ?case
    using next_char_escape [of c "concat (map escape_char s) @ 34 # x"] Cons.IH e
    by (subst scan_string.simps) simp
qed

subsection \<open>Numbers\<close>

lemma digits_value_snoc: "digits_value (ds @ [d]) = 10 * digits_value ds + (d - 48)"
  by (simp add: digits_value_def)

lemma nat_text_value: "digits_value (nat_text n) = n"
proof (induction n rule: nat_text.induct)
  case (1 n)
  show ?case
  proof (cases "n < 10")
    case True
    then show ?thesis by (subst nat_text.simps) (simp add: digits_value_def)
  next
    case False
    with "1.IH" show ?thesis by (subst nat_text.simps) (simp add: digits_value_snoc)
  qed
qed

lemma nat_text_head: "n \<noteq> 0 \<Longrightarrow> hd (nat_text n) \<noteq> 48"
proof (induction n rule: nat_text.induct)
  case (1 n)
  show ?case
  proof (cases "n < 10")
    case False
    then have "n div 10 \<noteq> 0" by simp
    with "1.IH" False show ?thesis
      by (subst nat_text.simps) (simp add: nat_text_digits(2))
  qed (use "1.prems" in \<open>subst nat_text.simps, simp\<close>)
qed

lemma delim_not_number: "delim x \<Longrightarrow> takeWhile digit x = [] \<and> frac_part x = [] \<and> exp_part x = []"
  by (cases x) (auto simp: delim_def digit_def frac_part_def exp_part_def)

lemma int_part_nat_text: "delim x \<Longrightarrow> int_part (nat_text n @ x) = nat_text n"
proof -
  assume x: "delim x"
  obtain c t where c: "nat_text n = c # t" using nat_text_digits(2) [of n] by (cases "nat_text n") auto
  have all: "list_all digit (nat_text n)" using nat_text_digits(1) [of n] by (simp add: digit_def [abs_def])
  show ?thesis
  proof (cases "n = 0")
    case True
    then have "nat_text n = [48]" by (subst nat_text.simps) simp
    then show ?thesis by (simp add: int_part_def)
  next
    case False
    with nat_text_head [OF False] c have "c \<noteq> 48" by simp
    moreover have "takeWhile digit (nat_text n @ x) = nat_text n"
      using all delim_not_number [OF x] by (simp add: takeWhile_append list_all_iff)
    ultimately show ?thesis using c by (simp add: int_part_def)
  qed
qed

lemma scan_int: "delim x \<Longrightarrow> scan_number rf (int_text i @ x) = Some (PInt i, x)"
proof -
  assume x: "delim x"
  note d = delim_not_number [OF x]
  have nm: "\<not> (case nat_text n @ x of [] \<Rightarrow> False | c # _ \<Rightarrow> c = 45)" for n
    using nat_text_digits [of n] by (cases "nat_text n") auto
  have "number_parts (int_text i @ x) = (i < 0, nat_text (nat \<bar>i\<bar>), [], [], x)"
    using d int_part_nat_text [OF x] nm by (simp add: number_parts_def int_text_def Let_def)
  then show ?thesis
    using nat_text_digits(2) by (simp add: scan_number_def number_value_def nat_text_value)
qed

lemma scan_neg_zero: "delim x \<Longrightarrow> scan_number rf (str ''-0.0'' @ x) = Some (PFloat FNegZero, x)"
proof -
  assume x: "delim x"
  note d = delim_not_number [OF x]
  have "takeWhile digit (48 # x) = [48]" using d by (simp add: digit_def)
  then have "number_parts (str ''-0.0'' @ x) = (True, [48], [46, 48], [], x)"
    using d by (simp add: number_parts_def str_def int_part_def frac_part_def Let_def)
  then show ?thesis
    by (simp add: scan_number_def number_value_def decimal_value_def digits_value_def exp_digits_def
        exp_sign_def Let_def)
qed

subsection \<open>Values\<close>

text \<open>
  What reading back needs of the interpreter's floats: the text of a float in the document is
  read as that float.
\<close>

definition float_reads :: "(rat \<Rightarrow> pfloat) \<Rightarrow> (rat \<Rightarrow> pystr) \<Rightarrow> rat \<Rightarrow> bool" where
  "float_reads rf fr q \<longleftrightarrow> list_all num_char (fr q) \<and> (\<forall>hooks x. delim x \<longrightarrow> (\<exists>c t. fr q = c # t \<and> c \<notin> {34, 91, 123})
     \<and> scan_scalar hooks rf (fr q @ x) = Some (PFloat (FFin q), x))"

fun readable :: "(rat \<Rightarrow> pfloat) \<Rightarrow> (rat \<Rightarrow> pystr) \<Rightarrow> pv \<Rightarrow> bool"
  and readables :: "(rat \<Rightarrow> pfloat) \<Rightarrow> (rat \<Rightarrow> pystr) \<Rightarrow> pv list \<Rightarrow> bool"
  and readable_items :: "(rat \<Rightarrow> pfloat) \<Rightarrow> (rat \<Rightarrow> pystr) \<Rightarrow> pdict \<Rightarrow> bool" where
  "readable rf fr (PFloat f) = (case f of FNegZero \<Rightarrow> True | FFin q \<Rightarrow> float_reads rf fr q | _ \<Rightarrow> False)"
| "readable rf fr (PList vs) = readables rf fr vs"
| "readable rf fr (PDict kvs) = (readable_items rf fr kvs \<and> distinct (map fst kvs))"
| "readable rf fr (PTuple vs) = False"
| "readable rf fr (PObj t s) = False"
| "readable rf fr _ = True"
| "readables rf fr [] = True"
| "readables rf fr (v # vs) = (readable rf fr v \<and> readables rf fr vs)"
| "readable_items rf fr [] = True"
| "readable_items rf fr ((k, v) # kvs) =
     ((case k of PStr _ \<Rightarrow> True | _ \<Rightarrow> False) \<and> readable rf fr v \<and> readable_items rf fr kvs)"

lemma scan_word_None:
  assumes "\<And>w v. (w, v) \<in> set ws \<Longrightarrow> w \<noteq> [] \<and> hd w \<noteq> hd s" "s \<noteq> []"
  shows "scan_word ws s = None"
proof -
  have "take (length w) s \<noteq> w" if "(w, v) \<in> set ws" for w v
    using assms(1) [OF that] assms(2) by (cases w; cases s) auto
  then have "find (\<lambda>(w, _). take (length w) s = w) ws = None" by (auto simp: find_None_iff)
  then show ?thesis by (simp add: scan_word_def)
qed

text \<open>A scalar text starts like no bracket, space or quote.\<close>

lemma scan_scalar_head:
  assumes "scan_scalar hooks rf (c # t) = Some r"
  shows "\<not> json_space c \<and> c \<noteq> 34 \<and> c \<noteq> 91 \<and> c \<noteq> 123 \<and> c \<noteq> 93 \<and> c \<noteq> 125"
proof (rule ccontr)
  assume n: "\<not> ?thesis"
  then have "scan_word json_words (c # t) = None" "scan_word json_constants (c # t) = None"
    by (auto intro!: scan_word_None simp: json_words_def json_constants_def str_def json_space_def)
  moreover have "fst (snd (number_parts (c # t))) = []"
    using n by (auto simp: number_parts_def Let_def int_part_def digit_def json_space_def)
  ultimately show False using assms by (auto simp: scan_scalar_def scan_number_def split: prod.splits)
qed

lemma scan_scalar_number:
  assumes "scan_number rf s = Some r" "s \<noteq> []" "hd s = 45 \<Longrightarrow> take 2 s \<noteq> [45, 73]"
  shows "scan_scalar hooks rf s = Some r"
proof -
  obtain c t where s: "s = c # t" using assms(2) by (cases s) auto
  have c: "c = 45 \<or> digit c"
    using assms(1) s by (auto simp: scan_number_def number_parts_def Let_def int_part_def digit_def
        split: if_splits)
  then have "scan_word json_words s = None"
    by (intro scan_word_None) (auto simp: s json_words_def str_def digit_def)
  moreover have "scan_word json_constants s = None"
    using c assms(3) by (cases t) (auto simp: s scan_word_def json_constants_def str_def digit_def)
  ultimately show ?thesis using assms(1) by (simp add: scan_scalar_def)
qed

lemma scalar_text:
  assumes "scalar v" "readable rf fr v" "delim x" "\<And>s. v \<noteq> PStr s"
  shows "scan_scalar hooks rf (json_text fr v @ x) = Some (v, x)" "json_text fr v \<noteq> []"
proof -
  show 1: "scan_scalar hooks rf (json_text fr v @ x) = Some (v, x)"
  proof (cases v)
    case (PInt i)
    have "take 2 (int_text i @ x) \<noteq> [45, 73]"
      using nat_text_digits [of "nat (- i)"] nat_text_digits [of "nat i"]
      by (cases "nat_text (nat (- i))"; cases "nat_text (nat i)") (auto simp: int_text_def)
    with PInt scan_int [OF assms(3)] int_text_num(2) show ?thesis
      by (auto intro!: scan_scalar_number)
  next
    case (PFloat f)
    then show ?thesis
    proof (cases f)
      case FNegZero
      have "take 2 (str ''-0.0'' @ x) \<noteq> [45, 73]" by (simp add: str_def)
      with PFloat FNegZero scan_neg_zero [OF assms(3)] show ?thesis by (auto intro!: scan_scalar_number)
    qed (use assms(2,3) PFloat in \<open>auto simp: float_reads_def\<close>)
  qed (use assms(1,4) in \<open>auto simp: scan_scalar_def scan_word_def json_words_def str_def\<close>)
  then show "json_text fr v \<noteq> []"
  proof (cases v)
    case (PFloat f)
    with assms(2,3) show ?thesis by (cases f) (auto simp: float_reads_def)
  qed (use assms(1,4) int_text_num(2) in auto)
qed

lemma readable_head:
  assumes "readable rf fr v"
  shows "\<exists>c t. json_text fr v = c # t \<and> \<not> json_space c \<and> c \<noteq> 93 \<and> c \<noteq> 125"
proof (cases "scalar v \<and> (\<forall>s. v \<noteq> PStr s)")
  case True
  obtain c t where c: "json_text fr v = c # t"
    using scalar_text(2) [of v rf fr "[]"] True assms by (cases "json_text fr v") auto
  with scalar_text(1) [of v rf fr "[]"] True assms scan_scalar_head show ?thesis by fastforce
next
  case False
  with assms show ?thesis by (cases v) (auto simp: string_text_def json_space_def)
qed

lemma skip_space_head: "\<not> json_space c \<Longrightarrow> skip_space (c # t) = c # t"
  by (simp add: skip_space_def)

lemma make_object_distinct:
  assumes "distinct (map fst ps)"
  shows "make_object hooks ps = Some ps"
proof -
  have u: "AList.update k v d = d @ [(k, v)]" if "k \<notin> fst ` set d" for k v and d :: pdict
    using that by (induction d) auto
  have "distinct (map fst (d @ ps)) \<Longrightarrow> foldl (\<lambda>d (k, v). AList.update k v d) d ps = d @ ps" for d
  proof (induction ps arbitrary: d)
    case (Cons p ps)
    then show ?case using u [of "fst p" d "snd p"] by (cases p) simp
  qed simp
  from this [of "[]"] assms show ?thesis by (simp add: make_object_def)
qed

theorem parse_text:
  "readable rf fr v \<Longrightarrow> delim x \<Longrightarrow> 2 * length (json_text fr v @ x) < n \<Longrightarrow>
     parse_value hooks rf n (json_text fr v @ x) = Some (v, x)"
  "readables rf fr vs \<Longrightarrow> vs \<noteq> [] \<Longrightarrow> 2 * length (json_texts fr vs @ 93 # x) + 1 < n \<Longrightarrow>
     parse_elements hooks rf n (json_texts fr vs @ 93 # x) = Some (vs, x)"
  "readable_items rf fr kvs \<Longrightarrow> kvs \<noteq> [] \<Longrightarrow> 2 * length (json_items fr kvs @ 125 # x) + 1 < n \<Longrightarrow>
     parse_members hooks rf n (json_items fr kvs @ 125 # x) = Some (kvs, x)"
proof (induction n arbitrary: v vs kvs x)
  case (Suc n)
  {
    case 1
    show ?case
    proof (cases v)
      case (PStr s)
      then show ?thesis using scan_string_text [of s x] by (simp add: string_text_def)
    next
      case (PList vs)
      show ?thesis
      proof (cases vs)
        case Nil
        with PList show ?thesis by (simp add: skip_space_head json_space_def)
      next
        case (Cons w ws)
        obtain c t where h: "json_texts fr vs @ 93 # x = c # t" "\<not> json_space c" "c \<noteq> 93"
          using readable_head [of rf fr w] 1(1) PList Cons by auto
        have "parse_elements hooks rf n (json_texts fr vs @ 93 # x) = Some (vs, x)"
          by (rule Suc.IH(2)) (use 1 PList Cons in simp_all)
        with PList h show ?thesis by (simp add: skip_space_head)
      qed
    next
      case (PDict kvs)
      show ?thesis
      proof (cases kvs)
        case Nil
        with PDict show ?thesis by (simp add: skip_space_head json_space_def)
      next
        case (Cons w ws)
        have h: "\<exists>t. json_items fr kvs @ 125 # x = 34 # t"
          using Cons by (cases w) (simp add: string_text_def)
        have "parse_members hooks rf n (json_items fr kvs @ 125 # x) = Some (kvs, x)"
          by (rule Suc.IH(3)) (use 1 PDict Cons in simp_all)
        moreover have "make_object hooks kvs = Some kvs"
          using 1(1) PDict by (intro make_object_distinct) simp
        ultimately show ?thesis using PDict h by (auto simp: skip_space_head json_space_def)
      qed
    next
      case PNone
      with 1 scalar_text(1) [of v rf fr x hooks] scalar_text(2) [of v rf fr x] show ?thesis
        by (cases "json_text fr v") (auto dest: scan_scalar_head)
    next
      case (PBool b)
      with 1 scalar_text(1) [of v rf fr x hooks] scalar_text(2) [of v rf fr x] show ?thesis
        by (cases "json_text fr v") (auto dest: scan_scalar_head)
    next
      case (PInt i)
      with 1 scalar_text(1) [of v rf fr x hooks] scalar_text(2) [of v rf fr x] show ?thesis
        by (cases "json_text fr v") (auto dest: scan_scalar_head)
    next
      case (PFloat f)
      with 1 scalar_text(1) [of v rf fr x hooks] scalar_text(2) [of v rf fr x] show ?thesis
        by (cases "json_text fr v") (auto dest: scan_scalar_head)
    qed (use 1 in simp_all)
  next
    case 2
    then obtain w ws where vs: "vs = w # ws" by (cases vs) auto
    let ?r = "(if ws = [] then 93 # x else 44 # json_texts fr ws @ 93 # x)"
    have t: "json_texts fr vs @ 93 # x = json_text fr w @ ?r" by (simp add: vs)
    have v: "parse_value hooks rf n (json_text fr w @ ?r) = Some (w, ?r)"
      by (rule Suc.IH(1)) (use 2 vs in \<open>auto split: if_splits\<close>)
    show ?case
    proof (cases ws)
      case Nil
      with v show ?thesis unfolding t by (simp add: vs skip_space_head json_space_def)
    next
      case (Cons y ys)
      have "parse_elements hooks rf n (json_texts fr ws @ 93 # x) = Some (ws, x)"
        by (rule Suc.IH(2)) (use 2 vs Cons in auto)
      moreover obtain c u where "json_texts fr ws @ 93 # x = c # u" "\<not> json_space c"
        using readable_head [of rf fr y] 2(1) vs Cons by auto
      ultimately show ?thesis using v Cons unfolding t by (simp add: vs skip_space_head json_space_def)
    qed
  next
    case 3
    then obtain k w ws where kvs: "kvs = (PStr k, w) # ws" by (cases kvs) (auto split: pv.splits)
    let ?r = "(if ws = [] then 125 # x else 44 # json_items fr ws @ 125 # x)"
    have t: "json_items fr kvs @ 125 # x = 34 # concat (map escape_char k) @ 34 # 58 # json_text fr w @ ?r"
      by (simp add: kvs string_text_def)
    have v: "parse_value hooks rf n (json_text fr w @ ?r) = Some (w, ?r)"
      by (rule Suc.IH(1)) (use 3 kvs in \<open>auto split: if_splits\<close>)
    obtain c u where h: "json_text fr w = c # u" "\<not> json_space c"
      using readable_head [of rf fr w] 3(1) kvs by auto
    have sk: "skip_space (json_text fr w @ ?r) = json_text fr w @ ?r"
      "skip_space (58 # json_text fr w @ ?r) = 58 # json_text fr w @ ?r"
      using h by (simp_all add: skip_space_head json_space_def)
    show ?case
    proof (cases ws)
      case Nil
      with v sk show ?thesis unfolding t
        by (simp add: kvs skip_space_head json_space_def scan_string_text)
    next
      case (Cons y ys)
      have "parse_members hooks rf n (json_items fr ws @ 125 # x) = Some (ws, x)"
        by (rule Suc.IH(3)) (use 3 kvs Cons in auto)
      moreover obtain u where "json_items fr ws @ 125 # x = 34 # u"
        using Cons by (cases y) (simp add: string_text_def)
      ultimately show ?thesis using v sk Cons unfolding t
        by (simp add: kvs skip_space_head json_space_def scan_string_text)
    qed
  }
qed simp_all

theorem loads_text:
  assumes "readable rf fr v"
  shows "json_loads hooks rf (json_text fr v) = Some v"
proof -
  obtain c t where h: "json_text fr v = c # t" "\<not> json_space c" using readable_head [OF assms] by blast
  have p: "parse_value hooks rf (Suc (2 * length (json_text fr v))) (json_text fr v) = Some (v, [])"
    using parse_text(1) [OF assms, of "[]" "Suc (2 * length (json_text fr v))" hooks]
    by (simp del: parse_value.simps)
  have "c \<noteq> 65279"
  proof
    assume "c = 65279"
    then have "scan_scalar hooks rf (c # t) = None"
      by (auto simp: scan_scalar_def scan_word_def json_words_def json_constants_def str_def
          scan_number_def number_parts_def int_part_def digit_def Let_def)
    with p h \<open>c = 65279\<close> show False by simp
  qed
  with h p show ?thesis by (simp add: json_loads_def skip_space_head skip_space_def)
qed

end
