(* ===== verification/Rpr_Framing.thy ===== *)
theory Rpr_Framing
  imports Rpr_Parse
begin

text \<open>
  \<open>mcp_stdio_framing.py\<close>: the codec that frames JSON objects one per line, and the bounded
  collector of diagnostics. The lemmas: what the codec buffers is bounded; a poisoned codec
  stays so; the messages of a stream do not depend on how it is cut into chunks; and what is
  encoded is decoded again, whatever the chunks.
\<close>

section \<open>The codec\<close>

record codec =
  max_message_bytes :: nat
  codec_buffer :: "nat list"
  poisoned :: bool

definition make_codec :: "int \<Rightarrow> codec res" where
  "make_codec limit = (if limit \<le> 0 then err ValueError ''max_message_bytes must be positive''
     else Inr \<lparr>max_message_bytes = nat limit, codec_buffer = [], poisoned = False\<rparr>)"

definition utf8_bom :: "nat list" where
  "utf8_bom = [239, 187, 191]"

definition codec_fail :: "exn \<Rightarrow> (codec, 'a) py" where
  "codec_fail e = (\<lambda>s. (Inl e, s\<lparr>poisoned := True, codec_buffer := []\<rparr>))"

abbreviation framing_error :: "string \<Rightarrow> exn" where
  "framing_error m \<equiv> Exn McpStdioFramingError (str m)"

definition require_healthy :: "(codec, unit) py" where
  "require_healthy = (\<lambda>s. if poisoned s
     then (Inl (framing_error ''stdio codec is poisoned after a prior framing failure''), s) else (Inr (), s))"

text \<open>What \<open>allow_nan=False\<close> accepts.\<close>

fun finite_doc :: "pv \<Rightarrow> bool"
  and finite_docs :: "pv list \<Rightarrow> bool"
  and finite_items :: "pdict \<Rightarrow> bool" where
  "finite_doc (PFloat f) = is_finite f"
| "finite_doc (PList vs) = finite_docs vs"
| "finite_doc (PTuple vs) = finite_docs vs"
| "finite_doc (PDict kvs) = finite_items kvs"
| "finite_doc _ = True"
| "finite_docs [] = True"
| "finite_docs (v # vs) = (finite_doc v \<and> finite_docs vs)"
| "finite_items [] = True"
| "finite_items ((k, v) # kvs) = (finite_doc v \<and> finite_items kvs)"

text \<open>
  \<open>encode\<close>: a surrogate in the message raises \<open>UnicodeEncodeError\<close> past the handler, and the
  codec stays healthy.
\<close>

definition encode_message :: "(rat \<Rightarrow> pystr) \<Rightarrow> pv \<Rightarrow> (codec, nat list) py" where
  "encode_message fr message = seq require_healthy (\<lambda>s.
     (case message of
        PDict kvs \<Rightarrow>
          (case to_doc message of
             Inl e \<Rightarrow> (if catches [TypeError, ValueError] e
               then codec_fail (framing_error ''stdio message is not strict JSON'') else throw e)
           | Inr d \<Rightarrow>
              (if \<not> finite_doc d then codec_fail (framing_error ''stdio message is not strict JSON'')
               else bnd (lift (utf8_encode (json_text fr d))) (\<lambda>payload.
                 if take 3 payload = utf8_bom
                 then codec_fail (framing_error ''stdio message must not contain a UTF-8 BOM'')
                 else if length payload > max_message_bytes s
                 then codec_fail (framing_error ''stdio message exceeds max_message_bytes'')
                 else ret (payload @ [10]))))
      | _ \<Rightarrow> codec_fail (framing_error ''stdio message must be an object'')) s)"

definition decode_line :: "(rat \<Rightarrow> pfloat) \<Rightarrow> nat \<Rightarrow> nat list \<Rightarrow> pdict res" where
  "decode_line rf limit line =
     (if line = [] then Inl (framing_error ''empty stdio lines are not allowed'')
      else if length line > limit then Inl (framing_error ''stdio message exceeds max_message_bytes'')
      else if take 3 line = utf8_bom then Inl (framing_error ''stdio message must not contain a UTF-8 BOM'')
      else case utf8_decode line of
          None \<Rightarrow> Inl (framing_error ''stdio message is not valid UTF-8'')
        | Some s \<Rightarrow> (case json_loads Strict rf s of
            None \<Rightarrow> Inl (framing_error ''stdio message is not strict JSON'')
          | Some (PDict d) \<Rightarrow> Inr d
          | Some _ \<Rightarrow> Inl (framing_error ''stdio JSON message must be an object'')))"

text \<open>The loop of \<open>feed\<close>: the messages of the complete lines, and what is left.\<close>

function decode_lines :: "(rat \<Rightarrow> pfloat) \<Rightarrow> nat \<Rightarrow> nat list \<Rightarrow> (pdict list \<times> nat list) res" where
  "decode_lines rf limit b =
     (if 10 \<notin> set b then Inr ([], b)
      else rbind (decode_line rf limit (takeWhile (\<lambda>c. c \<noteq> 10) b)) (\<lambda>m.
        rbind (decode_lines rf limit (tl (dropWhile (\<lambda>c. c \<noteq> 10) b))) (\<lambda>(ms, r). Inr (m # ms, r))))"
  by auto
termination
proof (relation "measure (\<lambda>(_, _, b). length b)", simp, goal_cases)
  case (1 rf limit b x)
  then have "dropWhile (\<lambda>c. c \<noteq> 10) b \<noteq> []" by (auto simp: dropWhile_eq_Nil_conv)
  moreover have "length (dropWhile (\<lambda>c. c \<noteq> 10) b) \<le> length b" by (rule length_dropWhile_le)
  ultimately show ?case by (cases "dropWhile (\<lambda>c. c \<noteq> 10) b") auto
qed

declare decode_lines.simps [simp del]

lemma decode_lines_done: "10 \<notin> set b \<Longrightarrow> decode_lines rf limit b = Inr ([], b)"
  by (subst decode_lines.simps) simp

text \<open>\<open>feed\<close>; \<open>None\<close> is a chunk that is not bytes-like.\<close>

definition feed :: "(rat \<Rightarrow> pfloat) \<Rightarrow> nat list option \<Rightarrow> (codec, pdict list) py" where
  "feed rf chunk = seq require_healthy (case chunk of
       None \<Rightarrow> codec_fail (framing_error ''stdio chunk must be bytes-like'')
     | Some v \<Rightarrow> if v = [] then ret [] else (\<lambda>s.
         let b = codec_buffer s @ v; long = framing_error ''unterminated stdio message exceeds max_message_bytes'' in
         if 10 \<notin> set b \<and> length b > max_message_bytes s then codec_fail long s
         else case decode_lines rf (max_message_bytes s) b of
             Inl e \<Rightarrow> codec_fail e s
           | Inr (ms, r) \<Rightarrow>
               (if length r > max_message_bytes s then codec_fail long s
                else (Inr ms, s\<lparr>codec_buffer := r\<rparr>))))"

definition finish_stream :: "(codec, unit) py" where
  "finish_stream = seq require_healthy (\<lambda>s. if codec_buffer s \<noteq> []
     then codec_fail (framing_error ''stdio stream ended with an unterminated message'') s else (Inr (), s))"

section \<open>Diagnostics\<close>

record diagnostics =
  max_diagnostic_bytes :: nat
  diagnostic_buffer :: "nat list"
  truncated :: bool

definition feed_diagnostics :: "nat list \<Rightarrow> diagnostics \<Rightarrow> diagnostics" where
  "feed_diagnostics v s =
     (if max_diagnostic_bytes s \<le> length (diagnostic_buffer s)
      then s\<lparr>truncated := truncated s \<or> v \<noteq> []\<rparr>
      else let remaining = max_diagnostic_bytes s - length (diagnostic_buffer s) in
        s\<lparr>diagnostic_buffer := diagnostic_buffer s @ take remaining v,
          truncated := truncated s \<or> length v > remaining\<rparr>)"

lemma feed_diagnostics_take:
  assumes "length (diagnostic_buffer s) \<le> max_diagnostic_bytes s"
  shows "feed_diagnostics v s = s\<lparr>
      diagnostic_buffer := take (max_diagnostic_bytes s) (diagnostic_buffer s @ v),
      truncated := truncated s \<or> length (diagnostic_buffer s @ v) > max_diagnostic_bytes s\<rparr>"
  using assms by (cases s) (auto simp: feed_diagnostics_def Let_def)

text \<open>The collector keeps the first bytes of all that it was fed, and knows whether it lost any.\<close>

lemma feed_diagnostics_all:
  assumes "length (diagnostic_buffer s) \<le> max_diagnostic_bytes s"
  shows "fold feed_diagnostics vs s = s\<lparr>
      diagnostic_buffer := take (max_diagnostic_bytes s) (diagnostic_buffer s @ concat vs),
      truncated := truncated s \<or> length (diagnostic_buffer s @ concat vs) > max_diagnostic_bytes s\<rparr>"
  using assms
proof (induction vs arbitrary: s)
  case (Cons v vs)
  obtain m b t where s: "s = \<lparr>max_diagnostic_bytes = m, diagnostic_buffer = b, truncated = t\<rparr>"
    by (cases s)
  show ?case
    using Cons.IH [of "feed_diagnostics v s"] Cons.prems
    by (simp add: feed_diagnostics_take s) (auto simp: min_def)
qed simp

section \<open>What the codec keeps\<close>

text \<open>The buffer is bounded, holds no complete line, and is empty once the codec is poisoned.\<close>

definition codec_ok :: "codec \<Rightarrow> bool" where
  "codec_ok s \<longleftrightarrow> length (codec_buffer s) \<le> max_message_bytes s \<and> 10 \<notin> set (codec_buffer s)
     \<and> (poisoned s \<longrightarrow> codec_buffer s = [])"

lemma decode_lines_rest: "decode_lines rf limit b = Inr (ms, r) \<Longrightarrow> 10 \<notin> set r"
proof (induction rf limit b arbitrary: ms rule: decode_lines.induct)
  case (1 rf limit b)
  show ?case
  proof (cases "10 \<in> set b")
    case True
    with "1.prems" obtain ns where
      "decode_lines rf limit (tl (dropWhile (\<lambda>c. c \<noteq> 10) b)) = Inr (ns, r)"
      by (subst (asm) decode_lines.simps) (auto simp: rbind_eq_Inr)
    with "1.IH" True show ?thesis by blast
  qed (use "1.prems" in \<open>subst (asm) decode_lines.simps, simp\<close>)
qed

text \<open>Decoding more bytes continues where decoding stopped.\<close>

lemma decode_lines_append:
  "decode_lines rf limit (b @ c) = rbind (decode_lines rf limit b) (\<lambda>(ms, r).
     rbind (decode_lines rf limit (r @ c)) (\<lambda>(ns, r'). Inr (ms @ ns, r')))"
proof (induction rf limit b rule: decode_lines.induct)
  case (1 rf limit b)
  show ?case
  proof (cases "10 \<in> set b")
    case False
    then have "decode_lines rf limit b = Inr ([], b)" by (subst decode_lines.simps) simp
    then show ?thesis by (simp add: rbind_def split: sum.splits)
  next
    case True
    then have d: "takeWhile (\<lambda>x. x \<noteq> 10) (b @ c) = takeWhile (\<lambda>x. x \<noteq> 10) b"
      "dropWhile (\<lambda>x. x \<noteq> 10) (b @ c) = dropWhile (\<lambda>x. x \<noteq> 10) b @ c"
      "tl (dropWhile (\<lambda>x. x \<noteq> 10) b @ c) = tl (dropWhile (\<lambda>x. x \<noteq> 10) b) @ c"
      by (auto simp: takeWhile_append dropWhile_append dropWhile_eq_Nil_conv tl_append split: list.split)
    show ?thesis
      using True "1.IH" d
      by (subst (1 2) decode_lines.simps) (auto simp: rbind_def split: sum.splits)
  qed
qed

text \<open>A feed that succeeds decodes the lines of the buffer and the chunk.\<close>

lemma feed_ok:
  assumes "codec_ok s"
  shows "feed rf (Some c) s = (Inr ms, t) \<longleftrightarrow> \<not> poisoned s
     \<and> (\<exists>r. decode_lines rf (max_message_bytes s) (codec_buffer s @ c) = Inr (ms, r)
          \<and> length r \<le> max_message_bytes s \<and> t = s\<lparr>codec_buffer := r\<rparr>)"
proof (cases "poisoned s")
  case False
  have quiet: "decode_lines rf l b = Inr ([], b)" if "10 \<notin> set b" for l b
    using that by (subst decode_lines.simps) simp
  show ?thesis
  proof (cases "c = []")
    case True
    with False assms quiet [of "codec_buffer s"] show ?thesis
      by (auto simp: feed_def require_healthy_def seq_def bnd_def codec_ok_def)
  next
    case c: False
    with False assms show ?thesis
      using quiet [of "codec_buffer s @ c"]
      by (cases "decode_lines rf (max_message_bytes s) (codec_buffer s @ c)")
        (auto simp: feed_def require_healthy_def seq_def bnd_def codec_fail_def Let_def split: if_splits)
  qed
qed (simp add: feed_def require_healthy_def seq_def bnd_def)

lemma feed_error:
  assumes "feed rf c s = (Inl e, t)" "codec_ok s"
  shows "t = s\<lparr>poisoned := True, codec_buffer := []\<rparr> \<and> exn_kind e = McpStdioFramingError"
proof -
  have "exn_kind x = McpStdioFramingError" if "decode_lines rf l b = Inl x" for l b x
    using that
  proof (induction rf l b rule: decode_lines.induct)
    case (1 rf l b)
    have "exn_kind x = McpStdioFramingError" if "decode_line rf l y = Inl x" for y
      using that by (auto simp: decode_line_def split: if_splits option.splits pv.splits)
    with 1 show ?case by (subst (asm) (2) decode_lines.simps) (auto simp: rbind_def split: if_splits sum.splits)
  qed
  with assms show ?thesis
    by (cases "poisoned s"; cases c; cases s)
      (auto simp: feed_def require_healthy_def seq_def bnd_def codec_fail_def Let_def codec_ok_def
        split: if_splits sum.splits prod.splits)
qed

lemma feed_keeps: "keeps codec_ok (feed rf c)"
proof (unfold keeps_def, intro allI impI)
  fix s :: codec assume s: "codec_ok s"
  show "codec_ok (snd (feed rf c s))"
  proof (cases "feed rf c s")
    case (Pair r t)
    show ?thesis
    proof (cases r)
      case (Inl e)
      with feed_error Pair s show ?thesis by (fastforce simp: codec_ok_def)
    next
      case (Inr ms)
      then obtain v where c: "c = Some v" using Pair
        by (cases c) (auto simp: feed_def require_healthy_def seq_def bnd_def codec_fail_def split: if_splits)
      from Pair Inr have "feed rf (Some v) s = (Inr ms, t)" by (simp add: c)
      then obtain b where "decode_lines rf (max_message_bytes s) (codec_buffer s @ v) = Inr (ms, b)"
        "\<not> poisoned s" "length b \<le> max_message_bytes s" "t = s\<lparr>codec_buffer := b\<rparr>"
        unfolding feed_ok [OF s] by blast
      with Pair show ?thesis by (simp add: codec_ok_def decode_lines_rest)
    qed
  qed
qed

text \<open>Cutting a chunk in two changes nothing.\<close>

lemma feed_append:
  assumes s: "codec_ok s"
  shows "feed rf (Some (c @ d)) s = (Inr ms, t) \<longleftrightarrow>
     (\<exists>m1 m2 u. feed rf (Some c) s = (Inr m1, u) \<and> feed rf (Some d) u = (Inr m2, t) \<and> ms = m1 @ m2)"
  (is "?L \<longleftrightarrow> ?R")
proof
  let ?l = "max_message_bytes s" and ?b = "codec_buffer s"
  assume ?L
  then have h: "\<not> poisoned s" and "\<exists>r. decode_lines rf ?l ((?b @ c) @ d) = Inr (ms, r) \<and> length r \<le> ?l
      \<and> t = s\<lparr>codec_buffer := r\<rparr>"
    by (auto simp: feed_ok [OF s])
  then obtain r m1 r1 m2 where d: "decode_lines rf ?l (?b @ c) = Inr (m1, r1)"
    "decode_lines rf ?l (r1 @ d) = Inr (m2, r)" "ms = m1 @ m2" "length r \<le> ?l" "t = s\<lparr>codec_buffer := r\<rparr>"
    unfolding decode_lines_append [of _ _ "?b @ c"] by (auto simp: rbind_eq_Inr)
  have "length r1 \<le> ?l"
  proof (rule ccontr)
    assume long: "\<not> length r1 \<le> ?l"
    have n: "10 \<notin> set r1" by (rule decode_lines_rest [OF d(1)])
    show False
    proof (cases "10 \<in> set d")
      case True
      then have "length (takeWhile (\<lambda>x. x \<noteq> 10) (r1 @ d)) > ?l"
        using long n by (simp add: takeWhile_append)
      then have "\<exists>e. decode_lines rf ?l (r1 @ d) = Inl e"
        using True by (subst decode_lines.simps) (auto simp: decode_line_def)
      with d(2) show False by simp
    next
      case False
      then have "decode_lines rf ?l (r1 @ d) = Inr ([], r1 @ d)" using n by (subst decode_lines.simps) simp
      with d(2) have "r = r1 @ d" by simp
      with d(4) long show False by simp
    qed
  qed
  with d h show ?R
    using feed_ok [OF s, of rf c] feed_ok [of "s\<lparr>codec_buffer := r1\<rparr>" rf d] decode_lines_rest [OF d(1)]
    by (intro exI [of _ m1] exI [of _ m2] exI [of _ "s\<lparr>codec_buffer := r1\<rparr>"]) (simp add: codec_ok_def)
next
  assume ?R
  then obtain m1 m2 u where u: "feed rf (Some c) s = (Inr m1, u)" "feed rf (Some d) u = (Inr m2, t)"
    "ms = m1 @ m2" by blast
  have "codec_ok u" using keepsD [OF feed_keeps s u(1)] .
  from u(2) [unfolded feed_ok [OF this]] u(1) [unfolded feed_ok [OF s]] u(3) show ?L
    unfolding feed_ok [OF s]
    by (auto simp: decode_lines_append [of _ _ "codec_buffer s @ c" d, simplified])
qed

text \<open>Any number of chunks; the first failure stops.\<close>

fun feed_all :: "(rat \<Rightarrow> pfloat) \<Rightarrow> nat list list \<Rightarrow> (codec, pdict list) py" where
  "feed_all rf [] = ret []"
| "feed_all rf (c # cs) = bnd (feed rf (Some c)) (\<lambda>ms. bnd (feed_all rf cs) (\<lambda>ns. ret (ms @ ns)))"

lemma feed_all_concat:
  assumes "codec_ok s" "\<not> poisoned s"
  shows "feed_all rf cs s = (Inr ms, t) \<longleftrightarrow> feed rf (Some (concat cs)) s = (Inr ms, t)"
  using assms
proof (induction cs arbitrary: s ms)
  case Nil
  then show ?case
    by (auto simp: feed_def require_healthy_def seq_def bnd_def)
next
  case (Cons c cs)
  have u: "codec_ok u \<and> \<not> poisoned u" if "feed rf (Some c) s = (Inr m, u)" for m u
    using keepsD [OF feed_keeps Cons.prems(1) that] that [unfolded feed_ok [OF Cons.prems(1)]] by auto
  have "feed_all rf (c # cs) s = (Inr ms, t) \<longleftrightarrow> (\<exists>m1 m2 u. feed rf (Some c) s = (Inr m1, u)
      \<and> feed_all rf cs u = (Inr m2, t) \<and> ms = m1 @ m2)"
    by (auto simp: bnd_def split: prod.splits sum.splits)
  also have "\<dots> \<longleftrightarrow> (\<exists>m1 m2 u. feed rf (Some c) s = (Inr m1, u)
      \<and> feed rf (Some (concat cs)) u = (Inr m2, t) \<and> ms = m1 @ m2)"
    using Cons.IH u by blast
  also have "\<dots> \<longleftrightarrow> feed rf (Some (concat (c # cs))) s = (Inr ms, t)"
    by (simp add: feed_append [OF Cons.prems(1)])
  finally show ?case .
qed

section \<open>What is encoded is decoded\<close>

lemma readable_doc:
  "readable rf fr v \<Longrightarrow> is_doc v \<and> finite_doc v \<and> 10 \<notin> set (json_text fr v)"
  "readables rf fr vs \<Longrightarrow> are_docs vs \<and> finite_docs vs \<and> 10 \<notin> set (json_texts fr vs)"
  "readable_items rf fr kvs \<Longrightarrow> items_doc kvs \<and> finite_items kvs \<and> 10 \<notin> set (json_items fr kvs)"
proof -
  have esc: "10 \<notin> set (escape_char c)" for c by (auto simp: escape_char_def hex_digit_def)
  then have str: "10 \<notin> set (string_text s)" for s by (auto simp: string_text_def)
  have int: "10 \<notin> set (int_text i)" for i
    using int_text_num(1) [of i] by (auto simp: list_all_iff num_char_def)
  have flt: "float_reads g f q \<Longrightarrow> 10 \<notin> set (f q)" for g f q
    by (auto simp: float_reads_def list_all_iff num_char_def)
  show "readable rf fr v \<Longrightarrow> is_doc v \<and> finite_doc v \<and> 10 \<notin> set (json_text fr v)"
    "readables rf fr vs \<Longrightarrow> are_docs vs \<and> finite_docs vs \<and> 10 \<notin> set (json_texts fr vs)"
    "readable_items rf fr kvs \<Longrightarrow> items_doc kvs \<and> finite_items kvs \<and> 10 \<notin> set (json_items fr kvs)"
    by (induction rf fr v and rf fr vs and rf fr kvs rule: readable_readables_readable_items.induct)
      (auto simp: str int esc dest: flt simp: str_def [of "''-0.0''"] str_def [of "''null''"] str_def [of "''true''"]
        str_def [of "''false''"] split: pfloat.splits pv.splits)
qed

lemma utf8_newline: "10 \<in> set (concat (map utf8_char s)) \<longleftrightarrow> 10 \<in> set s"
proof -
  have "10 \<in> set (utf8_char c) \<longleftrightarrow> c = 10" for c by (auto simp: utf8_char_def)
  then show ?thesis by auto
qed

text \<open>
  A message that goes over the wire unchanged: it reads back, it is encodable, and its
  characters are code points.
\<close>

definition wire_ok :: "(rat \<Rightarrow> pfloat) \<Rightarrow> (rat \<Rightarrow> pystr) \<Rightarrow> pdict \<Rightarrow> bool" where
  "wire_ok rf fr m \<longleftrightarrow> readable rf fr (PDict m)
     \<and> list_all (\<lambda>c. \<not> surrogate c \<and> c \<le> 1114111) (json_text fr (PDict m))"

lemma encode_frame:
  assumes "wire_ok rf fr m" "encode_message fr (PDict m) s = (Inr f, t)"
  shows "t = s \<and> \<not> poisoned s \<and> (\<exists>p. f = p @ [10] \<and> 10 \<notin> set p \<and> decode_line rf (max_message_bytes s) p = Inr m)"
proof -
  let ?t = "json_text fr (PDict m)"
  have r: "readable rf fr (PDict m)" and d: "is_doc (PDict m)" "finite_doc (PDict m)" "10 \<notin> set ?t"
    using assms(1) readable_doc(1) [of rf fr "PDict m"] by (auto simp: wire_ok_def)
  have u: "utf8_encode ?t = Inr (concat (map utf8_char ?t))" "list_all (\<lambda>c. c \<le> 1114111) ?t"
    using assms(1) by (auto simp: wire_ok_def utf8_encode_def list_ex_iff list_all_iff)
  let ?p = "concat (map utf8_char ?t)"
  have hd: "?p = 123 # tl ?p" by (simp add: utf8_char_def)
  then have bom: "take 3 ?p \<noteq> utf8_bom" "?p \<noteq> []" by (cases ?p; auto simp: utf8_bom_def)+
  have e: "encode_message fr (PDict m) s = (if poisoned s then
      (Inl (framing_error ''stdio codec is poisoned after a prior framing failure''), s)
      else if length ?p > max_message_bytes s
      then codec_fail (framing_error ''stdio message exceeds max_message_bytes'') s else (Inr (?p @ [10]), s))"
    using d u(1) bom to_doc_doc(1) [OF d(1)]
    by (simp add: encode_message_def require_healthy_def seq_def bnd_def del: json_text.simps)
  with assms(2) have f: "\<not> poisoned s" "length ?p \<le> max_message_bytes s" "f = ?p @ [10]" "t = s"
    by (auto simp: codec_fail_def split: if_splits)
  have "decode_line rf (max_message_bytes s) ?p = Inr m"
    using bom f(2) utf8_decode_encode [OF u] loads_text [OF r, of Strict]
    by (simp add: decode_line_def del: json_text.simps)
  moreover have "10 \<notin> set ?p" using d(3) utf8_newline [of ?t] by simp
  ultimately show ?thesis using f by blast
qed

fun encode_all :: "(rat \<Rightarrow> pystr) \<Rightarrow> pdict list \<Rightarrow> (codec, nat list list) py" where
  "encode_all fr [] = ret []"
| "encode_all fr (m # ms) = bnd (encode_message fr (PDict m)) (\<lambda>f. bnd (encode_all fr ms) (\<lambda>fs. ret (f # fs)))"

lemma decode_frames:
  assumes "encode_all fr ms s = (Inr fs, t)" "list_all (wire_ok rf fr) ms"
  shows "decode_lines rf (max_message_bytes s) (concat fs) = Inr (ms, [])"
  using assms
proof (induction ms arbitrary: fs)
  case Nil
  then have "fs = []" by simp
  then show ?case using Nil by (subst decode_lines.simps) simp
next
  case (Cons m ms)
  from Cons.prems(1) obtain f u gs where f: "encode_message fr (PDict m) s = (Inr f, u)"
    "encode_all fr ms u = (Inr gs, t)" "fs = f # gs"
    by (auto simp: bnd_def split: prod.splits sum.splits)
  from encode_frame [OF _ f(1), of rf] Cons.prems(2) obtain p where p: "u = s" "f = p @ [10]" "10 \<notin> set p"
    "decode_line rf (max_message_bytes s) p = Inr m" by auto
  have "takeWhile (\<lambda>x. x \<noteq> 10) (concat fs) = p" "dropWhile (\<lambda>x. x \<noteq> 10) (concat fs) = 10 # concat gs"
    "10 \<in> set (concat fs)"
    using p(2,3) f(3) by (auto simp: takeWhile_append dropWhile_append)
  moreover have "decode_lines rf (max_message_bytes s) (concat gs) = Inr (ms, [])"
    using Cons.IH [of gs] f(2) p(1) Cons.prems(2) by simp
  ultimately show ?case using p(4) by (subst decode_lines.simps) simp
qed

section \<open>Properties\<close>

lemma finish_keeps: "keeps codec_ok finish_stream"
  by (auto simp: keeps_def finish_stream_def require_healthy_def seq_def bnd_def codec_fail_def codec_ok_def)

lemma encode_keeps: "keeps codec_ok (encode_message fr m)"
  by (auto simp: keeps_def encode_message_def require_healthy_def seq_def comb_defs codec_fail_def codec_ok_def
      split: pv.splits sum.splits)

text \<open>
  C22. Whatever is fed to the codec or encoded by it, it never buffers more than its limit nor
  a complete line, and it drops its buffer when it is poisoned; a poisoned codec yields no
  message any more.
\<close>

theorem codec_bounded:
  assumes "codec_ok s"
  shows "codec_ok (snd (feed rf c s)) \<and> codec_ok (snd (encode_message fr m s)) \<and> codec_ok (snd (finish_stream s))
    \<and> (poisoned s \<longrightarrow> (\<exists>e. feed rf c s = (Inl e, s)) \<and> (\<exists>e. encode_message fr m s = (Inl e, s))
        \<and> (\<exists>e. finish_stream s = (Inl e, s)))"
  using assms feed_keeps [of rf c] encode_keeps [of fr m] finish_keeps
  by (auto simp: keeps_def) (simp_all add: feed_def encode_message_def finish_stream_def require_healthy_def
      seq_def bnd_def)

definition demo_codec :: codec where
  "demo_codec = \<lparr>max_message_bytes = 100, codec_buffer = [123], poisoned = False\<rparr>"

theorem codec_bounded_witness:
  "codec_ok (snd (feed (\<lambda>_. FFin 0) (Some [125, 10, 34]) demo_codec))"
  using codec_bounded [of demo_codec "\<lambda>_. FFin 0" "Some [125, 10, 34]"]
  by (simp add: codec_ok_def demo_codec_def)

text \<open>
  The messages of a byte stream do not depend on how it is cut into chunks: feeding the
  chunks one after another succeeds exactly when feeding their concatenation does, with the
  same messages and the same codec afterwards.
\<close>

theorem chunks_do_not_matter:
  assumes "codec_ok s" "\<not> poisoned s"
  shows "feed_all rf cs s = (Inr ms, t) \<longleftrightarrow> feed rf (Some (concat cs)) s = (Inr ms, t)"
  by (rule feed_all_concat [OF assms])

theorem chunks_do_not_matter_witness:
  "feed_all (\<lambda>_. FFin 0) [[125], [], [10]] demo_codec = (Inr [[]], demo_codec\<lparr>codec_buffer := []\<rparr>)"
proof -
  have l: "decode_line (\<lambda>_. FFin 0) 100 [123, 125] = Inr []"
  proof -
    have "parse_value Strict (\<lambda>_. FFin 0) (Suc 4) [123, 125] = Some (PDict [], [])"
      by (simp only: parse_value.simps) (simp add: skip_space_def json_space_def make_object_def)
    then show ?thesis by (simp add: decode_line_def utf8_bom_def json_loads_def skip_space_def json_space_def)
  qed
  have "decode_lines (\<lambda>_. FFin 0) 100 [123, 125, 10] = Inr ([[]], [])"
    by (subst decode_lines.simps) (simp add: l decode_lines_done)
  then have "feed (\<lambda>_. FFin 0) (Some (concat [[125], [], [10]])) demo_codec = (Inr [[]], demo_codec\<lparr>codec_buffer := []\<rparr>)"
    by (subst feed_ok) (simp_all add: codec_ok_def demo_codec_def)
  then show ?thesis
    using chunks_do_not_matter [of demo_codec "\<lambda>_. FFin 0" "[[125], [], [10]]"]
    by (simp add: codec_ok_def demo_codec_def)
qed

text \<open>
  C23. Messages that one codec encodes are decoded by another of the same limit, in order and
  unchanged, however the bytes are cut on the way.
\<close>

theorem frames_round_trip:
  assumes "encode_all fr ms s = (Inr fs, s')" "list_all (wire_ok rf fr) ms"
    and "codec_ok r" "\<not> poisoned r" "codec_buffer r = []" "max_message_bytes r = max_message_bytes s"
    and "concat cs = concat fs"
  shows "feed_all rf cs r = (Inr ms, r)"
  using decode_frames [OF assms(1,2)] assms(3-)
  by (simp add: feed_all_concat feed_ok)

theorem frames_round_trip_witness:
  "\<exists>fs. encode_all (\<lambda>_. []) [obj [(''a'', PInt (- 1))]] demo_codec = (Inr fs, demo_codec)
     \<and> feed_all (\<lambda>_. FFin 0) (map (\<lambda>b. [b]) (concat fs)) (demo_codec\<lparr>codec_buffer := []\<rparr>)
       = (Inr [obj [(''a'', PInt (- 1))]], demo_codec\<lparr>codec_buffer := []\<rparr>)"
proof -
  let ?m = "obj [(''a'', PInt (- 1))]"
  have t: "json_text (\<lambda>_. []) (PDict ?m) = [123, 34, 97, 34, 58, 45, 49, 125]"
    by (simp add: obj_def str_def string_text_def escape_char_def int_text_def nat_text.simps)
  have e: "encode_all (\<lambda>_. []) [?m] demo_codec = (Inr [[123, 34, 97, 34, 58, 45, 49, 125, 10]], demo_codec)"
    using t by (simp add: encode_message_def require_healthy_def seq_def bnd_def demo_codec_def obj_def
        utf8_encode_def surrogate_def utf8_char_def utf8_bom_def)
  have w: "wire_ok (\<lambda>_. FFin 0) (\<lambda>_. []) ?m"
    unfolding wire_ok_def t by (simp add: obj_def surrogate_def)
  have "feed_all (\<lambda>_. FFin 0) (map (\<lambda>b. [b]) (concat [[123, 34, 97, 34, 58, 45, 49, 125, 10]]))
      (demo_codec\<lparr>codec_buffer := []\<rparr>) = (Inr [?m], demo_codec\<lparr>codec_buffer := []\<rparr>)"
    by (rule frames_round_trip [OF e]) (use w in \<open>simp_all add: codec_ok_def demo_codec_def\<close>)
  with e show ?thesis by blast
qed

end
