(* ===== verification/Rpr_Channel.thy ===== *)
theory Rpr_Channel
  imports Rpr_Framing
begin

text \<open>
  \<open>mcp_stdio_channel.py\<close>, \<open>mcp_jsonrpc_session.py\<close> and \<open>mcp_subprocess_lifecycle.py\<close>: the
  single-flight message channel over the pipes of a subprocess, the JSON-RPC session on a
  channel, and the shutdown of the subprocess. The pipes, the channel under a session and the
  process handle are interfaces that an adapter implements; they are arguments here.
\<close>

section \<open>The channel\<close>

datatype stdio_stream = Stdout | Stderr

record stdio_event =
  stream :: stdio_stream
  data :: "nat list"
  eof :: bool

definition make_event_record :: "stdio_stream \<Rightarrow> nat list \<Rightarrow> bool \<Rightarrow> stdio_event res" where
  "make_event_record st d e =
     (if e \<and> d \<noteq> [] then err ValueError ''stdio EOF event must not contain data''
      else if \<not> e \<and> d = [] then err ValueError ''stdio data event must not be empty''
      else Inr \<lparr>stream = st, data = d, eof = e\<rparr>)"

text \<open>
  The adapter: a write returns the count it claims, a read returns an event, or \<open>None\<close> for an
  object of another class. \<open>reads\<close> and \<open>written\<close> record what was asked of it.
\<close>

record 'd adapter =
  write_stdin :: "nat list \<Rightarrow> ('d, pv) py"
  read_event :: "('d, stdio_event option) py"

record 'd channel =
  duplex :: 'd
  chan_codec :: codec
  chan_diagnostics :: diagnostics
  max_events :: nat
  stdout_eof :: bool
  stderr_eof :: bool
  reads :: nat
  written :: "nat list"

definition in_codec :: "(codec, 'a) py \<Rightarrow> ('d channel, 'a) py" where
  "in_codec m = zoom chan_codec (\<lambda>c s. s\<lparr>chan_codec := c\<rparr>) m"

definition in_duplex :: "('d, 'a) py \<Rightarrow> ('d channel, 'a) py" where
  "in_duplex m = zoom duplex (\<lambda>d s. s\<lparr>duplex := d\<rparr>) m"

text \<open>\<open>f"{type(exc).__name__}: {exc}"\<close>\<close>

definition exn_text :: "exn \<Rightarrow> pystr" where
  "exn_text e = exn_name (exn_kind e) @ str '': '' @ exn_msg e"

text \<open>Exceptions that are not transport or operating-system errors become transport errors.\<close>

definition wrap_transport :: "string \<Rightarrow> ('s, 'a) py \<Rightarrow> ('s, 'a) py" where
  "wrap_transport what m = handle
     (\<lambda>e. is_exception e \<and> \<not> catches [McpTransportError, TimeoutError, ConnectionError, OSError] e)
     m (\<lambda>e. throw (Exn McpTransportError (str what @ exn_text e)))"

definition require_open_stdout :: "('d channel, unit) py" where
  "require_open_stdout = (\<lambda>s. (if stdout_eof s then err McpTransportError ''MCP stdio stdout is already closed''
     else Inr (), s))"

text \<open>The write loop; each round writes at least one byte, so the length bounds the rounds.\<close>

fun write_rest :: "'d adapter \<Rightarrow> nat \<Rightarrow> nat list \<Rightarrow> ('d channel, unit) py" where
  "write_rest io n [] = ret ()"
| "write_rest io 0 (c # cs) = raise McpTransportError ''unreachable''"
| "write_rest io (Suc n) (c # cs) =
     bnd (wrap_transport ''MCP stdio write failed: '' (in_duplex (write_stdin io (c # cs)))) (\<lambda>count.
     case count of
       PInt k \<Rightarrow>
         (if k \<le> 0 \<or> k > int (length (c # cs))
          then raise McpTransportError ''MCP stdio writer returned an invalid byte count''
          else (\<lambda>s. write_rest io n (drop (nat k) (c # cs))
            (s\<lparr>written := written s @ take (nat k) (c # cs)\<rparr>)))
     | _ \<Rightarrow> raise McpTransportError ''MCP stdio writer returned a non-integer count'')"

definition write_message :: "(rat \<Rightarrow> pystr) \<Rightarrow> 'd adapter \<Rightarrow> pv \<Rightarrow> ('d channel, unit) py" where
  "write_message fr io message =
     bnd (in_codec (encode_message fr message)) (\<lambda>payload. write_rest io (length payload) payload)"

definition take_event :: "'d adapter \<Rightarrow> ('d channel, stdio_event) py" where
  "take_event io = (\<lambda>s. bnd (wrap_transport ''MCP stdio read failed: '' (in_duplex (read_event io)))
     (\<lambda>e. case e of Some ev \<Rightarrow> ret ev
        | None \<Rightarrow> raise McpTransportError ''MCP stdio reader returned an invalid event'')
     (s\<lparr>reads := Suc (reads s)\<rparr>))"

definition handle_stderr :: "stdio_event \<Rightarrow> ('d channel, unit) py" where
  "handle_stderr ev = (\<lambda>s.
     if eof ev then (Inr (), s\<lparr>stderr_eof := True\<rparr>)
     else if stderr_eof s then (err McpTransportError ''MCP stdio emitted stderr data after EOF'', s)
     else (Inr (), s\<lparr>chan_diagnostics := feed_diagnostics (data ev) (chan_diagnostics s)\<rparr>))"

text \<open>The rounds of \<open>exchange\<close>.\<close>

fun await_message :: "(rat \<Rightarrow> pfloat) \<Rightarrow> 'd adapter \<Rightarrow> nat \<Rightarrow> ('d channel, pdict) py" where
  "await_message rf io 0 = raise McpTransportError ''MCP stdio exchange exceeded max_events_per_exchange''"
| "await_message rf io (Suc n) = bnd (take_event io) (\<lambda>ev.
     if stream ev = Stderr then seq (handle_stderr ev) (await_message rf io n)
     else if eof ev then
       (\<lambda>s. seq (in_codec finish_stream)
         (raise McpTransportError ''MCP stdio stdout closed before a response'') (s\<lparr>stdout_eof := True\<rparr>))
     else bnd (in_codec (feed rf (Some (data ev)))) (\<lambda>messages. case messages of
         [] \<Rightarrow> await_message rf io n
       | [m] \<Rightarrow> ret m
       | _ \<Rightarrow> raise McpTransportError ''MCP stdio exchange produced multiple protocol messages''))"

definition exchange ::
    "(rat \<Rightarrow> pfloat) \<Rightarrow> (rat \<Rightarrow> pystr) \<Rightarrow> 'd adapter \<Rightarrow> pv \<Rightarrow> ('d channel, pdict) py" where
  "exchange rf fr io message = seq require_open_stdout (seq (write_message fr io message)
     (\<lambda>s. await_message rf io (max_events s) s))"

definition send_only :: "(rat \<Rightarrow> pystr) \<Rightarrow> 'd adapter \<Rightarrow> pv \<Rightarrow> ('d channel, unit) py" where
  "send_only fr io message = seq require_open_stdout (write_message fr io message)"

section \<open>The session\<close>

record 'c session =
  next_request_id :: int
  session_channel :: 'c

definition in_channel :: "('c, 'a) py \<Rightarrow> ('c session, 'a) py" where
  "in_channel m = zoom session_channel (\<lambda>c s. s\<lparr>session_channel := c\<rparr>) m"

definition make_session :: "'c \<Rightarrow> int \<Rightarrow> 'c session res" where
  "make_session c first = (if first < 0 then err ValueError ''first_request_id must be non-negative''
     else Inr \<lparr>next_request_id = first, session_channel = c\<rparr>)"

definition rpc_method :: "pystr \<Rightarrow> pystr res" where
  "rpc_method m = (if strip m = [] then err McpTransportError ''JSON-RPC method must be a non-empty string''
     else Inr (strip m))"

text \<open>\<open>v == n\<close> for a value that is not a \<open>bool\<close>.\<close>

definition equals_int :: "pv \<Rightarrow> int \<Rightarrow> bool" where
  "equals_int v n \<longleftrightarrow> (case v of PInt i \<Rightarrow> i = n | PFloat (FFin q) \<Rightarrow> q = of_int n
     | PFloat FNegZero \<Rightarrow> n = 0 | _ \<Rightarrow> False)"

definition only_keys :: "pdict \<Rightarrow> string list \<Rightarrow> bool" where
  "only_keys d ks \<longleftrightarrow> fst ` set d \<subseteq> (\<lambda>k. PStr (str k)) ` set ks"

definition has_key :: "pdict \<Rightarrow> string \<Rightarrow> bool" where
  "has_key d k \<longleftrightarrow> dget d (str k) \<noteq> None"

definition remote_error :: "pv \<Rightarrow> exn" where
  "remote_error v = (case v of
       PDict d \<Rightarrow> (case dget_none d (str ''code'') of
           PInt code \<Rightarrow> (case dget_none d (str ''message'') of
               PStr m \<Rightarrow>
                 (if strip m = [] then Exn McpTransportError (str ''JSON-RPC error message must be a non-empty string'')
                  else if \<not> only_keys d [''code'', ''message'', ''data'']
                  then Exn McpTransportError (str ''JSON-RPC error contains unsupported members'')
                  else Exn McpJsonRpcRemoteError (strip m))
             | _ \<Rightarrow> Exn McpTransportError (str ''JSON-RPC error message must be a non-empty string''))
         | _ \<Rightarrow> Exn McpTransportError (str ''JSON-RPC error code must be an integer''))
     | _ \<Rightarrow> Exn McpTransportError (str ''JSON-RPC error must be an object''))"

definition validate_response :: "int \<Rightarrow> pv \<Rightarrow> pdict res" where
  "validate_response expected response = (case response of
       PDict d \<Rightarrow>
         (if dget_none d (str ''jsonrpc'') \<noteq> PStr (str ''2.0'')
          then err McpTransportError ''JSON-RPC response version mismatch''
          else if \<not> has_key d ''id'' then err McpTransportError ''JSON-RPC notification cannot satisfy a request''
          else if \<not> equals_int (dget_none d (str ''id'')) expected
          then err McpTransportError ''JSON-RPC response id mismatch''
          else if has_key d ''result'' = has_key d ''error''
          then err McpTransportError ''JSON-RPC response must contain exactly one of result or error''
          else if \<not> only_keys d [''jsonrpc'', ''id'', ''result'', ''error'']
          then err McpTransportError ''JSON-RPC response contains unsupported members''
          else if has_key d ''error'' then Inl (remote_error (dget_none d (str ''error'')))
          else case dget_none d (str ''result'') of PDict r \<Rightarrow> Inr r
            | _ \<Rightarrow> err McpTransportError ''MCP JSON-RPC result must be an object'')
     | _ \<Rightarrow> err McpTransportError ''JSON-RPC response must be an object'')"

definition request_envelope :: "int \<Rightarrow> pystr \<Rightarrow> pdict \<Rightarrow> pv" where
  "request_envelope i m params = PDict (obj [(''jsonrpc'', PStr (str ''2.0'')), (''id'', PInt i),
     (''method'', PStr m), (''params'', PDict params)])"

text \<open>\<open>exch\<close> and \<open>snd\<close> are the operations of the channel under the session.\<close>

definition session_request :: "(pv \<Rightarrow> ('c, pv) py) \<Rightarrow> pystr \<Rightarrow> pdict \<Rightarrow> ('c session, pdict) py" where
  "session_request exch m params = bnd (lift (rpc_method m)) (\<lambda>name s.
     let i = next_request_id s in
     bnd (wrap_transport ''JSON-RPC channel exchange failed: '' (in_channel (exch (request_envelope i name params))))
       (\<lambda>response. lift (validate_response i response)) (s\<lparr>next_request_id := i + 1\<rparr>))"

definition session_notify :: "(pv \<Rightarrow> ('c, unit) py) \<Rightarrow> pystr \<Rightarrow> pdict \<Rightarrow> ('c session, unit) py" where
  "session_notify snd_only m params = bnd (lift (rpc_method m)) (\<lambda>name.
     wrap_transport ''JSON-RPC channel notification failed: '' (in_channel (snd_only (PDict (obj
       [(''jsonrpc'', PStr (str ''2.0'')), (''method'', PStr name), (''params'', PDict params)])))))"

section \<open>Shutdown\<close>

datatype handle_op = CloseStdin | Wait | Terminate | Kill | ClosePipes

text \<open>
  The handle: what each operation does, and for a wait the exit code it returns. \<open>handle_ops\<close>
  records the operations called.
\<close>

record 'h handle =
  close_stdin :: "('h, unit) py"
  wait :: "rat \<Rightarrow> ('h, pv) py"
  terminate :: "('h, unit) py"
  kill :: "('h, unit) py"
  close_pipes :: "('h, unit) py"

record process_exit =
  exit_code :: int
  graceful :: bool
  terminated :: bool
  killed :: bool

record 'h lifecycle =
  process :: 'h
  graceful_timeout :: rat
  terminate_timeout :: rat
  kill_timeout :: rat
  result :: "process_exit option"
  closing :: bool
  handle_ops :: "handle_op list"

definition in_process :: "handle_op \<Rightarrow> ('h, 'a) py \<Rightarrow> ('h lifecycle, 'a) py" where
  "in_process op m = (\<lambda>s. zoom process (\<lambda>h s. s\<lparr>process := h\<rparr>) m (s\<lparr>handle_ops := handle_ops s @ [op]\<rparr>))"

definition call_handle :: "string \<Rightarrow> handle_op \<Rightarrow> ('h, unit) py \<Rightarrow> ('h lifecycle, unit) py" where
  "call_handle label op m = handle is_exception (in_process op m)
     (\<lambda>e. throw (Exn McpProcessLifecycleError (str (''failed to '' @ label))))"

definition wait_exit :: "'h handle \<Rightarrow> ('h lifecycle \<Rightarrow> rat) \<Rightarrow> ('h lifecycle, int) py" where
  "wait_exit h timeout = (\<lambda>s. bnd (handle (\<lambda>e. is_exception e \<and> \<not> catches [TimeoutError] e)
       (in_process Wait (wait h (timeout s)))
       (\<lambda>e. throw (Exn McpProcessLifecycleError (str ''MCP process wait failed''))))
     (\<lambda>v. case v of PInt c \<Rightarrow> ret c
        | _ \<Rightarrow> raise McpProcessLifecycleError ''MCP process wait returned a non-integer exit code'') s)"

text \<open>The body of the \<open>try\<close>.\<close>

definition stop_process :: "'h handle \<Rightarrow> ('h lifecycle, process_exit) py" where
  "stop_process h = seq (call_handle ''close stdin'' CloseStdin (close_stdin h))
     (handle (catches [TimeoutError])
       (bnd (wait_exit h graceful_timeout)
         (\<lambda>c. ret \<lparr>exit_code = c, graceful = True, terminated = False, killed = False\<rparr>))
       (\<lambda>_. seq (call_handle ''terminate process'' Terminate (terminate h))
         (handle (catches [TimeoutError])
           (bnd (wait_exit h terminate_timeout)
             (\<lambda>c. ret \<lparr>exit_code = c, graceful = False, terminated = True, killed = False\<rparr>))
           (\<lambda>_. seq (call_handle ''kill process'' Kill (kill h))
             (bnd (handle (catches [TimeoutError]) (wait_exit h kill_timeout)
                 (\<lambda>_. raise McpProcessLifecycleError ''MCP process did not exit after kill''))
               (\<lambda>c. ret \<lparr>exit_code = c, graceful = False, terminated = True, killed = True\<rparr>))))))"

text \<open>
  The \<open>try ... except BaseException ... finally\<close>: the pipes are closed whatever happened, the
  first error wins. The process stopping is the end of the method.
\<close>

definition crashed :: "'a res \<Rightarrow> bool" where
  "crashed r \<longleftrightarrow> (case r of Inl e \<Rightarrow> \<not> is_exception e | Inr _ \<Rightarrow> False)"

definition shutdown :: "'h handle \<Rightarrow> ('h lifecycle, process_exit) py" where
  "shutdown h = (\<lambda>s. case result s of
       Some r \<Rightarrow> (Inr r, s)
     | None \<Rightarrow>
        if closing s then (err McpProcessLifecycleError ''MCP process shutdown is already in progress'', s)
        else (case stop_process h (s\<lparr>closing := True\<rparr>) of (r, s1) \<Rightarrow>
          if crashed r then (r, s1)
          else (case call_handle ''close process pipes'' ClosePipes (close_pipes h) s1 of (c, s2) \<Rightarrow>
            if crashed c then (Inl (Exn Crash []), s2)
            else let s3 = s2\<lparr>closing := False\<rparr> in
              case (case r of Inl e \<Rightarrow> Some e | Inr _ \<Rightarrow> (case c of Inl e \<Rightarrow> Some e | Inr _ \<Rightarrow> None)) of
                Some e \<Rightarrow> (if catches [McpProcessLifecycleError] e then (Inl e, s3)
                  else (err McpProcessLifecycleError ''MCP process shutdown failed'', s3))
              | None \<Rightarrow> (case r of Inr x \<Rightarrow> (Inr x, s3\<lparr>result := Some x\<rparr>)
                  | Inl e \<Rightarrow> (Inl e, s3)))))"

section \<open>Properties of the channel\<close>

lemma write_rest_fuel: "length p \<le> n \<Longrightarrow> n \<le> m \<Longrightarrow> write_rest io m p = write_rest io n p"
proof (induction n arbitrary: m p)
  case (Suc n)
  then obtain m' where m: "m = Suc m'" "n \<le> m'" by (cases m) auto
  show ?case
  proof (cases p)
    case (Cons c cs)
    have "write_rest io m' (drop (nat k) (c # cs)) = write_rest io n (drop (nat k) (c # cs))"
      if "\<not> k \<le> 0" for k
    proof (rule Suc.IH)
      have "0 < nat k" using that by simp
      then show "length (drop (nat k) (c # cs)) \<le> n" using Suc.prems(1) Cons by (cases "nat k") auto
    qed (rule m(2))
    with Cons m(1) show ?thesis by (auto simp: fun_eq_iff bnd_def split: prod.splits sum.splits pv.splits)
  qed (simp add: m(1))
qed (cases "p"; simp)

text \<open>
  C38. The write loop ends: whatever the adapter does, it takes at most as many rounds as the
  message has bytes, since allowing any number of further rounds changes neither its outcome nor
  the state it leaves.
\<close>

theorem write_loop_ends: "write_rest io (length p + k) p s = write_rest io (length p) p s"
  using write_rest_fuel [of p "length p" "length p + k" io] by simp

text \<open>What an operation leaves alone: the bounds, the events read and the bytes written.\<close>

definition same_io :: "'d channel \<Rightarrow> 'd channel \<Rightarrow> bool" where
  "same_io s t \<longleftrightarrow> reads t = reads s \<and> written t = written s \<and> max_events t = max_events s"

lemma same_io_refl [simp]: "same_io s s"
  by (simp add: same_io_def)

lemma wp_in_duplex: "(\<And>a d. Q a (s\<lparr>duplex := d\<rparr>)) \<Longrightarrow> (\<And>e d. E e (s\<lparr>duplex := d\<rparr>)) \<Longrightarrow> wp (in_duplex m) Q E s"
  by (auto simp: in_duplex_def wp intro: wpI)

lemma wp_in_codec: "wp (in_codec m) Q E s \<longleftrightarrow>
    wp m (\<lambda>a c. Q a (s\<lparr>chan_codec := c\<rparr>)) (\<lambda>e c. E e (s\<lparr>chan_codec := c\<rparr>)) (chan_codec s)"
  by (simp add: in_codec_def wp)

lemma wp_wrap: "wp m Q (\<lambda>e t. E e t \<and> (\<forall>e'. E e' t)) s \<Longrightarrow> wp (wrap_transport what m) Q E s"
  by (auto simp: wrap_transport_def wp elim: wp_mono)

lemma wp_write_rest:
  "length p \<le> n \<Longrightarrow> wp (write_rest io n p)
     (\<lambda>_ t. reads t = reads s \<and> max_events t = max_events s \<and> written t = written s @ p)
     (\<lambda>_ t. reads t = reads s \<and> max_events t = max_events s \<and> (\<exists>k. written t = written s @ take k p)) s"
proof (induction n arbitrary: p s)
  case 0
  then show ?case by (simp add: wp_def)
next
  case (Suc n)
  show ?case
  proof (cases p)
    case Nil
    then show ?thesis by (simp add: wp_def)
  next
    case (Cons c cs)
    let ?E = "\<lambda>_ t. reads t = reads s \<and> max_events t = max_events s \<and> (\<exists>k. written t = written s @ take k p)"
    have idle: "?E e (s\<lparr>duplex := d\<rparr>)" for e d by (auto intro: exI [of _ 0])
    show ?thesis unfolding Cons write_rest.simps wp(6)
    proof (rule wp_wrap, rule wp_in_duplex)
      fix v d
      show "wp (case v of
          PInt k \<Rightarrow> (if k \<le> 0 \<or> k > int (length (c # cs))
            then raise McpTransportError ''MCP stdio writer returned an invalid byte count''
            else (\<lambda>s. write_rest io n (drop (nat k) (c # cs)) (s\<lparr>written := written s @ take (nat k) (c # cs)\<rparr>)))
        | _ \<Rightarrow> raise McpTransportError ''MCP stdio writer returned a non-integer count'')
        (\<lambda>_ t. reads t = reads s \<and> max_events t = max_events s \<and> written t = written s @ c # cs)
        (\<lambda>_ t. reads t = reads s \<and> max_events t = max_events s \<and> (\<exists>k. written t = written s @ take k (c # cs)))
        (s\<lparr>duplex := d\<rparr>)"
      proof (cases "\<exists>k. v = PInt k \<and> \<not> k \<le> 0 \<and> k \<le> int (length p)")
        case True
        then obtain k where k: "v = PInt k" "\<not> k \<le> 0" "k \<le> int (length p)" by blast
        let ?s = "s\<lparr>duplex := d, written := written s @ take (nat k) p\<rparr>"
        have "length (drop (nat k) p) \<le> n" using k Suc.prems by (cases "nat k") auto
        from Suc.IH [OF this, of ?s] have "wp (write_rest io n (drop (nat k) p))
            (\<lambda>_ t. reads t = reads s \<and> max_events t = max_events s \<and> written t = written s @ p)
            (\<lambda>_ t. reads t = reads s \<and> max_events t = max_events s \<and> (\<exists>k. written t = written s @ take k p)) ?s"
          by (rule wp_mono) (auto, metis take_add)
        with k Cons show ?thesis by (simp add: wp_def)
      next
        case False
        with Cons show ?thesis by (auto simp: wp split: pv.splits intro: exI [of _ 0])
      qed
    qed (use idle Cons in auto)
  qed
qed

text \<open>A session of reads: at most \<open>n\<close> events, and no byte is written.\<close>

lemma wp_take_event:
  assumes "\<And>ev t. reads t = Suc (reads s) \<Longrightarrow> max_events t = max_events s \<Longrightarrow> written t = written s \<Longrightarrow>
      chan_codec t = chan_codec s \<Longrightarrow> Q ev t"
    and "\<And>e t. reads t = Suc (reads s) \<Longrightarrow> max_events t = max_events s \<Longrightarrow> written t = written s \<Longrightarrow> E e t"
  shows "wp (take_event io) Q E s"
proof -
  have "wp (bnd (wrap_transport ''MCP stdio read failed: '' (in_duplex (read_event io)))
     (\<lambda>e. case e of Some ev \<Rightarrow> ret ev
        | None \<Rightarrow> raise McpTransportError ''MCP stdio reader returned an invalid event'')) Q E
     (s\<lparr>reads := Suc (reads s)\<rparr>)"
    unfolding wp(6)
    by (rule wp_wrap, rule wp_in_duplex) (auto simp: wp assms split: option.split)
  then show ?thesis by (simp add: take_event_def wp_def)
qed

definition read_only :: "nat \<Rightarrow> 'd channel \<Rightarrow> 'd channel \<Rightarrow> bool" where
  "read_only n s t \<longleftrightarrow> reads s \<le> reads t \<and> reads t \<le> reads s + n \<and> written t = written s
     \<and> max_events t = max_events s"

lemma wp_await:
  fixes s :: "'d channel"
  shows "wp (await_message rf io n) (\<lambda>_ t. read_only n s t) (\<lambda>_ t. read_only n s t) s"
proof (induction n arbitrary: s)
  case 0
  then show ?case by (simp add: wp_def read_only_def)
next
  case (Suc n)
  have step: "read_only (Suc n) s u"
    if "reads t = Suc (reads s)" "max_events t = max_events s" "written t = written s"
      "reads t' = reads t" "max_events t' = max_events t" "written t' = written t" "read_only n t' u" for t t' u
    using that by (simp add: read_only_def)
  have rest: "wp (await_message rf io n) (\<lambda>_ u. read_only (Suc n) s u) (\<lambda>_ u. read_only (Suc n) s u) t'"
    if "reads t = Suc (reads s)" "max_events t = max_events s" "written t = written s"
      "reads t' = reads t" "max_events t' = max_events t" "written t' = written t" for t t' :: "'d channel"
    by (rule wp_mono [OF Suc.IH]) (auto intro: step [OF that])
  show ?case
    unfolding await_message.simps wp(6)
  proof (rule wp_take_event)
    fix ev and t :: "'d channel" assume t: "reads t = Suc (reads s)" "max_events t = max_events s" "written t = written s"
    have fin: "read_only (Suc n) s t'"
      if "reads t' = reads t" "max_events t' = max_events t" "written t' = written t" for t' :: "'d channel"
      using that t by (simp add: read_only_def)
    show "wp (if stream ev = Stderr then seq (handle_stderr ev) (await_message rf io n)
     else if eof ev then
       (\<lambda>s. seq (in_codec finish_stream)
         (raise McpTransportError ''MCP stdio stdout closed before a response'') (s\<lparr>stdout_eof := True\<rparr>))
     else bnd (in_codec (feed rf (Some (data ev)))) (\<lambda>messages. case messages of
         [] \<Rightarrow> await_message rf io n
       | [m] \<Rightarrow> ret m
       | _ \<Rightarrow> raise McpTransportError ''MCP stdio exchange produced multiple protocol messages''))
      (\<lambda>_ u. read_only (Suc n) s u) (\<lambda>_ u. read_only (Suc n) s u) t"
    proof (cases "stream ev = Stderr")
      case True
      have "wp (handle_stderr ev) (\<lambda>_ t'. reads t' = reads t \<and> max_events t' = max_events t \<and> written t' = written t)
          (\<lambda>_ t'. reads t' = reads t \<and> max_events t' = max_events t \<and> written t' = written t) t"
        by (simp add: wp_def handle_stderr_def)
      then show ?thesis unfolding if_P [OF True] wp(7)
        by (rule wp_mono) (use rest [OF t] fin in blast)+
    next
      case False
      note out = False
      show ?thesis
      proof (cases "eof ev")
        case True
        have "wp (seq (in_codec finish_stream)
            (raise McpTransportError ''MCP stdio stdout closed before a response''))
            (\<lambda>_ u. read_only (Suc n) s u) (\<lambda>_ u. read_only (Suc n) s u) (t\<lparr>stdout_eof := True\<rparr>)"
          unfolding wp wp_in_codec by (rule wpI) (auto intro!: fin)
        then show ?thesis unfolding if_not_P [OF out] if_P [OF True] by (simp add: wp_def)
      next
        case False
        show ?thesis unfolding if_not_P [OF out] if_not_P [OF False] wp(6) wp_in_codec
        proof (rule wpI)
          fix ms c
          show "wp (case ms of [] \<Rightarrow> await_message rf io n | [m] \<Rightarrow> ret m
             | _ \<Rightarrow> raise McpTransportError ''MCP stdio exchange produced multiple protocol messages'')
              (\<lambda>_ u. read_only (Suc n) s u) (\<lambda>_ u. read_only (Suc n) s u) (t\<lparr>chan_codec := c\<rparr>)"
            using rest [OF t, of "t\<lparr>chan_codec := c\<rparr>"] fin [of "t\<lparr>chan_codec := c\<rparr>"]
            by (auto simp: wp split: list.split)
        qed (auto intro!: fin)
      qed
    qed
  qed (simp add: read_only_def)
qed

definition frame_of :: "(rat \<Rightarrow> pystr) \<Rightarrow> pv \<Rightarrow> codec \<Rightarrow> nat list" where
  "frame_of fr message c = (case encode_message fr message c of (Inr f, _) \<Rightarrow> f | _ \<Rightarrow> [])"

text \<open>
  C24. One exchange on the channel reads at most its limit of events, writes a prefix of one
  frame, and answers only when the whole frame of the message has been written.
\<close>

theorem exchange_bounded:
  fixes s :: "'d channel"
  shows "case exchange rf fr io message s of (r, t) \<Rightarrow>
     reads s \<le> reads t \<and> reads t \<le> reads s + max_events s
     \<and> (\<exists>k. written t = written s @ take k (frame_of fr message (chan_codec s)))
     \<and> (case r of Inl _ \<Rightarrow> True
         | Inr _ \<Rightarrow> written t = written s @ frame_of fr message (chan_codec s) \<and> \<not> stdout_eof s)"
proof -
  let ?f = "frame_of fr message (chan_codec s)"
  let ?P = "\<lambda>t. reads s \<le> reads t \<and> reads t \<le> reads s + max_events s"
  let ?Q = "\<lambda>_ t. ?P t \<and> written t = written s @ ?f \<and> \<not> stdout_eof s"
  let ?E = "\<lambda>_ t. ?P t \<and> (\<exists>k. written t = written s @ take k ?f)"
  have idle: "?E e (s\<lparr>chan_codec := c\<rparr>)" "?E e s" for e c by (auto intro: exI [of _ 0])
  have "wp (exchange rf fr io message) ?Q ?E s"
  proof (cases "stdout_eof s")
    case True
    then have "exchange rf fr io message s = (err McpTransportError ''MCP stdio stdout is already closed'', s)"
      by (simp add: exchange_def require_open_stdout_def seq_def bnd_def)
    with idle(2) show ?thesis by (simp add: wp_def)
  next
    case opened: False
    have "wp (write_message fr io message) (\<lambda>_ t. wp (\<lambda>s. await_message rf io (max_events s) s) ?Q ?E t) ?E s"
      unfolding write_message_def wp(6) wp_in_codec
    proof (rule wpI)
      fix f c assume f: "encode_message fr message (chan_codec s) = (Inr f, c)"
      then have ff: "?f = f" by (simp add: frame_of_def)
      show "wp (write_rest io (length f) f)
          (\<lambda>_ t. wp (\<lambda>s. await_message rf io (max_events s) s) ?Q ?E t) ?E (s\<lparr>chan_codec := c\<rparr>)"
      proof (rule wp_mono [OF wp_write_rest [OF order_refl]])
        fix t :: "'d channel" assume t: "reads t = reads (s\<lparr>chan_codec := c\<rparr>) \<and> max_events t = max_events (s\<lparr>chan_codec := c\<rparr>)
            \<and> written t = written (s\<lparr>chan_codec := c\<rparr>) @ f"
        have "wp (await_message rf io (max_events t)) ?Q ?E t"
          by (rule wp_mono [OF wp_await]) (use t ff opened in \<open>auto simp: read_only_def intro: exI [of _ "length f"]\<close>)
        then show "wp (\<lambda>s. await_message rf io (max_events s) s) ?Q ?E t" by (simp add: wp_def)
      qed (use ff in auto)
    qed (use idle(1) in auto)
    then have "wp (seq (write_message fr io message) (\<lambda>s. await_message rf io (max_events s) s)) ?Q ?E s"
      unfolding wp(7) .
    moreover have "exchange rf fr io message s =
        seq (write_message fr io message) (\<lambda>s. await_message rf io (max_events s) s) s"
      using opened by (simp add: exchange_def require_open_stdout_def seq_def bnd_def)
    ultimately show ?thesis unfolding wp_def by simp
  qed
  then show ?thesis
    by (auto simp: wp_def split: prod.splits sum.splits intro: exI [of _ "length ?f"])
qed

section \<open>Properties of the session\<close>

definition answered :: "(pv \<Rightarrow> ('c, pv) py) \<Rightarrow> pystr \<Rightarrow> pdict \<Rightarrow> 'c session \<Rightarrow> pdict \<Rightarrow> bool" where
  "answered exch m params s x \<longleftrightarrow> (\<exists>d c.
     exch (request_envelope (next_request_id s) (strip m) params) (session_channel s) = (Inr (PDict d), c)
     \<and> equals_int (dget_none d (str ''id'')) (next_request_id s)
     \<and> dget d (str ''result'') = Some (PDict x) \<and> dget d (str ''error'') = None
     \<and> only_keys d [''jsonrpc'', ''id'', ''result'', ''error''])"

lemma validate_response_ok:
  "validate_response i v = Inr x \<Longrightarrow> \<exists>d. v = PDict d \<and> equals_int (dget_none d (str ''id'')) i
      \<and> dget d (str ''result'') = Some (PDict x) \<and> dget d (str ''error'') = None
      \<and> only_keys d [''jsonrpc'', ''id'', ''result'', ''error'']"
  by (auto simp: validate_response_def has_key_def dget_none_def split: pv.splits if_splits option.splits)

lemma wp_in_channel:
  assumes "next_request_id t = k" "session_channel t = c0"
    and "\<And>v c u. exch e c0 = (Inr v, c) \<Longrightarrow> next_request_id u = k \<Longrightarrow> Q v u"
    and "\<And>x u. next_request_id u = k \<Longrightarrow> E x u"
  shows "wp (wrap_transport what (in_channel (exch e))) Q E t"
  by (rule wp_wrap)
    (use assms in \<open>auto simp: wp_def in_channel_def zoom_def split: prod.splits sum.splits\<close>)

text \<open>
  C25. A request uses up the next request id before anything is sent, and returns a result only
  when the channel's answer carries that id, has a result and no error, and nothing else.
\<close>

theorem request_correlates:
  "case session_request exch m params s of (r, t) \<Rightarrow>
     next_request_id t = next_request_id s + (if blank m then 0 else 1)
     \<and> (case r of Inl _ \<Rightarrow> True | Inr x \<Rightarrow> \<not> blank m \<and> answered exch m params s x)"
proof (cases "blank m")
  case True
  then show ?thesis by (simp add: session_request_def bnd_def rpc_method_def flip: blank_def)
next
  case False
  let ?i = "next_request_id s"
  let ?e = "request_envelope ?i (strip m) params" and ?s = "s\<lparr>next_request_id := ?i + 1\<rparr>"
  have "wp (bnd (wrap_transport ''JSON-RPC channel exchange failed: '' (in_channel (exch ?e)))
      (\<lambda>v. lift (validate_response ?i v)))
      (\<lambda>x t. next_request_id t = ?i + 1 \<and> answered exch m params s x) (\<lambda>_ t. next_request_id t = ?i + 1) ?s"
    unfolding wp(4,6)
    by (rule wp_in_channel [where k = "?i + 1"])
      (auto simp: answered_def dest!: validate_response_ok split: sum.split)
  moreover have "session_request exch m params s = bnd (wrap_transport ''JSON-RPC channel exchange failed: ''
      (in_channel (exch ?e))) (\<lambda>v. lift (validate_response ?i v)) ?s"
    using False by (simp add: session_request_def rpc_method_def blank_def bnd_def lift_def Let_def)
  ultimately show ?thesis unfolding wp_def using False by (auto split: prod.splits sum.splits)
qed

section \<open>Properties of the shutdown\<close>

definition stop_order :: "handle_op list" where
  "stop_order = [CloseStdin, Wait, Terminate, Wait, Kill, Wait]"

text \<open>After the first \<open>k\<close> operations of the order.\<close>

definition stage :: "'h lifecycle \<Rightarrow> nat \<Rightarrow> 'h lifecycle \<Rightarrow> bool" where
  "stage s k t \<longleftrightarrow> handle_ops t = handle_ops s @ take k stop_order \<and> result t = result s \<and> closing t = closing s"

lemma wp_operation:
  assumes "stage s k t" "k < length stop_order" "stop_order ! k = oper"
    and "\<And>a u. stage s (Suc k) u \<Longrightarrow> Q a u" "\<And>e u. stage s (Suc k) u \<Longrightarrow> E e u"
  shows "wp (in_process oper m) Q E t"
proof -
  have "stage s (Suc k) (t\<lparr>handle_ops := handle_ops t @ [oper], process := h\<rparr>)" for h
    using assms(1-3) by (simp add: stage_def take_Suc_conv_app_nth)
  then show ?thesis
    using assms(4,5) by (auto simp: in_process_def wp_def zoom_def split: prod.splits sum.splits)
qed

lemma wp_call_handle:
  assumes "stage s k t" "k < length stop_order" "stop_order ! k = oper"
    and "\<And>u. stage s (Suc k) u \<Longrightarrow> Q () u" "\<And>e u. stage s (Suc k) u \<Longrightarrow> E e u"
  shows "wp (call_handle label oper m) Q E t"
  unfolding call_handle_def wp
  by (rule wp_operation [OF assms(1-3)]) (use assms(4,5) in \<open>auto simp: wp\<close>)

lemma wp_wait_exit:
  assumes "stage s k t" "k < length stop_order" "stop_order ! k = Wait"
    and "\<And>c u. stage s (Suc k) u \<Longrightarrow> Q c u" "\<And>e u. stage s (Suc k) u \<Longrightarrow> E e u"
  shows "wp (wait_exit h timeout) Q E t"
proof -
  have "wp (bnd (handle (\<lambda>e. is_exception e \<and> \<not> catches [TimeoutError] e)
       (in_process Wait (wait h (timeout t)))
       (\<lambda>e. throw (Exn McpProcessLifecycleError (str ''MCP process wait failed''))))
     (\<lambda>v. case v of PInt c \<Rightarrow> ret c
        | _ \<Rightarrow> raise McpProcessLifecycleError ''MCP process wait returned a non-integer exit code'')) Q E t"
    unfolding wp
    by (rule wp_operation [OF assms(1-3)]) (use assms(4,5) in \<open>auto simp: wp split: pv.split\<close>)
  then show ?thesis by (simp add: wait_exit_def wp_def)
qed

definition exit_stage :: "process_exit \<Rightarrow> nat" where
  "exit_stage r = (if killed r then 6 else if terminated r then 4 else 2)"

lemma wp_stop_process:
  "wp (stop_process h) (\<lambda>r t. stage s (exit_stage r) t \<and> (graceful r \<longleftrightarrow> \<not> terminated r)
     \<and> (killed r \<longrightarrow> terminated r)) (\<lambda>_ t. \<exists>k \<le> 6. stage s k t) s"
proof -
  let ?Q = "\<lambda>r t. stage s (exit_stage r) t \<and> (graceful r \<longleftrightarrow> \<not> terminated r) \<and> (killed r \<longrightarrow> terminated r)"
  let ?E = "\<lambda>(e :: exn) t. \<exists>k \<le> 6. stage s k t"
  note ops = stop_order_def exit_stage_def
  have some: "?E e u" if "stage s 3 u \<or> stage s 5 u" for e u
    using that by (auto intro: exI [of _ 3] exI [of _ 5])
  have killing: "wp (bnd (handle (catches [TimeoutError]) (wait_exit h kill_timeout)
       (\<lambda>_. raise McpProcessLifecycleError ''MCP process did not exit after kill''))
       (\<lambda>c. ret \<lparr>exit_code = c, graceful = False, terminated = True, killed = True\<rparr>)) ?Q ?E t"
    if "stage s 5 t" for t
    unfolding wp by (rule wp_wait_exit [OF that]) (auto simp: ops wp)
  have terminating: "wp (handle (catches [TimeoutError])
       (bnd (wait_exit h terminate_timeout)
         (\<lambda>c. ret \<lparr>exit_code = c, graceful = False, terminated = True, killed = False\<rparr>))
       (\<lambda>_. seq (call_handle ''kill process'' Kill (kill h))
         (bnd (handle (catches [TimeoutError]) (wait_exit h kill_timeout)
             (\<lambda>_. raise McpProcessLifecycleError ''MCP process did not exit after kill''))
           (\<lambda>c. ret \<lparr>exit_code = c, graceful = False, terminated = True, killed = True\<rparr>)))) ?Q ?E t"
    if "stage s 3 t" for t
    unfolding wp(8) wp(6) [of "wait_exit h terminate_timeout"]
  proof (rule wp_wait_exit [OF that])
    fix e and u :: "'a lifecycle" assume "stage s (Suc 3) u"
    then have u: "stage s 4 u" by simp
    have "wp (call_handle ''kill process'' Kill (kill h)) (\<lambda>_. wp (bnd (handle (catches [TimeoutError]) (wait_exit h kill_timeout)
             (\<lambda>_. raise McpProcessLifecycleError ''MCP process did not exit after kill''))
           (\<lambda>c. ret \<lparr>exit_code = c, graceful = False, terminated = True, killed = True\<rparr>)) ?Q ?E) ?E u"
      by (rule wp_call_handle [OF u]) (auto simp: stop_order_def intro: killing some)
    then show "if catches [TimeoutError] e then wp (seq (call_handle ''kill process'' Kill (kill h))
         (bnd (handle (catches [TimeoutError]) (wait_exit h kill_timeout)
             (\<lambda>_. raise McpProcessLifecycleError ''MCP process did not exit after kill''))
           (\<lambda>c. ret \<lparr>exit_code = c, graceful = False, terminated = True, killed = True\<rparr>))) ?Q ?E u
       else ?E e u"
      using u unfolding wp(7) by (auto intro: exI [of _ 4])
  qed (auto simp: ops wp)
  have waiting: "wp (handle (catches [TimeoutError])
       (bnd (wait_exit h graceful_timeout)
         (\<lambda>c. ret \<lparr>exit_code = c, graceful = True, terminated = False, killed = False\<rparr>))
       (\<lambda>_. seq (call_handle ''terminate process'' Terminate (terminate h))
         (handle (catches [TimeoutError])
           (bnd (wait_exit h terminate_timeout)
             (\<lambda>c. ret \<lparr>exit_code = c, graceful = False, terminated = True, killed = False\<rparr>))
           (\<lambda>_. seq (call_handle ''kill process'' Kill (kill h))
             (bnd (handle (catches [TimeoutError]) (wait_exit h kill_timeout)
                 (\<lambda>_. raise McpProcessLifecycleError ''MCP process did not exit after kill''))
               (\<lambda>c. ret \<lparr>exit_code = c, graceful = False, terminated = True, killed = True\<rparr>)))))) ?Q ?E t"
    (is "wp (handle _ (bnd _ _) (\<lambda>_. seq _ ?m)) _ _ t")
    if "stage s 1 t" for t
    unfolding wp(8) [of _ "bnd (wait_exit h graceful_timeout) f" for f] wp(6) [of "wait_exit h graceful_timeout"]
  proof (rule wp_wait_exit [OF that])
    fix e and u :: "'a lifecycle" assume "stage s (Suc 1) u"
    then have u: "stage s 2 u" by (simp add: numeral_2_eq_2)
    have "wp (call_handle ''terminate process'' Terminate (terminate h)) (\<lambda>_. wp ?m ?Q ?E) ?E u"
      by (rule wp_call_handle [OF u]) (auto simp: stop_order_def intro: terminating some)
    then show "if catches [TimeoutError] e then wp (seq (call_handle ''terminate process'' Terminate (terminate h)) ?m) ?Q ?E u
       else ?E e u"
      using u unfolding wp(7) by (auto intro: exI [of _ 2])
  qed (auto simp: ops wp numeral_2_eq_2)
  have "stage s 0 s" by (simp add: stage_def)
  then show ?thesis
    unfolding stop_process_def wp(7) [of "call_handle ''close stdin'' CloseStdin (close_stdin h)"]
    by (rule wp_call_handle) (auto simp: stop_order_def intro: waiting exI [of _ 1])
qed

text \<open>
  C26. A shutdown calls the operations of the handle in the fixed order, as far as the exit flags
  say, and always closes the pipes after them, also when an operation fails; it keeps its exit,
  and a second shutdown returns that exit without any operation.
\<close>

theorem shutdown_sequence:
  "case shutdown h s of (r, t) \<Rightarrow>
     if result s \<noteq> None then r = Inr (the (result s)) \<and> t = s
     else if closing s then t = s \<and> r = err McpProcessLifecycleError ''MCP process shutdown is already in progress''
     else (case r of
         Inr x \<Rightarrow> handle_ops t = handle_ops s @ take (exit_stage x) stop_order @ [ClosePipes]
           \<and> (graceful x, terminated x, killed x) \<in> {(True, False, False), (False, True, False), (False, True, True)}
           \<and> result t = Some x \<and> \<not> closing t \<and> shutdown h t = (Inr x, t)
       | Inl e \<Rightarrow> if is_exception e
           then catches [McpProcessLifecycleError] e \<and> result t = None \<and> \<not> closing t
             \<and> (\<exists>k \<le> 6. handle_ops t = handle_ops s @ take k stop_order @ [ClosePipes])
           else result t = None)"
proof (cases "result s = None \<and> \<not> closing s")
  case False
  then show ?thesis by (auto simp: shutdown_def split: option.split)
next
  case True
  let ?s = "s\<lparr>closing := True\<rparr>"
  obtain r s1 where stop: "stop_process h ?s = (r, s1)" by (cases "stop_process h ?s")
  obtain c s2 where close: "call_handle ''close process pipes'' ClosePipes (close_pipes h) s1 = (c, s2)"
    by (cases "call_handle ''close process pipes'' ClosePipes (close_pipes h) s1")
  have s2: "handle_ops s2 = handle_ops s1 @ [ClosePipes]" "result s2 = result s1"
      "case c of Inl e \<Rightarrow> \<not> is_exception e \<or> catches [McpProcessLifecycleError] e | _ \<Rightarrow> True"
    using close by (auto simp: catches_def call_handle_def in_process_def handle_def zoom_def throw_def
      split: prod.splits sum.splits if_splits)
  have s1: "case r of Inr x \<Rightarrow> stage ?s (exit_stage x) s1 \<and> (graceful x \<longleftrightarrow> \<not> terminated x) \<and> (killed x \<longrightarrow> terminated x)
      | Inl _ \<Rightarrow> \<exists>k \<le> 6. stage ?s k s1"
    using wp_stop_process [of h ?s] by (simp add: wp_def stop split: sum.splits)
  have named: "catches [McpProcessLifecycleError] (Exn McpProcessLifecycleError m)" for m
    by (simp add: catches_def)
  have crash: "\<not> is_exception (Exn Crash [])" by (simp add: is_exception_def)
  have six: "exit_stage x \<le> 6" for x by (simp add: exit_stage_def)
  show ?thesis
    using True s1 s2 stop close named crash
    by (cases r; cases c) (auto simp: shutdown_def crashed_def stage_def Let_def
      intro: exI [of _ "exit_stage x" for x] six)
qed

end
