(* ===== verification/Rpr_Mcp.thy ===== *)
theory Rpr_Mcp
  imports Rpr_Admission Rpr_Channel
begin

text \<open>
  \<open>mcp_stable_transport.py\<close> and \<open>mcp_tool_executor.py\<close>: the preparation of a tool call, and its
  execution. The transport under both is an interface (\<open>McpStableTransport\<close>), here the record of
  its two operations; the JSON-RPC session of \<^theory_text>\<open>Rpr_Channel\<close> is one. The lemmas: preparing
  sends three messages and never calls a tool; what is prepared the executor sends as it was
  admitted; and what each result of the executor says about the call.
\<close>

section \<open>The transport\<close>

record 't transport_ops =
  tr_request :: "pystr \<Rightarrow> pdict \<Rightarrow> ('t, pv) py"
  tr_notify :: "pystr \<Rightarrow> pdict \<Rightarrow> ('t, unit) py"

text \<open>A transport with a record of what it was asked to send.\<close>

record 't wire =
  peer :: 't
  calls :: "(pystr \<times> pdict) list"

definition on_wire :: "(pystr \<times> pdict) \<Rightarrow> ('t, 'a) py \<Rightarrow> ('t wire, 'a) py" where
  "on_wire c m = (\<lambda>s. zoom peer (\<lambda>p s. s\<lparr>peer := p\<rparr>) m (s\<lparr>calls := calls s @ [c]\<rparr>))"

definition over_wire :: "'t transport_ops \<Rightarrow> 't wire transport_ops" where
  "over_wire tr = \<lparr>tr_request = (\<lambda>m p. on_wire (m, p) (tr_request tr m p)),
     tr_notify = (\<lambda>m p. on_wire (m, p) (tr_notify tr m p))\<rparr>"

text \<open>The JSON-RPC session is a transport.\<close>

definition session_ops :: "(pv \<Rightarrow> ('c, pv) py) \<Rightarrow> (pv \<Rightarrow> ('c, unit) py) \<Rightarrow> 'c session transport_ops" where
  "session_ops exch snd_only = \<lparr>
     tr_request = (\<lambda>m p. bnd (session_request exch m p) (\<lambda>d. ret (PDict d))),
     tr_notify = session_notify snd_only\<rparr>"

section \<open>Preparation\<close>

record orchestrator =
  orc_admission :: admission
  client_name :: pystr
  client_version :: pystr

definition make_orchestrator :: "admission \<Rightarrow> pystr \<Rightarrow> pystr \<Rightarrow> orchestrator res" where
  "make_orchestrator adm name version =
     (if blank name \<or> blank version then err ValueError ''MCP client name and version are required''
      else Inr \<lparr>orc_admission = adm, client_name = name, client_version = version\<rparr>)"

record prepared_call =
  prepared_request :: execution_request
  prepared_server :: pystr
  prepared_protocol :: pystr
  prepared_tool :: pystr

definition pre_dispatch :: "string \<Rightarrow> pystr \<Rightarrow> exn" where
  "pre_dispatch phase reason =
     Exn McpPreDispatchError (str (''MCP pre-dispatch failure during '' @ phase @ '': '') @ reason)"

definition transport_fault :: "exn \<Rightarrow> bool" where
  "transport_fault = catches [McpTransportError, TimeoutError, ConnectionError, OSError]"

definition phase_request :: "'t transport_ops \<Rightarrow> string \<Rightarrow> string \<Rightarrow> pdict \<Rightarrow> ('t, pdict) py" where
  "phase_request tr phase m params =
     bnd (handle transport_fault (tr_request tr (str m) params) (\<lambda>e. throw (pre_dispatch phase (exn_text e))))
     (\<lambda>v. case v of PDict d \<Rightarrow> ret d
        | _ \<Rightarrow> throw (pre_dispatch phase (str ''transport returned a non-object result'')))"

definition phase_notify :: "'t transport_ops \<Rightarrow> string \<Rightarrow> string \<Rightarrow> pdict \<Rightarrow> ('t, unit) py" where
  "phase_notify tr phase m params =
     handle transport_fault (tr_notify tr (str m) params) (\<lambda>e. throw (pre_dispatch phase (exn_text e)))"

text \<open>The two \<open>except McpAdmissionError\<close>.\<close>

definition admitted :: "string \<Rightarrow> 'a res \<Rightarrow> 'a res" where
  "admitted phase r = (case r of
       Inl e \<Rightarrow> Inl (if catches [McpAdmissionError] e then pre_dispatch phase (exn_msg e) else e)
     | Inr a \<Rightarrow> Inr a)"

definition initialize_params :: "orchestrator \<Rightarrow> pdict" where
  "initialize_params orc = obj [(''protocolVersion'', PStr stable_protocol), (''capabilities'', PDict []),
     (''clientInfo'', PDict (obj [(''name'', PStr (client_name orc)), (''version'', PStr (client_version orc))]))]"

definition prepare :: "pyenv \<Rightarrow> orchestrator \<Rightarrow> 't transport_ops \<Rightarrow> pystr \<Rightarrow> pv \<Rightarrow> pystr \<Rightarrow> pystr \<Rightarrow> pystr
    \<Rightarrow> ('t, prepared_call) py" where
  "prepare env orc tr tool arguments op aid key =
     bnd (phase_request tr ''initialize'' ''initialize'' (initialize_params orc)) (\<lambda>init.
     bnd (lift (admitted ''initialize_validation'' (validate_initialize env (PDict init)))) (\<lambda>server.
     seq (phase_notify tr ''initialized_notification'' ''notifications/initialized'' [])
     (bnd (phase_request tr ''tools_list'' ''tools/list'' []) (\<lambda>tools.
      bnd (lift (admitted ''admission'' (rbind (validate_tools_list env server tool (PDict tools)) (\<lambda>snap.
          admit env (orc_admission orc) snap op aid key arguments)))) (\<lambda>q.
      ret \<lparr>prepared_request = q, prepared_server = ss_server_identity server,
        prepared_protocol = ss_protocol_version server, prepared_tool = tool\<rparr>)))))"

section \<open>Execution\<close>

definition binding_fields :: "string list" where
  "binding_fields = [''protocol_version'', ''server_identity'', ''server_capabilities_hash'', ''tool_name'',
     ''tool_schema_hash'']"

definition keys_are :: "pdict \<Rightarrow> string list \<Rightarrow> bool" where
  "keys_are d ks \<longleftrightarrow> fst ` set d = (\<lambda>k. PStr (str k)) ` set ks"

text \<open>\<open>[0-9a-f]{64}\Z\<close>\<close>

definition sha256_hex :: "pystr \<Rightarrow> bool" where
  "sha256_hex s \<longleftrightarrow> length s = 64 \<and> list_all (\<lambda>c. (48 \<le> c \<and> c \<le> 57) \<or> (97 \<le> c \<and> c \<le> 102)) s"

definition stripped_field :: "pv \<Rightarrow> bool" where
  "stripped_field v \<longleftrightarrow> (case v of PStr s \<Rightarrow> strip s \<noteq> [] \<and> s = strip s | _ \<Rightarrow> False)"

definition digest_field :: "pv \<Rightarrow> bool" where
  "digest_field v \<longleftrightarrow> (case v of PStr s \<Rightarrow> sha256_hex s | _ \<Rightarrow> False)"

definition validated_dispatch_parameters :: "pyenv \<Rightarrow> execution_request \<Rightarrow> (pv \<times> pv) res" where
  "validated_dispatch_parameters env q =
     (if \<not> keys_are (parameters q) [''mcp'', ''arguments'']
      then err McpAdmissionError ''MCP request parameters must contain only mcp and arguments''
      else case (dget_none (parameters q) (str ''mcp''), dget_none (parameters q) (str ''arguments'')) of
        (PDict mcp, PDict arguments) \<Rightarrow>
          (if \<not> keys_are mcp binding_fields
           then err McpAdmissionError ''MCP admission binding fields are incomplete or unexpected''
           else if \<not> list_all (\<lambda>f. stripped_field (dget_none mcp (str f)))
             [''protocol_version'', ''server_identity'', ''tool_name'']
           then err McpAdmissionError ''MCP admission field is invalid''
           else if dget_none mcp (str ''protocol_version'') \<noteq> PStr stable_protocol
           then err McpAdmissionError ''stable MCP executor requires protocol 2025-11-25''
           else if \<not> list_all (\<lambda>f. digest_field (dget_none mcp (str f)))
             [''server_capabilities_hash'', ''tool_schema_hash'']
           then err McpAdmissionError ''MCP admission field must be a lowercase SHA-256 hex digest''
           else rbind (strict_document env (PDict arguments)) (\<lambda>(detached, _). case detached of
               PDict d \<Rightarrow> Inr (dget_none mcp (str ''tool_name''), detached)
             | _ \<Rightarrow> err McpAdmissionError ''arguments must be a JSON object''))
      | _ \<Rightarrow> err McpAdmissionError ''MCP admission envelope must contain object values'')"

text \<open>The observer returns \<open>None\<close> for an object that is not a \<open>ReadbackEvidence\<close>.\<close>

type_synonym 't observer = "execution_request \<Rightarrow> pdict \<Rightarrow> ('t, readback_evidence option) py"

record 't tool_executor =
  readback_observer :: "'t observer option"
  require_readback :: bool

fun type_name :: "pv \<Rightarrow> pystr" where
  "type_name PNone = str ''NoneType''"
| "type_name (PBool b) = str ''bool''"
| "type_name (PInt i) = str ''int''"
| "type_name (PFloat x) = str ''float''"
| "type_name (PStr s) = str ''str''"
| "type_name (PList vs) = str ''list''"
| "type_name (PTuple vs) = str ''tuple''"
| "type_name (PDict d) = str ''dict''"
| "type_name (PObj t s) = t"

definition dispatch_state :: "string \<Rightarrow> pdict" where
  "dispatch_state s = obj [(''dispatch_state'', PStr (str s))]"

definition tool_outcome :: "execution_status \<Rightarrow> pdict \<Rightarrow> readback_evidence option \<Rightarrow> pystr option
    \<Rightarrow> execution_result" where
  "tool_outcome st d rb why = \<lparr>status = st, evidence = obj [(''dispatch_state'', PStr (str ''sent'')),
     (''tool_result'', PDict d)], readback = rb, result_reason = why\<rparr>"

definition unverified_reason :: "readback_evidence \<Rightarrow> pystr" where
  "unverified_reason r = (case readback_reason r of
       Some (c # cs) \<Rightarrow> c # cs | _ \<Rightarrow> str ''readback_not_verified'')"

text \<open>From the decoded result on.\<close>

definition observe_result :: "'t tool_executor \<Rightarrow> execution_request \<Rightarrow> pdict \<Rightarrow> ('t, execution_result) py" where
  "observe_result x q d =
     (if dget_none d (str ''isError'') = PBool True
      then ret (tool_outcome FAILED d None (Some (str ''mcp_tool_error'')))
      else if \<not> require_readback x then ret (tool_outcome SUCCEEDED d None None)
      else case readback_observer x of
          None \<Rightarrow> ret (tool_outcome STATUS_UNKNOWN d None (Some (str ''independent_readback_required'')))
        | Some observe \<Rightarrow> handle (catches [TimeoutError, ConnectionError, OSError, ValueError, TypeError])
            (bnd (observe q d) (\<lambda>rb. case rb of
               None \<Rightarrow> ret (tool_outcome STATUS_UNKNOWN d None
                 (Some (str ''readback_observer_returned_invalid_evidence'')))
             | Some r \<Rightarrow> ret (tool_outcome (if verified r then SUCCEEDED else STATUS_UNKNOWN) d (Some r)
                 (if verified r then None
                  else Some (unverified_reason r)))))
            (\<lambda>e. ret (tool_outcome STATUS_UNKNOWN d None (Some (str ''readback_failed: '' @ exn_text e)))))"

text \<open>The handlers around the call, in order.\<close>

definition call_fault :: "exn \<Rightarrow> execution_result option" where
  "call_fault e =
     (if catches [McpToolCallNotSentError] e
      then Some \<lparr>status = FAILED, evidence = dispatch_state ''not_sent'', readback = None,
        result_reason = Some (exn_text e)\<rparr>
      else if catches [McpToolCallOutcomeUnknownError, TimeoutError, ConnectionError, OSError] e
      then Some \<lparr>status = STATUS_UNKNOWN, evidence = dispatch_state ''possibly_sent'', readback = None,
        result_reason = Some (exn_text e)\<rparr>
      else if catches [McpTransportError] e
      then Some \<lparr>status = STATUS_UNKNOWN, evidence = dispatch_state ''unknown'', readback = None,
        result_reason = Some (exn_text e)\<rparr>
      else None)"

definition tool_execute :: "pyenv \<Rightarrow> 't tool_executor \<Rightarrow> 't transport_ops \<Rightarrow> execution_request
    \<Rightarrow> ('t, execution_result) py" where
  "tool_execute env x tr q =
     (if action q \<noteq> str ''mcp_tool_call''
      then ret \<lparr>status = FAILED, evidence = [], readback = None, result_reason = Some (str ''unsupported_action'')\<rparr>
      else case validated_dispatch_parameters env q of
        Inl e \<Rightarrow> (if catches [McpAdmissionError] e
          then ret \<lparr>status = FAILED, evidence = dispatch_state ''not_sent'', readback = None,
            result_reason = Some (str ''invalid_mcp_admission_envelope: '' @ exn_msg e)\<rparr>
          else throw e)
      | Inr (tool, arguments) \<Rightarrow> (\<lambda>s.
          case tr_request tr (str ''tools/call'') (obj [(''name'', tool), (''arguments'', arguments)]) s of
            (Inl e, t) \<Rightarrow> (case call_fault e of Some r \<Rightarrow> (Inr r, t) | None \<Rightarrow> (Inl e, t))
          | (Inr (PDict d), t) \<Rightarrow> observe_result x q d t
          | (Inr v, t) \<Rightarrow> (Inr \<lparr>status = STATUS_UNKNOWN,
              evidence = obj [(''dispatch_state'', PStr (str ''sent'')), (''response_shape'', PStr (type_name v))],
              readback = None, result_reason = Some (str ''tools_call_returned_non_object_result'')\<rparr>, t)))"

section \<open>What is sent\<close>

text \<open>A transport that records every message it is asked to send.\<close>

locale recording =
  fixes ops :: "'s transport_ops" and log :: "'s \<Rightarrow> (pystr \<times> pdict) list"
  assumes request_recorded: "tr_request ops m p s = (r, t) \<Longrightarrow> log t = log s @ [(m, p)]"
    and notify_recorded: "tr_notify ops m p s = (r', t) \<Longrightarrow> log t = log s @ [(m, p)]"
begin

lemma wp_request:
  "(\<And>d t. log t = log s @ [(str m, p)] \<Longrightarrow> Q d t) \<Longrightarrow> (\<And>e t. log t = log s @ [(str m, p)] \<Longrightarrow> E e t) \<Longrightarrow>
     wp (phase_request ops phase m p) Q E s"
  unfolding phase_request_def wp
  by (rule wpI) (auto dest!: request_recorded simp: wp split: pv.split)

lemma wp_notify:
  "(\<And>u t. log t = log s @ [(str m, p)] \<Longrightarrow> Q u t) \<Longrightarrow> (\<And>e t. log t = log s @ [(str m, p)] \<Longrightarrow> E e t) \<Longrightarrow>
     wp (phase_notify ops phase m p) Q E s"
  unfolding phase_notify_def wp
  by (rule wpI) (auto dest!: notify_recorded simp: wp)

end

definition prepare_calls :: "orchestrator \<Rightarrow> (pystr \<times> pdict) list" where
  "prepare_calls orc = [(str ''initialize'', initialize_params orc),
     (str ''notifications/initialized'', []), (str ''tools/list'', [])]"

text \<open>What the preparation computes from the server's two answers.\<close>

definition prepared_from :: "pyenv \<Rightarrow> orchestrator \<Rightarrow> pystr \<Rightarrow> pv \<Rightarrow> pystr \<Rightarrow> pystr \<Rightarrow> pystr \<Rightarrow> pdict \<Rightarrow> pdict
    \<Rightarrow> prepared_call \<Rightarrow> bool" where
  "prepared_from env orc tool arguments op aid key init tools p \<longleftrightarrow>
     (\<exists>server snap. validate_initialize env (PDict init) = Inr server
       \<and> validate_tools_list env server tool (PDict tools) = Inr snap
       \<and> admit env (orc_admission orc) snap op aid key arguments = Inr (prepared_request p)
       \<and> prepared_server p = ss_server_identity server
       \<and> prepared_protocol p = ss_protocol_version server \<and> prepared_tool p = tool)"

context recording
begin

lemma wp_prepare:
  "wp (prepare env orc ops tool arguments op aid key)
     (\<lambda>p t. log t = log s @ prepare_calls orc
       \<and> (\<exists>init tools. prepared_from env orc tool arguments op aid key init tools p))
     (\<lambda>_ t. \<exists>k \<in> {1, 2, 3}. log t = log s @ take k (prepare_calls orc)) s"
    (is "wp _ ?Q ?E s")
proof -
  let ?finish = "\<lambda>server tools. bnd (lift (admitted ''admission'' (rbind (validate_tools_list env server tool (PDict tools))
      (\<lambda>snap. admit env (orc_admission orc) snap op aid key arguments)))) (\<lambda>q.
      ret \<lparr>prepared_request = q, prepared_server = ss_server_identity server,
        prepared_protocol = ss_protocol_version server, prepared_tool = tool\<rparr>)"
  have takes: "take 1 (prepare_calls orc) = [(str ''initialize'', initialize_params orc)]"
    "take 1 (prepare_calls orc) @ [(str ''notifications/initialized'', [])] = take 2 (prepare_calls orc)"
    "take 2 (prepare_calls orc) @ [(str ''tools/list'', [])] = prepare_calls orc"
    "take 3 (prepare_calls orc) = prepare_calls orc"
    by (simp_all add: prepare_calls_def)
  have failed: "?E e t" if "log t = log s @ take k (prepare_calls orc)" "k \<in> {1, 2, 3}" for e t k
    using that by blast
  have admission: "wp (?finish server tools) ?Q ?E t"
    if "log t = log s @ prepare_calls orc" "validate_initialize env (PDict init) = Inr server" for init server tools t
    using that failed [of t 3] by (auto simp: wp prepared_from_def admitted_def takes rbind_eq_Inr split: sum.split; blast)
  have listing: "wp (bnd (phase_request ops ''tools_list'' ''tools/list'' []) (?finish server)) ?Q ?E t"
    if "log t = log s @ take 2 (prepare_calls orc)" "validate_initialize env (PDict init) = Inr server" for init server t
    unfolding wp(6) [of "phase_request ops ''tools_list'' ''tools/list'' []"]
  proof (rule wp_request)
    fix d u assume "log u = log t @ [(str ''tools/list'', [])]"
    then have "log u = log s @ prepare_calls orc" using that(1) takes(3) by simp
    from admission [OF this that(2)] show "wp (?finish server d) ?Q ?E u" .
  next
    fix e u assume "log u = log t @ [(str ''tools/list'', [])]"
    with that(1) takes show "?E e u" by (intro failed [of _ 3]) simp_all
  qed
  have notifying: "wp (seq (phase_notify ops ''initialized_notification'' ''notifications/initialized'' [])
      (bnd (phase_request ops ''tools_list'' ''tools/list'' []) (?finish server))) ?Q ?E t"
    if "log t = log s @ take 1 (prepare_calls orc)" "validate_initialize env (PDict init) = Inr server" for init server t
    unfolding wp(7)
  proof (rule wp_notify)
    fix d u assume "log u = log t @ [(str ''notifications/initialized'', [])]"
    then have "log u = log s @ take 2 (prepare_calls orc)" using that(1) takes(2) by simp
    from listing [OF this that(2)]
    show "wp (bnd (phase_request ops ''tools_list'' ''tools/list'' []) (?finish server)) ?Q ?E u" .
  next
    fix e u assume "log u = log t @ [(str ''notifications/initialized'', [])]"
    with that(1) takes show "?E e u" by (intro failed [of _ 2]) simp_all
  qed
  show ?thesis
    unfolding prepare_def wp(6) [of "phase_request ops ''initialize'' ''initialize'' (initialize_params orc)"]
  proof (rule wp_request)
    fix init t assume t: "log t = log s @ [(str ''initialize'', initialize_params orc)]"
    then have t1: "log t = log s @ take 1 (prepare_calls orc)" using takes(1) by simp
    show "wp (bnd (lift (admitted ''initialize_validation'' (validate_initialize env (PDict init)))) (\<lambda>server.
       seq (phase_notify ops ''initialized_notification'' ''notifications/initialized'' [])
      (bnd (phase_request ops ''tools_list'' ''tools/list'' []) (?finish server)))) ?Q ?E t"
      unfolding wp(6) [of "lift r" for r] wp(4)
      using notifying [OF t1] failed [OF t1]
      by (cases "validate_initialize env (PDict init)") (simp_all add: admitted_def)
  next
    fix e t assume "log t = log s @ [(str ''initialize'', initialize_params orc)]"
    with takes(1) show "?E e t" by (intro failed [of _ 1]) simp_all
  qed
qed

end

interpretation wire: recording "over_wire tr" calls for tr
  by unfold_locales (auto simp: over_wire_def on_wire_def zoom_def split: prod.splits)

text \<open>
  Preparing a call sends the initialize request, the initialized notification and the
  tools/list request, in this order and nothing else, so it never calls a tool, whatever the
  server answers; what it returns is the admission of the call against those answers.
\<close>

theorem prepare_sends_three:
  "case prepare env orc (over_wire tr) tool arguments op aid key s of
     (Inl _, t) \<Rightarrow> \<exists>k \<in> {1, 2, 3}. calls t = calls s @ take k (prepare_calls orc)
   | (Inr p, t) \<Rightarrow> calls t = calls s @ prepare_calls orc
       \<and> (\<exists>init tools. prepared_from env orc tool arguments op aid key init tools p)"
  using wire.wp_prepare [of env orc tr tool arguments op aid key s]
  by (auto simp: wp_def split: prod.splits sum.splits)

section \<open>What is prepared is sent\<close>

lemma strict_again:
  "strict_value b depth v = Inr (w, b') \<Longrightarrow> proper v \<Longrightarrow> strict_value b depth w = Inr (w, b')"
  "strict_list b depth vs = Inr (ws, b') \<Longrightarrow> proper_list vs \<Longrightarrow> strict_list b depth ws = Inr (ws, b')"
  "strict_items b depth kvs out = Inr (os, b') \<Longrightarrow> proper_items kvs \<Longrightarrow> distinct (map fst kvs) \<Longrightarrow>
     fst ` set kvs \<inter> fst ` set out = {} \<Longrightarrow> \<exists>ks. os = out @ ks \<and> map fst ks = map fst kvs
       \<and> (\<forall>out'. fst ` set kvs \<inter> fst ` set out' = {} \<longrightarrow> strict_items b depth ks out' = Inr (out' @ ks, b'))"
proof (induction b depth v and b depth vs and b depth kvs out
    arbitrary: w b' and ws b' and os b' rule: strict_value_strict_list_strict_items.induct)
  case (3 b depth kvs)
  from 3(2) obtain b1 os where 1: "consume_node b = Inr b1" "\<not> depth \<ge> max_nesting"
    "strict_items b1 (depth + 1) kvs [] = Inr (os, b')" "w = PDict os"
    by (auto simp: rbind_eq_Inr split: if_splits)
  with "3.IH" [of b1 os b'] 3(3) show ?case by auto
next
  case (4 b depth vs)
  from 4(2) obtain b1 ws where 1: "consume_node b = Inr b1" "\<not> depth \<ge> max_nesting"
    "strict_list b1 (depth + 1) vs = Inr (ws, b')" "w = PList ws"
    by (auto simp: rbind_eq_Inr split: if_splits)
  with "4.IH" [of b1 ws b'] 4(3) show ?case by simp
next
  case (5 b depth vs)
  from 5(2) obtain b1 ws where 1: "consume_node b = Inr b1" "\<not> depth \<ge> max_nesting"
    "strict_list b1 (depth + 1) vs = Inr (ws, b')" "w = PList ws"
    by (auto simp: rbind_eq_Inr split: if_splits)
  with "5.IH" [of b1 ws b'] 5(3) show ?case by simp
next
  case (9 b depth v vs)
  from 9(3) obtain u us b1 where u: "strict_value b depth v = Inr (u, b1)"
    and us: "strict_list b1 depth vs = Inr (us, b')" and ws: "ws = u # us"
    by (auto simp: rbind_eq_Inr)
  from 9(4) have "proper v" "proper_list vs" by simp_all
  with "9.IH"(1) [OF u] "9.IH"(2) [OF us] ws show ?case by simp
next
  case (11 b depth k v kvs out)
  from 11(3) obtain s w b1 b2 where k: "k = PStr s" and s: "consume_string b s = Inr b1"
    and w: "strict_value b1 depth v = Inr (w, b2)"
    and os: "strict_items b2 depth kvs (dset s w out) = Inr (os, b')"
    by (auto simp: rbind_eq_Inr split: pv.splits)
  have pv: "proper v" "proper_items kvs" "distinct (map fst kvs)" "k \<notin> fst ` set kvs" using 11(4,5) by auto
  have "PStr s \<notin> fst ` set out" using 11(6) k by auto
  then have d: "dset s w out = out @ [(PStr s, w)]" by (rule dset_fresh)
  have disj: "fst ` set kvs \<inter> fst ` set (dset s w out) = {}" using 11(6) pv(4) k d by auto
  from "11.IH"(2) [OF k os pv(2,3) disj] obtain ks where ks: "os = dset s w out @ ks" "map fst ks = map fst kvs"
    "\<And>out'. fst ` set kvs \<inter> fst ` set out' = {} \<Longrightarrow> strict_items b2 depth ks out' = Inr (out' @ ks, b')"
    by blast
  have again: "strict_items b depth ((PStr s, w) # ks) out' = Inr (out' @ (PStr s, w) # ks, b')"
    if "fst ` set ((k, v) # kvs) \<inter> fst ` set out' = {}" for out'
  proof -
    from that k have "PStr s \<notin> fst ` set out'" by auto
    then have d': "dset s w out' = out' @ [(PStr s, w)]" by (rule dset_fresh)
    have "fst ` set kvs \<inter> fst ` set (dset s w out') = {}" using that pv(4) k d' by auto
    from ks(3) [OF this] "11.IH"(1) [OF k w pv(1)] s d' show ?thesis by simp
  qed
  show ?case by (rule exI [of _ "(PStr s, w) # ks"]) (use ks(1,2) d k again in auto)
qed (auto simp: rbind_eq_Inr split: if_splits)

lemma plain_json_strict: "plain_json empty_budget 0 v = Inr wb \<longleftrightarrow> strict_value empty_budget 0 v = Inr wb"
  using plain_json_same(1) [of empty_budget 0 v]
  by (cases "strict_value empty_budget 0 v") (auto simp: budget_ok_def empty_budget_def)

lemma strict_document_again:
  assumes "strict_document env v = Inr (w, b)" "proper v"
  shows "strict_document env w = Inr (w, b)" "to_doc v = Inr w"
proof -
  from assms(1) obtain b' where w: "strict_value empty_budget 0 v = Inr (w, b')"
    and b: "admission_bytes env w = Inr b"
    unfolding strict_document_def rbind_eq_Inr plain_json_strict by (auto simp: rbind_eq_Inr)
  from strict_again(1) [OF w assms(2)] have "plain_json empty_budget 0 w = Inr (w, b')"
    by (simp add: plain_json_strict)
  then show "strict_document env w = Inr (w, b)" by (simp add: strict_document_def b)
  show "to_doc v = Inr w" using strict_is_to_doc(1) [OF w assms(2)] .
qed

lemma strip_fixed: "strip s = s \<longleftrightarrow> s = [] \<or> (\<not> is_space (hd s) \<and> \<not> is_space (last s))"
proof -
  have ends: "\<not> is_space (hd s) \<and> \<not> is_space (last s)" if "strip s = s" "s \<noteq> []"
  proof -
    define a where "a = dropWhile is_space s"
    have s: "rev s = dropWhile is_space (rev a)" using that(1) by (metis strip_def a_def rev_rev_ident)
    have "length s \<le> length a" by (metis s length_dropWhile_le length_rev)
    moreover have "length a \<le> length s" unfolding a_def by (rule length_dropWhile_le)
    moreover have "\<exists>zs. s = zs @ a" by (metis a_def takeWhile_dropWhile_id)
    ultimately have "a = s" by auto
    with s that(2) show ?thesis
      by (metis a_def dropWhile_idem hd_dropWhile hd_rev rev_is_Nil_conv)
  qed
  have "strip s = s" if "\<not> is_space (hd s)" "\<not> is_space (last s)" "s \<noteq> []"
  proof -
    have fixed: "dropWhile is_space u = u" if "u \<noteq> []" "\<not> is_space (hd u)" for u
      using that by (cases u) auto
    have "dropWhile is_space s = s" "dropWhile is_space (rev s) = rev s"
      using that by (auto intro!: fixed simp: hd_rev)
    then show ?thesis by (simp add: strip_def)
  qed
  with ends show ?thesis by (cases "s = []") (auto simp: strip_def)
qed

lemma plain_json_dict: "plain_json b n (PDict d) = Inr (w, b') \<Longrightarrow> \<exists>e. w = PDict e"
  unfolding plain_json.simps rbind_eq_Inr
  by (cases "n \<ge> max_nesting") (auto simp: rbind_eq_Inr simp del: plain_json_items.simps)

lemma strict_document_dict: "strict_document env (PDict d) = Inr (w, b) \<Longrightarrow> \<exists>e. w = PDict e"
  unfolding strict_document_def rbind_eq_Inr
  by (auto simp del: plain_json.simps simp: rbind_eq_Inr dest: plain_json_dict)

definition sha_ok :: "pyenv \<Rightarrow> bool" where
  "sha_ok env \<longleftrightarrow> (\<forall>b. sha256_hex (sha256 env b))"

lemma strict_snapshot_hash: "sha_ok env \<Longrightarrow> strict_snapshot env v = Inr (w, h) \<Longrightarrow> sha256_hex h"
  unfolding strict_snapshot_def rbind_eq_Inr by (auto simp: sha_ok_def)

lemma make_tool_snapshot_fields:
  "make_tool_snapshot env ver ident caps name schema = Inr t \<Longrightarrow> sha_ok env \<Longrightarrow>
     ts_protocol_version t = ver \<and> ts_server_identity t = ident \<and> ts_tool_name t = name
     \<and> sha256_hex (ts_capabilities_hash t) \<and> sha256_hex (ts_schema_hash t) \<and> \<not> blank name"
  unfolding make_tool_snapshot_def
  by (auto simp: rbind_eq_Inr dest: strict_snapshot_hash split: if_splits)

lemma required_text_fixed: "required_text v = Inr s \<Longrightarrow> s \<noteq> [] \<and> strip s = s"
  by (auto simp: required_text_def split: pv.splits if_splits)

lemma validate_initialize_fields:
  assumes "validate_initialize env v = Inr server"
  shows "ss_protocol_version server = stable_protocol" "stripped_field (PStr (ss_server_identity server))"
proof -
  from assms obtain name version caps where n: "name \<noteq> [] \<and> strip name = name"
    "version \<noteq> [] \<and> strip version = version"
    and m: "make_server_snapshot env stable_protocol (name @ 64 # version) (PDict caps) = Inr server"
    unfolding validate_initialize_def
    by (auto simp: rbind_eq_Inr dest!: required_text_fixed split: if_splits)
  from m have s: "ss_protocol_version server = stable_protocol" "ss_server_identity server = name @ 64 # version"
    unfolding make_server_snapshot_def by (auto simp: rbind_eq_Inr)
  have "strip (name @ 64 # version) = name @ 64 # version"
    using n by (auto simp: strip_fixed hd_append)
  with s show "ss_protocol_version server = stable_protocol" "stripped_field (PStr (ss_server_identity server))"
    by (simp_all add: stripped_field_def)
qed

lemma stable_protocol_stripped: "stripped_field (PStr stable_protocol)"
  by (simp add: stripped_field_def stable_protocol_def str_def strip_def is_space_def)

lemma validate_tools_list_fields:
  "validate_tools_list env server tool v = Inr t \<Longrightarrow> sha_ok env \<Longrightarrow>
     ts_protocol_version t = ss_protocol_version server \<and> ts_server_identity t = ss_server_identity server
     \<and> ts_tool_name t = strip tool \<and> stripped_field (PStr (strip tool))
     \<and> sha256_hex (ts_capabilities_hash t) \<and> sha256_hex (ts_schema_hash t)"
  unfolding validate_tools_list_def
  by (auto simp: rbind_eq_Inr required_text_def stripped_field_def
    dest!: make_tool_snapshot_fields split: option.splits if_splits)

lemma admit_fields:
  assumes "admit env adm t op aid key arguments = Inr q" "proper arguments"
  shows "\<exists>d b. to_doc arguments = Inr (PDict d) \<and> strict_document env (PDict d) = Inr (PDict d, b)
    \<and> action q = str ''mcp_tool_call''
    \<and> parameters q = obj [(''mcp'', PDict (admission_binding t)), (''arguments'', PDict d)]"
proof -
  from assms(1) obtain a w b where a: "arguments = PDict a"
    and w: "strict_document env arguments = Inr (w, b)"
    and q: "make_request op aid key (str ''mcp_tool_call'')
      (obj [(''mcp'', PDict (admission_binding t)), (''arguments'', w)]) = Inr q"
    unfolding admit_def by (auto simp: rbind_eq_Inr required_mapping_def split: if_splits pv.splits)
  from strict_document_dict w a obtain d where d: "w = PDict d" by blast
  from strict_document_again [OF w assms(2)] q d show ?thesis
    by (auto simp: make_request_def rbind_eq_Inr)
qed

lemma prepared_accepted:
  assumes "prepared_from env orc tool arguments op aid key init tools p" "sha_ok env" "proper arguments"
  shows "\<exists>d. to_doc arguments = Inr (PDict d) \<and> action (prepared_request p) = str ''mcp_tool_call''
    \<and> validated_dispatch_parameters env (prepared_request p) = Inr (PStr (strip tool), PDict d)"
proof -
  let ?q = "prepared_request p"
  from assms(1) obtain server snap where v: "validate_initialize env (PDict init) = Inr server"
    and t: "validate_tools_list env server tool (PDict tools) = Inr snap"
    and q: "admit env (orc_admission orc) snap op aid key arguments = Inr ?q"
    unfolding prepared_from_def by blast
  from admit_fields [OF q assms(3)] obtain d b where d: "to_doc arguments = Inr (PDict d)"
    "strict_document env (PDict d) = Inr (PDict d, b)" "action ?q = str ''mcp_tool_call''"
    "parameters ?q = obj [(''mcp'', PDict (admission_binding snap)), (''arguments'', PDict d)]"
    by blast
  note fields = validate_initialize_fields [OF v] validate_tools_list_fields [OF t assms(2)]
    stable_protocol_stripped
  have keys: "keys_are (parameters ?q) [''mcp'', ''arguments'']" "keys_are (admission_binding snap) binding_fields"
    by (simp_all add: d(4) keys_are_def obj_def admission_binding_def binding_fields_def)
  have gets: "dget_none (parameters ?q) (str ''mcp'') = PDict (admission_binding snap)"
    "dget_none (parameters ?q) (str ''arguments'') = PDict d"
    "dget_none (admission_binding snap) (str ''protocol_version'') = PStr (ts_protocol_version snap)"
    "dget_none (admission_binding snap) (str ''server_identity'') = PStr (ts_server_identity snap)"
    "dget_none (admission_binding snap) (str ''tool_name'') = PStr (ts_tool_name snap)"
    "dget_none (admission_binding snap) (str ''server_capabilities_hash'') = PStr (ts_capabilities_hash snap)"
    "dget_none (admission_binding snap) (str ''tool_schema_hash'') = PStr (ts_schema_hash snap)"
    by (simp_all add: d(4) dget_none_def admission_binding_def)
  have "validated_dispatch_parameters env ?q = Inr (PStr (strip tool), PDict d)"
    unfolding validated_dispatch_parameters_def gets
    using keys fields d(2) by (simp add: gets digest_field_def)
  with d show ?thesis by blast
qed

lemma calls_in_peer [simp]:
  "calls (snd (zoom peer (\<lambda>p s. s\<lparr>peer := p\<rparr>) m s)) = calls s"
  by (simp add: zoom_def split: prod.split)

text \<open>An observer that reaches the peer, and not the wire.\<close>

definition on_peer :: "'t tool_executor \<Rightarrow> 't wire tool_executor" where
  "on_peer x = \<lparr>readback_observer = map_option (\<lambda>ob q d. zoom peer (\<lambda>p s. s\<lparr>peer := p\<rparr>) (ob q d))
       (readback_observer x), require_readback = require_readback x\<rparr>"

text \<open>The exceptions of the validation are admission errors, so it never escapes.\<close>

definition admission_only :: "'a res \<Rightarrow> bool" where
  "admission_only r \<longleftrightarrow> (case r of Inl e \<Rightarrow> exn_kind e = McpAdmissionError | Inr _ \<Rightarrow> True)"

lemma admission_only_intros [intro]:
  "admission_only (Inr a)" "admission_only (err McpAdmissionError m)"
  "admission_only r \<Longrightarrow> (\<And>a. r = Inr a \<Longrightarrow> admission_only (f a)) \<Longrightarrow> admission_only (rbind r f)"
  "admission_only (admission_utf8 s)" "admission_only (consume_json_budget b n)"
  by (auto simp: admission_only_def admission_utf8_def consume_json_budget_def split: sum.splits)

lemma plain_json_errors:
  "admission_only (plain_json b n v)" "admission_only (plain_json_list b n vs)"
  "admission_only (plain_json_items b n kvs out)"
proof (induction b n v and b n vs and b n kvs out rule: plain_json_plain_json_list_plain_json_items.induct)
  case (11 b depth k v kvs out)
  then show ?case by (cases k) (auto intro!: admission_only_intros)
qed (auto intro!: admission_only_intros)

lemma to_doc_errors:
  "to_doc v = Inl e \<Longrightarrow> exn_kind e = TypeError" "to_docs vs = Inl e \<Longrightarrow> exn_kind e = TypeError"
  "to_items kvs = Inl e \<Longrightarrow> exn_kind e = TypeError"
  by (induction v and vs and kvs rule: to_doc_to_docs_to_items.induct)
    (auto simp: rbind_def split: sum.splits pv.splits)

lemma strict_document_errors: "admission_only (strict_document env v)"
proof -
  have "admission_only (wrap_encoding McpAdmissionError (canonical_bytes fr w))" for fr w
    by (auto simp: admission_only_def wrap_encoding_def canonical_bytes_def canonical_doc_def utf8_encode_def
      rbind_def catches_def split: sum.splits dest!: to_doc_errors(1))
  then have "admission_only (admission_bytes env w)" for w
    unfolding admission_bytes_def by (intro admission_only_intros(3)) auto
  then show ?thesis
    unfolding strict_document_def using plain_json_errors(1) by (auto intro!: admission_only_intros(3))
qed

lemma validated_errors: "admission_only (validated_dispatch_parameters env q)"
  using strict_document_errors [of env] unfolding validated_dispatch_parameters_def
  by (auto intro!: admission_only_intros(1-3) split: pv.split)

definition tool_call :: "pv \<Rightarrow> pv \<Rightarrow> pdict" where
  "tool_call tool arguments = obj [(''name'', tool), (''arguments'', arguments)]"

text \<open>
  What the executor may report, stated by the transport's answer and the observer's, each with the
  state of the peer it left: a result says its status, whether the request was sent, and the
  readback evidence it rests on.
\<close>

definition reported :: "exn + execution_result \<Rightarrow> execution_status \<Rightarrow> string \<Rightarrow> readback_evidence option \<Rightarrow> bool" where
  "reported r st sent rb \<longleftrightarrow> (\<exists>a. r = Inr a \<and> status a = st \<and> readback a = rb
     \<and> dget_none (evidence a) (str ''dispatch_state'') = PStr (str sent))"

text \<open>A fault of the transport: only one that is known to come before the sending is a failure.\<close>

definition fault_reported :: "exn \<Rightarrow> exn + execution_result \<Rightarrow> bool" where
  "fault_reported e r \<longleftrightarrow>
     (if exn_kind e = McpToolCallNotSentError then reported r FAILED ''not_sent'' None
      else if catches [McpTransportError] e \<and> exn_kind e \<noteq> McpToolCallOutcomeUnknownError
      then reported r STATUS_UNKNOWN ''unknown'' None
      else if exn_kind e = McpToolCallOutcomeUnknownError \<or> catches [TimeoutError, ConnectionError, OSError] e
      then reported r STATUS_UNKNOWN ''possibly_sent'' None
      else r = Inl e)"

text \<open>The answer of the observer, and what becomes of it.\<close>

definition readback_reported :: "exn + readback_evidence option \<Rightarrow> exn + execution_result \<Rightarrow> bool" where
  "readback_reported seen r \<longleftrightarrow> (case seen of
       Inr None \<Rightarrow> reported r STATUS_UNKNOWN ''sent'' None
     | Inr (Some rb) \<Rightarrow> reported r (if verified rb then SUCCEEDED else STATUS_UNKNOWN) ''sent'' (Some rb)
     | Inl e \<Rightarrow> if catches [TimeoutError, ConnectionError, OSError, ValueError, TypeError] e
         then reported r STATUS_UNKNOWN ''sent'' None else r = Inl e)"

text \<open>
  After the transport answered \<open>ans\<close> and left the peer at \<open>p\<close>, the executor returns \<open>r\<close> and leaves the
  peer at \<open>p'\<close>. The observer is asked exactly for an object without an error, when readback is required.
\<close>

definition call_answered :: "'t tool_executor \<Rightarrow> execution_request \<Rightarrow> exn + pv \<Rightarrow> 't \<Rightarrow> exn + execution_result \<Rightarrow> 't \<Rightarrow> bool" where
  "call_answered x q ans p r p' \<longleftrightarrow> (case ans of
       Inl e \<Rightarrow> p' = p \<and> fault_reported e r
     | Inr v \<Rightarrow> (case v of
         PDict d \<Rightarrow>
          (if dget_none d (str ''isError'') = PBool True then p' = p \<and> reported r FAILED ''sent'' None
           else if \<not> require_readback x then p' = p \<and> reported r SUCCEEDED ''sent'' None
           else case readback_observer x of
               None \<Rightarrow> p' = p \<and> reported r STATUS_UNKNOWN ''sent'' None
             | Some ob \<Rightarrow> p' = snd (ob q d p) \<and> readback_reported (fst (ob q d p)) r)
       | _ \<Rightarrow> p' = p \<and> reported r STATUS_UNKNOWN ''sent'' None))"

lemma dispatch_state_get [simp]:
  "dget_none (dispatch_state s) (str ''dispatch_state'') = PStr (str s)"
  "dget_none (obj ((''dispatch_state'', v) # r)) (str ''dispatch_state'') = v"
  by (simp_all add: dispatch_state_def dget_none_def)

lemma call_fault_reported:
  "fault_reported e (case call_fault e of Some r \<Rightarrow> Inr r | None \<Rightarrow> Inl e)"
proof -
  have "catches [McpToolCallNotSentError] e \<longleftrightarrow> exn_kind e = McpToolCallNotSentError"
    "catches [McpToolCallOutcomeUnknownError, TimeoutError, ConnectionError, OSError] e \<longleftrightarrow>
      exn_kind e = McpToolCallOutcomeUnknownError \<or> catches [TimeoutError, ConnectionError, OSError] e"
    "catches [McpTransportError] e \<Longrightarrow> \<not> catches [TimeoutError, ConnectionError, OSError] e"
    "exn_kind e = McpToolCallOutcomeUnknownError \<Longrightarrow> \<not> catches [TimeoutError, ConnectionError, OSError] e"
    by (cases "exn_kind e"; simp add: catches_def)+
  then show ?thesis by (auto simp: fault_reported_def call_fault_def reported_def)
qed

lemma observe_result_answered:
  assumes "observe_result (on_peer x) q d s = (r, t)"
  shows "calls t = calls s \<and> call_answered x q (Inr (PDict d)) (peer s) r (peer t)"
proof (cases "dget_none d (str ''isError'') = PBool True \<or> \<not> require_readback x \<or> readback_observer x = None")
  case True
  with assms show ?thesis
    by (auto simp: observe_result_def on_peer_def call_answered_def reported_def tool_outcome_def ret_def)
next
  case False
  then obtain ob where ob: "readback_observer x = Some ob" by auto
  obtain seen p where seen: "ob q d (peer s) = (seen, p)" by (cases "ob q d (peer s)")
  have run: "observe_result (on_peer x) q d s = (case seen of
       Inl e \<Rightarrow> if catches [TimeoutError, ConnectionError, OSError, ValueError, TypeError] e
         then (Inr (tool_outcome STATUS_UNKNOWN d None (Some (str ''readback_failed: '' @ exn_text e))), s\<lparr>peer := p\<rparr>)
         else (Inl e, s\<lparr>peer := p\<rparr>)
     | Inr rb \<Rightarrow> (case rb of
         None \<Rightarrow> (Inr (tool_outcome STATUS_UNKNOWN d None (Some (str ''readback_observer_returned_invalid_evidence''))), s\<lparr>peer := p\<rparr>)
       | Some r \<Rightarrow> (Inr (tool_outcome (if verified r then SUCCEEDED else STATUS_UNKNOWN) d (Some r)
                 (if verified r then None else Some (unverified_reason r))), s\<lparr>peer := p\<rparr>)))"
    using False ob seen
    by (auto simp: observe_result_def on_peer_def handle_def bnd_def zoom_def ret_def split: sum.split option.split)
  have "calls t = calls s \<and> peer t = p \<and> readback_reported seen r"
  proof (cases seen)
    case (Inl e)
    with assms run show ?thesis by (auto simp: readback_reported_def reported_def tool_outcome_def split: if_splits)
  next
    case (Inr rb)
    with assms run show ?thesis by (cases rb) (auto simp: readback_reported_def reported_def tool_outcome_def)
  qed
  with False ob seen show ?thesis by (auto simp: call_answered_def)
qed

lemma tool_execute_called:
  assumes q: "action q = str ''mcp_tool_call''" "validated_dispatch_parameters env q = Inr (tool, arguments)"
    and a: "tr_request tr (str ''tools/call'') (tool_call tool arguments) (peer s) = (v, p)"
  shows "case tool_execute env (on_peer x) (over_wire tr) q s of (r, t) \<Rightarrow>
     calls t = calls s @ [(str ''tools/call'', tool_call tool arguments)] \<and> call_answered x q v p r (peer t)"
proof -
  let ?t = "s\<lparr>calls := calls s @ [(str ''tools/call'', tool_call tool arguments)], peer := p\<rparr>"
  have req: "tr_request (over_wire tr) (str ''tools/call'') (tool_call tool arguments) s = (v, ?t)"
    using a by (simp add: over_wire_def on_wire_def zoom_def)
  have run: "tool_execute env (on_peer x) (over_wire tr) q s = (case v of
      Inl e \<Rightarrow> (case call_fault e of Some r \<Rightarrow> (Inr r, ?t) | None \<Rightarrow> (Inl e, ?t))
    | Inr w \<Rightarrow> (case w of PDict d \<Rightarrow> observe_result (on_peer x) q d ?t
      | _ \<Rightarrow> (Inr \<lparr>status = STATUS_UNKNOWN,
              evidence = obj [(''dispatch_state'', PStr (str ''sent'')), (''response_shape'', PStr (type_name w))],
              readback = None, result_reason = Some (str ''tools_call_returned_non_object_result'')\<rparr>, ?t)))"
    using q req unfolding tool_call_def by (auto simp: tool_execute_def split: sum.split pv.split)
  show ?thesis
  proof (cases v)
    case (Inl e)
    with call_fault_reported [of e] show ?thesis
      by (cases "call_fault e") (simp_all add: run call_answered_def)
  next
    case (Inr w)
    show ?thesis
    proof (cases "\<exists>d. w = PDict d")
      case True
      then obtain d where d: "w = PDict d" by blast
      show ?thesis
        using observe_result_answered [of x q d ?t] by (auto simp: run Inr d split: prod.split)
    next
      case False
      then show ?thesis by (cases w) (simp_all add: run Inr call_answered_def reported_def)
    qed
  qed
qed

text \<open>
  C28. A call that was prepared is sent as prepared: the executor asks the transport once, for
  the tool with its name stripped and the arguments as the JSON they stand for.
\<close>

theorem prepared_is_sent:
  assumes "sha_ok env" "proper arguments"
    and "prepare env orc (over_wire tr) tool arguments op aid key s = (Inr p, s')"
  shows "\<exists>d. to_doc arguments = Inr (PDict d)
    \<and> calls (snd (tool_execute env (on_peer x) (over_wire tr') (prepared_request p) u))
      = calls u @ [(str ''tools/call'', tool_call (PStr (strip tool)) (PDict d))]"
proof -
  from wire.wp_prepare [of env orc tr tool arguments op aid key s] assms(3)
  obtain init tools where "prepared_from env orc tool arguments op aid key init tools p" by (auto simp: wp_def)
  from prepared_accepted [OF this assms(1,2)] obtain d where d: "to_doc arguments = Inr (PDict d)"
    "action (prepared_request p) = str ''mcp_tool_call''"
    "validated_dispatch_parameters env (prepared_request p) = Inr (PStr (strip tool), PDict d)" by blast
  from tool_execute_called [OF d(2,3) surjective_pairing, where x = x and tr = tr' and s = u] d(1)
  show ?thesis by (auto split: prod.splits)
qed

text \<open>
  C29. The executor calls the tool at most once, and each result says what the transport and the
  observer answered. Without a call the result is a failure. A fault of the transport is a failure
  only when the request is known not to have been sent, and otherwise of unknown outcome. An object
  that reports an error is a failure, another answer than an object of unknown outcome. For any
  other answer the observer is asked once, with the request and that answer, where readback is
  required: its evidence is the evidence of the result, which succeeds exactly if it is verified,
  and is of unknown outcome when there is no observer, no evidence, or the observer fails.
\<close>

theorem tool_call_contract:
  "case tool_execute env (on_peer x) (over_wire tr) q s of (r, t) \<Rightarrow>
     case (if action q = str ''mcp_tool_call'' then validated_dispatch_parameters env q
           else err McpAdmissionError ''unsupported_action'') of
       Inl e \<Rightarrow> t = s \<and> (\<exists>a. r = Inr a \<and> status a = FAILED \<and> readback a = None)
     | Inr (tool, arguments) \<Rightarrow> calls t = calls s @ [(str ''tools/call'', tool_call tool arguments)]
         \<and> (case tr_request tr (str ''tools/call'') (tool_call tool arguments) (peer s) of (ans, p) \<Rightarrow>
              call_answered x q ans p r (peer t))"
proof (cases "action q = str ''mcp_tool_call''")
  case True
  show ?thesis
  proof (cases "validated_dispatch_parameters env q")
    case (Inl e)
    then have "catches [McpAdmissionError] e"
      using validated_errors [of env q] by (simp add: admission_only_def catches_def)
    with True Inl show ?thesis by (simp add: tool_execute_def)
  next
    case (Inr ta)
    then show ?thesis
      using tool_execute_called [OF True _ surjective_pairing, where x = x and tr = tr and s = s and env = env] True
      by (cases ta) (simp add: case_prod_unfold)
  qed
qed (simp add: tool_execute_def)

section \<open>A run\<close>

definition demo_mcp_env :: pyenv where
  "demo_mcp_env = \<lparr>sha256 = (\<lambda>_. replicate 64 97), float_repr = (\<lambda>_. []), container_repr = (\<lambda>_. []),
     iso_time = (\<lambda>_. [])\<rparr>"

definition demo_server :: "unit transport_ops" where
  "demo_server = \<lparr>tr_request = (\<lambda>m p s. (Inr (PDict (obj (if m = str ''initialize''
      then [(''protocolVersion'', PStr stable_protocol),
        (''serverInfo'', PDict (obj [(''name'', PStr (str ''s'')), (''version'', PStr (str ''1''))])),
        (''capabilities'', PDict (obj [(''tools'', PDict [])]))]
      else [(''tools'', PList [PDict (obj [(''name'', PStr (str ''t'')),
        (''inputSchema'', PDict (obj [(''type'', PStr (str ''object''))]))])])]))), s)),
     tr_notify = (\<lambda>m p s. (Inr (), s))\<rparr>"

definition demo_orchestrator :: orchestrator where
  "demo_orchestrator = \<lparr>orc_admission = \<lparr>contract = obj [(''versions'', PList [PDict (obj
      [(''protocol_version'', PStr stable_protocol), (''requires_experimental_flag'', PBool False),
       (''lifecycle'', PStr (str ''stable''))])])], experimental = False\<rparr>,
     client_name = str ''c'', client_version = str ''1''\<rparr>"

definition demo_arguments :: pv where
  "demo_arguments = PDict [(PStr (str ''a''), PTuple [PInt 1, PNone])]"

lemma obj_pairs: "obj [] = []" "obj ((k, v) # r) = (PStr (str k), v) # obj r"
  by (simp_all add: obj_def)

lemma demo_document:
  assumes "strict_value empty_budget 0 v = Inr (w, b)" "to_doc w = Inr w" "canon w = w"
    "list_all (\<lambda>c. c < 128) (json_text (\<lambda>_. []) w)" "length (json_text (\<lambda>_. []) w) \<le> 100"
  shows "\<exists>b. strict_document demo_mcp_env v = Inr (w, b)"
proof -
  have "utf8_encode s = Inr s" if "list_all (\<lambda>c. c < 128) s" for s
    using that by (induction s) (auto simp: utf8_encode_def surrogate_def utf8_char_def)
  with assms show ?thesis
    by (auto simp: strict_document_def plain_json_strict [THEN iffD2, OF assms(1)] admission_bytes_def demo_mcp_env_def
      canonical_bytes_def canonical_doc_def wrap_encoding_def max_canonical_bytes_def)
qed

lemma demo_documents:
  "\<exists>b. strict_document demo_mcp_env demo_arguments = Inr (PDict [(PStr (str ''a''), PList [PInt 1, PNone])], b)"
  "\<exists>b. strict_document demo_mcp_env (PDict (obj [(''tools'', PDict [])])) = Inr (PDict (obj [(''tools'', PDict [])]), b)"
  "\<exists>b. strict_document demo_mcp_env (PDict (obj [(''type'', PStr (str ''object''))])) = Inr (PDict (obj [(''type'', PStr (str ''object''))]), b)"
  by (rule demo_document, simp_all add: demo_arguments_def obj_pairs str_def empty_budget_def consume_node_def consume_string_def
    utf8_len_def utf8_encode_def surrogate_def utf8_char_def dset_def string_text_def escape_char_def int_text_def nat_text.simps
    max_nodes_def max_nesting_def max_string_bytes_def)+

abbreviation demo_prepare :: "unit wire \<Rightarrow> prepared_call res \<times> unit wire" where
  "demo_prepare \<equiv> prepare demo_mcp_env demo_orchestrator (over_wire demo_server) (str ''t'') demo_arguments
     (str ''o'') (str ''x'') (str ''k'')"

lemma demo_snapshots:
  "strict_snapshot demo_mcp_env (PDict (obj [(''tools'', PDict [])])) = Inr (PDict (obj [(''tools'', PDict [])]), replicate 64 97)"
  "strict_snapshot demo_mcp_env (PDict (obj [(''type'', PStr (str ''object''))])) = Inr (PDict (obj [(''type'', PStr (str ''object''))]), replicate 64 97)"
  using demo_documents(2,3) by (auto simp: strict_snapshot_def obj_pairs) (simp_all add: demo_mcp_env_def)

lemma demo_prepared: "\<exists>p t. demo_prepare \<lparr>peer = (), calls = []\<rparr> = (Inr p, t)"
proof -
  have nb: "strip stable_protocol = stable_protocol" "strip (str ''s'') = str ''s''" "strip (str ''1'') = str ''1''"
    "strip (str ''t'') = str ''t''"
    by (simp_all add: strip_fixed str_def is_space_def stable_protocol_def)
  have ne: "str (c # cs) \<noteq> []" for c cs by (simp add: str_def)
  have i: "validate_initialize demo_mcp_env (PDict (obj [(''protocolVersion'', PStr stable_protocol),
        (''serverInfo'', PDict (obj [(''name'', PStr (str ''s'')), (''version'', PStr (str ''1''))])),
        (''capabilities'', PDict (obj [(''tools'', PDict [])]))])) =
      Inr \<lparr>ss_protocol_version = stable_protocol, ss_server_identity = str ''s'' @ 64 # str ''1'',
        ss_capabilities = PDict (obj [(''tools'', PDict [])])\<rparr>"
    by (simp add: validate_initialize_def required_mapping_def required_text_def dget_none_def nb ne make_server_snapshot_def demo_snapshots)
      (simp add: stable_protocol_def ne)
  have nbl: "\<not> blank stable_protocol" "\<not> blank (str ''s'' @ 64 # str ''1'')" "\<not> blank (str ''t'')" "\<not> blank (str ''o'')"
     "\<not> blank (str ''x'')" "\<not> blank (str ''k'')" "\<not> blank (str ''mcp_tool_call'')"
    by (simp_all add: blank_iff is_space_def str_def stable_protocol_def)
  have t: "\<exists>snap. ts_protocol_version snap = stable_protocol \<and>  validate_tools_list demo_mcp_env \<lparr>ss_protocol_version = stable_protocol, ss_server_identity = str ''s'' @ 64 # str ''1'',
        ss_capabilities = PDict (obj [(''tools'', PDict [])])\<rparr> (str ''t'') (PDict (obj [(''tools'', PList [PDict (obj [(''name'', PStr (str ''t'')),
        (''inputSchema'', PDict (obj [(''type'', PStr (str ''object''))]))])])])) = Inr snap"
    by (simp add: validate_tools_list_def required_mapping_def required_text_def required_sequence_def dget_none_def dget_default_def nb ne
      check_tool_def check_schema_def make_tool_snapshot_def nbl demo_snapshots)
  have a: "\<exists>q. admit demo_mcp_env (orc_admission demo_orchestrator) snap (str ''o'') (str ''x'') (str ''k'') demo_arguments = Inr q"
    if "ts_protocol_version snap = stable_protocol" for snap
    using demo_documents(1)
    by (auto simp: admit_def that demo_orchestrator_def dget_default_def dget_none_def ditem_def required_mapping_def make_request_def check_def nbl)
     (simp_all add: demo_arguments_def)
  obtain snap where snap: "ts_protocol_version snap = stable_protocol"
    "validate_tools_list demo_mcp_env \<lparr>ss_protocol_version = stable_protocol,
        ss_server_identity = str ''s'' @ 64 # str ''1'', ss_capabilities = PDict (obj [(''tools'', PDict [])])\<rparr> (str ''t'')
      (PDict (obj [(''tools'', PList [PDict (obj [(''name'', PStr (str ''t'')),
        (''inputSchema'', PDict (obj [(''type'', PStr (str ''object''))]))])])])) = Inr snap"
    using t by blast
  from a [OF snap(1)] obtain q where "admit demo_mcp_env (orc_admission demo_orchestrator) snap
      (str ''o'') (str ''x'') (str ''k'') demo_arguments = Inr q" by blast
  with snap(2) show ?thesis
    by (simp add: prepare_def phase_request_def phase_notify_def bnd_def seq_def handle_def over_wire_def
        on_wire_def zoom_def demo_server_def i admitted_def)
qed

theorem prepared_is_sent_witness:
  "\<exists>p t d. demo_prepare \<lparr>peer = (), calls = []\<rparr> = (Inr p, t)
     \<and> calls (snd (tool_execute demo_mcp_env (on_peer \<lparr>readback_observer = None, require_readback = True\<rparr>)
         (over_wire demo_server) (prepared_request p) \<lparr>peer = (), calls = []\<rparr>))
       = [(str ''tools/call'', tool_call (PStr (str ''t'')) (PDict d))]"
proof -
  obtain p t where p: "demo_prepare \<lparr>peer = (), calls = []\<rparr> = (Inr p, t)" using demo_prepared by blast
  have "sha_ok demo_mcp_env" by (simp add: sha_ok_def demo_mcp_env_def sha256_hex_def list_all_iff)
  moreover have "proper demo_arguments" by (simp add: demo_arguments_def)
  moreover have "strip (str ''t'') = str ''t''" by (simp add: strip_fixed str_def is_space_def)
  ultimately show ?thesis
    using prepared_is_sent [OF _ _ p, where x = "\<lparr>readback_observer = None, require_readback = True\<rparr>"
      and tr' = demo_server and u = "\<lparr>peer = (), calls = []\<rparr>"] p
    by auto
qed

end
