(* ===== verification/Rpr_Contracts.thy ===== *)
theory Rpr_Contracts
  imports Rpr_Demo Rpr_Claims Rpr_Admission
begin

text \<open>
  The contracts of the single components, each for the component's own operations: what the
  ledger and the pathway registry promise of a retry, what a fingerprint and a hash chain
  identify, the bounds of redaction, what of a definition survives storage, the gate of the
  claims, and the abstract system that the runtime refines.
\<close>

section \<open>The attempt ledger\<close>

text \<open>
  An attempt is registered once: after a request was accepted, the same request is replayed
  with the same record, and a request under its names with another operation, another action or
  other parameters is refused; both change nothing.
\<close>

theorem attempt_registered_once:
  assumes "ledger_faults l = []" "begin_attempt env p q l = (Inr (b, r), t)"
  shows "begin_attempt env p q t = (Inr (True, r), t)
    \<and> (\<forall>q'. attempt_id q' = attempt_id q \<and> idempotency_key q' = idempotency_key q
        \<and> (operation_id q' \<noteq> operation_id q \<or> fingerprint env q' \<noteq> fingerprint env q)
        \<longrightarrow> (\<exists>e. begin_attempt env p q' t = (Inl e, t)))"
proof -
  from attempt_ledger.start_result [of l env "(p, q)" b r t] assms
  have t: "ledger_faults t = []" "begin_hit (p, q) (attempts t) = Some r" "begin_same env (p, q) r" by auto
  from attempt_ledger.retry_replays [of l env "(p, q)" b r t] assms
  have "begin_attempt env p q t = (Inr (True, r), t)" by simp
  moreover have "\<exists>e. begin_attempt env p q' t = (Inl e, t)"
    if "attempt_id q' = attempt_id q" "idempotency_key q' = idempotency_key q"
      "operation_id q' \<noteq> operation_id q \<or> fingerprint env q' \<noteq> fingerprint env q" for q'
    using that t by (auto simp: begin_quiet begin_tx_def begin_hit_def begin_same_def split: sum.split)
  ultimately show ?thesis by blast
qed

text \<open>
  A fingerprint identifies the request up to its names: requests with the same fingerprint
  have the same operation, the same action and the same parameters as JSON, or the hash collides.
\<close>

theorem same_fingerprint_same_request:
  assumes "float_repr_ok (float_repr env)"
    and "fingerprint env p = Inr h" "fingerprint env q = Inr h"
    and "proper (PDict (parameters p))" "proper (PDict (parameters q))"
  shows "(operation_id p = operation_id q \<and> action p = action q
      \<and> canonical_doc (PDict (parameters p)) = canonical_doc (PDict (parameters q)))
    \<or> (\<exists>a b. a \<noteq> b \<and> sha256 env a = sha256 env b)"
  by (rule fingerprint_identity [OF assms])

text \<open>A ledger, and the demonstration's request under other names.\<close>

definition other_request :: execution_request where
  "other_request = demo_request\<lparr>attempt_id := str ''a2'', idempotency_key := str ''k2''\<rparr>"

theorem attempt_registered_once_witness:
  "\<exists>r t. begin_attempt run_env (str ''p'') demo_request \<lparr>attempts = [], ledger_faults = []\<rparr> = (Inr (False, r), t)
     \<and> begin_attempt run_env (str ''p'') demo_request t = (Inr (True, r), t)"
proof -
  obtain fp where fp: "fingerprint run_env demo_request = Inr fp" by (rule demo_fingerprint)
  obtain r t where b: "begin_attempt run_env (str ''p'') demo_request \<lparr>attempts = [], ledger_faults = []\<rparr> = (Inr (False, r), t)"
    using fp by (simp add: begin_quiet begin_tx_def select_attempt_def find_attempt_def bind_text_def check_def
        demo_request_def)
  from attempt_registered_once [OF _ b] b show ?thesis by auto
qed

theorem same_fingerprint_same_request_witness:
  "\<exists>h. fingerprint run_env demo_request = Inr h \<and> fingerprint run_env other_request = Inr h
     \<and> (operation_id demo_request = operation_id other_request \<and> action demo_request = action other_request
         \<and> canonical_doc (PDict (parameters demo_request)) = canonical_doc (PDict (parameters other_request))
       \<or> (\<exists>a b. a \<noteq> b \<and> sha256 run_env a = sha256 run_env b))"
proof -
  obtain h where h: "fingerprint run_env demo_request = Inr h" by (rule demo_fingerprint)
  have "request_value other_request = request_value demo_request"
    by (simp add: request_value_def other_request_def)
  with h have o: "fingerprint run_env other_request = Inr h" by (simp add: fingerprint_def)
  have "proper (PDict (parameters demo_request))" "proper (PDict (parameters other_request))"
    by (simp_all add: demo_request_def other_request_def)
  with same_fingerprint_same_request [OF _ h o] demo_float_ok h o show ?thesis by auto
qed

section \<open>Evidence\<close>

text \<open>
  C32. A chain that verifies pins its whole history: two chains that verify and end in the same
  hash have, event by event, the same pathway, type, actor, payload, time, previous hash and hash,
  or two different byte strings among those hashed for these very chains collide. (The documents
  may still differ in keys that verification does not read.)
\<close>

theorem chain_pins_history:
  assumes "float_repr_ok (float_repr env)"
    and "verify_chain env xs = Inr (True, None, None)" "verify_chain env ys = Inr (True, None, None)"
    and "last_hash env xs = last_hash env ys"
  shows "list_all2 (same_content env) xs ys
    \<or> (\<exists>b \<in> hashed_bytes env (xs @ ys). \<exists>c \<in> hashed_bytes env (xs @ ys). b \<noteq> c \<and> sha256 env b = sha256 env c)"
  using chain_last_hash [OF assms(1), of "xs @ ys" xs ys] assms(2-4) unfolding verify_chain_iff inj_on_def by auto

text \<open>A chain of one event, and the chain with a stray key in it, which verification does not read.\<close>

lemma stray_key: "k \<noteq> ''stray'' \<Longrightarrow> dget (d @ [(PStr (str ''stray''), v)]) (str k) = dget d (str k)"
  by (auto simp: dget_def map_add_def split: option.split)

lemma stray_event:
  fixes e :: pdict and v :: pv
  defines "f \<equiv> e @ [(PStr (str ''stray''), v)]"
  shows "stored_bytes env f = stored_bytes env e" "verify_chain env [f] = verify_chain env [e]"
    "last_hash env [f] = last_hash env [e]"
proof -
  have item: "k \<noteq> ''stray'' \<Longrightarrow> dget_none f (str k) = dget_none e (str k)"
    "k \<noteq> ''stray'' \<Longrightarrow> str_item env f k = str_item env e k" "ditem f (str ''payload'') = ditem e (str ''payload'')" for k
    by (simp_all add: f_def stray_key dget_none_def str_item_def ditem_def)
  show b: "stored_bytes env f = stored_bytes env e" unfolding stored_bytes_def by (simp add: item)
  then have "verify_event env f = verify_event env e" unfolding verify_event_def by (simp add: item)
  then show "verify_chain env [f] = verify_chain env [e]"
    unfolding verify_chain_def verify_from.simps item(1) [of "''previous_hash''", simplified]
      item(2) [of "''event_hash''", simplified] by simp
  show "last_hash env [f] = last_hash env [e]" by (simp add: last_hash_def item)
qed

theorem chain_pins_history_witness:
  "\<exists>e. verify_chain demo_env [e] = Inr (True, None, None)
     \<and> same_content demo_env e (e @ [(PStr (str ''stray''), PNone)])"
proof -
  have "redact demo_env default_policy (PDict (obj [])) = Inr (PDict (obj []))"
    by (rule redact_texts) (simp_all add: default_policy_def)
  moreover have "plain (event_content (str ''p'') (str ''ty'') (str ''a'') (obj []) (str ''t'') (opt_str None))"
    by (simp add: event_content_def obj_simps opt_str_def)
  then obtain b where "canonical_payload demo_env (str ''p'') (str ''ty'') (str ''a'') (obj []) (str ''t'') (opt_str None) = Inr b"
    using plain_canonical_bytes [OF demo_float_ok] by (auto simp: canonical_payload_def)
  ultimately obtain e where "build_event demo_env default_policy (str ''t'') (str ''p'') (str ''ty'') (str ''a'') (obj []) None = Inr e"
    by (simp add: build_event_def)
  from build_event_ok [OF this] build_event_fields(5) [OF this]
  have "chained demo_env None ([] @ [stored_event e])"
    by (intro chained_snoc_stored) (simp_all add: last_hash_def)
  then have v: "verify_chain demo_env [stored_event e] = Inr (True, None, None)" by (simp add: verify_chain_iff)
  let ?f = "stored_event e @ [(PStr (str ''stray''), PNone)]"
  have "verify_chain demo_env [?f] = Inr (True, None, None)" "last_hash demo_env [?f] = last_hash demo_env [stored_event e]"
    using stray_event v by simp_all
  moreover have "hashed_bytes demo_env ([stored_event e] @ [?f]) \<subseteq> {b. stored_bytes demo_env (stored_event e) = Inr b}"
    using stray_event(1) by (auto simp: hashed_bytes_def)
  ultimately show ?thesis
    using chain_pins_history [of demo_env "[stored_event e]" "[?f]"] v demo_float_ok by auto
qed

text \<open>
  C33. What redaction returns is within the bounds of its policy: no deeper than the depth
  allowed, at most the allowed number of items, the replacement under every sensitive key, and no
  other text longer than the maximum, save the \<open>str\<close> of an object of a foreign type in the payload.
  For a payload without such objects every text is within the maximum.
\<close>

theorem redaction_bounded:
  "case redact env pol v of
     Inl _ \<Rightarrow> True
   | Inr w \<Rightarrow> guarded pol 0 w \<and> int (visited pol w) \<le> max_items pol \<and> texts_within pol (foreign v) w"
  using redact_guarded [of env pol v] redact_short [of env pol v] by (simp split: sum.split)

section \<open>Definitions\<close>

text \<open>
  A definition that can be stored is read back as it was, but for its metadata, which come
  back as the JSON document they stand for.
\<close>

theorem stored_definition_read_back:
  "case canonical_definition d of
     Inl _ \<Rightarrow> True
   | Inr doc \<Rightarrow> \<exists>m. to_items (metadata d) = Inr m
       \<and> definition_from_dict env doc = Inr (d\<lparr>metadata := sorted_items m\<rparr>)"
  by (auto split: sum.split elim: stored_definition)

section \<open>The abstract system\<close>

text \<open>
  C34. The runtime refines the abstract system: from a reachable world, whatever method is
  called, with whatever faults and whatever its executor calls in turn, is a sequence of the
  system's commit steps.
\<close>

theorem runtime_refines_commits:
  assumes "policy_ok (cpolicy cfg)" "reachable cfg w" "call cfg w w'"
  shows "steps cfg w w'"
  by (rule call_steps [OF assms(3,1) reachable_inv [OF assms(2,1)]])

theorem runtime_refines_commits_witness: "steps demo_config demo_registered demo_executed"
  by (rule runtime_refines_commits [OF demo_policy demo_registered_reachable demo_execute_call])

section \<open>Claims and admission\<close>

text \<open>
  A claim is used without a human only as a draft, as a creative text that is labelled, or
  after approval, and where the claim or the use is of high impact only on independent support.
\<close>

theorem claim_use_gate:
  "case evaluate_claim_use c ctx of
     Inl e \<Rightarrow> claim_validate c = Inl e
   | Inr r \<Rightarrow> if cg_decision r = ALLOW
       then ctx = INTERNAL_DRAFT
         \<or> claim_class c = CREATIVE \<and> verification_state c \<in> {PROPOSED_CLAIM, UNVERIFIED}
         \<or> approved_claim c \<and> (if claim_class c = HIGH_IMPACT_CLAIM \<or> ctx = HIGH_IMPACT_ACTION
             then independently_supported c else True)
       else cg_decision r \<in> {HOLD, HUMAN_GATE_DECISION}"
proof (cases "claim_validate c")
  case (Inl e)
  then show ?thesis by (simp add: evaluate_claim_use_def)
next
  case (Inr u)
  then obtain r where r: "evaluate_claim_use c ctx = Inr r" using claim_use_total by (cases u) blast
  let ?gates = "{ALLOW, HOLD, HUMAN_GATE_DECISION}"
  have branch: "(if b then x else y) = Inr r \<Longrightarrow> (x = Inr r \<Longrightarrow> P) \<Longrightarrow> (y = Inr r \<Longrightarrow> P) \<Longrightarrow> P"
    for b P and x y :: "claim_gate_result res" by (cases b) simp_all
  have "cg_decision r \<in> ?gates"
    using r unfolding evaluate_claim_use_def Inr rbind_simps Let_def by (elim branch) auto
  with claim_allowed [OF r] r show ?thesis
    by (cases "cg_decision r = ALLOW") auto
qed

text \<open>
  The admission of a tool call and the attempt ledger read arguments in the same way: they
  accept the same values and make the same JSON copy of them.
\<close>

theorem admission_copies_as_ledger:
  "same_outcome (strict_json_identity v) (rbind (plain_json empty_budget 0 v) (\<lambda>(w, _). Inr w))"
  by (rule admission_identity)

end
