(* ===== verification/Rpr_Executors.thy ===== *)
theory Rpr_Executors
  imports Rpr_Execution Rpr_Parse "HOL-Library.Sublist"
begin

text \<open>
  The executors of the repository that do not go through the MCP stack, \<open>LocalFileExecutor\<close>
  (\<open>executor.py\<close>) and \<open>HttpMutationExecutor\<close> (\<open>http_executor.py\<close>), and the boundary that runs
  an agent's tool call through the runtime (\<open>agent_adapters.py\<close>). The file system, the network and
  \<open>urlparse\<close> are arguments. The lemmas: an executor acts at most once per call, only on a target
  its configuration allows, and reports success only with a verified readback.
\<close>

section \<open>Remembered results\<close>

text \<open>
  Both executors keep the results of their requests by idempotency key. \<open>outside\<close> is the file
  system or the network, \<open>acts\<close> records what was done to it.
\<close>

record ('e, 'l) memory =
  outside :: 'e
  acts :: "'l list"
  results :: "(pystr \<times> pystr \<times> execution_result) list"

definition out :: "('e, 'a) py \<Rightarrow> (('e, 'l) memory, 'a) py" where
  "out m = zoom outside (\<lambda>e s. s\<lparr>outside := e\<rparr>) m"

definition rejected :: "pystr \<Rightarrow> execution_result" where
  "rejected why = \<lparr>status = FAILED, evidence = [], readback = None, result_reason = Some why\<rparr>"

text \<open>
  The head and the tail of \<open>execute\<close>: a known key is replayed, and the result of a run is kept
  unless the run returned early.
\<close>

definition remembered :: "(execution_request \<Rightarrow> pystr res)
    \<Rightarrow> (execution_request \<Rightarrow> (('e, 'l) memory, execution_result \<times> bool) py)
    \<Rightarrow> execution_request \<Rightarrow> (('e, 'l) memory, execution_result) py" where
  "remembered fp run q = bnd (lift (fp q)) (\<lambda>f s. case map_of (results s) (idempotency_key q) of
       Some (g, r) \<Rightarrow> (Inr (if g \<noteq> f then rejected (str ''idempotency_conflict'') else r), s)
     | None \<Rightarrow> bnd (run q) (\<lambda>(r, keep) t.
         (Inr r, if keep then t\<lparr>results := AList.update (idempotency_key q) (f, r) (results t)\<rparr> else t)) s)"

section \<open>Local files\<close>

text \<open>A path is the list of its components, resolved.\<close>

type_synonym path = "pystr list"

record 'f file_ops =
  fo_resolve :: "pystr \<Rightarrow> ('f, path) py"
  fo_exists :: "path \<Rightarrow> ('f, bool) py"
  fo_read :: "path \<Rightarrow> ('f, nat list) py"
  fo_mkdir :: "path \<Rightarrow> ('f, unit) py"
  fo_temp :: "path \<Rightarrow> nat list \<Rightarrow> ('f, pystr) py"
  fo_replace :: "pystr \<Rightarrow> path \<Rightarrow> ('f, unit) py"

type_synonym 'f disk = "('f, path \<times> nat list) memory"

definition resolve_target :: "path \<Rightarrow> 'f file_ops \<Rightarrow> pystr \<Rightarrow> ('f disk, path) py" where
  "resolve_target base fs rel = bnd (out (fo_resolve fs rel)) (\<lambda>c.
     if c \<noteq> base \<and> \<not> strict_prefix base c then raise ValueError ''path escapes executor root''
     else if c = base then raise ValueError ''target must be a file below executor root''
     else ret c)"

text \<open>\<open>repr\<close> of the request; the environment supplies \<open>repr\<close> of a value.\<close>

definition repr_pairs :: "pyenv \<Rightarrow> pdict \<Rightarrow> (pystr \<times> pystr) list" where
  "repr_pairs env d = sort_key fst (sort_key snd (map (\<lambda>(k, v). (py_str env k, container_repr env v)) d))"

definition file_fingerprint :: "pyenv \<Rightarrow> execution_request \<Rightarrow> pystr res" where
  "file_fingerprint env q = rbind (utf8_encode (container_repr env (PTuple [PStr (operation_id q), PStr (action q),
       PList (map (\<lambda>(k, v). PTuple [PStr k, PStr v]) (repr_pairs env (parameters q)))])))
     (\<lambda>b. Inr (sha256 env b))"

text \<open>A temporary file beside the target, then the replacement.\<close>

definition replace_target :: "'f file_ops \<Rightarrow> path \<Rightarrow> nat list \<Rightarrow> ('f disk, unit) py" where
  "replace_target fs target bytes =
     bnd (out (fo_temp fs (butlast target) bytes)) (\<lambda>temp s.
       out (fo_replace fs temp target) (s\<lparr>acts := acts s @ [(target, bytes)]\<rparr>))"

fun join_path :: "path \<Rightarrow> pystr" where
  "join_path [] = []"
| "join_path [c] = c"
| "join_path (c # cs) = c @ 47 # join_path cs"

text \<open>The readback and the result.\<close>

definition file_result :: "pyenv \<Rightarrow> path \<Rightarrow> path \<Rightarrow> nat list \<Rightarrow> nat list \<Rightarrow> execution_result" where
  "file_result env base target written seen =
     (let want = sha256 env written; got = sha256 env seen; ok = (want = got) in
      \<lparr>status = (if ok then SUCCEEDED else STATUS_UNKNOWN),
        evidence = obj [(''expected_sha256'', PStr want)],
        readback = Some \<lparr>verified = ok, observed = obj [(''path'', PStr (join_path (drop (length base) target))),
          (''sha256'', PStr got), (''size'', PInt (int (length seen)))],
          readback_reason = (if ok then None else Some (str ''readback_hash_mismatch''))\<rparr>,
        result_reason = None\<rparr>)"

text \<open>The precondition: the file is as the caller expects, or does not exist.\<close>

definition file_precondition :: "pyenv \<Rightarrow> 'f file_ops \<Rightarrow> execution_request \<Rightarrow> path
    \<Rightarrow> ('f disk, execution_result option) py" where
  "file_precondition env fs q target =
     (if dget_none (parameters q) (str ''expected_sha256'') = PNone then ret None
      else bnd (out (fo_exists fs target)) (\<lambda>ex.
        if \<not> ex then ret None
        else bnd (out (fo_read fs target)) (\<lambda>b.
          if sha256 env b \<noteq> py_str env (dget_none (parameters q) (str ''expected_sha256''))
          then ret (Some \<lparr>status = FAILED, evidence = obj [(''current_sha256'', PStr (sha256 env b))],
            readback = None, result_reason = Some (str ''precondition_failed'')\<rparr>)
          else ret None)))"

definition write_bytes :: "pyenv \<Rightarrow> path \<Rightarrow> 'f file_ops \<Rightarrow> path \<Rightarrow> pystr \<Rightarrow> ('f disk, execution_result \<times> bool) py" where
  "write_bytes env base fs target content =
     seq (out (fo_mkdir fs (butlast target))) (
     bnd (lift (utf8_encode content)) (\<lambda>bytes.
     seq (replace_target fs target bytes) (
     bnd (out (fo_read fs target)) (\<lambda>seen.
       ret (file_result env base target bytes seen, True)))))"

text \<open>The body of the \<open>try\<close>.\<close>

definition file_attempt :: "pyenv \<Rightarrow> path \<Rightarrow> 'f file_ops \<Rightarrow> execution_request \<Rightarrow> ('f disk, execution_result \<times> bool) py" where
  "file_attempt env base fs q =
     bnd (lift (ditem (parameters q) (str ''path''))) (\<lambda>p.
     bnd (resolve_target base fs (py_str env p)) (\<lambda>target.
     bnd (lift (ditem (parameters q) (str ''content''))) (\<lambda>content.
     bnd (file_precondition env fs q target) (\<lambda>failed. case failed of
         Some r \<Rightarrow> ret (r, False)
       | None \<Rightarrow> write_bytes env base fs target (py_str env content)))))"

definition write_file :: "pyenv \<Rightarrow> path \<Rightarrow> 'f file_ops \<Rightarrow> execution_request
    \<Rightarrow> ('f disk, execution_result \<times> bool) py" where
  "write_file env base fs q =
     (if action q \<noteq> str ''replace_text_file'' then ret (rejected (str ''unsupported_action''), False)
      else handle (catches [OSError, KeyError, TypeError, ValueError]) (file_attempt env base fs q)
        (\<lambda>e. ret (unknown_result (exn_name (exn_kind e) @ str '': '' @ exn_msg e), True)))"

definition file_execute :: "pyenv \<Rightarrow> path \<Rightarrow> 'f file_ops \<Rightarrow> execution_request \<Rightarrow> ('f disk, execution_result) py" where
  "file_execute env base fs = remembered (file_fingerprint env) (write_file env base fs)"

section \<open>HTTP mutations\<close>

text \<open>What \<open>urlparse\<close> finds; \<open>port\<close> raises on one that is no number.\<close>

record url_parts =
  up_scheme :: pystr
  up_username :: "pystr option"
  up_password :: "pystr option"
  up_fragment :: pystr
  up_hostname :: "pystr option"
  up_port :: "int option res"

record http_request =
  hr_url :: pystr
  hr_payload :: "nat list"
  hr_headers :: "(pystr \<times> pystr) list"
  hr_method :: pystr

record http_response =
  rs_status :: int
  rs_headers :: pdict

text \<open>What \<open>urlopen\<close> raises: \<open>HTTPError\<close>, \<open>URLError\<close>, or something else.\<close>

datatype http_fault = HttpError int | UrlError pystr | Raised exn

record 'n http_ops =
  parse_url :: "pystr \<Rightarrow> url_parts res"
  open_url :: "http_request \<Rightarrow> 'n \<Rightarrow> (http_fault + http_response) \<times> 'n"
  read_body :: "http_response \<Rightarrow> int \<Rightarrow> ('n, nat list) py"
  verify_readback :: "execution_request \<Rightarrow> int \<Rightarrow> pdict \<Rightarrow> nat list \<Rightarrow> ('n, readback_evidence) py"

record http_executor =
  allowed_origins :: "pystr list"
  allow_insecure_http :: bool
  max_response_bytes :: int

type_synonym 'n net = "('n, http_request) memory"

text \<open>
  \<open>lower()\<close> and \<open>upper()\<close> where the result is compared with ASCII text: the characters outside
  ASCII whose image is ASCII are listed, the others stay outside.
\<close>

definition lower_text :: "pystr \<Rightarrow> pystr" where
  "lower_text = map (\<lambda>c. if 65 \<le> c \<and> c \<le> 90 then c + 32 else if c = 8490 then 107 else c)"

definition upper_text :: "pystr \<Rightarrow> pystr" where
  "upper_text s = concat (map (\<lambda>c. if 97 \<le> c \<and> c \<le> 122 then [c - 32] else if c = 383 then [83]
     else if c = 64261 \<or> c = 64262 then [83, 84] else if c = 305 then [73] else [c]) s)"

definition filled :: "pystr option \<Rightarrow> bool" where
  "filled x \<longleftrightarrow> (case x of None \<Rightarrow> False | Some s \<Rightarrow> s \<noteq> [])"

definition normalize_origin :: "(pystr \<Rightarrow> url_parts res) \<Rightarrow> pystr \<Rightarrow> pystr res" where
  "normalize_origin parse v = rbind (parse v) (\<lambda>p.
     case up_hostname p of
       Some (h # hs) \<Rightarrow>
         (if up_scheme p = [] then err ValueError ''origin must include scheme and host''
          else rbind (up_port p) (\<lambda>port.
            let n = (case port of Some k \<Rightarrow> if k \<noteq> 0 then k else (if up_scheme p = str ''https'' then 443 else 80)
                     | None \<Rightarrow> if up_scheme p = str ''https'' then 443 else 80)
            in Inr (lower_text (up_scheme p) @ str ''://'' @ lower_text (h # hs) @ str '':'' @ int_text n)))
     | _ \<Rightarrow> err ValueError ''origin must include scheme and host'')"

definition make_http_executor :: "(pystr \<Rightarrow> url_parts res) \<Rightarrow> pystr list \<Rightarrow> bool \<Rightarrow> int \<Rightarrow> http_executor res" where
  "make_http_executor parse origins insecure limit =
     (if origins = [] then err ValueError ''allowed_origins is required''
      else rbind (foldr (\<lambda>v r. rbind (normalize_origin parse v) (\<lambda>o'. rbind r (\<lambda>os. Inr (o' # os)))) origins (Inr []))
        (\<lambda>os. Inr \<lparr>allowed_origins = os, allow_insecure_http = insecure, max_response_bytes = limit\<rparr>))"

definition validate_url :: "(pystr \<Rightarrow> url_parts res) \<Rightarrow> http_executor \<Rightarrow> pystr \<Rightarrow> unit res" where
  "validate_url parse x url = rbind (parse url) (\<lambda>p.
     if filled (up_username p) \<or> filled (up_password p) \<or> up_fragment p \<noteq> []
     then err ValueError ''userinfo and fragments are prohibited''
     else if up_scheme p \<notin> set (if allow_insecure_http x then [str ''https'', str ''http''] else [str ''https''])
     then err ValueError ''insecure or unsupported scheme''
     else rbind (normalize_origin parse url) (\<lambda>o'.
       check (o' \<in> set (allowed_origins x)) ValueError ''origin is not allow-listed''))"

text \<open>\<open>json.dumps(..., default=str)\<close>: a foreign object is written as its text.\<close>

fun text_objects :: "pv \<Rightarrow> pv" where
  "text_objects (PObj t s) = PStr s"
| "text_objects (PList vs) = PList (map text_objects vs)"
| "text_objects (PTuple vs) = PTuple (map text_objects vs)"
| "text_objects (PDict kvs) = PDict (map (\<lambda>(k, v). (k, text_objects v)) kvs)"
| "text_objects v = v"

definition http_fingerprint :: "pyenv \<Rightarrow> execution_request \<Rightarrow> pystr res" where
  "http_fingerprint env q = rbind (canonical_bytes (float_repr env) (text_objects (PDict (obj
       [(''operation_id'', PStr (operation_id q)), (''action'', PStr (action q)),
        (''parameters'', PDict (parameters q))])))) (\<lambda>b. Inr (sha256 env b))"

definition forbidden_headers :: "pystr list" where
  "forbidden_headers = map str [''host'', ''content-length'', ''transfer-encoding'', ''connection'']"

text \<open>The supplied headers, or the one that is refused.\<close>

fun add_headers :: "pyenv \<Rightarrow> pdict \<Rightarrow> (pystr \<times> pystr) list \<Rightarrow> pystr + (pystr \<times> pystr) list" where
  "add_headers env [] hs = Inr hs"
| "add_headers env ((k, v) # kvs) hs =
     (if lower_text (py_str env k) \<in> set forbidden_headers then Inl (lower_text (py_str env k))
      else add_headers env kvs (AList.update (py_str env k) (py_str env v) hs))"

definition json_payload :: "pyenv \<Rightarrow> pv \<Rightarrow> nat list res" where
  "json_payload env v = rbind (to_doc v) (\<lambda>d. utf8_encode (json_text (float_repr env) d))"

definition own_headers :: "pystr \<Rightarrow> (pystr \<times> pystr) list" where
  "own_headers key = [(str ''Content-Type'', str ''application/json''), (str ''Accept'', str ''application/json''),
     (str ''Idempotency-Key'', key)]"

definition request_headers :: "pyenv \<Rightarrow> execution_request \<Rightarrow> pystr + (pystr \<times> pystr) list" where
  "request_headers env q = (case dget_default (parameters q) (str ''headers'') (PDict []) of
       PDict supplied \<Rightarrow> (case add_headers env supplied (own_headers (idempotency_key q)) of
           Inl h \<Rightarrow> Inl (str ''forbidden_header:'' @ h) | Inr hs \<Rightarrow> Inr hs)
     | _ \<Rightarrow> Inl (str ''headers_must_be_mapping''))"

definition mutating_methods :: "pystr list" where
  "mutating_methods = map str [''POST'', ''PUT'', ''PATCH'', ''DELETE'']"

text \<open>Everything before the request is sent: an early result, or the request.\<close>

definition http_prepare :: "pyenv \<Rightarrow> (pystr \<Rightarrow> url_parts res) \<Rightarrow> http_executor \<Rightarrow> execution_request
    \<Rightarrow> (execution_result + http_request) res" where
  "http_prepare env parse x q =
     rbind (ditem (parameters q) (str ''url'')) (\<lambda>u.
     let url = py_str env u;
         verb = upper_text (py_str env (dget_default (parameters q) (str ''method'') (PStr (str ''POST'')))) in
     if verb \<notin> set mutating_methods
     then Inr (Inl (rejected (str ''unsupported_method'')))
     else rbind (validate_url parse x url) (\<lambda>_.
     rbind (json_payload env (dget_default (parameters q) (str ''json'') (PDict []))) (\<lambda>payload.
     Inr (case request_headers env q of Inl why \<Rightarrow> Inl (rejected why)
       | Inr hs \<Rightarrow> Inr \<lparr>hr_url = url, hr_payload = payload, hr_headers = hs, hr_method = verb\<rparr>))))"

text \<open>The handlers, in order.\<close>

definition http_fault_result :: "http_fault \<Rightarrow> execution_result res" where
  "http_fault_result f = (case f of
       HttpError code \<Rightarrow> Inr \<lparr>status = STATUS_UNKNOWN, evidence = obj [(''status_code'', PInt code)],
         readback = None, result_reason = Some (str ''http_error_after_dispatch'')\<rparr>
     | UrlError name \<Rightarrow> Inr (unknown_result (str ''transport_ambiguous:'' @ name))
     | Raised e \<Rightarrow>
         (if catches [TimeoutError, OSError] e
          then Inr (unknown_result (str ''transport_ambiguous:'' @ exn_name (exn_kind e)))
          else if catches [KeyError, TypeError, ValueError] e
          then Inr (rejected (str ''invalid_request:'' @ exn_name (exn_kind e) @ str '':'' @ exn_msg e))
          else Inl e))"

text \<open>From the response on.\<close>

definition http_response_result :: "'n http_ops \<Rightarrow> http_executor \<Rightarrow> execution_request \<Rightarrow> http_response
    \<Rightarrow> ('n net, execution_result) py" where
  "http_response_result io x q rs =
     bnd (out (read_body io rs (max_response_bytes x + 1))) (\<lambda>body.
     if int (length body) > max_response_bytes x then ret (unknown_result (str ''response_too_large''))
     else bnd (out (verify_readback io q (rs_status rs) (rs_headers rs) body)) (\<lambda>rb.
       ret \<lparr>status = (if verified rb then SUCCEEDED else STATUS_UNKNOWN),
         evidence = obj [(''status_code'', PInt (rs_status rs)), (''response_bytes'', PInt (int (length body)))],
         readback = Some rb, result_reason = (if verified rb then None else readback_reason rb)\<rparr>))"

definition http_send :: "'n http_ops \<Rightarrow> http_executor \<Rightarrow> execution_request \<Rightarrow> http_request
    \<Rightarrow> ('n net, execution_result) py" where
  "http_send io x q hr = (\<lambda>s. case open_url io hr (outside s) of (answer, n) \<Rightarrow>
     let t = s\<lparr>outside := n, acts := acts s @ [hr]\<rparr> in
     case answer of
       Inl f \<Rightarrow> (http_fault_result f, t)
     | Inr rs \<Rightarrow> handle (\<lambda>_. True) (http_response_result io x q rs)
         (\<lambda>e. lift (http_fault_result (Raised e))) t)"

definition http_run :: "pyenv \<Rightarrow> 'n http_ops \<Rightarrow> http_executor \<Rightarrow> execution_request
    \<Rightarrow> ('n net, execution_result \<times> bool) py" where
  "http_run env io x q =
     (if action q \<noteq> str ''http_json_mutation'' then ret (rejected (str ''unsupported_action''), False)
      else case http_prepare env (parse_url io) x q of
        Inl e \<Rightarrow> bnd (lift (http_fault_result (Raised e))) (\<lambda>r. ret (r, True))
      | Inr (Inl r) \<Rightarrow> ret (r, False)
      | Inr (Inr hr) \<Rightarrow> bnd (http_send io x q hr) (\<lambda>r. ret (r, True)))"

definition http_execute :: "pyenv \<Rightarrow> 'n http_ops \<Rightarrow> http_executor \<Rightarrow> execution_request
    \<Rightarrow> ('n net, execution_result) py" where
  "http_execute env io x = remembered (http_fingerprint env) (http_run env io x)"

subsection \<open>The readback of a JSON field\<close>

text \<open>\<open>a == b\<close>; an integer, a float and a boolean compare as numbers.\<close>

fun numeric :: "pv \<Rightarrow> rat option" where
  "numeric (PBool b) = Some (if b then 1 else 0)"
| "numeric (PInt i) = Some (of_int i)"
| "numeric (PFloat FNegZero) = Some 0"
| "numeric (PFloat (FFin q)) = Some q"
| "numeric v = None"

lemma member_size:
  fixes vs ws :: "pv list" and d :: pdict
  shows "(a, b) \<in> set (zip vs ws) \<Longrightarrow> size a < Suc (size_list size vs)"
    and "(k, a) \<in> set d \<Longrightarrow> size a < Suc (size_list (size_prod size size) d)"
  by (auto dest!: set_zip_leftD simp: less_Suc_eq_le intro: size_list_estimation')

function py_equal :: "pv \<Rightarrow> pv \<Rightarrow> bool" where
  "py_equal v w = (case (v, w) of
       (PFloat FNan, _) \<Rightarrow> False
     | (PList vs, PList ws) \<Rightarrow> length vs = length ws \<and> (\<forall>(a, b) \<in> set (zip vs ws). py_equal a b)
     | (PTuple vs, PTuple ws) \<Rightarrow> length vs = length ws \<and> (\<forall>(a, b) \<in> set (zip vs ws). py_equal a b)
     | (PDict d, PDict e) \<Rightarrow> length d = length e
         \<and> (\<forall>(k, a) \<in> set d. case map_of e k of Some b \<Rightarrow> py_equal a b | None \<Rightarrow> False)
     | _ \<Rightarrow> (case (numeric v, numeric w) of
         (Some p, Some q) \<Rightarrow> p = q
       | (None, None) \<Rightarrow> v = w
       | _ \<Rightarrow> False))"
  by pat_completeness auto
termination
  by (relation "measure (\<lambda>(v, w). size v)") (auto dest: member_size)

declare py_equal.simps [simp del]

definition bracket :: "pv \<Rightarrow> pystr \<Rightarrow> pv res" where
  "bracket v k = (case v of PDict d \<Rightarrow> ditem d k | _ \<Rightarrow> err TypeError ''indices must be integers'')"

definition loads_bytes :: "(rat \<Rightarrow> pfloat) \<Rightarrow> nat list \<Rightarrow> pv res" where
  "loads_bytes rf body = (case utf8_decode body of
       None \<Rightarrow> err UnicodeDecodeError ''invalid utf-8''
     | Some s \<Rightarrow> (case json_loads Lenient rf s of None \<Rightarrow> err JSONDecodeError ''invalid JSON'' | Some v \<Rightarrow> Inr v))"

definition json_field_verify :: "(rat \<Rightarrow> pfloat) \<Rightarrow> pystr \<Rightarrow> pystr \<Rightarrow> execution_request \<Rightarrow> int \<Rightarrow> nat list
    \<Rightarrow> readback_evidence res" where
  "json_field_verify rf field parameter q code body =
     (if \<not> (200 \<le> code \<and> code < 300)
      then Inr \<lparr>verified = False, observed = obj [(''status_code'', PInt code)],
        readback_reason = Some (str ''unexpected_status'')\<rparr>
      else case rbind (loads_bytes rf body) (\<lambda>v. rbind (bracket v field) (\<lambda>seen.
          rbind (ditem (parameters q) parameter) (\<lambda>want. Inr (seen, want)))) of
        Inl e \<Rightarrow> (if catches [UnicodeDecodeError, JSONDecodeError, KeyError, TypeError] e
          then Inr \<lparr>verified = False, observed = obj [(''status_code'', PInt code)],
            readback_reason = Some (str ''invalid_readback: '' @ exn_name (exn_kind e))\<rparr>
          else Inl e)
      | Inr (seen, want) \<Rightarrow>
          (let ok = py_equal seen want in
           Inr \<lparr>verified = ok, observed = obj [(''status_code'', PInt code), (''field'', PStr field), (''value'', seen)],
             readback_reason = (if ok then None else Some (str ''readback_value_mismatch''))\<rparr>))"

section \<open>Agent tool calls\<close>

record agent_tool_call =
  call_tool :: pystr
  call_arguments :: pdict
  call_id :: pystr

record agent_tool_outcome =
  allowed :: bool
  outcome_pathway :: pystr
  outcome_state :: pystr
  outcome_output :: pdict
  outcome_reason :: "pystr option"

definition tool_output :: "execution_result \<Rightarrow> pdict" where
  "tool_output r = obj [(''status'', PStr (status_value (status r))), (''evidence'', PDict (evidence r)),
     (''readback'', (case readback r of None \<Rightarrow> PNone
       | Some b \<Rightarrow> PDict (obj [(''verified'', PBool (verified b)), (''observed'', PDict (observed b)),
           (''reason'', opt_str (readback_reason b))])))]"

definition invoke_tool :: "config \<Rightarrow> (pystr \<Rightarrow> executor) \<Rightarrow> pystr \<Rightarrow> pystr \<Rightarrow> agent_tool_call
    \<Rightarrow> (world, agent_tool_outcome) py" where
  "invoke_tool cfg executor_for p actor c =
     bnd (lift (make_request (call_id c) (call_id c) (call_id c) (call_tool c) (call_arguments c))) (\<lambda>q.
     bnd (execute cfg p q actor (executor_for (call_tool c))) (\<lambda>r.
     bnd (in_store (get_state p)) (\<lambda>st.
       ret \<lparr>allowed = (status r = SUCCEEDED), outcome_pathway = p, outcome_state = state_value st,
         outcome_output = tool_output r, outcome_reason = result_reason r\<rparr>)))"

text \<open>\<open>arguments.pop("_rpr_call_id")\<close> on what \<open>json.loads\<close> returns.\<close>

definition pop_call_id :: "pv \<Rightarrow> (pv \<times> pdict) res" where
  "pop_call_id v = (case v of
       PDict d \<Rightarrow> rbind (ditem d (str ''_rpr_call_id'')) (\<lambda>c.
         Inr (c, AList.delete (PStr (str ''_rpr_call_id'')) d))
     | PList vs \<Rightarrow> err TypeError ''str cannot be interpreted as an integer''
     | _ \<Rightarrow> Inl (Exn (OtherException (str ''AttributeError'')) []))"

text \<open>The two adapters; the first returns the document that its text is dumped from.\<close>

definition function_tool_handler :: "config \<Rightarrow> (rat \<Rightarrow> pfloat) \<Rightarrow> (pystr \<Rightarrow> executor) \<Rightarrow> pystr \<Rightarrow> pystr \<Rightarrow> pystr
    \<Rightarrow> pystr \<Rightarrow> (world, pv) py" where
  "function_tool_handler cfg rf executor_for p actor tool text_in =
     bnd (lift (case json_loads Lenient rf text_in of None \<Rightarrow> err JSONDecodeError ''invalid JSON''
       | Some v \<Rightarrow> pop_call_id v)) (\<lambda>(c, arguments).
     bnd (invoke_tool cfg executor_for p actor
         \<lparr>call_tool = tool, call_arguments = arguments, call_id = py_str (cenv cfg) c\<rparr>) (\<lambda>r.
     lift (to_doc (PDict (outcome_output r @ obj [(''pathway_id'', PStr (outcome_pathway r)),
       (''state'', PStr (outcome_state r)), (''reason'', opt_str (outcome_reason r))])))))"

definition langgraph_node :: "config \<Rightarrow> (pystr \<Rightarrow> executor) \<Rightarrow> pystr \<Rightarrow> pystr \<Rightarrow> pystr \<Rightarrow> pdict
    \<Rightarrow> (world, pdict) py" where
  "langgraph_node cfg executor_for p actor tool st =
     bnd (lift (ditem st (str ''call_id''))) (\<lambda>c.
     bnd (lift (dict_of (dget_default st (str ''arguments'') (PDict [])))) (\<lambda>arguments.
     bnd (invoke_tool cfg executor_for p actor
         \<lparr>call_tool = tool, call_arguments = arguments, call_id = py_str (cenv cfg) c\<rparr>) (\<lambda>r.
     ret (dset (str ''rpr'') (PDict (obj [(''allowed'', PBool (allowed r)), (''state'', PStr (outcome_state r)),
       (''output'', PDict (outcome_output r)), (''reason'', opt_str (outcome_reason r))])) st))))"

section \<open>What an executor does outside\<close>

lemma wp_out:
  "(\<And>a e. m (outside s) = (Inr a, e) \<Longrightarrow> Q a (s\<lparr>outside := e\<rparr>)) \<Longrightarrow>
     (\<And>x e. m (outside s) = (Inl x, e) \<Longrightarrow> E x (s\<lparr>outside := e\<rparr>)) \<Longrightarrow> wp (out m) Q E s"
  unfolding out_def wp by (rule wpI) auto

text \<open>After a run: at most one act, on an allowed target, and nothing remembered yet.\<close>

definition acted :: "('l \<Rightarrow> bool) \<Rightarrow> ('e, 'l) memory \<Rightarrow> 'l list \<Rightarrow> ('e, 'l) memory \<Rightarrow> bool" where
  "acted ok s ls t \<longleftrightarrow> acts t = acts s @ ls \<and> length ls \<le> 1 \<and> list_all ok ls \<and> results t = results s"

lemma acted_simps [simp]:
  "acted ok s [] t \<longleftrightarrow> acts t = acts s \<and> results t = results s"
  "acted ok s [l] t \<longleftrightarrow> acts t = acts s @ [l] \<and> ok l \<and> results t = results s"
  by (auto simp: acted_def)

text \<open>
  A run acts at most once, and its result is explained by the request, the outside before and
  after it, and what was done. A result that is not kept comes from a run that did nothing.
\<close>

locale acting_executor =
  fixes run :: "execution_request \<Rightarrow> (('e, 'l) memory, execution_result \<times> bool) py"
    and allowed_act :: "execution_request \<Rightarrow> 'l \<Rightarrow> bool"
    and explained :: "execution_request \<Rightarrow> 'e \<Rightarrow> 'l list \<Rightarrow> execution_result \<Rightarrow> 'e \<Rightarrow> bool"
  assumes run_acts: "wp (run q)
      (\<lambda>(r, keep) t. \<exists>ls. acted (allowed_act q) s ls t \<and> explained q (outside s) ls r (outside t) \<and> (keep \<or> ls = []))
      (\<lambda>_ t. \<exists>ls. acted (allowed_act q) s ls t) s"
begin

text \<open>
  A request acts at most once. A known key changes nothing and answers by its fingerprint; for a
  new key the result explains the act, and it is remembered unless nothing was done.
\<close>

lemma execute_acts:
  "case remembered fp run q s of (r, t) \<Rightarrow> \<exists>ls. acts t = acts s @ ls \<and> length ls \<le> 1 \<and> list_all (allowed_act q) ls
     \<and> (case r of Inl _ \<Rightarrow> results t = results s
        | Inr a \<Rightarrow> \<exists>f. fp q = Inr f \<and> (case map_of (results s) (idempotency_key q) of
            Some (g, r') \<Rightarrow> t = s \<and> ls = [] \<and> a = (if f = g then r' else rejected (str ''idempotency_conflict''))
          | None \<Rightarrow> explained q (outside s) ls a (outside t)
              \<and> (ls = [] \<and> results t = results s
                 \<or> results t = AList.update (idempotency_key q) (f, a) (results s))))"
proof (cases "fp q")
  case (Inl e)
  then show ?thesis by (auto simp: remembered_def bnd_def)
next
  case (Inr f)
  show ?thesis
  proof (cases "map_of (results s) (idempotency_key q)")
    case None
    then have "remembered fp run q s = bnd (run q) (\<lambda>(r, keep) t. (Inr r,
        if keep then t\<lparr>results := AList.update (idempotency_key q) (f, r) (results t)\<rparr> else t)) s"
      using Inr by (simp add: remembered_def bnd_def)
    with run_acts [of q s] None Inr show ?thesis
      by (cases "run q s") (auto simp: wp_def bnd_def acted_def split: prod.splits sum.splits; blast)
  next
    case (Some fr)
    with Inr show ?thesis by (cases fr) (auto simp: remembered_def bnd_def)
  qed
qed

end

subsection \<open>Files\<close>

definition file_allowed :: "path \<Rightarrow> path \<times> nat list \<Rightarrow> bool" where
  "file_allowed base = (\<lambda>(target, bytes). strict_prefix base target)"

text \<open>
  The file that the request names was replaced by the text of the request, through a temporary
  file beside it, and \<open>seen\<close> is what reading the target answered after the replacement.
\<close>

definition read_back :: "pyenv \<Rightarrow> 'f file_ops \<Rightarrow> execution_request \<Rightarrow> 'f \<Rightarrow> path \<Rightarrow> nat list \<Rightarrow> nat list \<Rightarrow> 'f \<Rightarrow> bool" where
  "read_back env fs q e target bytes seen e' \<longleftrightarrow> (\<exists>p content temp e1 e2 e3.
     ditem (parameters q) (str ''path'') = Inr p \<and> fst (fo_resolve fs (py_str env p) e) = Inr target
     \<and> ditem (parameters q) (str ''content'') = Inr content \<and> utf8_encode (py_str env content) = Inr bytes
     \<and> fo_temp fs (butlast target) bytes e1 = (Inr temp, e2)
     \<and> fo_replace fs temp target e2 = (Inr (), e3)
     \<and> fo_read fs target e3 = (Inr seen, e'))"

text \<open>The request expects a content that the file it names did not have when it was read.\<close>

definition unexpected_content :: "pyenv \<Rightarrow> 'f file_ops \<Rightarrow> execution_request \<Rightarrow> 'f \<Rightarrow> 'f \<Rightarrow> bool" where
  "unexpected_content env fs q e e' \<longleftrightarrow> (\<exists>p target bytes e1.
     ditem (parameters q) (str ''path'') = Inr p \<and> fst (fo_resolve fs (py_str env p) e) = Inr target
     \<and> fo_read fs target e1 = (Inr bytes, e')
     \<and> dget_none (parameters q) (str ''expected_sha256'') \<noteq> PNone
     \<and> sha256 env bytes \<noteq> py_str env (dget_none (parameters q) (str ''expected_sha256'')))"

text \<open>
  Success is one replacement that was read back with the hash of what was written; a failure
  replaced nothing, for one of the two reasons; an unknown outcome with a readback is one that
  read another hash.
\<close>

definition file_explained :: "pyenv \<Rightarrow> 'f file_ops \<Rightarrow> execution_request \<Rightarrow> 'f \<Rightarrow> (path \<times> nat list) list
    \<Rightarrow> execution_result \<Rightarrow> 'f \<Rightarrow> bool" where
  "file_explained env fs q e ls r e' \<longleftrightarrow> (case status r of
       SUCCEEDED \<Rightarrow> (\<exists>target bytes seen rb. ls = [(target, bytes)] \<and> read_back env fs q e target bytes seen e'
         \<and> sha256 env seen = sha256 env bytes \<and> readback r = Some rb \<and> verified rb
         \<and> dget_none (observed rb) (str ''sha256'') = PStr (sha256 env seen)
         \<and> dget_none (observed rb) (str ''size'') = PInt (int (length seen)))
     | FAILED \<Rightarrow> ls = [] \<and> readback r = None
         \<and> (action q \<noteq> str ''replace_text_file'' \<or> unexpected_content env fs q e e')
     | STATUS_UNKNOWN \<Rightarrow> (case readback r of None \<Rightarrow> True
         | Some rb \<Rightarrow> \<not> verified rb \<and> (\<exists>target bytes seen. ls = [(target, bytes)]
             \<and> read_back env fs q e target bytes seen e' \<and> sha256 env seen \<noteq> sha256 env bytes)))"

lemma wp_resolve_target:
  assumes "\<And>target t. strict_prefix base target \<Longrightarrow> fst (fo_resolve fs rel (outside s)) = Inr target \<Longrightarrow>
      acts t = acts s \<Longrightarrow> results t = results s \<Longrightarrow> Q target t"
    and "\<And>e t. acts t = acts s \<Longrightarrow> results t = results s \<Longrightarrow> E e t"
  shows "wp (resolve_target base fs rel) Q E s"
  unfolding resolve_target_def wp(6) by (rule wp_out) (use assms in \<open>auto simp: wp\<close>)

lemma wp_precondition:
  assumes "\<And>t. acts t = acts s \<Longrightarrow> results t = results s \<Longrightarrow> Q None t"
    and "\<And>r b e e' t. fo_read fs target e = (Inr b, e') \<Longrightarrow> outside t = e' \<Longrightarrow> acts t = acts s \<Longrightarrow> results t = results s \<Longrightarrow>
      dget_none (parameters q) (str ''expected_sha256'') \<noteq> PNone \<Longrightarrow>
      sha256 env b \<noteq> py_str env (dget_none (parameters q) (str ''expected_sha256'')) \<Longrightarrow>
      status r = FAILED \<Longrightarrow> readback r = None \<Longrightarrow> Q (Some r) t"
    and "\<And>e t. acts t = acts s \<Longrightarrow> results t = results s \<Longrightarrow> E e t"
  shows "wp (file_precondition env fs q target) Q E s"
  unfolding file_precondition_def
  by (auto simp: wp intro!: wp_out assms(1,3)) (erule assms(2), simp_all)

lemma wp_replace_target:
  assumes "\<And>temp e1 e2 t. acts t = acts s @ [(target, bytes)] \<Longrightarrow> results t = results s \<Longrightarrow>
      fo_temp fs (butlast target) bytes e1 = (Inr temp, e2) \<Longrightarrow>
      fo_replace fs temp target e2 = (Inr (), outside t) \<Longrightarrow> Q () t"
    and "\<And>e t ls. ls \<in> {[], [(target, bytes)]} \<Longrightarrow> acts t = acts s @ ls \<Longrightarrow> results t = results s \<Longrightarrow> E e t"
  shows "wp (replace_target fs target bytes) Q E s"
  unfolding replace_target_def wp(6)
proof (rule wp_out)
  fix temp e assume e: "fo_temp fs (butlast target) bytes (outside s) = (Inr temp, e)"
  have "wp (out (fo_replace fs temp target)) Q E (s\<lparr>outside := e, acts := acts s @ [(target, bytes)]\<rparr>)"
    by (rule wp_out) (use e assms(1) assms(2) [of "[(target, bytes)]"] in auto)
  then show "wp (\<lambda>s. out (fo_replace fs temp target) (s\<lparr>acts := acts s @ [(target, bytes)]\<rparr>)) Q E (s\<lparr>outside := e\<rparr>)"
    by (simp add: wp_def)
qed (use assms(2) [of "[]"] in auto)

lemma wp_write_bytes:
  assumes "\<And>bytes temp v e1 e2 e3 t. acts t = acts s @ [(target, bytes)] \<Longrightarrow> results t = results s \<Longrightarrow>
      utf8_encode content = Inr bytes \<Longrightarrow> fo_temp fs (butlast target) bytes e1 = (Inr temp, e2) \<Longrightarrow>
      fo_replace fs temp target e2 = (Inr (), e3) \<Longrightarrow> fo_read fs target e3 = (Inr v, outside t) \<Longrightarrow>
      Q (file_result env base target bytes v, True) t"
    and "\<And>e t ls. ls = [] \<or> (\<exists>bytes. ls = [(target, bytes)]) \<Longrightarrow> acts t = acts s @ ls \<Longrightarrow>
      results t = results s \<Longrightarrow> E e t"
  shows "wp (write_bytes env base fs target content) Q E s"
proof -
  have idle: "E e t" if "acts t = acts s" "results t = results s" for e t
    using that by (intro assms(2) [of "[]"]) simp_all
  have seen: "wp (bnd (out (fo_read fs target)) (\<lambda>v. ret (file_result env base target bytes v, True))) Q E t"
    if "acts t = acts s @ [(target, bytes)]" "results t = results s" "utf8_encode content = Inr bytes"
      "fo_temp fs (butlast target) bytes e1 = (Inr temp, e2)" "fo_replace fs temp target e2 = (Inr (), outside t)"
    for bytes temp e1 e2 and t :: "'a disk"
    unfolding wp(6) wp(1) by (rule wp_out) (use that assms(1) assms(2) [of "[(target, bytes)]"] in auto)
  show ?thesis
    unfolding write_bytes_def wp(7) [of "out (fo_mkdir fs (butlast target))"] wp(6) [of "lift r" for r] wp(4)
  proof (rule wp_out)
    fix u e
    let ?t = "s\<lparr>outside := e\<rparr>"
    have "wp (seq (replace_target fs target bytes)
        (bnd (out (fo_read fs target)) (\<lambda>v. ret (file_result env base target bytes v, True)))) Q E ?t"
      if "utf8_encode content = Inr bytes" for bytes
      unfolding wp(7) by (rule wp_replace_target) (use that seen idle assms(2) [of "[(target, bytes)]"] in auto)
    then show "case utf8_encode content of Inl e \<Rightarrow> E e ?t | Inr bytes \<Rightarrow> wp (seq (replace_target fs target bytes)
        (bnd (out (fo_read fs target)) (\<lambda>v. ret (file_result env base target bytes v, True)))) Q E ?t"
      using idle by (simp split: sum.split)
  qed (use idle in auto)
qed

lemma file_result_explained:
  assumes "read_back env fs q e target bytes v e'"
  shows "file_explained env fs q e [(target, bytes)] (file_result env base target bytes v) e'"
  using assms by (auto simp: file_explained_def file_result_def Let_def obj_def dget_none_def dget_def intro!: exI [of _ v])

lemma wp_file_attempt:
  assumes "action q = str ''replace_text_file''"
  shows "wp (file_attempt env base fs q)
     (\<lambda>(r, keep) t. \<exists>ls. acted (file_allowed base) s ls t \<and> file_explained env fs q (outside s) ls r (outside t)
        \<and> (keep \<or> ls = []))
     (\<lambda>_ t. \<exists>ls. acted (file_allowed base) s ls t) s" (is "wp _ ?Q ?E s")
proof -
  have idle: "?E e t" if "acts t = acts s" "results t = results s" for e :: exn and t
    using that by (intro exI [of _ "[]"]) simp
  have bytes: "wp (write_bytes env base fs target (py_str env content)) ?Q ?E t"
    if "ditem (parameters q) (str ''path'') = Inr p" "fst (fo_resolve fs (py_str env p) (outside s)) = Inr target"
      "ditem (parameters q) (str ''content'') = Inr content"
      "strict_prefix base target" "acts t = acts s" "results t = results s" for p target content t
    by (rule wp_write_bytes)
      (use that in \<open>fastforce simp: acted_def file_allowed_def read_back_def intro!: file_result_explained\<close>)+
  have refused: "?Q (r, False) t"
    if "ditem (parameters q) (str ''path'') = Inr p" "fst (fo_resolve fs (py_str env p) (outside s)) = Inr target"
      "acts t = acts s" "results t = results s" "fo_read fs target e = (Inr b, outside t)"
      "dget_none (parameters q) (str ''expected_sha256'') \<noteq> PNone"
      "sha256 env b \<noteq> py_str env (dget_none (parameters q) (str ''expected_sha256''))"
      "status r = FAILED" "readback r = None" for p target r b e t
  proof -
    from that have "unexpected_content env fs q (outside s) (outside t)"
      unfolding unexpected_content_def by blast
    with that show ?thesis by (auto simp: file_explained_def intro!: exI [of _ "[]"])
  qed
  have "wp (bnd (file_precondition env fs q target) (\<lambda>failed. case failed of
         Some r \<Rightarrow> ret (r, False) | None \<Rightarrow> write_bytes env base fs target (py_str env content))) ?Q ?E t"
    if "ditem (parameters q) (str ''path'') = Inr p" "fst (fo_resolve fs (py_str env p) (outside s)) = Inr target"
      "ditem (parameters q) (str ''content'') = Inr content"
      "strict_prefix base target" "acts t = acts s" "results t = results s" for p target content t
    unfolding wp(6)
  proof (rule wp_precondition)
    fix t' :: "'a disk" assume "acts t' = acts t" "results t' = results t"
    then show "wp (case None of Some r \<Rightarrow> ret (r, False)
        | None \<Rightarrow> write_bytes env base fs target (py_str env content)) ?Q ?E t'"
      using that bytes by simp
  next
    fix r :: execution_result and b e e' and t' :: "'a disk" assume r: "acts t' = acts t" "results t' = results t"
      "fo_read fs target e = (Inr b, e')" "outside t' = e'" "dget_none (parameters q) (str ''expected_sha256'') \<noteq> PNone"
      "sha256 env b \<noteq> py_str env (dget_none (parameters q) (str ''expected_sha256''))"
      "status r = FAILED" "readback r = None"
    have "?Q (r, False) t'" by (rule refused) (use that r in auto)
    then show "wp (case Some r of Some r \<Rightarrow> ret (r, False)
        | None \<Rightarrow> write_bytes env base fs target (py_str env content)) ?Q ?E t'"
      by (simp add: wp)
  qed (use that idle in auto)
  then show ?thesis
    unfolding file_attempt_def
    by (auto simp: wp(4,6) idle intro!: wp_resolve_target split: sum.split)
qed

lemma wp_write_file:
  "wp (write_file env base fs q)
     (\<lambda>(r, keep) t. \<exists>ls. acted (file_allowed base) s ls t \<and> file_explained env fs q (outside s) ls r (outside t)
        \<and> (keep \<or> ls = []))
     (\<lambda>_ t. \<exists>ls. acted (file_allowed base) s ls t) s"
proof (cases "action q = str ''replace_text_file''")
  case False
  then show ?thesis by (auto simp: write_file_def wp rejected_def file_explained_def intro: exI [of _ "[]"])
next
  case True
  then show ?thesis
    unfolding write_file_def by (auto simp: wp file_explained_def intro!: wp_mono [OF wp_file_attempt])
qed

interpretation files: acting_executor "write_file env base fs" "\<lambda>_. file_allowed base" "file_explained env fs"
  for env base fs
  by unfold_locales (rule wp_write_file)

subsection \<open>HTTP\<close>

text \<open>The port of an address, or the one its scheme stands for.\<close>

definition port_of :: "pystr \<Rightarrow> int option \<Rightarrow> int" where
  "port_of scheme port = (if port \<in> {None, Some 0} then if scheme = str ''https'' then 443 else 80 else the port)"

text \<open>
  A request that may go out for \<open>q\<close>. Its address is the one \<open>q\<close> names; the address carries no user
  information and no fragment, is secure unless the executor is told otherwise, and its scheme, host
  and port together are on the list of the executor. The body is the JSON text of \<open>q\<close>, the method
  mutates, and no header belongs to the transport.
\<close>

definition http_allowed :: "pyenv \<Rightarrow> (pystr \<Rightarrow> url_parts res) \<Rightarrow> http_executor \<Rightarrow> execution_request
    \<Rightarrow> http_request \<Rightarrow> bool" where
  "http_allowed env parse x q hr \<longleftrightarrow> (\<exists>u p host port.
     ditem (parameters q) (str ''url'') = Inr u \<and> hr_url hr = py_str env u \<and> parse (hr_url hr) = Inr p
     \<and> up_username p \<in> {None, Some []} \<and> up_password p \<in> {None, Some []} \<and> up_fragment p = []
     \<and> (up_scheme p = str ''https'' \<or> up_scheme p = str ''http'' \<and> allow_insecure_http x)
     \<and> up_hostname p = Some host \<and> host \<noteq> [] \<and> up_port p = Inr port
     \<and> lower_text (up_scheme p) @ str ''://'' @ lower_text host @ str '':''
         @ int_text (port_of (up_scheme p) port) \<in> set (allowed_origins x))
   \<and> json_payload env (dget_default (parameters q) (str ''json'') (PDict [])) = Inr (hr_payload hr)
   \<and> hr_method hr \<in> {str ''POST'', str ''PUT'', str ''PATCH'', str ''DELETE''}
   \<and> list_all (\<lambda>(k, v). lower_text k \<notin> {str ''host'', str ''content-length'', str ''transfer-encoding'',
       str ''connection''}) (hr_headers hr)"

text \<open>The request was opened, the bounded body of the answer was read, and the readback judged it.\<close>

definition judged :: "'n http_ops \<Rightarrow> http_executor \<Rightarrow> execution_request \<Rightarrow> 'n \<Rightarrow> http_request
    \<Rightarrow> readback_evidence \<Rightarrow> 'n \<Rightarrow> bool" where
  "judged io x q e hr rb e' \<longleftrightarrow> (\<exists>rs body e1 e2. open_url io hr e = (Inr rs, e1)
     \<and> read_body io rs (max_response_bytes x + 1) e1 = (Inr body, e2) \<and> int (length body) \<le> max_response_bytes x
     \<and> verify_readback io q (rs_status rs) (rs_headers rs) body e2 = (Inr rb, e'))"

text \<open>
  Success is one request whose answer the readback verified; an unknown outcome with a readback is
  one it did not verify; a failure after a request names the exception that was caught.
\<close>

definition http_explained :: "'n http_ops \<Rightarrow> http_executor \<Rightarrow> execution_request \<Rightarrow> 'n \<Rightarrow> http_request list
    \<Rightarrow> execution_result \<Rightarrow> 'n \<Rightarrow> bool" where
  "http_explained io x q e ls r e' \<longleftrightarrow> (case status r of
       SUCCEEDED \<Rightarrow> (\<exists>hr rb. ls = [hr] \<and> judged io x q e hr rb e' \<and> verified rb \<and> readback r = Some rb)
     | FAILED \<Rightarrow> readback r = None \<and> (ls = [] \<or> (\<exists>c. catches [KeyError, TypeError, ValueError] c
         \<and> result_reason r = Some (str ''invalid_request:'' @ exn_name (exn_kind c) @ str '':'' @ exn_msg c)))
     | STATUS_UNKNOWN \<Rightarrow> (case readback r of None \<Rightarrow> True
         | Some rb \<Rightarrow> \<not> verified rb \<and> (\<exists>hr. ls = [hr] \<and> judged io x q e hr rb e')))"

lemma add_headers_allowed:
  "add_headers env d hs = Inr hs' \<Longrightarrow> list_all (\<lambda>(k, v). lower_text k \<notin> set forbidden_headers) hs \<Longrightarrow>
     list_all (\<lambda>(k, v). lower_text k \<notin> set forbidden_headers) hs'"
proof (induction env d hs rule: add_headers.induct)
  case (2 env k v kvs hs)
  have "list_all (\<lambda>(k, v). lower_text k \<notin> set forbidden_headers) (AList.update a b hs)"
    if "lower_text a \<notin> set forbidden_headers" for a b
    using 2(3) that by (induction hs) auto
  with 2 show ?case by (auto split: if_splits)
qed simp

lemma request_headers_allowed:
  assumes "request_headers env q = Inr hs"
  shows "list_all (\<lambda>(k, v). lower_text k \<notin> set forbidden_headers) hs"
proof -
  from assms obtain d where "add_headers env d (own_headers (idempotency_key q)) = Inr hs"
    by (auto simp: request_headers_def split: pv.splits sum.splits)
  then show ?thesis
    by (rule add_headers_allowed) (simp add: own_headers_def lower_text_def forbidden_headers_def str_def)
qed

lemma normalize_origin_text:
  assumes "normalize_origin parse url = Inr o'" "parse url = Inr p"
  obtains host port where "up_hostname p = Some host" "host \<noteq> []" "up_port p = Inr port"
    "o' = lower_text (up_scheme p) @ str ''://'' @ lower_text host @ str '':'' @ int_text (port_of (up_scheme p) port)"
proof -
  from assms obtain host where host: "up_hostname p = Some host"
    by (cases "up_hostname p") (auto simp: normalize_origin_def)
  with assms obtain h hs where hs: "host = h # hs" by (cases host) (auto simp: normalize_origin_def)
  with assms host obtain port where port: "up_port p = Inr port"
    by (cases "up_port p") (auto simp: normalize_origin_def split: if_splits)
  have "(case port of Some k \<Rightarrow> if k \<noteq> 0 then k else (if up_scheme p = str ''https'' then 443 else 80)
      | None \<Rightarrow> if up_scheme p = str ''https'' then 443 else 80) = port_of (up_scheme p) port"
    by (cases port) (auto simp: port_of_def)
  with assms host hs port that [of host port] show thesis
    by (simp add: normalize_origin_def Let_def split: if_split_asm)
qed

text \<open>What an accepted address is.\<close>

lemma validate_url_accepts:
  assumes "validate_url parse x url = Inr ()"
  obtains p host port where "parse url = Inr p" "up_username p \<in> {None, Some []}" "up_password p \<in> {None, Some []}"
    "up_fragment p = []" "up_scheme p = str ''https'' \<or> up_scheme p = str ''http'' \<and> allow_insecure_http x"
    "up_hostname p = Some host" "host \<noteq> []" "up_port p = Inr port"
    "lower_text (up_scheme p) @ str ''://'' @ lower_text host @ str '':''
       @ int_text (port_of (up_scheme p) port) \<in> set (allowed_origins x)"
proof -
  from assms obtain p o' where p: "parse url = Inr p" "\<not> filled (up_username p)" "\<not> filled (up_password p)"
      "up_fragment p = []" "up_scheme p \<in> set (if allow_insecure_http x then [str ''https'', str ''http''] else [str ''https''])"
    and o': "normalize_origin parse url = Inr o'" "o' \<in> set (allowed_origins x)"
    by (auto simp: validate_url_def rbind_eq_Inr check_def split: if_splits)
  from o'(1) p(1) obtain host port where "up_hostname p = Some host" "host \<noteq> []" "up_port p = Inr port"
      "o' = lower_text (up_scheme p) @ str ''://'' @ lower_text host @ str '':'' @ int_text (port_of (up_scheme p) port)"
    by (rule normalize_origin_text)
  with p o'(2) that [of p host port] show thesis by (auto simp: filled_def split: option.splits if_splits)
qed

lemma http_prepare_allowed:
  assumes "http_prepare env parse x q = Inr (Inr hr)"
  shows "http_allowed env parse x q hr"
proof -
  from assms obtain u where u: "ditem (parameters q) (str ''url'') = Inr u" "hr_url hr = py_str env u"
      "validate_url parse x (hr_url hr) = Inr ()"
    and hr: "json_payload env (dget_default (parameters q) (str ''json'') (PDict [])) = Inr (hr_payload hr)"
      "hr_method hr \<in> set mutating_methods" "request_headers env q = Inr (hr_headers hr)"
    by (cases "request_headers env q") (auto simp: http_prepare_def Let_def rbind_eq_Inr split: if_splits)
  from u(3) show ?thesis
    by (rule validate_url_accepts)
      (use u hr request_headers_allowed [OF hr(3)] in
        \<open>simp add: http_allowed_def mutating_methods_def forbidden_headers_def\<close>)
qed

lemma http_prepare_early: "http_prepare env parse x q = Inr (Inl r) \<Longrightarrow> status r = FAILED \<and> readback r = None"
  by (cases "request_headers env q")
    (auto simp: http_prepare_def Let_def rbind_eq_Inr rejected_def split: if_splits)

lemma http_fault_explained: "http_fault_result f = Inr r \<Longrightarrow> http_explained io x q e ls r e'"
  by (auto simp: http_fault_result_def http_explained_def rejected_def split: http_fault.splits if_splits)

lemma wp_response_result:
  assumes "open_url io hr e = (Inr rs, outside s)"
    and "\<And>r t. acts t = acts s \<Longrightarrow> results t = results s \<Longrightarrow> http_explained io x q e [hr] r (outside t) \<Longrightarrow> Q r t"
    and "\<And>c t. acts t = acts s \<Longrightarrow> results t = results s \<Longrightarrow> E c t"
  shows "wp (http_response_result io x q rs) Q E s"
  unfolding http_response_result_def wp(6) [of "out (read_body io rs (max_response_bytes x + 1))"]
proof (rule wp_out)
  fix body e2 assume body: "read_body io rs (max_response_bytes x + 1) (outside s) = (Inr body, e2)"
  let ?t = "s\<lparr>outside := e2\<rparr>"
  have judge: "wp (out (verify_readback io q (rs_status rs) (rs_headers rs) body)) (\<lambda>rb. wp (ret
      \<lparr>status = (if verified rb then SUCCEEDED else STATUS_UNKNOWN),
         evidence = obj [(''status_code'', PInt (rs_status rs)), (''response_bytes'', PInt (int (length body)))],
         readback = Some rb, result_reason = (if verified rb then None else readback_reason rb)\<rparr>) Q E) E ?t"
    if "int (length body) \<le> max_response_bytes x"
  proof (rule wp_out)
    fix rb e3 assume "verify_readback io q (rs_status rs) (rs_headers rs) body (outside ?t) = (Inr rb, e3)"
    with that assms(1) body have "judged io x q e hr rb e3" unfolding judged_def by auto
    then show "wp (ret \<lparr>status = (if verified rb then SUCCEEDED else STATUS_UNKNOWN),
         evidence = obj [(''status_code'', PInt (rs_status rs)), (''response_bytes'', PInt (int (length body)))],
         readback = Some rb, result_reason = (if verified rb then None else readback_reason rb)\<rparr>) Q E (?t\<lparr>outside := e3\<rparr>)"
      unfolding wp by (intro assms(2)) (auto simp: http_explained_def)
  qed (use assms(3) in auto)
  show "wp (if int (length body) > max_response_bytes x then ret (unknown_result (str ''response_too_large''))
     else bnd (out (verify_readback io q (rs_status rs) (rs_headers rs) body)) (\<lambda>rb. ret
      \<lparr>status = (if verified rb then SUCCEEDED else STATUS_UNKNOWN),
         evidence = obj [(''status_code'', PInt (rs_status rs)), (''response_bytes'', PInt (int (length body)))],
         readback = Some rb, result_reason = (if verified rb then None else readback_reason rb)\<rparr>)) Q E ?t"
    using judge assms(2) by (auto simp: wp http_explained_def)
qed (use assms(3) in auto)

lemma wp_http_send:
  assumes "\<And>r t. acts t = acts s @ [hr] \<Longrightarrow> results t = results s \<Longrightarrow>
      http_explained io x q (outside s) [hr] r (outside t) \<Longrightarrow> Q r t"
    and "\<And>e t. acts t = acts s @ [hr] \<Longrightarrow> results t = results s \<Longrightarrow> E e t"
  shows "wp (http_send io x q hr) Q E s"
proof -
  obtain answer n where a: "open_url io hr (outside s) = (answer, n)" by (cases "open_url io hr (outside s)")
  let ?t = "s\<lparr>outside := n, acts := acts s @ [hr]\<rparr>"
  show ?thesis
  proof (cases answer)
    case (Inl f)
    then show ?thesis
      using a assms http_fault_explained [of f _ io x q "outside s" "[hr]" n]
      by (cases "http_fault_result f") (auto simp: http_send_def wp_def Let_def)
  next
    case (Inr rs)
    have "wp (handle (\<lambda>_. True) (http_response_result io x q rs) (\<lambda>e. lift (http_fault_result (Raised e)))) Q E ?t"
      unfolding wp
      by (rule wp_response_result [where e = "outside s" and hr = hr])
        (use a Inr assms(2) in \<open>auto intro!: assms(1) split: sum.split intro: http_fault_explained\<close>)
    then show ?thesis using a Inr by (simp add: http_send_def wp_def Let_def)
  qed
qed

lemma wp_http_run:
  "wp (http_run env io x q)
     (\<lambda>(r, keep) t. \<exists>ls. acted (http_allowed env (parse_url io) x q) s ls t
        \<and> http_explained io x q (outside s) ls r (outside t) \<and> (keep \<or> ls = []))
     (\<lambda>_ t. \<exists>ls. acted (http_allowed env (parse_url io) x q) s ls t) s" (is "wp _ ?Q ?E s")
proof (cases "action q = str ''http_json_mutation''")
  case False
  then show ?thesis by (auto simp: http_run_def wp rejected_def http_explained_def intro: exI [of _ "[]"])
next
  case True
  show ?thesis
  proof (cases "http_prepare env (parse_url io) x q")
    case (Inl e)
    then show ?thesis
      using True http_fault_explained [of "Raised e" _ io x q "outside s" "[]"]
      by (auto simp: http_run_def wp split: sum.split intro!: exI [of _ "[]"])
  next
    case (Inr p)
    show ?thesis
    proof (cases p)
      case (Inl r)
      with Inr http_prepare_early have "http_explained io x q (outside s) [] r (outside s)"
        by (simp add: http_explained_def)
      then show ?thesis using True Inr Inl by (auto simp: http_run_def wp intro!: exI [of _ "[]"])
    next
      case (Inr hr)
      with \<open>http_prepare env (parse_url io) x q = Inr p\<close> have "http_allowed env (parse_url io) x q hr"
        by (simp add: http_prepare_allowed)
      then have "wp (bnd (http_send io x q hr) (\<lambda>r. ret (r, True))) ?Q ?E s"
        unfolding wp(6) wp(1) by (intro wp_http_send) (auto intro: exI [of _ "[hr]"])
      then show ?thesis using True Inr \<open>http_prepare env (parse_url io) x q = Inr p\<close> by (simp add: http_run_def)
    qed
  qed
qed

interpretation http: acting_executor "http_run env io x" "http_allowed env (parse_url io) x" "http_explained io x"
  for env io x
  by unfold_locales (rule wp_http_run)

section \<open>The contracts of the two executors\<close>

text \<open>
  C39. One call of the HTTP executor opens at most one request, to the address that the execution
  request names: its scheme, host and port are together on the allow-list, it carries no user
  information and no fragment and is \<open>https\<close> unless plain \<open>http\<close> is enabled; the method is a mutating one, the body is the
  JSON of the request, and no header belongs to the transport. (This is about the request that is
  handed to \<open>urlopen\<close>, not about redirects that \<open>urlopen\<close> follows.) A remembered key opens nothing, changes
  nothing and answers the remembered result when the fingerprint is the remembered one and an
  idempotency conflict otherwise. For a new key the result reports success only when the one
  request was answered, the body was read within its bound and the readback strategy verified it,
  and a result that follows a request is remembered under its key and fingerprint.
\<close>

theorem http_execute_contract:
  "case http_execute env io x q s of (r, t) \<Rightarrow>
     \<exists>sent. acts t = acts s @ sent \<and> length sent \<le> 1 \<and> list_all (http_allowed env (parse_url io) x q) sent
       \<and> (case r of Inl _ \<Rightarrow> results t = results s
          | Inr a \<Rightarrow> \<exists>f. http_fingerprint env q = Inr f \<and> (case map_of (results s) (idempotency_key q) of
              Some (g, r') \<Rightarrow> t = s \<and> sent = [] \<and> a = (if f = g then r' else rejected (str ''idempotency_conflict''))
            | None \<Rightarrow> http_explained io x q (outside s) sent a (outside t)
                \<and> (sent = [] \<and> results t = results s
                   \<or> results t = AList.update (idempotency_key q) (f, a) (results s))))"
  unfolding http_execute_def by (rule http.execute_acts)

text \<open>
  C40. One call of the local file executor replaces at most one file, and only one strictly below
  its base directory. A remembered key changes nothing and answers the remembered result when the
  fingerprint is the remembered one and an idempotency conflict otherwise. For a new key \<open>FAILED\<close>
  means that nothing was replaced, because the action is not supported or the file was read and did
  not have the expected hash. \<open>SUCCEEDED\<close> means that the file which the request names was replaced
  by the text of the request, that reading it after the replacement answered bytes with the hash of
  what was written, and that the readback reports the hash and the size of those bytes; an unknown outcome with a readback
  means that they had another hash. A result that follows a replacement is remembered.
\<close>

theorem file_execute_contract:
  "case file_execute env base fs q s of (r, t) \<Rightarrow>
     \<exists>written. acts t = acts s @ written \<and> length written \<le> 1
       \<and> list_all (\<lambda>(target, bytes). strict_prefix base target) written
       \<and> (case r of Inl _ \<Rightarrow> results t = results s
          | Inr a \<Rightarrow> \<exists>f. file_fingerprint env q = Inr f \<and> (case map_of (results s) (idempotency_key q) of
              Some (g, r') \<Rightarrow> t = s \<and> written = [] \<and> a = (if f = g then r' else rejected (str ''idempotency_conflict''))
            | None \<Rightarrow> file_explained env fs q (outside s) written a (outside t)
                \<and> (written = [] \<and> results t = results s
                   \<or> results t = AList.update (idempotency_key q) (f, a) (results s))))"
  unfolding file_execute_def
  using files.execute_acts [where fp = "file_fingerprint env" and env = env and fs = fs and base = base and q = q and s = s]
  by (simp add: file_allowed_def)

end
