(* ===== verification/Rpr_Migrations.thy ===== *)
theory Rpr_Migrations
  imports Rpr_Tenant Rpr_Outbox Rpr_Parse
begin

text \<open>
  Opening a database: \<open>_migrate\<close> and \<open>schema_version\<close> of \<open>attempts.py\<close>, \<open>storage.py\<close>, \<open>tenant.py\<close>
  and \<open>message_executor.py\<close>, and \<open>_backfill_fingerprints\<close> of \<open>storage.py\<close>. What the four share (a
  version that is read, compared and written in one transaction) is a locale, interpreted for each
  of them: a newer file is refused and left as it is, and opening a file twice is opening it once.
\<close>

section \<open>Files\<close>

text \<open>
  A component's part of a database file: the \<open>schema_version\<close> entry of its metadata table (the
  outer \<open>None\<close>: no such table) and its table of rows, which a new file does not have.
\<close>

record 'r db_file =
  meta :: "pystr option option"
  file_rows :: "'r list option"
  file_faults :: "fault list"

definition rows_in :: "('r, 'z) db_file_scheme \<Rightarrow> 'r list" where
  "rows_in s = (case file_rows s of None \<Rightarrow> [] | Some rs \<Rightarrow> rs)"

definition file_step :: "(('r, 'z) db_file_scheme, 'a) py \<Rightarrow> (('r, 'z) db_file_scheme, 'a) py" where
  "file_step m = db_step file_faults (\<lambda>f s. s\<lparr>file_faults := f\<rparr>) m"

text \<open>\<open>int(text)\<close>: spaces around, a sign, and digits that single underscores may separate.\<close>

fun int_digits :: "pystr \<Rightarrow> pystr option" where
  "int_digits [] = None"
| "int_digits [c] = (if digit c then Some [c] else None)"
| "int_digits (c # d # s) = (if \<not> digit c then None
     else map_option (\<lambda>ds. c # ds) (if d = 95 then int_digits s else int_digits (d # s)))"

definition py_int :: "pystr \<Rightarrow> int res" where
  "py_int s = (let t = strip s; u = (case t of [] \<Rightarrow> [] | c # r \<Rightarrow> if c = 43 \<or> c = 45 then r else t) in
     case int_digits u of
       None \<Rightarrow> err ValueError ''invalid literal for int() with base 10''
     | Some ds \<Rightarrow> Inr (if take 1 t = [45] then - int (digits_value ds) else int (digits_value ds)))"

text \<open>\<open>0 if row is None else int(row["value"])\<close>.\<close>

definition stored_version :: "pystr option option \<Rightarrow> int res" where
  "stored_version m = (case m of Some (Some t) \<Rightarrow> py_int t | _ \<Rightarrow> Inr 0)"

definition attempt_schema_version :: int where "attempt_schema_version = 1"

text \<open>The transaction, with the tables that a component creates or extends.\<close>

definition check_version :: "exn_kind \<Rightarrow> string \<Rightarrow> int \<Rightarrow> pystr option option \<Rightarrow> unit res" where
  "check_version k what supported m = rbind (stored_version m) (\<lambda>v.
     if v > supported
     then Inl (Exn k (str what @ str '' schema '' @ int_text v @ str '' is newer than supported schema ''
            @ int_text supported))
     else if v < 0 then Inl (Exn k (str what @ str '' schema version cannot be negative''))
     else Inr ())"

definition migrate_tx :: "exn_kind \<Rightarrow> string \<Rightarrow> int \<Rightarrow> (('r, 'z) db_file_scheme \<Rightarrow> ('r, 'z) db_file_scheme res)
    \<Rightarrow> (('r, 'z) db_file_scheme, unit) py" where
  "migrate_tx k what supported upgrade = file_step (\<lambda>s.
     case rbind (check_version k what supported (meta s)) (\<lambda>_. upgrade s) of
       Inl e \<Rightarrow> (Inl e, s)
     | Inr t \<Rightarrow> (Inr (), t\<lparr>meta := Some (Some (int_text supported))\<rparr>))"

text \<open>The property \<open>schema_version\<close>.\<close>

definition read_version :: "exn_kind \<Rightarrow> string \<Rightarrow> (('r, 'z) db_file_scheme, int) py" where
  "read_version k what = file_step (query (\<lambda>s. case meta s of
       None \<Rightarrow> err SqliteOperationalError ''no such table''
     | Some None \<Rightarrow> Inl (Exn k (str what @ str ''schema metadata is missing''))
     | Some (Some t) \<Rightarrow> py_int t))"

text \<open>\<open>CREATE TABLE IF NOT EXISTS\<close>.\<close>

definition create_table :: "('r, 'z) db_file_scheme \<Rightarrow> ('r, 'z) db_file_scheme" where
  "create_table s = s\<lparr>file_rows := Some (rows_in s)\<rparr>"

section \<open>The four components\<close>

subsection \<open>The attempt ledger\<close>

text \<open>Its unique index, which cannot be created on rows that share a pathway and a key.\<close>

record attempt_file = "attempt_record db_file" +
  key_index :: bool

definition attempt_upgrade :: "attempt_file \<Rightarrow> attempt_file res" where
  "attempt_upgrade s =
     (if \<not> key_index s \<and> \<not> distinct (map (\<lambda>r. (at_pathway_id r, at_key r)) (rows_in s))
      then err SqliteIntegrityError ''UNIQUE constraint failed: execution_attempts.pathway_id, execution_attempts.idempotency_key''
      else Inr (create_table s\<lparr>key_index := True\<rparr>))"

definition attempts_migrate :: "(attempt_file, unit) py" where
  "attempts_migrate = migrate_tx AttemptSchemaVersionError ''attempt'' attempt_schema_version attempt_upgrade"

definition attempts_version :: "(attempt_file, int) py" where
  "attempts_version = read_version AttemptSchemaVersionError ''attempt ''"

subsection \<open>The tenant registry and the outbox\<close>

definition tenant_schema_version :: int where "tenant_schema_version = 1"

definition tenant_migrate :: "(tenant_row db_file, unit) py" where
  "tenant_migrate = migrate_tx TenantSchemaVersionError ''tenant'' tenant_schema_version (\<lambda>s. Inr (create_table s))"

definition tenant_version :: "(tenant_row db_file, int) py" where
  "tenant_version = read_version TenantSchemaVersionError ''tenant ''"

definition outbox_schema_version :: int where "outbox_schema_version = 1"

definition outbox_migrate :: "(outbox_row db_file, unit) py" where
  "outbox_migrate = migrate_tx OutboxSchemaVersionError ''outbox'' outbox_schema_version (\<lambda>s. Inr (create_table s))"

definition outbox_version :: "(outbox_row db_file, int) py" where
  "outbox_version = read_version OutboxSchemaVersionError ''outbox ''"

subsection \<open>The pathway store\<close>

text \<open>A stored pathway as the file has it: the text of its definition, and a fingerprint that an
  earlier version of the table does not hold.\<close>

record stored_pathway =
  sp_id :: pystr
  sp_text :: pystr
  sp_fingerprint :: "pystr option"
  sp_state :: pathway_state
  sp_key :: pystr

record store_file = "stored_pathway db_file" +
  event_table :: "event_row list option"
  fingerprint_column :: bool

definition current_schema_version :: int where "current_schema_version = 1"

definition store_upgrade :: "store_file \<Rightarrow> store_file res" where
  "store_upgrade s = (let t = create_table s in
     Inr (t\<lparr>event_table := Some (case event_table s of None \<Rightarrow> [] | Some es \<Rightarrow> es),
       file_rows := map_option (map (\<lambda>r. if file_rows s = None \<or> fingerprint_column s then r
         else r\<lparr>sp_fingerprint := None\<rparr>)) (file_rows t),
       fingerprint_column := True\<rparr>))"

definition store_migrate :: "(store_file, unit) py" where
  "store_migrate = migrate_tx SchemaVersionError ''database'' current_schema_version store_upgrade"

definition store_version :: "(store_file, int) py" where
  "store_version = read_version SchemaVersionError ''''"

text \<open>Rows without a fingerprint get one, and the canonical text that it is the hash of.\<close>

definition unfingerprinted :: "stored_pathway \<Rightarrow> bool" where
  "unfingerprinted r \<longleftrightarrow> sp_fingerprint r = None \<or> sp_fingerprint r = Some []"

definition canonical_row :: "pyenv \<Rightarrow> (rat \<Rightarrow> pfloat) \<Rightarrow> stored_pathway \<Rightarrow> stored_pathway res" where
  "canonical_row env rf r = (case json_loads Lenient rf (sp_text r) of
       None \<Rightarrow> err JSONDecodeError ''invalid JSON''
     | Some v \<Rightarrow> rbind (canonical_doc v) (\<lambda>d.
         rbind (utf8_encode (json_text (float_repr env) d)) (\<lambda>b.
         Inr (r\<lparr>sp_text := json_text (float_repr env) d, sp_fingerprint := Some (sha256 env b)\<rparr>))))"

fun backfill_rows :: "pyenv \<Rightarrow> (rat \<Rightarrow> pfloat) \<Rightarrow> stored_pathway list \<Rightarrow> stored_pathway list res" where
  "backfill_rows env rf [] = Inr []"
| "backfill_rows env rf (r # rs) =
     rbind (if unfingerprinted r then canonical_row env rf r else Inr r) (\<lambda>r'.
     rbind (backfill_rows env rf rs) (\<lambda>rs'. Inr (r' # rs')))"

definition backfill_fingerprints :: "pyenv \<Rightarrow> (rat \<Rightarrow> pfloat) \<Rightarrow> (store_file, unit) py" where
  "backfill_fingerprints env rf =
     bnd (file_step (query (\<lambda>s. Inr (list_ex unfingerprinted (rows_in s))))) (\<lambda>some.
     if \<not> some then ret ()
     else file_step (\<lambda>s. case backfill_rows env rf (rows_in s) of
         Inl e \<Rightarrow> (Inl e, s)
       | Inr rs \<Rightarrow> (Inr (), s\<lparr>file_rows := Some rs\<rparr>)))"

definition open_store :: "pyenv \<Rightarrow> (rat \<Rightarrow> pfloat) \<Rightarrow> (store_file, unit) py" where
  "open_store env rf = seq store_migrate (backfill_fingerprints env rf)"

section \<open>Versioned files\<close>

lemma file_step_returns:
  assumes "file_step m s = (Inr a, t)"
  obtains f where "m (s\<lparr>file_faults := f\<rparr>) = (Inr a, t)"
proof -
  have "m (s\<lparr>file_faults := file_faults s\<rparr>) = m s" by simp
  with assms that [of "file_faults s"] that show thesis
    by (auto simp: file_step_def db_step_def split: list.splits fault.splits)
qed

lemma file_step_raises:
  assumes "file_step m s = (Inl e, t)"
  obtains f where "t = s\<lparr>file_faults := f\<rparr>" | f where "m (s\<lparr>file_faults := f\<rparr>) = (Inl e, t)"
proof -
  have "m (s\<lparr>file_faults := file_faults s\<rparr>) = m s" by simp
  with assms that(2) [of "file_faults s"] that show thesis
    by (auto simp: file_step_def db_step_def split: list.splits fault.splits)
qed

lemma file_step_quiet: "file_faults s = [] \<Longrightarrow> file_step m s = m s"
  by (simp add: file_step_def db_step_def)

text \<open>
  What a migration may do to a file: nothing, or, when its version is not newer, bring it to the
  current version with the same rows, as far as \<open>view\<close> shows them.
\<close>

definition opened :: "('r \<Rightarrow> 'v) \<Rightarrow> int \<Rightarrow> ('r, 'z) db_file_scheme \<Rightarrow> unit res \<times> ('r, 'z) db_file_scheme \<Rightarrow> bool" where
  "opened view supported s rt \<longleftrightarrow> (case rt of
       (Inl e, t) \<Rightarrow> \<exists>f. t = s\<lparr>file_faults := f\<rparr>
     | (Inr _, t) \<Rightarrow> (\<exists>v. stored_version (meta s) = Inr v \<and> 0 \<le> v \<and> v \<le> supported)
         \<and> meta t = Some (Some (int_text supported)) \<and> file_rows t \<noteq> None
         \<and> map view (rows_in t) = map view (rows_in s))"

lemma rows_in_update [simp]:
  "rows_in (s\<lparr>meta := m\<rparr>) = rows_in s" "rows_in (s\<lparr>file_faults := f\<rparr>) = rows_in s"
  "rows_in (s\<lparr>file_rows := Some rs\<rparr>) = rs"
  by (simp_all add: rows_in_def)

lemma create_table_rows [simp]: "rows_in (create_table s) = rows_in s" "file_rows (create_table s) = Some (rows_in s)"
  by (simp_all add: create_table_def)

locale versioned_file =
  fixes k :: exn_kind and what :: string and supported :: int and view :: "'r \<Rightarrow> 'v"
    and upgrade :: "('r, 'z) db_file_scheme \<Rightarrow> ('r, 'z) db_file_scheme res"
  assumes supported_read: "py_int (int_text supported) = Inr supported" "supported \<ge> 0"
    and upgrade_twice: "upgrade s = Inr t \<Longrightarrow> upgrade (t\<lparr>meta := m\<rparr>) = Inr (t\<lparr>meta := m\<rparr>)"
    and upgrade_rows: "upgrade s = Inr t \<Longrightarrow> file_rows t \<noteq> None \<and> map view (rows_in t) = map view (rows_in s)"
begin

lemma error_keeps:
  assumes "migrate_tx k what supported upgrade s = (Inl e, t)"
  shows "\<exists>f. t = s\<lparr>file_faults := f\<rparr>"
  using assms unfolding migrate_tx_def by (rule file_step_raises) (auto split: sum.splits)

lemma migrated:
  assumes "migrate_tx k what supported upgrade s = (Inr u, t)"
  obtains f t' where "check_version k what supported (meta s) = Inr ()" "upgrade (s\<lparr>file_faults := f\<rparr>) = Inr t'"
    "t = t'\<lparr>meta := Some (Some (int_text supported))\<rparr>"
  using assms unfolding migrate_tx_def
  by (rule file_step_returns) (auto simp: rbind_eq_Inr split: sum.splits intro: that)

lemma migrate_opened: "opened view supported s (migrate_tx k what supported upgrade s)"
proof (cases "migrate_tx k what supported upgrade s")
  case (Pair r t)
  show ?thesis
  proof (cases r)
    case (Inr u)
    with Pair have "migrate_tx k what supported upgrade s = (Inr u, t)" by simp
    then obtain f t' where c: "check_version k what supported (meta s) = Inr ()"
      and up: "upgrade (s\<lparr>file_faults := f\<rparr>) = Inr t'" and t: "t = t'\<lparr>meta := Some (Some (int_text supported))\<rparr>"
      by (rule migrated)
    from c have "\<exists>v. stored_version (meta s) = Inr v \<and> 0 \<le> v \<and> v \<le> supported"
      by (auto simp: check_version_def rbind_eq_Inr split: if_splits)
    with upgrade_rows [OF up] t Pair Inr show ?thesis by (simp add: opened_def)
  qed (use Pair error_keeps in \<open>auto simp: opened_def\<close>)
qed

lemma migrated_twice:
  assumes "migrate_tx k what supported upgrade s = (Inr u, t)" "file_faults t = []"
  shows "migrate_tx k what supported upgrade t = (Inr (), t)"
proof -
  from assms(1) obtain f t' where up: "upgrade (s\<lparr>file_faults := f\<rparr>) = Inr t'"
    and t: "t = t'\<lparr>meta := Some (Some (int_text supported))\<rparr>" by (rule migrated)
  from upgrade_twice [OF up] t have "upgrade t = Inr t" by simp
  moreover have "check_version k what supported (meta t) = Inr ()"
    using supported_read t by (simp add: check_version_def stored_version_def)
  moreover have "t\<lparr>meta := Some (Some (int_text supported))\<rparr> = t" using t by simp
  ultimately show ?thesis using assms(2) by (simp add: migrate_tx_def file_step_quiet)
qed

end

lemma read_one: "py_int (int_text 1) = Inr 1"
  by (simp add: int_text_def nat_text.simps py_int_def strip_def is_space_def digit_def digits_value_def)

lemmas schema_versions = attempt_schema_version_def tenant_schema_version_def outbox_schema_version_def
  current_schema_version_def

interpretation attempt_file: versioned_file AttemptSchemaVersionError "''attempt''" attempt_schema_version id attempt_upgrade
  by unfold_locales (auto simp: schema_versions read_one attempt_upgrade_def create_table_def rows_in_def split: if_splits)

interpretation tenant_file: versioned_file TenantSchemaVersionError "''tenant''" tenant_schema_version id
  "\<lambda>s :: tenant_row db_file. Inr (create_table s)"
  by unfold_locales (auto simp: schema_versions read_one create_table_def rows_in_def)

interpretation outbox_file: versioned_file OutboxSchemaVersionError "''outbox''" outbox_schema_version id
  "\<lambda>s :: outbox_row db_file. Inr (create_table s)"
  by unfold_locales (auto simp: schema_versions read_one create_table_def rows_in_def)

interpretation store_file: versioned_file SchemaVersionError "''database''" current_schema_version
  "sp_fingerprint_update (\<lambda>_. None)" store_upgrade
  by unfold_locales (auto simp: schema_versions read_one store_upgrade_def create_table_def rows_in_def Let_def)

section \<open>Opening the pathway store\<close>

definition backfilled :: "pyenv \<Rightarrow> (rat \<Rightarrow> pfloat) \<Rightarrow> stored_pathway \<Rightarrow> stored_pathway \<Rightarrow> bool" where
  "backfilled env rf r r' \<longleftrightarrow> (if unfingerprinted r then canonical_row env rf r = Inr r' else r' = r)"

lemma backfill_rows_all2: "backfill_rows env rf rs = Inr rs' \<Longrightarrow> list_all2 (backfilled env rf) rs rs'"
  by (induction rs arbitrary: rs') (auto simp: rbind_eq_Inr backfilled_def split: if_splits)

lemma backfilled_names: "backfilled env rf r r' \<Longrightarrow> sp_id r' = sp_id r \<and> sp_state r' = sp_state r \<and> sp_key r' = sp_key r"
  by (auto simp: backfilled_def canonical_row_def rbind_eq_Inr split: if_splits option.splits)

lemma backfilled_fingerprint:
  assumes "\<And>b. sha256 env b \<noteq> []" "backfilled env rf r r'"
  shows "\<not> unfingerprinted r'"
proof (cases "unfingerprinted r")
  case True
  with assms show ?thesis
    by (auto simp: backfilled_def canonical_row_def rbind_eq_Inr unfingerprinted_def split: option.splits)
qed (use assms(2) in \<open>simp add: backfilled_def\<close>)

lemma backfill_returns:
  assumes "backfill_fingerprints env rf s = (Inr u, t)"
  shows "meta t = meta s \<and> event_table t = event_table s \<and> fingerprint_column t = fingerprint_column s
    \<and> (file_rows s \<noteq> None \<longrightarrow> file_rows t \<noteq> None) \<and> list_all2 (backfilled env rf) (rows_in s) (rows_in t)"
proof -
  from assms obtain some s' where some: "file_step (query (\<lambda>s. Inr (list_ex unfingerprinted (rows_in s)))) s = (Inr some, s')"
    and rest: "(if \<not> some then ret () else file_step (\<lambda>s. case backfill_rows env rf (rows_in s) of
         Inl e \<Rightarrow> (Inl e, s) | Inr rs \<Rightarrow> (Inr (), s\<lparr>file_rows := Some rs\<rparr>))) s' = (Inr u, t)"
    by (auto simp: backfill_fingerprints_def bnd_def split: prod.splits sum.splits)
  from some obtain f where s': "s' = s\<lparr>file_faults := f\<rparr>" "some = list_ex unfingerprinted (rows_in s)"
    by (auto elim!: file_step_returns)
  show ?thesis
  proof (cases some)
    case True
    with rest obtain g rs where "backfill_rows env rf (rows_in s) = Inr rs" "t = s\<lparr>file_faults := g, file_rows := Some rs\<rparr>"
      by (auto simp: s'(1) elim!: file_step_returns split: sum.splits)
    then show ?thesis by (simp add: backfill_rows_all2)
  next
    case False
    with s'(2) have "list_all2 (backfilled env rf) (rows_in s) (rows_in s)"
      by (auto simp: list_all2_same backfilled_def list_ex_iff)
    moreover from False rest s'(1) have "t = s\<lparr>file_faults := f\<rparr>" by simp
    ultimately show ?thesis by simp
  qed
qed

text \<open>The form of an opened file.\<close>

definition store_file_ok :: "store_file \<Rightarrow> bool" where
  "store_file_ok t \<longleftrightarrow> meta t = Some (Some (int_text 1)) \<and> file_rows t \<noteq> None \<and> event_table t \<noteq> None
     \<and> fingerprint_column t \<and> list_all (\<lambda>r. \<not> unfingerprinted r) (rows_in t)"

definition row_names :: "stored_pathway \<Rightarrow> pystr \<times> pathway_state \<times> pystr" where
  "row_names r = (sp_id r, sp_state r, sp_key r)"

lemma open_store_returns:
  assumes "open_store env rf s = (Inr u, t)"
  obtains t' where "store_migrate s = (Inr (), t')" "backfill_fingerprints env rf t' = (Inr u, t)"
    "list_all2 (backfilled env rf) (rows_in t') (rows_in t)"
    "meta t = Some (Some (int_text 1))" "file_rows t \<noteq> None" "event_table t \<noteq> None" "fingerprint_column t"
    "rows_in t' = map (\<lambda>r. if file_rows s = None \<or> fingerprint_column s then r else r\<lparr>sp_fingerprint := None\<rparr>) (rows_in s)"
proof -
  from assms obtain t' where m: "store_migrate s = (Inr (), t')" and b: "backfill_fingerprints env rf t' = (Inr u, t)"
    by (auto simp: open_store_def seq_def bnd_def split: prod.splits sum.splits)
  from m have "meta t' = Some (Some (int_text 1)) \<and> file_rows t' \<noteq> None \<and> event_table t' \<noteq> None \<and> fingerprint_column t'
      \<and> rows_in t' = map (\<lambda>r. if file_rows s = None \<or> fingerprint_column s then r else r\<lparr>sp_fingerprint := None\<rparr>) (rows_in s)"
    unfolding store_migrate_def
    by (elim store_file.migrated) (auto simp: schema_versions store_upgrade_def Let_def rows_in_def)
  with backfill_returns [OF b] m b show thesis by (auto intro: that)
qed

lemma open_store_names:
  assumes "open_store env rf s = (Inr u, t)"
  shows "map row_names (rows_in t) = map row_names (rows_in s)"
proof -
  from assms obtain t' :: store_file where all: "list_all2 (backfilled env rf) (rows_in t') (rows_in t)"
    and t': "rows_in t' = map (\<lambda>r. if file_rows s = None \<or> fingerprint_column s then r else r\<lparr>sp_fingerprint := None\<rparr>) (rows_in s)"
    by (rule open_store_returns) blast
  from all have "map row_names (rows_in t) = map row_names (rows_in t')"
    by (induction rule: list_all2_induct) (auto simp: row_names_def dest: backfilled_names)
  with t' show ?thesis by (simp add: row_names_def)
qed

lemma open_store_ok:
  assumes "\<And>b. sha256 env b \<noteq> []" "open_store env rf s = (Inr u, t)"
  shows "store_file_ok t"
proof -
  from assms(2) obtain t' :: store_file where all: "list_all2 (backfilled env rf) (rows_in t') (rows_in t)"
    and "meta t = Some (Some (int_text 1))" "file_rows t \<noteq> None" "event_table t \<noteq> None" "fingerprint_column t"
    by (rule open_store_returns) blast
  moreover from all have "list_all (\<lambda>r. \<not> unfingerprinted r) (rows_in t)"
    by (induction rule: list_all2_induct) (auto dest: backfilled_fingerprint [OF assms(1)])
  ultimately show ?thesis by (simp add: store_file_ok_def)
qed

lemma open_ok_again:
  assumes "store_file_ok t" "file_faults t = []"
  shows "open_store env rf t = (Inr (), t)"
proof -
  have "store_upgrade t = Inr t"
    using assms by (auto simp: store_file_ok_def store_upgrade_def create_table_def rows_in_def Let_def)
  moreover have "t\<lparr>meta := Some (Some (int_text 1))\<rparr> = t" using assms(1) by (simp add: store_file_ok_def)
  moreover have "check_version SchemaVersionError ''database'' 1 (meta t) = Inr ()"
    using assms(1) read_one by (simp add: store_file_ok_def check_version_def stored_version_def)
  ultimately have "store_migrate t = (Inr (), t)"
    using assms(2) by (simp add: store_migrate_def migrate_tx_def file_step_quiet schema_versions)
  moreover have "\<not> list_ex unfingerprinted (rows_in t)"
    using assms(1) by (auto simp: store_file_ok_def list_ex_iff list_all_iff)
  ultimately show ?thesis
    using assms(2) by (simp add: open_store_def backfill_fingerprints_def seq_run bnd_def file_step_quiet)
qed

text \<open>The store that works on an opened file.\<close>

definition load_row :: "(rat \<Rightarrow> pfloat) \<Rightarrow> stored_pathway \<Rightarrow> pathway_row" where
  "load_row rf r = \<lparr>row_id = sp_id r,
     row_doc = (case json_loads Lenient rf (sp_text r) of Some (PDict d) \<Rightarrow> d | _ \<Rightarrow> []),
     row_fingerprint = (case sp_fingerprint r of None \<Rightarrow> [] | Some f \<Rightarrow> f), row_state = sp_state r, row_key = sp_key r\<rparr>"

lemma load_row_simps [simp]:
  "row_id (load_row rf r) = sp_id r" "row_state (load_row rf r) = sp_state r" "row_key (load_row rf r) = sp_key r"
  "sp_fingerprint r = Some fp \<Longrightarrow> row_fingerprint (load_row rf r) = fp"
  by (simp_all add: load_row_def)

definition loaded :: "(rat \<Rightarrow> pfloat) \<Rightarrow> store_file \<Rightarrow> store" where
  "loaded rf s = \<lparr>pathways = map (load_row rf) (rows_in s),
     event_rows = (case event_table s of None \<Rightarrow> [] | Some es \<Rightarrow> es), store_faults = file_faults s\<rparr>"

lemma find_distinct: "distinct (map f xs) \<Longrightarrow> x \<in> set xs \<Longrightarrow> f x = k \<Longrightarrow> find (\<lambda>y. f y = k) xs = Some x"
  by (induction xs) auto

lemma list_all2_member: "list_all2 P xs ys \<Longrightarrow> x \<in> set xs \<Longrightarrow> \<exists>y \<in> set ys. P x y"
  by (induction rule: list_all2_induct) auto

text \<open>The row of a definition that an upgraded file holds has that definition's fingerprint.\<close>

lemma upgraded_row:
  assumes "open_store env rf s = (Inr u, t)" "r \<in> set (rows_in s)" "\<not> fingerprint_column s \<or> unfingerprinted r"
    and "json_loads Lenient rf (sp_text r) = Some v"
    and "canonical_doc v = canonical_doc (PDict (definition_to_dict d))"
  obtains r' fp doc where "r' \<in> set (rows_in t)" "sp_fingerprint r' = Some fp" "row_names r' = row_names r"
    "canonical_definition d = Inr doc" "definition_fingerprint env d = Inr fp"
proof -
  from assms(1) obtain t' :: store_file where all: "list_all2 (backfilled env rf) (rows_in t') (rows_in t)"
    and t': "rows_in t' = map (\<lambda>r. if file_rows s = None \<or> fingerprint_column s then r else r\<lparr>sp_fingerprint := None\<rparr>) (rows_in s)"
    by (rule open_store_returns) blast
  from assms(2) have "file_rows s \<noteq> None" by (cases "file_rows s") (simp_all add: rows_in_def)
  with assms(2,3) t' obtain r0 where r0: "r0 \<in> set (rows_in t')" "unfingerprinted r0" "sp_text r0 = sp_text r"
    "row_names r0 = row_names r" by (cases "fingerprint_column s") (force simp: unfingerprinted_def row_names_def)+
  from list_all2_member [OF all r0(1)] obtain r' where r': "r' \<in> set (rows_in t)" "backfilled env rf r0 r'" by blast
  with r0 assms(4) obtain c b where c: "canonical_doc v = Inr c" "utf8_encode (json_text (float_repr env) c) = Inr b"
    "sp_fingerprint r' = Some (sha256 env b)" "row_names r' = row_names r"
    by (auto simp: backfilled_def canonical_row_def rbind_eq_Inr row_names_def)
  with assms(5) obtain doc where "c = PDict doc"
    by (auto simp: canonical_doc_def rbind_eq_Inr canon_PDict)
  with c assms(5) have "canonical_definition d = Inr doc" "definition_fingerprint env d = Inr (sha256 env b)"
    by (simp_all add: canonical_definition_def definition_fingerprint_def canonical_bytes_def)
  with r'(1) c(3,4) that show thesis by blast
qed

lemma loaded_row:
  assumes "distinct (map sp_key (rows_in t))" "r \<in> set (rows_in t)" "sp_fingerprint r = Some fp"
    and "canonical_definition d = Inr doc" "definition_fingerprint env d = Inr fp" "sp_id r = pathway_id d"
    and "file_faults t = []" "strip (sp_key r) \<noteq> []" "text_ok (sp_key r)"
  shows "create_or_replay_pathway env d st (sp_key r) (loaded rf t) = (Inr (True, sp_state r), loaded rf t)"
proof -
  have "find_key (sp_key r) (map (load_row rf) (rows_in t)) = Some (load_row rf r)"
    unfolding find_key_def by (rule find_distinct) (use assms(1,2) in \<open>simp_all add: comp_def\<close>)
  then have "create_tx d st (sp_key r) doc fp (loaded rf t) = (Inr (True, sp_state r), loaded rf t)"
    using assms(3,6,9) by (simp add: create_tx_def loaded_def bind_text_def check_def)
  then show ?thesis
    using assms(4,5,7,8) by (simp add: create_or_replay_pathway_def bnd_def store_tx_def db_step_def) (simp add: loaded_def)
qed

section \<open>An upgraded file\<close>

text \<open>A file of an earlier version with one registered pathway and no fingerprints.\<close>

definition legacy_row :: stored_pathway where
  "legacy_row = \<lparr>sp_id = str ''p'', sp_text = json_text demo_float (PDict (definition_to_dict demo_pathway)),
     sp_fingerprint = None, sp_state = APPROVED, sp_key = str ''k''\<rparr>"

definition legacy_file :: store_file where
  "legacy_file = \<lparr>meta = Some (Some (str ''0'')), file_rows = Some [legacy_row], file_faults = [],
     event_table = None, fingerprint_column = False\<rparr>"

lemma legacy_text: "json_loads Lenient rf (sp_text legacy_row) = Some (PDict (definition_to_dict demo_pathway))"
proof -
  have "readable rf demo_float (PDict (definition_to_dict demo_pathway))"
    by (simp add: definition_to_dict_def demo_pathway_def obj_simps opt_str_def)
  from loads_text [OF this] show ?thesis unfolding legacy_row_def stored_pathway.simps .
qed

lemma legacy_opens:
  obtains t where "open_store run_env rf legacy_file = (Inr (), t)" "file_faults t = []"
proof -
  obtain doc fp where "canonical_definition demo_pathway = Inr doc" "definition_fingerprint run_env demo_pathway = Inr fp"
    by (rule demo_definition [of run_env, simplified])
  then obtain c b where "canonical_doc (PDict (definition_to_dict demo_pathway)) = Inr c"
    "utf8_encode (json_text demo_float c) = Inr b"
    by (auto simp: definition_fingerprint_def canonical_bytes_def rbind_eq_Inr)
  then have row: "canonical_row run_env rf legacy_row =
      Inr (legacy_row\<lparr>sp_text := json_text demo_float c, sp_fingerprint := Some (sha256 run_env b)\<rparr>)"
    by (simp add: canonical_row_def legacy_text)
  have zero: "py_int (str ''0'') = Inr 0"
    by (simp add: py_int_def strip_def is_space_def str_def digit_def digits_value_def)
  have "store_migrate legacy_file = (Inr (), legacy_file\<lparr>meta := Some (Some (int_text 1)), event_table := Some [],
      fingerprint_column := True\<rparr>)"
    by (simp add: store_migrate_def migrate_tx_def file_step_quiet legacy_file_def check_version_def stored_version_def
        zero schema_versions store_upgrade_def create_table_def rows_in_def Let_def) (simp add: legacy_row_def)
  moreover have "unfingerprinted legacy_row" by (simp add: unfingerprinted_def legacy_row_def)
  ultimately show thesis
    using that row by (simp add: open_store_def seq_run backfill_fingerprints_def bnd_def file_step_quiet legacy_file_def rows_in_def)
qed

section \<open>Properties\<close>

text \<open>
  C18. Opening a component's part of a file either raises and leaves it as it was, or finds a version
  that is not newer than the supported one, records the supported one and keeps every row.
\<close>

theorem migrations_contract:
  "opened id 1 a (attempts_migrate a) \<and> opened id 1 b (tenant_migrate b) \<and> opened id 1 c (outbox_migrate c)
     \<and> opened (sp_fingerprint_update (\<lambda>_. None)) 1 d (store_migrate d)"
  using attempt_file.migrate_opened tenant_file.migrate_opened outbox_file.migrate_opened store_file.migrate_opened
  by (simp_all add: attempts_migrate_def tenant_migrate_def outbox_migrate_def store_migrate_def schema_versions)

text \<open>
  C17. An opened store file is of the current form: its version is the supported one, both tables
  and the fingerprint column exist and every row has a fingerprint. It holds the same pathways,
  states and keys as before, and opening it again changes nothing.
\<close>

theorem opened_store_typed:
  assumes "\<And>b. sha256 env b \<noteq> []" "open_store env rf s = (Inr u, t)"
  shows "store_file_ok t \<and> map row_names (rows_in t) = map row_names (rows_in s)
    \<and> (file_faults t = [] \<longrightarrow> open_store env rf t = (Inr (), t))"
  using open_store_ok [OF assms] open_store_names [OF assms(2)] open_ok_again by blast

theorem opened_store_typed_witness:
  "\<exists>t. open_store run_env (\<lambda>_. FFin 0) legacy_file = (Inr (), t) \<and> store_file_ok t
     \<and> map row_names (rows_in t) = [(str ''p'', APPROVED, str ''k'')]"
proof -
  obtain t where t: "open_store run_env (\<lambda>_. FFin 0) legacy_file = (Inr (), t)" by (rule legacy_opens)
  have "map row_names (rows_in legacy_file) = [(str ''p'', APPROVED, str ''k'')]"
    by (simp add: legacy_file_def rows_in_def row_names_def legacy_row_def)
  with opened_store_typed [OF _ t] t show ?thesis by simp
qed

text \<open>
  C16. A pathway that an earlier version stored without a fingerprint is recognised after the
  upgrade: registering the same definition with the same key replays it.
\<close>

theorem upgraded_row_replays:
  assumes "open_store env rf s = (Inr u, t)" "file_faults t = []" "distinct (map sp_key (rows_in s))"
    and "r \<in> set (rows_in s)" "\<not> fingerprint_column s \<or> unfingerprinted r"
    and "json_loads Lenient rf (sp_text r) = Some v" "canonical_doc v = canonical_doc (PDict (definition_to_dict d))"
    and "sp_id r = pathway_id d" "\<not> blank (sp_key r)" "text_ok (sp_key r)"
  shows "create_or_replay_pathway env d st (sp_key r) (loaded rf t) = (Inr (True, sp_state r), loaded rf t)"
proof -
  obtain r' fp doc where r': "r' \<in> set (rows_in t)" "sp_fingerprint r' = Some fp" "row_names r' = row_names r"
    "canonical_definition d = Inr doc" "definition_fingerprint env d = Inr fp"
    by (rule upgraded_row [OF assms(1,4-7)])
  have "map sp_key rs = map (snd \<circ> snd) (map row_names rs)" for rs
    by (simp add: row_names_def)
  with open_store_names [OF assms(1)] assms(3) have "distinct (map sp_key (rows_in t))" by metis
  from loaded_row [OF this r'(1,2,4,5)] r'(3) assms show ?thesis by (simp add: row_names_def blank_def)
qed

theorem upgraded_row_replays_witness:
  "\<exists>t. open_store run_env (\<lambda>_. FFin 0) legacy_file = (Inr (), t)
     \<and> create_or_replay_pathway run_env demo_pathway PROPOSED (str ''k'') (loaded (\<lambda>_. FFin 0) t)
       = (Inr (True, APPROVED), loaded (\<lambda>_. FFin 0) t)"
proof -
  obtain t where t: "open_store run_env (\<lambda>_. FFin 0) legacy_file = (Inr (), t)" "file_faults t = []"
    by (rule legacy_opens)
  have "create_or_replay_pathway run_env demo_pathway PROPOSED (sp_key legacy_row) (loaded (\<lambda>_. FFin 0) t)
      = (Inr (True, sp_state legacy_row), loaded (\<lambda>_. FFin 0) t)"
    by (rule upgraded_row_replays [OF t _ _ _ legacy_text])
      (simp_all add: legacy_file_def rows_in_def legacy_row_def demo_pathway_def blank_iff is_space_def surrogate_def str_def [of "''k''"])
  with t(1) show ?thesis by (auto simp: legacy_row_def)
qed

end
