(* ===== verification/Rpr_Progress.thy ===== *)
theory Rpr_Progress
  imports Rpr_Demo
begin

text \<open>
  Liveness: without storage faults the runtime's steps succeed, an event that is built on the last
  hash of its pathway never repeats a stored hash unless its bytes collide with those of a stored
  event, and an approved attempt whose executor reports a verified success is completed.
\<close>

section \<open>A new event has a new hash\<close>

definition sane_env :: "pyenv \<Rightarrow> bool" where
  "sane_env env \<longleftrightarrow> float_repr_ok (float_repr env) \<and> (\<forall>n. text_ok (iso_time env n)) \<and> (\<forall>b. text_ok (sha256 env b))"

lemma log_ok_parts: "log_ok cfg w \<Longrightarrow> store_ok (wstore w) \<and> chained (cenv cfg) None (events_of (wstore w) p)"
  by (simp add: log_ok_def chains_ok_def)

lemma log_ok_appends:
  assumes "log_ok cfg w" "appends e w w'" "event_ok (cenv cfg) e"
    "map row_id (pathways (wstore w')) = map row_id (pathways (wstore w))"
    "map row_key (pathways (wstore w')) = map row_key (pathways (wstore w))"
  shows "log_ok cfg w'"
  using log_ok_chains [OF assms(1-3)] log_ok_rows [OF assms(1,2,4,5)] by (simp add: log_ok_def)

lemma chained_splits: "chained env None (xs @ e # ys) \<Longrightarrow>
    dget_none e (str ''previous_hash'') = opt_str (last_hash env xs) \<and> verify_event env e = Inr True"
  using chained_prefix [of env None "xs @ [e]" ys] by (auto simp: chained_append last_hash_def)

lemma latest_hash:
  assumes "log_ok cfg w" "latest_of (wstore w) p = Some h"
  shows "h \<in> range (sha256 (cenv cfg))"
proof -
  let ?es = "events_of (wstore w) p"
  have "last_hash (cenv cfg) ?es = Some h"
    using latest_is_last_hash [of "wstore w" p "cenv cfg"] log_ok_parts [OF assms(1)] assms(2) by simp
  then obtain xs e where es: "?es = xs @ [e]" "last_hash (cenv cfg) [e] = Some h"
    by (cases ?es rule: rev_cases) (auto simp: last_hash_def)
  with chained_splits [of "cenv cfg" xs e "[]"] log_ok_parts [OF assms(1)] have "verify_event (cenv cfg) e = Inr True"
    by metis
  from verified_bytes [OF this] es(2) show ?thesis by auto
qed

lemma distinct_last:
  assumes "distinct (map f (xs @ x # ys))" "xs \<noteq> []"
  shows "f (last xs) \<noteq> f (last (x # ys))"
proof -
  have "f (last xs) \<in> set (map f xs)" "f (last (x # ys)) \<in> set (map f (x # ys))"
    using assms(2) by (auto intro!: imageI)
  with assms(1) show ?thesis by (metis disjoint_iff distinct_append map_append)
qed

lemma str_item_text: "dget_none d (str k) = PStr x \<Longrightarrow> str_item env d k = Inr x"
  by (auto simp: str_item_def ditem_def dget_none_def split: option.splits)

lemma fresh_hash:
  assumes log: "log_ok cfg w" and env: "float_repr_ok (float_repr (cenv cfg))"
      "inj_on (sha256 (cenv cfg)) (hashed_bytes (cenv cfg) (map er_doc (event_rows (wstore w)) @ [stored_event e]))"
    and e: "built cfg p ty actor xs e" "ev_previous_hash e = latest_of (wstore w) p"
  shows "ev_hash e \<notin> er_hash ` set (event_rows (wstore w))"
proof
  let ?env = "cenv cfg" and ?s = "wstore w"
  assume "ev_hash e \<in> er_hash ` set (event_rows ?s)"
  then obtain r where r: "r \<in> set (event_rows ?s)" "er_hash r = ev_hash e" by auto
  let ?q = "er_pathway r"
  have ok: "store_ok ?s" and ch: "chained ?env None (events_of ?s ?q)" using log_ok_parts [OF log] by blast+
  from r(1) have "r \<in> set (rows_of ?q ?s)" by (simp add: rows_of_def)
  then obtain as bs where rows: "rows_of ?q ?s = as @ r # bs" by (metis split_list)
  then have evs: "events_of ?s ?q = map er_doc as @ er_doc r # map er_doc bs" by (simp add: events_of_def)
  from chained_splits [OF ch [unfolded evs]] have
    prev: "dget_none (er_doc r) (str ''previous_hash'') = opt_str (last_hash ?env (map er_doc as))"
    and v: "verify_event ?env (er_doc r) = Inr True" by blast+
  have hash: "dget_none (er_doc x) (str ''event_hash'') = PStr (er_hash x)" if "x \<in> set (rows_of ?q ?s)" for x
    using ok that by (auto simp: store_ok_def rows_of_def)
  obtain b where b: "stored_bytes ?env (er_doc r) = Inr b" "sha256 ?env b = ev_hash e"
    using v hash [of r] r by (auto simp: verify_event_def rbind_eq_Inr rows_of_def)
  from e(1) have "event_ok ?env e" by (simp add: built_def)
  then obtain c where c: "stored_bytes ?env (stored_event e) = Inr c" "sha256 ?env c = ev_hash e"
    by (auto simp: event_ok_def verify_event_def rbind_eq_Inr)
  have "b \<in> hashed_bytes ?env (map er_doc (event_rows ?s) @ [stored_event e])"
    "c \<in> hashed_bytes ?env (map er_doc (event_rows ?s) @ [stored_event e])"
    using b(1) c(1) r(1) by (auto simp: hashed_bytes_def)
  with env(2) b(2) c(2) have bc: "b = c" by (metis inj_onD)
  note same = stored_bytes_same [OF env(1) b(1) prev c(1) [folded bc] stored_event_fields(1)]
  have "str_item ?env (er_doc r) ''pathway_id'' = Inr ?q" "str_item ?env (stored_event e) ''pathway_id'' = Inr p"
    using ok r(1) e(1) by (auto simp: store_ok_def str_item_text built_def)
  with same(2) [of "''pathway_id''"] have q: "?q = p" by (simp add: content_keys_def)
  from same(1) e(2) q have prev': "last_hash ?env (map er_doc as) = latest_of ?s ?q" by simp
  show False
  proof (cases "as = []")
    case True
    with prev' rows show False by (simp add: latest_of_def last_hash_def)
  next
    case False
    then have "last as \<in> set (rows_of ?q ?s)" using rows by simp
    from hash [OF this] False have "last_hash ?env (map er_doc as) = Some (er_hash (last as))"
      by (simp add: last_hash_def last_map)
    moreover have "latest_of ?s ?q = Some (er_hash (last (r # bs)))" using rows by (simp add: latest_of_def)
    moreover have "distinct (map er_hash (as @ r # bs))"
      unfolding rows [symmetric] using ok by (simp add: store_ok_def rows_of_def distinct_map_filter)
    ultimately show False using distinct_last [of er_hash as r bs] prev' False by simp
  qed
qed

section \<open>Steps without storage faults\<close>

definition quiet :: "world \<Rightarrow> bool" where
  "quiet w \<longleftrightarrow> store_faults (wstore w) = [] \<and> ledger_faults (wledger w) = []"

lemma quiet_store: "quiet w \<Longrightarrow> in_store (store_tx m) w = in_store m w"
  by (simp add: quiet_def in_store_def zoom_def store_tx_def db_step_def)

lemma in_store_query: "in_store (query f) w = (f (wstore w), w)"
  by (simp add: in_store_def zoom_def)

lemma quiet_state:
  "quiet w \<Longrightarrow> text_ok p \<Longrightarrow> find_row p (pathways (wstore w)) = Some r \<Longrightarrow>
     in_store (get_state p) w = (Inr (row_state r), w)"
  by (simp add: get_state_def quiet_store in_store_query lookup_row_def bind_text_def check_def)

lemma quiet_definition:
  "quiet w \<Longrightarrow> text_ok p \<Longrightarrow> find_row p (pathways (wstore w)) = Some r \<Longrightarrow> definition_of cfg r = Some d \<Longrightarrow>
     in_store (get_definition (cenv cfg) p) w = (Inr d, w)"
  by (simp add: get_definition_def quiet_store in_store_query lookup_row_def bind_text_def check_def definition_of_def
      split: sum.splits)

text \<open>A payload that redaction accepts and whose copy is plain JSON.\<close>

definition recordable :: "config \<Rightarrow> (string \<times> pv) list \<Rightarrow> bool" where
  "recordable cfg xs \<longleftrightarrow> (\<exists>pl. redact (cenv cfg) (cpolicy cfg) (PDict (obj xs)) = Inr (PDict pl) \<and> plain (PDict pl))"

text \<open>
  The event rows that a store holds once further events with these types and fields have been
  recorded for a pathway, each built on the last hash and at the next tick of the clock.
\<close>

fun new_events :: "config \<Rightarrow> pystr \<Rightarrow> pystr \<Rightarrow> (string \<times> (string \<times> pv) list) list \<Rightarrow> pystr option \<Rightarrow> nat
    \<Rightarrow> evidence_event list" where
  "new_events cfg p actor [] prev n = []"
| "new_events cfg p actor ((ty, xs) # ps) prev n =
     (case build_event (cenv cfg) (cpolicy cfg) (iso_time (cenv cfg) n) p (str ty) actor (obj xs) prev of
        Inl _ \<Rightarrow> []
      | Inr e \<Rightarrow> e # new_events cfg p actor ps (Some (ev_hash e)) (Suc n))"

definition log_after :: "config \<Rightarrow> pystr \<Rightarrow> pystr \<Rightarrow> (string \<times> (string \<times> pv) list) list \<Rightarrow> world \<Rightarrow> event_row list" where
  "log_after cfg p actor ps w =
     event_rows (wstore w) @ map new_event_row (new_events cfg p actor ps (latest_of (wstore w) p) (wtick w))"

text \<open>No two different byte strings that are hashed for these rows have the same hash.\<close>

definition no_clash :: "config \<Rightarrow> event_row list \<Rightarrow> bool" where
  "no_clash cfg rows \<longleftrightarrow> inj_on (sha256 (cenv cfg)) (hashed_bytes (cenv cfg) (map er_doc rows))"

lemma er_doc_new [simp]: "er_doc (new_event_row e) = stored_event e"
  by (simp add: new_event_row_def stored_event_def)

lemma log_after_same:
  "wstore w' = wstore w \<Longrightarrow> wtick w' = wtick w \<Longrightarrow> log_after cfg p actor ps w' = log_after cfg p actor ps w"
  by (simp add: log_after_def)

lemma log_after_step:
  assumes "build_event (cenv cfg) (cpolicy cfg) (iso_time (cenv cfg) (wtick w)) p (str ty) actor (obj xs)
      (latest_of (wstore w) p) = Inr e" "ev_pathway_id e = p"
    and "event_rows (wstore w') = event_rows (wstore w) @ [new_event_row e]" "wtick w' = Suc (wtick w)"
  shows "log_after cfg p actor ps w' = log_after cfg p actor ((ty, xs) # ps) w"
proof -
  have "latest_of (wstore w') p = Some (ev_hash e)"
    using assms(2,3) by (simp add: latest_of_def rows_of_def new_event_row_def)
  with assms show ?thesis by (simp add: log_after_def)
qed

lemma no_clash_next:
  assumes "no_clash cfg (log_after cfg p actor ((ty, xs) # ps) w)"
    and "build_event (cenv cfg) (cpolicy cfg) (iso_time (cenv cfg) (wtick w)) p (str ty) actor (obj xs)
      (latest_of (wstore w) p) = Inr e"
  shows "inj_on (sha256 (cenv cfg)) (hashed_bytes (cenv cfg) (map er_doc (event_rows (wstore w)) @ [stored_event e]))"
  using assms by (auto simp: no_clash_def log_after_def hashed_bytes_def elim!: inj_on_subset)

lemma quiet_make_event:
  assumes env: "sane_env (cenv cfg)" and w: "log_ok cfg w" "quiet w" and xs: "recordable cfg xs"
    and t: "text_ok p" "text_ok actor"
  obtains e where "make_event cfg p ty actor xs w = (Inr e, w\<lparr>wtick := Suc (wtick w)\<rparr>)"
    "built cfg p ty actor xs e" "ev_previous_hash e = latest_of (wstore w) p" "plain (PDict (event_to_dict e))"
    "build_event (cenv cfg) (cpolicy cfg) (iso_time (cenv cfg) (wtick w)) p (str ty) actor (obj xs) (latest_of (wstore w) p) = Inr e"
proof -
  let ?ts = "iso_time (cenv cfg) (wtick w)" and ?prev = "latest_of (wstore w) p"
  from xs obtain pl where pl: "redact (cenv cfg) (cpolicy cfg) (PDict (obj xs)) = Inr (PDict pl)" "plain (PDict pl)"
    unfolding recordable_def by blast
  have prev: "plain (opt_str ?prev)"
    using latest_hash [OF w(1), of p] env by (auto simp: opt_str_def sane_env_def split: option.splits)
  with pl(2) t env have "plain (event_content p (str ty) actor pl ?ts (opt_str ?prev))"
    by (simp add: event_content_def obj_simps sane_env_def)
  with env obtain b where "canonical_payload (cenv cfg) p (str ty) actor pl ?ts (opt_str ?prev) = Inr b"
    using plain_canonical_bytes unfolding sane_env_def canonical_payload_def by blast
  with pl(1) have e: "build_event (cenv cfg) (cpolicy cfg) ?ts p (str ty) actor (obj xs) ?prev =
      Inr \<lparr>ev_pathway_id = p, ev_type = str ty, ev_actor = actor, ev_payload = pl, ev_occurred_at = ?ts,
        ev_previous_hash = ?prev, ev_hash = sha256 (cenv cfg) b\<rparr>" (is "_ = Inr ?e")
    by (simp add: build_event_def)
  show thesis
  proof (rule that [of ?e])
    show "make_event cfg p ty actor xs w = (Inr ?e, w\<lparr>wtick := Suc (wtick w)\<rparr>)"
      using e w(2) t(1) by (simp add: make_event_def bnd_def latest_event_hash_def quiet_store in_store_query
          bind_text_def check_def now_def)
    show "built cfg p ty actor xs ?e" using build_event_fields [OF e] build_event_ok [OF e] by (simp add: built_def)
    show "plain (PDict (event_to_dict ?e))"
      using pl(2) t prev env by (simp add: event_to_dict_def obj_simps sane_env_def)
  qed (simp_all add: e)
qed

lemma quiet_insert:
  assumes env: "sane_env (cenv cfg)" and e: "plain (PDict (event_to_dict e))" "items_doc (ev_payload e)"
    and new: "ev_hash e \<notin> er_hash ` set (event_rows s)" "find_row (ev_pathway_id e) (pathways s) \<noteq> None"
  shows "insert_event (cenv cfg) e s = Inr (s\<lparr>event_rows := event_rows s @ [new_event_row e]\<rparr>)"
proof -
  from env e(1) obtain b where "canonical_bytes (float_repr (cenv cfg)) (PDict (event_to_dict e)) = Inr b"
    using plain_canonical_bytes unfolding sane_env_def by blast
  then show ?thesis
    using canonical_event_doc [OF e(2)] new by (auto simp: insert_event_def new_event_row_def)
qed

text \<open>An event is recorded, and a pathway moved with its event.\<close>

lemma quiet_record:
  assumes env: "sane_env (cenv cfg)" "no_clash cfg (log_after cfg p actor ((ty, xs) # ps) w)"
    and w: "log_ok cfg w" "quiet w" and xs: "recordable cfg xs"
    and t: "text_ok p" "text_ok actor" and row: "find_row p (pathways (wstore w)) = Some r"
  obtains w' e where "record_event cfg p ty actor xs w = (Inr (), w')" "built cfg p ty actor xs e"
    "appends e w w'" "same_paths w w'" "same_log w w'" "quiet w'" "log_ok cfg w'"
    "log_after cfg p actor ps w' = log_after cfg p actor ((ty, xs) # ps) w"
proof -
  obtain e where e: "make_event cfg p ty actor xs w = (Inr e, w\<lparr>wtick := Suc (wtick w)\<rparr>)"
    "built cfg p ty actor xs e" "ev_previous_hash e = latest_of (wstore w) p" "plain (PDict (event_to_dict e))"
    "build_event (cenv cfg) (cpolicy cfg) (iso_time (cenv cfg) (wtick w)) p (str ty) actor (obj xs) (latest_of (wstore w) p) = Inr e"
    by (rule quiet_make_event [OF env(1) w xs t])
  have new: "ev_hash e \<notin> er_hash ` set (event_rows (wstore w))"
    using fresh_hash [OF w(1) _ no_clash_next [OF env(2) e(5)] e(2,3)] env(1) by (simp add: sane_env_def)
  have b: "ev_pathway_id e = p" "items_doc (ev_payload e)" using e(2) by (simp_all add: built_def)
  let ?w = "w\<lparr>wstore := (wstore w)\<lparr>event_rows := event_rows (wstore w) @ [new_event_row e]\<rparr>, wtick := Suc (wtick w)\<rparr>"
  have "insert_event (cenv cfg) e (wstore w) = Inr ((wstore w)\<lparr>event_rows := event_rows (wstore w) @ [new_event_row e]\<rparr>)"
    by (rule quiet_insert [OF env(1) e(4) b(2) new]) (simp add: b row)
  with e(1) w(2) have "record_event cfg p ty actor xs w = (Inr (), ?w)"
    by (simp add: record_event_def bnd_def append_event_def in_store_def zoom_def store_tx_def db_step_def quiet_def)
  moreover have a: "appends e w ?w" using e(3) new b row by (simp add: appends_def)
  moreover have "log_ok cfg ?w" by (rule log_ok_appends [OF w(1) a]) (use e(2) in \<open>simp_all add: built_def\<close>)
  moreover have "log_after cfg p actor ps ?w = log_after cfg p actor ((ty, xs) # ps) w"
    by (rule log_after_step [OF e(5) b(1)]) simp_all
  moreover have "same_paths w ?w" "same_log w ?w" "quiet ?w"
    using w(2) by (simp_all add: same_paths_def same_log_def quiet_def)
  ultimately show thesis using that e(2) by blast
qed

lemma quiet_move:
  assumes env: "sane_env (cenv cfg)" "no_clash cfg (log_after cfg p actor ((ty,
      [(''from'', PStr (state_value (row_state r))), (''to'', PStr (state_value target))] @ xs) # ps) w)"
    and w: "log_ok cfg w" "quiet w"
    and xs: "recordable cfg ([(''from'', PStr (state_value (row_state r))), (''to'', PStr (state_value target))] @ xs)"
    and t: "text_ok p" "text_ok actor" and row: "find_row p (pathways (wstore w)) = Some r"
  obtains w' e where "move cfg p (row_state r) target ty actor xs w = (Inr (), w')"
    "built cfg p ty actor ([(''from'', PStr (state_value (row_state r))), (''to'', PStr (state_value target))] @ xs) e"
    "appends e w w'" "pathways (wstore w') = pathways (set_state p target (wstore w))" "same_log w w'" "quiet w'" "log_ok cfg w'"
    "log_after cfg p actor ps w' = log_after cfg p actor ((ty,
      [(''from'', PStr (state_value (row_state r))), (''to'', PStr (state_value target))] @ xs) # ps) w"
proof -
  let ?xs = "[(''from'', PStr (state_value (row_state r))), (''to'', PStr (state_value target))] @ xs"
  obtain e where e: "make_event cfg p ty actor ?xs w = (Inr e, w\<lparr>wtick := Suc (wtick w)\<rparr>)"
    "built cfg p ty actor ?xs e" "ev_previous_hash e = latest_of (wstore w) p" "plain (PDict (event_to_dict e))"
    "build_event (cenv cfg) (cpolicy cfg) (iso_time (cenv cfg) (wtick w)) p (str ty) actor (obj ?xs) (latest_of (wstore w) p) = Inr e"
    by (rule quiet_make_event [OF env(1) w xs t])
  have new: "ev_hash e \<notin> er_hash ` set (event_rows (wstore w))"
    using fresh_hash [OF w(1) _ no_clash_next [OF env(2) e(5)] e(2,3)] env(1) by (simp add: sane_env_def)
  have b: "ev_pathway_id e = p" "items_doc (ev_payload e)" using e(2) by (simp_all add: built_def)
  let ?s = "set_state p target (wstore w)"
  let ?w = "w\<lparr>wstore := ?s\<lparr>event_rows := event_rows (wstore w) @ [new_event_row e]\<rparr>, wtick := Suc (wtick w)\<rparr>"
  have "insert_event (cenv cfg) e ?s = Inr (?s\<lparr>event_rows := event_rows ?s @ [new_event_row e]\<rparr>)"
    by (rule quiet_insert [OF env(1) e(4) b(2)]) (use new b row in \<open>simp_all add: find_row_set_state\<close>)
  with e(1) w(2) row t(1) have "move cfg p (row_state r) target ty actor xs w = (Inr (), ?w)"
    by (simp add: move_def bnd_def transition_with_event_def in_store_def zoom_def store_tx_def db_step_def quiet_def
        lookup_row_def bind_text_def check_def)
  moreover have a: "appends e w ?w" using e(3) new b row by (simp add: appends_def)
  moreover have "log_ok cfg ?w" by (rule log_ok_appends [OF w(1) a]) (use e(2) in \<open>simp_all add: built_def set_state_simps\<close>)
  moreover have "pathways (wstore ?w) = pathways ?s" "same_log w ?w" "quiet ?w"
    using w(2) by (simp_all add: same_log_def quiet_def set_state_def)
  moreover have "log_after cfg p actor ps ?w = log_after cfg p actor ((ty, ?xs) # ps) w"
    by (rule log_after_step [OF e(5) b(1)]) (simp_all add: set_state_simps)
  ultimately show thesis using that e(2) by blast
qed

section \<open>An attempt that succeeds\<close>

text \<open>The events of the run carry short texts under the keys of the runtime.\<close>

definition event_keys :: "string list" where
  "event_keys = [''from'', ''to'', ''operation_id'', ''attempt_id'', ''idempotency_key'', ''reason'']"

definition short_text :: "pystr \<Rightarrow> bool" where
  "short_text s \<longleftrightarrow> text_ok s \<and> length s \<le> 16384"

lemma short_texts [simp]: "length s \<le> 16384 \<Longrightarrow> short_text (str s)" "short_text (state_value st)"
  by (simp add: short_text_def) (cases st; simp add: short_text_def)

lemma recordable_texts:
  assumes "cpolicy cfg = default_policy" "distinct (map fst xs)" "length xs \<le> 6"
    "\<forall>(k, v) \<in> set xs. k \<in> set event_keys \<and> (\<exists>s. v = PStr s \<and> short_text s)"
  shows "recordable cfg xs"
proof -
  have "\<not> sensitive default_policy (str k)" if "k \<in> set event_keys" for k
    using that by (auto simp: event_keys_def sensitive_def default_policy_def default_sensitive_keys_def str_def
        casefold_def casefold_char_def)
  then have "redact (cenv cfg) (cpolicy cfg) (PDict (obj xs)) = Inr (PDict (obj xs))"
    using assms by (intro redact_texts) (force simp: short_text_def default_policy_def)+
  moreover have "plain (PDict (obj xs))"
    using assms(4) by (induction xs) (auto simp: obj_simps short_text_def)
  ultimately show ?thesis by (auto simp: recordable_def)
qed

text \<open>The ledger steps.\<close>

lemma quiet_begin:
  assumes "quiet w" "fingerprint (cenv cfg) q = Inr f" "text_ok p" "text_ok (attempt_id q)" "text_ok (idempotency_key q)"
    and "select_attempt (attempt_id q) p (idempotency_key q) (attempts (wledger w)) = None"
  shows "in_ledger (begin_attempt (cenv cfg) p q) w = (Inr (False, started_record p q f),
    w\<lparr>wledger := (wledger w)\<lparr>attempts := attempts (wledger w) @ [started_record p q f]\<rparr>\<rparr>)"
  using assms by (simp add: in_ledger_def zoom_def begin_attempt_def lift_value ledger_tx_def db_step_def quiet_def
      begin_tx_def bind_text_def check_def)

lemma quiet_finish:
  assumes "quiet w" "strict_result_json (cenv cfg) r = Inr doc" "text_ok a" "find_attempt a (attempts (wledger w)) = Some x"
  shows "in_ledger (finish (cenv cfg) a r) w = (Inr (set_result a (status_value (status r)) doc x),
    w\<lparr>wledger := (wledger w)\<lparr>attempts := map (set_result a (status_value (status r)) doc) (attempts (wledger w))\<rparr>\<rparr>)"
  using assms by (simp add: in_ledger_def zoom_def finish_def lift_value ledger_tx_def db_step_def quiet_def
      update_tx_def bind_text_def check_def)

text \<open>The three events of a run that succeeds.\<close>

definition started_entry :: "execution_request \<Rightarrow> string \<times> (string \<times> pv) list" where
  "started_entry q = (''execution_started'',
     [(''from'', PStr (state_value APPROVED)), (''to'', PStr (state_value RUNNING))]
     @ request_fields q @ [(''reason'', PStr (str ''execution_started''))])"

definition result_entry :: "execution_request \<Rightarrow> execution_result \<Rightarrow> string \<times> (string \<times> pv) list" where
  "result_entry q r = (''execution_result'', request_fields q @ result_fields r)"

definition completed_entry :: "string \<times> (string \<times> pv) list" where
  "completed_entry = (''state_transition'',
     [(''from'', PStr (state_value RUNNING)), (''to'', PStr (state_value COMPLETED))]
     @ [(''reason'', PStr (str ''executor_readback_verified''))])"

text \<open>The start of an approved pathway.\<close>

lemma find_row_moved:
  assumes "pathways s' = pathways (set_state p t s)" "find_row p (pathways s) = Some r"
  shows "find_row p (pathways s') = Some (r\<lparr>row_state := t\<rparr>)"
  using assms find_row_Some [of p "pathways s" r] by (simp add: find_row_set_state)

lemma quiet_start:
  assumes env: "sane_env (cenv cfg)" "no_clash cfg (log_after cfg p actor (started_entry q # ps) w)" "cpolicy cfg = default_policy"
    and w: "log_ok cfg w" "quiet w"
    and row: "find_row p (pathways (wstore w)) = Some r" "row_state r = APPROVED" "definition_of cfg r = Some d"
    and actor: "strip actor = execution_actor d" "\<not> blank actor"
    and t: "text_ok p" "text_ok actor"
      "short_text (operation_id q)" "short_text (attempt_id q)" "short_text (idempotency_key q)"
  obtains w' where "start_or_discard cfg p q actor w = (Inr (), w')"
    "find_row p (pathways (wstore w')) = Some (r\<lparr>row_state := RUNNING\<rparr>)" "same_log w w'" "quiet w'" "log_ok cfg w'"
    "log_after cfg p actor ps w' = log_after cfg p actor (started_entry q # ps) w"
proof -
  let ?xs = "request_fields q @ [(''reason'', PStr (str ''execution_started''))]"
  have rec: "recordable cfg ([(''from'', PStr (state_value (row_state r))), (''to'', PStr (state_value RUNNING))] @ ?xs)"
    by (rule recordable_texts [OF env(3)]) (use t(3-5) in \<open>auto simp: request_fields_def event_keys_def\<close>)
  obtain w' e where m: "move cfg p (row_state r) RUNNING ''execution_started'' actor ?xs w = (Inr (), w')"
    and p: "pathways (wstore w') = pathways (set_state p RUNNING (wstore w))" and l: "same_log w w'" "quiet w'" "log_ok cfg w'"
    and la: "log_after cfg p actor ps w' = log_after cfg p actor (started_entry q # ps) w"
    by (rule quiet_move [where ps = ps, OF env(1) _ w rec t(1,2) row(1)])
      (use env(2) row(2) in \<open>simp_all add: started_entry_def\<close>)
  have "authorize_transition d APPROVED RUNNING actor = Inr ()"
    using actor by (simp add: authorize_transition_ok blank_def)
  with m row have "start_or_discard cfg p q actor w = (Inr (), w')"
    by (simp add: start_or_discard_def handle_def bnd_def seq_def quiet_state [OF w(2) t(1) row(1)]
        quiet_definition [OF w(2) t(1) row(1,3)] start_execution_pathway_def ensure_transition_def)
  with find_row_moved [OF p row(1)] l la that show thesis by blast
qed

text \<open>The end of a verified success.\<close>

lemma quiet_complete:
  assumes env: "sane_env (cenv cfg)" "no_clash cfg (log_after cfg p actor (completed_entry # ps) w)" "cpolicy cfg = default_policy"
    and w: "log_ok cfg w" "quiet w"
    and row: "find_row p (pathways (wstore w)) = Some r" "row_state r = RUNNING" "definition_of cfg r = Some d"
    and actor: "strip actor = execution_actor d" "\<not> blank actor" and t: "text_ok p" "text_ok actor"
    and res: "verified_success res"
  obtains w' where "finish_execution_pathway cfg p q actor res w = (Inr (), w')"
    "find_row p (pathways (wstore w')) = Some (r\<lparr>row_state := COMPLETED\<rparr>)" "same_log w w'"
    "log_after cfg p actor ps w' = log_after cfg p actor (completed_entry # ps) w"
proof -
  let ?xs = "[(''reason'', PStr (str ''executor_readback_verified''))]"
  have rec: "recordable cfg ([(''from'', PStr (state_value (row_state r))), (''to'', PStr (state_value COMPLETED))] @ ?xs)"
    by (rule recordable_texts [OF env(3)]) (auto simp: event_keys_def)
  obtain w' e where m: "move cfg p (row_state r) COMPLETED ''state_transition'' actor ?xs w = (Inr (), w')"
    and p: "pathways (wstore w') = pathways (set_state p COMPLETED (wstore w))" and l: "same_log w w'"
    and la: "log_after cfg p actor ps w' = log_after cfg p actor (completed_entry # ps) w"
    by (rule quiet_move [where ps = ps, OF env(1) _ w rec t row(1)])
      (use env(2) row(2) in \<open>simp_all add: completed_entry_def\<close>)
  have "authorize_transition d RUNNING COMPLETED actor = Inr ()"
    using actor by (simp add: authorize_transition_ok blank_def)
  with m row have "transition cfg p COMPLETED actor (str ''executor_readback_verified'') w = (Inr COMPLETED, w')"
    by (simp add: transition_def bnd_def seq_def quiet_state [OF w(2) t(1) row(1)]
        quiet_definition [OF w(2) t(1) row(1,3)] ensure_transition_def)
  with res row(2) have "finish_execution_pathway cfg p q actor res w = (Inr (), w')"
    by (simp add: finish_execution_pathway_def bnd_def seq_def quiet_state [OF w(2) t(1) row(1)] verified_success_def Let_def)
  with find_row_moved [OF p row(1)] l la that show thesis by blast
qed

text \<open>The dispatch of a running attempt that is recorded in the ledger.\<close>

lemma quiet_dispatch:
  assumes env: "sane_env (cenv cfg)" "no_clash cfg (log_after cfg p actor [result_entry q r, completed_entry] w)" "cpolicy cfg = default_policy"
    and w: "log_ok cfg w" "quiet w"
    and row: "find_row p (pathways (wstore w)) = Some row" "row_state row = RUNNING" "definition_of cfg row = Some d"
    and actor: "strip actor = execution_actor d" "\<not> blank actor" and t: "text_ok p" "text_ok actor" "text_ok (attempt_id q)"
    and res: "verified_success r" "strict_result_json (cenv cfg) r = Inr doc" "recordable cfg (request_fields q @ result_fields r)"
    and ex: "\<And>v. ex q v = (Inr r, v)"
    and att: "find_attempt (attempt_id q) (attempts (wledger w)) = Some x"
  obtains w' where "dispatch_attempt cfg p q actor ex w = (Inr r, w')"
    "find_row p (pathways (wstore w')) = Some (row\<lparr>row_state := COMPLETED\<rparr>)"
    "attempts (wledger w') = map (set_result (attempt_id q) (str ''succeeded'') doc) (attempts (wledger w))"
    "wdispatched w' = \<lparr>dp_pathway = p, dp_attempt = attempt_id q, dp_actor = strip actor\<rparr> # wdispatched w"
    "event_rows (wstore w') = log_after cfg p actor [result_entry q r, completed_entry] w"
proof -
  let ?u = "w\<lparr>wdispatched := \<lparr>dp_pathway = p, dp_attempt = attempt_id q, dp_actor = strip actor\<rparr> # wdispatched w\<rparr>"
  let ?v = "?u\<lparr>wledger := (wledger w)\<lparr>attempts := map (set_result (attempt_id q) (str ''succeeded'') doc) (attempts (wledger w))\<rparr>\<rparr>"
  have "quiet ?u" using w(2) by (simp add: quiet_def)
  then have fin: "in_ledger (finish (cenv cfg) (attempt_id q) r) ?u =
      (Inr (set_result (attempt_id q) (str ''succeeded'') doc x), ?v)"
    using quiet_finish [of ?u cfg r doc "attempt_id q" x] res(1,2) t(3) att by (simp add: verified_success_def)
  have v: "log_ok cfg ?v" "quiet ?v" "find_row p (pathways (wstore ?v)) = Some row"
    using w row(1) by (simp_all add: log_ok_store [of ?v w] quiet_def)
  obtain v' e where rec: "record_event cfg p ''execution_result'' actor (request_fields q @ result_fields r) ?v = (Inr (), v')"
    and v': "same_paths ?v v'" "same_log ?v v'" "quiet v'" "log_ok cfg v'"
    and la: "log_after cfg p actor [completed_entry] v' = log_after cfg p actor [result_entry q r, completed_entry] w"
    by (rule quiet_record [where ps = "[completed_entry]", OF env(1) _ v(1,2) res(3) t(1,2) v(3)])
      (use env(2) in \<open>simp_all add: result_entry_def log_after_same [of ?v w]\<close>)
  have row': "find_row p (pathways (wstore v')) = Some row" using v'(1) row(1) by (simp add: same_paths_def)
  obtain w' where c: "finish_execution_pathway cfg p q actor r v' = (Inr (), w')"
    and w': "find_row p (pathways (wstore w')) = Some (row\<lparr>row_state := COMPLETED\<rparr>)" "same_log v' w'"
    and la': "log_after cfg p actor [] w' = log_after cfg p actor [completed_entry] v'"
    by (rule quiet_complete [where ps = "[]", OF env(1) env(2) [folded la] env(3) v'(4,3) row' row(2,3) actor t(1,2) res(1)])
  have "dispatch_attempt cfg p q actor ex w = (Inr r, w')"
    by (simp add: dispatch_attempt_def seq_def bnd_def log_dispatch_def run_executor_def handle_def ex
        persist_execution_result_def fin rec c)
  moreover have "event_rows (wstore w') = log_after cfg p actor [result_entry q r, completed_entry] w"
    using la la' by (simp add: log_after_def [of _ _ _ "[]"])
  ultimately show thesis by (intro that) (use w' v'(2) in \<open>simp_all add: same_log_def\<close>)
qed

text \<open>What the caller of \<open>execute\<close> has to provide.\<close>

definition executable_request :: "config \<Rightarrow> pystr \<Rightarrow> execution_request \<Rightarrow> world \<Rightarrow> bool" where
  "executable_request cfg p q w \<longleftrightarrow> text_ok p \<and> short_text (operation_id q) \<and> short_text (attempt_id q)
     \<and> short_text (idempotency_key q) \<and> (\<exists>f. fingerprint (cenv cfg) q = Inr f)
     \<and> select_attempt (attempt_id q) p (idempotency_key q) (attempts (wledger w)) = None"

definition storable_result :: "config \<Rightarrow> execution_request \<Rightarrow> execution_result \<Rightarrow> bool" where
  "storable_result cfg q r \<longleftrightarrow> verified_success r \<and> (\<exists>doc. strict_result_json (cenv cfg) r = Inr doc)
     \<and> recordable cfg (request_fields q @ result_fields r)"

definition approved_for :: "config \<Rightarrow> pystr \<Rightarrow> pystr \<Rightarrow> world \<Rightarrow> bool" where
  "approved_for cfg p actor w \<longleftrightarrow> text_ok actor \<and> \<not> blank actor
     \<and> (\<exists>row d. find_row p (pathways (wstore w)) = Some row \<and> row_state row = APPROVED
          \<and> definition_of cfg row = Some d \<and> strip actor = execution_actor d)"

lemma find_attempt_append: "find_attempt a rs = None \<Longrightarrow> at_attempt_id r = a \<Longrightarrow> find_attempt a (rs @ [r]) = Some r"
  by (induction rs) (auto simp: find_attempt_def split: if_splits)

section \<open>A live configuration\<close>

text \<open>An environment whose hash keeps its input, and the world after a registration.\<close>

definition live_config :: config where
  "live_config = \<lparr>cenv = demo_env\<lparr>sha256 := map (\<lambda>b. b + 60000)\<rparr>, cpolicy = default_policy,
     crpe = allow_all_evaluate\<rparr>"

definition live_world :: world where
  "live_world = snd (register live_config demo_pathway (str ''k'') (empty_world [Fine, Failing] []))"

lemma live_config_simps [simp]:
  "cpolicy live_config = default_policy" "crpe live_config = allow_all_evaluate"
  "float_repr (cenv live_config) = demo_float" "sha256 (cenv live_config) b = map (\<lambda>b. b + 60000) b"
  "iso_time (cenv live_config) n = str ''t''"
  by (simp_all add: live_config_def)

lemma live_env: "sane_env (cenv live_config)" "no_clash live_config rows"
proof -
  show "no_clash live_config rows" by (auto simp: no_clash_def inj_on_def)
  show "sane_env (cenv live_config)"
    by (simp add: sane_env_def demo_float_ok) (simp add: text_ok_def list_ex_iff surrogate_def)
qed

lemma live_reachable: "reachable live_config live_world"
proof -
  let ?w = "empty_world [Fine, Failing] []"
  have "call live_config ?w live_world"
    unfolding live_world_def by (rule call_register [OF surjective_pairing])
  moreover have "initial ?w" by (simp add: initial_def empty_world_def)
  ultimately show ?thesis by (auto simp: reachable_def)
qed

lemma live_ready:
  "quiet live_world" "approved_for live_config (str ''p'') (str ''x'') live_world"
  "executable_request live_config (str ''p'') demo_request live_world" "wdispatched live_world = []"
proof -
  obtain doc fp where d: "definition_from_dict (cenv live_config) doc = Inr demo_pathway"
    and w: "live_world = \<lparr>wstore = \<lparr>pathways = [\<lparr>row_id = str ''p'', row_doc = doc, row_fingerprint = fp,
         row_state = APPROVED, row_key = str ''k''\<rparr>], event_rows = [], store_faults = []\<rparr>,
       wledger = \<lparr>attempts = [], ledger_faults = []\<rparr>, wtick = 0, wdispatched = []\<rparr>"
    unfolding live_world_def by (rule demo_register [of live_config, simplified])
  obtain f where f: "fingerprint (cenv live_config) demo_request = Inr f" by (rule demo_fingerprint)
  have x: "strip (str ''x'') = str ''x''" by (simp add: strip_def str_def is_space_def)
  show "quiet live_world" "wdispatched live_world = []" by (simp_all add: w quiet_def)
  show "approved_for live_config (str ''p'') (str ''x'') live_world"
    by (simp add: w approved_for_def find_row_def definition_of_def d blank_def x) (simp add: demo_pathway_def)
  show "executable_request live_config (str ''p'') demo_request live_world"
    using f by (simp add: w executable_request_def select_attempt_def find_attempt_def) (simp add: demo_request_def)
qed

lemma live_storable: "storable_result live_config demo_request demo_result"
proof -
  obtain doc where "strict_result_json (cenv live_config) demo_result = Inr doc" by (rule demo_result_json)
  moreover have ns: "\<not> sensitive default_policy (str k)"
    if "k \<in> {''operation_id'', ''attempt_id'', ''idempotency_key'', ''status'', ''evidence'', ''readback'', ''verified'',
      ''observed'', ''reason''}" for k
    using that by (auto simp: sensitive_def default_policy_def default_sensitive_keys_def str_def
        casefold_def casefold_char_def)
  have pol: "max_depth default_policy = 12" "max_items default_policy = 1000"
    "max_string_length default_policy = 16384" by (simp_all add: default_policy_def)
  have "recordable live_config (request_fields demo_request @ result_fields demo_result)"
    by (simp add: recordable_def request_fields_def result_fields_def demo_request_def demo_result_def readback_value_def
        opt_str_def obj_simps redact_def enter_def ns pol dset_def)
  ultimately show ?thesis by (simp add: storable_result_def verified_success_def demo_result_def)
qed

text \<open>An execution of an approved pathway with a fresh attempt is its start and its dispatch.\<close>

lemma quiet_execute:
  assumes "quiet w" "text_ok p" "find_row p (pathways (wstore w)) = Some row" "row_state row = APPROVED"
    and "definition_of cfg row = Some d" "strip actor = execution_actor d" "\<not> blank actor"
    and "fingerprint (cenv cfg) q = Inr f" "text_ok (attempt_id q)" "text_ok (idempotency_key q)"
    and "select_attempt (attempt_id q) p (idempotency_key q) (attempts (wledger w)) = None"
    and "start_or_discard cfg p q actor
      (w\<lparr>wledger := (wledger w)\<lparr>attempts := attempts (wledger w) @ [started_record p q f]\<rparr>\<rparr>) = (Inr (), v)"
    and "dispatch_attempt cfg p q actor ex v = (Inr r, w')"
  shows "execute cfg p q actor ex w = (Inr r, w')"
proof -
  have "authorize_execution_access d actor = Inr ()"
    using assms(6,7) by (simp add: authorize_execution_ok blank_def)
  moreover have "check_binding p q w = (Inr (), w)"
    using quiet_state [OF assms(1-3)] assms(4) by (simp add: check_binding_def bnd_def)
  ultimately show ?thesis
    using quiet_definition [OF assms(1-3,5)] quiet_begin [OF assms(1,8,2,9-11)] assms(4,12,13)
    by (simp add: execute_def bnd_def seq_def Let_def)
qed

text \<open>
  C9. An approved attempt completes. In a reachable world whose storage does not fail, under the
  default redaction policy, a new attempt of an approved pathway by its execution actor, whose
  executor touches nothing of the runtime and reports a verified success that can be stored,
  returns that result, leaves the pathway completed and the attempt finished, was handed out once,
  and has appended exactly the events of its start, its result and its completion. The hash has
  to tell apart only the byte strings that are hashed for the stored events and these three.
\<close>

theorem approved_attempt_completes:
  assumes "reachable cfg w" "cpolicy cfg = default_policy" "sane_env (cenv cfg)" "quiet w"
    and "approved_for cfg p actor w" "executable_request cfg p q w" "storable_result cfg q r"
    and "\<And>v. ex q v = (Inr r, v)"
    and "no_clash cfg (log_after cfg p actor [started_entry q, result_entry q r, completed_entry] w)"
  shows "\<exists>w' row. execute cfg p q actor ex w = (Inr r, w')
    \<and> find_row p (pathways (wstore w')) = Some row \<and> row_state row = COMPLETED
    \<and> (\<exists>att \<in> set (attempts (wledger w')). at_attempt_id att = attempt_id q \<and> at_status att = str ''succeeded'')
    \<and> wdispatched w' = \<lparr>dp_pathway = p, dp_attempt = attempt_id q, dp_actor = strip actor\<rparr> # wdispatched w
    \<and> event_rows (wstore w') = log_after cfg p actor [started_entry q, result_entry q r, completed_entry] w"
proof -
  have log: "log_ok cfg w" using reachable_inv [OF assms(1)] assms(2) default_policy_ok by (simp add: inv_log)
  from assms(5) obtain row d where row: "find_row p (pathways (wstore w)) = Some row" "row_state row = APPROVED"
    "definition_of cfg row = Some d" "strip actor = execution_actor d" and actor: "text_ok actor" "\<not> blank actor"
    unfolding approved_for_def by blast
  from assms(6) obtain f where q: "text_ok p" "short_text (operation_id q)" "short_text (attempt_id q)"
    "short_text (idempotency_key q)" "fingerprint (cenv cfg) q = Inr f"
    "select_attempt (attempt_id q) p (idempotency_key q) (attempts (wledger w)) = None"
    unfolding executable_request_def by blast
  have qt: "text_ok (attempt_id q)" "text_ok (idempotency_key q)" using q(3,4) by (simp_all add: short_text_def)
  from assms(7) obtain doc where res: "verified_success r" "strict_result_json (cenv cfg) r = Inr doc"
    "recordable cfg (request_fields q @ result_fields r)" unfolding storable_result_def by blast
  let ?u = "w\<lparr>wledger := (wledger w)\<lparr>attempts := attempts (wledger w) @ [started_record p q f]\<rparr>\<rparr>"
  have u: "log_ok cfg ?u" "quiet ?u" "find_row p (pathways (wstore ?u)) = Some row"
    using log assms(4) row(1) by (simp_all add: log_ok_store [of ?u w] quiet_def)
  obtain v where start: "start_or_discard cfg p q actor ?u = (Inr (), v)"
    and v: "find_row p (pathways (wstore v)) = Some (row\<lparr>row_state := RUNNING\<rparr>)" "same_log ?u v" "quiet v" "log_ok cfg v"
    and la: "log_after cfg p actor [result_entry q r, completed_entry] v =
      log_after cfg p actor [started_entry q, result_entry q r, completed_entry] w"
    by (rule quiet_start [where ps = "[result_entry q r, completed_entry]", OF assms(3) _ assms(2) u row(2-4) actor(2)
          q(1) actor(1) q(2-4)]) (use assms(9) in \<open>simp_all add: log_after_same [of ?u w]\<close>)
  from q(6) have "find_attempt (attempt_id q) (attempts (wledger w)) = None"
    by (auto simp: select_attempt_def split: option.splits)
  then have att: "find_attempt (attempt_id q) (attempts (wledger v)) = Some (started_record p q f)"
    using v(2) find_attempt_append [of _ _ "started_record p q f"] by (simp add: same_log_def started_record_def)
  have running: "row_state (row\<lparr>row_state := RUNNING\<rparr>) = RUNNING"
    "definition_of cfg (row\<lparr>row_state := RUNNING\<rparr>) = Some d" using row(3) by (simp_all add: definition_of_def)
  obtain w' where disp: "dispatch_attempt cfg p q actor ex v = (Inr r, w')"
    "find_row p (pathways (wstore w')) = Some (row\<lparr>row_state := RUNNING, row_state := COMPLETED\<rparr>)"
    "attempts (wledger w') = map (set_result (attempt_id q) (str ''succeeded'') doc) (attempts (wledger v))"
    "wdispatched w' = \<lparr>dp_pathway = p, dp_attempt = attempt_id q, dp_actor = strip actor\<rparr> # wdispatched v"
    "event_rows (wstore w') = log_after cfg p actor [result_entry q r, completed_entry] v"
    by (rule quiet_dispatch [where ex = ex, OF assms(3) assms(9) [folded la] assms(2) v(4,3,1) running row(4) actor(2) q(1) actor(1) qt(1) res assms(8) att])
  have "execute cfg p q actor ex w = (Inr r, w')"
    by (rule quiet_execute [OF assms(4) q(1) row(1-4) actor(2) q(5) qt q(6) start disp(1)])
  moreover have "\<exists>att \<in> set (attempts (wledger w')). at_attempt_id att = attempt_id q \<and> at_status att = str ''succeeded''"
    using disp(3) v(2) by (auto simp: same_log_def set_result_def started_record_def)
  moreover have "wdispatched v = wdispatched w" using v(2) by (simp add: same_log_def)
  ultimately show ?thesis
    using disp(2,4,5) la by auto
qed

theorem approved_attempt_completes_witness:
  "\<exists>w' row. execute live_config (str ''p'') demo_request (str ''x'') demo_executor live_world = (Inr demo_result, w')
    \<and> find_row (str ''p'') (pathways (wstore w')) = Some row \<and> row_state row = COMPLETED
    \<and> wdispatched w' = [dispatch_of (str ''p'') demo_request (str ''x'')]"
  using approved_attempt_completes [OF live_reachable live_config_simps(1) live_env(1) live_ready(1-3) live_storable,
    of demo_executor] live_env(2) live_ready(4)
  by (auto simp: demo_executor_def)

end
