(* ===== verification/Rpr_Reconcile.thy ===== *)
theory Rpr_Reconcile
  imports Rpr_Executions
begin

text \<open>
  The contract of \<open>ResponsibilityPathwayRuntime.reconcile\<close>: who may reconcile which pathway, when the
  observer is asked and when the stored result stands, where the observation leaves the attempt
  and the pathway, and what an error leaves behind. The observer is any function on the world.
\<close>

section \<open>The parts of the contract\<close>

text \<open>
  The caller is the repair or evidence owner of a pathway that is of unknown outcome or was
  reconciled before, and the ledger knows the attempt as this very request of this pathway.
\<close>

definition reconcilable :: "config \<Rightarrow> pystr \<Rightarrow> execution_request \<Rightarrow> pystr \<Rightarrow> world \<Rightarrow> attempt_record \<Rightarrow> bool" where
  "reconcilable cfg p q actor w att \<longleftrightarrow>
     (\<exists>row d. find_row p (pathways (wstore w)) = Some row \<and> definition_of cfg row = Some d
        \<and> strip actor \<noteq> [] \<and> strip actor \<in> {repair_owner d, evidence_owner d}
        \<and> row_state row \<in> {WRITE_STATUS_UNKNOWN, COMPLETED, REPAIR_REQUIRED})
     \<and> select_attempt (attempt_id q) p (idempotency_key q) (attempts (wledger w)) = Some att
     \<and> at_pathway_id att = p \<and> at_operation_id att = operation_id q
     \<and> fingerprint (cenv cfg) q = Inr (at_fingerprint att)"

text \<open>The stored result of an attempt: one that is known, or none that is.\<close>

definition stored_outcome :: "config \<Rightarrow> attempt_record \<Rightarrow> execution_result \<Rightarrow> bool" where
  "stored_outcome cfg att r \<longleftrightarrow>
     (\<exists>doc. at_result att = Some doc \<and> result_from_doc (cenv cfg) doc = Inr r \<and> status r \<noteq> STATUS_UNKNOWN)"

definition undecided :: "config \<Rightarrow> attempt_record \<Rightarrow> bool" where
  "undecided cfg att \<longleftrightarrow> at_result att = None
     \<or> (\<exists>doc r. at_result att = Some doc \<and> result_from_doc (cenv cfg) doc = Inr r \<and> status r = STATUS_UNKNOWN)"

text \<open>The result that an observation stands for.\<close>

definition stands_for :: "reconciliation_result \<Rightarrow> execution_result \<Rightarrow> bool" where
  "stands_for obs r \<longleftrightarrow>
     status r = (case rec_status obs of VERIFIED_APPLIED \<Rightarrow> SUCCEEDED | VERIFIED_NOT_APPLIED \<Rightarrow> FAILED
       | UNRESOLVED \<Rightarrow> STATUS_UNKNOWN)
     \<and> evidence r = obj [(''reconciliation'', PDict (rec_evidence obs))]
     \<and> (\<exists>b. readback r = Some b \<and> (verified b \<longleftrightarrow> rec_status obs \<noteq> UNRESOLVED) \<and> observed b = rec_evidence obs
          \<and> readback_reason b = rec_reason obs)"

text \<open>
  A known result leaves a pathway of unknown outcome completed or in repair, with the event that
  says so; a pathway that is there already is left alone.
\<close>

definition reconciled :: "config \<Rightarrow> pystr \<Rightarrow> execution_request \<Rightarrow> pystr \<Rightarrow> execution_result \<Rightarrow> bool
    \<Rightarrow> world \<Rightarrow> world \<Rightarrow> bool" where
  "reconciled cfg p q actor r replayed w w' \<longleftrightarrow>
     (\<exists>row t. find_row p (pathways (wstore w)) = Some row
        \<and> t = (if status r = SUCCEEDED then COMPLETED else REPAIR_REQUIRED)
        \<and> (row_state row = t \<and> same_data w w'
           \<or> row_state row = WRITE_STATUS_UNKNOWN
             \<and> moved cfg p WRITE_STATUS_UNKNOWN t ''reconciliation_result'' actor
                 (request_fields q @ result_fields r @ [(''replayed'', PBool replayed)]) w w'))"

text \<open>One event was appended, pathways and dispatches are as before.\<close>

definition noted :: "config \<Rightarrow> pystr \<Rightarrow> string \<Rightarrow> pystr \<Rightarrow> (string \<times> pv) list \<Rightarrow> world \<Rightarrow> world \<Rightarrow> bool" where
  "noted cfg p ty actor xs w w' \<longleftrightarrow> (\<exists>e. built cfg p ty actor xs e \<and> appends e w w' \<and> same_paths w w' \<and> same_log w w')"

text \<open>The attempt has the result in the ledger, and nothing else has changed.\<close>

definition result_kept :: "config \<Rightarrow> execution_request \<Rightarrow> execution_result \<Rightarrow> world \<Rightarrow> world \<Rightarrow> bool" where
  "result_kept cfg q r w w' \<longleftrightarrow> same_paths w w' \<and> same_events w w' \<and> wdispatched w' = wdispatched w
     \<and> (\<exists>doc. strict_result_json (cenv cfg) r = Inr doc \<and> find_attempt (attempt_id q) (attempts (wledger w)) \<noteq> None
        \<and> attempts (wledger w') = map (set_result (attempt_id q) (status_value (status r)) doc) (attempts (wledger w)))"

text \<open>
  What follows from an observation: an unresolved one is noted, a resolved one becomes the stored
  result of the attempt and settles the pathway, unless its evidence cannot be stored: then the
  outcome stays unknown, which is noted.
\<close>

definition settled_by :: "config \<Rightarrow> pystr \<Rightarrow> execution_request \<Rightarrow> pystr \<Rightarrow> reconciliation_result
    \<Rightarrow> execution_result \<Rightarrow> world \<Rightarrow> world \<Rightarrow> bool" where
  "settled_by cfg p q actor obs r w w' \<longleftrightarrow>
     (if rec_status obs = UNRESOLVED then stands_for obs r
        \<and> noted cfg p ''reconciliation_unresolved'' actor
            (request_fields q @ [(''evidence'', PDict (rec_evidence obs)), (''reason'', opt_str (result_reason r))]) w w'
      else stands_for obs r \<and> (\<exists>v. result_kept cfg q r w v \<and> reconciled cfg p q actor r False v w')
         \<or> status r = STATUS_UNKNOWN \<and> readback r = None
           \<and> (\<exists>r' e v xs. stands_for obs r' \<and> strict_result_json (cenv cfg) r' = Inl e
               \<and> same_paths w v \<and> same_events w v \<and> wdispatched v = wdispatched w
               \<and> noted cfg p ''reconciliation_result_persistence_unknown'' actor xs v w'))"

text \<open>
  An error before the observer was asked leaves the data as it was, but for the row of a new
  attempt that could not be removed again; later on it leaves the pathways and the dispatches as
  the observer left them.
\<close>

definition not_reconciled :: "config \<Rightarrow> pystr \<Rightarrow> execution_request \<Rightarrow> pystr \<Rightarrow> strategy \<Rightarrow> world \<Rightarrow> world \<Rightarrow> bool" where
  "not_reconciled cfg p q actor strat w w' \<longleftrightarrow> same_data w w'
     \<or> (select_attempt (attempt_id q) p (idempotency_key q) (attempts (wledger w)) = None
        \<and> same_paths w w' \<and> same_events w w' \<and> wdispatched w' = wdispatched w
        \<and> (\<exists>fp. attempts (wledger w') = attempts (wledger w) @ [started_record p q fp]))
     \<or> (\<exists>att u u'. reconcilable cfg p q actor w att \<and> undecided cfg att \<and> same_data w u
        \<and> snd (strat q att u) = u' \<and> same_paths u' w' \<and> wdispatched w' = wdispatched u')"

section \<open>Its proof\<close>

lemma observed_stands_for: "stands_for obs (observed_result obs)"
  by (cases "rec_status obs") (simp_all add: stands_for_def observed_result_def Let_def)

lemma observed_status:
  "rec_status obs \<noteq> UNRESOLVED \<Longrightarrow> status (observed_result obs) \<noteq> STATUS_UNKNOWN"
  by (cases "rec_status obs") (simp_all add: observed_result_def Let_def)

lemma reconcilable_same:
  assumes "same_data w u"
  shows "reconcilable cfg p q actor u att \<longleftrightarrow> reconcilable cfg p q actor w att"
  using assms by (simp add: reconcilable_def same_data_def same_paths_def same_log_def)

lemma wp_finish_reconciliation:
  assumes u: "same_data w u"
    and ok: "\<And>w'. reconciled cfg p q actor r replayed w w' \<Longrightarrow> Q () w'"
    and bad: "\<And>e w'. same_data w w' \<Longrightarrow> E e w'"
  shows "wp (finish_reconciliation_pathway cfg p q actor r replayed) Q E u"
proof -
  let ?t = "if status r = SUCCEEDED then COMPLETED else REPAIR_REQUIRED"
  let ?xs = "request_fields q @ result_fields r @ [(''replayed'', PBool replayed)]"
  let ?body = "\<lambda>current. if current = ?t then ret ()
     else if current \<noteq> WRITE_STATUS_UNKNOWN then
       throw (Exn ValueError (str ''persisted reconciliation result conflicts with pathway state ''
         @ state_value current))
     else seq (lift (ensure_transition current ?t)) (move cfg p current ?t ''reconciliation_result'' actor ?xs)"
  have "wp (in_store (get_state p)) (\<lambda>current. wp (?body current) Q E) E u"
  proof (rule wp_state)
    fix v row assume v: "same_data u v" and "find_row p (pathways (wstore u)) = Some row"
    then have row: "find_row p (pathways (wstore w)) = Some row" and wv: "same_data w v"
      using u same_data_find same_data_trans by auto
    consider "row_state row = ?t" | "row_state row \<noteq> ?t" "row_state row \<noteq> WRITE_STATUS_UNKNOWN"
      | "row_state row \<noteq> ?t" "row_state row = WRITE_STATUS_UNKNOWN" by blast
    then show "wp (?body (row_state row)) Q E v"
    proof cases
      case 1
      with row wv ok show ?thesis by (simp add: wp reconciled_def)
    next
      case 2
      with wv bad show ?thesis by (simp add: wp)
    next
      case 3
      have "wp (move cfg p WRITE_STATUS_UNKNOWN ?t ''reconciliation_result'' actor ?xs) Q E v"
      proof (rule wp_moved)
        fix w' assume "moved cfg p WRITE_STATUS_UNKNOWN ?t ''reconciliation_result'' actor ?xs v w'"
        with row 3 moved_same [OF wv] show "Q () w'" by (intro ok) (auto simp: reconciled_def)
      qed (use wv bad same_data_trans in blast)
      with 3 wv bad show ?thesis by (simp add: wp ensure_transition_def)
    qed
  qed (use u bad same_data_trans in blast)
  then show ?thesis by (simp add: finish_reconciliation_pathway_def Let_def wp_bnd_eq)
qed

text \<open>Only a result without a bounded JSON form is refused by the ledger as not storable.\<close>

lemma wp_finish_result:
  assumes ok: "\<And>w'. result_kept cfg q r w w' \<Longrightarrow> Q w'"
    and bad: "\<And>e w'. same_data w w' \<Longrightarrow>
      (catches [AttemptResultPersistenceError] e \<Longrightarrow> \<exists>e'. strict_result_json (cenv cfg) r = Inl e') \<Longrightarrow> E e w'"
  shows "wp (in_ledger (finish (cenv cfg) (attempt_id q) r)) (\<lambda>_. Q) E w"
proof (cases "strict_result_json (cenv cfg) r")
  case (Inl e)
  then show ?thesis by (simp add: wp_in_ledger finish_def wp bad)
next
  case (Inr doc)
  let ?m = "update_tx (attempt_id q) (status_value (status r)) doc"
  have tx: "wp ?m (\<lambda>_ l. Q (w\<lparr>wledger := l\<rparr>)) (\<lambda>e l. E e (w\<lparr>wledger := l\<rparr>)) l"
    if l: "attempts l = attempts (wledger w)" for l
  proof -
    have no: "\<not> catches [AttemptResultPersistenceError] (Exn KeyError a)"
      "bind_text ts = Inl e \<Longrightarrow> \<not> catches [AttemptResultPersistenceError] e" for a ts e
      by (auto simp: catches_def bind_text_def)
    have "result_kept cfg q r w (w\<lparr>wledger := l\<lparr>attempts :=
        map (set_result (attempt_id q) (status_value (status r)) doc) (attempts (wledger w))\<rparr>\<rparr>)"
      if "find_attempt (attempt_id q) (attempts (wledger w)) \<noteq> None"
      using that Inr by (simp add: result_kept_def same_paths_def same_events_def)
    moreover have "E e (w\<lparr>wledger := l\<rparr>)" if "\<not> catches [AttemptResultPersistenceError] e" for e
      using that by (intro bad same_data_ledger l) simp
    ultimately show ?thesis
      using l no ok by (auto simp: update_tx_def wp_def split: sum.splits option.splits)
  qed
  have no: "\<not> catches [AttemptResultPersistenceError] (Exn SqliteOperationalError m)"
    "\<not> catches [AttemptResultPersistenceError] (Exn Crash m)" for m
    by (simp_all add: catches_def)
  have "wp (ledger_tx ?m) (\<lambda>_ l. Q (w\<lparr>wledger := l\<rparr>)) (\<lambda>e l. E e (w\<lparr>wledger := l\<rparr>)) (wledger w)"
    unfolding ledger_tx_def
    by (rule wp_db_step) (use no in \<open>auto intro!: tx bad same_data_ledger\<close>)
  with Inr show ?thesis by (simp add: wp_in_ledger finish_def wp)
qed

text \<open>The fallback that marks the outcome as unknown touches the ledger only.\<close>

lemma wp_marked:
  assumes ok: "\<And>failure w'. same_paths w w' \<Longrightarrow> same_events w w' \<Longrightarrow> wdispatched w' = wdispatched w \<Longrightarrow> Q failure w'"
    and bad: "\<And>e w'. same_paths w w' \<Longrightarrow> wdispatched w' = wdispatched w \<Longrightarrow> E e w'"
  shows "wp (mark_unknown q reason) Q E w"
proof -
  have "wp (in_ledger (mark_result_persistence_unknown (attempt_id q) reason)) (\<lambda>_. Q None)
      (\<lambda>e w'. if catches [SqliteError, KeyError] e then Q (Some (exn_name (exn_kind e))) w' else E e w') w"
    unfolding wp_in_ledger
    by (rule wp_mark_unknown) (simp_all add: ok bad same_paths_def same_events_def)
  then show ?thesis by (simp add: mark_unknown_def wp if_bool_eq_conj)
qed

text \<open>What an observation settles.\<close>

definition after_error :: "world \<Rightarrow> world \<Rightarrow> bool" where
  "after_error w w' \<longleftrightarrow> same_paths w w' \<and> wdispatched w' = wdispatched w"

lemma after_error_same: "same_data w w' \<Longrightarrow> after_error w w'"
  by (simp add: after_error_def same_data_def same_log_def)

lemma after_error_trans: "after_error u v \<Longrightarrow> after_error v w \<Longrightarrow> after_error u w"
  by (simp add: after_error_def same_paths_def)

lemma wp_settle_unresolved:
  assumes "rec_status obs = UNRESOLVED"
    and ok: "\<And>r w'. settled_by cfg p q actor obs r w w' \<Longrightarrow> Q r w'"
    and bad: "\<And>e w'. after_error w w' \<Longrightarrow> E e w'"
  shows "wp (settle_observation cfg p q actor obs) Q E w"
proof -
  let ?r = "observed_result obs"
  let ?xs = "request_fields q @ [(''evidence'', PDict (rec_evidence obs)), (''reason'', opt_str (result_reason ?r))]"
  have "wp (record_event cfg p ''reconciliation_unresolved'' actor ?xs) (\<lambda>_. Q ?r) E w"
  proof (rule wp_record_event)
    fix w' e assume "built cfg p ''reconciliation_unresolved'' actor ?xs e" "appends e w w'" "same_paths w w'" "same_log w w'"
    with assms(1) observed_stands_for show "Q ?r w'" by (intro ok) (auto simp: settled_by_def noted_def)
  qed (use bad after_error_same in blast)
  with assms(1) show ?thesis by (simp add: settle_observation_def Let_def wp)
qed

text \<open>The two ways a resolved observation is persisted: stored, or refused for its form and marked.\<close>

lemma wp_persist_reconciliation:
  assumes kept: "\<And>w'. result_kept cfg q r w w' \<Longrightarrow> Q True w'"
    and refused: "\<And>e v xs w'. strict_result_json (cenv cfg) r = Inl e \<Longrightarrow> same_paths w v \<Longrightarrow> same_events w v \<Longrightarrow>
      wdispatched v = wdispatched w \<Longrightarrow>
      noted cfg p ''reconciliation_result_persistence_unknown'' actor xs v w' \<Longrightarrow> Q False w'"
    and bad: "\<And>e w'. after_error w w' \<Longrightarrow> E e w'"
  shows "wp (persist_reconciliation_result cfg p q actor r) Q E w"
proof -
  define h where "h = (\<lambda>exc. let reason = str ''reconciliation_result_persistence_rejected:'' @ exn_name (exn_kind exc) in
          bnd (mark_unknown q reason) (\<lambda>failure.
          seq (record_event cfg p ''reconciliation_result_persistence_unknown'' actor
                 (request_fields q @ unknown_fields reason failure)) (ret False)))"
  have h: "wp (h exc) Q E u" if j: "strict_result_json (cenv cfg) r = Inl e'" and u: "same_data w u" for exc e' u
  proof -
    have rec: "wp (record_event cfg p ''reconciliation_result_persistence_unknown'' actor xs) (\<lambda>_. Q False) E v"
      if v: "same_paths u v" "same_events u v" "wdispatched v = wdispatched u" for xs v
    proof (rule wp_record_event)
      fix w' e assume "built cfg p ''reconciliation_result_persistence_unknown'' actor xs e" "appends e v w'"
        "same_paths v w'" "same_log v w'"
      then have n: "noted cfg p ''reconciliation_result_persistence_unknown'' actor xs v w'" by (auto simp: noted_def)
      show "Q False w'"
        by (rule refused [OF j _ _ _ n])
          (use u v in \<open>simp_all add: same_data_def same_paths_def same_events_def same_log_def\<close>)
    next
      fix e w' assume "same_data v w'"
      with u v show "E e w'"
        by (intro bad) (simp add: after_error_def same_data_def same_paths_def same_log_def)
    qed
    have "wp (mark_unknown q reason) (\<lambda>failure. wp (record_event cfg p ''reconciliation_result_persistence_unknown''
        actor (request_fields q @ unknown_fields reason failure)) (\<lambda>_. Q False) E) E u" for reason
      by (rule wp_marked, erule (2) rec)
        (use u in \<open>auto intro!: bad simp: after_error_def same_data_def same_paths_def same_log_def\<close>)
    then show ?thesis by (simp add: h_def Let_def wp_bnd_eq wp_seq_eq wp_partial)
  qed
  have "wp (in_ledger (finish (cenv cfg) (attempt_id q) r)) (\<lambda>_. Q True)
      (\<lambda>e w'. if catches [AttemptResultPersistenceError] e then wp (h e) Q E w' else E e w') w"
    by (rule wp_finish_result) (use h bad after_error_same kept in \<open>auto split: if_splits\<close>)
  then show ?thesis
    by (simp add: persist_reconciliation_result_def h_def [symmetric] wp if_bool_eq_conj)
qed

lemma wp_settle_resolved:
  assumes res: "rec_status obs \<noteq> UNRESOLVED"
    and ok: "\<And>r w'. settled_by cfg p q actor obs r w w' \<Longrightarrow> Q r w'"
    and bad: "\<And>e w'. after_error w w' \<Longrightarrow> E e w'"
  shows "wp (settle_observation cfg p q actor obs) Q E w"
proof -
  let ?r = "observed_result obs"
  let ?u = "unknown_result (str ''reconciliation_result_persistence_rejected:AttemptResultPersistenceError'')"
  note sf = observed_stands_for [of obs]
  have "wp (persist_reconciliation_result cfg p q actor ?r) (\<lambda>b. wp (if \<not> b then ret ?u
      else seq (finish_reconciliation_pathway cfg p q actor ?r False) (ret ?r)) Q E) E w"
  proof (rule wp_persist_reconciliation)
    fix v assume v: "result_kept cfg q ?r w v"
    have "wp (finish_reconciliation_pathway cfg p q actor ?r False) (\<lambda>_. Q ?r) E v"
    proof (rule wp_finish_reconciliation [OF same_data_refl])
      fix w' assume "reconciled cfg p q actor ?r False v w'"
      with v res sf show "Q ?r w'" by (intro ok) (auto simp: settled_by_def)
    next
      fix e w' assume "same_data v w'"
      with v show "E e w'"
        by (intro bad) (simp add: after_error_def result_kept_def same_data_def same_paths_def same_log_def)
    qed
    then show "wp (if \<not> True then ret ?u else seq (finish_reconciliation_pathway cfg p q actor ?r False) (ret ?r)) Q E v"
      by (simp add: wp)
  next
    fix e v xs w'
    assume "strict_result_json (cenv cfg) ?r = Inl e" "same_paths w v" "same_events w v"
      "wdispatched v = wdispatched w" "noted cfg p ''reconciliation_result_persistence_unknown'' actor xs v w'"
    with res sf have "settled_by cfg p q actor obs ?u w w'"
      unfolding settled_by_def by auto
    with ok show "wp (if \<not> False then ret ?u else seq (finish_reconciliation_pathway cfg p q actor ?r False) (ret ?r)) Q E w'"
      by (simp add: wp)
  qed (rule bad)
  with res show ?thesis by (simp add: settle_observation_def Let_def wp)
qed

lemma wp_settle_observation:
  assumes "\<And>r w'. settled_by cfg p q actor obs r w w' \<Longrightarrow> Q r w'" "\<And>e w'. after_error w w' \<Longrightarrow> E e w'"
  shows "wp (settle_observation cfg p q actor obs) Q E w"
  using assms by (cases "rec_status obs = UNRESOLVED") (blast intro: wp_settle_unresolved wp_settle_resolved)+

text \<open>The guards before the observer is asked.\<close>

definition reconcile_observed where
  "reconcile_observed cfg p q actor strat att = bnd (strat q att) (settle_observation cfg p q actor)"

lemma wp_observed:
  assumes u: "same_data w u" and att: "reconcilable cfg p q actor w att" "undecided cfg att"
    and ok: "\<And>obs r u' w'. strat q att u = (Inr obs, u') \<Longrightarrow> settled_by cfg p q actor obs r u' w' \<Longrightarrow> Q r w'"
    and bad: "\<And>e w'. not_reconciled cfg p q actor strat w w' \<Longrightarrow> E e w'"
  shows "wp (reconcile_observed cfg p q actor strat att) Q E u"
proof (cases "strat q att u")
  case (Pair x u')
  have E: "E e w'" if "after_error u' w'" for e w'
  proof (rule bad)
    have "snd (strat q att u) = u'" using Pair by simp
    then show "not_reconciled cfg p q actor strat w w'"
      using u att that unfolding not_reconciled_def after_error_def by blast
  qed
  show ?thesis
  proof (cases x)
    case (Inl e)
    have "after_error u' u'" by (simp add: after_error_def same_paths_def)
    with Inl Pair E show ?thesis by (simp add: reconcile_observed_def wp_bnd_eq) (simp add: wp_def)
  next
    case (Inr obs)
    have "wp (settle_observation cfg p q actor obs) Q E u'"
      by (rule wp_settle_observation) (use Inr Pair ok E in blast)+
    with Inr Pair show ?thesis by (simp add: reconcile_observed_def wp_bnd_eq) (simp add: wp_def)
  qed
qed

text \<open>What is done with the row of the ledger.\<close>

definition continue_reconciliation where
  "continue_reconciliation cfg p q actor strat replayed att =
     (if \<not> replayed then
         seq (in_ledger (discard_started (attempt_id q)))
           (raise ValueError ''reconciliation requires an existing persisted attempt'')
      else case at_result att of
           None \<Rightarrow> reconcile_observed cfg p q actor strat att
         | Some doc \<Rightarrow> bnd (lift (result_from_doc (cenv cfg) doc)) (\<lambda>r.
             if status r \<noteq> STATUS_UNKNOWN then
               seq (finish_reconciliation_pathway cfg p q actor r True) (ret r)
             else reconcile_observed cfg p q actor strat att))"

lemma reconcile_unfold:
  "reconcile cfg p q actor strat = bnd (in_store (get_definition (cenv cfg) p)) (\<lambda>d.
     seq (lift (authorize_reconciliation_access d actor)) (bnd (in_store (get_state p)) (\<lambda>current.
     if current \<notin> {WRITE_STATUS_UNKNOWN, COMPLETED, REPAIR_REQUIRED} then
       throw (Exn ValueError (str ''pathway is not reconcilable, got '' @ state_value current))
     else bnd (in_ledger (begin_attempt (cenv cfg) p q)) (\<lambda>x.
       continue_reconciliation cfg p q actor strat (fst x) (snd x)))))"
  unfolding reconcile_def continue_reconciliation_def reconcile_observed_def Let_def case_prod_unfold ..

text \<open>The result of a reconciliation, and which of its two ways was taken.\<close>

definition reconciliation_done :: "config \<Rightarrow> pystr \<Rightarrow> execution_request \<Rightarrow> pystr \<Rightarrow> strategy \<Rightarrow> execution_result
    \<Rightarrow> world \<Rightarrow> world \<Rightarrow> bool" where
  "reconciliation_done cfg p q actor strat r w w' \<longleftrightarrow> (\<exists>att. reconcilable cfg p q actor w att
     \<and> (stored_outcome cfg att r \<and> reconciled cfg p q actor r True w w'
        \<or> undecided cfg att \<and> (\<exists>obs u u'. same_data w u \<and> strat q att u = (Inr obs, u')
            \<and> settled_by cfg p q actor obs r u' w')))"

lemma wp_known_row:
  assumes u: "same_data w u" and att: "reconcilable cfg p q actor w att"
  shows "wp (continue_reconciliation cfg p q actor strat True att)
    (\<lambda>r. reconciliation_done cfg p q actor strat r w) (\<lambda>_. not_reconciled cfg p q actor strat w) u"
proof -
  let ?Q = "\<lambda>r. reconciliation_done cfg p q actor strat r w" and ?E = "\<lambda>_. not_reconciled cfg p q actor strat w"
  have err: "not_reconciled cfg p q actor strat w v" if "same_data w v" for v
    using that by (simp add: not_reconciled_def)
  have observe: "wp (reconcile_observed cfg p q actor strat att) ?Q ?E u" if un: "undecided cfg att"
    by (rule wp_observed [OF u att un]) (use u att un in \<open>auto simp: reconciliation_done_def\<close>)
  show ?thesis
  proof (cases "at_result att")
    case None
    with observe show ?thesis by (simp add: continue_reconciliation_def undecided_def)
  next
    case (Some doc)
    show ?thesis
    proof (cases "result_from_doc (cenv cfg) doc")
      case (Inl e)
      with Some err [OF u] show ?thesis by (simp add: continue_reconciliation_def wp)
    next
      case (Inr r)
      show ?thesis
      proof (cases "status r = STATUS_UNKNOWN")
        case True
        with Some Inr have "undecided cfg att" by (simp add: undecided_def)
        from observe [OF this] Some Inr True show ?thesis by (simp add: continue_reconciliation_def wp)
      next
        case False
        with Some Inr have "stored_outcome cfg att r" by (simp add: stored_outcome_def)
        then have "wp (finish_reconciliation_pathway cfg p q actor r True) (\<lambda>_. ?Q r) ?E u"
          by (intro wp_finish_reconciliation [OF u]) (use att err in \<open>auto simp: reconciliation_done_def\<close>)
        with Some Inr False show ?thesis by (simp add: continue_reconciliation_def wp)
      qed
    qed
  qed
qed

lemma wp_new_row:
  assumes u: "same_data w u" and new: "select_attempt (attempt_id q) p (idempotency_key q) (attempts (wledger w)) = None"
    and l: "attempts l = attempts (wledger w) @ [started_record p q fp]"
  shows "wp (continue_reconciliation cfg p q actor strat False att)
    (\<lambda>r. reconciliation_done cfg p q actor strat r w) (\<lambda>_. not_reconciled cfg p q actor strat w) (u\<lparr>wledger := l\<rparr>)"
proof -
  have "filter (\<lambda>r. \<not> discardable (attempt_id q) r) (attempts (wledger w)) = attempts (wledger w)"
    using new by (force simp: select_attempt_None discardable_def filter_id_conv)
  then have removed: "filter (\<lambda>r. \<not> discardable (attempt_id q) r) (attempts l) = attempts (wledger w)"
    using l by (simp add: discardable_def)
  have gone: "not_reconciled cfg p q actor strat w (u\<lparr>wledger := l'\<rparr>)" if "attempts l' = attempts (wledger w)" for l' :: ledger
    using that u by (simp add: not_reconciled_def same_data_def same_paths_def same_events_def same_log_def)
  have left: "not_reconciled cfg p q actor strat w (u\<lparr>wledger := l'\<rparr>)" if "attempts l' = attempts l" for l' :: ledger
    using that u new l by (auto simp: not_reconciled_def same_data_def same_paths_def same_events_def same_log_def)
  have "wp (in_ledger (discard_started (attempt_id q)))
      (\<lambda>_. not_reconciled cfg p q actor strat w) (\<lambda>_. not_reconciled cfg p q actor strat w) (u\<lparr>wledger := l\<rparr>)"
    unfolding wp_in_ledger by (rule wp_discard) (simp_all add: removed gone left)
  then show ?thesis by (simp add: continue_reconciliation_def wp)
qed

lemma wp_reconcile:
  "wp (reconcile cfg p q actor strat) (\<lambda>r. reconciliation_done cfg p q actor strat r w)
     (\<lambda>_. not_reconciled cfg p q actor strat w) w"
proof -
  let ?Q = "\<lambda>r. reconciliation_done cfg p q actor strat r w" and ?E = "\<lambda>_. not_reconciled cfg p q actor strat w"
  let ?go = "\<lambda>x. continue_reconciliation cfg p q actor strat (fst x) (snd x)"
  let ?ledger = "bnd (in_ledger (begin_attempt (cenv cfg) p q)) ?go"
  let ?state = "bnd (in_store (get_state p)) (\<lambda>current.
     if current \<notin> {WRITE_STATUS_UNKNOWN, COMPLETED, REPAIR_REQUIRED} then
       throw (Exn ValueError (str ''pathway is not reconcilable, got '' @ state_value current))
     else ?ledger)"
  have err: "not_reconciled cfg p q actor strat w v" if "same_data w v" for v
    using that by (simp add: not_reconciled_def)
  have ledger: "wp ?ledger ?Q ?E v"
    if v: "same_data w v" and row: "find_row p (pathways (wstore w)) = Some row" "definition_of cfg row = Some d"
      and auth: "strip actor \<noteq> []" "strip actor \<in> {repair_owner d, evidence_owner d}"
      and st: "row_state row \<in> {WRITE_STATUS_UNKNOWN, COMPLETED, REPAIR_REQUIRED}" for v row d
  proof -
    have l: "attempts (wledger v) = attempts (wledger w)" using v by (simp add: same_data_def same_log_def)
    have "wp (in_ledger (begin_attempt (cenv cfg) p q)) (\<lambda>x. wp (?go x) ?Q ?E) ?E v"
      unfolding wp_in_ledger
    proof (rule wp_begin)
      fix l' :: ledger and att fp
      assume l': "attempts l' = attempts (wledger v)" and "fingerprint (cenv cfg) q = Inr fp"
        "select_attempt (attempt_id q) p (idempotency_key q) (attempts (wledger v)) = Some att"
        "at_pathway_id att = p" "at_operation_id att = operation_id q" "at_fingerprint att = fp"
      with row auth st l have "reconcilable cfg p q actor w att" unfolding reconcilable_def by auto
      moreover have "same_data w (v\<lparr>wledger := l'\<rparr>)" by (rule same_data_trans [OF v same_data_ledger [OF l']])
      ultimately show "wp (?go (True, att)) ?Q ?E (v\<lparr>wledger := l'\<rparr>)" by (simp add: wp_known_row)
    next
      fix l' :: ledger and fp
      assume "select_attempt (attempt_id q) p (idempotency_key q) (attempts (wledger v)) = None"
        "attempts l' = attempts (wledger v) @ [started_record p q fp]"
      with l wp_new_row [OF v] show "wp (?go (False, started_record p q fp)) ?Q ?E (v\<lparr>wledger := l'\<rparr>)" by simp
    next
      fix e and l' :: ledger assume "attempts l' = attempts (wledger v)"
      then show "not_reconciled cfg p q actor strat w (v\<lparr>wledger := l'\<rparr>)"
        by (intro err same_data_trans [OF v] same_data_ledger)
    qed
    then show ?thesis by (simp only: wp_bnd_eq)
  qed
  have "wp (in_store (get_definition (cenv cfg) p)) (\<lambda>d. wp (seq (lift (authorize_reconciliation_access d actor)) ?state)
      ?Q ?E) ?E w"
  proof (rule wp_definition)
    fix u row d assume u: "same_data w u" and row: "find_row p (pathways (wstore w)) = Some row"
      and "definition_from_dict (cenv cfg) (row_doc row) = Inr d"
    then have d: "definition_of cfg row = Some d" by (simp add: definition_of_def)
    show "wp (seq (lift (authorize_reconciliation_access d actor)) ?state) ?Q ?E u"
    proof (cases "authorize_reconciliation_access d actor")
      case (Inl e)
      with err [OF u] show ?thesis by (simp add: wp)
    next
      case (Inr x)
      then have auth: "strip actor \<noteq> []" "strip actor \<in> {repair_owner d, evidence_owner d}"
        by (auto simp: authorize_reconciliation_ok)
      have "wp (in_store (get_state p)) (\<lambda>current. wp (if current \<notin> {WRITE_STATUS_UNKNOWN, COMPLETED, REPAIR_REQUIRED} then
          throw (Exn ValueError (str ''pathway is not reconcilable, got '' @ state_value current)) else ?ledger) ?Q ?E) ?E u"
      proof (rule wp_state)
        fix v row' assume v: "same_data u v" and "find_row p (pathways (wstore u)) = Some row'"
        with row same_data_find [OF u] have "row' = row" by simp
        with ledger [OF same_data_trans [OF u v] row d auth] err [OF same_data_trans [OF u v]]
        show "wp (if row_state row' \<notin> {WRITE_STATUS_UNKNOWN, COMPLETED, REPAIR_REQUIRED} then
          throw (Exn ValueError (str ''pathway is not reconcilable, got '' @ state_value (row_state row'))) else ?ledger) ?Q ?E v"
          by (cases "row_state row \<in> {WRITE_STATUS_UNKNOWN, COMPLETED, REPAIR_REQUIRED}") (simp_all add: wp_partial)
      qed (use err same_data_trans [OF u] in blast)
      with Inr show ?thesis by (simp add: wp_seq_eq wp_bnd_eq wp)
    qed
  qed (rule err)
  then show ?thesis unfolding reconcile_unfold wp_bnd_eq .
qed

text \<open>
  C12. Reconciliation observes and settles, for its owners only. It returns a result only when the
  caller is the repair or evidence owner, the pathway is of unknown outcome, completed or in repair,
  and the ledger knows the attempt as this request. A known stored result is returned without
  asking the observer; otherwise the observer is asked once, and the result is what it saw. A known
  outcome leaves a pathway of unknown outcome completed or in repair, with its event, and is the
  stored result of the attempt; an unresolved one, or one whose evidence the ledger refuses, is
  noted and moves nothing. Nothing is dispatched beyond what the observer itself did, and an error
  leaves pathways and dispatches as they were before, or as the observer left them.
\<close>

theorem reconcile_contract:
  "case reconcile cfg p q actor strat w of
     (Inl _, w') \<Rightarrow> not_reconciled cfg p q actor strat w w'
   | (Inr r, w') \<Rightarrow> reconciliation_done cfg p q actor strat r w w'"
  using wp_reconcile [of cfg p q actor strat w]
  by (cases "reconcile cfg p q actor strat w") (simp add: wp_def split: sum.splits)

end
