(* ===== verification/Rpr_Subprocess.thy ===== *)
theory Rpr_Subprocess
  imports Rpr_Channel Rpr_Identity "HOL-Library.Sublist"
begin

text \<open>
  \<open>mcp_local_subprocess_stdio.py\<close>: the owner of a local subprocess and its three pipes, which
  implements the two interfaces of \<open>Rpr_Channel\<close>, the duplex of the channel and the handle of the
  shutdown. The operating system is an argument; every call of it is recorded. The lemmas: what is
  started is what the arguments say, a stream ends once, and a shutdown releases everything.
\<close>

section \<open>The operating system\<close>

datatype pipe = PStdin | PStdout | PStderr

datatype os_call = OsWrite "nat list" | OsSelect | OsRead stdio_stream | OsUnregister stdio_stream
  | OsWait | OsTerminate | OsKill | OsCloseSelector | OsClosePipe pipe

text \<open>
  \<open>Popen\<close> says whether all three pipes are there; \<open>stdin.write\<close> returns a count or \<open>None\<close>;
  \<open>select\<close> gets the registered streams and returns the ready ones; a wait without a timeout is
  \<open>None\<close>, and a timeout of \<open>Popen.wait\<close> is a \<open>TimeoutExpired\<close>.
\<close>

record 'o os_ops =
  os_spawn :: "pystr list \<Rightarrow> (pystr \<times> pystr) list \<Rightarrow> pystr option \<Rightarrow> ('o, bool) py"
  os_write :: "nat list \<Rightarrow> ('o, int option) py"
  os_register :: "stdio_stream \<Rightarrow> ('o, unit) py"
  os_select :: "stdio_stream list \<Rightarrow> pfloat \<Rightarrow> ('o, stdio_stream list) py"
  os_read :: "stdio_stream \<Rightarrow> int \<Rightarrow> ('o, nat list) py"
  os_unregister :: "stdio_stream \<Rightarrow> ('o, unit) py"
  os_wait :: "pfloat option \<Rightarrow> ('o, int) py"
  os_terminate :: "('o, unit) py"
  os_kill :: "('o, unit) py"
  os_close_selector :: "('o, unit) py"
  os_close :: "pipe \<Rightarrow> ('o, unit) py"
  os_closed :: "pipe \<Rightarrow> 'o \<Rightarrow> bool"

section \<open>The arguments\<close>

definition argument_text :: "pv \<Rightarrow> pystr res" where
  "argument_text v = (case v of
       PStr s \<Rightarrow> (if s = [] \<or> 0 \<in> set s then err ValueError ''argv entries must be non-empty strings without NUL'' else Inr s)
     | _ \<Rightarrow> err ValueError ''argv entries must be non-empty strings without NUL'')"

fun arguments_text :: "pv list \<Rightarrow> pystr list res" where
  "arguments_text [] = Inr []"
| "arguments_text (v # vs) = rbind (argument_text v) (\<lambda>s. rbind (arguments_text vs) (\<lambda>ss. Inr (s # ss)))"

definition check_argv :: "pv \<Rightarrow> pystr list res" where
  "check_argv v = (case v of
       PList vs \<Rightarrow> (if vs = [] then err ValueError ''argv must be a non-empty sequence of strings'' else arguments_text vs)
     | PTuple vs \<Rightarrow> (if vs = [] then err ValueError ''argv must be a non-empty sequence of strings'' else arguments_text vs)
     | _ \<Rightarrow> err ValueError ''argv must be a non-empty sequence of strings'')"

text \<open>Environment names and values; 61 is the character \<open>=\<close>.\<close>

fun environment_pairs :: "pdict \<Rightarrow> (pystr \<times> pystr) list res" where
  "environment_pairs [] = Inr []"
| "environment_pairs ((k, v) # kvs) = rbind (case k of
       PStr s \<Rightarrow> (if s = [] \<or> 61 \<in> set s \<or> 0 \<in> set s
         then err ValueError ''environment names must be non-empty strings without '=' or NUL'' else Inr s)
     | _ \<Rightarrow> err ValueError ''environment names must be non-empty strings without '=' or NUL'') (\<lambda>name.
     rbind (case v of
       PStr s \<Rightarrow> (if 0 \<in> set s then err ValueError ''environment values must be strings without NUL'' else Inr s)
     | _ \<Rightarrow> err ValueError ''environment values must be strings without NUL'') (\<lambda>value.
     rbind (environment_pairs kvs) (\<lambda>r. Inr ((name, value) # r))))"

definition check_environment :: "pv \<Rightarrow> (pystr \<times> pystr) list res" where
  "check_environment v = (case v of PDict d \<Rightarrow> environment_pairs d | _ \<Rightarrow> err ValueError ''env must be a mapping of strings'')"

definition positive_number :: "float_env \<Rightarrow> pv \<Rightarrow> string \<Rightarrow> pfloat res" where
  "positive_number fe v name =
     rbind (case v of PInt i \<Rightarrow> int_float fe i | PFloat f \<Rightarrow> Inr f | _ \<Rightarrow> err ValueError (name @ '' must be a number'')) (\<lambda>f.
     if f \<noteq> FNan \<and> \<not> float_less (FFin 0) f then err ValueError (name @ '' must be positive'') else Inr f)"

definition positive_int :: "pv \<Rightarrow> string \<Rightarrow> int res" where
  "positive_int v name = (case v of PInt i \<Rightarrow> (if i \<le> 0 then err ValueError (name @ '' must be a positive integer'') else Inr i)
     | _ \<Rightarrow> err ValueError (name @ '' must be a positive integer''))"

section \<open>The channel over a process\<close>

text \<open>The constructors of \<open>McpStdioDiagnostics\<close> and \<open>McpStdioChannel\<close>; a \<open>bool\<close> is no limit.\<close>

definition make_collector :: "pv \<Rightarrow> diagnostics res" where
  "make_collector limit = (case limit of
       PInt n \<Rightarrow> (if n \<le> 0 then err ValueError ''max_bytes must be positive''
         else Inr \<lparr>max_diagnostic_bytes = nat n, diagnostic_buffer = [], truncated = False\<rparr>)
     | _ \<Rightarrow> err ValueError ''max_bytes must be an integer'')"

definition make_channel :: "'d \<Rightarrow> codec option \<Rightarrow> diagnostics option \<Rightarrow> pv \<Rightarrow> 'd channel res" where
  "make_channel d codec diagnostics limit = (case limit of
       PInt n \<Rightarrow>
         (if n \<le> 0 then err ValueError ''max_events_per_exchange must be positive''
          else rbind (case codec of Some c \<Rightarrow> Inr c | None \<Rightarrow> make_codec 1048576) (\<lambda>c.
            rbind (case diagnostics of Some g \<Rightarrow> Inr g | None \<Rightarrow> make_collector (PInt 65536)) (\<lambda>g.
              Inr \<lparr>duplex = d, chan_codec = c, chan_diagnostics = g, max_events = nat n, stdout_eof = False, stderr_eof = False,
                reads = 0, written = []\<rparr>)))
     | _ \<Rightarrow> err ValueError ''max_events_per_exchange must be an integer'')"

text \<open>A fresh channel with the default codec satisfies the invariant of the codec.\<close>

lemma make_channel_codec: "make_channel d None g limit = Inr ch \<Longrightarrow> codec_ok (chan_codec ch) \<and> 0 < max_events ch"
  by (auto simp: make_channel_def make_codec_def codec_ok_def rbind_eq_Inr split: pv.splits if_splits)

section \<open>The process\<close>

text \<open>\<open>os_calls\<close> records the calls of the operating system.\<close>

record 'o local_process =
  os_state :: 'o
  argv :: "pystr list"
  environ :: "(pystr \<times> pystr) list"
  workdir :: "pystr option"
  read_timeout :: pfloat
  read_size :: int
  registered :: "stdio_stream list"
  stdin_closed :: bool
  pipes_closed :: bool
  os_calls :: "os_call list"

text \<open>\<open>except Exception as exc: raise McpLocalSubprocessError(...)\<close>.\<close>

definition wrap_local :: "string \<Rightarrow> ('s, 'a) py \<Rightarrow> ('s, 'a) py" where
  "wrap_local what m = handle is_exception m (\<lambda>e. throw (Exn McpLocalSubprocessError (str what @ exn_text e)))"

definition stream_name :: "stdio_stream \<Rightarrow> string" where
  "stream_name st = (case st of Stdout \<Rightarrow> ''stdout'' | Stderr \<Rightarrow> ''stderr'')"

text \<open>A process that cannot be owned is killed and waited for.\<close>

definition discard_process :: "'o os_ops \<Rightarrow> exn \<Rightarrow> ('o, 'a) py" where
  "discard_process io e = seq (os_kill io) (seq (os_wait io None) (throw e))"

definition register_pipe :: "'o os_ops \<Rightarrow> stdio_stream \<Rightarrow> ('o, unit) py" where
  "register_pipe io st = handle is_exception (os_register io st) (\<lambda>e. discard_process io
     (Exn McpLocalSubprocessError (str (''failed to register local MCP subprocess '' @ stream_name st @ '': '') @ exn_text e)))"

definition open_pipes :: "'o os_ops \<Rightarrow> pystr list \<Rightarrow> (pystr \<times> pystr) list \<Rightarrow> pystr option \<Rightarrow> ('o, unit) py" where
  "open_pipes io args env cwd =
     bnd (wrap_local ''failed to spawn local MCP subprocess: '' (os_spawn io args env cwd)) (\<lambda>all_pipes.
     if \<not> all_pipes
     then discard_process io (Exn McpLocalSubprocessError (str ''local MCP subprocess did not expose all stdio pipes''))
     else seq (register_pipe io Stdout) (register_pipe io Stderr))"

text \<open>\<open>__init__\<close>, from the state of the operating system.\<close>

definition start_process :: "float_env \<Rightarrow> 'o os_ops \<Rightarrow> pv \<Rightarrow> pv \<Rightarrow> pystr option \<Rightarrow> pv \<Rightarrow> pv
    \<Rightarrow> 'o \<Rightarrow> 'o local_process res \<times> 'o" where
  "start_process fe io args env cwd timeout nbytes = (\<lambda>s.
     case rbind (check_argv args) (\<lambda>a. rbind (check_environment env) (\<lambda>e.
       rbind (positive_number fe timeout ''read_timeout_seconds'') (\<lambda>t.
       rbind (positive_int nbytes ''read_size'') (\<lambda>n. Inr (a, e, t, n))))) of
       Inl e \<Rightarrow> (Inl e, s)
     | Inr (a, e, t, n) \<Rightarrow> (case open_pipes io a e cwd s of
         (Inl x, s') \<Rightarrow> (Inl x, s')
       | (Inr u, s') \<Rightarrow> (Inr \<lparr>os_state = s', argv = a, environ = e, workdir = cwd, read_timeout = t, read_size = n,
           registered = [Stdout, Stderr], stdin_closed = False, pipes_closed = False, os_calls = []\<rparr>, s')))"

definition call_os :: "os_call \<Rightarrow> ('o, 'a) py \<Rightarrow> ('o local_process, 'a) py" where
  "call_os c m = (\<lambda>s. zoom os_state (\<lambda>v s. s\<lparr>os_state := v\<rparr>) m (s\<lparr>os_calls := os_calls s @ [c]\<rparr>))"

definition local_write :: "'o os_ops \<Rightarrow> nat list \<Rightarrow> ('o local_process, pv) py" where
  "local_write io bytes = (\<lambda>s. if stdin_closed s \<or> os_closed io PStdin (os_state s)
     then (err BrokenPipeError ''local MCP subprocess stdin is closed'', s)
     else if bytes = [] then (err McpLocalSubprocessError ''stdin write requires non-empty bytes'', s)
     else bnd (wrap_local ''local MCP subprocess stdin write failed: '' (call_os (OsWrite bytes) (os_write io bytes))) (\<lambda>n.
       case n of None \<Rightarrow> raise McpLocalSubprocessError ''local MCP subprocess stdin write returned no count''
       | Some k \<Rightarrow> ret (PInt k)) s)"

definition drop_stream :: "'o os_ops \<Rightarrow> stdio_stream \<Rightarrow> ('o local_process, unit) py" where
  "drop_stream io st = seq (call_os (OsUnregister st) (os_unregister io st))
     (\<lambda>s. (Inr (), s\<lparr>registered := removeAll st (registered s)\<rparr>))"

definition read_ready :: "'o os_ops \<Rightarrow> int \<Rightarrow> stdio_stream \<Rightarrow> ('o local_process, stdio_event option) py" where
  "read_ready io n st =
     bnd (wrap_local (''local MCP subprocess '' @ stream_name st @ '' read failed: '') (call_os (OsRead st) (os_read io st n))) (\<lambda>bytes.
     if bytes \<noteq> [] then bnd (lift (make_event_record st bytes False)) (\<lambda>e. ret (Some e))
     else seq (drop_stream io st) (bnd (lift (make_event_record st [] True)) (\<lambda>e. ret (Some e))))"

definition local_read :: "'o os_ops \<Rightarrow> ('o local_process, stdio_event option) py" where
  "local_read io = (\<lambda>s. if pipes_closed s then (err McpLocalSubprocessError ''local MCP subprocess pipes are closed'', s)
     else bnd (call_os OsSelect (os_select io (registered s) (read_timeout s))) (\<lambda>ready. case ready of
         [] \<Rightarrow> raise TimeoutError ''local MCP subprocess stdio read timed out''
       | st # _ \<Rightarrow> read_ready io (read_size s) st) s)"

definition local_close_stdin :: "'o os_ops \<Rightarrow> ('o local_process, unit) py" where
  "local_close_stdin io = (\<lambda>s. if stdin_closed s then (Inr (), s)
     else wrap_local ''failed to close local MCP subprocess stdin: '' (call_os (OsClosePipe PStdin) (os_close io PStdin))
       (s\<lparr>stdin_closed := True\<rparr>))"

definition timed_out :: "exn \<Rightarrow> bool" where
  "timed_out e \<longleftrightarrow> exn_kind e = OtherException (str ''TimeoutExpired'')"

definition local_wait :: "float_env \<Rightarrow> 'o os_ops \<Rightarrow> pv \<Rightarrow> ('o local_process, int) py" where
  "local_wait fe io timeout =
     bnd (lift (positive_number fe timeout ''timeout_seconds'')) (\<lambda>t.
     handle is_exception (call_os OsWait (os_wait io (Some t)))
       (\<lambda>e. if timed_out e then raise TimeoutError ''local MCP subprocess wait timed out''
         else throw (Exn McpLocalSubprocessError (str ''local MCP subprocess wait failed: '' @ exn_text e))))"

definition local_terminate :: "'o os_ops \<Rightarrow> ('o local_process, unit) py" where
  "local_terminate io = wrap_local ''local MCP subprocess terminate failed: '' (call_os OsTerminate (os_terminate io))"

definition local_kill :: "'o os_ops \<Rightarrow> ('o local_process, unit) py" where
  "local_kill io = wrap_local ''local MCP subprocess kill failed: '' (call_os OsKill (os_kill io))"

text \<open>Closing one of the resources: the text of its error, if any.\<close>

definition try_close :: "string \<Rightarrow> ('s, unit) py \<Rightarrow> ('s, pystr list) py" where
  "try_close name m = handle is_exception (seq m (ret [])) (\<lambda>e. ret [str (name @ '': '') @ exn_text e])"

definition close_pipe :: "'o os_ops \<Rightarrow> string \<Rightarrow> pipe \<Rightarrow> ('o local_process, pystr list) py" where
  "close_pipe io name p = (\<lambda>s. if os_closed io p (os_state s) then (Inr [], s)
     else try_close name (call_os (OsClosePipe p) (os_close io p)) s)"

fun join_texts :: "pystr list \<Rightarrow> pystr" where
  "join_texts [] = []"
| "join_texts [t] = t"
| "join_texts (t # ts) = t @ str ''; '' @ join_texts ts"

definition local_close_pipes :: "'o os_ops \<Rightarrow> ('o local_process, unit) py" where
  "local_close_pipes io = (\<lambda>s. if pipes_closed s then (Inr (), s)
     else bnd (try_close ''selector'' (call_os OsCloseSelector (os_close_selector io))) (\<lambda>a.
       bnd (close_pipe io ''stdin'' PStdin) (\<lambda>b.
       bnd (close_pipe io ''stdout'' PStdout) (\<lambda>c.
       bnd (close_pipe io ''stderr'' PStderr) (\<lambda>d.
       if a @ b @ c @ d = [] then ret ()
       else throw (Exn McpLocalSubprocessError (str ''failed to close local MCP subprocess pipes: '' @ join_texts (a @ b @ c @ d)))))))
       (s\<lparr>pipes_closed := True\<rparr>))"

section \<open>The two interfaces\<close>

definition local_duplex :: "'o os_ops \<Rightarrow> 'o local_process adapter" where
  "local_duplex io = \<lparr>write_stdin = local_write io, read_event = local_read io\<rparr>"

definition local_handle :: "float_env \<Rightarrow> 'o os_ops \<Rightarrow> 'o local_process handle" where
  "local_handle fe io = \<lparr>close_stdin = local_close_stdin io,
     wait = (\<lambda>t. bnd (local_wait fe io (PFloat (FFin t))) (\<lambda>c. ret (PInt c))),
     terminate = local_terminate io, kill = local_kill io, close_pipes = local_close_pipes io\<rparr>"

section \<open>A stream ends once\<close>

text \<open>What \<open>select\<close> promises: only registered streams are ready.\<close>

definition select_ok :: "'o os_ops \<Rightarrow> bool" where
  "select_ok io \<longleftrightarrow> (\<forall>sts t v. case os_select io sts t v of (Inr ready, _) \<Rightarrow> set ready \<subseteq> set sts | _ \<Rightarrow> True)"

text \<open>A history of a process: any operations, and the events that its reads returned.\<close>

inductive history :: "float_env \<Rightarrow> 'o os_ops \<Rightarrow> 'o local_process \<Rightarrow> stdio_event list \<Rightarrow> 'o local_process \<Rightarrow> bool"
  for fe io s where
  start: "history fe io s [] s"
| event: "history fe io s es t \<Longrightarrow> local_read io t = (Inr (Some e), u) \<Longrightarrow> history fe io s (es @ [e]) u"
| no_event: "history fe io s es t \<Longrightarrow> local_read io t = (Inl x, u) \<Longrightarrow> history fe io s es u"
| wrote: "history fe io s es t \<Longrightarrow> local_write io bytes t = (r, u) \<Longrightarrow> history fe io s es u"
| closed: "history fe io s es t \<Longrightarrow> local_close_stdin io t = (r, u) \<Longrightarrow> history fe io s es u"
| waited: "history fe io s es t \<Longrightarrow> local_wait fe io timeout t = (c, u) \<Longrightarrow> history fe io s es u"
| terminated: "history fe io s es t \<Longrightarrow> local_terminate io t = (r, u) \<Longrightarrow> history fe io s es u"
| killed: "history fe io s es t \<Longrightarrow> local_kill io t = (r, u) \<Longrightarrow> history fe io s es u"
| released: "history fe io s es t \<Longrightarrow> local_close_pipes io t = (r, u) \<Longrightarrow> history fe io s es u"

text \<open>One call of the operating system.\<close>

definition called :: "os_call \<Rightarrow> 'o local_process \<Rightarrow> 'o local_process \<Rightarrow> bool" where
  "called c s t \<longleftrightarrow> registered t = registered s \<and> stdin_closed t = stdin_closed s
     \<and> pipes_closed t = pipes_closed s \<and> os_calls t = os_calls s @ [c]"

lemma wp_call_os:
  assumes "\<And>a t. called c s t \<Longrightarrow> m (os_state s) = (Inr a, os_state t) \<Longrightarrow> Q a t" "\<And>e t. called c s t \<Longrightarrow> E e t"
  shows "wp (call_os c m) Q E s"
  unfolding call_os_def by (rule wpI) (auto simp: zoom_def called_def split: prod.splits intro: assms)

lemma wp_wrap_local:
  "wp (wrap_local what m) Q E s \<longleftrightarrow>
     wp m Q (\<lambda>e t. if is_exception e then E (Exn McpLocalSubprocessError (str what @ exn_text e)) t else E e t) s"
  by (simp add: wrap_local_def wp)

text \<open>What a read does to the registered streams.\<close>

lemma wp_local_read:
  assumes "select_ok io"
  shows "wp (local_read io) (\<lambda>e t. \<exists>ev. e = Some ev \<and> stream ev \<in> set (registered s)
       \<and> registered t = (if eof ev then removeAll (stream ev) (registered s) else registered s))
     (\<lambda>_ t. registered t = registered s) s" (is "wp _ ?Q ?E s")
proof -
  have ended: "wp (seq (drop_stream io st) (bnd (lift (make_event_record st [] True)) (\<lambda>e. ret (Some e)))) ?Q ?E t"
    if "registered t = registered s" "st \<in> set (registered s)" for st t
    unfolding wp(7) drop_stream_def wp(4,6)
    by (rule wp_call_os) (use that in \<open>auto simp: called_def wp_def make_event_record_def lift_def bnd_def\<close>)
  have chunk: "wp (read_ready io n st) ?Q ?E t"
    if "registered t = registered s" "st \<in> set (registered s)" for st n t
    unfolding read_ready_def wp(6) wp_wrap_local
    by (rule wp_call_os) (use that ended in \<open>auto simp: called_def wp make_event_record_def\<close>)
  have "wp (bnd (call_os OsSelect (os_select io (registered s) (read_timeout s))) (\<lambda>ready. case ready of
         [] \<Rightarrow> raise TimeoutError ''local MCP subprocess stdio read timed out''
       | st # _ \<Rightarrow> read_ready io (read_size s) st)) ?Q ?E s"
    unfolding wp(6)
  proof (rule wp_call_os)
    fix ready and t :: "'a local_process"
    assume t: "called OsSelect s t" "os_select io (registered s) (read_timeout s) (os_state s) = (Inr ready, os_state t)"
    with assms have "set ready \<subseteq> set (registered s)" unfolding select_ok_def by (force split: prod.splits sum.splits)
    with t(1) chunk show "wp (case ready of
         [] \<Rightarrow> raise TimeoutError ''local MCP subprocess stdio read timed out''
       | st # _ \<Rightarrow> read_ready io (read_size s) st) ?Q ?E t"
      by (cases ready) (simp_all add: called_def wp(3))
  qed (simp add: called_def)
  then show ?thesis by (simp add: local_read_def wp_def)
qed

text \<open>The calls of the other operations, whether they return or raise.\<close>

definition effect :: "os_call list \<Rightarrow> bool \<Rightarrow> bool \<Rightarrow> 'o local_process \<Rightarrow> 'o local_process \<Rightarrow> bool" where
  "effect cs a b s t \<longleftrightarrow> registered t = registered s \<and> os_calls t = os_calls s @ cs \<and> stdin_closed t = a \<and> pipes_closed t = b"

lemma effect_called: "called c s t \<Longrightarrow> effect [c] (stdin_closed s) (pipes_closed s) s t"
  by (simp add: effect_def called_def)

definition touched :: "'o local_process \<Rightarrow> 'o local_process \<Rightarrow> bool" where
  "touched s t \<longleftrightarrow> (\<exists>cs. effect cs (stdin_closed s) (pipes_closed s) s t)"

lemma effect_touched: "effect cs (stdin_closed s) (pipes_closed s) s t \<Longrightarrow> touched s t"
  by (auto simp: touched_def)

lemma wp_local_write:
  "wp (local_write io bytes) (\<lambda>_ t. touched s t)
     (\<lambda>_ t. touched s t) s"
proof -
  have idle: "touched s s" by (simp add: touched_def effect_def)
  have "wp (bnd (wrap_local ''local MCP subprocess stdin write failed: '' (call_os (OsWrite bytes) (os_write io bytes))) (\<lambda>n.
       case n of None \<Rightarrow> raise McpLocalSubprocessError ''local MCP subprocess stdin write returned no count''
       | Some k \<Rightarrow> ret (PInt k))) (\<lambda>_ t. touched s t)
     (\<lambda>_ t. touched s t) s"
    unfolding wp(6) wp_wrap_local
    by (rule wp_call_os) (auto dest!: effect_called effect_touched simp: wp split: option.split)
  with idle show ?thesis by (simp add: local_write_def wp_def)
qed

lemma wp_local_close_stdin:
  "wp (local_close_stdin io) (\<lambda>_ t. effect (if stdin_closed s then [] else [OsClosePipe PStdin]) True (pipes_closed s) s t)
     (\<lambda>_ t. effect (if stdin_closed s then [] else [OsClosePipe PStdin]) True (pipes_closed s) s t) s"
proof (cases "stdin_closed s")
  case False
  have "wp (wrap_local what (call_os (OsClosePipe PStdin) (os_close io PStdin)))
      (\<lambda>_ t. effect [OsClosePipe PStdin] True (pipes_closed s) s t)
      (\<lambda>_ t. effect [OsClosePipe PStdin] True (pipes_closed s) s t) (s\<lparr>stdin_closed := True\<rparr>)" for what
    unfolding wp_wrap_local by (rule wp_call_os) (auto simp: called_def effect_def)
  with False show ?thesis by (simp add: local_close_stdin_def wp_def)
qed (simp add: local_close_stdin_def wp_def effect_def)

lemma wp_local_wait:
  "wp (local_wait fe io v) (\<lambda>_ t. touched s t)
     (\<lambda>_ t. touched s t) s"
  "0 < q \<Longrightarrow> wp (local_wait fe io (PFloat (FFin q))) (\<lambda>_ t. effect [OsWait] (stdin_closed s) (pipes_closed s) s t)
     (\<lambda>_ t. effect [OsWait] (stdin_closed s) (pipes_closed s) s t) s"
proof -
  have idle: "touched s s" by (simp add: touched_def effect_def)
  have wait: "wp (handle is_exception (call_os OsWait m)
       (\<lambda>e. if timed_out e then raise TimeoutError x else throw (Exn McpLocalSubprocessError (y @ exn_text e))))
     (\<lambda>_ t. effect [OsWait] (stdin_closed s) (pipes_closed s) s t)
     (\<lambda>_ t. effect [OsWait] (stdin_closed s) (pipes_closed s) s t) s" for m :: "('a, int) py" and x y
    unfolding wp by (rule wp_call_os) (auto dest!: effect_called simp: wp)
  then show "wp (local_wait fe io v) (\<lambda>_ t. touched s t)
     (\<lambda>_ t. touched s t) s"
    unfolding local_wait_def wp(6) wp(4) using idle by (auto intro: wp_mono [OF wait] effect_touched split: sum.split)
  show "wp (local_wait fe io (PFloat (FFin q))) (\<lambda>_ t. effect [OsWait] (stdin_closed s) (pipes_closed s) s t)
     (\<lambda>_ t. effect [OsWait] (stdin_closed s) (pipes_closed s) s t) s" if "0 < q"
    unfolding local_wait_def wp(6) wp(4) using that wait by (simp add: positive_number_def)
qed

lemma wp_local_signals:
  "wp (local_terminate io) (\<lambda>_ t. effect [OsTerminate] (stdin_closed s) (pipes_closed s) s t)
     (\<lambda>_ t. effect [OsTerminate] (stdin_closed s) (pipes_closed s) s t) s"
  "wp (local_kill io) (\<lambda>_ t. effect [OsKill] (stdin_closed s) (pipes_closed s) s t)
     (\<lambda>_ t. effect [OsKill] (stdin_closed s) (pipes_closed s) s t) s"
  unfolding local_terminate_def local_kill_def wp_wrap_local
  by (rule wp_call_os; auto dest!: effect_called)+

text \<open>
  Closing, on the state of the operating system: every pipe that it does not report closed is
  closed, in order, whatever the closing answers.
\<close>

primrec release :: "'o os_ops \<Rightarrow> pipe list \<Rightarrow> 'o \<Rightarrow> os_call list \<times> 'o" where
  "release io [] v = ([], v)"
| "release io (p # ps) v = (if os_closed io p v then release io ps v
     else (case release io ps (snd (os_close io p v)) of (cs, u) \<Rightarrow> (OsClosePipe p # cs, u)))"

lemma release_snoc:
  "release io (ps @ [p]) v = (case release io ps v of (cs, u) \<Rightarrow>
     if os_closed io p u then (cs, u) else (cs @ [OsClosePipe p], snd (os_close io p u)))"
  by (induction ps arbitrary: v) (auto split: prod.splits)

lemma wp_try_close:
  "wp (try_close name (call_os c m))
     (\<lambda>_ t. effect [c] (stdin_closed s) (pipes_closed s) s t \<and> os_state t = snd (m (os_state s)))
     (\<lambda>e t. registered t = registered s \<and> \<not> is_exception e) s"
  by (cases "m (os_state s)"; cases "fst (m (os_state s))")
    (auto simp: try_close_def handle_def seq_def bnd_def call_os_def zoom_def wp_def effect_def ret_def)

lemma effect_step: "effect cs a b s t \<Longrightarrow> effect ds (stdin_closed t) (pipes_closed t) t u \<Longrightarrow> effect (cs @ ds) a b s u"
  by (simp add: effect_def)

text \<open>The selector and these pipes are closed.\<close>

definition closing_pipes :: "'o os_ops \<Rightarrow> pipe list \<Rightarrow> 'o local_process \<Rightarrow> 'o local_process \<Rightarrow> bool" where
  "closing_pipes io ps s t \<longleftrightarrow> (case release io ps (snd (os_close_selector io (os_state s))) of (cs, v) \<Rightarrow>
     effect (OsCloseSelector # cs) (stdin_closed s) True s t \<and> os_state t = v)"

lemma closing_registered: "closing_pipes io ps s t \<Longrightarrow> registered t = registered s"
  by (auto simp: closing_pipes_def effect_def split: prod.splits)

lemma wp_closing:
  assumes "closing_pipes io ps s t"
  shows "wp (close_pipe io name p) (\<lambda>_. closing_pipes io (ps @ [p]) s)
    (\<lambda>e u. registered u = registered s \<and> \<not> is_exception e) t"
proof -
  obtain cs v where r: "release io ps (snd (os_close_selector io (os_state s))) = (cs, v)" by fastforce
  with assms have t: "effect (OsCloseSelector # cs) (stdin_closed s) True s t" "os_state t = v"
    by (simp_all add: closing_pipes_def)
  show ?thesis
  proof (cases "os_closed io p v")
    case True
    with r t show ?thesis by (simp add: close_pipe_def wp_def closing_pipes_def release_snoc)
  next
    case False
    have "closing_pipes io (ps @ [p]) s u"
      if "effect [OsClosePipe p] (stdin_closed t) (pipes_closed t) t u \<and> os_state u = snd (os_close io p (os_state t))" for u
      using that effect_step [OF t(1), of "[OsClosePipe p]" u] r t(2) False
      by (simp add: closing_pipes_def release_snoc)
    then have "wp (try_close name (call_os (OsClosePipe p) (os_close io p))) (\<lambda>_. closing_pipes io (ps @ [p]) s)
        (\<lambda>e u. registered u = registered s \<and> \<not> is_exception e) t"
      by (intro wp_mono [OF wp_try_close]) (use t(1) in \<open>auto simp: effect_def\<close>)
    with False t(2) show ?thesis by (simp add: close_pipe_def wp_def)
  qed
qed

lemma wp_local_close_pipes:
  assumes "\<not> pipes_closed s"
  shows "wp (local_close_pipes io) (\<lambda>_. closing_pipes io [PStdin, PStdout, PStderr] s)
     (\<lambda>e t. registered t = registered s \<and> (is_exception e \<longrightarrow> closing_pipes io [PStdin, PStdout, PStderr] s t)) s"
proof -
  let ?Q = "\<lambda>_. closing_pipes io [PStdin, PStdout, PStderr] s"
  let ?E = "\<lambda>e t. registered t = registered s \<and> (is_exception e \<longrightarrow> closing_pipes io [PStdin, PStdout, PStderr] s t)"
  have third: "wp (bnd (close_pipe io ''stderr'' PStderr) (\<lambda>d. if a @ b @ c @ d = [] then ret () else throw (x d))) ?Q ?E t"
    if "closing_pipes io [PStdin, PStdout] s t" for a b c x t
    unfolding wp(6)
    by (rule wp_mono [OF wp_closing [OF that]]) (auto simp: wp dest: closing_registered)
  have second: "wp (bnd (close_pipe io ''stdout'' PStdout) (\<lambda>c. bnd (close_pipe io ''stderr'' PStderr) (\<lambda>d.
      if a @ b @ c @ d = [] then ret () else throw (x c d)))) ?Q ?E t"
    if "closing_pipes io [PStdin] s t" for a b x t
    unfolding wp(6) [of "close_pipe io ''stdout'' PStdout"]
    by (rule wp_mono [OF wp_closing [OF that]]) (auto simp del: append_is_Nil_conv intro: third)
  have first: "wp (bnd (close_pipe io ''stdin'' PStdin) (\<lambda>b. bnd (close_pipe io ''stdout'' PStdout) (\<lambda>c.
      bnd (close_pipe io ''stderr'' PStderr) (\<lambda>d. if a @ b @ c @ d = [] then ret () else throw (x b c d))))) ?Q ?E t"
    if "closing_pipes io [] s t" for a x t
    unfolding wp(6) [of "close_pipe io ''stdin'' PStdin"]
    by (rule wp_mono [OF wp_closing [OF that]]) (auto simp del: append_is_Nil_conv intro: second)
  have selector: "closing_pipes io [] s t"
    if "effect [OsCloseSelector] (stdin_closed s) True (s\<lparr>pipes_closed := True\<rparr>) t"
      "os_state t = snd (os_close_selector io (os_state s))" for t
    using that by (simp add: closing_pipes_def effect_def)
  have "wp (bnd (try_close ''selector'' (call_os OsCloseSelector (os_close_selector io))) (\<lambda>a.
      bnd (close_pipe io ''stdin'' PStdin) (\<lambda>b. bnd (close_pipe io ''stdout'' PStdout) (\<lambda>c.
      bnd (close_pipe io ''stderr'' PStderr) (\<lambda>d. if a @ b @ c @ d = [] then ret () else throw (x a b c d)))))) ?Q ?E
      (s\<lparr>pipes_closed := True\<rparr>)" for x
    unfolding wp(6) [of "try_close ''selector'' m" for m]
    by (rule wp_mono [OF wp_try_close]) (auto simp del: append_is_Nil_conv intro: first selector)
  with assms show ?thesis by (simp add: local_close_pipes_def wp_def)
qed

lemma local_close_pipes_registered:
  "local_close_pipes io t = (r, u) \<Longrightarrow> registered u = registered t"
  using wp_local_close_pipes [of t io]
  by (cases "pipes_closed t"; cases r) (auto simp: wp_def local_close_pipes_def dest: closing_registered)

text \<open>
  What the documentation of Python's files and pipes says of \<open>close\<close>: the pipe is closed
  afterwards, also when a flush failed, and no other pipe is touched.
\<close>

definition pipes_apart :: "'o os_ops \<Rightarrow> bool" where
  "pipes_apart io \<longleftrightarrow> (\<forall>p v. os_closed io p (snd (os_close io p v)))
     \<and> (\<forall>p q v. p \<noteq> q \<longrightarrow> os_closed io p (snd (os_close io q v)) = os_closed io p v)"

lemma release_apart:
  assumes "pipes_apart io" "distinct ps"
  shows "fst (release io ps v) = map OsClosePipe (filter (\<lambda>p. \<not> os_closed io p v) ps)"
    "os_closed io p (snd (release io ps v)) \<longleftrightarrow> os_closed io p v \<or> p \<in> set ps"
proof -
  have "fst (release io ps v) = map OsClosePipe (filter (\<lambda>p. \<not> os_closed io p v) ps)
      \<and> (\<forall>p. os_closed io p (snd (release io ps v)) \<longleftrightarrow> os_closed io p v \<or> p \<in> set ps)"
    using assms(2)
  proof (induction ps arbitrary: v)
    case (Cons q ps)
    show ?case
    proof (cases "os_closed io q v")
      case True
      with Cons.IH [of v] Cons.prems show ?thesis by auto
    next
      case False
      let ?v = "snd (os_close io q v)"
      from assms(1) have v: "os_closed io p ?v \<longleftrightarrow> os_closed io p v \<or> p = q" for p
        by (cases "p = q") (auto simp: pipes_apart_def)
      have "filter (\<lambda>p. \<not> os_closed io p ?v) ps = filter (\<lambda>p. \<not> os_closed io p v) ps"
        using Cons.prems by (intro filter_cong) (auto simp: v)
      with Cons.IH [of ?v] Cons.prems False v show ?thesis by (auto split: prod.split)
    qed
  qed simp
  then show "fst (release io ps v) = map OsClosePipe (filter (\<lambda>p. \<not> os_closed io p v) ps)"
    "os_closed io p (snd (release io ps v)) \<longleftrightarrow> os_closed io p v \<or> p \<in> set ps" by blast+
qed

section \<open>The shutdown of a local process\<close>

definition call_of :: "handle_op \<Rightarrow> os_call list" where
  "call_of c = (case c of CloseStdin \<Rightarrow> [OsClosePipe PStdin] | Wait \<Rightarrow> [OsWait] | Terminate \<Rightarrow> [OsTerminate]
     | Kill \<Rightarrow> [OsKill] | ClosePipes \<Rightarrow> [])"

text \<open>After stdin was closed, the calls are those of the operations.\<close>

definition linked :: "'o local_process lifecycle \<Rightarrow> bool" where
  "linked t \<longleftrightarrow> os_calls (process t) = concat (map call_of (handle_ops t)) \<and> handle_ops t \<noteq> []
     \<and> stdin_closed (process t) \<and> \<not> pipes_closed (process t)
     \<and> 0 < graceful_timeout t \<and> 0 < terminate_timeout t \<and> 0 < kill_timeout t"

lemma wp_in_process:
  "wp (in_process c m) Q E s \<longleftrightarrow> wp m (\<lambda>a h. Q a (s\<lparr>handle_ops := handle_ops s @ [c], process := h\<rparr>))
     (\<lambda>e h. E e (s\<lparr>handle_ops := handle_ops s @ [c], process := h\<rparr>)) (process s)"
  by (auto simp: in_process_def wp_def zoom_def split: prod.splits sum.splits)

lemma linked_step:
  "linked s \<Longrightarrow> effect (call_of c) (stdin_closed (process s)) (pipes_closed (process s)) (process s) h \<Longrightarrow>
     linked (s\<lparr>handle_ops := handle_ops s @ [c], process := h\<rparr>)"
  by (simp add: linked_def effect_def)

lemma keeps_linked_signals:
  "keeps linked (call_handle label Terminate (terminate (local_handle fe io)))"
  "keeps linked (call_handle label Kill (kill (local_handle fe io)))"
  unfolding keeps_wp call_handle_def wp wp_in_process
  by (auto simp: local_handle_def wp call_of_def intro!: linked_step wp_mono [OF wp_local_signals(1)] wp_mono [OF wp_local_signals(2)])

lemma keeps_linked_wait:
  assumes "\<And>t. linked t \<Longrightarrow> 0 < timeout t"
  shows "keeps linked (wait_exit (local_handle fe io) timeout)"
  unfolding keeps_wp
proof (intro allI impI)
  fix s :: "'a local_process lifecycle" assume s: "linked s"
  have "wp (in_process Wait (wait (local_handle fe io) (timeout s))) (\<lambda>_. linked) (\<lambda>_. linked) s"
    unfolding wp_in_process local_handle_def handle.simps wp(6)
    by (rule wp_mono [OF wp_local_wait(2) [OF assms [OF s]]]) (auto simp: wp call_of_def intro!: linked_step [OF s])
  then have "wp (bnd (handle (\<lambda>e. is_exception e \<and> \<not> catches [TimeoutError] e)
       (in_process Wait (wait (local_handle fe io) (timeout s)))
       (\<lambda>e. throw (Exn McpProcessLifecycleError (str ''MCP process wait failed''))))
     (\<lambda>v. case v of PInt c \<Rightarrow> ret c
        | _ \<Rightarrow> raise McpProcessLifecycleError ''MCP process wait returned a non-integer exit code''))
     (\<lambda>_. linked) (\<lambda>_. linked) s"
    unfolding wp by (rule wp_mono) (auto simp: wp split: pv.split)
  then show "wp (wait_exit (local_handle fe io) timeout) (\<lambda>_. linked) (\<lambda>_. linked) s"
    by (simp add: wait_exit_def wp_def)
qed

lemma linked_stop:
  assumes "handle_ops s = []" "os_calls (process s) = []" "\<not> stdin_closed (process s)" "\<not> pipes_closed (process s)"
    "0 < graceful_timeout s" "0 < terminate_timeout s" "0 < kill_timeout s"
  shows "linked (snd (stop_process (local_handle fe io) s))"
proof -
  let ?h = "local_handle fe io"
  have waits: "keeps linked (wait_exit ?h graceful_timeout)" "keeps linked (wait_exit ?h terminate_timeout)"
    "keeps linked (wait_exit ?h kill_timeout)"
    by (rule keeps_linked_wait, simp add: linked_def)+
  have "wp (call_handle ''close stdin'' CloseStdin (close_stdin ?h)) (\<lambda>_. linked) (\<lambda>_. linked) s"
    unfolding call_handle_def wp wp_in_process local_handle_def handle.simps
    by (rule wp_mono [OF wp_local_close_stdin])
      (use assms in \<open>auto simp: wp linked_def effect_def call_of_def\<close>)
  then have "wp (stop_process ?h) (\<lambda>_. linked) (\<lambda>_. linked) s"
    unfolding stop_process_def wp(7) [of "call_handle ''close stdin'' CloseStdin (close_stdin ?h)"]
  proof (rule wp_mono)
    fix u :: "'a local_process lifecycle" assume "linked u"
    moreover have "keeps linked (handle (catches [TimeoutError])
       (bnd (wait_exit ?h graceful_timeout)
         (\<lambda>c. ret \<lparr>exit_code = c, graceful = True, terminated = False, killed = False\<rparr>))
       (\<lambda>_. seq (call_handle ''terminate process'' Terminate (terminate ?h))
         (handle (catches [TimeoutError])
           (bnd (wait_exit ?h terminate_timeout)
             (\<lambda>c. ret \<lparr>exit_code = c, graceful = False, terminated = True, killed = False\<rparr>))
           (\<lambda>_. seq (call_handle ''kill process'' Kill (kill ?h))
             (bnd (handle (catches [TimeoutError]) (wait_exit ?h kill_timeout)
                 (\<lambda>_. raise McpProcessLifecycleError ''MCP process did not exit after kill''))
               (\<lambda>c. ret \<lparr>exit_code = c, graceful = False, terminated = True, killed = True\<rparr>))))))" (is "keeps _ ?m")
      by (intro keeps_intros waits keeps_linked_signals)
    ultimately show "wp ?m (\<lambda>_. linked) (\<lambda>_. linked) u" by (simp add: keeps_wp)
  qed
  then show ?thesis by (cases "stop_process ?h s") (auto simp: wp_def split: sum.splits)
qed

section \<open>Properties\<close>

text \<open>A process whose output is a list of chunks, on an operating system that does what it is asked.\<close>

definition demo_os :: "nat list list os_ops" where
  "demo_os = \<lparr>os_spawn = (\<lambda>_ _ _. ret True), os_write = (\<lambda>bs. ret (Some (int (length bs)))), os_register = (\<lambda>_. ret ()),
     os_select = (\<lambda>sts _. ret (take 1 sts)),
     os_read = (\<lambda>_ _ v. case v of [] \<Rightarrow> (Inr [], []) | c # cs \<Rightarrow> (Inr c, cs)),
     os_unregister = (\<lambda>_. ret ()), os_wait = (\<lambda>_. ret 0), os_terminate = ret (), os_kill = ret (),
     os_close_selector = ret (), os_close = (\<lambda>_. ret ()), os_closed = (\<lambda>_ _. False)\<rparr>"

definition demo_process :: "nat list list local_process" where
  "demo_process = \<lparr>os_state = [[97]], argv = [str ''p''], environ = [], workdir = None, read_timeout = FFin 5,
     read_size = 65536, registered = [Stdout, Stderr], stdin_closed = False, pipes_closed = False, os_calls = []\<rparr>"

text \<open>
  A stream of a local process ends once: whatever is done with the process, after the event that
  says that a stream has ended no event of that stream is read.
\<close>

theorem stream_ends_once:
  assumes "select_ok io" "history fe io s es t"
  shows "sorted_wrt (\<lambda>e f. eof e \<longrightarrow> stream f \<noteq> stream e) es"
proof -
  have "sorted_wrt (\<lambda>e f. eof e \<longrightarrow> stream f \<noteq> stream e) es \<and> (\<forall>e \<in> set es. eof e \<longrightarrow> stream e \<notin> set (registered t))"
    using assms(2)
  proof induction
    case (event es t e u)
    from wp_local_read [OF assms(1), of t] event(2) have "stream e \<in> set (registered t)"
      "registered u = (if eof e then removeAll (stream e) (registered t) else registered t)"
      by (auto simp: wp_def)
    with event(3) show ?case by (auto simp: sorted_wrt_append)
  next
    case (no_event es t x u)
    from wp_local_read [OF assms(1), of t] no_event(2) have "registered u = registered t" by (auto simp: wp_def)
    with no_event(3) show ?case by simp
  next
    case (closed es t r u)
    from wp_local_close_stdin [of io t] closed(2) have "registered u = registered t"
      by (cases r) (auto simp: wp_def effect_def)
    with closed(3) show ?case by simp
  next
    case (released es t r u)
    from local_close_pipes_registered [OF released(2)] have "registered u = registered t" .
    with released(3) show ?case by simp
  next
    case (terminated es t r u)
    with wp_local_signals(1) [of io t] show ?case by (cases r) (auto simp: wp_def effect_def)
  next
    case (killed es t r u)
    with wp_local_signals(2) [of io t] show ?case by (cases r) (auto simp: wp_def effect_def)
  next
    case (wrote es t bytes r u)
    with wp_local_write [of io bytes t] show ?case by (cases r) (auto simp: wp_def touched_def effect_def)
  next
    case (waited es t timeout c u)
    with wp_local_wait(1) [of fe io timeout t] show ?case by (cases c) (auto simp: wp_def touched_def effect_def)
  qed simp
  then show ?thesis ..
qed

theorem stream_ends_once_witness:
  "\<exists>t. history fe demo_os demo_process [\<lparr>stream = Stdout, data = [97], eof = False\<rparr>,
       \<lparr>stream = Stdout, data = [], eof = True\<rparr>, \<lparr>stream = Stderr, data = [], eof = True\<rparr>] t
     \<and> sorted_wrt (\<lambda>e f. eof e \<longrightarrow> stream f \<noteq> stream e) [\<lparr>stream = Stdout, data = [97], eof = False\<rparr>,
       \<lparr>stream = Stdout, data = [], eof = True\<rparr>, \<lparr>stream = Stderr, data = [], eof = True\<rparr>]"
proof -
  define run where "run = (\<lambda>s. snd (local_read demo_os s))"
  note ops = run_def local_read_def bnd_def call_os_def zoom_def read_ready_def wrap_local_def handle_def
    make_event_record_def lift_def drop_stream_def seq_def ret_def demo_os_def demo_process_def
  have "local_read demo_os demo_process = (Inr (Some \<lparr>stream = Stdout, data = [97], eof = False\<rparr>), run demo_process)"
    by (simp add: ops)
  moreover have "local_read demo_os (run demo_process) =
      (Inr (Some \<lparr>stream = Stdout, data = [], eof = True\<rparr>), run (run demo_process))"
    by (simp add: ops)
  moreover have "local_read demo_os (run (run demo_process)) =
      (Inr (Some \<lparr>stream = Stderr, data = [], eof = True\<rparr>), run (run (run demo_process)))"
    by (simp add: ops)
  ultimately have h: "history fe demo_os demo_process ((([] @ [\<lparr>stream = Stdout, data = [97], eof = False\<rparr>])
      @ [\<lparr>stream = Stdout, data = [], eof = True\<rparr>]) @ [\<lparr>stream = Stderr, data = [], eof = True\<rparr>])
      (run (run (run demo_process)))"
    by (blast intro: history.start history.event)
  have "select_ok demo_os" by (auto simp: select_ok_def demo_os_def dest: in_set_takeD)
  from stream_ends_once [OF this h] h show ?thesis by auto
qed

text \<open>An operating system that keeps the list of closed pipes, and a process on it.\<close>

definition pipe_os :: "pipe list os_ops" where
  "pipe_os = \<lparr>os_spawn = (\<lambda>_ _ _. ret True), os_write = (\<lambda>bs. ret (Some (int (length bs)))), os_register = (\<lambda>_. ret ()),
     os_select = (\<lambda>sts _. ret (take 1 sts)), os_read = (\<lambda>_ _. ret []),
     os_unregister = (\<lambda>_. ret ()), os_wait = (\<lambda>_. ret 0), os_terminate = ret (), os_kill = ret (),
     os_close_selector = ret (), os_close = (\<lambda>p v. (Inr (), p # v)), os_closed = (\<lambda>p v. p \<in> set v)\<rparr>"

definition pipe_lifecycle :: "pipe list local_process lifecycle" where
  "pipe_lifecycle = \<lparr>process = \<lparr>os_state = [], argv = [str ''p''], environ = [], workdir = None, read_timeout = FFin 5,
     read_size = 65536, registered = [Stdout, Stderr], stdin_closed = False, pipes_closed = False, os_calls = []\<rparr>,
     graceful_timeout = 5, terminate_timeout = 2, kill_timeout = 2,
     result = None, closing = False, handle_ops = []\<rparr>"

text \<open>
  C27. A shutdown of a local process, unless the interpreter stops, closes stdin first, then waits,
  terminates and kills as far as it has to (as the returned flags say), then closes the selector and
  every pipe that the operating system does not report closed, in order and whatever it answers.
  Where closing a pipe closes it and no other, these are exactly the pipes that were open when the
  process was stopped, and all three are closed in the end.
\<close>

theorem local_shutdown_releases:
  assumes "result s = None" "\<not> closing s" "handle_ops s = []" "os_calls (process s) = []"
    and "\<not> stdin_closed (process s)" "\<not> pipes_closed (process s)"
    and "0 < graceful_timeout s" "0 < terminate_timeout s" "0 < kill_timeout s"
    and "shutdown (local_handle fe io) s = (r, t)" "\<not> crashed r"
  shows "\<exists>k u cs v. u = snd (os_close_selector io (os_state (process (snd (stop_process (local_handle fe io) (s\<lparr>closing := True\<rparr>))))))
    \<and> release io [PStdin, PStdout, PStderr] u = (cs, v)
    \<and> os_calls (process t) = concat (map call_of (take k stop_order)) @ OsCloseSelector # cs \<and> os_state (process t) = v
    \<and> handle_ops t = take k stop_order @ [ClosePipes] \<and> 1 \<le> k \<and> k \<le> 6
    \<and> (case r of Inr x \<Rightarrow> k = exit_stage x | Inl _ \<Rightarrow> True)
    \<and> stdin_closed (process t) \<and> pipes_closed (process t)
    \<and> (pipes_apart io \<longrightarrow> cs = map OsClosePipe (filter (\<lambda>p. \<not> os_closed io p u) [PStdin, PStdout, PStderr])
        \<and> (\<forall>p. os_closed io p v))"
proof -
  let ?h = "local_handle fe io" and ?s = "s\<lparr>closing := True\<rparr>"
  obtain x s1 where stop: "stop_process ?h ?s = (x, s1)" by (cases "stop_process ?h ?s")
  have linked: "linked s1" using linked_stop [of ?s fe io] assms(3-9) stop by simp
  have "case x of Inr e \<Rightarrow> stage ?s (exit_stage e) s1 | Inl _ \<Rightarrow> \<exists>k \<le> 6. stage ?s k s1"
    using wp_stop_process [of ?h ?s] by (cases x) (auto simp: wp_def stop)
  moreover have "exit_stage e \<le> 6" for e by (simp add: exit_stage_def)
  ultimately obtain k where k: "k \<le> 6" "handle_ops s1 = take k stop_order"
    "case x of Inr e \<Rightarrow> k = exit_stage e | Inl _ \<Rightarrow> True"
    using assms(3) by (cases x) (auto simp: stage_def)
  from k(2) linked have "1 \<le> k" by (cases k) (auto simp: linked_def)
  obtain c s2 where close: "call_handle ''close process pipes'' ClosePipes (close_pipes ?h) s1 = (c, s2)"
    by (cases "call_handle ''close process pipes'' ClosePipes (close_pipes ?h) s1")
  let ?P = "\<lambda>t. closing_pipes io [PStdin, PStdout, PStderr] (process s1) (process t) \<and> handle_ops t = handle_ops s1 @ [ClosePipes]"
  have "wp (call_handle ''close process pipes'' ClosePipes (close_pipes ?h)) (\<lambda>_. ?P) (\<lambda>e t. is_exception e \<longrightarrow> ?P t) s1"
    unfolding call_handle_def wp wp_in_process local_handle_def handle.simps
    by (rule wp_mono [OF wp_local_close_pipes]) (use linked in \<open>auto simp: wp linked_def\<close>)
  moreover have t: "t = s2\<lparr>closing := False, result := result t\<rparr>" and nc: "\<not> crashed c"
    and xr: "case r of Inr e \<Rightarrow> x = Inr e | Inl _ \<Rightarrow> True"
    using assms(1,2,10,11) stop close by (auto simp: shutdown_def crashed_def is_exception_def Let_def split: sum.splits if_splits option.splits)
  ultimately have P: "?P s2" using close by (cases c) (auto simp: wp_def crashed_def is_exception_def)
  obtain cs v where rel: "release io [PStdin, PStdout, PStderr] (snd (os_close_selector io (os_state (process s1)))) = (cs, v)"
    by fastforce
  have pt: "process t = process s2" "handle_ops t = handle_ops s2" by (subst t, simp)+
  have calls: "os_calls (process t) = concat (map call_of (take k stop_order)) @ OsCloseSelector # cs"
    "os_state (process t) = v" "stdin_closed (process t)" "pipes_closed (process t)"
    using P rel linked k(2) by (auto simp: pt closing_pipes_def effect_def linked_def)
  have apart: "cs = map OsClosePipe (filter (\<lambda>p. \<not> os_closed io p u) [PStdin, PStdout, PStderr]) \<and> (\<forall>p. os_closed io p v)"
    if "pipes_apart io" "u = snd (os_close_selector io (os_state (process s1)))" for u
  proof -
    have "p \<in> set [PStdin, PStdout, PStderr]" for p by (cases p) simp_all
    with release_apart [OF that(1), where ps = "[PStdin, PStdout, PStderr]" and v = u] rel that(2) show ?thesis by auto
  qed
  show ?thesis
    using rel calls apart k \<open>1 \<le> k\<close> xr P pt stop by (auto split: sum.splits intro!: exI [of _ k])
qed

definition demo_floats :: float_env where
  "demo_floats = \<lparr>round_float = FFin, parse_float = (\<lambda>_. None), object_float = (\<lambda>_ _. err TypeError ''not a number'')\<rparr>"

theorem local_shutdown_releases_witness:
  "\<exists>r t. shutdown (local_handle demo_floats pipe_os) pipe_lifecycle = (r, t) \<and> pipes_closed (process t)
    \<and> pipes_apart pipe_os \<and> (\<forall>p. os_closed pipe_os p (os_state (process t)))"
proof -
  obtain r t where run: "shutdown (local_handle demo_floats pipe_os) pipe_lifecycle = (r, t)"
    by (cases "shutdown (local_handle demo_floats pipe_os) pipe_lifecycle")
  have r: "r = Inr \<lparr>exit_code = 0, graceful = True, terminated = False, killed = False\<rparr>"
    using run by (simp add: shutdown_def pipe_lifecycle_def stop_process_def call_handle_def in_process_def
        local_handle_def pipe_os_def local_close_stdin_def wrap_local_def call_os_def zoom_def handle_def seq_def bnd_def
        wait_exit_def local_wait_def positive_number_def lift_def ret_def crashed_def Let_def local_close_pipes_def
        try_close_def close_pipe_def)
  have "\<not> crashed r" by (simp add: r crashed_def)
  moreover have "pipes_apart pipe_os" by (auto simp: pipes_apart_def pipe_os_def)
  ultimately show ?thesis
    using local_shutdown_releases [OF _ _ _ _ _ _ _ _ _ run] run by (auto simp: pipe_lifecycle_def)
qed

end
