(* ===== verification/Rpr_Retained.thy ===== *)
theory Rpr_Retained
  imports Rpr_Mcp Rpr_Executors Rpr_Demo
begin

text \<open>
  \<open>mcp_retained_evidence.py\<close>: the record of an MCP call that is kept with its hash, without
  any key that may bear a credential; and the comparison of a request with its transport retry
  (\<open>mcp_admission.py\<close>). The lemmas: what is retained is clean and hashed, it is read back from
  its text, and no request that admission builds can be retained.
\<close>

section \<open>Clean JSON\<close>

definition forbidden_fragments :: "pystr list" where
  "forbidden_fragments = map str [''authorization'', ''credential'', ''password'', ''secret'', ''token'',
     ''api_key'', ''apikey'']"

text \<open>
  \<open>key.casefold().replace("-", "_")\<close>. Besides the characters of \<open>Rpr_Redaction\<close>, two more fold to
  text with an ASCII letter that a fragment may contain.
\<close>

definition key_fold :: "pystr \<Rightarrow> pystr" where
  "key_fold s = map (\<lambda>c. if c = 45 then 95 else c)
     (concat (map (\<lambda>c. if c = 7831 then [116, 776] else if c = 7833 then [121, 778] else casefold_char c) s))"

text \<open>\<open>p in s\<close>.\<close>

fun contains :: "pystr \<Rightarrow> pystr \<Rightarrow> bool" where
  "contains p [] = (p = [])"
| "contains p (c # cs) = (take (length p) (c # cs) = p \<or> contains p cs)"

definition forbidden_key :: "pystr \<Rightarrow> bool" where
  "forbidden_key k \<longleftrightarrow> list_ex (\<lambda>p. contains p (key_fold k)) forbidden_fragments"

text \<open>\<open>_strict_json\<close>; the last argument of \<open>retain_items\<close> is the dict under construction.\<close>

fun retain :: "pv \<Rightarrow> pv res"
  and retain_list :: "pv list \<Rightarrow> pv list res"
  and retain_items :: "pdict \<Rightarrow> pdict \<Rightarrow> pdict res" where
  "retain (PFloat x) = (if is_finite x then Inr (PFloat x) else err McpRetainedEvidenceError ''non-finite number'')"
| "retain (PDict kvs) = rbind (retain_items kvs []) (\<lambda>d. Inr (PDict d))"
| "retain (PList vs) = rbind (retain_list vs) (\<lambda>ws. Inr (PList ws))"
| "retain (PTuple vs) = rbind (retain_list vs) (\<lambda>ws. Inr (PList ws))"
| "retain (PObj t s) = err McpRetainedEvidenceError ''unsupported JSON value''"
| "retain v = Inr v"
| "retain_list [] = Inr []"
| "retain_list (v # vs) = rbind (retain v) (\<lambda>w. rbind (retain_list vs) (\<lambda>ws. Inr (w # ws)))"
| "retain_items [] acc = Inr acc"
| "retain_items ((k, v) # kvs) acc = (case k of
       PStr s \<Rightarrow> (if forbidden_key s then err McpRetainedEvidenceError ''potential credential-bearing key is forbidden''
         else rbind (retain v) (\<lambda>w. retain_items kvs (dset s w acc)))
     | _ \<Rightarrow> err McpRetainedEvidenceError ''non-string object key'')"

text \<open>\<open>_required_text\<close>.\<close>

definition retained_text :: "pv \<Rightarrow> pystr res" where
  "retained_text v = (case v of
       PStr s \<Rightarrow> (if strip s = [] then err McpRetainedEvidenceError ''must be a non-empty string'' else Inr (strip s))
     | _ \<Rightarrow> err McpRetainedEvidenceError ''must be a non-empty string'')"

section \<open>The record\<close>

record diagnostics_evidence =
  bytes_retained :: int
  truncated :: bool

definition make_diagnostics :: "pv \<Rightarrow> pv \<Rightarrow> diagnostics_evidence res" where
  "make_diagnostics n b = (case n of
       PInt i \<Rightarrow> (if i < 0 then err McpRetainedEvidenceError ''bytes_retained must be non-negative''
         else (case b of PBool t \<Rightarrow> Inr \<lparr>bytes_retained = i, truncated = t\<rparr>
           | _ \<Rightarrow> err McpRetainedEvidenceError ''truncated must be a boolean''))
     | _ \<Rightarrow> err McpRetainedEvidenceError ''bytes_retained must be an integer'')"

record retained =
  payload :: pv
  payload_sha256 :: pystr

definition hash_payload :: "pyenv \<Rightarrow> pv \<Rightarrow> pystr res" where
  "hash_payload env v = rbind (canonical_bytes (float_repr env) v) (\<lambda>b. Inr (sha256 env b))"

text \<open>The constructor's check (\<open>__post_init__\<close>).\<close>

definition make_retained :: "pyenv \<Rightarrow> pv \<Rightarrow> pystr \<Rightarrow> retained res" where
  "make_retained env v h = rbind (retain v) (\<lambda>w. rbind (hash_payload env w) (\<lambda>expected.
     if h \<noteq> expected then err McpRetainedEvidenceError ''retained evidence hash mismatch''
     else Inr \<lparr>payload = w, payload_sha256 = h\<rparr>))"

definition retained_json :: "pyenv \<Rightarrow> retained \<Rightarrow> pystr res" where
  "retained_json env e = rbind (canonical_doc (PDict (obj
     [(''payload'', payload e), (''sha256'', PStr (payload_sha256 e))]))) (\<lambda>d. Inr (json_text (float_repr env) d))"

definition retained_from_json :: "pyenv \<Rightarrow> (rat \<Rightarrow> pfloat) \<Rightarrow> pystr \<Rightarrow> retained res" where
  "retained_from_json env rf s = (case json_loads NoConstants rf s of
       None \<Rightarrow> err McpRetainedEvidenceError ''invalid retained evidence JSON''
     | Some (PDict d) \<Rightarrow>
         (if set (map fst d) \<noteq> {PStr (str ''payload''), PStr (str ''sha256'')}
          then err McpRetainedEvidenceError ''retained evidence envelope shape mismatch''
          else rbind (ditem d (str ''payload'')) (\<lambda>v. rbind (rbind (ditem d (str ''sha256'')) retained_text)
            (make_retained env v)))
     | Some _ \<Rightarrow> err McpRetainedEvidenceError ''retained evidence envelope shape mismatch'')"

section \<open>Building it\<close>

definition admission_keys :: "string list" where
  "admission_keys = [''protocol_version'', ''server_name'', ''server_version'', ''server_capabilities_sha256'',
     ''tool_name'', ''tool_schema_sha256'']"

fun admission_fields :: "pdict \<Rightarrow> string list \<Rightarrow> (string \<times> pv) list res" where
  "admission_fields mcp [] = Inr []"
| "admission_fields mcp (k # ks) = rbind (retained_text (dget_none mcp (str k))) (\<lambda>s.
     rbind (admission_fields mcp ks) (\<lambda>r. Inr ((k, PStr s) # r)))"

definition dispatch_states :: "string list" where
  "dispatch_states = [''not_sent'', ''possibly_sent'', ''unknown'', ''sent'']"

text \<open>\<open>execution_evidence.get("dispatch_state")\<close> and its membership in a set.\<close>

definition known_dispatch_state :: "pdict \<Rightarrow> pv res" where
  "known_dispatch_state evd = (let v = dget_none evd (str ''dispatch_state'') in
     if \<not> hashable v then err TypeError ''unhashable type''
     else if v \<notin> set (map (\<lambda>k. PStr (str k)) dispatch_states)
     then err McpRetainedEvidenceError ''execution evidence has invalid dispatch_state'' else Inr v)"

definition observed_value :: "readback_evidence option \<Rightarrow> pv res" where
  "observed_value b = (case b of None \<Rightarrow> Inr PNone | Some rb \<Rightarrow> rbind (retain (PDict (observed rb))) (\<lambda>seen.
     Inr (PDict (obj [(''verified'', PBool (verified rb)), (''observed'', seen), (''reason'', opt_str (readback_reason rb))]))))"

definition process_value :: "process_exit option \<Rightarrow> pv" where
  "process_value x = (case x of None \<Rightarrow> PNone | Some p \<Rightarrow> PDict (obj [(''exit_code'', PInt (exit_code p)),
     (''graceful'', PBool (graceful p)), (''terminated'', PBool (terminated p)), (''killed'', PBool (killed p))]))"

definition diagnostics_value :: "diagnostics_evidence option \<Rightarrow> pv" where
  "diagnostics_value x = (case x of None \<Rightarrow> PNone | Some g \<Rightarrow> PDict (obj [
     (''bytes_retained'', PInt (bytes_retained g)), (''truncated'', PBool (truncated g))]))"

definition build_retained :: "pyenv \<Rightarrow> execution_request \<Rightarrow> execution_result \<Rightarrow> process_exit option
    \<Rightarrow> diagnostics_evidence option \<Rightarrow> pv \<Rightarrow> retained res" where
  "build_retained env q r px dg residual =
     (if action q \<noteq> str ''mcp_tool_call'' then err McpRetainedEvidenceError ''request is not an MCP tool call''
      else case dget_none (parameters q) (str ''mcp'') of
        PDict mcp \<Rightarrow> rbind (admission_fields mcp admission_keys) (\<lambda>adm.
          rbind (retain_items (evidence r) []) (\<lambda>evd. rbind (known_dispatch_state evd) (\<lambda>ds.
          rbind (observed_value (readback r)) (\<lambda>rb.
          rbind (utf8_encode (idempotency_key q)) (\<lambda>key.
          rbind (retained_text residual) (\<lambda>boundary.
          rbind (retain (PDict (obj [
            (''schema'', PStr (str ''rpr.mcp.retained-evidence.v1'')),
            (''operation'', PDict (obj [(''operation_id'', PStr (operation_id q)),
              (''attempt_id'', PStr (attempt_id q)), (''idempotency_key_sha256'', PStr (sha256 env key))])),
            (''admission'', PDict (obj adm)),
            (''execution'', PDict (obj [(''status'', PStr (status_value (status r))), (''dispatch_state'', ds),
              (''reason'', opt_str (result_reason r)), (''readback'', rb)])),
            (''process_exit'', process_value px),
            (''diagnostics'', diagnostics_value dg),
            (''residual_boundary'', PStr boundary)]))) (\<lambda>p.
          rbind (hash_payload env p) (make_retained env p))))))))
      | _ \<Rightarrow> err McpRetainedEvidenceError ''missing MCP admission binding'')"

section \<open>Transport retries\<close>

definition assert_transport_retry :: "execution_request \<Rightarrow> execution_request \<Rightarrow> unit res" where
  "assert_transport_retry original retry =
     (if operation_id original \<noteq> operation_id retry \<or> attempt_id original \<noteq> attempt_id retry
        \<or> idempotency_key original \<noteq> idempotency_key retry
      then err McpAdmissionError ''transport retry changed RPR business identity''
      else if action original \<noteq> action retry \<or> \<not> py_equal (PDict (parameters original)) (PDict (parameters retry))
      then err McpAdmissionError ''transport retry changed admitted MCP request'' else Inr ())"

section \<open>What is retained is clean\<close>

text \<open>A document with distinct keys, none of them forbidden, and finite numbers.\<close>

fun clean :: "pv \<Rightarrow> bool"
  and clean_list :: "pv list \<Rightarrow> bool"
  and clean_items :: "pdict \<Rightarrow> bool" where
  "clean (PFloat x) = is_finite x"
| "clean (PDict kvs) = (clean_items kvs \<and> distinct (map fst kvs))"
| "clean (PList vs) = clean_list vs"
| "clean (PTuple vs) = False"
| "clean (PObj t s) = False"
| "clean v = True"
| "clean_list [] = True"
| "clean_list (v # vs) = (clean v \<and> clean_list vs)"
| "clean_items [] = True"
| "clean_items ((k, v) # kvs) =
     ((case k of PStr s \<Rightarrow> \<not> forbidden_key s | _ \<Rightarrow> False) \<and> clean v \<and> clean_items kvs)"

lemma clean_items_iff:
  "clean_items kvs \<longleftrightarrow> (\<forall>(k, v) \<in> set kvs. (\<exists>s. k = PStr s \<and> \<not> forbidden_key s) \<and> clean v)"
  by (induction kvs) (auto split: pv.splits)

lemma clean_dset:
  assumes "clean_items d" "distinct (map fst d)" "\<not> forbidden_key s" "clean w"
  shows "clean_items (dset s w d)" "distinct (map fst (dset s w d))"
proof -
  show "clean_items (dset s w d)"
    using assms(1,3,4) by (induction d) (auto simp: dset_def)
  show "distinct (map fst (dset s w d))" using assms(2) by (simp add: dset_def distinct_update)
qed

lemma retain_clean:
  "retain v = Inr w \<Longrightarrow> clean w"
  "retain_list vs = Inr ws \<Longrightarrow> clean_list ws"
  "retain_items kvs acc = Inr ks \<Longrightarrow> clean_items acc \<Longrightarrow> distinct (map fst acc)
     \<Longrightarrow> clean_items ks \<and> distinct (map fst ks)"
proof (induction v and vs and kvs acc arbitrary: w and ws and ks rule: retain_retain_list_retain_items.induct)
  case (10 k v kvs acc)
  from "10.prems" obtain s w where s: "k = PStr s" "\<not> forbidden_key s" "retain v = Inr w"
    "retain_items kvs (dset s w acc) = Inr ks"
    by (auto simp: rbind_eq_Inr split: pv.splits if_splits)
  with "10.IH" "10.prems" clean_dset [of acc s w] show ?case by auto
qed (auto simp: rbind_eq_Inr split: if_splits)

lemma clean_retained:
  "clean v \<Longrightarrow> retain v = Inr v"
  "clean_list vs \<Longrightarrow> retain_list vs = Inr vs"
  "clean_items kvs \<Longrightarrow> distinct (map fst kvs) \<Longrightarrow> fst ` set acc \<inter> fst ` set kvs = {}
     \<Longrightarrow> retain_items kvs acc = Inr (acc @ kvs)"
proof (induction v and vs and kvs arbitrary: and and acc rule: clean_clean_list_clean_items.induct)
  case (10 k v kvs)
  then obtain s where s: "k = PStr s" "\<not> forbidden_key s" by (auto split: pv.splits)
  with 10 show ?case by (auto simp: dset_fresh)
qed auto

text \<open>Sorting the keys keeps a document clean and readable.\<close>

lemma canon_items_set: "set (canon_items kvs) = (\<lambda>(k, v). (k, canon v)) ` set kvs"
  by (induction kvs) auto

lemma distinct_sorted_items: "distinct (map fst kvs) \<Longrightarrow> distinct (map fst (sorted_items kvs))"
proof -
  assume d: "distinct (map fst kvs)"
  have "mset (map fst (sorted_items kvs)) = mset (map fst (canon_items kvs))"
    by (metis mset_map mset_sort sorted_items_def)
  with d show ?thesis by (metis map_fst_canon_items mset_eq_imp_distinct_iff)
qed

lemma set_sorted_items: "set (sorted_items kvs) = (\<lambda>(k, v). (k, canon v)) ` set kvs"
  by (simp add: sorted_items_def canon_items_set)

lemma readable_items_iff:
  "readable_items rf fr kvs \<longleftrightarrow> (\<forall>(k, v) \<in> set kvs. (\<exists>s. k = PStr s) \<and> readable rf fr v)"
  by (induction kvs) (auto split: pv.splits)

lemma canon_clean:
  "clean v \<Longrightarrow> clean (canon v)"
  "clean_list vs \<Longrightarrow> clean_list (canons vs)"
  "clean_items kvs \<Longrightarrow> clean_items (canon_items kvs)"
proof (induction v and vs and kvs rule: clean_clean_list_clean_items.induct)
  case (2 kvs)
  then show ?case
    using distinct_sorted_items [of kvs] by (simp add: canon_PDict clean_items_iff sorted_items_def del: canon.simps)
qed (auto split: pv.splits)

lemma canon_readable:
  "readable rf fr v \<Longrightarrow> readable rf fr (canon v)"
  "readables rf fr vs \<Longrightarrow> readables rf fr (canons vs)"
  "readable_items rf fr kvs \<Longrightarrow> readable_items rf fr (canon_items kvs)"
proof (induction rf fr v and rf fr vs and rf fr kvs rule: readable_readables_readable_items.induct)
  case (3 rf fr kvs)
  then show ?case
    using distinct_sorted_items [of kvs] by (simp add: canon_PDict readable_items_iff sorted_items_def del: canon.simps)
qed (auto split: pv.splits pfloat.splits)

lemma clean_doc:
  "clean v \<Longrightarrow> is_doc v" "clean_list vs \<Longrightarrow> are_docs vs" "clean_items kvs \<Longrightarrow> items_doc kvs"
  by (induction v and vs and kvs rule: clean_clean_list_clean_items.induct) (auto split: pv.splits)

text \<open>A retained record: clean, and hashed.\<close>

definition retained_ok :: "pyenv \<Rightarrow> retained \<Rightarrow> bool" where
  "retained_ok env e \<longleftrightarrow> clean (payload e) \<and> hash_payload env (payload e) = Inr (payload_sha256 e)"

lemma make_retained_ok:
  assumes "make_retained env v h = Inr e"
  shows "retained_ok env e" "payload_sha256 e = h" "retain v = Inr (payload e)"
  using assms retain_clean(1) [of v]
  by (auto simp: make_retained_def retained_ok_def rbind_eq_Inr split: if_splits)

lemma retained_again: "retained_ok env e \<Longrightarrow> make_retained env (payload e) (payload_sha256 e) = Inr e"
  by (simp add: retained_ok_def make_retained_def clean_retained(1))

lemma hash_payload_canon: "clean v \<Longrightarrow> hash_payload env (canon v) = hash_payload env v"
  using clean_doc(1) [of v] canon_is_doc(1) [of v]
  by (simp add: hash_payload_def canonical_bytes_def canonical_doc_def to_doc_doc(1))

section \<open>Building and reading back\<close>

lemma envelope_text:
  assumes "clean v"
  shows "canonical_doc (PDict (obj [(''payload'', v), (''sha256'', PStr h)]))
    = Inr (PDict (obj [(''payload'', canon v), (''sha256'', PStr h)]))"
proof -
  have "to_doc v = Inr v" by (rule to_doc_doc(1) [OF clean_doc(1) [OF assms]])
  then show ?thesis by (simp add: canonical_doc_def obj_def str_def)
qed

lemma read_envelope:
  assumes "retained_ok env e" "readable rf (float_repr env) (payload e)"
    and "strip (payload_sha256 e) = payload_sha256 e" "payload_sha256 e \<noteq> []"
    and "retained_json env e = Inr s"
  shows "retained_from_json env rf s = Inr (e\<lparr>payload := canon (payload e)\<rparr>)"
proof -
  let ?v = "canon (payload e)" and ?h = "payload_sha256 e"
  let ?d = "PDict (obj [(''payload'', ?v), (''sha256'', PStr ?h)])"
  have c: "clean (payload e)" and h: "hash_payload env (payload e) = Inr ?h"
    using assms(1) by (simp_all add: retained_ok_def)
  have s: "s = json_text (float_repr env) ?d"
    using assms(5) by (simp add: retained_json_def envelope_text [OF c] del: json_text.simps)
  have "readable rf (float_repr env) ?d"
    using canon_readable(1) [OF assms(2)] by (simp add: obj_def)
  from loads_text [OF this, of NoConstants] have l: "json_loads NoConstants rf s = Some ?d" by (simp only: s)
  have "make_retained env ?v ?h = Inr \<lparr>payload = ?v, payload_sha256 = ?h\<rparr>"
    by (rule retained_again [where e = "\<lparr>payload = ?v, payload_sha256 = ?h\<rparr>", simplified])
      (simp add: retained_ok_def canon_clean(1) [OF c] hash_payload_canon [OF c] h)
  moreover have "e\<lparr>payload := ?v\<rparr> = \<lparr>payload = ?v, payload_sha256 = ?h\<rparr>" by (cases e) simp
  ultimately show ?thesis
    by (simp add: retained_from_json_def l retained_text_def assms(3,4) obj_def ditem_def dget_def insert_commute)
qed

definition plain_keys :: "string list" where
  "plain_keys = [''schema'', ''operation'', ''operation_id'', ''attempt_id'', ''idempotency_key_sha256'', ''admission'',
     ''execution'', ''status'', ''dispatch_state'', ''reason'', ''readback'', ''process_exit'', ''diagnostics'',
     ''residual_boundary'', ''verified'', ''observed'', ''exit_code'', ''graceful'', ''terminated'', ''killed'',
     ''bytes_retained'', ''truncated''] @ admission_keys"

text \<open>The keys of the record, decided on their characters.\<close>

lemma contains_sublist: "contains p s \<longleftrightarrow> sublist p s"
proof (induction s)
  case (Cons c s)
  have "take (length p) (c # s) = p \<longleftrightarrow> prefix p (c # s)" by (auto simp: prefix_def) (metis append_take_drop_id)
  then show ?case by (simp add: Cons sublist_Cons_right)
qed simp

lemma sublist_str: "sublist (str p) (str s) \<longleftrightarrow> sublist p s"
proof (induction s)
  case (Cons c s)
  have take_iff: "prefix x y \<longleftrightarrow> take (length x) y = x" for x y :: "'z list"
    by (metis append_eq_conv_conj append_take_drop_id prefix_def)
  have "take (length p) (str (c # s)) = str (take (length p) (c # s))" by (simp add: str_def flip: take_map)
  then have "prefix (str p) (str (c # s)) \<longleftrightarrow> prefix p (c # s)" by (simp add: take_iff)
  then show ?case using Cons by (simp add: sublist_Cons_right str_def)
qed simp

definition key_chars :: "char list" where
  "key_chars = ''abcdefghijklmnopqrstuvwxyz0123456789_''"

lemma key_chars_range: "list_all (\<lambda>c. (\<lambda>n::nat. 48 \<le> n \<and> n \<le> 57 \<or> 95 \<le> n \<and> n \<le> 122) (of_char c)) key_chars"
  by (simp add: key_chars_def)

lemma key_fold_low: "48 \<le> c \<and> c \<le> 57 \<or> 95 \<le> c \<and> c \<le> 122 \<Longrightarrow> key_fold [c] = [c]"
  by (auto simp: key_fold_def casefold_char_def)

lemma key_fold_Cons: "key_fold (c # s) = key_fold [c] @ key_fold s"
  by (simp add: key_fold_def)

lemma key_fold_id: "list_all (\<lambda>c. c \<in> set key_chars) k \<Longrightarrow> key_fold (str k) = str k"
proof (induction k)
  case (Cons c k)
  then have "key_fold [of_char c] = [of_char c :: nat]" using key_chars_range by (intro key_fold_low) (auto simp: list_all_iff)
  with Cons show ?case using key_fold_Cons [of "of_char c" "str k"] by (simp add: str_def)
qed (simp add: key_fold_def)

lemma key_allowed: "list_all (\<lambda>c. c \<in> set key_chars) k \<Longrightarrow> \<not> list_ex (\<lambda>p. sublist p k)
    [''authorization'', ''credential'', ''password'', ''secret'', ''token'', ''api_key'', ''apikey'']
  \<Longrightarrow> \<not> forbidden_key (str k)"
  by (simp add: forbidden_key_def key_fold_id forbidden_fragments_def contains_sublist sublist_str)

lemma plain_keys_allowed: "list_all (\<lambda>k. \<not> forbidden_key (str k)) plain_keys"
  by (simp add: plain_keys_def admission_keys_def key_allowed key_chars_def sublist_Cons_right)

lemmas allowed = plain_keys_allowed [unfolded plain_keys_def admission_keys_def append.simps list.pred_inject(2)]

lemma clean_obj:
  "clean (PDict (obj kvs)) \<longleftrightarrow> (\<forall>(k, v) \<in> set kvs. \<not> forbidden_key (str k) \<and> clean v) \<and> distinct (map fst kvs)"
  by (auto simp: clean_items_iff obj_def comp_def case_prod_beta distinct_map inj_on_def)

lemma admission_fields_keys:
  "admission_fields mcp ks = Inr r \<Longrightarrow> map fst r = ks
     \<and> (\<forall>(k, v) \<in> set r. \<exists>s. v = PStr s \<and> s \<noteq> [] \<and> (\<exists>t. dget_none mcp (str k) = PStr t \<and> s = strip t))"
  by (induction ks arbitrary: r) (auto simp: rbind_eq_Inr retained_text_def split: pv.splits if_splits)

definition record_doc :: "pyenv \<Rightarrow> execution_request \<Rightarrow> nat list \<Rightarrow> execution_result \<Rightarrow> (string \<times> pv) list \<Rightarrow> pv \<Rightarrow> pv
    \<Rightarrow> process_exit option \<Rightarrow> diagnostics_evidence option \<Rightarrow> pystr \<Rightarrow> pv" where
  "record_doc env q key r adm ds rb px dg boundary = PDict (obj [
     (''schema'', PStr (str ''rpr.mcp.retained-evidence.v1'')),
     (''operation'', PDict (obj [(''operation_id'', PStr (operation_id q)),
       (''attempt_id'', PStr (attempt_id q)), (''idempotency_key_sha256'', PStr (sha256 env key))])),
     (''admission'', PDict (obj adm)),
     (''execution'', PDict (obj [(''status'', PStr (status_value (status r))), (''dispatch_state'', ds),
       (''reason'', opt_str (result_reason r)), (''readback'', rb)])),
     (''process_exit'', process_value px),
     (''diagnostics'', diagnostics_value dg),
     (''residual_boundary'', PStr boundary)])"

lemma allowed_admission: "k \<in> set admission_keys \<Longrightarrow> \<not> forbidden_key (str k)"
  using plain_keys_allowed by (auto simp: list_all_iff plain_keys_def)

lemma clean_opt_str [simp]: "clean (opt_str x)"
  by (cases x) (simp_all add: opt_str_def)

lemma clean_readback: "observed_value b = Inr v \<Longrightarrow> clean v"
  by (cases b) (auto simp: observed_value_def rbind_eq_Inr clean_obj allowed simp del: clean.simps(2) retain.simps
      dest!: retain_clean(1))

lemma clean_record_doc:
  assumes "admission_fields mcp admission_keys = Inr adm" "known_dispatch_state evd = Inr ds" "observed_value b = Inr rb"
  shows "clean (record_doc env q key r adm ds rb px dg boundary)"
proof -
  note a = admission_fields_keys [OF assms(1)]
  have "clean (PDict (obj adm))"
  proof -
    have "\<not> forbidden_key (str k) \<and> clean v" if kv: "(k, v) \<in> set adm" for k v
    proof -
      have "k \<in> set (map fst adm)" using kv by force
      then have "k \<in> set admission_keys" using a by simp
      moreover have "clean v" using a kv by fastforce
      ultimately show ?thesis by (simp add: allowed_admission)
    qed
    moreover have "distinct (map fst adm)" using a by (simp add: admission_keys_def)
    ultimately show ?thesis unfolding clean_obj by blast
  qed
  moreover have "clean ds" using assms(2) by (auto simp: known_dispatch_state_def Let_def split: if_splits)
  moreover have "clean (process_value px)" "clean (diagnostics_value dg)"
    by (cases px; cases dg; simp add: process_value_def diagnostics_value_def clean_obj allowed del: clean.simps(2))+
  ultimately show ?thesis
    using clean_readback [OF assms(3)]
    by (simp add: record_doc_def clean_obj allowed del: clean.simps(2))
qed

text \<open>Building succeeds exactly with these parts.\<close>

definition retained_parts :: "pyenv \<Rightarrow> execution_request \<Rightarrow> execution_result \<Rightarrow> pv \<Rightarrow> (string \<times> pv) list \<Rightarrow> pdict \<Rightarrow> pv
    \<Rightarrow> pv \<Rightarrow> nat list \<Rightarrow> pystr \<Rightarrow> bool" where
  "retained_parts env q r residual adm evd ds rb key boundary \<longleftrightarrow> action q = str ''mcp_tool_call''
     \<and> (\<exists>mcp. dget_none (parameters q) (str ''mcp'') = PDict mcp \<and> admission_fields mcp admission_keys = Inr adm)
     \<and> retain_items (evidence r) [] = Inr evd \<and> known_dispatch_state evd = Inr ds
     \<and> observed_value (readback r) = Inr rb \<and> utf8_encode (idempotency_key q) = Inr key
     \<and> retained_text residual = Inr boundary"

lemma parts_clean:
  "retained_parts env q r residual adm evd ds rb key boundary \<Longrightarrow> clean (record_doc env q key r adm ds rb px dg boundary)"
  by (auto simp: retained_parts_def intro: clean_record_doc)

lemma build_retained_from_parts:
  assumes "retained_parts env q r residual adm evd ds rb key boundary"
    and "hash_payload env (record_doc env q key r adm ds rb px dg boundary) = Inr h"
  shows "build_retained env q r px dg residual = Inr \<lparr>payload = record_doc env q key r adm ds rb px dg boundary, payload_sha256 = h\<rparr>"
proof -
  have "retain (record_doc env q key r adm ds rb px dg boundary) = Inr (record_doc env q key r adm ds rb px dg boundary)"
    by (rule clean_retained(1) [OF parts_clean [OF assms(1)]])
  with assms show ?thesis
    by (auto simp: build_retained_def retained_parts_def record_doc_def [symmetric] make_retained_def)
qed

lemma build_retained_parts:
  assumes "build_retained env q r px dg residual = Inr e"
  shows "\<exists>adm evd ds rb key boundary. retained_parts env q r residual adm evd ds rb key boundary
    \<and> payload e = record_doc env q key r adm ds rb px dg boundary"
proof -
  from assms obtain mcp adm evd ds rb key boundary p h where a: "action q = str ''mcp_tool_call''"
    "dget_none (parameters q) (str ''mcp'') = PDict mcp" "admission_fields mcp admission_keys = Inr adm"
    "retain_items (evidence r) [] = Inr evd" "known_dispatch_state evd = Inr ds" "observed_value (readback r) = Inr rb"
    "utf8_encode (idempotency_key q) = Inr key" "retained_text residual = Inr boundary"
    "retain (record_doc env q key r adm ds rb px dg boundary) = Inr p" "make_retained env p h = Inr e"
    unfolding build_retained_def record_doc_def [symmetric] by (auto simp: rbind_eq_Inr split: if_splits pv.splits)
  then have parts: "retained_parts env q r residual adm evd ds rb key boundary" by (simp add: retained_parts_def)
  have c: "clean (record_doc env q key r adm ds rb px dg boundary)" by (rule parts_clean [OF parts])
  with a(9) clean_retained(1) have "p = record_doc env q key r adm ds rb px dg boundary" by simp
  moreover have "retain p = Inr (payload e)" by (rule make_retained_ok(3) [OF a(10)])
  ultimately have "payload e = record_doc env q key r adm ds rb px dg boundary"
    using clean_retained(1) [OF c] by simp
  with parts show ?thesis by blast
qed

lemma build_retained_hashed: "build_retained env q r px dg residual = Inr e \<Longrightarrow> retained_ok env e"
  unfolding build_retained_def by (auto simp: rbind_eq_Inr dest!: make_retained_ok(1) split: if_splits pv.splits)

text \<open>
  The admission of a record is the binding of the request: for each of the six fields, in order, the
  binding holds a text that is not blank, and the record holds it without surrounding space.
\<close>

definition binding_kept :: "pdict \<Rightarrow> (string \<times> pv) list \<Rightarrow> bool" where
  "binding_kept mcp adm \<longleftrightarrow> list_all2 (\<lambda>k f. fst f = k
     \<and> (\<exists>t. dget_none mcp (str k) = PStr t \<and> strip t \<noteq> [] \<and> snd f = PStr (strip t))) admission_keys adm"

lemma admission_fields_kept:
  "admission_fields mcp ks = Inr r \<Longrightarrow> list_all2 (\<lambda>k f. fst f = k
     \<and> (\<exists>t. dget_none mcp (str k) = PStr t \<and> strip t \<noteq> [] \<and> snd f = PStr (strip t))) ks r"
  by (induction ks arbitrary: r) (auto simp: rbind_eq_Inr retained_text_def split: pv.splits if_splits)

text \<open>The readback of a record is the one of the result, its observed value as clean JSON.\<close>

definition readback_kept :: "readback_evidence option \<Rightarrow> pv \<Rightarrow> bool" where
  "readback_kept b v \<longleftrightarrow> (case b of None \<Rightarrow> v = PNone
     | Some rb \<Rightarrow> \<exists>seen. retain (PDict (observed rb)) = Inr seen \<and> v = PDict (obj
         [(''verified'', PBool (verified rb)), (''observed'', seen), (''reason'', opt_str (readback_reason rb))]))"

lemma observed_value_kept: "observed_value b = Inr v \<longleftrightarrow> readback_kept b v"
  by (auto simp: observed_value_def readback_kept_def rbind_eq_Inr simp del: retain.simps split: option.split)

text \<open>
  C30. A retained record is built for an MCP tool call only. Its admission is the binding of that
  request, all six fields of it, none blank; its dispatch state is the one of the execution evidence
  and one of the four that are known; its readback, operation, status and process exit are those that
  were given, with the hash of the key instead of the key, and its residual boundary is not blank. No
  key at any depth of it contains a forbidden fragment, every number is finite, and its hash is the
  hash of its canonical bytes.
\<close>

theorem retained_record_contract:
  assumes "build_retained env q r px dg residual = Inr e"
  shows "clean (payload e) \<and> hash_payload env (payload e) = Inr (payload_sha256 e)
    \<and> action q = str ''mcp_tool_call''
    \<and> (\<exists>mcp adm evd ds rb key boundary. payload e = record_doc env q key r adm (PStr (str ds)) rb px dg (strip boundary)
        \<and> dget_none (parameters q) (str ''mcp'') = PDict mcp \<and> binding_kept mcp adm
        \<and> retain_items (evidence r) [] = Inr evd \<and> dget_none evd (str ''dispatch_state'') = PStr (str ds)
        \<and> ds \<in> set dispatch_states \<and> readback_kept (readback r) rb
        \<and> utf8_encode (idempotency_key q) = Inr key \<and> residual = PStr boundary \<and> strip boundary \<noteq> [])"
proof -
  from build_retained_parts [OF assms] obtain adm evd ds rb key boundary where
    p: "retained_parts env q r residual adm evd ds rb key boundary"
      "payload e = record_doc env q key r adm ds rb px dg boundary" by blast
  then obtain mcp where m: "action q = str ''mcp_tool_call''" "dget_none (parameters q) (str ''mcp'') = PDict mcp"
    "admission_fields mcp admission_keys = Inr adm" "retain_items (evidence r) [] = Inr evd"
    "known_dispatch_state evd = Inr ds" "readback_kept (readback r) rb" "utf8_encode (idempotency_key q) = Inr key"
    "retained_text residual = Inr boundary"
    unfolding retained_parts_def observed_value_kept by blast
  from m(5) obtain d where "ds = PStr (str d)" "d \<in> set dispatch_states" "dget_none evd (str ''dispatch_state'') = PStr (str d)"
    by (auto simp: known_dispatch_state_def Let_def split: if_splits)
  moreover from m(8) obtain b where "residual = PStr b" "boundary = strip b" "strip b \<noteq> []"
    by (auto simp: retained_text_def split: pv.splits if_splits)
  moreover have "binding_kept mcp adm" using admission_fields_kept [OF m(3)] by (simp add: binding_kept_def)
  ultimately show ?thesis
    using p(2) m build_retained_hashed [OF assms] unfolding retained_ok_def by blast
qed

definition kept_env :: pyenv where
  "kept_env = \<lparr>sha256 = (\<lambda>_. [97]), float_repr = demo_float, container_repr = (\<lambda>_. []), iso_time = (\<lambda>_. [])\<rparr>"

definition kept_request :: execution_request where
  "kept_request = \<lparr>operation_id = str ''o'', attempt_id = str ''x'', idempotency_key = str ''k'', action = str ''mcp_tool_call'',
     parameters = obj [(''mcp'', PDict (obj (map (\<lambda>k. (k, PStr (str ''v''))) admission_keys)))]\<rparr>"

definition kept_result :: execution_result where
  "kept_result = \<lparr>status = SUCCEEDED, evidence = obj [(''dispatch_state'', PStr (str ''sent''))],
     readback = Some \<lparr>verified = True, observed = obj [(''rows'', PTuple [PInt 1])], readback_reason = None\<rparr>,
     result_reason = None\<rparr>"

definition kept_doc :: pv where
  "kept_doc = record_doc kept_env kept_request [107] kept_result (map (\<lambda>k. (k, PStr (str ''v''))) admission_keys)
     (PStr (str ''sent'')) (PDict (obj [(''verified'', PBool True), (''observed'', PDict (obj [(''rows'', PList [PInt 1])])),
       (''reason'', PNone)])) None None (str ''b'')"

lemma kept_parts: "retained_parts kept_env kept_request kept_result (PStr (str ''b''))
   (map (\<lambda>k. (k, PStr (str ''v''))) admission_keys) (evidence kept_result) (PStr (str ''sent''))
   (PDict (obj [(''verified'', PBool True), (''observed'', PDict (obj [(''rows'', PList [PInt 1])])), (''reason'', PNone)]))
   [107] (str ''b'')"
proof -
  have s: "strip (str ''v'') = str ''v''" "strip (str ''b'') = str ''b''" by (simp_all add: strip_def str_def is_space_def)
  have k: "\<not> forbidden_key (str ''rows'')" by (simp add: key_allowed key_chars_def sublist_Cons_right)
  have e: "retain_items (obj [(''dispatch_state'', PStr (str ''sent''))]) [] = Inr (obj [(''dispatch_state'', PStr (str ''sent''))])"
    by (simp add: obj_def allowed dset_def)
  have "admission_fields (obj (map (\<lambda>k. (k, PStr (str ''v''))) admission_keys)) admission_keys
      = Inr (map (\<lambda>k. (k, PStr (str ''v''))) admission_keys)"
    by (simp add: admission_keys_def dget_none_def retained_text_def s)
  moreover have "retain (PDict (obj [(''rows'', PTuple [PInt 1])])) = Inr (PDict (obj [(''rows'', PList [PInt 1])]))"
    by (simp add: obj_def k dset_def)
  ultimately show ?thesis
    unfolding retained_parts_def
    by (simp add: kept_request_def kept_result_def dget_none_def e known_dispatch_state_def dispatch_states_def observed_value_def
        retained_text_def s opt_str_def del: retain.simps) (simp add: str_def utf8_encode_def surrogate_def utf8_char_def)
qed

lemma kept_readable: "readable rf fr kept_doc" "plain kept_doc"
  by (simp_all add: kept_doc_def record_doc_def kept_request_def kept_result_def kept_env_def obj_def admission_keys_def
      process_value_def diagnostics_value_def opt_str_def text_ok_str) (simp add: text_ok_def surrogate_def)

lemma kept_built: "build_retained kept_env kept_request kept_result None None (PStr (str ''b''))
    = Inr \<lparr>payload = kept_doc, payload_sha256 = [97]\<rparr>"
proof -
  obtain b where "canonical_bytes demo_float kept_doc = Inr b"
    using plain_canonical_bytes [OF demo_float_ok kept_readable(2)] by blast
  then have "hash_payload kept_env kept_doc = Inr [97]" by (simp add: hash_payload_def kept_env_def)
  then show ?thesis
    using build_retained_from_parts [OF kept_parts] unfolding kept_doc_def by blast
qed

theorem retained_record_contract_witness:
  "clean kept_doc \<and> (\<exists>mcp adm. dget_none (parameters kept_request) (str ''mcp'') = PDict mcp \<and> binding_kept mcp adm)"
  using retained_record_contract [OF kept_built] by auto

text \<open>
  A retained record is read back from its text: the hash is the same, the payload is the same
  with its keys sorted, and what is read back has the same text again. The floats of the payload
  are to be read as they are written, and the hash is a text without surrounding space.
\<close>

theorem retained_round_trip:
  assumes "build_retained env q r px dg residual = Inr e" "readable rf (float_repr env) (payload e)"
    and "strip (payload_sha256 e) = payload_sha256 e" "payload_sha256 e \<noteq> []"
  shows "\<exists>t. retained_json env e = Inr t \<and> retained_from_json env rf t = Inr (e\<lparr>payload := canon (payload e)\<rparr>)
    \<and> retained_json env (e\<lparr>payload := canon (payload e)\<rparr>) = Inr t"
proof -
  have ok: "retained_ok env e" by (rule build_retained_hashed [OF assms(1)])
  then have c: "clean (payload e)" by (simp add: retained_ok_def)
  obtain t where t: "retained_json env e = Inr t" by (simp add: retained_json_def envelope_text [OF c])
  moreover have "retained_json env (e\<lparr>payload := canon (payload e)\<rparr>) = retained_json env e"
    by (simp add: retained_json_def envelope_text [OF c] envelope_text [OF canon_clean(1) [OF c]])
  ultimately show ?thesis using read_envelope [OF ok assms(2-4) t] by auto
qed

theorem retained_round_trip_witness:
  "\<exists>t. retained_json kept_env \<lparr>payload = kept_doc, payload_sha256 = [97]\<rparr> = Inr t
     \<and> retained_from_json kept_env (\<lambda>_. FNan) t = Inr \<lparr>payload = canon kept_doc, payload_sha256 = [97]\<rparr>"
proof -
  have "strip [97] = [97::nat]" by (simp add: strip_def is_space_def)
  with retained_round_trip [OF kept_built, of "\<lambda>_. FNan"] kept_readable(1) show ?thesis by auto
qed

section \<open>Admission and retention disagree\<close>

text \<open>
  The binding that admission writes has no \<open>server_name\<close>: no admitted request can be retained.
\<close>

lemma binding_lacks_name:
  "dget_none (admission_binding snap) (str ''server_name'') = PNone"
  by (simp add: admission_binding_def dget_none_def)

lemma admission_fields_missing:
  assumes "dget_none mcp (str k) = PNone" "k \<in> set ks"
  shows "\<exists>e. admission_fields mcp ks = Inl e \<and> exn_kind e = McpRetainedEvidenceError"
  using assms(2)
proof (induction ks)
  case (Cons a ks)
  show ?case
  proof (cases "retained_text (dget_none mcp (str a))")
    case (Inl e)
    then show ?thesis by (auto simp: retained_text_def split: pv.splits if_splits)
  next
    case (Inr s)
    with assms(1) have "a \<noteq> k" by (auto simp: retained_text_def)
    with Cons Inr show ?thesis by auto
  qed
qed simp

theorem admitted_request_not_retained:
  assumes "admit env adm snap op aid key arguments = Inr q"
  shows "\<exists>e. build_retained env' q r px dg residual = Inl e \<and> exn_kind e = McpRetainedEvidenceError"
proof -
  from assms have q: "dget_none (parameters q) (str ''mcp'') = PDict (admission_binding snap)"
    "action q = str ''mcp_tool_call''"
    by (auto simp: admit_def rbind_eq_Inr make_request_def dget_none_def split: if_splits)
  have "''server_name'' \<in> set admission_keys" by (simp add: admission_keys_def)
  with admission_fields_missing [OF binding_lacks_name] obtain e where
    "admission_fields (admission_binding snap) admission_keys = Inl e" "exn_kind e = McpRetainedEvidenceError" by blast
  with q show ?thesis by (simp add: build_retained_def)
qed

text \<open>
  A transport retry keeps the names and compares the parameters with \<open>==\<close>, for which \<open>True\<close> is
  \<open>1\<close>: a retry it accepts may be another request for the ledger.
\<close>

lemma transport_retry_names:
  "assert_transport_retry p q = Inr () \<Longrightarrow> operation_id q = operation_id p \<and> attempt_id q = attempt_id p
     \<and> idempotency_key q = idempotency_key p \<and> action q = action p"
  by (auto simp: assert_transport_retry_def split: if_splits)

lemma transport_retry_equal_numbers:
  fixes q :: execution_request
  defines "p \<equiv> q\<lparr>parameters := obj [(''n'', PBool True)]\<rparr>" and "r \<equiv> q\<lparr>parameters := obj [(''n'', PInt 1)]\<rparr>"
  shows "assert_transport_retry p r = Inr () \<and> canonical_doc (request_value p) \<noteq> canonical_doc (request_value r)"
proof -
  have "py_equal (PBool True) (PInt 1)" by (subst py_equal.simps) simp
  then have "py_equal (PDict (obj [(''n'', PBool True)])) (PDict (obj [(''n'', PInt 1)]))"
    by (subst py_equal.simps) (simp add: obj_def)
  moreover have "canonical_doc (request_value p) \<noteq> canonical_doc (request_value r)"
    by (simp add: p_def r_def request_value_def canonical_doc_def obj_def str_def)
  ultimately show ?thesis by (simp add: assert_transport_retry_def p_def r_def)
qed

end
