(* ===== verification/Rpr_ReadModel.thy ===== *)
theory Rpr_ReadModel
  imports Rpr_Migrations Rpr_Admission Rpr_Runtime
begin

text \<open>
  \<open>mcp_read_model.py\<close> and \<open>mcp_server.py\<close>: the read-only view of a database file and the server
  that answers MCP requests from it, line by line. The lemmas: the database is never changed, what
  is shown is what the runtime stored, every request is answered once, and nothing is answered
  before the handshake.
\<close>

section \<open>The database\<close>

text \<open>
  The tables of the file as they are read: texts and numbers. \<open>rm_faults\<close> is the schedule of
  storage faults of the connection.
\<close>

record ro_pathway =
  rp_id :: pystr
  rp_text :: pystr
  rp_state :: pystr
  rp_created :: pystr
  rp_updated :: pystr

record ro_event =
  re_sequence :: int
  re_pathway :: pystr
  re_text :: pystr
  re_hash :: pystr

record ro_db =
  ro_tables :: "string list"
  ro_version :: "pystr option"
  ro_pathways :: "ro_pathway list"
  ro_events :: "ro_event list"

record read_model =
  rm_db :: ro_db
  rm_faults :: "fault list"

definition select_rows :: "(ro_db \<Rightarrow> 'a res) \<Rightarrow> (read_model, 'a) py" where
  "select_rows f = db_step rm_faults (\<lambda>fs s. s\<lparr>rm_faults := fs\<rparr>) (query (\<lambda>s. f (rm_db s)))"

definition terminal_texts :: "pystr list" where
  "terminal_texts = map str [''aborted'', ''completed'', ''denied'']"

definition required_tables :: "string list" where
  "required_tables = [''rpy_schema_metadata'', ''pathways'', ''evidence_events'']"

definition validate_schema :: "(read_model, unit) py" where
  "validate_schema = bnd (select_rows (\<lambda>db. Inr (ro_tables db))) (\<lambda>available.
     if list_all (\<lambda>t. t \<in> set available) required_tables then ret ()
     else raise ReadOnlyDatabaseError ''database is missing required RPR tables'')"

text \<open>The constructor; \<open>is_file\<close> is \<open>Path.is_file\<close> of the database.\<close>

definition open_read_model :: "bool \<Rightarrow> (read_model, unit) py" where
  "open_read_model is_file =
     (if \<not> is_file then raise ReadOnlyDatabaseError ''database file does not exist''
      else handle (catches [SqliteError, ValueError]) (seq (select_rows (\<lambda>_. Inr ())) validate_schema)
        (\<lambda>_. raise ReadOnlyDatabaseError ''cannot open RPR database read-only''))"

section \<open>Reading\<close>

definition required_id :: "pv \<Rightarrow> pystr res" where
  "required_id v = (case v of
       PStr s \<Rightarrow> (if strip s = [] \<or> s \<noteq> strip s then err ValueError ''pathway_id must be a non-empty trimmed string'' else Inr s)
     | _ \<Rightarrow> err ValueError ''pathway_id must be a non-empty trimmed string'')"

definition validated_limit :: "int \<Rightarrow> pv \<Rightarrow> nat res" where
  "validated_limit maximum v = (case v of
       PInt i \<Rightarrow> (if i < 1 \<or> i > maximum then err ValueError ''limit must be between 1 and the maximum'' else Inr (nat i))
     | _ \<Rightarrow> err ValueError ''limit must be an integer'')"

definition loads_text :: "(rat \<Rightarrow> pfloat) \<Rightarrow> pystr \<Rightarrow> pv res" where
  "loads_text rf s = (case json_loads Lenient rf s of None \<Rightarrow> err JSONDecodeError ''invalid JSON'' | Some v \<Rightarrow> Inr v)"

definition row_of :: "(rat \<Rightarrow> pfloat) \<Rightarrow> ro_pathway \<Rightarrow> pdict res" where
  "row_of rf r = rbind (loads_text rf (rp_text r)) (\<lambda>d. Inr (obj [
     (''pathway_id'', PStr (rp_id r)), (''state'', PStr (rp_state r)), (''definition'', d),
     (''created_at'', PStr (rp_created r)), (''updated_at'', PStr (rp_updated r))]))"

fun rows_of_all :: "(rat \<Rightarrow> pfloat) \<Rightarrow> ro_pathway list \<Rightarrow> pv list res" where
  "rows_of_all rf [] = Inr []"
| "rows_of_all rf (r # rs) = rbind (row_of rf r) (\<lambda>d. rbind (rows_of_all rf rs) (\<lambda>ds. Inr (PDict d # ds)))"

definition read_status :: "(read_model, pdict) py" where
  "read_status =
     bnd (select_rows (\<lambda>db. Inr (ro_version db))) (\<lambda>v. case v of
       None \<Rightarrow> raise ReadOnlyDatabaseError ''schema metadata is missing''
     | Some ver \<Rightarrow>
         bnd (select_rows (\<lambda>db. Inr (length (ro_pathways db)))) (\<lambda>n.
         bnd (select_rows (\<lambda>db. Inr (length (filter (\<lambda>r. rp_state r \<notin> set terminal_texts) (ro_pathways db))))) (\<lambda>u.
         bnd (lift (py_int ver)) (\<lambda>i.
         ret (obj [(''mode'', PStr (str ''read_only'')), (''schema_version'', PInt i),
           (''pathway_count'', PInt (int n)), (''unresolved_count'', PInt (int u))])))))"

text \<open>\<open>ORDER BY c, pathway_id\<close>: texts are compared by their code points.\<close>

definition ordered_by :: "(ro_pathway \<Rightarrow> pystr) \<Rightarrow> ro_pathway list \<Rightarrow> ro_pathway list" where
  "ordered_by c rs = sort_key c (sort_key rp_id rs)"

definition list_pathways :: "(rat \<Rightarrow> pfloat) \<Rightarrow> pv \<Rightarrow> (read_model, pv list) py" where
  "list_pathways rf limit = bnd (lift (validated_limit 1000 limit)) (\<lambda>n.
     bnd (select_rows (\<lambda>db. Inr (take n (ordered_by rp_created (ro_pathways db))))) (\<lambda>rs. lift (rows_of_all rf rs)))"

definition list_unresolved :: "(rat \<Rightarrow> pfloat) \<Rightarrow> pv \<Rightarrow> (read_model, pv list) py" where
  "list_unresolved rf limit = bnd (lift (validated_limit 1000 limit)) (\<lambda>n.
     bnd (select_rows (\<lambda>db. Inr (take n (ordered_by rp_updated
       (filter (\<lambda>r. rp_state r \<notin> set terminal_texts) (ro_pathways db)))))) (\<lambda>rs. lift (rows_of_all rf rs)))"

definition find_ro :: "pystr \<Rightarrow> ro_db \<Rightarrow> ro_pathway option res" where
  "find_ro p db = rbind (bind_text [p]) (\<lambda>_. Inr (find (\<lambda>r. rp_id r = p) (ro_pathways db)))"

definition get_pathway :: "(rat \<Rightarrow> pfloat) \<Rightarrow> pv \<Rightarrow> (read_model, pdict) py" where
  "get_pathway rf p = bnd (lift (required_id p)) (\<lambda>i. bnd (select_rows (find_ro i)) (\<lambda>r. case r of
       None \<Rightarrow> throw (Exn KeyError i) | Some r \<Rightarrow> lift (row_of rf r)))"

definition get_route_visibility :: "(rat \<Rightarrow> pfloat) \<Rightarrow> pv \<Rightarrow> (read_model, pdict) py" where
  "get_route_visibility rf p = bnd (get_pathway rf p) (\<lambda>d.
     bnd (lift (rbind (as_mapping (dget_none d (str ''definition''))) (\<lambda>m.
       build_route_visibility (key_text (dget_none d (str ''state''))) m))) (\<lambda>v.
     ret (obj [(''pathway_id'', dget_none d (str ''pathway_id''))] @ v)))"

fun event_rows_of :: "(rat \<Rightarrow> pfloat) \<Rightarrow> ro_event list \<Rightarrow> pv list res" where
  "event_rows_of rf [] = Inr []"
| "event_rows_of rf (e # es) = rbind (loads_text rf (re_text e)) (\<lambda>d. rbind (event_rows_of rf es) (\<lambda>ds.
     Inr (PDict (obj [(''sequence'', PInt (re_sequence e)), (''event_hash'', PStr (re_hash e)), (''event'', d)]) # ds)))"

definition get_evidence :: "(rat \<Rightarrow> pfloat) \<Rightarrow> pv \<Rightarrow> pv \<Rightarrow> (read_model, pv list) py" where
  "get_evidence rf p limit = bnd (lift (required_id p)) (\<lambda>i. bnd (lift (validated_limit 5000 limit)) (\<lambda>n.
     bnd (select_rows (find_ro i)) (\<lambda>r. case r of
       None \<Rightarrow> throw (Exn KeyError i)
     | Some _ \<Rightarrow> bnd (select_rows (\<lambda>db. Inr (take n (sort_key re_sequence (filter (\<lambda>e. re_pathway e = i) (ro_events db))))))
         (\<lambda>es. lift (event_rows_of rf es)))))"

section \<open>The server\<close>

record mcp_server =
  sv_model :: read_model
  sv_initialize_seen :: bool
  sv_initialized :: bool

definition reading :: "(read_model, 'a) py \<Rightarrow> (mcp_server, 'a) py" where
  "reading m = zoom sv_model (\<lambda>r s. s\<lparr>sv_model := r\<rparr>) m"

definition rpc_error :: "int \<Rightarrow> string \<Rightarrow> (mcp_server, 'a) py" where
  "rpc_error c m = raise (JsonRpcError c) m"

definition limit_schema :: "int \<Rightarrow> string \<times> pv" where
  "limit_schema n = (''limit'', PDict (obj [(''type'', PStr (str ''integer'')), (''minimum'', PInt 1), (''maximum'', PInt n)]))"

definition id_schema :: "string \<times> pv" where
  "id_schema = (''pathway_id'', PDict (obj [(''type'', PStr (str ''string'')), (''minLength'', PInt 1)]))"

definition tool_entry :: "string \<Rightarrow> string \<Rightarrow> (string \<times> pv) list \<Rightarrow> string list \<Rightarrow> pv" where
  "tool_entry name description props required = PDict (obj [(''name'', PStr (str name)),
     (''description'', PStr (str description)), (''inputSchema'', PDict (obj ([(''type'', PStr (str ''object'')),
       (''properties'', PDict (obj props))]
       @ (if required = [] then [] else [(''required'', PList (map (\<lambda>k. PStr (str k)) required))])
       @ [(''additionalProperties'', PBool False)])))])"

definition server_tools :: "pv list" where
  "server_tools = [
     tool_entry ''rpr.get_status'' ''Return read-only RPR database status and pathway counts.'' [] [],
     tool_entry ''rpr.list_pathways'' ''List RPR pathways without changing runtime state.'' [limit_schema 1000] [],
     tool_entry ''rpr.get_pathway'' ''Return one RPR pathway definition and current state.'' [id_schema] [''pathway_id''],
     tool_entry ''rpr.get_route_visibility'' ''Return read-only Responsibility Routing visibility for one RPR pathway without granting Authority.''
       [id_schema] [''pathway_id''],
     tool_entry ''rpr.get_evidence'' ''Return retained evidence events for one RPR pathway.'' [id_schema, limit_schema 5000] [''pathway_id''],
     tool_entry ''rpr.list_unresolved'' ''List pathways that are not completed, denied, or aborted.'' [limit_schema 1000] []]"

definition empty_params :: "pv \<Rightarrow> (mcp_server, unit) py" where
  "empty_params v = (case v of PNone \<Rightarrow> ret () | PDict [] \<Rightarrow> ret ()
     | _ \<Rightarrow> rpc_error (- 32602) ''params must be an empty object when provided'')"

definition initialize_result :: "pv \<Rightarrow> (mcp_server, pdict) py" where
  "initialize_result v = (case v of
       PDict d \<Rightarrow> (if dget_none d (str ''protocolVersion'') \<noteq> PStr stable_protocol
         then rpc_error (- 32602) ''unsupported protocolVersion''
         else ret (obj [(''protocolVersion'', PStr stable_protocol),
           (''capabilities'', PDict (obj [(''tools'', PDict (obj [(''listChanged'', PBool False)]))])),
           (''serverInfo'', PDict (obj [(''name'', PStr (str ''responsibility-pathway-runtime'')), (''version'', PStr (str ''0.1.0a6''))])),
           (''instructions'', PStr (str ''Read-only RPR inspection server for a trusted local MCP client. It cannot approve, execute, reconcile, resume, or mutate responsibility pathways.''))]))
     | _ \<Rightarrow> rpc_error (- 32602) ''initialize params must be an object'')"

definition require_keys :: "pdict \<Rightarrow> string list \<Rightarrow> string list \<Rightarrow> unit res" where
  "require_keys d allowed required =
     check (set (map fst d) \<subseteq> set (map (\<lambda>k. PStr (str k)) allowed) \<and> set (map (\<lambda>k. PStr (str k)) required) \<subseteq> set (map fst d))
       ValueError ''unexpected or missing arguments''"

definition invoke_tool :: "(rat \<Rightarrow> pfloat) \<Rightarrow> pystr \<Rightarrow> pdict \<Rightarrow> (mcp_server, pv) py" where
  "invoke_tool rf name d = (let id = dget_none d (str ''pathway_id''); keys = (\<lambda>a r. lift (require_keys d a r)) in
     if name = str ''rpr.get_status'' then seq (keys [] []) (bnd (reading read_status) (\<lambda>v. ret (PDict v)))
     else if name = str ''rpr.list_pathways''
     then seq (keys [''limit''] []) (bnd (reading (list_pathways rf (dget_default d (str ''limit'') (PInt 100))))
       (\<lambda>vs. ret (PDict (obj [(''pathways'', PList vs)]))))
     else if name = str ''rpr.get_pathway''
     then seq (keys [''pathway_id''] [''pathway_id'']) (bnd (reading (get_pathway rf id)) (\<lambda>v. ret (PDict v)))
     else if name = str ''rpr.get_route_visibility''
     then seq (keys [''pathway_id''] [''pathway_id'']) (bnd (reading (get_route_visibility rf id)) (\<lambda>v. ret (PDict v)))
     else if name = str ''rpr.get_evidence''
     then seq (keys [''pathway_id'', ''limit''] [''pathway_id''])
       (bnd (reading (get_evidence rf id (dget_default d (str ''limit'') (PInt 500))))
         (\<lambda>vs. ret (PDict (obj [(''pathway_id'', id), (''events'', PList vs)]))))
     else if name = str ''rpr.list_unresolved''
     then seq (keys [''limit''] []) (bnd (reading (list_unresolved rf (dget_default d (str ''limit'') (PInt 100))))
       (\<lambda>vs. ret (PDict (obj [(''pathways'', PList vs)]))))
     else raise ValueError ''unknown tool'')"

text \<open>
  \<open>json.dumps(value, ensure_ascii=False, sort_keys=True)\<close> of a document, with the default
  separators.
\<close>

fun spaced_text :: "(rat \<Rightarrow> pystr) \<Rightarrow> pv \<Rightarrow> pystr"
  and spaced_texts :: "(rat \<Rightarrow> pystr) \<Rightarrow> pv list \<Rightarrow> pystr"
  and spaced_items :: "(rat \<Rightarrow> pystr) \<Rightarrow> pdict \<Rightarrow> pystr" where
  "spaced_text fr (PList vs) = 91 # spaced_texts fr vs @ [93]"
| "spaced_text fr (PDict kvs) = 123 # spaced_items fr kvs @ [125]"
| "spaced_text fr v = json_text fr v"
| "spaced_texts fr [] = []"
| "spaced_texts fr (v # vs) = spaced_text fr v @ (if vs = [] then [] else 44 # 32 # spaced_texts fr vs)"
| "spaced_items fr [] = []"
| "spaced_items fr ((k, v) # kvs) =
     string_text (key_text k) @ 58 # 32 # spaced_text fr v @ (if kvs = [] then [] else 44 # 32 # spaced_items fr kvs)"

definition tool_result :: "(rat \<Rightarrow> pystr) \<Rightarrow> bool \<Rightarrow> pv \<Rightarrow> pdict res" where
  "tool_result fr is_error v = rbind (canonical_doc v) (\<lambda>c. Inr (obj ([
     (''content'', PList [PDict (obj [(''type'', PStr (str ''text'')), (''text'', PStr (spaced_text fr c))])]),
     (''structuredContent'', v)] @ (if is_error then [(''isError'', PBool True)] else []))))"

definition call_tool :: "(rat \<Rightarrow> pfloat) \<Rightarrow> (rat \<Rightarrow> pystr) \<Rightarrow> pv \<Rightarrow> (mcp_server, pdict) py" where
  "call_tool rf fr v = (case v of
       PDict d \<Rightarrow>
         (if PStr (str ''name'') \<notin> set (map fst d) \<or> \<not> set (map fst d) \<subseteq> {PStr (str ''name''), PStr (str ''arguments'')}
          then rpc_error (- 32602) ''tools/call params require name and may contain arguments''
          else case dget_none d (str ''name'') of
            PStr name \<Rightarrow>
              (if name = [] then rpc_error (- 32602) ''tool name must be a non-empty string''
               else case dget_default d (str ''arguments'') (PDict []) of
                 PDict args \<Rightarrow>
                   bnd (handle (catches [ValueError, ReadOnlyDatabaseError])
                     (handle (catches [KeyError]) (bnd (invoke_tool rf name args) (\<lambda>w. ret (False, w)))
                       (\<lambda>e. ret (True, PDict (obj [(''error'', PStr (str ''pathway_not_found'')), (''pathway_id'', PStr (exn_msg e))]))))
                     (\<lambda>e. ret (True, PDict (obj [(''error'', PStr (str ''invalid_request'')), (''message'', PStr (exn_msg e))]))))
                   (\<lambda>(b, w). lift (tool_result fr b w))
               | _ \<Rightarrow> rpc_error (- 32602) ''tool arguments must be an object'')
          | _ \<Rightarrow> rpc_error (- 32602) ''tool name must be a non-empty string'')
     | _ \<Rightarrow> rpc_error (- 32602) ''tools/call params must be an object'')"

definition rpc_response :: "pv \<Rightarrow> pdict \<Rightarrow> pv" where
  "rpc_response i result = PDict (obj [(''jsonrpc'', PStr (str ''2.0'')), (''id'', i), (''result'', PDict result)])"

text \<open>\<open>handle\<close>: the response, or none for the notification.\<close>

definition handle_request :: "(rat \<Rightarrow> pfloat) \<Rightarrow> (rat \<Rightarrow> pystr) \<Rightarrow> pv \<Rightarrow> (mcp_server, pv option) py" where
  "handle_request rf fr v = (case v of
       PDict d \<Rightarrow>
         (let i = dget_none d (str ''id''); params = dget_none d (str ''params'') in
          if dget_none d (str ''jsonrpc'') \<noteq> PStr (str ''2.0'') then rpc_error (- 32600) ''jsonrpc must be 2.0''
          else case dget_none d (str ''method'') of
            PStr m \<Rightarrow>
              (if m = [] then rpc_error (- 32600) ''method must be a non-empty string''
               else if m = str ''notifications/initialized''
               then seq (empty_params params) (bnd (query (\<lambda>s. Inr (sv_initialize_seen s))) (\<lambda>seen.
                 if \<not> seen then rpc_error (- 32002) ''initialize request has not completed''
                 else (\<lambda>s. (Inr None, s\<lparr>sv_initialized := True\<rparr>))))
               else if m = str ''initialize''
               then bnd (initialize_result params) (\<lambda>r s. (Inr (Some (rpc_response i r)), s\<lparr>sv_initialize_seen := True\<rparr>))
               else bnd (query (\<lambda>s. Inr (sv_initialized s))) (\<lambda>ready.
                 if \<not> ready then rpc_error (- 32002) ''server has not received notifications/initialized''
                 else if m = str ''ping'' then seq (empty_params params) (ret (Some (rpc_response i [])))
                 else if m = str ''tools/list''
                 then seq (empty_params params) (ret (Some (rpc_response i (obj [(''tools'', PList server_tools)]))))
                 else if m = str ''tools/call''
                 then bnd (call_tool rf fr params) (\<lambda>r. ret (Some (rpc_response i r)))
                 else rpc_error (- 32601) ''method not found''))
          | _ \<Rightarrow> rpc_error (- 32600) ''method must be a non-empty string'')
     | _ \<Rightarrow> rpc_error (- 32600) ''request must be a JSON object'')"

definition error_response :: "pv \<Rightarrow> int \<Rightarrow> pystr \<Rightarrow> pdict option \<Rightarrow> pv" where
  "error_response i c m data = PDict (obj [(''jsonrpc'', PStr (str ''2.0'')), (''id'', i), (''error'', PDict (obj ([
     (''code'', PInt c), (''message'', PStr m)] @ (case data of None \<Rightarrow> [] | Some d \<Rightarrow> [(''data'', PDict d)]))))])"

text \<open>The handlers of the loop body, in their order.\<close>

definition failure_response :: "bool \<Rightarrow> pv \<Rightarrow> exn \<Rightarrow> pv option" where
  "failure_response is_notification i e =
     (if catches [JSONDecodeError] e
      then Some (error_response PNone (- 32700) (str ''parse error'') (Some (obj [(''detail'', PStr (exn_msg e))])))
      else if is_notification then None
      else Some (case exn_kind e of
          JsonRpcError c \<Rightarrow> error_response i c (exn_msg e) None
        | k \<Rightarrow> error_response i (- 32603) (str ''internal error'') (Some (obj [(''type'', PStr (exn_name k))]))))"

definition request_id_of :: "pv \<Rightarrow> pv" where
  "request_id_of v = (case v of PDict d \<Rightarrow> dget_none d (str ''id'') | _ \<Rightarrow> PNone)"

definition is_notification :: "pv \<Rightarrow> bool" where
  "is_notification v = (case v of PDict d \<Rightarrow> PStr (str ''id'') \<notin> set (map fst d) | _ \<Rightarrow> False)"

definition answer_line :: "(rat \<Rightarrow> pfloat) \<Rightarrow> (rat \<Rightarrow> pystr) \<Rightarrow> pystr \<Rightarrow> (mcp_server, pv option) py" where
  "answer_line rf fr line = (case json_loads Lenient rf line of
       None \<Rightarrow> ret (failure_response False PNone (Exn JSONDecodeError (str ''invalid JSON'')))
     | Some v \<Rightarrow> handle is_exception (handle_request rf fr v)
         (\<lambda>e. ret (failure_response (is_notification v) (request_id_of v) e)))"

text \<open>
  \<open>run_stdio\<close>. The lines are what iterating over \<open>stdin\<close> yields; \<open>emit\<close> is \<open>stdout.write\<close>, which
  raises for a text it cannot encode; the result has the documents written so far.
\<close>

fun run_stdio :: "(rat \<Rightarrow> pfloat) \<Rightarrow> (rat \<Rightarrow> pystr) \<Rightarrow> (pystr \<Rightarrow> unit res) \<Rightarrow> pystr list \<Rightarrow> mcp_server
    \<Rightarrow> unit res \<times> pv list \<times> mcp_server" where
  "run_stdio rf fr emit [] s = (Inr (), [], s)"
| "run_stdio rf fr emit (line # ls) s =
     (if blank line then run_stdio rf fr emit ls s
      else case answer_line rf fr line s of
        (Inl e, t) \<Rightarrow> (Inl e, [], t)
      | (Inr None, t) \<Rightarrow> run_stdio rf fr emit ls t
      | (Inr (Some v), t) \<Rightarrow> (case rbind (to_doc v) (\<lambda>d. emit (json_text fr d @ [10])) of
            Inl e \<Rightarrow> (Inl e, [], t)
          | Inr _ \<Rightarrow> (case run_stdio rf fr emit ls t of (r, vs, u) \<Rightarrow> (r, v # vs, u))))"

section \<open>Nothing is written\<close>

definition holds :: "ro_db \<Rightarrow> read_model \<Rightarrow> bool" where
  "holds db s \<longleftrightarrow> rm_db s = db"

lemma select_keeps [intro]: "keeps (holds db) (select_rows f)"
  by (auto simp: keeps_def holds_def select_rows_def db_step_def query_def split: list.splits fault.splits)

lemma read_model_keeps:
  "keeps (holds db) read_status" "keeps (holds db) (list_pathways rf l)" "keeps (holds db) (list_unresolved rf l)"
  "keeps (holds db) (get_pathway rf p)" "keeps (holds db) (get_evidence rf p l)" "keeps (holds db) (open_read_model b)"
  unfolding read_status_def list_pathways_def list_unresolved_def get_pathway_def get_evidence_def open_read_model_def
    validate_schema_def
  by (auto intro!: keeps_intros split: option.split)

lemma get_route_visibility_keeps: "keeps (holds db) (get_route_visibility rf p)"
  unfolding get_route_visibility_def by (auto intro!: keeps_intros read_model_keeps)

text \<open>The tools leave the flags of the server alone, too.\<close>

definition serving :: "ro_db \<Rightarrow> bool \<Rightarrow> bool \<Rightarrow> mcp_server \<Rightarrow> bool" where
  "serving db a b s \<longleftrightarrow> rm_db (sv_model s) = db \<and> sv_initialize_seen s = a \<and> sv_initialized s = b"

lemma reading_keeps: "keeps (holds db) m \<Longrightarrow> keeps (serving db a b) (reading m)"
  by (auto simp: keeps_def serving_def holds_def reading_def zoom_def split: prod.splits)

lemmas tools_keep = read_model_keeps [THEN reading_keeps] get_route_visibility_keeps [THEN reading_keeps]

lemma invoke_keeps: "keeps (serving db a b) (invoke_tool rf name d)"
  unfolding invoke_tool_def Let_def by (intro keeps_intros tools_keep)

lemma call_tool_keeps: "keeps (serving db a b) (call_tool rf fr v)"
  unfolding call_tool_def rpc_error_def
  by (auto intro!: keeps_intros invoke_keeps split: pv.split prod.split)

section \<open>What is read are documents\<close>

lemma update_doc: "items_doc d \<Longrightarrow> is_doc v \<Longrightarrow> items_doc (AList.update (PStr k) v d)"
  by (induction d) (auto simp: items_doc_iff)

lemma make_object_doc: "make_object hooks ps = Some d \<Longrightarrow> items_doc ps \<Longrightarrow> items_doc d"
proof -
  have "items_doc ps \<Longrightarrow> items_doc d \<Longrightarrow> items_doc (foldl (\<lambda>d (k, v). AList.update k v d) d ps)" for d
    by (induction ps arbitrary: d) (auto simp: update_doc split: pv.splits)
  then show "make_object hooks ps = Some d \<Longrightarrow> items_doc ps \<Longrightarrow> items_doc d"
    by (auto simp: make_object_def split: if_splits)
qed

lemma scan_word_in:
  assumes "scan_word ws s = Some (v, r)"
  shows "v \<in> snd ` set ws"
proof -
  from assms obtain w where "find (\<lambda>(w, _). take (length w) s = w) ws = Some (w, v)"
    by (auto simp: scan_word_def split: option.splits)
  then have "(w, v) \<in> set ws" by (induction ws) (auto split: if_splits)
  then show ?thesis by force
qed

lemma scan_scalar_doc:
  assumes "scan_scalar hooks rf s = Some (v, r)"
  shows "is_doc v"
proof -
  have "v \<in> snd ` set json_words \<or> v \<in> snd ` set json_constants \<or> (\<exists>r. scan_number rf s = Some (v, r))"
    using assms by (auto simp: scan_scalar_def dest: scan_word_in split: option.splits if_splits)
  then show ?thesis
    by (auto simp: json_words_def json_constants_def scan_number_def number_value_def Let_def split: prod.splits if_splits)
qed

lemma parse_doc:
  "(\<forall>s v r. parse_value hooks rf n s = Some (v, r) \<longrightarrow> is_doc v)
   \<and> (\<forall>s vs r. parse_elements hooks rf n s = Some (vs, r) \<longrightarrow> are_docs vs)
   \<and> (\<forall>s ps r. parse_members hooks rf n s = Some (ps, r) \<longrightarrow> items_doc ps)"
proof (induction n)
  case (Suc n)
  from Suc.IH have ih: "parse_value hooks rf n s = Some (v, r) \<Longrightarrow> is_doc v"
    "parse_elements hooks rf n s = Some (vs, r) \<Longrightarrow> are_docs vs"
    "parse_members hooks rf n s = Some (ps, r) \<Longrightarrow> items_doc ps" for s v r vs ps
    by blast+
  show ?case
  proof (intro conjI allI impI)
    fix s v r
    assume "parse_value hooks rf (Suc n) s = Some (v, r)"
    then show "is_doc v"
      by (auto dest: ih scan_scalar_doc make_object_doc split: list.splits if_splits option.splits)
  next
    fix s vs r
    assume "parse_elements hooks rf (Suc n) s = Some (vs, r)"
    then show "are_docs vs"
      by (auto dest: ih split: list.splits if_splits option.splits prod.splits)
  next
    fix s ps r
    assume p: "parse_members hooks rf (Suc n) s = Some (ps, r)"
    then obtain s' where s: "s = 34 # s'" by (auto split: list.splits if_splits)
    with p obtain k u where k: "scan_string s' = Some (k, u)" by (auto split: option.splits)
    with p s obtain r' where u: "skip_space u = 58 # r'" by (auto split: list.splits if_splits)
    with p s k obtain v x where v: "parse_value hooks rf n (skip_space r') = Some (v, x)"
      by (auto split: option.splits)
    with p s k u obtain c t where c: "skip_space x = c # t" by (auto split: list.splits)
    have "ps = [(PStr k, v)] \<or> (\<exists>qs. ps = (PStr k, v) # qs \<and> parse_members hooks rf n (skip_space t) = Some (qs, r))"
      using p s k u v c by (auto split: if_splits)
    with ih(1) [OF v] ih(3) show "items_doc ps" by auto
  qed
qed simp

lemma loads_doc: "json_loads hooks rf s = Some v \<Longrightarrow> is_doc v"
proof -
  assume "json_loads hooks rf s = Some v"
  then obtain r where "parse_value hooks rf (Suc (2 * length s)) (skip_space s) = Some (v, r)"
    by (auto simp: json_loads_def simp del: parse_value.simps split: if_splits option.splits)
  then show ?thesis using parse_doc [of hooks rf "Suc (2 * length s)"] by blast
qed

text \<open>What a computation may return and raise, whatever the state.\<close>

definition yields :: "('a \<Rightarrow> bool) \<Rightarrow> (exn \<Rightarrow> bool) \<Rightarrow> ('s, 'a) py \<Rightarrow> bool" where
  "yields P E m \<longleftrightarrow> (\<forall>s a t. m s = (Inr a, t) \<longrightarrow> P a) \<and> (\<forall>s e t. m s = (Inl e, t) \<longrightarrow> E e)"

lemma yields_intros:
  "P a \<Longrightarrow> yields P E (ret a)" "E e \<Longrightarrow> yields P E (throw e)" "E (Exn k (str m)) \<Longrightarrow> yields P E (raise k m)"
  "(\<And>a. r = Inr a \<Longrightarrow> P a) \<Longrightarrow> (\<And>e. r = Inl e \<Longrightarrow> E e) \<Longrightarrow> yields P E (lift r)"
  "(\<And>s a. f s = Inr a \<Longrightarrow> P a) \<Longrightarrow> (\<And>s e. f s = Inl e \<Longrightarrow> E e) \<Longrightarrow> yields P E (query f)"
  "(b \<Longrightarrow> yields P E n) \<Longrightarrow> (\<not> b \<Longrightarrow> yields P E n') \<Longrightarrow> yields P E (if b then n else n')"
  by (auto simp: yields_def ret_def throw_def raise_def lift_def query_def)

lemma yieldsD:
  "yields P E m \<Longrightarrow> m s = (Inr a, t) \<Longrightarrow> P a" "yields P E m \<Longrightarrow> m s = (Inl e, t) \<Longrightarrow> E e"
  unfolding yields_def by blast+

lemma yields_bnd:
  assumes "yields A E m" "\<And>a. A a \<Longrightarrow> yields P E (f a)"
  shows "yields P E (bnd m f)"
  unfolding yields_def
proof (intro conjI allI impI)
  fix s b t
  assume "bnd m f s = (Inr b, t)"
  then obtain a u where "m s = (Inr a, u)" "f a u = (Inr b, t)" by (auto simp: bnd_def split: prod.splits sum.splits)
  with assms show "P b" by (blast dest: yieldsD)
next
  fix s e t
  assume "bnd m f s = (Inl e, t)"
  then consider "m s = (Inl e, t)" | a u where "m s = (Inr a, u)" "f a u = (Inl e, t)"
    by (auto simp: bnd_def split: prod.splits sum.splits)
  then show "E e" using assms by cases (blast dest: yieldsD)+
qed

lemma yields_seq: "yields A E m \<Longrightarrow> yields P E n \<Longrightarrow> yields P E (seq m n)"
  unfolding seq_def by (rule yields_bnd)

lemma yields_handle:
  assumes "yields P E' m" "\<And>e. E' e \<Longrightarrow> c e \<Longrightarrow> yields P E (h e)" "\<And>e. E' e \<Longrightarrow> \<not> c e \<Longrightarrow> E e"
  shows "yields P E (handle c m h)"
  unfolding yields_def
proof (intro conjI allI impI)
  fix s b t
  assume "handle c m h s = (Inr b, t)"
  then consider "m s = (Inr b, t)" | e u where "m s = (Inl e, u)" "c e" "h e u = (Inr b, t)"
    by (auto simp: handle_def split: prod.splits sum.splits if_splits)
  then show "P b" using assms by cases (blast dest: yieldsD)+
next
  fix s x t
  assume "handle c m h s = (Inl x, t)"
  then consider "m s = (Inl x, t)" "\<not> c x" | e u where "m s = (Inl e, u)" "c e" "h e u = (Inl x, t)"
    by (auto simp: handle_def split: prod.splits sum.splits if_splits)
  then show "E x" using assms by cases (blast dest: yieldsD)+
qed

lemma yields_reading:
  assumes "yields P E m"
  shows "yields P E (reading m)"
  unfolding yields_def
proof (intro conjI allI impI)
  fix s b t
  assume "reading m s = (Inr b, t)"
  then obtain u where "m (sv_model s) = (Inr b, u)" by (auto simp: reading_def zoom_def split: prod.splits)
  with assms show "P b" by (blast dest: yieldsD)
next
  fix s e t
  assume "reading m s = (Inl e, t)"
  then obtain u where "m (sv_model s) = (Inl e, u)" by (auto simp: reading_def zoom_def split: prod.splits)
  with assms show "E e" by (blast dest: yieldsD)
qed

lemma yields_any: "yields (\<lambda>_. True) (\<lambda>_. True) m"
  by (simp add: yields_def)

abbreviation gives :: "('a \<Rightarrow> bool) \<Rightarrow> ('s, 'a) py \<Rightarrow> bool" where
  "gives P \<equiv> yields P (\<lambda>_. True)"

lemma gives_bnd: "(\<And>a. gives P (f a)) \<Longrightarrow> gives P (bnd m f)"
  by (rule yields_bnd [OF yields_any])

lemma gives_lift: "(\<And>a. r = Inr a \<Longrightarrow> P a) \<Longrightarrow> gives P (lift r)"
  by (rule yields_intros(4)) auto

lemma row_of_doc: "row_of rf r = Inr d \<Longrightarrow> items_doc d"
  by (auto simp: row_of_def rbind_eq_Inr loads_text_def obj_def dest: loads_doc split: option.splits)

lemma rows_of_all_doc: "rows_of_all rf rs = Inr vs \<Longrightarrow> are_docs vs"
  by (induction rs arbitrary: vs) (auto simp: rbind_eq_Inr dest: row_of_doc)

lemma event_rows_doc: "event_rows_of rf es = Inr vs \<Longrightarrow> are_docs vs"
  by (induction es arbitrary: vs) (auto simp: rbind_eq_Inr loads_text_def obj_def dest: loads_doc split: option.splits)

lemma dget_none_doc: "items_doc d \<Longrightarrow> is_doc (dget_none d k)"
  by (induction d) (auto simp: dget_none_def dget_def split: if_splits option.splits pv.splits)

lemma dget_default_doc: "items_doc d \<Longrightarrow> is_doc v \<Longrightarrow> is_doc (dget_default d k v)"
  by (induction d) (auto simp: dget_default_def dget_def split: if_splits option.splits pv.splits)

lemma read_model_docs:
  "gives items_doc read_status" "gives are_docs (list_pathways rf l)" "gives are_docs (list_unresolved rf l)"
  "gives are_docs (get_evidence rf p l)" "gives items_doc (get_pathway rf p)"
proof -
  show "gives items_doc read_status"
    unfolding read_status_def
    by (intro gives_bnd) (auto split: option.split intro!: gives_bnd yields_intros simp: obj_def)
  show "gives are_docs (list_pathways rf l)" "gives are_docs (list_unresolved rf l)"
    unfolding list_pathways_def list_unresolved_def by (intro gives_bnd gives_lift; erule rows_of_all_doc)+
  show "gives are_docs (get_evidence rf p l)"
    unfolding get_evidence_def
    by (intro gives_bnd) (auto split: option.split intro!: gives_bnd gives_lift yields_intros dest: event_rows_doc)
  show "gives items_doc (get_pathway rf p)"
    unfolding get_pathway_def
    by (intro gives_bnd) (auto split: option.split intro!: gives_lift yields_intros dest: row_of_doc)
qed

lemma route_visibility_doc:
  assumes "build_route_visibility st d = Inr v" "items_doc d"
  shows "items_doc v"
proof -
  have "items_doc [(PStr (str k), dget_none d (str k))]" for k using dget_none_doc [OF assms(2)] by simp
  with assms show ?thesis
    using dget_none_doc [OF assms(2)]
    by (auto simp: build_route_visibility_def rbind_eq_Inr Let_def obj_def split: option.splits)
qed

lemma visibility_gives: "gives items_doc (get_route_visibility rf p)"
  unfolding get_route_visibility_def
proof (rule yields_bnd [OF read_model_docs(5)])
  fix d
  assume d: "items_doc d"
  have "is_doc (dget_none d (str ''definition''))" by (rule dget_none_doc [OF d])
  then have "rbind (as_mapping (dget_none d (str ''definition''))) (\<lambda>m. build_route_visibility (key_text (dget_none d (str ''state''))) m)
      = Inr v \<Longrightarrow> items_doc v" for v
    by (auto simp: as_mapping_def rbind_eq_Inr dest: route_visibility_doc split: pv.splits)
  then show "gives items_doc (bnd (lift (rbind (as_mapping (dget_none d (str ''definition''))) (\<lambda>m.
       build_route_visibility (key_text (dget_none d (str ''state''))) m))) (\<lambda>v.
     ret (obj [(''pathway_id'', dget_none d (str ''pathway_id''))] @ v)))"
    using dget_none_doc [OF d, of "str ''pathway_id''"]
    by (intro yields_bnd [where A = items_doc] yields_intros) (auto simp: obj_def)
qed

section \<open>What the server answers\<close>

lemma invoke_gives: "items_doc d \<Longrightarrow> gives is_doc (invoke_tool rf name d)"
  unfolding invoke_tool_def Let_def
  by (intro yields_intros yields_seq [OF yields_any] yields_bnd [OF yields_reading [OF read_model_docs(1)]]
      yields_bnd [OF yields_reading [OF read_model_docs(2)]] yields_bnd [OF yields_reading [OF read_model_docs(3)]]
      yields_bnd [OF yields_reading [OF read_model_docs(4)]] yields_bnd [OF yields_reading [OF read_model_docs(5)]]
      yields_bnd [OF yields_reading [OF visibility_gives]]) (simp_all add: obj_def dget_none_doc)

definition not_parse_error :: "exn \<Rightarrow> bool" where
  "not_parse_error e \<longleftrightarrow> \<not> catches [JSONDecodeError] e"

lemma not_parse_error_simps [simp]:
  "not_parse_error (Exn (JsonRpcError c) m)"
  "\<not> catches [ValueError, ReadOnlyDatabaseError] e \<Longrightarrow> not_parse_error e"
proof -
  show "not_parse_error (Exn (JsonRpcError c) m)" by (simp add: not_parse_error_def catches_def)
  assume "\<not> catches [ValueError, ReadOnlyDatabaseError] e"
  then show "not_parse_error e" unfolding not_parse_error_def catches_def by (cases "exn_kind e") auto
qed

lemma tool_result_doc:
  assumes "is_doc w"
  shows "\<exists>r. tool_result fr b w = Inr r \<and> items_doc r"
  using assms by (simp add: tool_result_def canonical_doc_def to_doc_doc(1) obj_def)

lemma call_tool_yields:
  assumes "is_doc v"
  shows "yields items_doc not_parse_error (call_tool rf fr v)"
proof -
  have rpc: "yields P not_parse_error (rpc_error c m)" for P c m
    unfolding rpc_error_def by (rule yields_intros(3)) simp
  have "yields items_doc not_parse_error (bnd (handle (catches [ValueError, ReadOnlyDatabaseError])
       (handle (catches [KeyError]) (bnd (invoke_tool rf name args) (\<lambda>w. ret (False, w)))
          (\<lambda>e. ret (True, PDict (obj [(''error'', PStr (str ''pathway_not_found'')), (''pathway_id'', PStr (exn_msg e))]))))
       (\<lambda>e. ret (True, PDict (obj [(''error'', PStr (str ''invalid_request'')), (''message'', PStr (exn_msg e))]))))
       (\<lambda>(b, w). lift (tool_result fr b w)))" if args: "items_doc args" for name args
  proof (rule yields_bnd [where A = "\<lambda>(b, w). is_doc w"])
    show "yields (\<lambda>(b, w). is_doc w) not_parse_error (handle (catches [ValueError, ReadOnlyDatabaseError])
       (handle (catches [KeyError]) (bnd (invoke_tool rf name args) (\<lambda>w. ret (False, w)))
          (\<lambda>e. ret (True, PDict (obj [(''error'', PStr (str ''pathway_not_found'')), (''pathway_id'', PStr (exn_msg e))]))))
       (\<lambda>e. ret (True, PDict (obj [(''error'', PStr (str ''invalid_request'')), (''message'', PStr (exn_msg e))]))))"
      by (rule yields_handle [where E' = "\<lambda>_. True"], rule yields_handle [where E' = "\<lambda>_. True"],
          rule yields_bnd [OF invoke_gives [OF args]]) (auto intro!: yields_intros simp: obj_def)
  next
    show "yields items_doc not_parse_error (case bw of (b, w) \<Rightarrow> lift (tool_result fr b w))"
      if "case bw of (b, w) \<Rightarrow> is_doc w" for bw
    proof -
      obtain b w where bw: "bw = (b, w)" by (cases bw)
      with that have "is_doc w" by simp
      then obtain r where "tool_result fr b w = Inr r" "items_doc r" using tool_result_doc by blast
      then show ?thesis unfolding bw by (auto intro: yields_intros(4))
    qed
  qed
  moreover have "dget_default d k (PDict []) = PDict args \<Longrightarrow> items_doc d \<Longrightarrow> items_doc args" for d k args
    by (metis dget_default_doc is_doc.simps(3) items_doc.simps(1))
  ultimately show ?thesis
    using assms unfolding call_tool_def by (auto intro!: rpc yields_intros(6) split: pv.split)
qed

definition request_method :: "pv \<Rightarrow> pv" where
  "request_method v = (case v of PDict d \<Rightarrow> dget_none d (str ''method'') | _ \<Rightarrow> PNone)"

text \<open>One request: the handshake moves the flags, and only then are tools served.\<close>

definition answer_of :: "pv \<Rightarrow> pv \<Rightarrow> bool" where
  "answer_of v y \<longleftrightarrow> (\<exists>r. y = rpc_response (request_id_of v) r \<and> items_doc r)"

lemma initialize_yields: "yields items_doc not_parse_error (initialize_result v)"
  unfolding initialize_result_def rpc_error_def
  by (auto intro!: yields_intros simp: obj_def split: pv.split)

lemma initialize_same: "initialize_result v s = (r, t) \<Longrightarrow> t = s"
  by (auto simp: initialize_result_def rpc_error_def raise_def throw_def ret_def split: pv.splits if_splits)

lemma empty_params_same: "empty_params v s = (r, t) \<Longrightarrow> t = s \<and> (\<forall>e. r = Inl e \<longrightarrow> not_parse_error e)"
  by (auto simp: empty_params_def rpc_error_def raise_def throw_def ret_def split: pv.splits list.splits)

lemma server_tools_doc: "are_docs server_tools"
  by (simp add: server_tools_def tool_entry_def limit_schema_def id_schema_def obj_def)

definition request_effect :: "ro_db \<Rightarrow> pv \<Rightarrow> mcp_server \<Rightarrow> pv option res \<Rightarrow> mcp_server \<Rightarrow> bool" where
  "request_effect db v s r t \<longleftrightarrow>
     (if request_method v = PStr (str ''initialize'')
      then (\<exists>y. r = Inr (Some y) \<and> answer_of v y \<and> t = s\<lparr>sv_initialize_seen := True\<rparr>) \<or> (\<exists>e. r = Inl e \<and> not_parse_error e) \<and> t = s
      else if request_method v = PStr (str ''notifications/initialized'')
      then r = Inr None \<and> sv_initialize_seen s \<and> t = s\<lparr>sv_initialized := True\<rparr> \<or> (\<exists>e. r = Inl e \<and> not_parse_error e) \<and> t = s
      else serving db (sv_initialize_seen s) (sv_initialized s) t
        \<and> ((\<exists>y. r = Inr (Some y) \<and> answer_of v y \<and> sv_initialized s) \<or> (\<exists>e. r = Inl e \<and> not_parse_error e)))"

lemma request_effect_error:
  "rm_db (sv_model s) = db \<Longrightarrow> rpc_error c m s = (r, t) \<Longrightarrow> request_effect db v s r t"
  by (auto simp: request_effect_def rpc_error_def raise_def throw_def serving_def)

lemma handle_request_effect:
  assumes "is_doc v" "rm_db (sv_model s) = db" "handle_request rf fr v s = (r, t)"
  shows "request_effect db v s r t"
proof -
  note rpc = request_effect_error [OF assms(2), of _ _ r t v]
  consider (no_object) "\<forall>d. v \<noteq> PDict d"
    | (bad_method) d where "v = PDict d" "\<forall>m. dget_none d (str ''method'') \<noteq> PStr m"
    | (request) d m where "v = PDict d" "dget_none d (str ''method'') = PStr m"
    by (cases v) auto
  then show ?thesis
  proof cases
    case no_object
    then have "handle_request rf fr v s = rpc_error (- 32600) ''request must be a JSON object'' s"
      by (simp add: handle_request_def split: pv.split)
    with assms(3) rpc show ?thesis by simp
  next
    case (bad_method d)
    then have "\<exists>c x. handle_request rf fr v s = rpc_error c x s"
      by (auto simp: handle_request_def Let_def split: pv.split)
    with assms(3) rpc show ?thesis by auto
  next
    case (request d m)
    then have v: "request_method v = PStr m" "request_id_of v = dget_none d (str ''id'')" and d: "items_doc d"
      using assms(1) by (simp_all add: request_method_def request_id_of_def)
    let ?params = "dget_none d (str ''params'')" and ?i = "dget_none d (str ''id'')"
    have p: "is_doc ?params" by (rule dget_none_doc [OF d])
    have h: "handle_request rf fr v s = (if dget_none d (str ''jsonrpc'') \<noteq> PStr (str ''2.0'') then rpc_error (- 32600) ''jsonrpc must be 2.0'' s
        else if m = [] then rpc_error (- 32600) ''method must be a non-empty string'' s
        else if m = str ''notifications/initialized''
        then (case empty_params ?params s of (Inl e, u) \<Rightarrow> (Inl e, u)
          | (Inr _, u) \<Rightarrow> if \<not> sv_initialize_seen u then rpc_error (- 32002) ''initialize request has not completed'' u
              else (Inr None, u\<lparr>sv_initialized := True\<rparr>))
        else if m = str ''initialize''
        then (case initialize_result ?params s of (Inl e, u) \<Rightarrow> (Inl e, u)
          | (Inr x, u) \<Rightarrow> (Inr (Some (rpc_response ?i x)), u\<lparr>sv_initialize_seen := True\<rparr>))
        else if \<not> sv_initialized s then rpc_error (- 32002) ''server has not received notifications/initialized'' s
        else if m = str ''ping''
        then (case empty_params ?params s of (Inl e, u) \<Rightarrow> (Inl e, u) | (Inr _, u) \<Rightarrow> (Inr (Some (rpc_response ?i [])), u))
        else if m = str ''tools/list''
        then (case empty_params ?params s of (Inl e, u) \<Rightarrow> (Inl e, u)
          | (Inr _, u) \<Rightarrow> (Inr (Some (rpc_response ?i (obj [(''tools'', PList server_tools)]))), u))
        else if m = str ''tools/call''
        then (case call_tool rf fr ?params s of (Inl e, u) \<Rightarrow> (Inl e, u) | (Inr x, u) \<Rightarrow> (Inr (Some (rpc_response ?i x)), u))
        else rpc_error (- 32601) ''method not found'' s)"
      by (simp add: handle_request_def request Let_def seq_def bnd_def query_def ret_def split: prod.split sum.split)
    show ?thesis
    proof (cases "dget_none d (str ''jsonrpc'') \<noteq> PStr (str ''2.0'') \<or> m = []")
      case True
      with assms(3) rpc show ?thesis unfolding h by (auto split: if_splits)
    next
      case j: False
      consider "m = str ''notifications/initialized''" | "m = str ''initialize''"
        | "m \<noteq> str ''notifications/initialized''" "m \<noteq> str ''initialize''" by blast
      then show ?thesis
      proof cases
        case 1
        with assms(3) j have r: "(case empty_params ?params s of (Inl e, u) \<Rightarrow> (Inl e, u)
          | (Inr _, u) \<Rightarrow> if \<not> sv_initialize_seen u then rpc_error (- 32002) ''initialize request has not completed'' u
              else (Inr None, u\<lparr>sv_initialized := True\<rparr>)) = (r, t)" unfolding h by simp
        obtain x where x: "empty_params ?params s = (x, s)" "\<And>e. x = Inl e \<Longrightarrow> not_parse_error e"
          using empty_params_same [of ?params s] by (cases "empty_params ?params s") auto
        with r v 1 show ?thesis
          by (cases x) (auto simp: request_effect_def rpc_error_def raise_def throw_def split: if_splits)
      next
        case 2
        with assms(3) j have r: "(case initialize_result ?params s of (Inl e, u) \<Rightarrow> (Inl e, u)
          | (Inr x, u) \<Rightarrow> (Inr (Some (rpc_response ?i x)), u\<lparr>sv_initialize_seen := True\<rparr>)) = (r, t)" unfolding h by simp
        obtain x where x: "initialize_result ?params s = (x, s)"
          using initialize_same [of ?params s] by (cases "initialize_result ?params s") auto
        with r v 2 yieldsD [OF initialize_yields, of ?params s] show ?thesis
          by (cases x) (auto simp: request_effect_def answer_of_def)
      next
        case 3
        then have e: "request_effect db v s r t \<longleftrightarrow> serving db (sv_initialize_seen s) (sv_initialized s) t
          \<and> ((\<exists>y. r = Inr (Some y) \<and> answer_of v y \<and> sv_initialized s) \<or> (\<exists>e. r = Inl e \<and> not_parse_error e))"
          by (simp add: request_effect_def v)
        have s0: "serving db (sv_initialize_seen s) (sv_initialized s) s" using assms(2) by (simp add: serving_def)
        obtain x where x: "empty_params ?params s = (x, s)" "\<And>e. x = Inl e \<Longrightarrow> not_parse_error e"
          using empty_params_same [of ?params s] by (cases "empty_params ?params s") auto
        obtain y u where y: "call_tool rf fr ?params s = (y, u)" by (cases "call_tool rf fr ?params s")
        have u: "serving db (sv_initialize_seen s) (sv_initialized s) u"
          using keepsD [OF call_tool_keeps s0 y] .
        have a: "items_doc r \<Longrightarrow> answer_of v (rpc_response ?i r)" for r by (auto simp: answer_of_def v)
        note z = yieldsD [OF call_tool_yields [OF p, of rf fr]]
        show ?thesis
        proof (cases "sv_initialized s \<and> m \<in> {str ''ping'', str ''tools/list'', str ''tools/call''}")
          case True
          with assms(3) j 3 x s0 show ?thesis
            unfolding e h using y u z [of s] a
            by (cases x; cases y) (auto simp: server_tools_doc obj_def split: if_splits)
        next
          case False
          with assms(3) j 3 rpc show ?thesis unfolding h by (auto split: if_splits)
        qed
      qed
    qed
  qed
qed

section \<open>The run\<close>

definition asks :: "(rat \<Rightarrow> pfloat) \<Rightarrow> pystr \<Rightarrow> string \<Rightarrow> bool" where
  "asks rf line m \<longleftrightarrow> (\<exists>v. json_loads Lenient rf line = Some v \<and> request_method v = PStr (str m))"

text \<open>
  What may come out for a line: nothing for a blank line, for a notification and for the
  \<open>initialized\<close> message; else one response that carries the id of the request.
\<close>

definition line_id :: "(rat \<Rightarrow> pfloat) \<Rightarrow> pystr \<Rightarrow> pv" where
  "line_id rf line = (case json_loads Lenient rf line of None \<Rightarrow> PNone | Some v \<Rightarrow> request_id_of v)"

definition line_answer :: "(rat \<Rightarrow> pfloat) \<Rightarrow> pystr \<Rightarrow> pv option \<Rightarrow> bool" where
  "line_answer rf line x \<longleftrightarrow> (case x of
       None \<Rightarrow> blank line \<or> asks rf line ''notifications/initialized''
         \<or> (\<exists>v. json_loads Lenient rf line = Some v \<and> is_notification v)
     | Some y \<Rightarrow> \<not> blank line \<and> (\<exists>k z. k \<in> {''result'', ''error''}
         \<and> y = PDict (obj [(''jsonrpc'', PStr (str ''2.0'')), (''id'', line_id rf line), (k, z)])))"

lemma rpc_response_not_error: "rpc_response i d \<noteq> error_response j c m x"
  by (simp add: rpc_response_def error_response_def obj_def)

lemma failure_shape:
  assumes "not_parse_error e" "failure_response b i e = Some y"
  shows "\<not> b" "\<exists>c m x. y = error_response i c m x"
proof -
  show "\<not> b" using assms by (auto simp: failure_response_def not_parse_error_def split: if_splits)
  with assms have "y = (case exn_kind e of JsonRpcError c \<Rightarrow> error_response i c (exn_msg e) None
      | k \<Rightarrow> error_response i (- 32603) (str ''internal error'') (Some (obj [(''type'', PStr (exn_name k))])))"
    by (simp add: failure_response_def not_parse_error_def)
  then show "\<exists>c m x. y = error_response i c m x" by (cases "exn_kind e") (simp_all only: exn_kind.case, blast+)
qed

lemma failure_answer:
  assumes "not_parse_error e" "failure_response b i e = Some y"
  shows "\<not> b" "\<exists>z. y = PDict (obj [(''jsonrpc'', PStr (str ''2.0'')), (''id'', i), (''error'', z)])"
    "y \<noteq> rpc_response j d"
proof -
  obtain c m x where y: "\<not> b" "y = error_response i c m x" using failure_shape [OF assms] by blast
  show "\<not> b" by (rule y(1))
  show "y \<noteq> rpc_response j d" using rpc_response_not_error [of j d i c m x] y(2) by metis
  show "\<exists>z. y = PDict (obj [(''jsonrpc'', PStr (str ''2.0'')), (''id'', i), (''error'', z)])"
    using y(2) unfolding error_response_def by blast
qed

lemma failure_doc:
  assumes "not_parse_error e" "failure_response b i e = Some y" "is_doc i"
  shows "is_doc y"
proof -
  from assms(1,2) have "y = (case exn_kind e of JsonRpcError c \<Rightarrow> error_response i c (exn_msg e) None
      | k \<Rightarrow> error_response i (- 32603) (str ''internal error'') (Some (obj [(''type'', PStr (exn_name k))])))"
    by (auto simp: failure_response_def not_parse_error_def split: if_splits)
  moreover have "is_doc (error_response i c m None)" "is_doc (error_response i c m (Some (obj [(''type'', PStr n)])))" for c m n
    using assms(3) by (simp_all add: error_response_def obj_def)
  ultimately show ?thesis by (cases "exn_kind e") (simp_all only: exn_kind.case)
qed

lemma failure_none: "not_parse_error e \<Longrightarrow> failure_response b i e = None \<Longrightarrow> b"
  by (auto simp: failure_response_def not_parse_error_def split: if_splits)

definition line_effect :: "(rat \<Rightarrow> pfloat) \<Rightarrow> pystr \<Rightarrow> mcp_server \<Rightarrow> pv option res \<Rightarrow> mcp_server \<Rightarrow> bool" where
  "line_effect rf line s x t \<longleftrightarrow> rm_db (sv_model t) = rm_db (sv_model s)
     \<and> (sv_initialize_seen t \<longrightarrow> sv_initialize_seen s \<or> asks rf line ''initialize'')
     \<and> (sv_initialized t \<longrightarrow> sv_initialized s \<or> asks rf line ''notifications/initialized'' \<and> sv_initialize_seen s)
     \<and> (case x of Inl e \<Rightarrow> \<not> is_exception e
        | Inr y \<Rightarrow> line_answer rf line y \<and> (case y of None \<Rightarrow> True | Some z \<Rightarrow> is_doc z)
            \<and> (\<forall>i d. y = Some (rpc_response i d) \<longrightarrow> asks rf line ''initialize'' \<or> sv_initialized s))"

lemma answer_line_effect:
  assumes "\<not> blank line" "answer_line rf fr line s = (x, t)"
  shows "line_effect rf line s x t"
proof (cases "json_loads Lenient rf line")
  case None
  let ?f = "failure_response False PNone (Exn JSONDecodeError (str ''invalid JSON''))"
  from None assms(2) have x: "x = Inr ?f" "t = s" by (simp_all add: answer_line_def ret_def)
  have "?f = Some (error_response PNone (- 32700) (str ''parse error'') (Some (obj [(''detail'', PStr (str ''invalid JSON''))])))"
    by (simp add: failure_response_def catches_def)
  with x None assms(1) show ?thesis
    using rpc_response_not_error
    by (auto simp: line_effect_def line_answer_def line_id_def error_response_def [of PNone] obj_def rpc_response_def)
next
  case (Some v)
  let ?h = "handle_request rf fr v s"
  obtain r u where h: "?h = (r, u)" by (cases ?h)
  note doc = loads_doc [OF Some]
  have eff: "request_effect (rm_db (sv_model s)) v s r u" by (rule handle_request_effect [OF doc refl h])
  have idd: "is_doc (request_id_of v)" using doc by (auto simp: request_id_of_def dest: dget_none_doc split: pv.splits)
  have asks: "asks rf line m \<longleftrightarrow> request_method v = PStr (str m)" for m by (simp add: asks_def Some)
  have flags: "rm_db (sv_model u) = rm_db (sv_model s)
     \<and> (sv_initialize_seen u \<longrightarrow> sv_initialize_seen s \<or> asks rf line ''initialize'')
     \<and> (sv_initialized u \<longrightarrow> sv_initialized s \<or> asks rf line ''notifications/initialized'' \<and> sv_initialize_seen s)"
    using eff by (auto simp: request_effect_def serving_def asks split: if_splits)
  show ?thesis
  proof (cases r)
    case (Inl e)
    have ne: "not_parse_error e" using eff Inl by (auto simp: request_effect_def split: if_splits)
    show ?thesis
    proof (cases "is_exception e")
      case False
      with assms(2) Some h Inl have "x = Inl e" "t = u" by (simp_all add: answer_line_def handle_def)
      with flags False show ?thesis by (simp add: line_effect_def)
    next
      case True
      let ?f = "failure_response (is_notification v) (request_id_of v) e"
      from True assms(2) Some h Inl have x: "x = Inr ?f" "t = u" by (simp_all add: answer_line_def handle_def ret_def)
      have "line_answer rf line ?f \<and> (case ?f of None \<Rightarrow> True | Some z \<Rightarrow> is_doc z)
          \<and> (\<forall>i d. ?f \<noteq> Some (rpc_response i d))"
      proof (cases ?f)
        case None
        with failure_none [OF ne] Some show ?thesis by (auto simp: line_answer_def)
      next
        case (Some y)
        with failure_answer [OF ne Some] failure_doc [OF ne Some idd] assms(1) \<open>json_loads Lenient rf line = Some v\<close>
        show ?thesis by (auto simp: line_answer_def line_id_def)
      qed
      with x flags show ?thesis by (simp add: line_effect_def)
    qed
  next
    case (Inr y)
    with assms(2) Some h have x: "x = Inr y" "t = u" by (simp_all add: answer_line_def handle_def)
    have "line_answer rf line y \<and> (case y of None \<Rightarrow> True | Some z \<Rightarrow> is_doc z)
        \<and> (\<forall>i d. y = Some (rpc_response i d) \<longrightarrow> asks rf line ''initialize'' \<or> sv_initialized s)"
    proof (cases y)
      case None
      with eff Inr show ?thesis by (auto simp: request_effect_def line_answer_def asks split: if_splits)
    next
      case (Some z)
      with eff Inr have "answer_of v z" "asks rf line ''initialize'' \<or> sv_initialized s"
        by (auto simp: request_effect_def asks split: if_splits)
      then show ?thesis
        using Some assms(1) idd \<open>json_loads Lenient rf line = Some v\<close>
        by (auto simp: line_answer_def line_id_def answer_of_def rpc_response_def obj_def)
    qed
    with x flags show ?thesis by (simp add: line_effect_def)
  qed
qed

text \<open>The documents written for the answers to the lines.\<close>

definition written :: "pv option list \<Rightarrow> pv list" where
  "written xs = List.map_filter (\<lambda>x. x) xs"

lemma written_simps [simp]: "written [] = []" "written (None # xs) = written xs" "written (Some y # xs) = y # written xs"
  by (simp_all add: written_def List.map_filter_simps)

lemma run_stdio_answers:
  assumes "run_stdio rf fr emit ls s = (r, out, t)"
  shows "rm_db (sv_model t) = rm_db (sv_model s)
    \<and> (\<exists>ls1 ls2 xs. ls = ls1 @ ls2 \<and> list_all2 (line_answer rf) ls1 xs \<and> out = written xs \<and> (r = Inr () \<longrightarrow> ls2 = [])
      \<and> (\<forall>e. r = Inl e \<longrightarrow> ls2 \<noteq> [] \<and> (\<not> is_exception e \<or> (\<exists>w. emit w = Inl e))))"
  using assms
proof (induction ls arbitrary: s out)
  case (Cons line ls)
  show ?case
  proof (cases "blank line")
    case True
    with Cons.prems have "run_stdio rf fr emit ls s = (r, out, t)" by simp
    from Cons.IH [OF this] obtain ls1 ls2 xs where "rm_db (sv_model t) = rm_db (sv_model s)" "ls = ls1 @ ls2"
      "list_all2 (line_answer rf) ls1 xs" "out = written xs" "r = Inr () \<longrightarrow> ls2 = []"
      "\<forall>e. r = Inl e \<longrightarrow> ls2 \<noteq> [] \<and> (\<not> is_exception e \<or> (\<exists>w. emit w = Inl e))" by blast
    moreover from True have "line_answer rf line None" by (simp add: line_answer_def)
    ultimately show ?thesis
      by (intro conjI) (simp, intro exI [of _ "line # ls1"] exI [of _ ls2] exI [of _ "None # xs"], simp)
  next
    case nb: False
    obtain x u where x: "answer_line rf fr line s = (x, u)" by (cases "answer_line rf fr line s")
    note eff = answer_line_effect [OF nb x]
    then have db: "rm_db (sv_model u) = rm_db (sv_model s)" by (simp add: line_effect_def)
    show ?thesis
    proof (cases x)
      case (Inl e)
      with Cons.prems nb x have "r = Inl e" "out = []" "t = u" by simp_all
      moreover from eff Inl have "\<not> is_exception e" by (simp add: line_effect_def)
      ultimately show ?thesis
        using db by (intro conjI) (simp, intro exI [of _ "[]"] exI [of _ "line # ls"], simp)
    next
      case (Inr y)
      from eff Inr have ans: "line_answer rf line y" by (simp add: line_effect_def)
      show ?thesis
      proof (cases y)
        case None
        with Cons.prems nb x Inr have "run_stdio rf fr emit ls u = (r, out, t)" by simp
        from Cons.IH [OF this] obtain ls1 ls2 xs where "rm_db (sv_model t) = rm_db (sv_model u)" "ls = ls1 @ ls2"
          "list_all2 (line_answer rf) ls1 xs" "out = written xs" "r = Inr () \<longrightarrow> ls2 = []"
          "\<forall>e. r = Inl e \<longrightarrow> ls2 \<noteq> [] \<and> (\<not> is_exception e \<or> (\<exists>w. emit w = Inl e))" by blast
        with db ans None show ?thesis
          by (intro conjI) (simp, intro exI [of _ "line # ls1"] exI [of _ ls2] exI [of _ "None # xs"], simp)
      next
        case (Some z)
        from eff Inr Some have d: "to_doc z = Inr z" by (auto simp: line_effect_def to_doc_doc(1))
        show ?thesis
        proof (cases "emit (json_text fr z @ [10])")
          case (Inl e)
          with Cons.prems nb x Inr Some d have "r = Inl e" "out = []" "t = u" by simp_all
          with Inl db show ?thesis
            by (intro conjI) (simp, intro exI [of _ "[]"] exI [of _ "line # ls"], auto)
        next
          case w: (Inr v)
          obtain vs where rest: "run_stdio rf fr emit ls u = (r, vs, t)" "out = z # vs"
            using Cons.prems nb x Inr Some d w by (auto split: prod.splits)
          from Cons.IH [OF rest(1)] obtain ls1 ls2 xs where "rm_db (sv_model t) = rm_db (sv_model u)" "ls = ls1 @ ls2"
            "list_all2 (line_answer rf) ls1 xs" "vs = written xs" "r = Inr () \<longrightarrow> ls2 = []"
            "\<forall>e. r = Inl e \<longrightarrow> ls2 \<noteq> [] \<and> (\<not> is_exception e \<or> (\<exists>w. emit w = Inl e))" by blast
          with db ans Some rest(2) show ?thesis
            by (intro conjI) (simp, intro exI [of _ "line # ls1"] exI [of _ ls2] exI [of _ "Some z # xs"], simp)
        qed
      qed
    qed
  qed
qed auto

lemma run_stdio_flags:
  assumes "run_stdio rf fr emit ls s = (r, out, t)"
  shows "(sv_initialize_seen t \<longrightarrow> sv_initialize_seen s \<or> (\<exists>a \<in> set ls. asks rf a ''initialize''))
    \<and> (sv_initialized t \<longrightarrow> sv_initialized s \<or> (\<exists>xs b ys. ls = xs @ b # ys \<and> asks rf b ''notifications/initialized''
        \<and> (sv_initialize_seen s \<or> (\<exists>a \<in> set xs. asks rf a ''initialize''))))"
  using assms
proof (induction ls arbitrary: s out)
  case (Cons line ls)
  show ?case
  proof (cases "blank line")
    case True
    with Cons.prems have "run_stdio rf fr emit ls s = (r, out, t)" by simp
    from Cons.IH [OF this] show ?thesis by (auto; metis append_Cons list.set_intros(2))
  next
    case nb: False
    obtain x u where x: "answer_line rf fr line s = (x, u)" by (cases "answer_line rf fr line s")
    note eff = answer_line_effect [OF nb x, unfolded line_effect_def]
    have "t = u \<or> (\<exists>vs. run_stdio rf fr emit ls u = (r, vs, t))"
      using Cons.prems nb x by (auto split: sum.splits option.splits prod.splits)
    then show ?thesis
    proof
      assume "t = u"
      with eff have "sv_initialize_seen t \<longrightarrow> sv_initialize_seen s \<or> asks rf line ''initialize''"
        "sv_initialized t \<longrightarrow> sv_initialized s \<or> asks rf line ''notifications/initialized'' \<and> sv_initialize_seen s" by auto
      then show ?thesis using append_Nil [of "line # ls"] by (metis list.set_intros(1))
    next
      assume "\<exists>vs. run_stdio rf fr emit ls u = (r, vs, t)"
      then obtain vs where "run_stdio rf fr emit ls u = (r, vs, t)" by blast
      note ih = Cons.IH [OF this]
      show ?thesis
      proof (intro conjI impI)
        assume "sv_initialize_seen t"
        with ih eff show "sv_initialize_seen s \<or> (\<exists>a \<in> set (line # ls). asks rf a ''initialize'')" by auto
      next
        assume "sv_initialized t"
        with ih consider "sv_initialized u" | xs b ys where "ls = xs @ b # ys" "asks rf b ''notifications/initialized''"
          "sv_initialize_seen u \<or> (\<exists>a \<in> set xs. asks rf a ''initialize'')" by blast
        then show "sv_initialized s \<or> (\<exists>xs b ys. line # ls = xs @ b # ys \<and> asks rf b ''notifications/initialized''
            \<and> (sv_initialize_seen s \<or> (\<exists>a \<in> set xs. asks rf a ''initialize'')))"
        proof cases
          case 1
          with eff have "sv_initialized s \<or> asks rf line ''notifications/initialized'' \<and> sv_initialize_seen s" by blast
          then show ?thesis using append_Nil [of "line # ls"] by metis
        next
          case (2 xs b ys)
          with eff have "sv_initialize_seen s \<or> (\<exists>a \<in> set (line # xs). asks rf a ''initialize'')" by auto
          with 2(1,2) show ?thesis by (intro disjI2 exI [of _ "line # xs"]) auto
        qed
      qed
    qed
  qed
qed simp

text \<open>
  C31. The inspection server answers every line in order: nothing for a blank line, a notification or
  the \<open>initialized\<close> message, and else one response or error that carries the id of the request. It
  stops early only when the process stops or the output cannot be written, and never changes the
  database. A result other than of \<open>initialize\<close> is given only after an \<open>initialize\<close> request and,
  later, the \<open>initialized\<close> notification.
\<close>

theorem inspection_server_answers:
  assumes "run_stdio rf fr emit ls s = (r, out, t)" "\<not> sv_initialize_seen s" "\<not> sv_initialized s"
  shows "rm_db (sv_model t) = rm_db (sv_model s)
    \<and> (\<exists>ls1 ls2 xs. ls = ls1 @ ls2 \<and> list_all2 (line_answer rf) ls1 xs \<and> out = written xs \<and> (r = Inr () \<longrightarrow> ls2 = [])
      \<and> (\<forall>e. r = Inl e \<longrightarrow> ls2 \<noteq> [] \<and> (\<not> is_exception e \<or> (\<exists>w. emit w = Inl e))))
    \<and> (\<forall>line i d u. \<not> blank line \<longrightarrow> answer_line rf fr line t = (Inr (Some (rpc_response i d)), u) \<longrightarrow>
        asks rf line ''initialize''
        \<or> (\<exists>xs a ys b zs. ls = xs @ a # ys @ b # zs \<and> asks rf a ''initialize'' \<and> asks rf b ''notifications/initialized''))"
proof -
  note run = run_stdio_answers [OF assms(1)] and flags = run_stdio_flags [OF assms(1)]
  have "\<exists>xs a ys b zs. ls = xs @ a # ys @ b # zs \<and> asks rf a ''initialize'' \<and> asks rf b ''notifications/initialized''"
    if "sv_initialized t"
  proof -
    from that flags assms(2,3) obtain xs b ys a where "ls = xs @ b # ys" "asks rf b ''notifications/initialized''"
      "a \<in> set xs" "asks rf a ''initialize''" by blast
    moreover from \<open>a \<in> set xs\<close> obtain us vs where "xs = us @ a # vs" by (auto simp: in_set_conv_decomp)
    ultimately show ?thesis by (intro exI [of _ us] exI [of _ a] exI [of _ vs] exI [of _ b] exI [of _ ys]) simp
  qed
  moreover have "asks rf line ''initialize'' \<or> sv_initialized t"
    if "\<not> blank line" "answer_line rf fr line t = (Inr (Some (rpc_response i d)), u)" for line i d u
    using answer_line_effect [OF that] by (auto simp: line_effect_def)
  ultimately show ?thesis using run by blast
qed

definition empty_file :: ro_db where
  "empty_file = \<lparr>ro_tables = required_tables, ro_version = Some (str ''1''), ro_pathways = [], ro_events = []\<rparr>"

definition fresh_server :: mcp_server where
  "fresh_server = \<lparr>sv_model = \<lparr>rm_db = empty_file, rm_faults = []\<rparr>, sv_initialize_seen = False, sv_initialized = False\<rparr>"

definition ping_request :: "pv option \<Rightarrow> pv" where
  "ping_request i = PDict (obj ([(''jsonrpc'', PStr (str ''2.0'')), (''method'', PStr (str ''ping''))]
     @ (case i of None \<Rightarrow> [] | Some v \<Rightarrow> [(''id'', v)])))"

theorem inspection_server_answers_witness:
  "\<exists>y. fst (snd (run_stdio (\<lambda>_. FNan) (\<lambda>_. []) (\<lambda>_. Inr ()) [json_text (\<lambda>_. []) (ping_request (Some (PInt 1)))] fresh_server)) = [y]"
proof -
  let ?l = "json_text (\<lambda>_. []) (ping_request (Some (PInt 1)))"
  obtain r out t where run: "run_stdio (\<lambda>_. FNan) (\<lambda>_. []) (\<lambda>_. Inr ()) [?l] fresh_server = (r, out, t)"
    using prod_cases3 by blast
  have l: "json_loads Lenient (\<lambda>_. FNan) ?l = Some (ping_request (Some (PInt 1)))"
    by (rule loads_text) (simp add: ping_request_def obj_def)
  have nb: "\<not> blank ?l" by (simp add: ping_request_def blank_iff is_space_def)
  have no: "\<not> asks (\<lambda>_. FNan) ?l ''notifications/initialized''" "\<not> is_notification (ping_request (Some (PInt 1)))"
    using l by (auto simp: asks_def request_method_def is_notification_def ping_request_def dget_none_def obj_def dget_def)
  from inspection_server_answers [OF run] obtain ls1 ls2 xs where a: "[?l] = ls1 @ ls2"
    "list_all2 (line_answer (\<lambda>_. FNan)) ls1 xs" "out = written xs" "r = Inr () \<longrightarrow> ls2 = []"
    "\<forall>e. r = Inl e \<longrightarrow> \<not> is_exception e"
    by (auto simp: fresh_server_def)
  have "r = Inr ()"
  proof (cases r)
    case (Inl e)
    obtain x u where x: "answer_line (\<lambda>_. FNan) (\<lambda>_. []) ?l fresh_server = (x, u)"
      by (cases "answer_line (\<lambda>_. FNan) (\<lambda>_. []) ?l fresh_server")
    have "handle_request (\<lambda>_. FNan) (\<lambda>_. []) (ping_request (Some (PInt 1))) fresh_server
        = rpc_error (- 32002) ''server has not received notifications/initialized'' fresh_server"
      by (simp add: handle_request_def ping_request_def dget_none_def query_def bnd_def fresh_server_def Let_def)
    then have "x = Inr (Some (error_response (PInt 1) (- 32002) (str ''server has not received notifications/initialized'') None))"
      using x l no(2) by (simp add: answer_line_def handle_def rpc_error_def raise_def throw_def is_exception_def ret_def
          failure_response_def catches_def request_id_of_def ping_request_def dget_none_def)
    with run x nb Inl have False
      by (simp add: error_response_def obj_def del: json_text.simps)
    then show ?thesis ..
  qed simp
  with a(1,4) have ls1: "ls1 = [?l]" by simp
  with a(2) obtain x where "xs = [x]" "line_answer (\<lambda>_. FNan) ?l x" by (auto simp: list_all2_Cons1)
  with nb no l a(3) have "\<exists>y. out = [y]" by (cases x) (auto simp: line_answer_def simp del: json_text.simps)
  with run show ?thesis by simp
qed

text \<open>
  A known request without an id is a notification, and is answered nevertheless, with a null id.
\<close>

lemma notification_answered:
  assumes "sv_initialized s"
  shows "is_notification (ping_request None)
    \<and> handle_request rf fr (ping_request None) s = (Inr (Some (rpc_response PNone [])), s)"
  using assms
  by (simp add: is_notification_def ping_request_def handle_request_def dget_none_def query_def bnd_def seq_def Let_def
      empty_params_def ret_def) (simp add: obj_def)

text \<open>What the server shows of a pathway is what its row holds.\<close>

lemma shown_pathway:
  assumes "rm_faults s = []" "find (\<lambda>r. rp_id r = i) (ro_pathways (rm_db s)) = Some r"
    and "i \<noteq> []" "strip i = i" "text_ok i"
    and "rp_text r = json_text fr (PDict doc)" "readable rf fr (PDict doc)"
  shows "get_pathway rf (PStr i) s = (Inr (obj [(''pathway_id'', PStr (rp_id r)), (''state'', PStr (rp_state r)),
     (''definition'', PDict doc), (''created_at'', PStr (rp_created r)), (''updated_at'', PStr (rp_updated r))]), s)"
proof -
  have "json_loads Lenient rf (rp_text r) = Some (PDict doc)" unfolding assms(6) by (rule loads_text [OF assms(7)])
  then show ?thesis
    using assms(1-5)
    by (simp add: get_pathway_def required_id_def bnd_def lift_def select_rows_def db_step_def query_def find_ro_def
        bind_text_def check_def row_of_def loads_text_def)
qed

end
