(* ===== verification/Rpr_Diagnostics.thy ===== *)
theory Rpr_Diagnostics
  imports Rpr_Demo
begin

text \<open>
  \<open>diagnostics.py\<close>: the operational handoff of a pathway. The lemmas: a diagnosis changes
  nothing and agrees with the runtime in every reachable world, and where the holder it names
  may act on the pathway.
\<close>

section \<open>The diagnosis\<close>

record pathway_diagnostic =
  dg_pathway :: pystr
  dg_state :: pathway_state
  dg_authority :: "pystr option"
  dg_action :: pystr
  dg_attempt :: "pystr option"
  dg_event_type :: "pystr option"
  dg_valid :: bool
  dg_events :: nat

definition diagnostic_to_dict :: "pathway_diagnostic \<Rightarrow> pdict" where
  "diagnostic_to_dict g = obj [
     (''pathway_id'', PStr (dg_pathway g)), (''state'', PStr (state_value (dg_state g))),
     (''next_required_authority'', opt_str (dg_authority g)), (''next_required_action'', PStr (dg_action g)),
     (''active_attempt_id'', opt_str (dg_attempt g)), (''latest_event_type'', opt_str (dg_event_type g)),
     (''evidence_valid'', PBool (dg_valid g)), (''evidence_event_count'', PInt (int (dg_events g)))]"

text \<open>The loop over \<open>reversed(events)\<close> in \<open>_active_attempt_id\<close>.\<close>

fun bound_attempt :: "pdict list \<Rightarrow> pystr option" where
  "bound_attempt [] = None"
| "bound_attempt (e # es) = (case dget_none e (str ''payload'') of
       PDict payload \<Rightarrow>
         (if dget_none payload (str ''to'') \<noteq> PStr (state_value RUNNING) then bound_attempt es
          else case (if dget_none e (str ''event_type'') = PStr (str ''execution_started'')
                then dget_none payload (str ''attempt_id'')
                else if dget_none e (str ''event_type'') = PStr (str ''pathway_resumed'')
                then dget_none payload (str ''next_attempt_id'')
                else PNone) of
              PStr a \<Rightarrow> (if blank a then None else Some a) | _ \<Rightarrow> None)
     | _ \<Rightarrow> bound_attempt es)"

definition active_attempt_id :: "pdict list \<Rightarrow> pathway_state \<Rightarrow> pystr option" where
  "active_attempt_id es s = (if s \<noteq> RUNNING then None else bound_attempt (rev es))"

fun next_step :: "pathway_definition \<Rightarrow> pathway_state \<Rightarrow> pystr option \<times> string" where
  "next_step d PROPOSED = (Some (decision_owner d), ''review_pathway_definition'')"
| "next_step d AWAITING_APPROVAL = (approval_authority d, ''approve_or_deny'')"
| "next_step d APPROVED = (Some (execution_actor d), ''execute_bounded_action'')"
| "next_step d RUNNING = (Some (execution_actor d), ''monitor_active_attempt'')"
| "next_step d HELD = (Some (stop_authority d), ''review_hold_condition'')"
| "next_step d HUMAN_GATE = (Some (case approval_authority d of
       None \<Rightarrow> decision_owner d | Some a \<Rightarrow> if a = [] then decision_owner d else a), ''perform_human_review'')"
| "next_step d STOPPED = (Some (stop_authority d), ''assess_stopped_pathway'')"
| "next_step d PARTIALLY_COMPLETED = (Some (residual_owner d), ''assess_residual_impacts'')"
| "next_step d WRITE_STATUS_UNKNOWN = (Some (evidence_owner d), ''reconcile_write_status'')"
| "next_step d REPAIR_REQUIRED = (Some (repair_owner d), ''repair_failed_attempt'')"
| "next_step d READY_TO_RESUME = (Some (resume_authority d), ''authorize_resume'')"
| "next_step d COMPLETED = (Some (evidence_owner d), ''verify_completion_evidence'')"
| "next_step d DENIED = (Some (decision_owner d), ''review_denial'')"
| "next_step d ABORTED = (Some (residual_owner d), ''manage_residual_impacts'')"

definition diagnose_pathway :: "config \<Rightarrow> pystr \<Rightarrow> (world, pathway_diagnostic) py" where
  "diagnose_pathway cfg p =
     bnd (in_store (get_state p)) (\<lambda>s.
     bnd (in_store (get_definition (cenv cfg) p)) (\<lambda>d.
     bnd (in_store (events p)) (\<lambda>es.
     bnd (verify_evidence cfg p) (\<lambda>(ok, n, _, _).
     ret \<lparr>dg_pathway = p, dg_state = s, dg_authority = fst (next_step d s), dg_action = str (snd (next_step d s)),
       dg_attempt = active_attempt_id es s,
       dg_event_type = (if es = [] then None else Some (py_str (cenv cfg) (dget_none (last es) (str ''event_type'')))),
       dg_valid = ok, dg_events = n\<rparr>))))"

section \<open>The diagnosis agrees with the runtime\<close>

definition payload_of :: "pdict \<Rightarrow> pdict res" where
  "payload_of e = as_mapping (dget_default e (str ''payload'') (PDict []))"

lemma running_payload:
  assumes "running_attempt (e # es) = Inr a"
  obtains "dget_none e (str ''payload'') = PNone" "running_attempt es = Inr a"
    | pl where "dget_none e (str ''payload'') = PDict pl"
proof (cases "dget e (str ''payload'')")
  case None
  with assms that(1) show thesis by (simp add: dget_default_def as_mapping_def dget_none_def)
next
  case (Some v)
  with assms obtain pl where "v = PDict pl"
    by (cases v) (simp_all add: dget_default_def as_mapping_def)
  with Some that(2) show thesis by (simp add: dget_none_def)
qed

lemma bound_attempt_running: "running_attempt es = Inr a \<Longrightarrow> bound_attempt es = Some a"
proof (induction es)
  case (Cons e es)
  from running_payload [OF Cons.prems] show ?case
  proof cases
    case 1
    with Cons.IH show ?thesis by simp
  next
    case (2 pl)
    then have "dget e (str ''payload'') = Some (PDict pl)" by (simp add: dget_none_def split: option.splits)
    then have p: "dget_default e (str ''payload'') (PDict []) = PDict pl" by (simp add: dget_default_def)
    let ?v = "if dget_none e (str ''event_type'') = PStr (str ''execution_started'') then dget_none pl (str ''attempt_id'')
      else if dget_none e (str ''event_type'') = PStr (str ''pathway_resumed'') then dget_none pl (str ''next_attempt_id'')
      else PNone"
    show ?thesis
    proof (cases "dget_none pl (str ''to'') = PStr (state_value RUNNING)")
      case True
      with Cons.prems p 2 show ?thesis
        unfolding running_attempt.simps(2) bound_attempt.simps(2) p
        by (cases ?v) (simp_all only: as_mapping_def pv.case rbind_simps if_True simp_thms split: if_splits, simp_all)
    next
      case False
      with Cons p 2 show ?thesis by (simp add: as_mapping_def)
    qed
  qed
qed simp

lemma events_quiet:
  assumes "store_faults (wstore w) = []" "text_ok p"
  shows "in_store (events p) w = (Inr (events_of (wstore w) p), w)"
  using assms by (simp add: events_def in_store_def zoom_def store_tx_def db_step_def query_def bind_text_def check_def)


lemma row_read_quiet:
  assumes "store_ok (wstore w)" "r \<in> set (pathways (wstore w))" "store_faults (wstore w) = []" "text_ok (row_id r)"
  shows "in_store (get_state (row_id r)) w = (Inr (row_state r), w)"
    and "in_store (get_definition env (row_id r)) w = (definition_from_dict env (row_doc r), w)"
proof -
  have "find_row (row_id r) (pathways (wstore w)) = Some r"
  proof -
    have "find (\<lambda>x. row_id x = row_id r) rs = Some r" if "distinct (map row_id rs)" "r \<in> set rs" for rs
      using that by (induction rs) auto
    with assms(1,2) show ?thesis by (simp add: find_row_def store_ok_def)
  qed
  with assms(4) have "lookup_row (row_id r) (wstore w) = Inr r"
    by (simp add: lookup_row_def bind_text_def check_def)
  with assms(3) show "in_store (get_state (row_id r)) w = (Inr (row_state r), w)"
    "in_store (get_definition env (row_id r)) w = (definition_from_dict env (row_doc r), w)"
    by (simp_all add: get_state_def get_definition_def in_store_def zoom_def store_tx_def db_step_def query_def
        split: sum.splits)
qed

section \<open>Who may act\<close>

text \<open>
  What an actor may do to a pathway besides registering it: a generic transition, the execution, the
  reconciliation, and the closing with residuals.
\<close>

definition may_act :: "pathway_definition \<Rightarrow> pathway_state \<Rightarrow> pystr \<Rightarrow> bool" where
  "may_act d s a \<longleftrightarrow>
     list_ex (\<lambda>t. authorize_transition d s t a = Inr ()) (allowed_transitions s)
   \<or> (s = APPROVED \<or> s = RUNNING) \<and> authorize_execution_access d a = Inr ()
   \<or> s = WRITE_STATUS_UNKNOWN \<and> authorize_reconciliation_access d a = Inr ()
   \<or> ABORTED \<in> set (allowed_transitions s) \<and> strip a \<noteq> [] \<and> a = residual_owner d"

text \<open>
  The holder that a diagnosis names for a state that is not final may act on the pathway, except
  in two states: on a stopped pathway only the repair owner and the residual owner may act, on a
  partially completed one only the repair owner, while the diagnosis names the stop authority and
  the residual owner.
\<close>

lemma next_step_may_act:
  assumes "fst (next_step d s) = Some a" "s \<notin> set terminal_states" "strip a = a" "a \<noteq> []"
  shows "may_act d s a \<longleftrightarrow>
    (s = STOPPED \<longrightarrow> a \<in> {repair_owner d, residual_owner d}) \<and> (s = PARTIALLY_COMPLETED \<longrightarrow> a = repair_owner d)"
  using assms
  by (cases s) (auto simp: may_act_def terminal_states_def authorize_transition_ok authorize_execution_ok
      authorize_reconciliation_ok split: option.splits if_splits)

section \<open>Whom a diagnosis must name\<close>

text \<open>
  What is asked of the handoff, stated by the authority that the runtime enforces and not by the
  table of \<open>_next_step\<close>: \<open>sole\<close> says that the holder is exactly the one whom a check lets through.
  A pathway that waits for an approval, a run, a repair or a gate names the only party that may do
  it. An unknown write is reconciled by the holder or the repair owner, a repaired pathway resumed
  by the holder or the execution actor. The authority of the other states follows no check: a
  proposed pathway is reviewed by its decision owner, and a stopped, partially completed or ended
  one is handed to the party the document names for it.
\<close>

definition sole :: "(pystr \<Rightarrow> unit res) \<Rightarrow> pystr option \<Rightarrow> bool" where
  "sole allowed h \<longleftrightarrow> (\<forall>a. allowed a = Inr () \<longleftrightarrow> strip a \<noteq> [] \<and> h = Some (strip a))"

fun hands_off :: "pathway_definition \<Rightarrow> pathway_state \<Rightarrow> pystr option \<Rightarrow> pystr \<Rightarrow> bool" where
  "hands_off d PROPOSED h x = (h = Some (decision_owner d) \<and> x = str ''review_pathway_definition'')"
| "hands_off d AWAITING_APPROVAL h x =
     (sole (authorize_transition d AWAITING_APPROVAL APPROVED) h \<and> x = str ''approve_or_deny'')"
| "hands_off d APPROVED h x = (sole (authorize_execution_access d) h \<and> x = str ''execute_bounded_action'')"
| "hands_off d RUNNING h x = (sole (authorize_execution_access d) h \<and> x = str ''monitor_active_attempt'')"
| "hands_off d HELD h x = (sole (authorize_transition d HELD HUMAN_GATE) h \<and> x = str ''review_hold_condition'')"
| "hands_off d HUMAN_GATE h x =
     ((\<forall>a. authorize_transition d HUMAN_GATE APPROVED a = Inr () \<longrightarrow> h = Some (strip a))
      \<and> (approval_authority d \<in> {None, Some []} \<longrightarrow> h = Some (decision_owner d))
      \<and> x = str ''perform_human_review'')"
| "hands_off d STOPPED h x = (h = Some (stop_authority d) \<and> x = str ''assess_stopped_pathway'')"
| "hands_off d PARTIALLY_COMPLETED h x = (h = Some (residual_owner d) \<and> x = str ''assess_residual_impacts'')"
| "hands_off d WRITE_STATUS_UNKNOWN h x =
     ((\<forall>a. authorize_reconciliation_access d a = Inr () \<longleftrightarrow>
        strip a \<noteq> [] \<and> (h = Some (strip a) \<or> strip a = repair_owner d))
      \<and> x = str ''reconcile_write_status'')"
| "hands_off d REPAIR_REQUIRED h x =
     (sole (authorize_transition d REPAIR_REQUIRED READY_TO_RESUME) h \<and> x = str ''repair_failed_attempt'')"
| "hands_off d READY_TO_RESUME h x =
     ((\<forall>a. authorize_transition d READY_TO_RESUME RUNNING a = Inr () \<longleftrightarrow>
        strip a \<noteq> [] \<and> (h = Some (strip a) \<or> strip a = execution_actor d))
      \<and> x = str ''authorize_resume'')"
| "hands_off d COMPLETED h x = (h = Some (evidence_owner d) \<and> x = str ''verify_completion_evidence'')"
| "hands_off d DENIED h x = (h = Some (decision_owner d) \<and> x = str ''review_denial'')"
| "hands_off d ABORTED h x = (h = Some (residual_owner d) \<and> x = str ''manage_residual_impacts'')"

lemma next_step_hands_off: "hands_off d s (fst (next_step d s)) (str (snd (next_step d s)))"
  by (cases s) (auto simp: sole_def authorize_transition_ok authorize_execution_ok authorize_reconciliation_ok)

section \<open>The diagnosis of a pathway\<close>

text \<open>
  C6. In every reachable world, diagnosing a registered pathway changes nothing and reports its
  state, the number of its events, that they verify, exactly for a running pathway the attempt the
  runtime itself finds it bound to, and as the next holder the party that the runtime lets act:
  the sole one that may approve, run, send to the gate or finish the repair, one that may
  reconcile or resume, the decision owner at a gate without an approval authority. A stopped or
  partially completed pathway is handed to its stop authority or residual owner, which may act on
  it only as far as they are its repair owner or, when stopped, its residual owner.
\<close>

theorem diagnosis_agrees:
  assumes "policy_ok (cpolicy cfg)" "reachable cfg w" "r \<in> set (pathways (wstore w))"
    and "definition_of cfg r = Some d" "store_faults (wstore w) = []" "text_ok (row_id r)"
  shows "\<exists>g. diagnose_pathway cfg (row_id r) w = (Inr g, w)
    \<and> dg_state g = row_state r \<and> dg_valid g \<and> dg_events g = length (events_of (wstore w) (row_id r))
    \<and> hands_off d (row_state r) (dg_authority g) (dg_action g)
    \<and> (\<forall>a. dg_authority g = Some a \<and> row_state r \<notin> set terminal_states \<and> strip a = a \<and> a \<noteq> [] \<longrightarrow>
        (may_act d (row_state r) a \<longleftrightarrow>
           (row_state r = STOPPED \<longrightarrow> a \<in> {repair_owner d, residual_owner d})
         \<and> (row_state r = PARTIALLY_COMPLETED \<longrightarrow> a = repair_owner d)))
    \<and> (if row_state r = RUNNING
        then \<exists>a. dg_attempt g = Some a \<and> active_running_attempt_id (row_id r) w = (Inr a, w)
        else dg_attempt g = None)"
proof -
  let ?es = "events_of (wstore w) (row_id r)"
  note inv = reachable_inv [OF assms(2,1)]
  then have ok: "store_ok (wstore w)" and v: "verify_chain (cenv cfg) ?es = Inr (True, None, None)"
    and b: "row_state r = RUNNING \<Longrightarrow> \<exists>a. running_attempt (rev ?es) = Inr a"
    using assms(3) by (auto simp: inv_def chains_ok_def bindings_ok_def bound_to_def verify_chain_iff)
  note q = row_read_quiet [OF ok assms(3,5,6)] events_quiet [OF assms(5,6)]
  have d: "definition_from_dict (cenv cfg) (row_doc r) = Inr d"
    using assms(4) by (simp add: definition_of_def split: sum.splits)
  have "diagnose_pathway cfg (row_id r) w = (Inr \<lparr>dg_pathway = row_id r, dg_state = row_state r,
      dg_authority = fst (next_step d (row_state r)), dg_action = str (snd (next_step d (row_state r))),
      dg_attempt = active_attempt_id ?es (row_state r),
      dg_event_type = (if ?es = [] then None else Some (py_str (cenv cfg) (dget_none (last ?es) (str ''event_type'')))),
      dg_valid = True, dg_events = length ?es\<rparr>, w)"
    by (simp add: diagnose_pathway_def verify_evidence_def bnd_def q d v lift_def ret_def)
  moreover have "if row_state r = RUNNING
      then \<exists>a. active_attempt_id ?es (row_state r) = Some a \<and> active_running_attempt_id (row_id r) w = (Inr a, w)
      else active_attempt_id ?es (row_state r) = None"
    using b bound_attempt_running
    by (auto simp: active_attempt_id_def active_running_attempt_id_def bnd_def q lift_def)
  ultimately show ?thesis
    using next_step_hands_off [of d "row_state r"] next_step_may_act [of d "row_state r"]
    by (cases "row_state r = RUNNING") auto
qed

theorem diagnosis_agrees_witness:
  "\<exists>g. diagnose_pathway demo_config (str ''p'') demo_executed = (Inr g, demo_executed) \<and> dg_valid g
     \<and> hands_off demo_pathway (dg_state g) (dg_authority g) (dg_action g)"
proof -
  obtain r where "pathways (wstore demo_executed) = [r]" "row_id r = str ''p''" "store_faults (wstore demo_executed) = []"
    "definition_of demo_config r = Some demo_pathway"
    using demo_run by (metis store.select_convs(1,3) world.select_convs(1))
  with diagnosis_agrees [OF demo_policy demo_executed_reachable, of r demo_pathway] show ?thesis by auto
qed

end
