(* ===== verification/Rpr_Release.thy ===== *)
theory Rpr_Release
  imports Rpr_Executors
begin

text \<open>
  What a release decision is made from: the source context of an action (\<open>source_context.py\<close>), the
  release decision pack (\<open>release_gate.py\<close>), the candidate readiness report
  (\<open>candidate_readiness.py\<close>) and the delivery acceptance matrix (\<open>delivery_acceptance.py\<close>). The
  lemmas: when a context may drive an action, what the reports decide and what blocks them, and that
  the digest of a report pins what it says.
\<close>

section \<open>Source context\<close>

datatype source_authority = Canonical | Authorized | Corroborated | Unverified | Hostile

fun source_authority_value :: "source_authority \<Rightarrow> pystr" where
  "source_authority_value Canonical = str ''canonical''"
| "source_authority_value Authorized = str ''authorized''"
| "source_authority_value Corroborated = str ''corroborated''"
| "source_authority_value Unverified = str ''unverified''"
| "source_authority_value Hostile = str ''hostile''"

fun authority_rank :: "source_authority \<Rightarrow> nat" where
  "authority_rank Hostile = 0"
| "authority_rank Unverified = 1"
| "authority_rank Corroborated = 2"
| "authority_rank Authorized = 3"
| "authority_rank Canonical = 4"

text \<open>A \<open>datetime\<close>: an instant in microseconds, or one without a time zone.\<close>

datatype moment = Aware int | Naive int

record source_context =
  sc_source_id :: pystr
  sc_authority :: source_authority
  sc_provenance :: pystr
  sc_observed_at :: moment
  sc_applicable_to :: "pystr list"
  sc_digest :: "pystr option"
  sc_attributes :: "(pystr \<times> pystr) list option"

text \<open>The constructor's check (\<open>__post_init__\<close>).\<close>

definition check_context :: "source_context \<Rightarrow> unit res" where
  "check_context c =
     (if blank (sc_source_id c) \<or> blank (sc_provenance c) then err SourceContextError ''source_id and provenance are required''
      else case sc_observed_at c of
        Naive _ \<Rightarrow> err SourceContextError ''observed_at must be timezone-aware''
      | Aware _ \<Rightarrow>
          (if sc_applicable_to c = [] then err SourceContextError ''applicable_to must identify at least one action or domain''
           else if (case sc_digest c of None \<Rightarrow> False | Some h \<Rightarrow> blank h)
           then err SourceContextError ''content_digest must be non-empty when supplied'' else Inr ()))"

text \<open>\<open>validate_for\<close>; \<open>clock\<close> is \<open>datetime.now(UTC)\<close>. Comparing a naive with an aware time is a \<open>TypeError\<close>.\<close>

definition validate_for :: "int \<Rightarrow> source_context \<Rightarrow> pystr \<Rightarrow> int \<Rightarrow> moment option \<Rightarrow> source_authority \<Rightarrow> unit res" where
  "validate_for clock c name maximum_age time minimum =
     (if maximum_age < 0 then err ValueError ''maximum_age must be non-negative''
      else case (case time of None \<Rightarrow> Aware clock | Some m \<Rightarrow> m) of
        Naive _ \<Rightarrow> err ValueError ''now must be timezone-aware''
      | Aware current \<Rightarrow>
          (if name \<notin> set (sc_applicable_to c) \<and> str ''*'' \<notin> set (sc_applicable_to c)
           then err SourceContextError ''source context is not applicable to this action''
           else case sc_observed_at c of
             Naive _ \<Rightarrow> err TypeError ''cannot compare naive and aware datetimes''
           | Aware observed_at \<Rightarrow>
               (if observed_at > current then err SourceContextError ''source context is dated in the future''
                else if current - observed_at > maximum_age then err SourceContextError ''source context is stale''
                else if authority_rank (sc_authority c) < authority_rank minimum
                then err SourceContextError ''source authority is below the required threshold'' else Inr ())))"

text \<open>\<open>to_evidence\<close>; \<open>iso_utc\<close> is \<open>astimezone(UTC).isoformat()\<close>.\<close>

definition context_evidence :: "(moment \<Rightarrow> pystr) \<Rightarrow> source_context \<Rightarrow> pdict" where
  "context_evidence iso_utc c = obj [(''source_id'', PStr (sc_source_id c)),
     (''authority'', PStr (source_authority_value (sc_authority c))), (''provenance'', PStr (sc_provenance c)),
     (''observed_at'', PStr (iso_utc (sc_observed_at c))), (''applicable_to'', PList (map PStr (sc_applicable_to c))),
     (''content_digest'', opt_str (sc_digest c)),
     (''attributes'', PDict (map (\<lambda>(k, v). (PStr k, PStr v)) (case sc_attributes c of None \<Rightarrow> [] | Some a \<Rightarrow> a)))]"

section \<open>The release decision pack\<close>

definition hex_text :: "pystr \<Rightarrow> bool" where
  "hex_text s \<longleftrightarrow> list_all (\<lambda>c. (48 \<le> c \<and> c \<le> 57) \<or> (97 \<le> c \<and> c \<le> 102)) s"

definition required_evidence :: "string list" where
  "required_evidence = [''clean_export_manifest'', ''wheel'', ''sdist'', ''sbom'', ''clean_install_e2e'', ''secret_scan'',
     ''vulnerability_review'', ''known_limitations'']"

record release_pack =
  rp_source_commit :: pystr
  rp_version :: pystr
  rp_decision :: pystr
  rp_evidence :: "(pystr \<times> pystr) list"
  rp_decision_owner :: pystr
  rp_release_authority :: pystr
  rp_evidence_owner :: pystr
  rp_residual_owner :: pystr
  rp_conditions :: "pystr list"

definition validate_pack :: "release_pack \<Rightarrow> unit res" where
  "validate_pack p =
     rbind (check (rp_decision p \<in> set (map str [''approve'', ''approve_with_conditions'', ''hold''])) ValueError ''invalid release decision'') (\<lambda>_.
     rbind (check (\<not> blank (rp_source_commit p) \<and> \<not> blank (rp_version p)) ValueError ''source commit and version are required'') (\<lambda>_.
     rbind (check (list_all (\<lambda>k. str k \<in> set (map fst (rp_evidence p))) required_evidence) ValueError ''missing release evidence'') (\<lambda>_.
     rbind (check (list_all (\<lambda>(_, h). length h = 64 \<and> hex_text (lower_text h)) (rp_evidence p)) ValueError ''invalid SHA-256'') (\<lambda>_.
     rbind (check (list_all (\<lambda>o'. \<not> blank o') [rp_decision_owner p, rp_release_authority p, rp_evidence_owner p, rp_residual_owner p])
       ValueError ''all release owners are required'') (\<lambda>_.
     rbind (check (rp_decision p = str ''approve_with_conditions'' \<longrightarrow> rp_conditions p \<noteq> []) ValueError ''conditional approval requires conditions'') (\<lambda>_.
       check (rp_decision p = str ''approve'' \<longrightarrow> rp_conditions p = []) ValueError ''unconditional approval cannot retain conditions''))))))"

text \<open>\<open>dict(sorted(m.items()))\<close> of a mapping of texts.\<close>

definition sorted_texts :: "(pystr \<times> pystr) list \<Rightarrow> pdict" where
  "sorted_texts m = map (\<lambda>(k, v). (PStr k, PStr v)) (sort_key fst m)"

definition pack_to_dict :: "release_pack \<Rightarrow> pdict res" where
  "pack_to_dict p = rbind (validate_pack p) (\<lambda>_. Inr (obj [
     (''source_commit'', PStr (rp_source_commit p)), (''version'', PStr (rp_version p)), (''decision'', PStr (rp_decision p)),
     (''evidence_sha256'', PDict (sorted_texts (rp_evidence p))), (''decision_owner'', PStr (rp_decision_owner p)),
     (''release_authority'', PStr (rp_release_authority p)), (''evidence_owner'', PStr (rp_evidence_owner p)),
     (''residual_owner'', PStr (rp_residual_owner p)), (''conditions'', PTuple (map PStr (rp_conditions p)))]))"

text \<open>\<open>digest\<close> of a report, given its \<open>to_dict()\<close>.\<close>

definition report_digest :: "pyenv \<Rightarrow> pdict res \<Rightarrow> pystr res" where
  "report_digest env r = rbind r (\<lambda>d. rbind (canonical_bytes (float_repr env) (PDict d)) (\<lambda>b. Inr (sha256 env b)))"

definition pack_digest :: "pyenv \<Rightarrow> release_pack \<Rightarrow> pystr res" where
  "pack_digest env p = report_digest env (pack_to_dict p)"

section \<open>Candidate readiness\<close>

definition internal_check_names :: "string list" where
  "internal_check_names = [''pytest'', ''json_python_lean_parity'', ''lean_build'', ''wheel_install'', ''sdist_install'',
     ''release_audit'', ''rc_rehearsal'', ''clean_export'']"

definition external_gate_names :: "string list" where
  "external_gate_names = [''secret_scan'', ''vulnerability_review'', ''human_gate'']"

record readiness_report =
  rr_source_commit :: pystr
  rr_internal :: "(pystr \<times> bool) list"
  rr_external :: "(pystr \<times> bool) list"
  rr_evidence :: "(pystr \<times> pystr) list"
  rr_residual_owner :: pystr

definition validate_report :: "readiness_report \<Rightarrow> unit res" where
  "validate_report r =
     rbind (check (\<not> blank (rr_source_commit r)) ValueError ''source commit is required'') (\<lambda>_.
     rbind (check (\<not> blank (rr_residual_owner r)) ValueError ''residual owner is required'') (\<lambda>_.
     rbind (check (set (map str internal_check_names) \<subseteq> set (map fst (rr_internal r))) ValueError ''missing internal checks'') (\<lambda>_.
     rbind (check (set (map str external_gate_names) \<subseteq> set (map fst (rr_external r))) ValueError ''missing external gates'') (\<lambda>_.
     rbind (check (set (map fst (rr_internal r)) \<subseteq> set (map str internal_check_names)) ValueError ''unknown internal checks'') (\<lambda>_.
     rbind (check (set (map fst (rr_external r)) \<subseteq> set (map str external_gate_names)) ValueError ''unknown external gates'') (\<lambda>_.
       check (list_all (\<lambda>(_, h). length (lower_text h) = 64 \<and> hex_text (lower_text h)) (rr_evidence r)) ValueError ''invalid SHA-256''))))))"

text \<open>\<open>m[name]\<close> of a validated mapping.\<close>

definition flag :: "(pystr \<times> bool) list \<Rightarrow> string \<Rightarrow> bool" where
  "flag m k = (map_of m (str k) = Some True)"

definition internal_ready :: "readiness_report \<Rightarrow> bool res" where
  "internal_ready r = rbind (validate_report r) (\<lambda>_. Inr (list_all (flag (rr_internal r)) internal_check_names))"

definition external_ready :: "readiness_report \<Rightarrow> bool res" where
  "external_ready r = rbind (validate_report r) (\<lambda>_. Inr (list_all (flag (rr_external r)) external_gate_names))"

definition readiness_decision :: "readiness_report \<Rightarrow> pystr res" where
  "readiness_decision r = rbind (internal_ready r) (\<lambda>i.
     if \<not> i then Inr (str ''hold'')
     else rbind (external_ready r) (\<lambda>e. Inr (if e then str ''ready_for_human_release_decision'' else str ''hold'')))"

definition blocking_items :: "readiness_report \<Rightarrow> string list res" where
  "blocking_items r = rbind (validate_report r) (\<lambda>_. Inr (filter (\<lambda>k. \<not> flag (rr_internal r) k) internal_check_names
     @ filter (\<lambda>k. \<not> flag (rr_external r) k) external_gate_names))"

definition report_to_dict :: "readiness_report \<Rightarrow> pdict res" where
  "report_to_dict r =
     rbind (validate_report r) (\<lambda>_. rbind (readiness_decision r) (\<lambda>d. rbind (internal_ready r) (\<lambda>i.
     rbind (external_ready r) (\<lambda>e. rbind (blocking_items r) (\<lambda>bs. Inr (obj [
       (''source_commit'', PStr (rr_source_commit r)), (''decision'', PStr d), (''internal_ready'', PBool i),
       (''external_ready'', PBool e), (''blocking_items'', PList (map (\<lambda>k. PStr (str k)) bs)),
       (''internal_checks'', PDict (obj (map (\<lambda>k. (k, PBool (flag (rr_internal r) k))) internal_check_names))),
       (''external_gates'', PDict (obj (map (\<lambda>k. (k, PBool (flag (rr_external r) k))) external_gate_names))),
       (''evidence_sha256'', PDict (sorted_texts (rr_evidence r))), (''residual_owner'', PStr (rr_residual_owner r))]))))))"

definition readiness_digest :: "pyenv \<Rightarrow> readiness_report \<Rightarrow> pystr res" where
  "readiness_digest env r = report_digest env (report_to_dict r)"

section \<open>Delivery acceptance\<close>

definition dimensions :: "string list" where
  "dimensions = [''traceability'', ''runtime_paths'', ''authority_and_escalation'', ''lifecycle_operations'', ''supported_scope'',
     ''release_artifacts'', ''customer_handover'', ''bilingual_documents'']"

record acceptance_item =
  ai_status :: pystr
  ai_evidence :: "pystr list"
  ai_blocker :: pystr

definition validate_item :: "acceptance_item \<Rightarrow> unit res" where
  "validate_item i =
     rbind (check (ai_status i \<in> set (map str [''verified'', ''partial'', ''pending'', ''blocked''])) ValueError ''unsupported acceptance status'') (\<lambda>_.
     rbind (check (ai_status i = str ''verified'' \<longrightarrow> ai_evidence i \<noteq> []) ValueError ''verified acceptance item requires evidence'') (\<lambda>_.
     rbind (check (ai_status i \<in> {str ''blocked'', str ''partial''} \<longrightarrow> \<not> blank (ai_blocker i)) ValueError ''acceptance item requires blocker'') (\<lambda>_.
       check (list_all (\<lambda>e. \<not> blank e) (ai_evidence i)) ValueError ''blank evidence reference'')))"

record acceptance_matrix =
  am_source_commit :: pystr
  am_items :: "(pystr \<times> acceptance_item) list"
  am_residual_owner :: pystr

text \<open>\<open>items[name]\<close>, present in a validated matrix.\<close>

definition item :: "acceptance_matrix \<Rightarrow> string \<Rightarrow> acceptance_item res" where
  "item m k = (case map_of (am_items m) (str k) of None \<Rightarrow> Inl (Exn KeyError (str k)) | Some i \<Rightarrow> Inr i)"

fun validate_items :: "acceptance_matrix \<Rightarrow> string list \<Rightarrow> unit res" where
  "validate_items m [] = Inr ()"
| "validate_items m (k # ks) = rbind (rbind (item m k) validate_item) (\<lambda>_. validate_items m ks)"

definition validate_matrix :: "acceptance_matrix \<Rightarrow> unit res" where
  "validate_matrix m =
     rbind (check (\<not> blank (am_source_commit m)) ValueError ''source commit is required'') (\<lambda>_.
     rbind (check (\<not> blank (am_residual_owner m)) ValueError ''residual owner is required'') (\<lambda>_.
     rbind (check (set (map str dimensions) \<subseteq> set (map fst (am_items m))) ValueError ''missing acceptance dimensions'') (\<lambda>_.
     rbind (check (set (map fst (am_items m)) \<subseteq> set (map str dimensions)) ValueError ''unknown acceptance dimensions'') (\<lambda>_.
       validate_items m dimensions))))"

definition status_of :: "acceptance_matrix \<Rightarrow> string \<Rightarrow> pystr" where
  "status_of m k = (case map_of (am_items m) (str k) of None \<Rightarrow> [] | Some i \<Rightarrow> ai_status i)"

abbreviation done_in :: "acceptance_matrix \<Rightarrow> string \<Rightarrow> bool" where
  "done_in m k \<equiv> status_of m k = str ''verified''"

definition blocking_dimensions :: "acceptance_matrix \<Rightarrow> string list res" where
  "blocking_dimensions m = rbind (validate_matrix m) (\<lambda>_. Inr (filter (\<lambda>k. \<not> done_in m k) dimensions))"

definition next_stage :: "acceptance_matrix \<Rightarrow> string res" where
  "next_stage m = rbind (validate_matrix m) (\<lambda>_. Inr (
     if \<not> done_in m ''traceability'' \<or> \<not> done_in m ''runtime_paths'' then ''implementation_gap_review''
     else if \<not> done_in m ''lifecycle_operations'' \<or> \<not> done_in m ''release_artifacts'' then ''operational_acceptance_review''
     else if \<not> done_in m ''supported_scope'' \<or> \<not> done_in m ''customer_handover'' then ''handover_gap_review''
     else if \<not> done_in m ''bilingual_documents'' then ''documentation_gap_review''
     else if \<not> done_in m ''authority_and_escalation'' then ''governance_gap_review''
     else ''ready_for_candidate_freeze''))"

definition item_dict :: "acceptance_matrix \<Rightarrow> string \<Rightarrow> pv" where
  "item_dict m k = (case map_of (am_items m) (str k) of None \<Rightarrow> PNone
     | Some i \<Rightarrow> PDict (obj [(''status'', PStr (ai_status i)), (''evidence'', PList (map PStr (ai_evidence i))),
         (''blocker'', PStr (ai_blocker i))]))"

definition matrix_to_dict :: "acceptance_matrix \<Rightarrow> pdict res" where
  "matrix_to_dict m =
     rbind (validate_matrix m) (\<lambda>_. rbind (next_stage m) (\<lambda>n. rbind (blocking_dimensions m) (\<lambda>bs. Inr (obj [
       (''source_commit'', PStr (am_source_commit m)), (''next_stage'', PStr (str n)),
       (''blocking_dimensions'', PList (map (\<lambda>k. PStr (str k)) bs)),
       (''items'', PDict (obj (map (\<lambda>k. (k, item_dict m k)) dimensions))),
       (''residual_owner'', PStr (am_residual_owner m))]))))"

definition matrix_digest :: "pyenv \<Rightarrow> acceptance_matrix \<Rightarrow> pystr res" where
  "matrix_digest env m = report_digest env (matrix_to_dict m)"

definition validate_input_keys :: "bool \<Rightarrow> (pystr \<times> 'a) list \<Rightarrow> unit res" where
  "validate_input_keys require_all m =
     rbind (check (require_all \<longrightarrow> set (map str dimensions) \<subseteq> set (map fst m)) ValueError ''missing dimensions'') (\<lambda>_.
       check (set (map fst m) \<subseteq> set (map str dimensions)) ValueError ''unknown dimensions'')"

definition build_matrix :: "pystr \<Rightarrow> (pystr \<times> pystr) list \<Rightarrow> (pystr \<times> pystr list) list \<Rightarrow> (pystr \<times> pystr) list \<Rightarrow> pystr
    \<Rightarrow> acceptance_matrix res" where
  "build_matrix commit statuses refs blockers holder =
     rbind (validate_input_keys True statuses) (\<lambda>_. rbind (validate_input_keys False refs) (\<lambda>_.
     rbind (validate_input_keys False blockers) (\<lambda>_.
     let m = \<lparr>am_source_commit = commit, am_items = map (\<lambda>k. (str k,
            \<lparr>ai_status = (case map_of statuses (str k) of None \<Rightarrow> [] | Some s \<Rightarrow> s),
             ai_evidence = (case map_of refs (str k) of None \<Rightarrow> [] | Some e \<Rightarrow> e),
             ai_blocker = (case map_of blockers (str k) of None \<Rightarrow> [] | Some b \<Rightarrow> b)\<rparr>)) dimensions,
          am_residual_owner = holder\<rparr> in
     rbind (validate_matrix m) (\<lambda>_. Inr m))))"

section \<open>When a context drives an action\<close>

lemma validate_for_iff:
  "validate_for clock c name age time minimum = Inr u \<longleftrightarrow> 0 \<le> age
     \<and> (\<exists>current observed_at. (case time of None \<Rightarrow> Aware clock | Some m \<Rightarrow> m) = Aware current
        \<and> sc_observed_at c = Aware observed_at \<and> observed_at \<le> current \<and> current \<le> observed_at + age)
     \<and> (name \<in> set (sc_applicable_to c) \<or> str ''*'' \<in> set (sc_applicable_to c))
     \<and> authority_rank minimum \<le> authority_rank (sc_authority c)"
  by (auto simp: validate_for_def not_less split: moment.splits option.splits if_splits)

lemma fresher_context_still_drives:
  assumes "validate_for clock c name age time minimum = Inr u" "age \<le> age'" "authority_rank minimum' \<le> authority_rank minimum"
  shows "validate_for clock c name age' time minimum' = Inr ()"
  using assms unfolding validate_for_iff by force

section \<open>What the reports decide\<close>

lemma validate_pack_decision:
  assumes "validate_pack p = Inr u"
  shows "rp_decision p = str ''approve'' \<longleftrightarrow> rp_decision p \<noteq> str ''hold'' \<and> rp_conditions p = []"
  using assms by (auto simp: validate_pack_def rbind_eq_Inr)

lemma readiness_decides:
  assumes "blocking_items r = Inr bs" "readiness_decision r = Inr d"
  shows "d = (if bs = [] then str ''ready_for_human_release_decision'' else str ''hold'')"
  using assms
  by (auto simp: blocking_items_def readiness_decision_def internal_ready_def external_ready_def rbind_eq_Inr
      filter_empty_conv list_all_iff split: if_splits)

lemma blocking_none:
  "blocking_dimensions m = Inr bs \<Longrightarrow> bs = [] \<longleftrightarrow> (\<forall>k \<in> set dimensions. done_in m k)"
  by (auto simp only: blocking_dimensions_def rbind_eq_Inr sum.inject filter_empty_conv not_not)

lemma first_stage:
  assumes "s1 \<noteq> z" "s2 \<noteq> z" "s3 \<noteq> z" "s4 \<noteq> z" "s5 \<noteq> z"
  shows "(if \<not> a \<or> \<not> b then s1 else if \<not> d \<or> \<not> f then s2 else if \<not> e \<or> \<not> g then s3 else if \<not> h then s4 else if \<not> c then s5 else z) = z
    \<longleftrightarrow> a \<and> b \<and> c \<and> d \<and> e \<and> f \<and> g \<and> h"
  using assms by auto

lemma next_stage_ready:
  assumes "next_stage m = Inr n" "blocking_dimensions m = Inr bs"
  shows "n = ''ready_for_candidate_freeze'' \<longleftrightarrow> bs = []"
proof -
  define f where "f k = done_in m k" for k
  have "bs = [] \<longleftrightarrow> (\<forall>k \<in> set dimensions. f k)" using blocking_none [OF assms(2)] by (simp only: f_def)
  moreover from assms(1) have "n = (if \<not> f ''traceability'' \<or> \<not> f ''runtime_paths'' then ''implementation_gap_review''
     else if \<not> f ''lifecycle_operations'' \<or> \<not> f ''release_artifacts'' then ''operational_acceptance_review''
     else if \<not> f ''supported_scope'' \<or> \<not> f ''customer_handover'' then ''handover_gap_review''
     else if \<not> f ''bilingual_documents'' then ''documentation_gap_review''
     else if \<not> f ''authority_and_escalation'' then ''governance_gap_review''
     else ''ready_for_candidate_freeze'')"
    unfolding next_stage_def rbind_eq_Inr f_def sum.inject by (elim exE conjE) (erule sym)
  ultimately show ?thesis
    by (simp only: dimensions_def list.set ball_simps first_stage list.inject char.inject list.distinct simp_thms not_False_eq_True)
qed

lemma validate_items_all: "validate_items m ks = Inr u \<Longrightarrow> k \<in> set ks \<Longrightarrow> \<exists>i. item m k = Inr i \<and> validate_item i = Inr ()"
  by (induction ks) (auto simp: rbind_eq_Inr)

lemma verified_has_evidence:
  assumes "validate_matrix m = Inr u" "k \<in> set dimensions" "done_in m k"
  shows "\<exists>i. map_of (am_items m) (str k) = Some i \<and> ai_evidence i \<noteq> [] \<and> list_all (\<lambda>e. \<not> blank e) (ai_evidence i)"
proof -
  from assms(1) have "validate_items m dimensions = Inr ()" by (simp add: validate_matrix_def rbind_eq_Inr)
  from validate_items_all [OF this assms(2)] obtain i where i: "item m k = Inr i" "validate_item i = Inr ()" by blast
  then have "map_of (am_items m) (str k) = Some i" by (simp add: item_def split: option.splits)
  with assms(3) i(2) show ?thesis by (auto simp: status_of_def validate_item_def rbind_eq_Inr)
qed

lemma report_digest_pins:
  assumes "float_repr_ok (float_repr env)" "report_digest env r = Inr h" "report_digest env q = Inr h"
  shows "(\<exists>d e. r = Inr d \<and> q = Inr e \<and> canonical_doc (PDict d) = canonical_doc (PDict e)) \<or> (\<exists>a b. a \<noteq> b \<and> sha256 env a = sha256 env b)"
proof (rule disjCI)
  assume nc: "\<not> (\<exists>a b. a \<noteq> b \<and> sha256 env a = sha256 env b)"
  from assms(2,3) obtain d e a b where "r = Inr d" "q = Inr e" "canonical_bytes (float_repr env) (PDict d) = Inr a"
    "canonical_bytes (float_repr env) (PDict e) = Inr b" "sha256 env a = sha256 env b"
    by (auto simp: report_digest_def rbind_eq_Inr)
  moreover from this nc have "a = b" by blast
  ultimately show "\<exists>d e. r = Inr d \<and> q = Inr e \<and> canonical_doc (PDict d) = canonical_doc (PDict e)"
    using canonical_bytes_inject [OF assms(1)] by blast
qed

end
