(* ===== verification/Rpr_Connection.thy ===== *)
theory Rpr_Connection
  imports Rpr_Executors
begin

text \<open>
  The read-only connection rehearsal (\<open>read_only_connection.py\<close>). \<open>urlsplit\<close>, the parser of
  internet addresses and the network are arguments; the state is the network with the requests
  that were sent. The lemmas: a rehearsal sends at most one request, only one that reads, without
  credentials, to an allowed origin, and bounds what it keeps of the answer.
\<close>

section \<open>The rehearsal\<close>

record read_request =
  rq_url :: pystr
  rq_method :: pystr
  rq_headers :: "(pystr \<times> pystr) list"

record read_response =
  ra_status :: int
  ra_content_type :: "pystr option"

record 'n connection =
  network :: 'n
  requests :: "read_request list"

text \<open>
  \<open>is_loopback\<close> is \<open>ip_address(host).is_loopback\<close>, \<open>None\<close> its \<open>ValueError\<close>; \<open>send\<close> is the opener
  without redirects, for which an answer that is no success is an \<open>HTTPError\<close>.
\<close>

record 'n read_ops =
  split_url :: "pystr \<Rightarrow> url_parts res"
  is_loopback :: "pystr \<Rightarrow> bool option"
  send :: "read_request \<Rightarrow> pfloat \<Rightarrow> 'n \<Rightarrow> (http_fault + read_response) \<times> 'n"
  read_answer :: "read_response \<Rightarrow> int \<Rightarrow> ('n, nat list) py"

record connection_evidence =
  ce_method :: pystr
  ce_origin :: pystr
  ce_status_code :: int
  ce_content_length :: int
  ce_body_sha256 :: pystr
  ce_content_type :: "pystr option"

definition host_of :: "url_parts \<Rightarrow> pystr" where
  "host_of p = (case up_hostname p of None \<Rightarrow> [] | Some h \<Rightarrow> h)"

definition origin_of :: "url_parts \<Rightarrow> pystr res" where
  "origin_of p = rbind (up_port p) (\<lambda>given.
     let default_port = (if up_scheme p = str ''https'' then 443 else 80);
         port = (case given of Some k \<Rightarrow> if k \<noteq> 0 then k else default_port | None \<Rightarrow> default_port);
         host = (if 58 \<in> set (host_of p) then 91 # host_of p @ [93] else host_of p)
     in Inr (up_scheme p @ str ''://'' @ host @ (if port = default_port then [] else 58 # int_text port)))"

definition is_loopback_literal :: "(pystr \<Rightarrow> bool option) \<Rightarrow> pystr \<Rightarrow> bool" where
  "is_loopback_literal ip host \<longleftrightarrow> lower_text host = str ''localhost'' \<or> ip host = Some True"

text \<open>\<open>x <= 0\<close> of a float: false of a NaN.\<close>

fun nonpositive :: "pfloat \<Rightarrow> bool" where
  "nonpositive FNan = False"
| "nonpositive (FInf negative) = negative"
| "nonpositive FNegZero = True"
| "nonpositive (FFin q) = (q \<le> 0)"

definition read_methods :: "pystr list" where
  "read_methods = map str [''GET'', ''HEAD'']"

definition read_headers :: "pystr list" where
  "read_headers = map str [''accept'', ''user-agent'']"

text \<open>The checks before anything is sent, in their order: the origin and the request.\<close>

definition connection_plan :: "(pystr \<Rightarrow> url_parts res) \<Rightarrow> (pystr \<Rightarrow> bool option) \<Rightarrow> pystr list \<Rightarrow> bool \<Rightarrow> pystr \<Rightarrow> pystr
    \<Rightarrow> pfloat \<Rightarrow> int \<Rightarrow> (pystr \<times> pystr) list \<Rightarrow> (pystr \<times> read_request) res" where
  "connection_plan parse ip origins public url verb timeout limit headers =
     rbind (check (upper_text verb \<in> set read_methods) ReadOnlyConnectionError ''method_not_read_only'') (\<lambda>_.
     rbind (check (\<not> nonpositive timeout \<and> 0 < limit) ReadOnlyConnectionError ''invalid_bound'') (\<lambda>_.
     rbind (parse url) (\<lambda>p.
     rbind (check (up_scheme p \<in> {str ''http'', str ''https''} \<and> filled (up_hostname p)) ReadOnlyConnectionError ''unsupported_url'') (\<lambda>_.
     rbind (check (up_username p = None \<and> up_password p = None) ReadOnlyConnectionError ''url_userinfo_forbidden'') (\<lambda>_.
     rbind (check (up_fragment p = []) ReadOnlyConnectionError ''url_fragment_forbidden'') (\<lambda>_.
     rbind (origin_of p) (\<lambda>origin.
     rbind (check (origin \<in> set origins) ReadOnlyConnectionError ''origin_not_allowed'') (\<lambda>_.
     let loopback = is_loopback_literal ip (host_of p) in
     rbind (check (up_scheme p = str ''http'' \<longrightarrow> loopback) ReadOnlyConnectionError ''public_plain_http_forbidden'') (\<lambda>_.
     rbind (check (public \<or> loopback) ReadOnlyConnectionError ''public_network_not_enabled'') (\<lambda>_.
     rbind (check (list_all (\<lambda>(k, _). lower_text k \<in> set read_headers) headers) ReadOnlyConnectionError ''header_not_allowed'') (\<lambda>_.
     rbind (check (list_all (\<lambda>(_, v). 13 \<notin> set v \<and> 10 \<notin> set v) headers) ReadOnlyConnectionError ''invalid_header_value'') (\<lambda>_.
       Inr (origin, \<lparr>rq_url = url, rq_method = upper_text verb, rq_headers = headers\<rparr>)))))))))))))"

text \<open>From the response on; \<open>body\<close> is read up to one byte past the limit.\<close>

definition response_evidence :: "(nat list \<Rightarrow> pystr) \<Rightarrow> pystr \<Rightarrow> read_request \<Rightarrow> int \<Rightarrow> read_response \<Rightarrow> nat list
    \<Rightarrow> connection_evidence res" where
  "response_evidence hash origin q limit a body =
     (if int (length body) > limit then err ReadOnlyConnectionError ''response_too_large''
      else Inr \<lparr>ce_method = rq_method q, ce_origin = origin, ce_status_code = ra_status a,
        ce_content_length = int (length body), ce_body_sha256 = hash body, ce_content_type = ra_content_type a\<rparr>)"

definition answer_evidence :: "'n read_ops \<Rightarrow> (nat list \<Rightarrow> pystr) \<Rightarrow> pystr \<Rightarrow> read_request \<Rightarrow> int \<Rightarrow> read_response
    \<Rightarrow> ('n connection, connection_evidence) py" where
  "answer_evidence io hash origin q limit a =
     (if \<not> (200 \<le> ra_status a \<and> ra_status a < 300)
      then throw (Exn ReadOnlyConnectionError (str ''unexpected_status:'' @ int_text (ra_status a)))
      else bnd (if rq_method q = str ''HEAD'' then ret []
          else zoom network (\<lambda>n w. w\<lparr>network := n\<rparr>) (read_answer io a (limit + 1)))
        (\<lambda>body. lift (response_evidence hash origin q limit a body)))"

text \<open>The handlers, in order.\<close>

definition connection_fault :: "http_fault \<Rightarrow> exn" where
  "connection_fault f = (case f of
       HttpError code \<Rightarrow> Exn ReadOnlyConnectionError
         (if 300 \<le> code \<and> code < 400 then str ''redirect_forbidden'' else str ''http_error:'' @ int_text code)
     | UrlError _ \<Rightarrow> Exn ReadOnlyConnectionError (str ''connection_failed'')
     | Raised e \<Rightarrow>
         (if catches [ReadOnlyConnectionError] e then e
          else if catches [TimeoutError, OSError] e then Exn ReadOnlyConnectionError (str ''connection_failed'')
          else e))"

definition send_request :: "'n read_ops \<Rightarrow> (nat list \<Rightarrow> pystr) \<Rightarrow> pystr \<Rightarrow> read_request \<Rightarrow> pfloat \<Rightarrow> int
    \<Rightarrow> ('n connection, connection_evidence) py" where
  "send_request io hash origin q timeout limit = (\<lambda>w. case send io q timeout (network w) of (answer, n) \<Rightarrow>
     let t = w\<lparr>network := n, requests := requests w @ [q]\<rparr> in
     case answer of
       Inl f \<Rightarrow> (Inl (connection_fault f), t)
     | Inr a \<Rightarrow> handle (\<lambda>_. True) (answer_evidence io hash origin q limit a) (\<lambda>e. throw (connection_fault (Raised e))) t)"

definition rehearse_read_only_connection :: "'n read_ops \<Rightarrow> (nat list \<Rightarrow> pystr) \<Rightarrow> pystr \<Rightarrow> pystr list \<Rightarrow> pystr \<Rightarrow> pfloat
    \<Rightarrow> int \<Rightarrow> (pystr \<times> pystr) list \<Rightarrow> bool \<Rightarrow> ('n connection, connection_evidence) py" where
  "rehearse_read_only_connection io hash url origins verb timeout limit headers public =
     bnd (lift (connection_plan (split_url io) (is_loopback io) origins public url verb timeout limit headers))
       (\<lambda>(origin, q). send_request io hash origin q timeout limit)"

section \<open>What is sent, and what is kept of the answer\<close>

text \<open>A request that reads, to an allowed origin that is local or reached over TLS.\<close>

definition harmless :: "(pystr \<Rightarrow> url_parts res) \<Rightarrow> (pystr \<Rightarrow> bool option) \<Rightarrow> pystr list \<Rightarrow> bool \<Rightarrow> pystr \<Rightarrow> read_request \<Rightarrow> bool" where
  "harmless parse ip origins public origin q \<longleftrightarrow> rq_method q \<in> set read_methods \<and> origin \<in> set origins
     \<and> list_all (\<lambda>(k, v). lower_text k \<in> set read_headers \<and> 13 \<notin> set v \<and> 10 \<notin> set v) (rq_headers q)
     \<and> (\<exists>p. parse (rq_url q) = Inr p \<and> origin_of p = Inr origin \<and> up_username p = None \<and> up_password p = None
          \<and> (is_loopback_literal ip (host_of p) \<or> public \<and> up_scheme p = str ''https''))"

lemma plan_harmless:
  assumes "connection_plan parse ip origins public url verb timeout limit headers = Inr (origin, q)"
  shows "harmless parse ip origins public origin q" "rq_url q = url" "rq_method q = upper_text verb"
    "rq_headers q = headers" "0 < limit"
  using assms by (auto simp: connection_plan_def harmless_def rbind_eq_Inr Let_def list_all_iff)

lemma response_evidence_bounded:
  "response_evidence hash origin q limit a body = Inr r \<Longrightarrow>
     ce_method r = rq_method q \<and> ce_origin r = origin \<and> ce_status_code r = ra_status a \<and> ce_body_sha256 r = hash body
     \<and> ce_content_length r = int (length body) \<and> int (length body) \<le> limit"
  by (auto simp: response_evidence_def split: if_splits)

definition fits :: "pystr \<Rightarrow> read_request \<Rightarrow> int \<Rightarrow> connection_evidence \<Rightarrow> bool" where
  "fits origin q limit r \<longleftrightarrow> ce_method r = rq_method q \<and> ce_origin r = origin
     \<and> 200 \<le> ce_status_code r \<and> ce_status_code r < 300 \<and> 0 \<le> ce_content_length r \<and> ce_content_length r \<le> limit
     \<and> (rq_method q = str ''HEAD'' \<longrightarrow> ce_content_length r = 0)"

lemma wp_answer_evidence:
  assumes "0 \<le> limit"
  shows "wp (answer_evidence io hash origin q limit a) (\<lambda>r t. fits origin q limit r \<and> requests t = requests w)
     (\<lambda>_ t. requests t = requests w) w"
proof -
  have "wp (read_answer io a (limit + 1)) (\<lambda>body n. 200 \<le> ra_status a \<and> ra_status a < 300 \<longrightarrow>
      (case response_evidence hash origin q limit a body of Inl e \<Rightarrow> True | Inr r \<Rightarrow> rq_method q \<noteq> str ''HEAD'' \<longrightarrow> fits origin q limit r))
      (\<lambda>_ _. True) (network w)"
    by (rule wpI) (auto simp: fits_def dest: response_evidence_bounded split: sum.split)
  then show ?thesis
    using assms unfolding answer_evidence_def
    by (auto simp: wp fits_def dest: response_evidence_bounded split: sum.splits elim!: wp_mono)
qed

lemma wp_send_request:
  assumes "0 \<le> limit"
  shows "wp (send_request io hash origin q timeout limit) (\<lambda>r t. fits origin q limit r \<and> requests t = requests w @ [q])
     (\<lambda>_ t. requests t = requests w @ [q]) w"
proof -
  obtain answer n where s: "send io q timeout (network w) = (answer, n)" by (cases "send io q timeout (network w)")
  let ?t = "w\<lparr>network := n, requests := requests w @ [q]\<rparr>"
  have "wp (handle (\<lambda>_. True) (answer_evidence io hash origin q limit a) (\<lambda>e. throw (connection_fault (Raised e))))
      (\<lambda>r t. fits origin q limit r \<and> requests t = requests w @ [q]) (\<lambda>_ t. requests t = requests w @ [q]) ?t" for a
    unfolding wp by (rule wp_mono [OF wp_answer_evidence [OF assms, where w = ?t]]) auto
  then show ?thesis using s by (cases answer) (simp_all add: send_request_def wp_def Let_def)
qed

text \<open>
  C37. A rehearsal that fails a check sends nothing and raises the error of the check; otherwise it
  sends exactly one request, to the url it was given, which only reads, carries no credentials, goes
  to an allowed origin that is local or (when the public network is enabled) reached over TLS, and
  has only harmless headers. Evidence is returned only for a successful status, and records the
  request that was sent and at most the allowed number of bytes.
\<close>

theorem rehearsal_contract:
  "case rehearse_read_only_connection io hash url origins verb timeout limit headers public w of (r, t) \<Rightarrow>
     (case connection_plan (split_url io) (is_loopback io) origins public url verb timeout limit headers of
        Inl e \<Rightarrow> r = Inl e \<and> t = w
      | Inr (origin, q) \<Rightarrow> requests t = requests w @ [q] \<and> rq_url q = url
          \<and> harmless (split_url io) (is_loopback io) origins public origin q
          \<and> (case r of Inl e \<Rightarrow> True | Inr c \<Rightarrow> fits origin q limit c))"
proof (cases "connection_plan (split_url io) (is_loopback io) origins public url verb timeout limit headers")
  case (Inr oq)
  obtain origin q where oq: "oq = (origin, q)" by (cases oq)
  note plan = plan_harmless [OF Inr [unfolded oq]]
  have "wp (send_request io hash origin q timeout limit) (\<lambda>r t. fits origin q limit r \<and> requests t = requests w @ [q])
     (\<lambda>_ t. requests t = requests w @ [q]) w"
    by (rule wp_send_request) (use plan(5) in simp)
  with Inr oq plan(1,2) show ?thesis
    by (auto simp: rehearse_read_only_connection_def bnd_def wp_def split: prod.splits sum.splits)
qed (simp add: rehearse_read_only_connection_def bnd_def)

end
