(* ===== verification/Rpr_Backup.thy ===== *)
theory Rpr_Backup
  imports Rpr_Executors Rpr_Demo
begin

text \<open>
  Verified backup and restore of SQLite files (\<open>backup.py\<close>). The state is a tree of files and
  folders; each access that can fail consumes an entry of a fault schedule, so that a failure or a
  stop of the process at every point is covered. SQLite's backup of one file to another and its
  integrity check are arguments, as are the hash, the clock and the resolution of a path. The lemmas:
  a restore replaces its target as a whole or not at all, a backup leaves every file as it is, and
  what was backed up is what a restore brings back.
\<close>

section \<open>The file system\<close>

datatype entry = File "nat list" | Folder

record files =
  tree :: "path \<Rightarrow> entry option"
  disk_faults :: "fault list"

definition disk_step :: "(files, 'a) py \<Rightarrow> (files, 'a) py" where
  "disk_step m = (\<lambda>s. case disk_faults s of
     [] \<Rightarrow> m s
   | Fine # fs \<Rightarrow> m (s\<lparr>disk_faults := fs\<rparr>)
   | Failing # fs \<Rightarrow> (Inl (Exn OSError (str ''input/output error'')), s\<lparr>disk_faults := fs\<rparr>)
   | Stopping # fs \<Rightarrow> (Inl (Exn Crash []), s\<lparr>disk_faults := fs\<rparr>))"

definition file_at :: "files \<Rightarrow> path \<Rightarrow> nat list option" where
  "file_at s p = (case tree s p of Some (File b) \<Rightarrow> Some b | _ \<Rightarrow> None)"

definition put_entry :: "path \<Rightarrow> entry option \<Rightarrow> files \<Rightarrow> files" where
  "put_entry p e s = s\<lparr>tree := (tree s)(p := e)\<rparr>"

definition is_file :: "path \<Rightarrow> (files, bool) py" where
  "is_file p = query (\<lambda>s. Inr (file_at s p \<noteq> None))"

definition path_exists :: "path \<Rightarrow> (files, bool) py" where
  "path_exists p = query (\<lambda>s. Inr (tree s p \<noteq> None))"

definition read_file :: "path \<Rightarrow> (files, nat list) py" where
  "read_file p = disk_step (query (\<lambda>s. case file_at s p of None \<Rightarrow> err OSError ''cannot read'' | Some b \<Rightarrow> Inr b))"

text \<open>\<open>mkdir(parents=True, exist_ok=True)\<close>.\<close>

definition make_folders :: "path \<Rightarrow> (files, unit) py" where
  "make_folders p = disk_step (\<lambda>s.
     if list_ex (\<lambda>q. file_at s q \<noteq> None) (prefixes p) then (err OSError ''not a directory'', s)
     else (Inr (), s\<lparr>tree := \<lambda>q. if q \<in> set (prefixes p) then Some Folder else tree s q\<rparr>))"

text \<open>\<open>unlink(missing_ok=True)\<close>.\<close>

definition unlink :: "path \<Rightarrow> (files, unit) py" where
  "unlink p = disk_step (\<lambda>s. if tree s p = Some Folder then (err OSError ''is a directory'', s) else (Inr (), put_entry p None s))"

definition move_file :: "path \<Rightarrow> path \<Rightarrow> (files, unit) py" where
  "move_file p q = disk_step (\<lambda>s. case file_at s p of
       None \<Rightarrow> (err OSError ''no such file'', s)
     | Some b \<Rightarrow> if tree s q = Some Folder then (err OSError ''is a directory'', s)
         else (Inr (), put_entry q (Some (File b)) (put_entry p None s)))"

definition write_file_text :: "path \<Rightarrow> nat list \<Rightarrow> (files, unit) py" where
  "write_file_text p b = disk_step (\<lambda>s.
     if tree s p = Some Folder \<or> tree s (butlast p) \<noteq> Some Folder then (err OSError ''cannot write'', s)
     else (Inr (), put_entry p (Some (File b)) s))"

section \<open>SQLite files\<close>

text \<open>
  \<open>sq_copy\<close> is \<open>Connection.backup\<close>: what the destination holds afterwards and how the call ended.
  \<open>sq_integrity\<close> is the text of \<open>PRAGMA integrity_check\<close>.
\<close>

record sqlite_ops =
  sq_copy :: "nat list \<Rightarrow> nat list \<times> unit res"
  sq_integrity :: "nat list \<Rightarrow> pystr res"

text \<open>\<open>sqlite3.connect\<close>: a file that is not there is created empty.\<close>

definition open_database :: "path \<Rightarrow> (files, nat list) py" where
  "open_database p = disk_step (\<lambda>s. case tree s p of
       Some (File b) \<Rightarrow> (Inr b, s)
     | Some Folder \<Rightarrow> (err SqliteOperationalError ''unable to open database file'', s)
     | None \<Rightarrow> (if tree s (butlast p) = Some Folder then (Inr [], put_entry p (Some (File [])) s)
         else (err SqliteOperationalError ''unable to open database file'', s)))"

text \<open>A copy of a file onto itself cannot lock its own database.\<close>

definition copy_database :: "sqlite_ops \<Rightarrow> path \<Rightarrow> path \<Rightarrow> (files, unit) py" where
  "copy_database db p q = bnd (open_database p) (\<lambda>b. bnd (open_database q) (\<lambda>_.
     if p = q then raise SqliteOperationalError ''database is locked''
     else disk_step (\<lambda>s. case sq_copy db b of (c, r) \<Rightarrow> (r, put_entry q (Some (File c)) s))))"

definition file_sha256 :: "(nat list \<Rightarrow> pystr) \<Rightarrow> path \<Rightarrow> (files, pystr) py" where
  "file_sha256 hash p = bnd (read_file p) (\<lambda>b. ret (hash b))"

definition integrity_of :: "sqlite_ops \<Rightarrow> path \<Rightarrow> (files, pystr) py" where
  "integrity_of db p = bnd (open_database p) (\<lambda>b. lift (sq_integrity db b))"

section \<open>Restore\<close>

definition temporary_of :: "path \<Rightarrow> path" where
  "temporary_of target = butlast target @ [46 # last target @ str ''.restore.tmp'']"

definition with_temporary_name :: "path \<Rightarrow> path res" where
  "with_temporary_name target = (if target = [] then err ValueError ''empty name'' else Inr (temporary_of target))"

text \<open>From the creation of the temporary file on.\<close>

definition restore_through :: "sqlite_ops \<Rightarrow> path \<Rightarrow> path \<Rightarrow> path \<Rightarrow> (files, path) py" where
  "restore_through db source temporary target =
     seq (unlink temporary) (
     seq (copy_database db source temporary) (
     bnd (integrity_of db temporary) (\<lambda>i.
       if i \<noteq> str ''ok'' then seq (unlink temporary) (raise BackupError ''restored database failed integrity check'')
       else seq (move_file temporary target) (ret target))))"

definition restore_file :: "sqlite_ops \<Rightarrow> (nat list \<Rightarrow> pystr) \<Rightarrow> path \<Rightarrow> path \<Rightarrow> pystr \<Rightarrow> bool \<Rightarrow> (files, path) py" where
  "restore_file db hash source target expected replace =
     bnd (is_file source) (\<lambda>f. if \<not> f then raise BackupError ''backup file does not exist''
     else bnd (file_sha256 hash source) (\<lambda>h. if h \<noteq> expected then raise BackupError ''backup digest does not match manifest''
     else bnd (integrity_of db source) (\<lambda>i. if i \<noteq> str ''ok'' then raise BackupError ''backup database failed integrity check''
     else bnd (path_exists target) (\<lambda>e. if e \<and> \<not> replace then raise BackupError ''restore target already exists''
     else seq (make_folders (butlast target)) (
       bnd (lift (with_temporary_name target)) (\<lambda>temporary. restore_through db source temporary target))))))"

definition restore_sqlite_backup :: "sqlite_ops \<Rightarrow> (nat list \<Rightarrow> pystr) \<Rightarrow> (pystr \<Rightarrow> path res) \<Rightarrow> pystr \<Rightarrow> pystr \<Rightarrow> pystr \<Rightarrow> bool
    \<Rightarrow> (files, path) py" where
  "restore_sqlite_backup db hash resolve backup dest expected replace =
     bnd (lift (resolve backup)) (\<lambda>source. bnd (lift (resolve dest)) (\<lambda>target.
       restore_file db hash source target expected replace))"

section \<open>Backup\<close>

record backup_artifact =
  ba_name :: pystr
  ba_source :: pystr
  ba_backup :: pystr
  ba_sha256 :: pystr
  ba_integrity :: pystr

record backup_manifest =
  bm_format_version :: int
  bm_created_at :: pystr
  bm_artifacts :: "backup_artifact list"

definition artifact_dict :: "backup_artifact \<Rightarrow> pdict" where
  "artifact_dict a = obj [(''name'', PStr (ba_name a)), (''source'', PStr (ba_source a)), (''backup'', PStr (ba_backup a)),
     (''sha256'', PStr (ba_sha256 a)), (''integrity_check'', PStr (ba_integrity a))]"

definition backup_manifest_dict :: "backup_manifest \<Rightarrow> pdict" where
  "backup_manifest_dict m = obj [(''format_version'', PInt (bm_format_version m)), (''created_at'', PStr (bm_created_at m)),
     (''artifacts'', PList (map (\<lambda>a. PDict (artifact_dict a)) (bm_artifacts m)))]"

text \<open>\<open>json.dumps(v, indent=2)\<close>: text outside ASCII is escaped.\<close>

definition u_escape :: "nat \<Rightarrow> pystr" where
  "u_escape c = [92, 117, hex_digit (c div 4096 mod 16), hex_digit (c div 256 mod 16), hex_digit (c div 16 mod 16), hex_digit (c mod 16)]"

definition ascii_char :: "nat \<Rightarrow> pystr" where
  "ascii_char c = (if c < 127 then escape_char c else if c < 65536 then u_escape c
     else u_escape (55296 + (c - 65536) div 1024) @ u_escape (56320 + (c - 65536) mod 1024))"

definition ascii_text :: "pystr \<Rightarrow> pystr" where
  "ascii_text s = 34 # concat (map ascii_char s) @ [34]"

definition new_line :: "nat \<Rightarrow> pystr" where
  "new_line n = 10 # replicate (2 * n) 32"

fun indented :: "(rat \<Rightarrow> pystr) \<Rightarrow> nat \<Rightarrow> pv \<Rightarrow> pystr"
  and indented_list :: "(rat \<Rightarrow> pystr) \<Rightarrow> nat \<Rightarrow> pv list \<Rightarrow> pystr"
  and indented_items :: "(rat \<Rightarrow> pystr) \<Rightarrow> nat \<Rightarrow> pdict \<Rightarrow> pystr" where
  "indented fr n (PStr s) = ascii_text s"
| "indented fr n (PList vs) = (if vs = [] then str ''[]'' else 91 # new_line (Suc n) @ indented_list fr (Suc n) vs @ new_line n @ [93])"
| "indented fr n (PDict kvs) = (if kvs = [] then [123, 125] else 123 # new_line (Suc n) @ indented_items fr (Suc n) kvs @ new_line n @ [125])"
| "indented fr n v = json_text fr v"
| "indented_list fr n [] = []"
| "indented_list fr n (v # vs) = indented fr n v @ (if vs = [] then [] else 44 # new_line n @ indented_list fr n vs)"
| "indented_items fr n [] = []"
| "indented_items fr n ((k, v) # kvs) = ascii_text (key_text k) @ 58 # 32 # indented fr n v
     @ (if kvs = [] then [] else 44 # new_line n @ indented_items fr n kvs)"

text \<open>\<open>json.dumps(v, indent=2, sort_keys=True) + newline\<close>, encoded.\<close>

definition indented_bytes :: "(rat \<Rightarrow> pystr) \<Rightarrow> pdict \<Rightarrow> nat list res" where
  "indented_bytes fr d = rbind (canonical_doc (PDict d)) (\<lambda>c. utf8_encode (indented fr 0 c @ [10]))"

definition path_text :: "path \<Rightarrow> pystr" where
  "path_text p = 47 # join_path p"

text \<open>One database of the set: the copy, its check and its artifact.\<close>

definition backup_one :: "sqlite_ops \<Rightarrow> (nat list \<Rightarrow> pystr) \<Rightarrow> pystr \<Rightarrow> path \<Rightarrow> path \<Rightarrow> (files, backup_artifact) py" where
  "backup_one db hash name source target =
     bnd (is_file source) (\<lambda>f. if \<not> f then raise BackupError ''database does not exist''
     else bnd (path_exists target) (\<lambda>e. if e then raise BackupError ''backup target already exists''
     else seq (copy_database db source target) (
     bnd (integrity_of db target) (\<lambda>i.
       if i \<noteq> str ''ok'' then seq (unlink target) (raise BackupError ''backup integrity check failed'')
       else bnd (file_sha256 hash target) (\<lambda>h.
         ret \<lparr>ba_name = name, ba_source = path_text source, ba_backup = path_text target, ba_sha256 = h, ba_integrity = i\<rparr>)))))"

definition backup_name_ok :: "pystr \<Rightarrow> pystr list \<Rightarrow> bool" where
  "backup_name_ok name names \<longleftrightarrow> name \<noteq> [] \<and> name \<notin> set names \<and> 47 \<notin> set name \<and> 92 \<notin> set name"

definition backup_path :: "path \<Rightarrow> pystr \<Rightarrow> path" where
  "backup_path folder name = folder @ [name @ str ''.sqlite3'']"

fun backup_all :: "sqlite_ops \<Rightarrow> (nat list \<Rightarrow> pystr) \<Rightarrow> (pystr \<Rightarrow> path res) \<Rightarrow> path \<Rightarrow> (pystr \<times> pystr) list \<Rightarrow> pystr list
    \<Rightarrow> (files, backup_artifact list) py" where
  "backup_all db hash resolve folder [] names = ret []"
| "backup_all db hash resolve folder ((name, source) # others) names =
     (if \<not> backup_name_ok (strip name) names then raise BackupError ''backup database names must be unique simple names''
      else bnd (lift (resolve source)) (\<lambda>p.
        bnd (backup_one db hash (strip name) p (backup_path folder (strip name))) (\<lambda>a.
        bnd (backup_all db hash resolve folder others (strip name # names)) (\<lambda>as. ret (a # as)))))"

definition manifest_path :: "path \<Rightarrow> path" where
  "manifest_path folder = folder @ [str ''backup-manifest.json'']"

definition backup_sqlite_set :: "sqlite_ops \<Rightarrow> pyenv \<Rightarrow> (pystr \<Rightarrow> path res) \<Rightarrow> pystr \<Rightarrow> (pystr \<times> pystr) list \<Rightarrow> pystr
    \<Rightarrow> (files, backup_manifest) py" where
  "backup_sqlite_set db env resolve now_text databases dest =
     bnd (lift (resolve dest)) (\<lambda>folder.
     seq (make_folders folder) (
     bnd (backup_all db (sha256 env) resolve folder databases []) (\<lambda>as.
     let m = \<lparr>bm_format_version = 1, bm_created_at = now_text, bm_artifacts = as\<rparr> in
     bnd (lift (indented_bytes (float_repr env) (backup_manifest_dict m))) (\<lambda>b.
     seq (write_file_text (manifest_path folder) b) (ret m)))))"

section \<open>What each access does to the files\<close>

lemma wp_disk_step:
  assumes "wp m Q E s" "\<And>fs. wp m Q E (s\<lparr>disk_faults := fs\<rparr>)" "\<And>e fs. E e (s\<lparr>disk_faults := fs\<rparr>)"
  shows "wp (disk_step m) Q E s"
  using assms by (auto simp: wp_def disk_step_def split: list.splits fault.splits)

lemma file_at_faults [simp]: "file_at (s\<lparr>disk_faults := fs\<rparr>) = file_at s"
  by (auto simp: file_at_def fun_eq_iff)

lemma file_at_put [simp]:
  "file_at (put_entry p e s) = (file_at s)(p := (case e of Some (File b) \<Rightarrow> Some b | _ \<Rightarrow> None))"
  by (auto simp: file_at_def put_entry_def fun_eq_iff)

lemma file_at_tree: "tree s p = Some (File b) \<Longrightarrow> file_at s p = Some b" "tree s p = None \<Longrightarrow> file_at s p = None"
  by (auto simp: file_at_def)

lemma wp_read_file:
  assumes "\<And>b t. file_at s p = Some b \<Longrightarrow> file_at t = file_at s \<Longrightarrow> Q b t" "\<And>e t. file_at t = file_at s \<Longrightarrow> E e t"
  shows "wp (read_file p) Q E s"
  unfolding read_file_def by (rule wp_disk_step) (auto simp: wp assms split: option.splits sum.splits)

lemma wp_make_folders:
  assumes "\<And>t. file_at t = file_at s \<Longrightarrow> Q () t" "\<And>e t. file_at t = file_at s \<Longrightarrow> E e t"
  shows "wp (make_folders p) Q E s"
proof -
  have same: "file_at (u\<lparr>tree := \<lambda>q. if q \<in> set (prefixes p) then Some Folder else tree u q\<rparr>) = file_at u"
    if "\<not> list_ex (\<lambda>q. file_at u q \<noteq> None) (prefixes p)" for u
    using that by (auto simp: file_at_def fun_eq_iff list_ex_iff split: option.splits entry.splits)
  have "wp (\<lambda>s. if list_ex (\<lambda>q. file_at s q \<noteq> None) (prefixes p) then (err OSError ''not a directory'', s)
     else (Inr (), s\<lparr>tree := \<lambda>q. if q \<in> set (prefixes p) then Some Folder else tree s q\<rparr>)) Q E u"
    if "file_at u = file_at s" for u
    using that assms same [of u] by (simp add: wp_def del: prefixes.simps in_set_prefixes)
  note w = this
  show ?thesis unfolding make_folders_def by (intro wp_disk_step w assms(2) file_at_faults refl)
qed

lemma wp_unlink:
  assumes "\<And>t. file_at t = (file_at s)(p := None) \<Longrightarrow> Q () t" "\<And>e t. file_at t = file_at s \<Longrightarrow> E e t"
  shows "wp (unlink p) Q E s"
  unfolding unlink_def by (rule wp_disk_step) (auto simp: wp_def assms)

lemma wp_move_file:
  assumes "\<And>b t. file_at s p = Some b \<Longrightarrow> file_at t = (file_at s)(p := None, q := Some b) \<Longrightarrow> Q () t"
    and "\<And>e t. file_at t = file_at s \<Longrightarrow> E e t"
  shows "wp (move_file p q) Q E s"
  unfolding move_file_def by (rule wp_disk_step) (auto simp: wp_def assms split: option.splits)

lemma wp_write_file_text:
  assumes "\<And>t. file_at t = (file_at s)(p := Some b) \<Longrightarrow> Q () t" "\<And>e t. file_at t = file_at s \<Longrightarrow> E e t"
  shows "wp (write_file_text p b) Q E s"
  unfolding write_file_text_def by (rule wp_disk_step) (auto simp: wp_def assms)

lemma wp_open_database:
  assumes "\<And>b t. file_at s p = Some b \<Longrightarrow> file_at t = file_at s \<Longrightarrow> Q b t"
    and "\<And>t. file_at s p = None \<Longrightarrow> file_at t = (file_at s)(p := Some []) \<Longrightarrow> Q [] t"
    and "\<And>e t. file_at t = file_at s \<Longrightarrow> E e t"
  shows "wp (open_database p) Q E s"
  unfolding open_database_def
  by (rule wp_disk_step) (auto simp: wp_def assms file_at_tree split: option.splits entry.splits)

text \<open>The copy of a file that is there onto another one: only the destination changes.\<close>

lemma wp_copy_database:
  assumes b: "file_at s p = Some b" and ne: "p \<noteq> q"
    and Q: "\<And>c t. sq_copy db b = (c, Inr ()) \<Longrightarrow> file_at t = (file_at s)(q := Some c) \<Longrightarrow> Q () t"
    and E: "\<And>e t x. file_at t = (file_at s)(q := x) \<Longrightarrow> E e t"
  shows "wp (copy_database db p q) Q E s"
proof -
  have idle: "E e t" if "file_at t = file_at s" for e t using that by (intro E [of _ "file_at s q"]) simp
  obtain c r where c: "sq_copy db b = (c, r)" by (cases "sq_copy db b")
  have other: "(file_at t)(q := x) = (file_at s)(q := x)" if "file_at t = file_at s \<or> file_at t = (file_at s)(q := Some [])" for t x
    using that by auto
  have step: "wp (disk_step (\<lambda>s. case sq_copy db b of (c, r) \<Rightarrow> (r, put_entry q (Some (File c)) s))) Q E t"
    if t: "file_at t = file_at s \<or> file_at t = (file_at s)(q := Some [])" for t
    by (rule wp_disk_step) (use t c Q E other [OF t] idle in \<open>auto simp: wp_def split: sum.splits\<close>)
  have inner: "wp (open_database q) (\<lambda>_. wp (if p = q then raise SqliteOperationalError ''database is locked''
     else disk_step (\<lambda>s. case sq_copy db b of (c, r) \<Rightarrow> (r, put_entry q (Some (File c)) s))) Q E) E t"
    if "file_at t = file_at s" for t
    by (rule wp_open_database) (use that ne step idle in auto)
  show ?thesis
    unfolding copy_database_def wp(6) by (rule wp_open_database) (use b inner idle in auto)
qed

lemma wp_integrity_of:
  assumes "file_at s p = Some b" "\<And>i t. sq_integrity db b = Inr i \<Longrightarrow> file_at t = file_at s \<Longrightarrow> Q i t"
    "\<And>e t. file_at t = file_at s \<Longrightarrow> E e t"
  shows "wp (integrity_of db p) Q E s"
  unfolding integrity_of_def wp(6) by (rule wp_open_database) (use assms in \<open>auto simp: wp split: sum.split\<close>)

lemma wp_file_sha256:
  assumes "\<And>b t. file_at s p = Some b \<Longrightarrow> file_at t = file_at s \<Longrightarrow> Q (hash b) t" "\<And>e t. file_at t = file_at s \<Longrightarrow> E e t"
  shows "wp (file_sha256 hash p) Q E s"
  unfolding file_sha256_def wp(6) by (rule wp_read_file) (use assms in \<open>auto simp: wp\<close>)

section \<open>A restore is all or nothing\<close>

lemma wp_restore_checked:
  assumes c: "file_at s temporary = Some c"
    and Q: "\<And>t. sq_integrity db c = Inr (str ''ok'') \<Longrightarrow> file_at t = (file_at s)(temporary := None, target := Some c) \<Longrightarrow> Q target t"
    and E: "\<And>e t x. file_at t = (file_at s)(temporary := x) \<Longrightarrow> E e t"
  shows "wp (bnd (integrity_of db temporary) (\<lambda>i.
       if i \<noteq> str ''ok'' then seq (unlink temporary) (raise BackupError ''restored database failed integrity check'')
       else seq (move_file temporary target) (ret target))) Q E s"
proof -
  have idle: "E e t" if "file_at t = file_at s" for e t using that by (intro E [of _ "file_at s temporary"]) simp
  have "wp (seq (unlink temporary) (raise BackupError ''restored database failed integrity check'')) Q E t"
    if "file_at t = file_at s" for t
    unfolding wp(7) by (rule wp_unlink) (use that idle E in \<open>auto simp: wp\<close>)
  moreover have "wp (seq (move_file temporary target) (ret target)) Q E t"
    if "file_at t = file_at s" "sq_integrity db c = Inr (str ''ok'')" for t
    unfolding wp(7) by (rule wp_move_file) (use that c idle Q in \<open>auto simp: wp\<close>)
  ultimately show ?thesis
    unfolding wp(6) by (intro wp_integrity_of [OF c]) (auto simp: idle)
qed

lemma wp_restore_through:
  assumes b: "file_at s source = Some b" and ne: "source \<noteq> temporary"
    and Q: "\<And>c t. sq_copy db b = (c, Inr ()) \<Longrightarrow> sq_integrity db c = Inr (str ''ok'') \<Longrightarrow>
      file_at t = (file_at s)(temporary := None, target := Some c) \<Longrightarrow> Q target t"
    and E: "\<And>e t x. file_at t = (file_at s)(temporary := x) \<Longrightarrow> E e t"
  shows "wp (restore_through db source temporary target) Q E s"
proof -
  have idle: "E e t" if "file_at t = file_at s" for e t using that by (intro E [of _ "file_at s temporary"]) simp
  have checked: "wp (bnd (integrity_of db temporary) (\<lambda>i.
       if i \<noteq> str ''ok'' then seq (unlink temporary) (raise BackupError ''restored database failed integrity check'')
       else seq (move_file temporary target) (ret target))) Q E t"
    if "sq_copy db b = (c, Inr ())" "file_at t = (file_at s)(temporary := Some c)" for c t
    by (rule wp_restore_checked [where c = c]) (use that Q E in auto)
  have "wp (copy_database db source temporary) (\<lambda>_. wp (bnd (integrity_of db temporary) (\<lambda>i.
       if i \<noteq> str ''ok'' then seq (unlink temporary) (raise BackupError ''restored database failed integrity check'')
       else seq (move_file temporary target) (ret target))) Q E) E t"
    if "file_at t = (file_at s)(temporary := None)" for t
    by (rule wp_copy_database [where b = b]) (use that b ne checked E in auto)
  then show ?thesis unfolding restore_through_def wp(7) by (rule wp_unlink) (use idle in auto)
qed

lemma wp_restore_file:
  assumes ne: "source \<noteq> temporary_of target"
    and Q: "\<And>b c t. file_at s source = Some b \<Longrightarrow> hash b = expected \<Longrightarrow> sq_integrity db b = Inr (str ''ok'') \<Longrightarrow>
      sq_copy db b = (c, Inr ()) \<Longrightarrow> sq_integrity db c = Inr (str ''ok'') \<Longrightarrow> replace \<or> file_at s target = None \<Longrightarrow>
      file_at t = (file_at s)(temporary_of target := None, target := Some c) \<Longrightarrow> Q target t"
    and E: "\<And>e t x. file_at t = (file_at s)(temporary_of target := x) \<Longrightarrow> E e t"
  shows "wp (restore_file db hash source target expected replace) Q E s"
proof -
  have idle: "E e t" if "file_at t = file_at s" for e t using that by (intro E [of _ "file_at s (temporary_of target)"]) simp
  have through: "wp (seq (make_folders (butlast target)) (bnd (lift (with_temporary_name target))
       (\<lambda>temporary. restore_through db source temporary target))) Q E t"
    if "file_at s source = Some b" "hash b = expected" "sq_integrity db b = Inr (str ''ok'')"
      "replace \<or> file_at s target = None" "file_at t = file_at s" for b t
  proof -
    have "wp (restore_through db source (temporary_of target) target) Q E u" if "file_at u = file_at s" for u
      by (rule wp_restore_through [where b = b])
        (use that ne Q [of b] E \<open>file_at s source = Some b\<close> \<open>hash b = expected\<close> \<open>sq_integrity db b = Inr (str ''ok'')\<close>
          \<open>replace \<or> file_at s target = None\<close> in auto)
    then show ?thesis
      unfolding wp(7) by (intro wp_make_folders) (use that idle in \<open>auto simp: wp with_temporary_name_def split: sum.split\<close>)
  qed
  have exists: "wp (bnd (path_exists target) (\<lambda>e. if e \<and> \<not> replace then raise BackupError ''restore target already exists''
     else seq (make_folders (butlast target)) (bnd (lift (with_temporary_name target)) (\<lambda>temporary. restore_through db source temporary target)))) Q E t"
    if "file_at s source = Some b" "hash b = expected" "sq_integrity db b = Inr (str ''ok'')" "file_at t = file_at s" for b t
    using that through [of b t] idle by (auto simp: path_exists_def wp(3,5,6) wp_if dest: file_at_tree(2))
  have sound: "wp (bnd (integrity_of db source) (\<lambda>i. if i \<noteq> str ''ok'' then raise BackupError ''backup database failed integrity check''
     else bnd (path_exists target) (\<lambda>e. if e \<and> \<not> replace then raise BackupError ''restore target already exists''
     else seq (make_folders (butlast target)) (bnd (lift (with_temporary_name target)) (\<lambda>temporary. restore_through db source temporary target))))) Q E t"
    if "file_at s source = Some b" "hash b = expected" "file_at t = file_at s" for b t
    unfolding wp(6) [of "integrity_of db source"]
    by (rule wp_integrity_of [where b = b]) (use that exists [of b] idle in \<open>auto simp: wp(3) wp_if\<close>)
  show ?thesis
    unfolding restore_file_def is_file_def wp(6) [of "query f" for f] wp(5) sum.case wp_if wp(3) wp(6) [of "file_sha256 hash source"]
    using idle sound by (auto simp: wp(3) wp_if intro!: wp_file_sha256)
qed

section \<open>A small disk\<close>

definition demo_database :: sqlite_ops where
  "demo_database = \<lparr>sq_copy = (\<lambda>b. (b, Inr ())), sq_integrity = (\<lambda>b. Inr (if b = [] then [] else str ''ok''))\<rparr>"

definition demo_disk :: files where
  "demo_disk = \<lparr>tree = (\<lambda>_. None)([] := Some Folder, [str ''a''] := Some (File [1, 2])), disk_faults = []\<rparr>"

fun components :: "pystr \<Rightarrow> pystr \<Rightarrow> path" where
  "components c [] = (if c = [] then [] else [c])"
| "components c (x # xs) = (if x = 47 then (if c = [] then components [] xs else c # components [] xs) else components (c @ [x]) xs)"

abbreviation demo_resolve :: "pystr \<Rightarrow> path res" where
  "demo_resolve x \<equiv> Inr (components [] x)"

section \<open>A backup adds files\<close>

lemma wp_backup_one:
  assumes Q: "\<And>b c t. file_at s source = Some b \<Longrightarrow> file_at s target = None \<Longrightarrow> sq_copy db b = (c, Inr ()) \<Longrightarrow>
      sq_integrity db c = Inr (str ''ok'') \<Longrightarrow> file_at t = (file_at s)(target := Some c) \<Longrightarrow>
      Q \<lparr>ba_name = name, ba_source = path_text source, ba_backup = path_text target, ba_sha256 = hash c, ba_integrity = str ''ok''\<rparr> t"
    and E: "\<And>e t. file_at s \<subseteq>\<^sub>m file_at t \<Longrightarrow> E e t"
  shows "wp (backup_one db hash name source target) Q E s"
proof -
  have idle: "E e t" if "file_at t = file_at s" for e t using that by (intro E) simp
  have fresh: "E e t" if "file_at t = (file_at s)(target := x)" "file_at s target = None" for e t x
    using that by (intro E) (auto simp: map_le_def)
  define last_part where "last_part i = (if i \<noteq> str ''ok'' then seq (unlink target) (raise BackupError ''backup integrity check failed'')
       else bnd (file_sha256 hash target) (\<lambda>h. ret \<lparr>ba_name = name, ba_source = path_text source, ba_backup = path_text target,
         ba_sha256 = h, ba_integrity = i\<rparr>))" for i
  have hashed: "wp (last_part i) Q E t"
    if "file_at s source = Some b" "file_at s target = None" "sq_copy db b = (c, Inr ())" "sq_integrity db c = Inr i"
      "file_at t = (file_at s)(target := Some c)" for b c i t
  proof (cases "i = str ''ok''")
    case True
    then show ?thesis
      unfolding last_part_def wp_if wp(6) wp(7) using that fresh Q by (auto simp: wp intro!: wp_file_sha256)
  next
    case False
    then show ?thesis
      unfolding last_part_def wp_if wp(6) wp(7) using that fresh by (auto simp: wp intro!: wp_unlink)
  qed
  have checked: "wp (bnd (integrity_of db target) last_part) Q E t"
    if "file_at s source = Some b" "file_at s target = None" "sq_copy db b = (c, Inr ())" "file_at t = (file_at s)(target := Some c)" for b c t
    unfolding wp(6) by (rule wp_integrity_of [where b = c]) (use that hashed fresh in auto)
  have copied: "wp (seq (copy_database db source target) (bnd (integrity_of db target) last_part)) Q E s"
    if "file_at s source = Some b" "file_at s target = None" for b
    unfolding wp(7) by (rule wp_copy_database [where b = b]) (use that checked fresh in auto)
  show ?thesis
    unfolding backup_one_def is_file_def path_exists_def last_part_def [symmetric] wp(6) [of "query f" for f] wp(5) sum.case wp_if wp(3)
    using idle copied file_at_tree(2) [of s target] by auto
qed

text \<open>What an artifact of the manifest records, in the state \<open>s\<close>.\<close>

definition backed_up :: "sqlite_ops \<Rightarrow> (nat list \<Rightarrow> pystr) \<Rightarrow> (pystr \<Rightarrow> path res) \<Rightarrow> path \<Rightarrow> files \<Rightarrow> pystr \<times> pystr
    \<Rightarrow> backup_artifact \<Rightarrow> bool" where
  "backed_up db hash resolve folder s d a \<longleftrightarrow> (\<exists>source b c. resolve (snd d) = Inr source \<and> file_at s source = Some b
     \<and> file_at s (backup_path folder (strip (fst d))) = Some c \<and> sq_copy db b = (c, Inr ()) \<and> sq_integrity db c = Inr (str ''ok'')
     \<and> a = \<lparr>ba_name = strip (fst d), ba_source = path_text source, ba_backup = path_text (backup_path folder (strip (fst d))),
         ba_sha256 = hash c, ba_integrity = str ''ok''\<rparr>)"

lemma backed_up_mono:
  "backed_up db hash resolve folder s d a \<Longrightarrow> file_at s \<subseteq>\<^sub>m file_at t \<Longrightarrow> backed_up db hash resolve folder t d a"
  unfolding backed_up_def map_le_def by (metis domI)

lemma wp_backup_all:
  "wp (backup_all db hash resolve folder databases names)
     (\<lambda>as t. list_all2 (backed_up db hash resolve folder t) databases as \<and> file_at s \<subseteq>\<^sub>m file_at t)
     (\<lambda>_ t. file_at s \<subseteq>\<^sub>m file_at t) s"
proof (induction databases arbitrary: names s)
  case (Cons d databases)
  obtain name sv where d: "d = (name, sv)" by (cases d)
  have tail: "wp (bnd (backup_all db hash resolve folder databases names) (\<lambda>as. ret (a # as)))
     (\<lambda>as t. list_all2 (backed_up db hash resolve folder t) (d # databases) as \<and> file_at s \<subseteq>\<^sub>m file_at t)
     (\<lambda>_ t. file_at s \<subseteq>\<^sub>m file_at t) u"
    if "backed_up db hash resolve folder u d a" "file_at s \<subseteq>\<^sub>m file_at u" for names a u
    unfolding wp(6) wp(1)
    by (rule wp_mono [OF Cons.IH]) (use that in \<open>auto intro: backed_up_mono map_le_trans\<close>)
  have "wp (bnd (backup_one db hash (strip name) p (backup_path folder (strip name)))
      (\<lambda>a. bnd (backup_all db hash resolve folder databases (strip name # names)) (\<lambda>as. ret (a # as))))
     (\<lambda>as t. list_all2 (backed_up db hash resolve folder t) (d # databases) as \<and> file_at s \<subseteq>\<^sub>m file_at t)
     (\<lambda>_ t. file_at s \<subseteq>\<^sub>m file_at t) s" if "resolve sv = Inr p" for p
    unfolding wp(6) [of "backup_one a b c x y" for a b c x y]
  proof (rule wp_backup_one)
    fix b c t
    assume b: "file_at s p = Some b" and n: "file_at s (backup_path folder (strip name)) = None"
      and c: "sq_copy db b = (c, Inr ())" "sq_integrity db c = Inr (str ''ok'')"
      and t: "file_at t = (file_at s)(backup_path folder (strip name) := Some c)"
    from b n have "file_at t p = Some b" by (auto simp: t)
    with that c t d show "wp (bnd (backup_all db hash resolve folder databases (strip name # names)) (\<lambda>as. ret
        (\<lparr>ba_name = strip name, ba_source = path_text p, ba_backup = path_text (backup_path folder (strip name)),
          ba_sha256 = hash c, ba_integrity = str ''ok''\<rparr> # as)))
       (\<lambda>as t. list_all2 (backed_up db hash resolve folder t) (d # databases) as \<and> file_at s \<subseteq>\<^sub>m file_at t)
       (\<lambda>_ t. file_at s \<subseteq>\<^sub>m file_at t) t"
      using n by (intro tail) (auto simp: backed_up_def map_le_def)
  qed simp
  then show ?case by (auto simp: d wp(3,4) wp(6) [of "lift r" for r] wp_if split: sum.split)
qed (simp add: wp)

lemma wp_backup_set:
  "wp (backup_sqlite_set db env resolve now_text databases dest)
     (\<lambda>m t. \<exists>folder u b. resolve dest = Inr folder \<and> list_all2 (backed_up db (sha256 env) resolve folder u) databases (bm_artifacts m)
        \<and> file_at s \<subseteq>\<^sub>m file_at u \<and> file_at t = (file_at u)(manifest_path folder := Some b))
     (\<lambda>_ t. file_at s \<subseteq>\<^sub>m file_at t) s" (is "wp _ ?Q ?E s")
proof (cases "resolve dest")
  case (Inr folder)
  define finish where "finish as = (let m = \<lparr>bm_format_version = 1, bm_created_at = now_text, bm_artifacts = as\<rparr> in
     bnd (lift (indented_bytes (float_repr env) (backup_manifest_dict m))) (\<lambda>b. seq (write_file_text (manifest_path folder) b) (ret m)))" for as
  have "wp (finish as) ?Q ?E u" if "list_all2 (backed_up db (sha256 env) resolve folder u) databases as" "file_at s \<subseteq>\<^sub>m file_at u" for as u
    unfolding finish_def Let_def wp(6) wp(4) wp(7)
    using that Inr by (auto simp: wp(1) split: sum.split intro!: wp_write_file_text exI [of _ u])
  then have "wp (bnd (backup_all db (sha256 env) resolve folder databases []) finish) ?Q ?E u" if "file_at u = file_at s" for u
    unfolding wp(6) using that by (intro wp_mono [OF wp_backup_all]) auto
  then show ?thesis
    unfolding backup_sqlite_set_def wp(6) [of "lift r" for r] wp(4) Inr sum.case finish_def [symmetric] wp(7)
    by (intro wp_make_folders) auto
qed (simp add: backup_sqlite_set_def wp)

text \<open>
  C35. A restore replaces its target as a whole or not at all, whatever fails or stops at any point: if it
  returns, the target holds a sound copy of a sound backup whose digest is the expected one, it did
  not exist before unless replacing was asked for, and the temporary file is gone; if it
  raises, no file but the temporary one has changed.
\<close>

theorem restore_contract:
  assumes "resolve backup = Inr source" "resolve dest = Inr target" "source \<noteq> temporary_of target"
  shows "case restore_sqlite_backup db hash resolve backup dest expected replace s of (r, t) \<Rightarrow>
     (case r of
        Inl e \<Rightarrow> (\<exists>x. file_at t = (file_at s)(temporary_of target := x))
      | Inr p \<Rightarrow> p = target \<and> (replace \<or> file_at s target = None)
          \<and> (\<exists>b c. file_at s source = Some b \<and> hash b = expected \<and> sq_integrity db b = Inr (str ''ok'')
               \<and> sq_copy db b = (c, Inr ()) \<and> sq_integrity db c = Inr (str ''ok'')
               \<and> file_at t = (file_at s)(temporary_of target := None, target := Some c)))"
proof -
  have "wp (restore_file db hash source target expected replace)
     (\<lambda>p t. p = target \<and> (replace \<or> file_at s target = None)
          \<and> (\<exists>b c. file_at s source = Some b \<and> hash b = expected \<and> sq_integrity db b = Inr (str ''ok'')
               \<and> sq_copy db b = (c, Inr ()) \<and> sq_integrity db c = Inr (str ''ok'')
               \<and> file_at t = (file_at s)(temporary_of target := None, target := Some c)))
     (\<lambda>_ t. \<exists>x. file_at t = (file_at s)(temporary_of target := x)) s"
    by (rule wp_restore_file [OF assms(3)]) blast+
  then show ?thesis
    using assms(1,2) by (auto simp: restore_sqlite_backup_def wp_def bnd_def split: prod.splits sum.splits)
qed

theorem restore_contract_witness:
  "\<exists>t c. restore_sqlite_backup demo_database (\<lambda>b. b) demo_resolve (str ''/a'') (str ''/c'') [1, 2] False demo_disk = (Inr [str ''c''], t)
     \<and> file_at t = (file_at demo_disk)(temporary_of [str ''c''] := None, [str ''c''] := Some [1, 2])"
proof -
  let ?run = "restore_sqlite_backup demo_database (\<lambda>b. b) demo_resolve (str ''/a'') (str ''/c'') [1, 2] False demo_disk"
  have r: "fst ?run = Inr [str ''c'']" by code_simp
  obtain t where t: "?run = (Inr [str ''c''], t)" using r by (cases ?run) simp
  have a: "demo_resolve (str ''/a'') = Inr [str ''a'']" "demo_resolve (str ''/c'') = Inr [str ''c'']"
    and ne: "[str ''a''] \<noteq> temporary_of [str ''c'']" by code_simp+
  have "file_at demo_disk [str ''a''] = Some [1, 2]" by code_simp
  with restore_contract [OF a ne, where db = demo_database and hash = "\<lambda>b. b" and expected = "[1, 2]" and replace = False and s = demo_disk] t show ?thesis
    by (auto simp: demo_database_def)
qed

section \<open>What was backed up comes back\<close>

lemma disk_step_fine [simp]: "disk_faults s = [] \<Longrightarrow> disk_step m s = m s"
  by (simp add: disk_step_def)

lemma put_entry_simps [simp]:
  "disk_faults (put_entry p e s) = disk_faults s" "tree (put_entry p e s) = (tree s)(p := e)"
  by (simp_all add: put_entry_def)

lemma file_at_iff: "file_at s p = Some b \<longleftrightarrow> tree s p = Some (File b)"
  by (auto simp: file_at_def split: option.splits entry.splits)

text \<open>Without a fault and with nothing in the way, a restore of a sound backup returns.\<close>

definition clear_way :: "files \<Rightarrow> path \<Rightarrow> bool" where
  "clear_way s target \<longleftrightarrow> disk_faults s = [] \<and> target \<noteq> [] \<and> tree s target = None \<and> tree s (temporary_of target) = None
     \<and> list_all (\<lambda>q. file_at s q = None) (prefixes (butlast target))"

lemma temporary_of_facts:
  assumes "target \<noteq> []"
  shows "temporary_of target \<noteq> target" "butlast (temporary_of target) = butlast target"
    "\<not> prefix (temporary_of target) (butlast target)" "\<not> prefix target (butlast target)"
proof -
  have t: "target = butlast target @ [last target]" using assms by simp
  have "length (last (temporary_of target)) > length (last target)" by (simp add: temporary_of_def)
  then show "temporary_of target \<noteq> target" by fastforce
  show "butlast (temporary_of target) = butlast target" by (simp add: temporary_of_def)
  show "\<not> prefix (temporary_of target) (butlast target)" by (auto simp: temporary_of_def dest: prefix_length_le)
  show "\<not> prefix target (butlast target)" using assms by (auto dest!: prefix_length_le) (metis One_nat_def diff_less length_greater_0_conv not_le zero_less_one)
qed

lemma restore_returns:
  assumes c: "file_at s source = Some c" "sq_integrity db c = Inr (str ''ok'')"
    and d: "sq_copy db c = (d, Inr ())" "sq_integrity db d = Inr (str ''ok'')"
    and way: "clear_way s target" and ne: "source \<noteq> temporary_of target"
  shows "\<exists>u. restore_file db hash source target (hash c) False s = (Inr target, u) \<and> file_at u target = Some d"
proof -
  define v where "v = s\<lparr>tree := \<lambda>q. if q \<in> set (prefixes (butlast target)) then Some Folder else tree s q\<rparr>"
  define temporary where "temporary = temporary_of target"
  note way = way [unfolded clear_way_def]
  note tf = temporary_of_facts [of target, folded temporary_def]
  have way': "\<not> list_ex (\<lambda>q. file_at s q \<noteq> None) (prefixes (butlast target))" using way by (simp add: list_ex_iff list_all_iff)
  then have mk: "make_folders (butlast target) s = (Inr (), v)" using way by (simp add: make_folders_def v_def)
  have v: "disk_faults v = []" "tree v temporary = None" "tree v (butlast target) = Some Folder" "tree v target = None"
    using way tf by (auto simp: v_def temporary_def)
  have "\<not> prefix source (butlast target)"
    using c(1) way by (auto simp: list_all_iff)
  then have src: "tree v source = Some (File c)" using c(1) by (auto simp: v_def file_at_iff)
  have ne: "source \<noteq> temporary" using assms(6) by (simp add: temporary_def)
  define w where "w = put_entry temporary (Some (File d)) (put_entry temporary (Some (File [])) (put_entry temporary None v))"
  have un: "unlink temporary v = (Inr (), put_entry temporary None v)" using v by (simp add: unlink_def)
  have cp: "copy_database db source temporary (put_entry temporary None v) = (Inr (), w)"
    using v src ne d tf way by (simp add: copy_database_def open_database_def bnd_def w_def)
  have "restore_through db source temporary target v = (Inr target, put_entry target (Some (File d)) (put_entry temporary None w))"
    using v un cp d tf way
    by (simp add: restore_through_def seq_def bnd_def integrity_of_def open_database_def move_file_def w_def file_at_def)
  then have "restore_file db hash source target (hash c) False s
      = (Inr target, put_entry target (Some (File d)) (put_entry temporary None w))"
    using c c(1) [unfolded file_at_iff] way mk
    by (simp add: restore_file_def is_file_def path_exists_def file_sha256_def read_file_def integrity_of_def open_database_def
        bnd_def seq_def with_temporary_name_def temporary_def)
  then show ?thesis by simp
qed

text \<open>
  C36. What was backed up is what a restore brings back: for every database of a successful backup run
  that existed before the run, restoring its artifact under the recorded digest to a free place returns,
  and the restored file has the content the database had. SQLite is relied on for this: it can copy a sound database,
  the copy is sound, and a copy has the content of its source; the path of an artifact resolves to
  itself.
\<close>

theorem backup_restores:
  assumes copies: "\<And>c. sq_integrity db c = Inr (str ''ok'') \<Longrightarrow> \<exists>d. sq_copy db c = (d, Inr ()) \<and> sq_integrity db d = Inr (str ''ok'')"
    and content: "\<And>b c. sq_copy db b = (c, Inr ()) \<Longrightarrow> content c = content b"
    and run: "backup_sqlite_set db env resolve now_text databases dest s = (Inr m, t)"
    and artifact: "(d, a) \<in> set (zip databases (bm_artifacts m))"
    and source: "resolve (snd d) = Inr source" "file_at s source = Some b"
    and paths: "resolve dest = Inr folder" "resolve (ba_backup a) = Inr (backup_path folder (strip (fst d)))" "resolve place = Inr target"
    and way: "clear_way t target" "backup_path folder (strip (fst d)) \<noteq> temporary_of target"
  shows "\<exists>u c. restore_sqlite_backup db (sha256 env) resolve (ba_backup a) place (ba_sha256 a) False t = (Inr target, u)
     \<and> file_at u target = Some c \<and> content c = content b"
proof -
  let ?p = "backup_path folder (strip (fst d))"
  from wp_returnD [OF wp_backup_set run] paths(1) obtain u x where
    all: "list_all2 (backed_up db (sha256 env) resolve folder u) databases (bm_artifacts m)"
    and mono: "file_at s \<subseteq>\<^sub>m file_at u" and t: "file_at t = (file_at u)(manifest_path folder := Some x)"
    by auto
  from all artifact have "backed_up db (sha256 env) resolve folder u d a" by (auto simp: list_all2_iff)
  with source(1) obtain b' c where b': "file_at u source = Some b'" and c: "file_at u ?p = Some c"
    "sq_copy db b' = (c, Inr ())" "sq_integrity db c = Inr (str ''ok'')" "ba_sha256 a = sha256 env c"
    by (auto simp: backed_up_def)
  from source(2) mono have "file_at u source = Some b" by (metis domI map_le_def)
  with b' have "b' = b" by simp
  have "?p \<noteq> manifest_path folder"
  proof
    assume "?p = manifest_path folder"
    then have "strip (fst d) @ str ''.sqlite3'' = str ''backup-manifest'' @ str ''.json''" by (simp add: backup_path_def manifest_path_def str_def)
    then have "last (strip (fst d) @ str ''.sqlite3'') = last (str ''backup-manifest'' @ str ''.json'')" by simp
    then show False by (simp add: str_def)
  qed
  with c(1) have "file_at t ?p = Some c" by (simp add: t)
  moreover from copies [OF c(3)] obtain e where e: "sq_copy db c = (e, Inr ())" "sq_integrity db e = Inr (str ''ok'')" by blast
  ultimately obtain v where "restore_file db (sha256 env) ?p target (sha256 env c) False t = (Inr target, v)" "file_at v target = Some e"
    using restore_returns [of t ?p c db e target "sha256 env"] c(3) way by blast
  with paths c(4) show ?thesis
    using content [OF e(1)] content [OF c(2)] \<open>b' = b\<close> by (auto simp: restore_sqlite_backup_def bnd_def)
qed

text \<open>A run of the backup on the small disk.\<close>

lemma backup_one_returns:
  assumes "file_at s source = Some b" "sq_copy db b = (c, Inr ())" "sq_integrity db c = Inr (str ''ok'')"
    "disk_faults s = []" "tree s target = None" "tree s (butlast target) = Some Folder" "source \<noteq> target"
  shows "backup_one db hash name source target s = (Inr \<lparr>ba_name = name, ba_source = path_text source, ba_backup = path_text target,
      ba_sha256 = hash c, ba_integrity = str ''ok''\<rparr>, put_entry target (Some (File c)) (put_entry target (Some (File [])) s))"
  using assms assms(1) [unfolded file_at_iff]
  by (simp add: backup_one_def is_file_def path_exists_def copy_database_def integrity_of_def open_database_def file_sha256_def
      read_file_def bnd_def seq_def)

definition demo_artifact :: backup_artifact where
  "demo_artifact = \<lparr>ba_name = str ''a'', ba_source = str ''/a'', ba_backup = str ''/b/a.sqlite3'', ba_sha256 = [1, 2], ba_integrity = str ''ok''\<rparr>"

definition demo_manifest :: backup_manifest where
  "demo_manifest = \<lparr>bm_format_version = 1, bm_created_at = str ''now'', bm_artifacts = [demo_artifact]\<rparr>"

lemma demo_bytes: "\<exists>x. indented_bytes (float_repr demo_env) (backup_manifest_dict demo_manifest) = Inr x"
proof -
  have "case canonical_doc (PDict (backup_manifest_dict demo_manifest)) of Inl e \<Rightarrow> False
     | Inr c \<Rightarrow> list_all (\<lambda>c. c < 128) (indented (float_repr demo_env) 0 c)"
    by code_simp
  then obtain c where "canonical_doc (PDict (backup_manifest_dict demo_manifest)) = Inr c"
    "list_all (\<lambda>c. c < 128) (indented (float_repr demo_env) 0 c)" by (auto split: sum.splits)
  then show ?thesis by (auto simp: indented_bytes_def utf8_encode_def surrogate_def list_ex_iff list_all_iff)
qed

lemma demo_name: "strip (str ''a'') = str ''a''"
  by (simp add: strip_def is_space_def str_def)

lemma demo_backup_run:
  "\<exists>t. backup_sqlite_set demo_database demo_env demo_resolve (str ''now'') [(str ''a'', str ''/a'')] (str ''/b'') demo_disk
       = (Inr demo_manifest, t) \<and> clear_way t [str ''c'']"
proof -
  define u where "u = demo_disk\<lparr>tree := \<lambda>q. if q \<in> set (prefixes [str ''b'']) then Some Folder else tree demo_disk q\<rparr>"
  let ?p = "backup_path [str ''b''] (str ''a'')"
  note demo_name [simp]
  have p: "?p = [str ''b'', str ''a.sqlite3'']" "backup_name_ok (str ''a'') []"
    "path_text [str ''a''] = str ''/a''" "path_text ?p = str ''/b/a.sqlite3''" by code_simp+
  have r: "components [] (str ''/a'') = [str ''a'']" "components [] (str ''/b'') = [str ''b'']" by code_simp+
  have mk: "make_folders [str ''b''] demo_disk = (Inr (), u)"
  proof -
    have "disk_faults demo_disk = []" "\<not> list_ex (\<lambda>q. file_at demo_disk q \<noteq> None) (prefixes [str ''b''])"
      by (simp_all add: demo_disk_def file_at_def)
    then show ?thesis by (simp only: make_folders_def disk_step_fine if_False u_def)
  qed
  have u: "file_at u [str ''a''] = Some [1, 2]" "tree u ?p = None" "tree u (butlast ?p) = Some Folder" "disk_faults u = []"
    "[str ''a''] \<noteq> ?p" "tree u (manifest_path [str ''b'']) = None" "tree u [str ''b''] = Some Folder"
    by (simp_all add: u_def demo_disk_def file_at_def p(1) manifest_path_def)
  let ?v = "put_entry ?p (Some (File [1, 2])) (put_entry ?p (Some (File [])) u)"
  have "backup_one demo_database (sha256 demo_env) (str ''a'') [str ''a''] ?p u = (Inr demo_artifact, ?v)"
    using backup_one_returns [OF u(1) _ _ u(4,2,3,5), of demo_database "[1, 2]" "sha256 demo_env" "str ''a''"] p(3,4)
    by (simp add: demo_database_def demo_artifact_def demo_env_def)
  then have all: "backup_all demo_database (sha256 demo_env) demo_resolve [str ''b''] [(str ''a'', str ''/a'')] [] u = (Inr [demo_artifact], ?v)"
    using p r by (simp add: bnd_def)
  obtain x where x: "indented_bytes (float_repr demo_env) (backup_manifest_dict demo_manifest) = Inr x" using demo_bytes by blast
  have ne: "manifest_path [str ''b''] \<noteq> ?p" by code_simp
  have wr: "write_file_text (manifest_path [str ''b'']) x ?v = (Inr (), put_entry (manifest_path [str ''b'']) (Some (File x)) ?v)"
    using u ne p(1) by (simp add: write_file_text_def manifest_path_def)
  have "backup_sqlite_set demo_database demo_env demo_resolve (str ''now'') [(str ''a'', str ''/a'')] (str ''/b'') demo_disk
       = (Inr demo_manifest, put_entry (manifest_path [str ''b'']) (Some (File x)) ?v)"
    using mk all x wr r by (simp add: backup_sqlite_set_def bnd_def seq_def Let_def demo_manifest_def)
  moreover have "clear_way (put_entry (manifest_path [str ''b'']) (Some (File x)) ?v) [str ''c'']"
    by (simp add: clear_way_def u_def demo_disk_def file_at_def p(1) manifest_path_def temporary_of_def str_def backup_path_def)
  ultimately show ?thesis by blast
qed

theorem backup_restores_witness:
  "\<exists>m t a u. backup_sqlite_set demo_database demo_env demo_resolve (str ''now'') [(str ''a'', str ''/a'')] (str ''/b'') demo_disk = (Inr m, t)
     \<and> bm_artifacts m = [a]
     \<and> restore_sqlite_backup demo_database (sha256 demo_env) demo_resolve (ba_backup a) (str ''/c'') (ba_sha256 a) False t = (Inr [str ''c''], u)
     \<and> file_at u [str ''c''] = Some [1, 2]"
proof -
  obtain t where run: "backup_sqlite_set demo_database demo_env demo_resolve (str ''now'') [(str ''a'', str ''/a'')] (str ''/b'') demo_disk
       = (Inr demo_manifest, t)" and way: "clear_way t [str ''c'']"
    using demo_backup_run by blast
  have "components [] (str ''/a'') = [str ''a'']" "components [] (str ''/b'') = [str ''b'']" "components [] (str ''/c'') = [str ''c'']"
    "components [] (ba_backup demo_artifact) = backup_path [str ''b''] (str ''a'')"
    and away: "backup_path [str ''b''] (str ''a'') \<noteq> temporary_of [str ''c'']" by code_simp+
  then have paths: "demo_resolve (snd (str ''a'', str ''/a'')) = Inr [str ''a'']"
    "demo_resolve (str ''/b'') = Inr [str ''b'']"
    "demo_resolve (ba_backup demo_artifact) = Inr (backup_path [str ''b''] (strip (fst (str ''a'', str ''/a''))))"
    "demo_resolve (str ''/c'') = Inr [str ''c'']"
    "backup_path [str ''b''] (strip (fst (str ''a'', str ''/a''))) \<noteq> temporary_of [str ''c'']"
    by (simp_all add: demo_name)
  have before: "file_at demo_disk [str ''a''] = Some [1, 2]" by (simp add: demo_disk_def file_at_def)
  have "\<exists>u c. restore_sqlite_backup demo_database (sha256 demo_env) demo_resolve (ba_backup demo_artifact) (str ''/c'') (ba_sha256 demo_artifact)
       False t = (Inr [str ''c''], u) \<and> file_at u [str ''c''] = Some c \<and> id c = id [1, 2]"
    by (rule backup_restores [OF _ _ run _ paths(1) before paths(2,3,4) way paths(5)]) (auto simp: demo_database_def demo_manifest_def split: if_splits)
  with run show ?thesis by (fastforce simp: demo_manifest_def)
qed

end
