(* ===== verification/Rpr_Assurance.thy ===== *)
theory Rpr_Assurance
  imports Rpr_Executors
begin

text \<open>
  The checks of the assurance documents: the runtime assurance manifest
  (\<open>assurance_manifest.py\<close>), the claim traceability basis and its registry of tests
  (\<open>claim_traceability.py\<close>) and the MCP compatibility contract (\<open>mcp_compatibility.py\<close>). A document is
  the value that \<open>json.loads\<close> returns; the repository's files are an argument. The lemmas: what an accepted
  document cannot say.
\<close>

section \<open>Members and texts\<close>

text \<open>\<open>v in {...}\<close> of a set or dict of texts.\<close>

definition member :: "string list \<Rightarrow> pv \<Rightarrow> bool res" where
  "member ks v = (if hashable v then Inr (v \<in> set (map (\<lambda>k. PStr (str k)) ks)) else err TypeError ''unhashable type'')"

definition filled_text :: "pv \<Rightarrow> bool" where
  "filled_text v \<longleftrightarrow> (case v of PStr s \<Rightarrow> \<not> blank s | _ \<Rightarrow> False)"

fun text_of :: "pv \<Rightarrow> pystr" where
  "text_of (PStr s) = s"
| "text_of _ = []"

text \<open>The files of a repository: \<open>rp_place\<close> is \<open>(root / relative).resolve()\<close>.\<close>

record repository =
  rp_root :: path
  rp_place :: "pystr \<Rightarrow> path"
  rp_is_file :: "path \<Rightarrow> bool"
  rp_exists :: "path \<Rightarrow> bool"

section \<open>The assurance manifest\<close>

definition claim_statuses :: "string list" where
  "claim_statuses = [''not_implemented'', ''implemented_unverified'', ''passing'', ''failing'', ''deferred'', ''out_of_scope'']"

definition evidence_levels :: "string list" where
  "evidence_levels = [''E0'', ''E1'', ''E2'', ''E3'', ''E4'', ''E5'']"

text \<open>\<open>_EVIDENCE_ORDER[v]\<close> of a level.\<close>

definition level_rank :: "pv \<Rightarrow> nat" where
  "level_rank v = length (takeWhile (\<lambda>k. PStr (str k) \<noteq> v) evidence_levels)"

definition required_gates :: "string list" where
  "required_gates = [''repository_publicization'', ''pages_publication'', ''package_release'', ''tag_or_github_release'',
     ''external_or_live_mcp_connection'', ''credential_use'', ''license_change'', ''claim_escalation_to_e4_or_e5'']"

definition required_prohibitions :: "string list" where
  "required_prohibitions = [''full formal verification'', ''legal or regulatory compliance'', ''arbitrary third-party MCP compatibility'',
     ''live external MCP interoperability'', ''distributed correctness'', ''production readiness'', ''signed non-repudiation'',
     ''release-complete declaration without authorization'']"

definition claim_fields :: "string list" where
  "claim_fields = [''claim_id'', ''status'', ''evidence_level'', ''statement'', ''implementation_anchors'', ''test_anchors'',
     ''retained_evidence'', ''residual_owner'', ''blocked_by'', ''residual_risks'']"

definition string_list :: "bool \<Rightarrow> pv \<Rightarrow> pystr list res" where
  "string_list allow_empty v = (case v of
       PList vs \<Rightarrow>
         rbind (check (allow_empty \<or> vs \<noteq> []) AssuranceManifestError ''must_not_be_empty'') (\<lambda>_.
         rbind (check (list_all filled_text vs) AssuranceManifestError ''contains_invalid_string'') (\<lambda>_.
         rbind (check (distinct (map text_of vs)) AssuranceManifestError ''contains_duplicates'') (\<lambda>_.
           Inr (map text_of vs))))
     | _ \<Rightarrow> err AssuranceManifestError ''must_be_list'')"

text \<open>\<open>_validate_claim\<close>; the ids seen so far are returned with the new one.\<close>

definition claim_level :: "pv \<Rightarrow> pdict \<Rightarrow> unit res" where
  "claim_level maximum c =
     rbind (member claim_statuses (dget_none c (str ''status''))) (\<lambda>known.
     rbind (check known AssuranceManifestError ''invalid_status'') (\<lambda>_.
     rbind (member evidence_levels (dget_none c (str ''evidence_level''))) (\<lambda>level.
     rbind (check level AssuranceManifestError ''invalid_evidence_level'') (\<lambda>_.
     rbind (check (level_rank (dget_none c (str ''evidence_level'')) \<le> level_rank maximum) AssuranceManifestError ''exceeds_manifest_maximum'') (\<lambda>_.
       check (dget_none c (str ''status'') = PStr (str ''passing'') \<longrightarrow> 2 \<le> level_rank (dget_none c (str ''evidence_level'')))
         AssuranceManifestError ''passing_without_sufficient_evidence'')))))"

definition claim_anchors :: "pdict \<Rightarrow> unit res" where
  "claim_anchors c =
     rbind (string_list False (dget_none c (str ''implementation_anchors''))) (\<lambda>implementation.
     rbind (string_list True (dget_none c (str ''test_anchors''))) (\<lambda>tests.
     rbind (string_list True (dget_none c (str ''retained_evidence''))) (\<lambda>_.
     rbind (string_list True (dget_none c (str ''blocked_by''))) (\<lambda>blocked_by.
     rbind (string_list False (dget_none c (str ''residual_risks''))) (\<lambda>risks.
     rbind (check (dget_none c (str ''status'') = PStr (str ''passing'') \<longrightarrow> tests \<noteq> []) AssuranceManifestError ''passing_without_test_anchor'') (\<lambda>_.
     rbind (check (dget_none c (str ''status'') = PStr (str ''implemented_unverified'') \<longrightarrow> blocked_by \<noteq> [])
       AssuranceManifestError ''unverified_without_blocker'') (\<lambda>_.
       check (implementation \<noteq> [] \<and> risks \<noteq> []) AssuranceManifestError ''missing_assurance_boundary'')))))))"

definition validate_claim :: "pv \<Rightarrow> pystr list \<Rightarrow> pv \<Rightarrow> pystr list res" where
  "validate_claim maximum ids v = (case v of
       PDict c \<Rightarrow>
         rbind (check (list_all (\<lambda>k. dget c (str k) \<noteq> None) claim_fields) AssuranceManifestError ''missing_fields'') (\<lambda>_.
         rbind (check (filled_text (dget_none c (str ''claim_id''))) AssuranceManifestError ''invalid_id'') (\<lambda>_.
         rbind (check (text_of (dget_none c (str ''claim_id'')) \<notin> set ids) AssuranceManifestError ''duplicate_claim_id'') (\<lambda>_.
         rbind (claim_level maximum c) (\<lambda>_.
         rbind (check (filled_text (dget_none c (str ''statement''))) AssuranceManifestError ''statement_required'') (\<lambda>_.
         rbind (check (filled_text (dget_none c (str ''residual_owner''))) AssuranceManifestError ''residual_owner_required'') (\<lambda>_.
         rbind (claim_anchors c) (\<lambda>_. Inr (text_of (dget_none c (str ''claim_id'')) # ids))))))))
     | _ \<Rightarrow> err AssuranceManifestError ''must_be_object'')"

fun validate_claims :: "pv \<Rightarrow> pystr list \<Rightarrow> pv list \<Rightarrow> unit res" where
  "validate_claims maximum ids [] = Inr ()"
| "validate_claims maximum ids (v # vs) = rbind (validate_claim maximum ids v) (\<lambda>ids'. validate_claims maximum ids' vs)"

text \<open>\<open>Path(relative).parts\<close>, without the root.\<close>

fun path_parts :: "pystr \<Rightarrow> pystr \<Rightarrow> path" where
  "path_parts c [] = (if c = [] \<or> c = [46] then [] else [c])"
| "path_parts c (x # xs) = (if x \<noteq> 47 then path_parts (c @ [x]) xs
     else if c = [] \<or> c = [46] then path_parts [] xs else c # path_parts [] xs)"

definition require_relative_file :: "repository \<Rightarrow> pystr \<Rightarrow> unit res" where
  "require_relative_file rp relative =
     rbind (check (take 1 relative \<noteq> [47] \<and> [46, 46] \<notin> set (path_parts [] relative)) AssuranceManifestError ''must_be_relative'') (\<lambda>_.
     rbind (check (prefix (rp_root rp) (rp_place rp relative)) AssuranceManifestError ''escapes_root'') (\<lambda>_.
       check (rp_is_file rp (rp_place rp relative)) AssuranceManifestError ''missing''))"

fun require_files :: "repository \<Rightarrow> pystr list \<Rightarrow> unit res" where
  "require_files rp [] = Inr ()"
| "require_files rp (f # fs) = rbind (require_relative_file rp f) (\<lambda>_. require_files rp fs)"

text \<open>\<open>claim[key]\<close> of a validated claim.\<close>

definition anchors :: "pv \<Rightarrow> string \<Rightarrow> pystr list" where
  "anchors v k = (case v of PDict c \<Rightarrow> (case dget_none c (str k) of PList fs \<Rightarrow> map text_of fs | _ \<Rightarrow> []) | _ \<Rightarrow> [])"

fun require_anchors :: "repository \<Rightarrow> pv list \<Rightarrow> unit res" where
  "require_anchors rp [] = Inr ()"
| "require_anchors rp (v # vs) = rbind (require_files rp (anchors v ''implementation_anchors'')) (\<lambda>_.
     rbind (require_files rp (anchors v ''test_anchors'')) (\<lambda>_. require_anchors rp vs))"

text \<open>The head of the manifest; it returns the maximum level.\<close>

definition manifest_head :: "pdict \<Rightarrow> pv res" where
  "manifest_head d =
     rbind (check (py_equal (dget_none d (str ''schema_version'')) (PInt 1)) AssuranceManifestError ''unsupported_schema_version'') (\<lambda>_.
     rbind (check (dget_none d (str ''product'') = PStr (str ''Responsibility Pathway Runtime'')) AssuranceManifestError ''unexpected_product'') (\<lambda>_.
     rbind (check (dget_none d (str ''canonical_source'') = PStr (str ''YutoriKomeiji/responsibility-pathway-runtime''))
       AssuranceManifestError ''unexpected_canonical_source'') (\<lambda>_.
     rbind (check (dget_none d (str ''release_boundary'') = PStr (str ''public_alpha_candidate''))
       AssuranceManifestError ''release_boundary_must_be_public_alpha_candidate'') (\<lambda>_.
     rbind (string_list False (dget_none d (str ''human_gate_required_for''))) (\<lambda>gates.
     rbind (check (list_all (\<lambda>g. str g \<in> set gates) required_gates) AssuranceManifestError ''missing_human_gates'') (\<lambda>_.
     let maximum = dget_none d (str ''maximum_current_evidence_level'') in
     rbind (member evidence_levels maximum) (\<lambda>known.
     rbind (check known AssuranceManifestError ''invalid_maximum_current_evidence_level'') (\<lambda>_.
     rbind (check (level_rank maximum \<le> 3) AssuranceManifestError ''evidence_level_escalation_requires_human_gate'') (\<lambda>_.
       Inr maximum)))))))))"

definition manifest_boundary :: "pdict \<Rightarrow> unit res" where
  "manifest_boundary d = (case dget_none d (str ''global_claim_boundary'') of
       PDict b \<Rightarrow>
         rbind (check (filled_text (dget_none b (str ''permitted''))) AssuranceManifestError ''global_permitted_wording_required'') (\<lambda>_.
         rbind (string_list False (dget_none b (str ''not_permitted''))) (\<lambda>nots.
           check (list_all (\<lambda>g. str g \<in> set nots) required_prohibitions) AssuranceManifestError ''missing_claim_prohibitions''))
     | _ \<Rightarrow> err AssuranceManifestError ''global_claim_boundary_must_be_object'')"

definition validate_assurance_manifest :: "repository option \<Rightarrow> pv \<Rightarrow> unit res" where
  "validate_assurance_manifest rp v = (case v of
       PDict d \<Rightarrow>
         rbind (manifest_head d) (\<lambda>maximum.
         rbind (manifest_boundary d) (\<lambda>_.
         rbind (string_list False (dget_none d (str ''source_documents''))) (\<lambda>documents.
         case dget_none d (str ''claims'') of
           PList cs \<Rightarrow>
             rbind (check (cs \<noteq> []) AssuranceManifestError ''claims_must_be_non_empty_list'') (\<lambda>_.
             rbind (validate_claims maximum [] cs) (\<lambda>_. case rp of
               None \<Rightarrow> Inr ()
             | Some r \<Rightarrow> rbind (require_files r documents) (\<lambda>_. require_anchors r cs)))
         | _ \<Rightarrow> err AssuranceManifestError ''claims_must_be_non_empty_list'')))
     | _ \<Rightarrow> err AssuranceManifestError ''manifest_must_be_object'')"

text \<open>\<open>load_assurance_manifest\<close>; \<open>source\<close> is what reading the file gives, \<open>rp\<close> the root that was chosen.\<close>

definition load_assurance_manifest :: "(rat \<Rightarrow> pfloat) \<Rightarrow> repository \<Rightarrow> pystr res \<Rightarrow> pv res" where
  "load_assurance_manifest rf rp source =
     rbind (case rbind source (\<lambda>s. case json_loads Lenient rf s of None \<Rightarrow> err JSONDecodeError ''invalid JSON'' | Some v \<Rightarrow> Inr v) of
         Inl e \<Rightarrow> (if catches [OSError, UnicodeDecodeError, JSONDecodeError] e
           then Inl (Exn AssuranceManifestError (str ''manifest_load_failed: '' @ exn_name (exn_kind e) @ str '': '' @ exn_msg e)) else Inl e)
       | Inr v \<Rightarrow> Inr v) (\<lambda>v.
     rbind (validate_assurance_manifest (Some rp) v) (\<lambda>_. Inr v))"

section \<open>Claim traceability\<close>

text \<open>\<open>_non_empty_strings\<close>.\<close>

definition non_empty_strings :: "exn_kind \<Rightarrow> pv \<Rightarrow> pystr list res" where
  "non_empty_strings kind v = (case v of
       PList vs \<Rightarrow>
         rbind (check (vs \<noteq> [] \<and> list_all filled_text vs) kind ''must be a non-empty string list'') (\<lambda>_.
         rbind (check (distinct (map text_of vs)) kind ''contains duplicates'') (\<lambda>_. Inr (map text_of vs)))
     | _ \<Rightarrow> err kind ''must be a non-empty string list'')"

text \<open>\<open>v.get(k)\<close>.\<close>

definition get_of :: "pv \<Rightarrow> string \<Rightarrow> pv res" where
  "get_of v k = (case v of PDict d \<Rightarrow> Inr (dget_none d (str k)) | _ \<Rightarrow> Inl (Exn (OtherException (str ''AttributeError'')) []))"

definition registry_entry :: "repository \<Rightarrow> (pystr \<times> pv) list \<Rightarrow> pv \<Rightarrow> (pystr \<times> pv) list res" where
  "registry_entry rp registry v = (case v of
       PDict e \<Rightarrow>
         rbind (check (filled_text (dget_none e (str ''test_id''))) ClaimTraceabilityError ''test ID registry entry requires test_id'') (\<lambda>_.
         let test_id = text_of (dget_none e (str ''test_id'')); source = dget_none e (str ''source'') in
         rbind (check (test_id \<notin> set (map fst registry)) ClaimTraceabilityError ''duplicate test ID registry entry'') (\<lambda>_.
         rbind (member [''file_bound'', ''specified_only''] (dget_none e (str ''binding''))) (\<lambda>known.
         rbind (check known ClaimTraceabilityError ''invalid binding'') (\<lambda>_.
         rbind (check (filled_text source) ClaimTraceabilityError ''source is required'') (\<lambda>_.
         rbind (check (rp_exists rp (rp_place rp (text_of source))) ClaimTraceabilityError ''registry source does not exist'') (\<lambda>_.
           Inr (registry @ [(test_id, dget_none e (str ''binding''))])))))))
     | _ \<Rightarrow> err ClaimTraceabilityError ''test ID registry entry must be an object'')"

fun registry_entries :: "repository \<Rightarrow> (pystr \<times> pv) list \<Rightarrow> pv list \<Rightarrow> (pystr \<times> pv) list res" where
  "registry_entries rp registry [] = Inr registry"
| "registry_entries rp registry (v # vs) = rbind (registry_entry rp registry v) (\<lambda>r. registry_entries rp r vs)"

text \<open>The registry keeps the binding of each entry, which is all that is read of it later.\<close>

definition load_registry :: "repository \<Rightarrow> pv \<Rightarrow> (pystr \<times> pv) list res" where
  "load_registry rp v =
     rbind (get_of v ''schema_version'') (\<lambda>version.
     rbind (check (py_equal version (PInt 1)) ClaimTraceabilityError ''unsupported test ID registry schema_version'') (\<lambda>_.
     rbind (get_of v ''tests'') (\<lambda>tests. case tests of
         PList es \<Rightarrow> registry_entries rp [] es
       | _ \<Rightarrow> err ClaimTraceabilityError ''test ID registry tests must be a list'')))"

definition expected_claims :: "string list" where
  "expected_claims = map (\<lambda>d. ''CLM-'' @ d) [''01'', ''02'', ''03'', ''04'', ''05'', ''06'', ''07'', ''08'', ''09'', ''10'', ''11'', ''12'', ''13'']"

text \<open>\<open>sorted\<close> of a set: its members are at most one, all texts or all numbers.\<close>

definition sortable :: "pv list \<Rightarrow> bool" where
  "sortable vs \<longleftrightarrow> length (remdups vs) \<le> 1 \<or> list_all (\<lambda>v. case v of PStr _ \<Rightarrow> True | _ \<Rightarrow> False) vs \<or> list_all (\<lambda>v. numeric v \<noteq> None) vs"

definition claim_ids :: "pv list \<Rightarrow> pv list" where
  "claim_ids cs = concat (map (\<lambda>v. case v of PDict c \<Rightarrow> [dget_none c (str ''claim_id'')] | _ \<Rightarrow> []) cs)"

definition check_claim_set :: "pv list \<Rightarrow> unit res" where
  "check_claim_set cs =
     (let ids = claim_ids cs; expected = map (\<lambda>k. PStr (str k)) expected_claims in
      if \<not> list_all hashable ids then err TypeError ''unhashable type''
      else if set ids = set expected \<and> length ids = length expected then Inr ()
      else if sortable (filter (\<lambda>v. v \<notin> set expected) ids) then err ClaimTraceabilityError ''claim set mismatch''
      else err TypeError ''not supported between instances'')"

definition check_levels :: "pdict \<Rightarrow> unit res" where
  "check_levels c =
     (let status = dget_none c (str ''status''); level = dget_none c (str ''evidence_level'') in
     rbind (member claim_statuses status) (\<lambda>known.
     rbind (check known ClaimTraceabilityError ''invalid status'') (\<lambda>_.
     rbind (member evidence_levels level) (\<lambda>known.
     rbind (check known ClaimTraceabilityError ''invalid evidence_level'') (\<lambda>_.
       check (level \<notin> {PStr (str ''E4''), PStr (str ''E5'')}) ClaimTraceabilityError ''E4/E5 requires a separately approved promotion record'')))))"

definition text_list :: "pv \<Rightarrow> bool" where
  "text_list v \<longleftrightarrow> (case v of PList vs \<Rightarrow> list_all filled_text vs | _ \<Rightarrow> False)"

definition check_tests :: "repository \<Rightarrow> (pystr \<times> pv) list \<Rightarrow> pdict \<Rightarrow> pystr list \<Rightarrow> pystr list \<Rightarrow> unit res" where
  "check_tests rp registry c places tests =
     (let passing = (dget_none c (str ''status'') = PStr (str ''passing'')) in
     rbind (check (passing \<longrightarrow> dget_none c (str ''evidence_level'') \<notin> {PStr (str ''E0''), PStr (str ''E1'')}) ClaimTraceabilityError ''passing requires at least E2'') (\<lambda>_.
     rbind (check (list_all (\<lambda>f. rp_exists rp (rp_place rp f)) places) ClaimTraceabilityError ''implementation anchor does not exist'') (\<lambda>_.
     rbind (check (set tests \<subseteq> set (map fst registry)) ClaimTraceabilityError ''unregistered test IDs'') (\<lambda>_.
       check (passing \<longrightarrow> list_ex (\<lambda>t. map_of registry t = Some (PStr (str ''file_bound''))) tests)
         ClaimTraceabilityError ''passing claim requires at least one file-bound test ID''))))"

definition check_claim :: "repository \<Rightarrow> (pystr \<times> pv) list \<Rightarrow> pv \<Rightarrow> pystr list res" where
  "check_claim rp registry v = (case v of
       PDict c \<Rightarrow>
         rbind (ditem c (str ''claim_id'')) (\<lambda>_.
         rbind (check_levels c) (\<lambda>_.
         rbind (non_empty_strings ClaimTraceabilityError (dget_none c (str ''implementation_anchors''))) (\<lambda>places.
         rbind (non_empty_strings ClaimTraceabilityError (dget_none c (str ''test_ids''))) (\<lambda>tests.
         rbind (non_empty_strings ClaimTraceabilityError (dget_none c (str ''evidence_ids''))) (\<lambda>_.
         rbind (check (filled_text (dget_none c (str ''residual_owner''))) ClaimTraceabilityError ''residual_owner is required'') (\<lambda>_.
         rbind (check (filled_text (dget_none c (str ''permitted_wording''))) ClaimTraceabilityError ''permitted_wording is required'') (\<lambda>_.
         rbind (check (text_list (dget_none c (str ''blocked_by''))) ClaimTraceabilityError ''blocked_by must be a string list'') (\<lambda>_.
         rbind (check_tests rp registry c places tests) (\<lambda>_. Inr tests)))))))))
     | _ \<Rightarrow> err TypeError ''indices must be integers'')"

text \<open>The loop over the claims; it returns the tests they refer to.\<close>

fun check_claims :: "repository \<Rightarrow> (pystr \<times> pv) list \<Rightarrow> pv list \<Rightarrow> pystr list res" where
  "check_claims rp registry [] = Inr []"
| "check_claims rp registry (v # vs) = rbind (check_claim rp registry v) (\<lambda>ts. rbind (check_claims rp registry vs) (\<lambda>us. Inr (ts @ us)))"

definition validate_traceability :: "repository \<Rightarrow> pv \<Rightarrow> pv \<Rightarrow> pv res" where
  "validate_traceability rp tests v =
     rbind (load_registry rp tests) (\<lambda>registry.
     rbind (get_of v ''schema_version'') (\<lambda>version.
     rbind (check (py_equal version (PInt 1)) ClaimTraceabilityError ''unsupported claim traceability schema_version'') (\<lambda>_.
     rbind (get_of v ''claims'') (\<lambda>claims. case claims of
         PList cs \<Rightarrow>
           rbind (check_claim_set cs) (\<lambda>_.
           rbind (check_claims rp registry cs) (\<lambda>used.
           rbind (check (set (map fst registry) \<subseteq> set used) ClaimTraceabilityError ''test ID registry contains unreferenced entries'') (\<lambda>_.
             Inr v)))
       | _ \<Rightarrow> err ClaimTraceabilityError ''claims must be a list''))))"

section \<open>The MCP compatibility contract\<close>

abbreviation compatibility_error :: exn_kind where
  "compatibility_error \<equiv> OtherException (str ''McpCompatibilityError'')"

definition require_unique_strings :: "pv \<Rightarrow> pystr list res" where
  "require_unique_strings v = non_empty_strings compatibility_error v"

text \<open>The key of a value in a set or dict: numbers are equal across their types.\<close>

definition hash_key :: "pv \<Rightarrow> rat + pv" where
  "hash_key v = (case numeric v of Some q \<Rightarrow> Inl q | None \<Rightarrow> Inr v)"

definition version_entries :: "pv list \<Rightarrow> (pv \<times> pdict) list" where
  "version_entries vs = concat (map (\<lambda>v. case v of PDict e \<Rightarrow> [(dget_none e (str ''protocol_version''), e)] | _ \<Rightarrow> []) vs)"

definition version_entry :: "(pv \<times> pdict) list \<Rightarrow> pv \<Rightarrow> pdict option" where
  "version_entry es v = (if v = PFloat FNan then None else map_of (map (\<lambda>(k, e). (hash_key k, e)) es) (hash_key v))"

definition is_value :: "pdict \<Rightarrow> string \<Rightarrow> pv \<Rightarrow> bool" where
  "is_value d k v \<longleftrightarrow> dget_none d (str k) = v"

definition check_protocol_version :: "pdict \<Rightarrow> unit res" where
  "check_protocol_version e =
     rbind (member [''stable'', ''release_candidate'', ''draft'', ''deprecated''] (dget_none e (str ''lifecycle''))) (\<lambda>known.
     rbind (check known compatibility_error ''invalid lifecycle'') (\<lambda>_.
     rbind (require_unique_strings (dget_none e (str ''accepted_discovery_modes''))) (\<lambda>_.
     rbind (check (filled_text (dget_none e (str ''session_model''))) compatibility_error ''session_model is required'') (\<lambda>_.
       check (is_value e ''lifecycle'' (PStr (str ''release_candidate'')) \<or> is_value e ''lifecycle'' (PStr (str ''draft'')) \<longrightarrow>
           is_value e ''enabled_by_default'' (PBool False) \<and> is_value e ''requires_experimental_flag'' (PBool True))
         compatibility_error ''non-stable versions must be experimental and disabled by default''))))"

fun check_protocol_versions :: "pdict list \<Rightarrow> unit res" where
  "check_protocol_versions [] = Inr ()"
| "check_protocol_versions (e # es) = rbind (check_protocol_version e) (\<lambda>_. check_protocol_versions es)"

definition check_default_version :: "(pv \<times> pdict) list \<Rightarrow> pv \<Rightarrow> unit res" where
  "check_default_version es chosen =
     (if \<not> hashable chosen then err TypeError ''unhashable type''
      else case version_entry es chosen of
        None \<Rightarrow> err compatibility_error ''default protocol version is not registered''
      | Some e \<Rightarrow>
          rbind (check (is_value e ''lifecycle'' (PStr (str ''stable'')) \<and> is_value e ''enabled_by_default'' (PBool True))
            compatibility_error ''default protocol version must be stable and enabled'') (\<lambda>_.
            check (is_value e ''requires_experimental_flag'' (PBool False)) compatibility_error ''stable default cannot require an experimental flag''))"

definition exact_texts :: "string list \<Rightarrow> pv \<Rightarrow> string \<Rightarrow> unit res" where
  "exact_texts ks v why = rbind (require_unique_strings v) (\<lambda>ts. check (set ts = set (map str ks)) compatibility_error why)"

definition check_retry_contract :: "pv \<Rightarrow> unit res" where
  "check_retry_contract v = (case v of
       PDict r \<Rightarrow>
         rbind (check (is_value r ''transport_retry_reuses_business_identity'' (PBool True)) compatibility_error
           ''transport retry must preserve business identity'') (\<lambda>_.
         rbind (check (is_value r ''business_retry_requires_new_attempt_identity'' (PBool True)) compatibility_error
           ''business retry must require a new attempt identity'') (\<lambda>_.
           exact_texts [''operation_id'', ''attempt_id'', ''idempotency_key'', ''request_fingerprint'']
             (dget_none r (str ''required_business_identity_fields'')) ''business identity fields are incomplete''))
     | _ \<Rightarrow> err compatibility_error ''retry_contract is required'')"

definition check_mrtr_contract :: "pv \<Rightarrow> unit res" where
  "check_mrtr_contract v = (case v of
       PDict m \<Rightarrow>
         rbind (check (is_value m ''input_required_is_human_gate'' (PBool False) \<and> is_value m ''requires_explicit_mapping'' (PBool True))
           compatibility_error ''MRTR input_required must not be equated automatically with Human Gate'') (\<lambda>_.
         rbind (require_unique_strings (dget_none m (str ''allowed_mappings''))) (\<lambda>_. Inr ()))
     | _ \<Rightarrow> err compatibility_error ''mrtr_contract is required'')"

definition check_registered_versions :: "pdict \<Rightarrow> unit res" where
  "check_registered_versions d = (case dget_none d (str ''versions'') of
       PList (v # vs) \<Rightarrow>
         (let es = version_entries (v # vs) in
          rbind (check (list_all (\<lambda>(k, _). hashable k) es) TypeError ''unhashable type'') (\<lambda>_.
          rbind (check (distinct (map (hash_key \<circ> fst) (filter (\<lambda>(k, _). k \<noteq> PFloat FNan) es))) compatibility_error
            ''protocol versions contain duplicates'') (\<lambda>_.
          rbind (check_default_version es (dget_none d (str ''default_protocol_version''))) (\<lambda>_. check_protocol_versions (map snd es)))))
     | _ \<Rightarrow> err compatibility_error ''versions must be a non-empty list'')"

definition validate_mcp_compatibility :: "pv \<Rightarrow> pv res" where
  "validate_mcp_compatibility v =
     rbind (get_of v ''schema_version'') (\<lambda>version.
     rbind (check (py_equal version (PInt 1)) compatibility_error ''unsupported schema_version'') (\<lambda>_.
     case v of PDict d \<Rightarrow>
       rbind (check_registered_versions d) (\<lambda>_.
       rbind (exact_texts [''protocol_version'', ''server_identity'', ''server_capabilities_hash'', ''tool_name'', ''tool_schema_hash'']
         (dget_none d (str ''admission_bindings'')) ''admission_bindings must match the required MCP admission identity'') (\<lambda>_.
       rbind (check_retry_contract (dget_none d (str ''retry_contract''))) (\<lambda>_.
       rbind (check_mrtr_contract (dget_none d (str ''mrtr_contract''))) (\<lambda>_.
       rbind (check (is_value d ''unknown_version_policy'' (PStr (str ''reject''))) compatibility_error ''unknown MCP versions must fail closed'') (\<lambda>_.
       rbind (check (is_value d ''release_boundary'' (PStr (str ''public_alpha_candidate''))) compatibility_error
         ''release boundary must remain a public-alpha candidate'') (\<lambda>_. Inr v))))))
     | _ \<Rightarrow> Inr v))"

section \<open>What an accepted manifest cannot say\<close>

definition claim_name :: "pv \<Rightarrow> pystr" where
  "claim_name v = (case v of PDict c \<Rightarrow> text_of (dget_none c (str ''claim_id'')) | _ \<Rightarrow> [])"

lemma case_Inr:
  "(case x of PList vs \<Rightarrow> f vs | _ \<Rightarrow> err k m) = Inr w \<longleftrightarrow> (\<exists>vs. x = PList vs \<and> f vs = Inr w)"
  "(case x of PDict d \<Rightarrow> g d | _ \<Rightarrow> err k m) = Inr w \<longleftrightarrow> (\<exists>d. x = PDict d \<and> g d = Inr w)"
  by (cases x; simp)+

text \<open>A claim inside its bounds: the level, what a passing claim has, its owner and its risks.\<close>

definition bounded_claim :: "nat \<Rightarrow> pv \<Rightarrow> bool" where
  "bounded_claim n v \<longleftrightarrow> (case v of
       PDict c \<Rightarrow> level_rank (dget_none c (str ''evidence_level'')) \<le> n
         \<and> (is_value c ''status'' (PStr (str ''passing'')) \<longrightarrow>
              2 \<le> level_rank (dget_none c (str ''evidence_level'')) \<and> anchors v ''test_anchors'' \<noteq> [])
         \<and> (is_value c ''status'' (PStr (str ''implemented_unverified'')) \<longrightarrow> anchors v ''blocked_by'' \<noteq> [])
         \<and> filled_text (dget_none c (str ''residual_owner'')) \<and> anchors v ''implementation_anchors'' \<noteq> [] \<and> anchors v ''residual_risks'' \<noteq> []
     | _ \<Rightarrow> False)"

lemma string_list_anchors:
  "string_list e (dget_none c (str k)) = Inr ts \<Longrightarrow> anchors (PDict c) k = ts"
  by (auto simp: string_list_def anchors_def rbind_eq_Inr split: pv.splits)

lemma validate_claim_bounded:
  assumes "validate_claim maximum ids v = Inr ids'"
  shows "bounded_claim (level_rank maximum) v" "ids' = claim_name v # ids" "claim_name v \<notin> set ids"
  using assms
  by (auto simp: validate_claim_def bounded_claim_def claim_level_def claim_anchors_def claim_name_def is_value_def rbind_eq_Inr
      string_list_anchors split: pv.splits)

lemma validate_claims_bounded:
  "validate_claims maximum ids vs = Inr u \<Longrightarrow>
     list_all (bounded_claim (level_rank maximum)) vs \<and> distinct (map claim_name vs) \<and> set ids \<inter> set (map claim_name vs) = {}"
proof (induction vs arbitrary: ids)
  case (Cons v vs)
  then obtain ids' where v: "validate_claim maximum ids v = Inr ids'" and rest: "validate_claims maximum ids' vs = Inr u"
    by (auto simp: rbind_eq_Inr)
  from Cons.IH [OF rest] validate_claim_bounded [OF v] show ?case by auto
qed simp

definition anchored :: "repository \<Rightarrow> pystr \<Rightarrow> bool" where
  "anchored rp f \<longleftrightarrow> prefix (rp_root rp) (rp_place rp f) \<and> rp_is_file rp (rp_place rp f)"

lemma require_files_anchored: "require_files rp fs = Inr u \<Longrightarrow> list_all (anchored rp) fs"
  by (induction fs) (auto simp: rbind_eq_Inr require_relative_file_def anchored_def)

lemma require_anchors_anchored:
  "require_anchors rp vs = Inr u \<Longrightarrow>
     list_all (\<lambda>v. list_all (anchored rp) (anchors v ''implementation_anchors'' @ anchors v ''test_anchors'')) vs"
  by (induction vs) (auto simp: rbind_eq_Inr dest: require_files_anchored)

theorem assurance_manifest_contract:
  assumes "validate_assurance_manifest (Some rp) v = Inr u"
  shows "\<exists>d maximum cs. v = PDict d \<and> dget_none d (str ''claims'') = PList cs \<and> cs \<noteq> []
     \<and> dget_none d (str ''maximum_current_evidence_level'') = maximum \<and> level_rank maximum \<le> 3
     \<and> list_all (bounded_claim (level_rank maximum)) cs \<and> distinct (map claim_name cs)
     \<and> list_all (\<lambda>c. list_all (anchored rp) (anchors c ''implementation_anchors'' @ anchors c ''test_anchors'')) cs"
proof -
  from assms obtain d maximum cs documents where v: "v = PDict d" and head: "manifest_head d = Inr maximum"
    and cs: "dget_none d (str ''claims'') = PList cs" "cs \<noteq> []" and claims: "validate_claims maximum [] cs = Inr ()"
    and files: "require_anchors rp cs = Inr u"
    by (auto simp: validate_assurance_manifest_def rbind_eq_Inr case_Inr)
  from head have "maximum = dget_none d (str ''maximum_current_evidence_level'')" "level_rank maximum \<le> 3"
    by (auto simp: manifest_head_def rbind_eq_Inr Let_def)
  with v cs validate_claims_bounded [OF claims] require_anchors_anchored [OF files] show ?thesis by blast
qed

section \<open>What an accepted traceability basis says\<close>

text \<open>A claim that is traced: its anchors exist, its tests are registered, and a passing one has a test bound to a file.\<close>

definition traced :: "repository \<Rightarrow> (pystr \<times> pv) list \<Rightarrow> pv \<Rightarrow> bool" where
  "traced rp registry v \<longleftrightarrow> (case v of
       PDict c \<Rightarrow> list_all (\<lambda>f. rp_exists rp (rp_place rp f)) (anchors v ''implementation_anchors'')
         \<and> anchors v ''test_ids'' \<noteq> [] \<and> set (anchors v ''test_ids'') \<subseteq> set (map fst registry)
         \<and> dget_none c (str ''evidence_level'') \<in> {PStr (str ''E0''), PStr (str ''E1''), PStr (str ''E2''), PStr (str ''E3'')}
         \<and> (is_value c ''status'' (PStr (str ''passing'')) \<longrightarrow>
              dget_none c (str ''evidence_level'') \<notin> {PStr (str ''E0''), PStr (str ''E1'')}
              \<and> list_ex (\<lambda>t. map_of registry t = Some (PStr (str ''file_bound''))) (anchors v ''test_ids''))
     | _ \<Rightarrow> False)"

lemma non_empty_anchors: "non_empty_strings k (dget_none c (str key)) = Inr ts \<Longrightarrow> anchors (PDict c) key = ts \<and> ts \<noteq> []"
  by (auto simp: non_empty_strings_def anchors_def rbind_eq_Inr split: pv.splits)

lemma check_levels_level:
  "check_levels c = Inr u \<Longrightarrow>
     dget_none c (str ''evidence_level'') \<in> {PStr (str ''E0''), PStr (str ''E1''), PStr (str ''E2''), PStr (str ''E3'')}"
  by (auto simp: check_levels_def member_def rbind_eq_Inr Let_def evidence_levels_def split: if_splits)

lemma check_claim_traced:
  assumes "check_claim rp registry v = Inr ts"
  shows "traced rp registry v \<and> ts = anchors v ''test_ids''"
proof -
  from assms obtain c places where v: "v = PDict c" and levels: "check_levels c = Inr ()"
    and p: "non_empty_strings ClaimTraceabilityError (dget_none c (str ''implementation_anchors'')) = Inr places"
    and t: "non_empty_strings ClaimTraceabilityError (dget_none c (str ''test_ids'')) = Inr ts"
    and tests: "check_tests rp registry c places ts = Inr ()"
    by (auto simp: check_claim_def rbind_eq_Inr split: pv.splits)
  from check_levels_level [OF levels] non_empty_anchors [OF p] non_empty_anchors [OF t] tests show ?thesis
    unfolding traced_def v by (auto simp: check_tests_def rbind_eq_Inr Let_def is_value_def)
qed

lemma traced_tests: "traced rp registry v \<Longrightarrow> set (anchors v ''test_ids'') \<subseteq> set (map fst registry)"
  by (auto simp: traced_def split: pv.splits)

lemma check_claims_traced:
  "check_claims rp registry vs = Inr ts \<Longrightarrow> list_all (traced rp registry) vs \<and> ts = concat (map (\<lambda>v. anchors v ''test_ids'') vs)"
  by (induction vs arbitrary: ts) (auto simp: rbind_eq_Inr dest: check_claim_traced)

lemma check_claim_set_exact:
  "check_claim_set cs = Inr u \<Longrightarrow>
     set (claim_ids cs) = set (map (\<lambda>k. PStr (str k)) expected_claims) \<and> length (claim_ids cs) = length expected_claims"
  unfolding check_claim_set_def Let_def by (simp split: if_splits)

theorem traceability_contract:
  assumes "validate_traceability rp tests v = Inr w"
  shows "\<exists>registry d cs. load_registry rp tests = Inr registry \<and> w = v \<and> v = PDict d \<and> dget_none d (str ''claims'') = PList cs
     \<and> set (claim_ids cs) = set (map (\<lambda>k. PStr (str k)) expected_claims) \<and> length (claim_ids cs) = length expected_claims
     \<and> list_all (traced rp registry) cs
     \<and> set (map fst registry) = set (concat (map (\<lambda>v. anchors v ''test_ids'') cs))"
proof -
  from assms obtain registry cs used where r: "load_registry rp tests = Inr registry" and "get_of v ''claims'' = Inr (PList cs)" "w = v"
    and ids: "check_claim_set cs = Inr ()" and c: "check_claims rp registry cs = Inr used" and all: "set (map fst registry) \<subseteq> set used"
    by (auto simp: validate_traceability_def rbind_eq_Inr case_Inr)
  then obtain d where d: "v = PDict d" "dget_none d (str ''claims'') = PList cs" by (auto simp: get_of_def split: pv.splits)
  from check_claims_traced [OF c] have t: "list_all (traced rp registry) cs" "used = concat (map (\<lambda>v. anchors v ''test_ids'') cs)" by auto
  from t(1) have "set used \<subseteq> set (map fst registry)" unfolding t(2) by (fastforce simp: list_all_iff dest: traced_tests)
  with all have "set (map fst registry) = set (concat (map (\<lambda>v. anchors v ''test_ids'') cs))" unfolding t(2) by blast
  with r d t(1) check_claim_set_exact [OF ids] \<open>w = v\<close> show ?thesis by blast
qed

end
