(* ===== verification/Rpr_Handover.thy ===== *)
theory Rpr_Handover
  imports Rpr_Release Rpr_Assurance Rpr_Claims Rpr_Backup
begin

text \<open>
  The documents that accompany a release: the customer handover (\<open>customer_handover.py\<close>), the delivery
  acceptance baseline (\<open>delivery_acceptance_baseline.py\<close>), the integration acceptance inventory
  (\<open>integration_acceptance_inventory.py\<close>) and the bundle of security reviews (\<open>security_review.py\<close>).
  The lemmas: a handover cannot approve itself, the baseline waits for its documents, an inventory
  allows a freeze exactly when every executable scenario is verified, and a bundle does not
  depend on the order of its reviews.
\<close>

section \<open>The customer handover\<close>

definition required_roles :: "string list" where
  "required_roles = [''operations'', ''audit'', ''maintenance'']"

definition required_boundaries :: "string list" where
  "required_boundaries = [''no_public_release_authority'', ''no_production_readiness_claim'', ''human_gate_required'']"

record handover_role =
  hr_responsibilities :: "pystr list"
  hr_review_questions :: "pystr list"
  hr_evidence :: "pystr list"

definition complete :: "pystr list \<Rightarrow> bool" where
  "complete ts \<longleftrightarrow> ts \<noteq> [] \<and> list_all (\<lambda>t. \<not> blank t) ts"

definition validate_role :: "repository \<Rightarrow> handover_role \<Rightarrow> unit res" where
  "validate_role rp r =
     rbind (check (complete (hr_responsibilities r)) CustomerHandoverError ''responsibilities are incomplete'') (\<lambda>_.
     rbind (check (complete (hr_review_questions r)) CustomerHandoverError ''review questions are incomplete'') (\<lambda>_.
     rbind (check (complete (hr_evidence r)) CustomerHandoverError ''evidence is incomplete'') (\<lambda>_.
       check (list_all (\<lambda>e. rp_is_file rp (rp_place rp e)) (hr_evidence r)) CustomerHandoverError ''evidence references do not exist'')))"

record handover_candidate =
  hc_source_commit :: pystr
  hc_roles :: "(pystr \<times> handover_role) list"
  hc_boundaries :: "(pystr \<times> bool) list"
  hc_residual_owner :: pystr
  hc_decision :: pystr

definition role :: "handover_candidate \<Rightarrow> string \<Rightarrow> handover_role res" where
  "role c k = (case map_of (hc_roles c) (str k) of None \<Rightarrow> Inl (Exn KeyError (str k)) | Some r \<Rightarrow> Inr r)"

fun validate_roles :: "repository \<Rightarrow> handover_candidate \<Rightarrow> string list \<Rightarrow> unit res" where
  "validate_roles rp c [] = Inr ()"
| "validate_roles rp c (k # ks) = rbind (rbind (role c k) (validate_role rp)) (\<lambda>_. validate_roles rp c ks)"

definition validate_handover :: "repository \<Rightarrow> handover_candidate \<Rightarrow> unit res" where
  "validate_handover rp c =
     rbind (check (\<not> blank (hc_source_commit c)) CustomerHandoverError ''source commit is required'') (\<lambda>_.
     rbind (check (\<not> blank (hc_residual_owner c)) CustomerHandoverError ''residual owner is required'') (\<lambda>_.
     rbind (check (hc_decision c = str ''ready_for_customer_review'') CustomerHandoverError ''handover candidate cannot self-approve'') (\<lambda>_.
     rbind (check (set (map str required_roles) \<subseteq> set (map fst (hc_roles c))) CustomerHandoverError ''missing handover roles'') (\<lambda>_.
     rbind (check (set (map fst (hc_roles c)) \<subseteq> set (map str required_roles)) CustomerHandoverError ''unknown handover roles'') (\<lambda>_.
     rbind (validate_roles rp c required_roles) (\<lambda>_.
     rbind (check (set (map str required_boundaries) \<subseteq> set (map fst (hc_boundaries c))) CustomerHandoverError ''missing handover boundaries'') (\<lambda>_.
     rbind (check (set (map fst (hc_boundaries c)) \<subseteq> set (map str required_boundaries)) CustomerHandoverError ''unknown handover boundaries'') (\<lambda>_.
       check (list_all (flag (hc_boundaries c)) required_boundaries) CustomerHandoverError ''all handover safety boundaries must remain active''))))))))"

definition role_dict :: "handover_candidate \<Rightarrow> string \<Rightarrow> pv" where
  "role_dict c k = (case map_of (hc_roles c) (str k) of None \<Rightarrow> PNone
     | Some r \<Rightarrow> PDict (obj [(''responsibilities'', PTuple (map PStr (hr_responsibilities r))),
         (''review_questions'', PTuple (map PStr (hr_review_questions r))), (''evidence'', PTuple (map PStr (hr_evidence r)))]))"

definition handover_to_dict :: "repository \<Rightarrow> handover_candidate \<Rightarrow> pdict res" where
  "handover_to_dict rp c = rbind (validate_handover rp c) (\<lambda>_. Inr (obj [
     (''source_commit'', PStr (hc_source_commit c)), (''decision'', PStr (hc_decision c)),
     (''roles'', PDict (obj (map (\<lambda>k. (k, role_dict c k)) required_roles))),
     (''boundaries'', PDict (obj (map (\<lambda>k. (k, PBool (flag (hc_boundaries c) k))) required_boundaries))),
     (''residual_owner'', PStr (hc_residual_owner c))]))"

definition handover_digest :: "pyenv \<Rightarrow> repository \<Rightarrow> handover_candidate \<Rightarrow> pystr res" where
  "handover_digest env rp c = report_digest env (handover_to_dict rp c)"

definition role_of :: "string list \<Rightarrow> string list \<Rightarrow> string list \<Rightarrow> handover_role" where
  "role_of rs qs es = \<lparr>hr_responsibilities = map str rs, hr_review_questions = map str qs, hr_evidence = map str es\<rparr>"

definition operations_role :: handover_role where
  "operations_role = role_of
     [''operate only inside the configured responsibility and credential boundary'',
      ''monitor completed, held, unknown, and repair-required states separately'',
      ''execute tested backup, restore, upgrade, and removal procedures'']
     [''Are all governed mutations routed through RPR without an ungoverned bypass?'',
      ''Can operators diagnose and recover write-status-unknown without automatic replay?'',
      ''Can the lifecycle suite be reproduced in the target environment?'']
     [''docs/en/install-operations-recovery.md'', ''src/rpr/diagnostics.py'', ''src/rpr/lifecycle_acceptance.py'',
      ''tests/test_operational_diagnostics.py'', ''tests/test_lifecycle_acceptance.py'', ''.github/workflows/public-export-quality.yml'']"

definition audit_role :: handover_role where
  "audit_role = role_of
     [''verify claim-to-evidence traceability and retained decision records'',
      ''confirm candidate evidence is reproducible and bound to the source commit'',
      ''retain unresolved external release gates as explicit blockers'']
     [''Does every verified delivery dimension point to retained evidence?'',
      ''Are Human Gate, secret scan, and vulnerability review still explicit decisions?'',
      ''Are known limitations visible and consistent with the candidate claims?'']
     [''src/rpr/delivery_acceptance.py'', ''src/rpr/delivery_acceptance_baseline.py'', ''src/rpr/candidate_readiness.py'',
      ''src/rpr/claim_traceability.py'', ''docs/en/verification-release-uat.md'', ''.github/workflows/public-export-quality.yml'']"

definition maintenance_role :: handover_role where
  "maintenance_role = role_of
     [''maintain supported Python, packaging, schema, and fixture compatibility boundaries'',
      ''treat restart, retry, repair, compensation, and residual ownership as tested paths'',
      ''update evidence and limitations when implementation or dependencies change'']
     [''Can a maintainer reproduce wheel and source installation checks?'',
      ''Are previous-candidate fixtures independent from the current candidate implementation?'',
      ''Do changes preserve fail-closed behavior and explicit residual ownership?'']
     [''pyproject.toml'', ''fixtures/lifecycle/previous-candidate-v1.json'', ''tests/test_resume_authorization_restart.py'',
      ''tests/test_product_e2e_repair_resume_retry.py'', ''tests/test_product_e2e_explicit_compensation.py'', ''src/rpr/release_audit.py'']"

definition build_handover :: "pystr \<Rightarrow> pystr \<Rightarrow> handover_candidate" where
  "build_handover source holder = \<lparr>hc_source_commit = source,
     hc_roles = [(str ''operations'', operations_role), (str ''audit'', audit_role), (str ''maintenance'', maintenance_role)],
     hc_boundaries = map (\<lambda>k. (str k, True)) required_boundaries, hc_residual_owner = holder,
     hc_decision = str ''ready_for_customer_review''\<rparr>"

text \<open>\<open>write_customer_handover_candidate\<close>: the document with its digest is written and read back from its text.\<close>

definition write_handover :: "pyenv \<Rightarrow> (rat \<Rightarrow> pfloat) \<Rightarrow> repository \<Rightarrow> path \<Rightarrow> pystr \<Rightarrow> pystr \<Rightarrow> (files, pv) py" where
  "write_handover env rf rp target source holder =
     (let c = build_handover source holder in
      bnd (lift (handover_to_dict rp c)) (\<lambda>d. bnd (lift (handover_digest env rp c)) (\<lambda>h.
      bnd (lift (indented_bytes (float_repr env) (dset (str ''candidate_sha256'') (PStr h) d))) (\<lambda>b.
      seq (make_folders (butlast target)) (
      seq (write_file_text target b) (lift (loads_bytes rf b)))))))"

section \<open>The acceptance baseline\<close>

definition baseline_evidence :: "(pystr \<times> pystr list) list" where
  "baseline_evidence = map (\<lambda>(k, es). (str k, map str es))
    [(''traceability'', [''specs/pathway-state-machine.json'', ''specs/claim-traceability.json'', ''src/rpr/claim_traceability.py'',
        ''tests/test_claim_traceability.py'']),
     (''runtime_paths'', [''tests/test_product_e2e.py'', ''tests/test_product_e2e_rpe_reconciliation.py'',
        ''tests/test_product_e2e_rpe_unavailable_substitution.py'', ''tests/test_product_e2e_human_gate_return.py'',
        ''tests/test_product_e2e_repair_resume_retry.py'', ''tests/test_product_e2e_explicit_compensation.py'',
        ''tests/test_resume_authorization_restart.py'']),
     (''authority_and_escalation'', [''tests/test_product_e2e_human_gate_return.py'', ''tests/test_abort_residual_binding.py'',
        ''tests/test_inspection.py'', ''src/rpr/diagnostics.py'']),
     (''lifecycle_operations'', [''pyproject.toml'', ''src/rpr/backup.py'', ''tests/test_backup_export.py'', ''src/rpr/lifecycle_acceptance.py'',
        ''tests/test_lifecycle_acceptance.py'', ''fixtures/lifecycle/previous-candidate-v1.json'', ''.github/workflows/public-export-quality.yml'']),
     (''supported_scope'', [''docs/en/product-scope-architecture.md'', ''docs/en/security-integration-api.md'', ''formal/README.md'']),
     (''release_artifacts'', [''src/rpr/release_audit.py'', ''src/rpr/rc_execution.py'', ''tests/test_release_audit.py'',
        ''tests/test_release_prep_bundle.py'', ''.github/workflows/public-export-quality.yml'']),
     (''customer_handover'', [''docs/en/install-operations-recovery.md'', ''src/rpr/diagnostics.py'', ''src/rpr/customer_handover.py'',
        ''tests/test_customer_handover.py'', ''.github/workflows/public-export-quality.yml''])]"

definition baseline_statuses :: "(pystr \<times> pystr) list" where
  "baseline_statuses = map (\<lambda>k. (str k, if k = ''bilingual_documents'' then str ''pending'' else str ''verified'')) dimensions"

definition build_baseline :: "pystr \<Rightarrow> pystr \<Rightarrow> acceptance_matrix res" where
  "build_baseline source holder = build_matrix source baseline_statuses baseline_evidence [] holder"

section \<open>The integration inventory\<close>

abbreviation inventory_error :: exn_kind where
  "inventory_error \<equiv> OtherException (str ''IntegrationInventoryError'')"

text \<open>\<open>set(v)\<close>, as the list of its members; \<open>v in s\<close>.\<close>

definition set_of :: "pv \<Rightarrow> pv list res" where
  "set_of v = rbind (py_iter v) (\<lambda>vs. if list_all hashable vs then Inr vs else err TypeError ''unhashable type'')"

definition in_set :: "pv list \<Rightarrow> pv \<Rightarrow> bool res" where
  "in_set vs v = (if \<not> hashable v then err TypeError ''unhashable type''
     else Inr (v \<noteq> PFloat FNan \<and> hash_key v \<in> set (map hash_key vs)))"

definition stripped :: "pyenv \<Rightarrow> pdict \<Rightarrow> string \<Rightarrow> pystr" where
  "stripped env d k = strip (py_str env (dget_default d (str k) (PStr [])))"

text \<open>\<open>[reference for reference in evidence if not (root / reference).is_file()]\<close>.\<close>

fun missing_references :: "repository \<Rightarrow> pv list \<Rightarrow> pystr list res" where
  "missing_references rp [] = Inr []"
| "missing_references rp (v # vs) = (case v of
       PStr s \<Rightarrow> rbind (missing_references rp vs) (\<lambda>ms. Inr (if rp_is_file rp (rp_place rp s) then ms else s # ms))
     | _ \<Rightarrow> err TypeError ''unsupported operand'')"

definition check_scenario :: "pyenv \<Rightarrow> repository \<Rightarrow> pv list \<Rightarrow> pv list \<Rightarrow> pystr list \<Rightarrow> pv \<Rightarrow> pystr res" where
  "check_scenario env rp classes statuses seen v = (case v of
       PDict d \<Rightarrow>
         (let name = stripped env d ''id''; class = dget_none d (str ''execution_class''); st = dget_none d (str ''status'') in
         rbind (check (name \<noteq> [] \<and> name \<notin> set seen) inventory_error ''missing or duplicate scenario id'') (\<lambda>_.
         rbind (in_set classes class) (\<lambda>known. rbind (check known inventory_error ''unknown execution class'') (\<lambda>_.
         rbind (in_set statuses st) (\<lambda>known. rbind (check known inventory_error ''unknown status'') (\<lambda>_.
         case dget_none d (str ''evidence'') of
           PList es \<Rightarrow>
             rbind (check (stripped env d ''residual_risk'' \<noteq> [] \<and> stripped env d ''next_phase'' \<noteq> []) inventory_error ''requires residual risk and next phase'') (\<lambda>_.
             rbind (check (st \<in> {PStr (str ''verified''), PStr (str ''partial'')} \<longrightarrow> es \<noteq> []) inventory_error ''requires retained evidence'') (\<lambda>_.
             rbind (missing_references rp es) (\<lambda>ms.
             rbind (check (ms = []) inventory_error ''evidence does not exist'') (\<lambda>_.
             rbind (check (class = PStr (str ''external_environment_only'') \<longrightarrow> st = PStr (str ''blocked''))
               inventory_error ''external-only scenario must remain blocked before Human Gate'') (\<lambda>_. Inr name)))))
         | _ \<Rightarrow> err inventory_error ''evidence must be a list''))))))
     | _ \<Rightarrow> Inl (Exn (OtherException (str ''AttributeError'')) []))"

fun check_scenarios :: "pyenv \<Rightarrow> repository \<Rightarrow> pv list \<Rightarrow> pv list \<Rightarrow> pystr list \<Rightarrow> pv list \<Rightarrow> unit res" where
  "check_scenarios env rp classes statuses seen [] = Inr ()"
| "check_scenarios env rp classes statuses seen (v # vs) =
     rbind (check_scenario env rp classes statuses seen v) (\<lambda>name. check_scenarios env rp classes statuses (name # seen) vs)"

definition scenario_field :: "pv \<Rightarrow> string \<Rightarrow> pv" where
  "scenario_field v k = (case v of PDict d \<Rightarrow> dget_none d (str k) | _ \<Rightarrow> PNone)"

definition freeze_allowed :: "pv list \<Rightarrow> bool" where
  "freeze_allowed vs \<longleftrightarrow> \<not> list_ex (\<lambda>v. scenario_field v ''execution_class'' = PStr (str ''executable'')
     \<and> scenario_field v ''status'' \<noteq> PStr (str ''verified'')) vs"

text \<open>\<open>sorted\<close> of a set: all texts, all numbers, or at most one member.\<close>

fun members :: "(rat + pv) list \<Rightarrow> pv list \<Rightarrow> pv list" where
  "members seen [] = []"
| "members seen (v # vs) = (if hash_key v \<in> set seen then members seen vs else v # members (hash_key v # seen) vs)"

definition sorted_set :: "pv list \<Rightarrow> pv list res" where
  "sorted_set vs = (let us = members [] vs in
     if length us \<le> 1 then Inr us
     else if list_all (\<lambda>v. case v of PStr _ \<Rightarrow> True | _ \<Rightarrow> False) us then Inr (sort_key text_of us)
     else if list_all (\<lambda>v. numeric v \<noteq> None) us then Inr (sort_key (\<lambda>v. the (numeric v)) us)
     else err TypeError ''not supported between instances'')"

text \<open>
  \<open>load_inventory\<close> of the parsed document: the document with its hash, the number of scenarios of
  each status and the decision.
\<close>

definition load_inventory :: "pyenv \<Rightarrow> repository \<Rightarrow> pv \<Rightarrow> pdict res" where
  "load_inventory env rp v = (case v of
       PDict d \<Rightarrow>
         rbind (set_of (dget_default d (str ''execution_classes'') (PTuple []))) (\<lambda>classes.
         rbind (set_of (dget_default d (str ''statuses'') (PTuple []))) (\<lambda>statuses.
         case dget_none d (str ''scenarios'') of
           PList vs \<Rightarrow>
             rbind (check (classes \<noteq> [] \<and> statuses \<noteq> [] \<and> vs \<noteq> []) inventory_error ''inventory registries and scenarios are required'') (\<lambda>_.
             rbind (check_scenarios env rp classes statuses [] vs) (\<lambda>_.
             rbind (canonical_bytes (float_repr env) (PDict d)) (\<lambda>b.
             rbind (sorted_set statuses) (\<lambda>ordered.
             Inr (dset (str ''candidate_freeze_allowed'') (PBool (freeze_allowed vs))
               (dset (str ''summary'') (PDict (map (\<lambda>s. (s, PInt (int (length (filter (\<lambda>v. py_equal (scenario_field v ''status'') s) vs))))) ordered))
               (dset (str ''inventory_sha256'') (PStr (sha256 env b)) d)))))))
         | _ \<Rightarrow> err inventory_error ''inventory registries and scenarios are required''))
     | _ \<Rightarrow> Inl (Exn (OtherException (str ''AttributeError'')) []))"

section \<open>Security reviews\<close>

record review_record =
  rv_type :: pystr
  rv_tool :: pystr
  rv_tool_version :: pystr
  rv_target :: pystr
  rv_status :: pystr
  rv_report_sha256 :: pystr
  rv_notes :: pystr

text \<open>\<open>report\<close> is the content of the file, \<open>None\<close> where there is no file.\<close>

definition record_review :: "pyenv \<Rightarrow> pystr \<Rightarrow> pystr \<Rightarrow> pystr \<Rightarrow> pystr \<Rightarrow> pystr \<Rightarrow> nat list option \<Rightarrow> pystr \<Rightarrow> review_record res" where
  "record_review env kind tool version target st report notes =
     (if st \<notin> set (map str [''passed'', ''failed'', ''needs_review'']) then err ValueError ''status must be one of the allowed''
      else case report of
        None \<Rightarrow> err OSError ''FileNotFoundError''
      | Some b \<Rightarrow> Inr \<lparr>rv_type = kind, rv_tool = tool, rv_tool_version = version, rv_target = target, rv_status = st,
          rv_report_sha256 = sha256 env b, rv_notes = notes\<rparr>)"

definition review_dict :: "review_record \<Rightarrow> pdict" where
  "review_dict r = obj [(''review_type'', PStr (rv_type r)), (''tool'', PStr (rv_tool r)), (''tool_version'', PStr (rv_tool_version r)),
     (''target'', PStr (rv_target r)), (''status'', PStr (rv_status r)), (''report_sha256'', PStr (rv_report_sha256 r)), (''notes'', PStr (rv_notes r))]"

definition review_key :: "review_record \<Rightarrow> pystr list" where
  "review_key r = [rv_type r, rv_tool r, rv_target r]"

text \<open>\<open>json.dumps(..., sort_keys=True, separators=(",", ":"))\<close>, with text outside ASCII escaped.\<close>

fun ascii_json :: "pv \<Rightarrow> pystr"
  and ascii_jsons :: "pv list \<Rightarrow> pystr"
  and ascii_items :: "pdict \<Rightarrow> pystr" where
  "ascii_json (PStr s) = ascii_text s"
| "ascii_json (PList vs) = 91 # ascii_jsons vs @ [93]"
| "ascii_json (PDict kvs) = 123 # ascii_items kvs @ [125]"
| "ascii_json v = []"
| "ascii_jsons [] = []"
| "ascii_jsons (v # vs) = ascii_json v @ (if vs = [] then [] else 44 # ascii_jsons vs)"
| "ascii_items [] = []"
| "ascii_items ((k, v) # kvs) = ascii_text (key_text k) @ 58 # ascii_json v @ (if kvs = [] then [] else 44 # ascii_items kvs)"

definition bundle_reviews :: "pyenv \<Rightarrow> review_record list \<Rightarrow> pdict res" where
  "bundle_reviews env rs =
     (let ordered = PList (map (\<lambda>r. PDict (review_dict r)) (sort_key review_key rs)) in
      rbind (canonical_doc ordered) (\<lambda>c. rbind (utf8_encode (ascii_json c)) (\<lambda>b.
        Inr (obj [(''format_version'', PInt 1), (''reviews'', ordered), (''bundle_sha256'', PStr (sha256 env b))]))))"

section \<open>What the documents say\<close>

lemma validate_roles_all: "validate_roles rp c ks = Inr u \<Longrightarrow> k \<in> set ks \<Longrightarrow> \<exists>r. role c k = Inr r \<and> validate_role rp r = Inr ()"
  by (induction ks) (auto simp: rbind_eq_Inr)

text \<open>An accepted handover has not approved itself, keeps every boundary, and every role's evidence is there.\<close>

lemma handover_contract:
  assumes "validate_handover rp c = Inr u"
  shows "hc_decision c = str ''ready_for_customer_review''" "list_all (flag (hc_boundaries c)) required_boundaries"
    "k \<in> set required_roles \<Longrightarrow> \<exists>r. map_of (hc_roles c) (str k) = Some r \<and> hr_evidence r \<noteq> []
       \<and> list_all (\<lambda>e. rp_is_file rp (rp_place rp e)) (hr_evidence r)"
proof -
  from assms have v: "hc_decision c = str ''ready_for_customer_review'' \<and> list_all (flag (hc_boundaries c)) required_boundaries
      \<and> validate_roles rp c required_roles = Inr ()"
    unfolding validate_handover_def rbind_eq_Inr check_simps by (elim exE conjE) simp
  then show "hc_decision c = str ''ready_for_customer_review''" "list_all (flag (hc_boundaries c)) required_boundaries" by auto
  assume k: "k \<in> set required_roles"
  from v validate_roles_all [OF _ k] obtain r where "role c k = Inr r" "validate_role rp r = Inr ()" by blast
  then show "\<exists>r. map_of (hc_roles c) (str k) = Some r \<and> hr_evidence r \<noteq> [] \<and> list_all (\<lambda>e. rp_is_file rp (rp_place rp e)) (hr_evidence r)"
    by (auto simp: role_def validate_role_def complete_def rbind_eq_Inr split: option.splits)
qed

lemma check_scenarios_all:
  "check_scenarios env rp classes statuses seen vs = Inr u \<Longrightarrow> v \<in> set vs \<Longrightarrow> \<exists>seen name. check_scenario env rp classes statuses seen v = Inr name"
  by (induction vs arbitrary: seen) (auto simp: rbind_eq_Inr)

lemma scenario_blocked:
  "check_scenario env rp classes statuses seen v = Inr name \<Longrightarrow> scenario_field v ''execution_class'' = PStr (str ''external_environment_only'') \<Longrightarrow>
     scenario_field v ''status'' = PStr (str ''blocked'')"
  by (cases v) (auto simp: check_scenario_def scenario_field_def Let_def rbind_eq_Inr case_Inr)

text \<open>A freeze is allowed exactly when every executable scenario is verified, and what needs an external environment is blocked.\<close>

lemma inventory_contract:
  assumes "load_inventory env rp v = Inr d'"
  shows "\<exists>d vs. v = PDict d \<and> dget_none d (str ''scenarios'') = PList vs
     \<and> dget_none d' (str ''candidate_freeze_allowed'') = PBool (\<forall>s \<in> set vs. scenario_field s ''execution_class'' = PStr (str ''executable'')
          \<longrightarrow> scenario_field s ''status'' = PStr (str ''verified''))
     \<and> (\<forall>s \<in> set vs. scenario_field s ''execution_class'' = PStr (str ''external_environment_only'') \<longrightarrow> scenario_field s ''status'' = PStr (str ''blocked''))"
proof -
  from assms obtain d vs classes statuses x where v: "v = PDict d" "dget_none d (str ''scenarios'') = PList vs"
    and c: "check_scenarios env rp classes statuses [] vs = Inr ()"
    and d': "d' = dset (str ''candidate_freeze_allowed'') (PBool (freeze_allowed vs)) x"
    by (cases v) (auto simp: load_inventory_def rbind_eq_Inr case_Inr)
  have "freeze_allowed vs \<longleftrightarrow> (\<forall>s \<in> set vs. scenario_field s ''execution_class'' = PStr (str ''executable'')
      \<longrightarrow> scenario_field s ''status'' = PStr (str ''verified''))"
    unfolding freeze_allowed_def list_ex_iff by blast
  moreover have "\<forall>s \<in> set vs. scenario_field s ''execution_class'' = PStr (str ''external_environment_only'') \<longrightarrow> scenario_field s ''status'' = PStr (str ''blocked'')"
    using check_scenarios_all [OF c] scenario_blocked by blast
  ultimately show ?thesis using v by (simp add: d' dget_none_def dget_dset)
qed

text \<open>The bundle does not depend on the order in which the reviews were made.\<close>

lemma bundle_reviews_order:
  assumes "mset rs = mset qs" "distinct (map review_key rs)"
  shows "bundle_reviews env rs = bundle_reviews env qs"
  unfolding bundle_reviews_def by (simp only: sort_key_permuted [OF assms])

text \<open>The baseline is accepted and waits for its bilingual documents, and for nothing else.\<close>

lemma map_of_str:
  "map_of (map (\<lambda>k. (str k, g k)) ks) (str k) = (if k \<in> set ks then Some (g k) else None)"
  "map_of (map (\<lambda>(k, es). (str k, f es)) kvs) (str k) = map_option f (map_of kvs k)"
  by (induction ks) (auto, induction kvs, auto)

lemma blank_str: "\<not> is_space (of_char c) \<Longrightarrow> \<not> blank (str (c # cs))"
  by (simp add: blank_iff str_def)

lemma baseline_evidence_complete:
  "k \<in> set dimensions \<Longrightarrow> k \<noteq> ''bilingual_documents'' \<Longrightarrow>
     \<exists>es. map_of baseline_evidence (str k) = Some es \<and> es \<noteq> [] \<and> list_all (\<lambda>e. \<not> blank e) es"
  unfolding baseline_evidence_def map_of_str dimensions_def
  by (simp only: list.set insert_iff empty_iff, elim disjE FalseE; simp add: blank_str is_space_def)

lemma validate_items_intro:
  "(\<And>k. k \<in> set ks \<Longrightarrow> \<exists>i. item m k = Inr i \<and> validate_item i = Inr ()) \<Longrightarrow> validate_items m ks = Inr ()"
proof (induction ks)
  case (Cons k ks)
  from Cons.prems [of k] obtain i where "item m k = Inr i" "validate_item i = Inr ()" by auto
  moreover have "validate_items m ks = Inr ()" by (rule Cons.IH) (use Cons.prems in auto)
  ultimately show ?case by simp
qed simp

lemma baseline_waits:
  assumes "\<not> blank source" "\<not> blank holder"
  shows "\<exists>m. build_baseline source holder = Inr m \<and> blocking_dimensions m = Inr [''bilingual_documents'']"
proof -
  define entry where "entry k = \<lparr>ai_status = (if k = ''bilingual_documents'' then str ''pending'' else str ''verified''),
      ai_evidence = (case map_of baseline_evidence (str k) of None \<Rightarrow> [] | Some e \<Rightarrow> e), ai_blocker = []\<rparr>" for k
  define m where "m = \<lparr>am_source_commit = source, am_items = map (\<lambda>k. (str k, entry k)) dimensions, am_residual_owner = holder\<rparr>"
  have i: "item m k = Inr (entry k)" if "k \<in> set dimensions" for k
    using that by (simp add: item_def m_def map_of_str(1))
  have "validate_item (entry k) = Inr ()" if "k \<in> set dimensions" for k
  proof (cases "k = ''bilingual_documents''")
    case True
    have "map_of baseline_evidence (str k) = None" unfolding baseline_evidence_def map_of_str True by simp
    then show ?thesis by (simp add: entry_def True validate_item_def check_def)
  next
    case False
    from baseline_evidence_complete [OF that False] obtain es where
      "map_of baseline_evidence (str k) = Some es" "es \<noteq> []" "list_all (\<lambda>e. \<not> blank e) es" by blast
    with False show ?thesis by (simp add: entry_def validate_item_def check_def)
  qed
  with i have items: "validate_items m dimensions = Inr ()" by (intro validate_items_intro) blast
  have keys: "set (map fst (am_items m)) = set (map str dimensions)" by (simp add: m_def image_image)
  have owner: "am_source_commit m = source" "am_residual_owner m = holder" by (simp_all add: m_def)
  have ok: "validate_matrix m = Inr ()"
    unfolding validate_matrix_def keys using assms items by (simp add: check_def owner)
  have "build_baseline source holder = Inr m"
  proof -
    have st: "set (map fst baseline_statuses) = set (map str dimensions)" by (simp add: baseline_statuses_def image_image)
    have ev: "set (map fst baseline_evidence) \<subseteq> set (map str dimensions)" by (simp add: baseline_evidence_def dimensions_def)
    have "map (\<lambda>k. (str k, \<lparr>ai_status = (case map_of baseline_statuses (str k) of None \<Rightarrow> [] | Some s \<Rightarrow> s),
        ai_evidence = (case map_of baseline_evidence (str k) of None \<Rightarrow> [] | Some e \<Rightarrow> e),
        ai_blocker = (case map_of [] (str k) of None \<Rightarrow> [] | Some b \<Rightarrow> b)\<rparr>)) dimensions = am_items m"
      unfolding m_def by (simp add: baseline_statuses_def map_of_str(1) entry_def)
    then show ?thesis
      using ok ev unfolding build_baseline_def build_matrix_def validate_input_keys_def st Let_def
      by (simp add: check_def m_def [symmetric]) (simp add: m_def)
  qed
  moreover have "blocking_dimensions m = Inr (filter (\<lambda>k. k = ''bilingual_documents'') dimensions)"
    using ok by (auto simp: blocking_dimensions_def status_of_def m_def map_of_str(1) entry_def intro!: filter_cong)
  moreover have "filter (\<lambda>k. k = ''bilingual_documents'') dimensions = [''bilingual_documents'']" by (simp add: dimensions_def)
  ultimately show ?thesis by simp
qed

end
