(* ===== verification/Rpr_Lifecycle.thy ===== *)
theory Rpr_Lifecycle
  imports Rpr_Backup Rpr_Migrations
begin

text \<open>
  The lifecycle acceptance (\<open>lifecycle_acceptance.py\<close>): a configuration and a fixture are read and checked,
  a database is made from the fixture, backed up, removed and restored (\<^theory_text>\<open>Rpr_Backup\<close>), and the evidence
  is written; a later step records the removal of the package. SQLite and the resolution of paths
  are arguments. The lemmas: a configuration stays inside its workspace, a rehearsal that returns
  has the rows it started with, and evidence is verified only for a removal that left nothing.
\<close>

section \<open>Configuration\<close>

record lifecycle_ops =
  lo_sqlite :: sqlite_ops
  lo_create :: "(int \<times> pystr) list \<Rightarrow> nat list \<Rightarrow> nat list \<times> unit res"
  lo_rows :: "nat list \<Rightarrow> (int \<times> pystr) list res"
  lo_resolve :: "pystr \<Rightarrow> path res"
  lo_place :: "path \<Rightarrow> pystr \<Rightarrow> path res"

record lifecycle_configuration =
  lc_format_version :: int
  lc_database_path :: pystr
  lc_backup_directory :: pystr
  lc_retention_mode :: pystr

definition exact_keys :: "string list \<Rightarrow> pdict \<Rightarrow> unit res" where
  "exact_keys ks d =
     rbind (check (list_all (\<lambda>k. dget d (str k) \<noteq> None) ks) LifecycleAcceptanceError ''missing fields'') (\<lambda>_.
       check (set (map fst d) \<subseteq> set (map (\<lambda>k. PStr (str k)) ks)) LifecycleAcceptanceError ''unknown fields'')"

text \<open>\<open>int(v)\<close>, and the handler around it.\<close>

definition int_value :: "pv \<Rightarrow> int res" where
  "int_value v = (case v of
       PInt i \<Rightarrow> Inr i
     | PBool b \<Rightarrow> Inr (if b then 1 else 0)
     | PFloat (FFin q) \<Rightarrow> Inr (if 0 \<le> q then \<lfloor>q\<rfloor> else \<lceil>q\<rceil>)
     | PFloat FNegZero \<Rightarrow> Inr 0
     | PFloat FNan \<Rightarrow> err ValueError ''cannot convert float NaN to integer''
     | PFloat (FInf _) \<Rightarrow> Inl (Exn (OtherException (str ''OverflowError'')) [])
     | PStr s \<Rightarrow> py_int s
     | _ \<Rightarrow> err TypeError ''int() argument must be a string or a number'')"

definition format_number :: "pv \<Rightarrow> int res" where
  "format_number v = (case int_value v of
       Inl e \<Rightarrow> (if catches [TypeError, ValueError] e then err LifecycleAcceptanceError ''format version must be an integer'' else Inl e)
     | Inr i \<Rightarrow> Inr i)"

definition validate_configuration :: "lifecycle_configuration \<Rightarrow> unit res" where
  "validate_configuration c =
     rbind (check (lc_format_version c = 1) LifecycleAcceptanceError ''unsupported configuration format'') (\<lambda>_.
     rbind (check (\<not> blank (lc_database_path c) \<and> \<not> blank (lc_backup_directory c)) LifecycleAcceptanceError ''database and backup paths are required'') (\<lambda>_.
       check (lc_retention_mode c = str ''preserve_customer_data'') LifecycleAcceptanceError ''unsupported retention mode''))"

definition configuration_from_mapping :: "pyenv \<Rightarrow> pdict \<Rightarrow> lifecycle_configuration res" where
  "configuration_from_mapping env d =
     rbind (exact_keys [''format_version'', ''database_path'', ''backup_directory'', ''retention_mode''] d) (\<lambda>_.
     rbind (format_number (dget_none d (str ''format_version''))) (\<lambda>n.
     let c = \<lparr>lc_format_version = n, lc_database_path = py_str env (dget_none d (str ''database_path'')),
        lc_backup_directory = py_str env (dget_none d (str ''backup_directory'')),
        lc_retention_mode = py_str env (dget_none d (str ''retention_mode''))\<rparr> in
     rbind (validate_configuration c) (\<lambda>_. Inr c)))"

text \<open>\<open>base\<close> is resolved; \<open>lo_place base text\<close> is \<open>(base / text).resolve()\<close>.\<close>

definition resolve_configuration :: "lifecycle_ops \<Rightarrow> lifecycle_configuration \<Rightarrow> path \<Rightarrow> (path \<times> path) res" where
  "resolve_configuration io c base =
     rbind (validate_configuration c) (\<lambda>_.
     rbind (lo_place io base (lc_database_path c)) (\<lambda>database.
     rbind (lo_place io base (lc_backup_directory c)) (\<lambda>backups.
     rbind (check (strict_prefix base database \<and> strict_prefix base backups) LifecycleAcceptanceError ''configuration paths must remain inside workspace'') (\<lambda>_.
     rbind (check (\<not> prefix database backups \<and> \<not> prefix backups database) LifecycleAcceptanceError ''database and backup paths must be separate'') (\<lambda>_.
       Inr (database, backups))))))"

text \<open>Reading a JSON object; a decoding error is no \<open>OSError\<close> and no \<open>JSONDecodeError\<close>.\<close>

definition load_object :: "(rat \<Rightarrow> pfloat) \<Rightarrow> path \<Rightarrow> (files, pdict) py" where
  "load_object rf p = bnd (handle (catches [OSError, JSONDecodeError]) (bnd (read_file p) (\<lambda>b. lift (loads_bytes rf b)))
       (\<lambda>_. raise LifecycleAcceptanceError ''cannot be read''))
     (\<lambda>v. case v of PDict d \<Rightarrow> ret d | _ \<Rightarrow> raise LifecycleAcceptanceError ''root must be an object'')"

definition load_configuration :: "pyenv \<Rightarrow> (rat \<Rightarrow> pfloat) \<Rightarrow> path \<Rightarrow> (files, lifecycle_configuration) py" where
  "load_configuration env rf p = bnd (load_object rf p) (\<lambda>d. lift (configuration_from_mapping env d))"

section \<open>The upgrade fixture\<close>

text \<open>\<open>isinstance(event_id, int)\<close> holds of a \<open>bool\<close>, which is kept as a number.\<close>

definition event_number :: "pv \<Rightarrow> int option" where
  "event_number v = (case v of PInt i \<Rightarrow> Some i | PBool b \<Rightarrow> Some (if b then 1 else 0) | _ \<Rightarrow> None)"

definition fixture_row :: "int list \<Rightarrow> pv \<Rightarrow> (int \<times> pystr) res" where
  "fixture_row seen v = (case v of
       PDict r \<Rightarrow>
         rbind (check (set (map fst r) = {PStr (str ''event_id''), PStr (str ''payload'')}) LifecycleAcceptanceError ''row is malformed'') (\<lambda>_.
         case event_number (dget_none r (str ''event_id'')) of
           None \<Rightarrow> err LifecycleAcceptanceError ''row has invalid event_id''
         | Some i \<Rightarrow>
             rbind (check (0 < i \<and> i \<notin> set seen) LifecycleAcceptanceError ''row has invalid event_id'') (\<lambda>_.
             case dget_none r (str ''payload'') of
               PStr s \<Rightarrow> rbind (check (s \<noteq> []) LifecycleAcceptanceError ''row has invalid payload'') (\<lambda>_. Inr (i, s))
             | _ \<Rightarrow> err LifecycleAcceptanceError ''row has invalid payload''))
     | _ \<Rightarrow> err LifecycleAcceptanceError ''row is malformed'')"

fun fixture_rows :: "int list \<Rightarrow> pv list \<Rightarrow> (int \<times> pystr) list res" where
  "fixture_rows seen [] = Inr []"
| "fixture_rows seen (v # vs) = rbind (fixture_row seen v) (\<lambda>r. rbind (fixture_rows (fst r # seen) vs) (\<lambda>rs. Inr (r # rs)))"

definition parse_fixture :: "pdict \<Rightarrow> (int \<times> pystr \<times> (int \<times> pystr) list) res" where
  "parse_fixture d =
     rbind (exact_keys [''format_version'', ''schema'', ''rows''] d) (\<lambda>_.
     rbind (format_number (dget_none d (str ''format_version''))) (\<lambda>n.
     rbind (check (n = 1) LifecycleAcceptanceError ''unsupported upgrade fixture format'') (\<lambda>_.
     let schema = dget_none d (str ''schema'') in
     rbind (check (hashable schema) TypeError ''unhashable type'') (\<lambda>_.
     rbind (check (schema = PStr (str ''lifecycle_events_v1'')) LifecycleAcceptanceError ''unsupported upgrade fixture schema'') (\<lambda>_.
     case dget_none d (str ''rows'') of
       PList vs \<Rightarrow>
         rbind (check (vs \<noteq> []) LifecycleAcceptanceError ''upgrade fixture rows must be a non-empty array'') (\<lambda>_.
         rbind (fixture_rows [] vs) (\<lambda>rows. Inr (n, str ''lifecycle_events_v1'', rows)))
     | _ \<Rightarrow> err LifecycleAcceptanceError ''upgrade fixture rows must be a non-empty array'')))))"

definition load_upgrade_fixture :: "(nat list \<Rightarrow> pystr) \<Rightarrow> (rat \<Rightarrow> pfloat) \<Rightarrow> path
    \<Rightarrow> (files, int \<times> pystr \<times> (int \<times> pystr) list \<times> pystr) py" where
  "load_upgrade_fixture hash rf p = bnd (load_object rf p) (\<lambda>d. bnd (lift (parse_fixture d)) (\<lambda>(n, schema, rows).
     bnd (file_sha256 hash p) (\<lambda>h. ret (n, schema, rows, h))))"

section \<open>The rehearsal\<close>

definition rows_bytes :: "pyenv \<Rightarrow> (int \<times> pystr) list \<Rightarrow> nat list res" where
  "rows_bytes env rows = utf8_encode (json_text (float_repr env) (PList (map (\<lambda>(i, s). PList [PInt i, PStr s]) rows)))"

definition database_digest :: "lifecycle_ops \<Rightarrow> pyenv \<Rightarrow> path \<Rightarrow> (files, pystr) py" where
  "database_digest io env p = bnd (open_database p) (\<lambda>b.
     lift (rbind (lo_rows io b) (\<lambda>rows. rbind (rows_bytes env rows) (\<lambda>t. Inr (sha256 env t)))))"

definition materialize_fixture :: "lifecycle_ops \<Rightarrow> path \<Rightarrow> (int \<times> pystr) list \<Rightarrow> (files, unit) py" where
  "materialize_fixture io p rows = bnd (path_exists p) (\<lambda>e.
     if e then raise LifecycleAcceptanceError ''upgrade fixture target already exists''
     else seq (make_folders (butlast p)) (bnd (open_database p) (\<lambda>b.
       disk_step (\<lambda>s. case lo_create io rows b of (c, r) \<Rightarrow> (r, put_entry p (Some (File c)) s)))))"

text \<open>\<open>unlink()\<close> of a file that must be there.\<close>

definition remove_file :: "path \<Rightarrow> (files, unit) py" where
  "remove_file p = bnd (is_file p) (\<lambda>f. if \<not> f then raise OSError ''no such file'' else unlink p)"

text \<open>From the fixture on: the manifest, its one artifact and the digest before and after.\<close>

definition rehearse_restore :: "lifecycle_ops \<Rightarrow> pyenv \<Rightarrow> pystr \<Rightarrow> (int \<times> pystr) list \<Rightarrow> path \<Rightarrow> path
    \<Rightarrow> (files, backup_manifest \<times> backup_artifact \<times> pystr \<times> pystr) py" where
  "rehearse_restore io env now_text rows database backups =
     seq (materialize_fixture io database rows) (
     bnd (database_digest io env database) (\<lambda>before.
     bnd (backup_sqlite_set (lo_sqlite io) env (lo_resolve io) now_text [(str ''runtime'', path_text database)] (path_text backups)) (\<lambda>m.
     bnd (case bm_artifacts m of [] \<Rightarrow> raise (OtherException (str ''IndexError'')) ''tuple index out of range'' | a # _ \<Rightarrow> ret a) (\<lambda>a.
     seq (remove_file database) (
     bnd (restore_sqlite_backup (lo_sqlite io) (sha256 env) (lo_resolve io) (ba_backup a) (path_text database) (ba_sha256 a) False) (\<lambda>restored.
     bnd (database_digest io env restored) (\<lambda>after.
       if before \<noteq> after then raise LifecycleAcceptanceError ''restored customer data does not match source''
       else ret (m, a, before, after))))))))"

definition configuration_dict :: pdict where
  "configuration_dict = obj [(''format_version'', PInt 1), (''database_path'', PStr (str ''customer-data/runtime.sqlite3'')),
     (''backup_directory'', PStr (str ''customer-backups'')), (''retention_mode'', PStr (str ''preserve_customer_data''))]"

definition acceptance_document :: "pystr \<Rightarrow> lifecycle_configuration \<Rightarrow> int \<times> pystr \<times> (int \<times> pystr) list \<times> pystr
    \<Rightarrow> backup_manifest \<times> backup_artifact \<times> pystr \<times> pystr \<Rightarrow> bool \<Rightarrow> bool \<Rightarrow> pdict" where
  "acceptance_document source c fixture run kept stored = (case fixture of (n, schema, rows, h) \<Rightarrow> case run of (m, a, before, after) \<Rightarrow> obj
     [(''source_commit'', PStr source),
      (''configuration'', PDict (obj [(''format_version'', PInt (lc_format_version c)), (''compatible'', PBool True),
         (''retention_mode'', PStr (lc_retention_mode c))])),
      (''upgrade_fixture'', PDict (obj [(''previous_candidate_format'', PInt n), (''schema'', PStr schema), (''fixture_sha256'', PStr h),
         (''row_count'', PInt (int (length rows))), (''accepted_by_candidate'', PBool True)])),
      (''backup_restore'', PDict (obj [(''manifest'', PDict (backup_manifest_dict m)), (''source_digest'', PStr before),
         (''restored_digest'', PStr after), (''content_equal'', PBool True)])),
      (''removal'', PDict (obj [(''package_removed'', PBool False), (''customer_data_preserved'', PBool kept), (''backup_preserved'', PBool stored)])),
      (''decision'', PStr (str ''awaiting_removal_verification''))])"

text \<open>The document is written beside its folder's creation and returned.\<close>

definition write_document :: "pyenv \<Rightarrow> path \<Rightarrow> pdict \<Rightarrow> (files, unit) py" where
  "write_document env p d = bnd (lift (indented_bytes (float_repr env) d)) (\<lambda>b. write_file_text p b)"

definition run_lifecycle_acceptance :: "lifecycle_ops \<Rightarrow> pyenv \<Rightarrow> (rat \<Rightarrow> pfloat) \<Rightarrow> pystr \<Rightarrow> pystr \<Rightarrow> pystr \<Rightarrow> pystr \<Rightarrow> pystr
    \<Rightarrow> (files, pdict) py" where
  "run_lifecycle_acceptance io env rf now_text workspace report source fixture =
     seq (lift (check (\<not> blank source) LifecycleAcceptanceError ''source commit is required'')) (
     bnd (lift (lo_resolve io workspace)) (\<lambda>base.
     seq (make_folders base) (
     let config_path = base @ [str ''rpr-config-v1.json''] in
     seq (write_document env config_path configuration_dict) (
     bnd (load_configuration env rf config_path) (\<lambda>c.
     bnd (lift (resolve_configuration io c base)) (\<lambda>(database, backups).
     bnd (lift (lo_resolve io fixture)) (\<lambda>p.
     bnd (load_upgrade_fixture (sha256 env) rf p) (\<lambda>f.
     bnd (rehearse_restore io env now_text (fst (snd (snd f))) database backups) (\<lambda>run.
     bnd (is_file database) (\<lambda>kept.
     bnd (lift (lo_resolve io (ba_backup (fst (snd run))))) (\<lambda>b.
     bnd (is_file b) (\<lambda>stored.
     let d = acceptance_document source c f run kept stored in
     bnd (lift (lo_resolve io report)) (\<lambda>target.
     seq (make_folders (butlast target)) (
     seq (write_document env target d) (ret d)))))))))))))))"

section \<open>The removal\<close>

definition removal_complete :: "bool \<Rightarrow> bool \<Rightarrow> pystr list \<Rightarrow> pdict \<Rightarrow> bool" where
  "removal_complete package cli residue removal \<longleftrightarrow> package \<and> cli \<and> residue = []
     \<and> dget_none removal (str ''customer_data_preserved'') = PBool True \<and> dget_none removal (str ''backup_preserved'') = PBool True"

definition updated_removal :: "bool \<Rightarrow> bool \<Rightarrow> pystr list \<Rightarrow> pdict \<Rightarrow> pdict" where
  "updated_removal package cli residue r = dset (str ''residue_paths'') (PList (map PStr residue))
     (dset (str ''cli_removed'') (PBool cli) (dset (str ''package_removed'') (PBool package) r))"

definition finalize_removal_evidence :: "pyenv \<Rightarrow> (rat \<Rightarrow> pfloat) \<Rightarrow> path \<Rightarrow> bool \<Rightarrow> bool \<Rightarrow> pystr list \<Rightarrow> (files, pdict) py" where
  "finalize_removal_evidence env rf p package cli residue =
     bnd (load_object rf p) (\<lambda>d. case dget_none d (str ''removal'') of
       PDict r \<Rightarrow>
         (let r' = updated_removal package cli residue r; complete = removal_complete package cli residue r';
              d' = dset (str ''decision'') (PStr (if complete then str ''verified'' else str ''hold'')) (dset (str ''removal'') (PDict r') d) in
          seq (write_document env p d') (
            if complete then ret d' else raise LifecycleAcceptanceError ''removal verification did not pass''))
     | _ \<Rightarrow> raise LifecycleAcceptanceError ''removal evidence is malformed'')"

section \<open>What a rehearsal shows\<close>

lemma bnd_Inr: "bnd m f s = (Inr b, t) \<longleftrightarrow> (\<exists>a u. m s = (Inr a, u) \<and> f a u = (Inr b, t))"
  and seq_Inr: "seq m n s = (Inr b, t) \<longleftrightarrow> (\<exists>a u. m s = (Inr a, u) \<and> n u = (Inr b, t))"
  by (auto simp: bnd_def seq_def split: prod.splits sum.splits)

lemma resolve_inside:
  "resolve_configuration io c base = Inr (database, backups) \<Longrightarrow>
     strict_prefix base database \<and> strict_prefix base backups \<and> \<not> prefix database backups \<and> \<not> prefix backups database"
  by (auto simp: resolve_configuration_def rbind_eq_Inr)

lemma digest_of_database:
  assumes "database_digest io env p s = (Inr h, t)" "file_at s p = Some b"
  shows "file_at t = file_at s \<and> (\<exists>rows x. lo_rows io b = Inr rows \<and> rows_bytes env rows = Inr x \<and> h = sha256 env x)"
proof -
  have "wp (open_database p) (\<lambda>c t. c = b \<and> file_at t = file_at s) (\<lambda>_ _. True) s"
    by (rule wp_open_database) (use assms(2) in auto)
  with assms(1) show ?thesis
    unfolding database_digest_def bnd_Inr by (auto simp: wp_def rbind_eq_Inr)
qed

text \<open>
  A rehearsal that returns ends with a sound database at the configured place, and its rows have the
  digest of the rows before the backup.
\<close>

theorem rehearsal_restores:
  assumes run: "rehearse_restore io env now_text rows database backups s = (Inr (m, a, before, after), t)"
    and paths: "lo_resolve io (ba_backup a) = Inr source" "lo_resolve io (path_text database) = Inr database" "source \<noteq> temporary_of database"
  shows "before = after \<and> (\<exists>c rows' x. file_at t database = Some c \<and> sq_integrity (lo_sqlite io) c = Inr (str ''ok'')
     \<and> lo_rows io c = Inr rows' \<and> rows_bytes env rows' = Inr x \<and> before = sha256 env x)"
proof -
  from run obtain u v restored where
    r: "restore_sqlite_backup (lo_sqlite io) (sha256 env) (lo_resolve io) (ba_backup a) (path_text database) (ba_sha256 a) False u = (Inr restored, v)"
    and d: "database_digest io env restored v = (Inr after, t)" and same: "before = after"
    unfolding rehearse_restore_def seq_Inr bnd_Inr by (auto split: if_splits)
  from r paths(1,2) have "restore_file (lo_sqlite io) (sha256 env) source database (ba_sha256 a) False u = (Inr restored, v)"
    by (simp add: restore_sqlite_backup_def bnd_def)
  moreover have "wp (restore_file (lo_sqlite io) (sha256 env) source database (ba_sha256 a) False)
      (\<lambda>p v. p = database \<and> (\<exists>c. file_at v database = Some c \<and> sq_integrity (lo_sqlite io) c = Inr (str ''ok''))) (\<lambda>_ _. True) u"
    by (rule wp_restore_file [OF paths(3)]) auto
  ultimately obtain c where c: "restored = database" "file_at v database = Some c" "sq_integrity (lo_sqlite io) c = Inr (str ''ok'')"
    by (auto simp: wp_def)
  from digest_of_database [OF d [unfolded c(1)] c(2)] c same show ?thesis by auto
qed

text \<open>Evidence is verified only for a removal that left nothing, with the data and the backup still there.\<close>

lemma removal_verified:
  assumes "finalize_removal_evidence env rf p package cli residue s = (Inr d, t)"
  shows "package \<and> cli \<and> residue = [] \<and> dget_none d (str ''decision'') = PStr (str ''verified'')
     \<and> (\<exists>r. dget_none d (str ''removal'') = PDict r \<and> dget_none r (str ''customer_data_preserved'') = PBool True
          \<and> dget_none r (str ''backup_preserved'') = PBool True)"
proof -
  have get: "dget_none (dset k v e) k' = (if k = k' then v else dget_none e k')" for k v e k' by (simp add: dget_none_def dget_dset)
  from assms obtain e u where e: "(case dget_none e (str ''removal'') of
       PDict r \<Rightarrow> (let r' = updated_removal package cli residue r; complete = removal_complete package cli residue r';
              d' = dset (str ''decision'') (PStr (if complete then str ''verified'' else str ''hold'')) (dset (str ''removal'') (PDict r') e) in
          seq (write_document env p d') (
            if complete then ret d' else raise LifecycleAcceptanceError ''removal verification did not pass''))
     | _ \<Rightarrow> raise LifecycleAcceptanceError ''removal evidence is malformed'') u = (Inr d, t)"
    unfolding finalize_removal_evidence_def bnd_Inr by blast
  then obtain r where r: "dget_none e (str ''removal'') = PDict r" by (cases "dget_none e (str ''removal'')") auto
  with e have "removal_complete package cli residue (updated_removal package cli residue r)"
    "d = dset (str ''decision'') (PStr (str ''verified'')) (dset (str ''removal'') (PDict (updated_removal package cli residue r)) e)"
    by (auto simp: Let_def seq_Inr split: if_splits)
  then show ?thesis by (auto simp: get removal_complete_def)
qed

end
