(* ===== verification/Spec2Isabelle.thy ===== *)
theory Spec2Isabelle
  imports Rpr_Demo Rpr_Claims Rpr_Article50 Rpr_Identity Rpr_Tenant Rpr_Outbox Rpr_Mcp Rpr_Contracts Rpr_Executors Rpr_Migrations Rpr_Progress Rpr_Reconcile Rpr_Subprocess Rpr_Retained Rpr_ReadModel Rpr_Diagnostics Rpr_Release Rpr_Connection Rpr_Backup Rpr_Assurance Rpr_Handover Rpr_Lifecycle
begin

text \<open>
  Verification library of the Responsibility Pathway Runtime (package \<open>rpr\<close>, \<open>src/src/rpr\<close>).

  \<^bold>\<open>The program.\<close> A consequential action of an agent goes through a \<^emph>\<open>pathway\<close>: a document that names who
  requests, approves, executes, stops, repairs and keeps the residual responsibility. The runtime
  (\<open>runtime.py\<close>, \<open>repair.py\<close>) stores pathways and a hash-chained log of evidence events in one SQLite
  file (\<open>storage.py\<close>, \<open>evidence.py\<close>), the attempts to execute them in another (\<open>attempts.py\<close>), moves
  a pathway along a fixed state machine (\<open>_generated_transitions.py\<close>) on the authority of the actors
  its document names (\<open>authority.py\<close>), asks a policy engine at registration (\<open>rpe.py\<close>), and hands a
  request to an executor at most once: to local files or HTTP (\<open>executor.py\<close>, \<open>http_executor.py\<close>), to
  a message outbox (\<open>message_executor.py\<close>), or to a tool of an MCP server behind a subprocess
  (\<open>mcp_*.py\<close>). Around it stand the tenant boundary (\<open>tenant.py\<close>), principals and token claims
  (\<open>principal.py\<close>, \<open>identity.py\<close>), claims and the Article 50 gate, diagnostics, a read-only MCP
  server over a database file, backup and restore, and the documents a release is decided on.

  \<^bold>\<open>How the code is rendered.\<close> A class is a record of its state and one definition per method; an
  enumeration is a datatype; a \<open>str\<close> is the list of its code points (\<open>pystr\<close>), \<open>bytes\<close> a list of
  numbers below 256; a value of type \<open>Any\<close> is a \<open>pv\<close>, a dict an association list in insertion order; an
  \<open>int\<close> is unbounded. A method that reads and writes state is a computation
  \<open>('s, 'a) py\<close>: from a state to a result or the exception that was raised, and the state left
  behind. Exceptions are the datatype \<open>exn_kind\<close> with its class hierarchy \<open>mro\<close>; \<open>handle\<close> is \<open>try/except\<close>.
  Every SQLite transaction is one step that a fault schedule can let fail or stop the process
  before; \<open>Crash\<close> (and with it \<open>KeyboardInterrupt\<close>) is a stop that no handler sees. Messages of
  exceptions are abbreviated where nothing compares them.

  \<^bold>\<open>The theories, from the bottom.\<close>
  \<^item> \<open>Rpr_Prelude\<close>: strings, exceptions, computations, faults and the weakest-precondition rules
    (collection \<open>wp\<close>) that the component proofs apply. \<open>Rpr_Values\<close>: Python values, UTF-8 and
    \<open>json.dumps\<close>; \<open>Rpr_Parse\<close>: \<open>json.loads\<close> and UTF-8 decoding; \<open>Rpr_StrictJson\<close>: the bounded identity
    copy of \<open>attempts.py\<close>. Their main lemmas: the text of a document determines it, and parsing
    reads back what was written.
  \<^item> \<open>Rpr_Models\<close> (\<open>models.py\<close>, the types of \<open>executor.py\<close>), \<open>Rpr_Authority\<close> (\<open>_generated_transitions.py\<close>,
    \<open>state_machine.py\<close>, \<open>authority.py\<close>, \<open>routing.py\<close>, \<open>route_visibility.py\<close>), \<open>Rpr_Inspection\<close>, \<open>Rpr_Redaction\<close>,
    \<open>Rpr_Evidence\<close>, \<open>Rpr_Principal\<close>, \<open>Rpr_Rpe\<close>: the modules of these names.
  \<^item> \<open>Rpr_Registry\<close>: the interface of a table that replays a known key, refuses a key with other data
    and inserts a new one; interpreted for the attempt ledger (\<open>Rpr_Attempts\<close>), the pathway table
    (\<open>Rpr_Storage\<close>) and the outbox (\<open>Rpr_Outbox\<close>). \<open>Rpr_Storage\<close> also interprets the interface of an
    append-only log for its two ways to record an event.
  \<^item> \<open>Rpr_Runtime\<close> and \<open>Rpr_Execution\<close>: every method of \<open>runtime.py\<close>, \<open>reconciliation.py\<close> and \<open>repair.py\<close>,
    guard by guard. An executor is any function on the world, in particular one that calls the
    runtime again. \<open>dispatches\<close> is a ghost log of what was handed to an executor.
  \<^item> \<open>Rpr_System\<close>, \<open>Rpr_Commits\<close>: the abstract specification, a relation of atomic commits with its
    invariants; \<open>Rpr_Refinement\<close>, \<open>Rpr_Dispatch\<close>: every method is a sequence of commits; \<open>Rpr_Safety\<close>: the
    reachable worlds, closed under calls by anybody with any arguments, in any order, with
    faults, stops and reentrant executors; \<open>Rpr_Outcomes\<close>, \<open>Rpr_Executions\<close>,
    \<open>Rpr_Reconcile\<close>: the contract of each method;
    \<open>Rpr_Progress\<close>: an approved attempt completes when nothing fails; \<open>Rpr_Demo\<close>: concrete runs.
  \<^item> \<open>Rpr_Claims\<close> (\<open>epistemic_claims.py\<close>, \<open>launch_claims.py\<close>), \<open>Rpr_Article50\<close>, \<open>Rpr_Identity\<close> (\<open>identity.py\<close>,
    \<open>compensation.py\<close>), \<open>Rpr_Tenant\<close>, \<open>Rpr_Outbox\<close>, \<open>Rpr_Diagnostics\<close>: the modules around the runtime.
  \<^item> \<open>Rpr_Migrations\<close>: the creation and upgrade of the four database files.
  \<^item> \<open>Rpr_Framing\<close>, \<open>Rpr_Channel\<close>, \<open>Rpr_Subprocess\<close>, \<open>Rpr_Admission\<close>, \<open>Rpr_Mcp\<close>, \<open>Rpr_Retained\<close>: the MCP stack,
    from the bytes of a pipe to the retained record of a call. \<open>Rpr_ReadModel\<close>: \<open>mcp_read_model.py\<close> and
    \<open>mcp_server.py\<close>.
  \<^item> \<open>Rpr_Executors\<close> (\<open>executor.py\<close>, \<open>http_executor.py\<close>, \<open>agent_adapters.py\<close>), \<open>Rpr_Connection\<close>
    (\<open>read_only_connection.py\<close>), \<open>Rpr_Backup\<close> (\<open>backup.py\<close>).
  \<^item> \<open>Rpr_Release\<close> (\<open>source_context.py\<close>, \<open>release_gate.py\<close>, \<open>candidate_readiness.py\<close>, \<open>delivery_acceptance.py\<close>) and
    \<open>Rpr_Assurance\<close> (\<open>assurance_manifest.py\<close>, \<open>claim_traceability.py\<close>, \<open>mcp_compatibility.py\<close>).
    \<open>Rpr_Handover\<close> (\<open>customer_handover.py\<close>, \<open>delivery_acceptance_baseline.py\<close>,
    \<open>integration_acceptance_inventory.py\<close>, \<open>security_review.py\<close>) and \<open>Rpr_Lifecycle\<close>
    (\<open>lifecycle_acceptance.py\<close>, over \<open>Rpr_Backup\<close>).
  \<^item> \<open>Rpr_Contracts\<close>: contracts that combine components; this theory: the properties of the runtime as a
    whole.

  \<^bold>\<open>What the properties show.\<close> Over every reachable world: no attempt is dispatched twice, and only
  with an approval by the declared authority in the evidence and by the execution actor; the stored
  evidence verifies and is only appended to; a pathway follows the state machine. Per call: what
  a result says of the stored data, and that an error leaves it as it was. The runtime refines the
  commit system. The tenant boundary isolates, the outbox sends a key once, an upgraded file keeps
  its rows and replays them, a restore is all or nothing and brings back what was backed up.
  The codec and the channel are bounded whatever the peer sends, frames round-trip under any
  cutting into chunks, a prepared tool call is sent as admitted and at most once, a shutdown closes
  every pipe that is open, and the inspection server never writes.

  \<^bold>\<open>Bounds and fuel.\<close> The parser of \<open>json.loads\<close> takes \<open>2 * length + 1\<close> rounds of fuel; \<open>Rpr_Parse\<close>
  proves that more never changes its result. The loops of the channel, of the codec and of the strict copy are
  structural or end by the budgets of the code itself (events, bytes, nodes, depth); the write loop
  is shown to take at most as many rounds as there are bytes. The server loop recurses over the lines
  of its input.

  \<^bold>\<open>Parameters.\<close> SHA-256, \<open>float.__repr__\<close> and \<open>repr\<close> of containers, the reading of numeric texts,
  clocks, \<open>urlparse\<close> and the parser of internet addresses, the policy engine, token verifiers, transports, the
  network, file systems, the operating system under a subprocess, SQLite's copy and integrity
  check, and the executors a caller supplies are arguments. A hypothesis on one of them states documented
  behaviour (a float's text is injective, a copied database has the content of its source) and is
  met by a concrete function in a witness. No property assumes that the hash is injective: where
  two inputs with one hash matter, the property names the byte strings that were hashed for the events
  at hand, and speaks of a collision among these only.

  \<^bold>\<open>Where the model is coarser than the code.\<close> A SQLite transaction is atomic and there is one writer at
  a time; the locks are not modelled. Stored documents are kept parsed, except in \<open>Rpr_Migrations\<close> and
  \<open>Rpr_ReadModel\<close>, which work on the text of the columns. A dict key that is no \<open>str\<close> makes \<open>json.dumps\<close>
  raise \<open>TypeError\<close>; integers of more than 4300 digits, the recursion limit of the interpreter and cyclic containers
  do not occur (so neither does the \<open>RecursionError\<close> of \<open>json.loads\<close>, which the codec does not catch). \<open>lower\<close>, \<open>upper\<close> and \<open>casefold\<close> are exact where a result is compared with ASCII text,
  \<open>int(text)\<close> reads ASCII digits. Time-stamp columns are kept only where the code reads them.
  A file write that is interrupted midway is not split, the files that SQLite keeps beside a database
  (journal, WAL) are not modelled, and neither are the redirects that \<open>urlopen\<close> follows.

  \<^bold>\<open>Not modelled.\<close> The command line entry points; \<open>rc_execution.py\<close> (virtual environments and
  subprocesses); \<open>formal_consistency.py\<close> and \<open>canonical_transition_spec.py\<close> (regular expressions over a Lean
  file and a JSON file; the table itself is modelled); the walks over files and archives in
  \<open>hash_bundle.py\<close>, \<open>clean_export.py\<close>, \<open>release_audit.py\<close>, \<open>sbom.py\<close> and \<open>dependency_inventory.py\<close>;
  \<open>tools\<close>, \<open>site\<close> and \<open>examples\<close> (scripts and example callers). They keep no state that the modelled parts read.
\<close>

section \<open>The runtime as a whole\<close>

text \<open>
  C1. No attempt is handed to an executor twice. In every world that the methods of the
  runtime can reach, with any arguments, in any order, with storage faults and process stops
  at any statement and with executors that call back into the runtime, the attempts in the
  dispatch log are pairwise different.
\<close>
theorem dispatched_at_most_once:
  assumes "policy_ok (cpolicy cfg)" "reachable cfg w"
  shows "distinct (map dp_attempt (wdispatched w))"
  using reachable_inv [OF assms(2,1)] by (simp add: inv_def dispatches_ok_def)

theorem dispatched_at_most_once_witness:
  "map dp_attempt (wdispatched demo_executed) = [str ''a1'']
    \<and> distinct (map dp_attempt (wdispatched demo_executed))"
  using dispatched_at_most_once [OF demo_policy demo_executed_reachable]
  by (simp add: demo_dispatched)

text \<open>
  C2. Every dispatch was authorised: its attempt is recorded in the ledger for its pathway,
  the pathway is registered and past its first start, the actor is the execution actor of the
  registered definition, and where the definition names an approval authority the pathway's
  evidence contains the approval by that authority.
\<close>
theorem dispatch_authorised:
  assumes "policy_ok (cpolicy cfg)" "reachable cfg w" "d \<in> set (wdispatched w)"
  shows "(\<exists>att \<in> set (attempts (wledger w)).
      at_attempt_id att = dp_attempt d \<and> at_pathway_id att = dp_pathway d)
    \<and> (\<exists>r \<in> set (pathways (wstore w)). \<exists>def. row_id r = dp_pathway d \<and> \<not> before_run (row_state r)
      \<and> definition_of cfg r = Some def \<and> dp_actor d = execution_actor def
      \<and> (approval_authority def = None
         \<or> (\<exists>e \<in> set (events_of (wstore w) (dp_pathway d)). approval_event def e)))"
  using reachable_inv [OF assms(2,1)] assms(3)
  by (auto simp: inv_def dispatches_ok_def dispatch_ok_def)

theorem dispatch_authorised_witness:
  "\<exists>d \<in> set (wdispatched demo_executed). dp_attempt d = str ''a1''
    \<and> (\<exists>att \<in> set (attempts (wledger demo_executed)). at_attempt_id att = str ''a1''
         \<and> at_pathway_id att = str ''p'')
    \<and> (\<exists>r \<in> set (pathways (wstore demo_executed)). row_id r = str ''p'' \<and> \<not> before_run (row_state r))"
  using dispatch_authorised [OF demo_policy demo_executed_reachable, of
      "\<lparr>dp_pathway = str ''p'', dp_attempt = str ''a1'', dp_actor = str ''x''\<rparr>"]
  by (auto simp: demo_dispatched)

text \<open>
  C3. The evidence of every pathway verifies: in every reachable world \<open>verify_chain\<close> accepts
  the stored events of every pathway, whatever was interrupted on the way.
\<close>
theorem evidence_verifies:
  assumes "policy_ok (cpolicy cfg)" "reachable cfg w"
  shows "verify_chain (cenv cfg) (events_of (wstore w) p) = Inr (True, None, None)"
  using reachable_inv [OF assms(2,1)] by (simp add: inv_def chains_ok_def verify_chain_iff)

theorem evidence_verifies_witness:
  "verify_chain run_env (events_of (wstore demo_executed) (str ''p'')) = Inr (True, None, None)"
  using evidence_verifies [OF demo_policy demo_executed_reachable] by simp

text \<open>
  C4. A registered pathway is never lost or rewritten: after any calls its row is still there
  with the same definition document, fingerprint and idempotency key, its state has moved
  along the transition table only, and a terminal state is final.
\<close>
theorem pathway_follows_lifecycle:
  assumes "policy_ok (cpolicy cfg)" "reachable cfg w" "(call cfg)\<^sup>*\<^sup>* w w'"
    "r \<in> set (pathways (wstore w))"
  shows "\<exists>r' \<in> set (pathways (wstore w')). row_id r' = row_id r \<and> row_doc r' = row_doc r
    \<and> row_fingerprint r' = row_fingerprint r \<and> row_key r' = row_key r
    \<and> lifecycle (row_state r) (row_state r')
    \<and> (row_state r' = row_state r \<or> row_state r \<in> set pathway_states - set terminal_states)"
proof -
  from reachable_progress [OF assms(2,1,3)] assms(4) obtain r' where
    r': "r' \<in> set (pathways (wstore w'))" "row_after r r'" by (auto simp: progress_def)
  moreover have "row_state r \<in> set pathway_states" by (cases "row_state r") (simp_all add: pathway_states_def)
  ultimately show ?thesis using terminal_lifecycle unfolding row_after_def by blast
qed

theorem pathway_follows_lifecycle_witness:
  "\<exists>r r'. r \<in> set (pathways (wstore demo_registered)) \<and> r' \<in> set (pathways (wstore demo_executed))
    \<and> row_id r' = row_id r \<and> lifecycle (row_state r) (row_state r')"
proof -
  obtain r where r: "r \<in> set (pathways (wstore demo_registered))"
    using demo_registered_row by (metis list.set_intros(1))
  with pathway_follows_lifecycle [OF demo_policy demo_registered_reachable demo_execute_calls r]
  show ?thesis by blast
qed

text \<open>C5. Evidence is append-only: later calls never change or remove a stored event.\<close>
theorem evidence_append_only:
  assumes "policy_ok (cpolicy cfg)" "reachable cfg w" "(call cfg)\<^sup>*\<^sup>* w w'"
  shows "\<exists>es. events_of (wstore w') p = events_of (wstore w) p @ es"
  using reachable_progress [OF assms(2,1,3)] by (simp add: progress_def)

theorem evidence_append_only_witness:
  "\<exists>es. events_of (wstore demo_executed) (str ''p'') = events_of (wstore demo_registered) (str ''p'') @ es"
  by (rule evidence_append_only [OF demo_policy demo_registered_reachable demo_execute_calls])

text \<open>
  A running pathway is bound to an attempt: in every reachable world the runtime finds,
  for every running pathway, the attempt that its evidence binds it to.
\<close>
theorem running_pathway_bound:
  assumes "policy_ok (cpolicy cfg)" "reachable cfg w"
    "r \<in> set (pathways (wstore w))" "row_state r = RUNNING"
    "store_faults (wstore w) = []" "text_ok (row_id r)"
  shows "\<exists>a. active_running_attempt_id (row_id r) w = (Inr a, w)"
proof -
  from reachable_inv [OF assms(2,1)] assms(3,4) obtain a where "bound_to w (row_id r) a"
    by (auto simp: inv_def bindings_ok_def)
  with assms(5,6) show ?thesis
    by (simp add: active_running_attempt_id_def events_def in_store_def zoom_def store_tx_def db_step_def
        bnd_def bind_text_def check_def bound_to_def)
qed

theorem running_pathway_bound_witness:
  "\<exists>a. active_running_attempt_id (str ''p'') demo_executed = (Inr a, demo_executed)"
  using demo_executed_row running_pathway_bound [OF demo_policy demo_executed_reachable]
  by (metis list.set_intros(1) text_ok_str)

text \<open>
  C7. What \<open>execute\<close> dispatches: with an executor that starts no execution of its own, the
  dispatch log grows by at most the requested attempt, and only when the pathway is approved,
  or running for this very attempt, the caller is its execution actor, and the ledger holds
  no such attempt or one that was recorded before the pathway started. A recorded result or
  an attempt of a started pathway is never dispatched again.
\<close>
theorem execute_dispatches:
  assumes "dispatch_free (ex q)"
  shows "wdispatched (snd (execute cfg p q actor ex w)) = wdispatched w
    \<or> wdispatched (snd (execute cfg p q actor ex w)) = dispatch_of p q actor # wdispatched w
      \<and> may_dispatch cfg p q actor w"
  using execute_dispatch [where ex = ex, OF assms surjective_pairing, of cfg p actor w] .

theorem execute_dispatches_witness:
  "wdispatched demo_executed = [dispatch_of (str ''p'') demo_request (str ''x'')]
    \<and> may_dispatch demo_config (str ''p'') demo_request (str ''x'') demo_registered"
  using execute_dispatches [where ex = demo_executor and q = demo_request, of demo_config "str ''p''"
      "str ''x''" demo_registered]
  by (simp add: demo_executed_def [symmetric] demo_dispatched demo_executor_free demo_registered_dispatches)

text \<open>
  C8. What \<open>execute\<close> returns agrees with the stored pathway, whatever the executor did: a
  result other than an unknown one is returned only once the pathway is in the state that the
  result calls for (completed by a verified success, in repair after a failure).
\<close>
theorem execute_result_settled:
  "case execute cfg p q actor ex w of
     (Inl _, _) \<Rightarrow> True
   | (Inr r, w') \<Rightarrow> status r = STATUS_UNKNOWN
       \<or> (\<exists>row. find_row p (pathways (wstore w')) = Some row \<and> row_state row = settled_state r)"
  using execute_agrees [of cfg p q actor ex] unfolding returns_def agrees_def
  by (auto split: sum.splits prod.splits)

text \<open>
  Closing a pathway with a result moves it to the state the result calls for and to no
  other, from that state, from running or from an unknown outcome only; completion takes a
  verified success. When it raises, nothing has changed.
\<close>
theorem finish_settles:
  "case finish_execution_pathway cfg p q actor r w of
     (Inl _, w') \<Rightarrow> same_data w w'
   | (Inr _, w') \<Rightarrow> (\<exists>row. find_row p (pathways (wstore w)) = Some row
       \<and> row_state row \<in> {settled_state r, RUNNING, WRITE_STATUS_UNKNOWN}
       \<and> find_row p (pathways (wstore w')) = Some (row\<lparr>row_state := settled_state r\<rparr>))
     \<and> (settled_state r = COMPLETED \<longleftrightarrow> verified_success r)"
  using finish_execution_result [of cfg p q actor r w, OF surjective_pairing]
  by (cases "finish_execution_pathway cfg p q actor r w"; cases "fst (finish_execution_pathway cfg p q actor r w)")
    (auto simp: settled_def settled_state_def)

text \<open>
  C10. A generic transition either raises and changes nothing, or moves the pathway along the
  state machine, on the authority the target calls for, never to running or aborted and never
  from an unknown write to completed, together with its event.
\<close>
theorem transition_contract:
  "case transition cfg p t actor reason w of
     (Inl _, w') \<Rightarrow> same_data w w'
   | (Inr s, w') \<Rightarrow> s = t \<and> t \<notin> {RUNNING, ABORTED}
       \<and> (\<exists>r d. find_row p (pathways (wstore w)) = Some r \<and> definition_of cfg r = Some d
          \<and> t \<in> set (allowed_transitions (row_state r)) \<and> may_move d (row_state r) (strip actor) t
          \<and> (row_state r, t) \<noteq> (WRITE_STATUS_UNKNOWN, COMPLETED)
          \<and> moved cfg p (row_state r) t ''state_transition'' actor [(''reason'', PStr reason)] w w')"
proof -
  have "transition_done cfg p t actor reason w w' \<Longrightarrow> t \<notin> {RUNNING, ABORTED}" for w'
    by (cases t) (auto simp: transition_done_def)
  moreover have "transition_done cfg p t actor reason w w' \<Longrightarrow>
      find_row p (pathways (wstore w)) = Some r \<Longrightarrow> (row_state r, t) \<noteq> (WRITE_STATUS_UNKNOWN, COMPLETED)" for w' r
    by (auto simp: transition_done_def)
  ultimately show ?thesis
    using transition_result [of cfg p t actor reason w, OF surjective_pairing]
    by (cases "transition cfg p t actor reason w"; cases "fst (transition cfg p t actor reason w)")
      (fastforce simp: transition_done_def)+
qed

text \<open>
  C11. Registration stores the stricter of the inspection's and the engine's decision: the
  state of a fresh pathway is the one that decision calls for and its registration is
  recorded; a replay returns the stored row of the same key, id and fingerprint and changes
  nothing. When it raises, nothing has changed, or the row is stored and its registration
  event is missing.
\<close>
theorem register_contract:
  "case register cfg d key w of
     (Inl _, w') \<Rightarrow> same_data w w' \<or> (\<exists>st. inserted_row cfg d key st w w' \<and> same_events w w')
   | (Inr res, w') \<Rightarrow> \<exists>dec codes raw. evaluate_rpe cfg d = Inr (dec, codes, raw)
       \<and> reg_pathway_id res = pathway_id d
       \<and> reg_decision res = max (decision (inspect_pathway d)) dec
       \<and> (if reg_replayed res then replayed_registration cfg d key (reg_state res) w w'
          else reg_state res = initial_state (reg_decision res) (approval_authority d \<noteq> None)
            \<and> fresh_registration cfg d key (reg_state res) w w')"
proof (cases "evaluate_rpe cfg d")
  case (Inl e)
  then show ?thesis by (simp add: register_def Let_def comb_defs)
next
  case (Inr x)
  obtain dec codes raw where x: "evaluate_rpe cfg d = Inr (dec, codes, raw)" using Inr by (cases x) auto
  show ?thesis
    using wp_register [OF x refl refl, of key w] x
    by (cases "register cfg d key w"; cases "fst (register cfg d key w)") (auto simp: wp_def)
qed

text \<open>
  Registration fails closed: without a policy engine no registration grants approval or
  asks for it; the pathway is held, gated or denied.
\<close>
theorem register_without_engine:
  "case register (cfg\<lparr>crpe := unavailable_evaluate\<rparr>) d key w of
     (Inl _, _) \<Rightarrow> True
   | (Inr res, _) \<Rightarrow> HOLD \<le> reg_decision res
       \<and> (reg_replayed res \<or> reg_state res \<in> {HELD, HUMAN_GATE, DENIED})"
proof -
  let ?cfg = "cfg\<lparr>crpe := unavailable_evaluate\<rparr>"
  have r: "evaluate_rpe ?cfg d = Inr (HOLD, [str ''rpe_unavailable''], [])"
    by (simp add: evaluate_rpe_def unavailable_evaluate_def hold_result_def)
  have "initial_state (max x HOLD) b \<in> {HELD, HUMAN_GATE, DENIED}" for x b
    by (cases x) (simp_all add: initial_state_def max_def less_eq_runtime_decision_def)
  note i = this [of "decision (inspect_pathway d)" "approval_authority d \<noteq> None"]
  show ?thesis
    using i wp_register [OF r refl refl, of key w]
    by (cases "register ?cfg d key w"; cases "fst (register ?cfg d key w)") (auto simp: wp_def)
qed

text \<open>
  C13. Repair completes only with evidence, a failed and finished attempt of this pathway,
  the pathway in repair and its repair owner acting; otherwise it changes nothing.
\<close>
theorem repair_contract:
  "case complete_repair cfg p actor prior ev reason c w of
     (Inl _, w') \<Rightarrow> same_data w w'
   | (Inr s, w') \<Rightarrow> s = READY_TO_RESUME \<and> repair_done cfg p actor prior ev reason w w'"
  using repair_result [of cfg p actor prior ev reason c w, OF surjective_pairing]
  by (cases "complete_repair cfg p actor prior ev reason c w") (simp split: sum.splits)

text \<open>
  C14. A pathway resumes only for a new attempt identity, after the failed attempt that the
  latest completed repair names, on the authority of its execution actor or resume authority;
  otherwise nothing changes.
\<close>
theorem resume_contract:
  "case resume cfg p actor prior nxt reason w of
     (Inl _, w') \<Rightarrow> same_data w w'
   | (Inr s, w') \<Rightarrow> s = RUNNING \<and> resume_done cfg p actor prior nxt reason w w'"
  using resume_result [of cfg p actor prior nxt reason w, OF surjective_pairing]
  by (cases "resume cfg p actor prior nxt reason w") (simp split: sum.splits)

text \<open>
  C15. A pathway is aborted only by its residual owner, with its residuals stated and from a
  state that allows it; otherwise nothing changes.
\<close>
theorem abort_contract:
  "case abort_with_residuals cfg p actor residuals reason w of
     (Inl _, w') \<Rightarrow> same_data w w'
   | (Inr s, w') \<Rightarrow> s = ABORTED \<and> abort_done cfg p actor residuals reason w w'"
  using abort_result [of cfg p actor residuals reason w, OF surjective_pairing]
  by (cases "abort_with_residuals cfg p actor residuals reason w") (simp split: sum.splits)

end
